(* ===== verification/Prelude.thy ===== *)
theory Prelude
  imports Main "HOL-Library.AList" "HOL-Library.Monad_Syntax"
begin

text \<open>
  What every component shares.
  \<^item> \<open>jmap\<close>: the JavaScript \<open>Map\<close>. It is insertion ordered, \<open>set\<close> on a present key keeps the
    position of the key, \<open>keys().next()\<close> is the oldest key. An association list with the
    library's \<^const>\<open>AList.update\<close> and \<^const>\<open>AList.delete\<close> behaves in exactly this way.
  \<^item> \<open>push_capped\<close>: the push-then-splice idiom by which the program bounds its buffers, and the
    locale of the clients that use it.
  \<^item> \<open>guarded_machine\<close>: the locale of a component whose operations keep an invariant; it lifts
    the one-step lemma to any sequence of operations.
  \<^item> times: milliseconds since the epoch, as \<open>int\<close>; an operation that reads the clock takes the
    reading as an argument.
\<close>

named_theorems jmap_simps \<open>lookups in the association lists that stand for JavaScript maps\<close>

section \<open>JavaScript maps\<close>

type_synonym ms = int
type_synonym ('k, 'v) jmap = "('k \<times> 'v) list"

abbreviation jget :: "('k, 'v) jmap \<Rightarrow> 'k \<Rightarrow> 'v option" where
  "jget m k \<equiv> map_of m k"

abbreviation jset :: "'k \<Rightarrow> 'v \<Rightarrow> ('k, 'v) jmap \<Rightarrow> ('k, 'v) jmap" where
  "jset k v m \<equiv> AList.update k v m"

abbreviation jdel :: "'k \<Rightarrow> ('k, 'v) jmap \<Rightarrow> ('k, 'v) jmap" where
  "jdel k m \<equiv> AList.delete k m"

abbreviation jkeys :: "('k, 'v) jmap \<Rightarrow> 'k list" where
  "jkeys m \<equiv> map fst m"

abbreviation jmap_ok :: "('k, 'v) jmap \<Rightarrow> bool" where
  "jmap_ok m \<equiv> distinct (map fst m)"

text \<open>\<open>map.get(k) ?? d\<close>\<close>

definition jget_or :: "'v \<Rightarrow> ('k, 'v) jmap \<Rightarrow> 'k \<Rightarrow> 'v" where
  "jget_or d m k = (case map_of m k of None \<Rightarrow> d | Some v \<Rightarrow> v)"

lemma jget_jset [jmap_simps, simp]: "map_of (AList.update k v m) = (map_of m)(k \<mapsto> v)"
  by (rule update_conv')

lemma jget_jdel [jmap_simps, simp]: "map_of (AList.delete k m) = (map_of m)(k := None)"
  by (rule delete_conv')

lemma jget_or_jset [jmap_simps, simp]:
  "jget_or d (AList.update k v m) k' = (if k' = k then v else jget_or d m k')"
  by (simp add: jget_or_def)

lemma jget_or_jdel [jmap_simps, simp]:
  "jget_or d (AList.delete k m) k' = (if k' = k then d else jget_or d m k')"
  by (simp add: jget_or_def)

lemma jmap_ok_jset [simp, intro]: "jmap_ok m \<Longrightarrow> jmap_ok (AList.update k v m)"
  by (rule distinct_update)

lemma jmap_ok_jdel [simp, intro]: "jmap_ok m \<Longrightarrow> jmap_ok (AList.delete k m)"
  by (rule distinct_delete)

lemma jmap_ok_filter [simp, intro]: "jmap_ok m \<Longrightarrow> jmap_ok (filter P m)"
  by (induction m) auto

lemma map_of_filter:
  "jmap_ok m \<Longrightarrow> map_of (filter (\<lambda>(k, v). P k v) m) k =
     (case map_of m k of None \<Rightarrow> None | Some v \<Rightarrow> if P k v then Some v else None)"
proof (induction m)
  case (Cons p m)
  obtain a b where p: "p = (a, b)" by (cases p)
  have "a \<notin> fst ` set m \<Longrightarrow> map_of m a = None"
    by (simp add: map_of_eq_None_iff)
  with Cons p show ?case by (auto split: option.splits)
qed simp

lemma jset_new: "k \<notin> fst ` set m \<Longrightarrow> AList.update k v m = m @ [(k, v)]"
  by (induction m) auto

lemma length_jset:
  "length (AList.update k v m) = (if k \<in> fst ` set m then length m else Suc (length m))"
  by (induction m) auto

section \<open>Capped buffers\<close>

text \<open>
  \<open>buffer.push(x); if (buffer.length > N) buffer.splice(0, buffer.length - N)\<close>: the idiom of the
  batchers and of the event bus history.
\<close>

definition push_capped :: "nat \<Rightarrow> 'a \<Rightarrow> 'a list \<Rightarrow> 'a list" where
  "push_capped cap x xs =
     (let ys = xs @ [x] in if length ys > cap then drop (length ys - cap) ys else ys)"

definition last_n :: "nat \<Rightarrow> 'a list \<Rightarrow> 'a list" where
  "last_n n xs = drop (length xs - n) xs"

lemma push_capped_last_n: "push_capped cap x xs = last_n cap (xs @ [x])"
  by (simp add: push_capped_def last_n_def Let_def)

lemma length_last_n [simp]: "length (last_n n xs) = min n (length xs)"
  by (simp add: last_n_def)

lemma last_n_all [simp]: "length xs \<le> n \<Longrightarrow> last_n n xs = xs"
  by (simp add: last_n_def)

lemma last_n_last_n_snoc: "last_n n (last_n n xs @ [x]) = last_n n (xs @ [x])"
  by (cases "length xs \<le> n") (auto simp: last_n_def Suc_diff_le)

lemma last_n_suffix: "\<exists>ys. xs = ys @ last_n n xs"
  by (rule exI [of _ "take (length xs - n) xs"]) (simp add: last_n_def)

lemma set_last_n: "set (last_n n xs) \<subseteq> set xs"
  by (simp add: last_n_def set_drop_subset)

text \<open>
  The contract of a buffer that keeps the newest elements: its clients need only that a push on a
  well-formed buffer keeps the last \<open>cap\<close> of what was there and the new element.
\<close>

locale newest_buffer =
  fixes cap :: nat
    and push :: "'x \<Rightarrow> 'b \<Rightarrow> 'b"
    and contents :: "'b \<Rightarrow> 'x list"
    and wf :: "'b \<Rightarrow> bool"
  assumes wf_push: "wf b \<Longrightarrow> wf (push x b)"
    and contents_push: "wf b \<Longrightarrow> contents (push x b) = last_n cap (contents b @ [x])"
begin

lemma wf_fold_push: "wf b \<Longrightarrow> wf (fold push xs b)"
  by (induction xs arbitrary: b) (auto intro: wf_push)

lemma contents_push_le: "wf b \<Longrightarrow> length (contents (push x b)) \<le> cap"
  by (simp add: contents_push)

lemma contents_fold_push:
  "wf b \<Longrightarrow> length (contents b) \<le> cap \<Longrightarrow> contents (fold push xs b) = last_n cap (contents b @ xs)"
proof (induction xs rule: rev_induct)
  case (snoc x xs)
  then show ?case
    by (simp add: contents_push wf_fold_push last_n_last_n_snoc flip: append_assoc)
qed simp

lemma contents_fold_push_le:
  "wf b \<Longrightarrow> length (contents b) \<le> cap \<Longrightarrow> length (contents (fold push xs b)) \<le> cap"
  by (simp add: contents_fold_push)

end

section \<open>Operations that keep an invariant\<close>

text \<open>
  A component seen from outside: operations that take a state to a state, an invariant, a
  condition on the arguments under which an operation keeps it. Whatever sequence of operations
  the rest of the program runs, the invariant holds afterwards.
\<close>

locale guarded_machine =
  fixes step :: "'op \<Rightarrow> 's \<Rightarrow> 's"
    and admissible :: "'op \<Rightarrow> bool"
    and inv :: "'s \<Rightarrow> bool"
  assumes step_inv: "inv s \<Longrightarrow> admissible a \<Longrightarrow> inv (step a s)"
begin

lemma run_inv: "inv s \<Longrightarrow> list_all admissible as \<Longrightarrow> inv (fold step as s)"
  by (induction as arbitrary: s) (auto intro: step_inv)

end

section \<open>Counting\<close>

lemma length_filter_mono_on: "\<forall>x \<in> set xs. P x \<longrightarrow> Q x \<Longrightarrow> length (filter P xs) \<le> length (filter Q xs)"
  by (induction xs) auto

section \<open>Rotations and remainders\<close>

lemma mod_Suc_add: "((c + i) mod n + 1) mod n = (c + Suc i) mod (n :: nat)"
  by (simp add: mod_Suc_eq)

lemma nth_rotate_map:
  "xs \<noteq> [] \<Longrightarrow> map (\<lambda>i. xs ! ((c + i) mod length xs)) [0..<length xs] = rotate c xs"
  by (rule nth_equalityI) (auto simp: nth_rotate add.commute)

section \<open>Changing the first element that fits\<close>

text \<open>\<open>const x = list.find(p); if (x) x.field = ...\<close>: the objects of a list are changed in place.\<close>

fun update_first :: "('a \<Rightarrow> bool) \<Rightarrow> ('a \<Rightarrow> 'a) \<Rightarrow> 'a list \<Rightarrow> 'a list" where
  "update_first P f [] = []"
| "update_first P f (x # xs) = (if P x then f x # xs else x # update_first P f xs)"

lemma update_first_none: "find P xs = None \<Longrightarrow> update_first P f xs = xs"
  by (induction xs) (auto split: if_splits)

lemma list_all_update_first:
  "list_all Q xs \<Longrightarrow> (\<And>x. P x \<Longrightarrow> Q x \<Longrightarrow> Q (f x)) \<Longrightarrow> list_all Q (update_first P f xs)"
  by (induction xs) auto

lemma map_update_first [simp]: "(\<And>x. P x \<Longrightarrow> g (f x) = g x) \<Longrightarrow> map g (update_first P f xs) = map g xs"
  by (induction xs) auto

lemma length_update_first [simp]: "length (update_first P f xs) = length xs"
  by (induction xs) auto

lemma update_first_mem:
  "y \<in> set (update_first P f xs) \<Longrightarrow> y \<in> set xs \<or> (\<exists>x \<in> set xs. P x \<and> y = f x)"
  by (induction xs) (auto split: if_splits)

section \<open>Replacing in texts\<close>

text \<open>\<open>split(v).join(r)\<close> and \<open>replaceAll\<close> of a non-empty text.\<close>

function replace_all :: "'a list \<Rightarrow> 'a list \<Rightarrow> 'a list \<Rightarrow> 'a list" where
  "replace_all v r [] = []"
| "replace_all v r (c # cs) =
     (if v \<noteq> [] \<and> take (length v) (c # cs) = v then r @ replace_all v r (drop (length v) (c # cs))
      else c # replace_all v r cs)"
  by pat_completeness auto
termination by (relation "measure (\<lambda>(v, r, t). length t)") (auto simp: neq_Nil_conv)

end
