(* ===== verification/BotState.thy ===== *)
theory BotState
  imports Prelude
begin

text \<open>
  The bot life-cycle machine, packages/core/src/state-machine/bot-state.ts: the two enums, the
  transition table (each row in the order of the source, which \<open>getValidTransitions\<close> exposes),
  the three functions over it and the class \<open>BotStateMachine\<close>. A listener is an opaque value
  \<open>'h\<close>; what calling it does is an argument of \<open>dispatch\<close>: its promise is fulfilled or
  rejected, or the call itself throws before it returns a promise. A listener that drives the
  same machine again is outside the model.
\<close>

section \<open>States, transitions, the table\<close>

datatype bot_state = Idle | Connecting | Running | Paused | Error | Reconnecting | Disconnecting | Removed

datatype bot_transition =
  Start | Stop | Pause | Resume | Connect | Disconnect | Fail | Reconnect | Remove | Timeout

fun transitions :: "bot_state \<Rightarrow> (bot_transition, bot_state) jmap" where
  "transitions Idle = [(Start, Connecting), (Connect, Connecting), (Remove, Removed)]"
| "transitions Connecting = [(Connect, Running), (Fail, Error), (Timeout, Error), (Stop, Idle)]"
| "transitions Running =
     [(Stop, Idle), (Pause, Paused), (Fail, Error), (Disconnect, Idle), (Reconnect, Reconnecting)]"
| "transitions Paused = [(Resume, Running), (Stop, Idle), (Fail, Error)]"
| "transitions Error =
     [(Reconnect, Reconnecting), (Start, Connecting), (Resume, Connecting), (Stop, Idle), (Remove, Removed)]"
| "transitions Reconnecting = [(Connect, Running), (Fail, Error), (Stop, Idle), (Timeout, Error)]"
| "transitions Disconnecting = [(Disconnect, Idle), (Fail, Error)]"
| "transitions Removed = []"

definition canTransition :: "bot_state \<Rightarrow> bot_transition \<Rightarrow> bool" where
  "canTransition from_st t \<longleftrightarrow> jget (transitions from_st) t \<noteq> None"

text \<open>The thrown errors. A state outside the enum ("Unknown state") is excluded by the type.\<close>

datatype sm_error =
    InvalidTransition bot_transition bot_state
  | CannotTransition bot_state bot_transition
  | ListenerThrew

definition applyTransition :: "bot_state \<Rightarrow> bot_transition \<Rightarrow> sm_error + bot_state" where
  "applyTransition from_st t =
     (case jget (transitions from_st) t of
        None \<Rightarrow> Inl (InvalidTransition t from_st)
      | Some to_st \<Rightarrow> Inr to_st)"

definition getValidTransitions :: "bot_state \<Rightarrow> bot_transition list" where
  "getValidTransitions s = jkeys (transitions s)"

section \<open>The machine and its listeners\<close>

record 'h machine =
  m_state :: bot_state
  m_listeners :: "(bot_transition, 'h list) jmap"

definition new_machine :: "bot_state \<Rightarrow> 'h machine" where
  "new_machine s = \<lparr>m_state = s, m_listeners = []\<rparr>"

definition can :: "'h machine \<Rightarrow> bot_transition \<Rightarrow> bool" where
  "can m t = canTransition (m_state m) t"

definition handlers_of :: "'h machine \<Rightarrow> bot_transition \<Rightarrow> 'h list" where
  "handlers_of m t = jget_or [] (m_listeners m) t"

definition on_transition :: "bot_transition \<Rightarrow> 'h \<Rightarrow> 'h machine \<Rightarrow> 'h machine" where
  "on_transition t h m = m\<lparr>m_listeners := jset t (handlers_of m t @ [h]) (m_listeners m)\<rparr>"

definition off_transition :: "bot_transition \<Rightarrow> 'h option \<Rightarrow> 'h machine \<Rightarrow> 'h machine" where
  "off_transition t ho m =
     (case ho of
        Some h \<Rightarrow>
          (case jget (m_listeners m) t of
             None \<Rightarrow> m
           | Some hs \<Rightarrow>
               (let hs' = remove1 h hs
                in m\<lparr>m_listeners := (if hs' = [] then jdel t (m_listeners m)
                                      else jset t hs' (m_listeners m))\<rparr>))
      | None \<Rightarrow> m\<lparr>m_listeners := jdel t (m_listeners m)\<rparr>)"

datatype listener_outcome = Fulfilled | Rejected | Throws

text \<open>\<open>handlers.map(h => ...)\<close>: which listeners get called, and whether all the calls returned.\<close>

fun call_listeners :: "('h \<Rightarrow> listener_outcome) \<Rightarrow> 'h list \<Rightarrow> 'h list \<times> bool" where
  "call_listeners out [] = ([], True)"
| "call_listeners out (h # hs) =
     (if out h = Throws then ([h], False)
      else (case call_listeners out hs of (called, ok) \<Rightarrow> (h # called, ok)))"

text \<open>
  \<open>dispatch\<close>: the new machine, the listeners called in order, and the outcome of its promise. The
  state has already changed when a listener throws; a rejected listener is logged and ignored.
\<close>

definition dispatch ::
  "('h \<Rightarrow> bot_state \<Rightarrow> bot_state \<Rightarrow> listener_outcome) \<Rightarrow> bot_transition \<Rightarrow> 'h machine
   \<Rightarrow> 'h machine \<times> 'h list \<times> (sm_error + bot_state)" where
  "dispatch out t m =
     (if \<not> can m t then (m, [], Inl (CannotTransition (m_state m) t))
      else case applyTransition (m_state m) t of
             Inl e \<Rightarrow> (m, [], Inl e)
           | Inr to_st \<Rightarrow>
               (case call_listeners (\<lambda>h. out h (m_state m) to_st) (handlers_of m t) of
                  (called, ok) \<Rightarrow>
                    (m\<lparr>m_state := to_st\<rparr>, called, if ok then Inr to_st else Inl ListenerThrew)))"

definition reset_machine :: "bot_state \<Rightarrow> 'h machine \<Rightarrow> 'h machine" where
  "reset_machine s m = m\<lparr>m_state := s\<rparr>"

definition isActive :: "'h machine \<Rightarrow> bool" where
  "isActive m \<longleftrightarrow> m_state m = Running \<or> m_state m = Connecting"

definition isStopped :: "'h machine \<Rightarrow> bool" where
  "isStopped m \<longleftrightarrow> m_state m = Idle \<or> m_state m = Removed"

definition isFailed :: "'h machine \<Rightarrow> bool" where
  "isFailed m \<longleftrightarrow> m_state m = Error"

section \<open>The step relation behind the table\<close>

inductive bot_step :: "bot_state \<Rightarrow> bot_state \<Rightarrow> bool" where
  step: "jget (transitions s) t = Some s' \<Longrightarrow> bot_step s s'"

inductive_simps bot_step_Removed [simp]: "bot_step Removed s"
inductive_cases bot_step_elim: "bot_step s s'"

lemma bot_step_not_to_Disconnecting: "\<not> bot_step s Disconnecting"
  by (auto elim!: bot_step_elim; cases s; auto split: if_splits)

lemma bot_step_to_Removed: "bot_step s Removed \<Longrightarrow> s = Idle \<or> s = Error"
  by (auto elim!: bot_step_elim; cases s; auto split: if_splits)

lemma bot_step_to_Idle: "s \<noteq> Removed \<Longrightarrow> s \<noteq> Idle \<Longrightarrow> bot_step s Idle"
  by (cases s) (auto intro: step [where t = Stop] step [where t = Disconnect])

lemma applyTransition_step: "applyTransition s t = Inr s' \<longleftrightarrow> jget (transitions s) t = Some s'"
  by (auto simp: applyTransition_def split: option.splits)

lemma transitions_distinct: "distinct (jkeys (transitions s))"
  by (cases s) simp_all

section \<open>Dispatch\<close>

lemma call_listeners_no_throw:
  "\<forall>h \<in> set hs. out h \<noteq> Throws \<Longrightarrow> call_listeners out hs = (hs, True)"
  by (induction hs) auto

lemma dispatch_illegal:
  "\<not> canTransition (m_state m) t \<Longrightarrow> dispatch out t m = (m, [], Inl (CannotTransition (m_state m) t))"
  by (simp add: dispatch_def can_def)

lemma dispatch_legal:
  assumes "jget (transitions (m_state m)) t = Some s'"
    and "\<forall>h \<in> set (handlers_of m t). out h (m_state m) s' \<noteq> Throws"
  shows "dispatch out t m = (m\<lparr>m_state := s'\<rparr>, handlers_of m t, Inr s')"
  using assms by (simp add: dispatch_def can_def canTransition_def applyTransition_def call_listeners_no_throw)

lemma dispatch_state:
  "m_state (fst (dispatch out t m)) =
     (case jget (transitions (m_state m)) t of None \<Rightarrow> m_state m | Some s' \<Rightarrow> s')"
  by (simp add: dispatch_def can_def canTransition_def applyTransition_def split: option.splits prod.splits)

lemma dispatch_listeners: "m_listeners (fst (dispatch out t m)) = m_listeners m"
  by (simp add: dispatch_def split: sum.splits prod.splits)

lemma dispatch_step:
  "m_state (fst (dispatch out t m)) = m_state m \<or> bot_step (m_state m) (m_state (fst (dispatch out t m)))"
  by (auto simp: dispatch_state intro: step split: option.splits)

text \<open>A run of the machine: any sequence of dispatched transitions, legal or not.\<close>

definition run_dispatch ::
  "('h \<Rightarrow> bot_state \<Rightarrow> bot_state \<Rightarrow> listener_outcome) \<Rightarrow> bot_transition list \<Rightarrow> 'h machine \<Rightarrow> 'h machine" where
  "run_dispatch out ts m = fold (\<lambda>t m. fst (dispatch out t m)) ts m"

lemma run_dispatch_simps [simp]:
  "run_dispatch out [] m = m"
  "run_dispatch out (t # ts) m = run_dispatch out ts (fst (dispatch out t m))"
  by (simp_all add: run_dispatch_def)

lemma run_dispatch_steps: "bot_step\<^sup>*\<^sup>* (m_state m) (m_state (run_dispatch out ts m))"
proof (induction ts arbitrary: m)
  case (Cons t ts)
  have "bot_step\<^sup>*\<^sup>* (m_state m) (m_state (fst (dispatch out t m)))"
    using dispatch_step [of out t m] by auto
  also have "bot_step\<^sup>*\<^sup>* \<dots> (m_state (run_dispatch out (t # ts) m))"
    using Cons.IH by simp
  finally show ?case .
qed simp

lemma reachable_Removed: "bot_step\<^sup>*\<^sup>* s s' \<Longrightarrow> s = Removed \<Longrightarrow> s' = Removed"
  by (induction rule: rtranclp_induct) auto

lemma reachable_not_Disconnecting:
  "bot_step\<^sup>*\<^sup>* s s' \<Longrightarrow> s \<noteq> Disconnecting \<Longrightarrow> s' \<noteq> Disconnecting"
  by (induction rule: rtranclp_induct) (auto simp: bot_step_not_to_Disconnecting)

section \<open>Registration\<close>

lemma handlers_on [simp]:
  "handlers_of (on_transition t h m) t' = (if t' = t then handlers_of m t @ [h] else handlers_of m t')"
  by (simp add: on_transition_def handlers_of_def)

lemma handlers_off_all [simp]:
  "handlers_of (off_transition t None m) t' = (if t' = t then [] else handlers_of m t')"
  by (simp add: off_transition_def handlers_of_def)

lemma handlers_off_one [simp]:
  "handlers_of (off_transition t (Some h) m) t' =
     (if t' = t then remove1 h (handlers_of m t) else handlers_of m t')"
  by (auto simp: off_transition_def handlers_of_def jget_or_def Let_def split: option.splits)

section \<open>Properties\<close>

text \<open>
  A dispatched transition does what the table says: if the table has no entry the promise is
  rejected with the machine unchanged and nobody is called; otherwise the machine is in the target
  state, every listener of the transition was called once, in registration order, with nothing else
  changed, and the promise yields the target, even if listeners reject.
\<close>

lemma dispatch_follows_table:
  assumes "\<forall>h \<in> set (handlers_of m t). \<forall>s'. out h (m_state m) s' \<noteq> Throws"
  shows "dispatch out t m =
    (case jget (transitions (m_state m)) t of
       None \<Rightarrow> (m, [], Inl (CannotTransition (m_state m) t))
     | Some s' \<Rightarrow> (m\<lparr>m_state := s'\<rparr>, handlers_of m t, Inr s'))"
  using assms by (auto simp: dispatch_illegal dispatch_legal canTransition_def split: option.split)

theorem dispatch_follows_table_witness:
  "dispatch (\<lambda>h s s'. Rejected) Connect (on_transition Connect (7::nat) (new_machine Idle)) =
     (\<lparr>m_state = Connecting, m_listeners = [(Connect, [7])]\<rparr>, [7], Inr Connecting)"
  by (subst dispatch_follows_table) (simp_all add: new_machine_def on_transition_def handlers_of_def jget_or_def)

text \<open>
  A bot started from \<open>Idle\<close> is never in \<open>Disconnecting\<close>, whatever is dispatched (the table
  has no transition into that state), and once \<open>Removed\<close> it stays removed.
\<close>

theorem lifecycle_reachability:
  "m_state (run_dispatch out ts (new_machine Idle)) \<noteq> Disconnecting \<and>
   (m_state m = Removed \<longrightarrow> m_state (run_dispatch out ts m) = Removed)"
  by (simp add: reachable_not_Disconnecting [OF run_dispatch_steps] reachable_Removed [OF run_dispatch_steps]
      new_machine_def)

theorem lifecycle_reachability_witness:
  "m_state (run_dispatch (\<lambda>(h::nat) s s'. Fulfilled) [Start, Connect, Disconnect, Remove, Start] (new_machine Idle)) = Removed \<and>
   m_state (run_dispatch (\<lambda>(h::nat) s s'. Fulfilled) [Start] (new_machine Removed)) = Removed"
  using lifecycle_reachability [of "\<lambda>(h::nat) s s'. Fulfilled" "[Start]" "new_machine Removed"]
  by (simp add: new_machine_def dispatch_state)

text \<open>
  From every state but \<open>Removed\<close> some dispatch sequence of at most two transitions stops the bot
  and removes it: no state is a trap.
\<close>

theorem always_removable:
  assumes "m_state m \<noteq> Removed"
  shows "\<exists>ts. length ts \<le> 2 \<and> m_state (run_dispatch out ts m) = Removed"
proof -
  have "\<exists>t s'. jget (transitions (m_state m)) t = Some s' \<and> (s' = Idle \<or> s' = Removed)"
    using assms by (cases "m_state m") (auto intro: exI [of _ Remove] exI [of _ Stop] exI [of _ Disconnect])
  then obtain t s' where t: "jget (transitions (m_state m)) t = Some s'" "s' = Idle \<or> s' = Removed"
    by blast
  from t(2) have "m_state (run_dispatch out [t, Remove] m) = Removed"
    using t(1) by (auto simp: dispatch_state)
  then show ?thesis by (intro exI [of _ "[t, Remove]"]) simp
qed

theorem always_removable_witness:
  "\<exists>ts. length ts \<le> 2 \<and> m_state (run_dispatch (\<lambda>(h::nat) s s'. Fulfilled) ts (new_machine Running)) = Removed"
  by (rule always_removable) (simp add: new_machine_def)

end
