(* ===== verification/CircuitBreaker.thy ===== *)
theory CircuitBreaker
  imports Prelude
begin

text \<open>
  The per-bot connection circuit breaker, packages/core/src/resilience/circuit-breaker.ts. The
  record has the private fields of the class, the options record the optional settings with the
  defaults of the getters. Thresholds and counters are natural numbers. Each read of the clock
  (\<open>this.now\<close>) is an argument, two where a method reads it twice. Tracing spans are not modelled.
  \<^item> \<open>abs_breaker\<close> is the contract the file's header describes; \<open>breaker_refines\<close> shows that the
    class implements it.
  \<^item> Over runs: the cooldown is respected, probes are bounded, the breaker is never stuck.
\<close>

section \<open>State and options\<close>

datatype circuit_state = Closed | Open | HalfOpen

record cb_options =
  opt_failureThreshold :: "nat option"
  opt_successThreshold :: "nat option"
  opt_resetTimeoutMs :: "ms option"

definition failureThreshold :: "cb_options \<Rightarrow> nat" where
  "failureThreshold opt = (case opt_failureThreshold opt of None \<Rightarrow> 5 | Some n \<Rightarrow> n)"

definition successThreshold :: "cb_options \<Rightarrow> nat" where
  "successThreshold opt = (case opt_successThreshold opt of None \<Rightarrow> 2 | Some n \<Rightarrow> n)"

definition resetTimeoutMs :: "cb_options \<Rightarrow> ms" where
  "resetTimeoutMs opt = (case opt_resetTimeoutMs opt of None \<Rightarrow> 60000 | Some n \<Rightarrow> n)"

record breaker =
  cb_state :: circuit_state
  failures :: nat
  openedAt :: ms
  halfOpenSuccesses :: nat
  probesRemaining :: nat

definition new_breaker :: breaker where
  "new_breaker = \<lparr>cb_state = Closed, failures = 0, openedAt = 0, halfOpenSuccesses = 0, probesRemaining = 0\<rparr>"

section \<open>Operations\<close>

definition tryHalfOpen :: "cb_options \<Rightarrow> ms \<Rightarrow> breaker \<Rightarrow> breaker" where
  "tryHalfOpen opt now b =
     (if cb_state b \<noteq> Open then b
      else if now - openedAt b < resetTimeoutMs opt then b
      else b\<lparr>cb_state := HalfOpen, halfOpenSuccesses := 0, probesRemaining := successThreshold opt\<rparr>)"

definition cb_open :: "ms \<Rightarrow> breaker \<Rightarrow> breaker" where
  "cb_open now b = b\<lparr>cb_state := Open, openedAt := now, halfOpenSuccesses := 0, probesRemaining := 0\<rparr>"

definition cb_close :: "breaker \<Rightarrow> breaker" where
  "cb_close b = b\<lparr>cb_state := Closed, failures := 0, halfOpenSuccesses := 0, probesRemaining := 0\<rparr>"

definition getState :: "cb_options \<Rightarrow> ms \<Rightarrow> breaker \<Rightarrow> breaker \<times> circuit_state" where
  "getState opt now b = (let b' = tryHalfOpen opt now b in (b', cb_state b'))"

definition canAttempt :: "cb_options \<Rightarrow> ms \<Rightarrow> ms \<Rightarrow> breaker \<Rightarrow> breaker \<times> bool" where
  "canAttempt opt t1 t2 b =
     (let b' = tryHalfOpen opt t1 b in
      if cb_state b' = Open then (b', False)
      else if cb_state b' = HalfOpen then
        (if probesRemaining b' = 0 then (cb_open t2 b', False)
         else (b'\<lparr>probesRemaining := probesRemaining b' - 1\<rparr>, True))
      else (b', True))"

definition recordSuccess :: "cb_options \<Rightarrow> breaker \<Rightarrow> breaker" where
  "recordSuccess opt b =
     (if cb_state b = Open then b
      else if cb_state b = HalfOpen then
        (let b' = b\<lparr>halfOpenSuccesses := halfOpenSuccesses b + 1\<rparr>
         in if successThreshold opt \<le> halfOpenSuccesses b' then cb_close b' else b')
      else b\<lparr>failures := 0\<rparr>)"

definition recordFailure :: "cb_options \<Rightarrow> ms \<Rightarrow> breaker \<Rightarrow> breaker" where
  "recordFailure opt now b =
     (if cb_state b = HalfOpen then cb_open now b
      else if cb_state b = Open then b
      else let b' = b\<lparr>failures := failures b + 1\<rparr>
           in if failureThreshold opt \<le> failures b' then cb_open now b' else b')"

definition reset_breaker :: "breaker \<Rightarrow> breaker" where
  "reset_breaker b = b\<lparr>cb_state := Closed, failures := 0, halfOpenSuccesses := 0, probesRemaining := 0\<rparr>"

definition remainingCooldownMs :: "cb_options \<Rightarrow> ms \<Rightarrow> ms \<Rightarrow> breaker \<Rightarrow> breaker \<times> ms" where
  "remainingCooldownMs opt t1 t2 b =
     (let b' = tryHalfOpen opt t1 b in
      (b', if cb_state b' \<noteq> Open then 0 else max 0 (resetTimeoutMs opt - (t2 - openedAt b'))))"

lemmas cb_defs = tryHalfOpen_def cb_open_def cb_close_def getState_def canAttempt_def
  recordSuccess_def recordFailure_def reset_breaker_def remainingCooldownMs_def Let_def

section \<open>Sequences of calls\<close>

datatype cb_op =
    GetState ms | CanAttempt ms ms | RecordSuccess | RecordFailure ms | ResetBreaker | Cooldown ms ms

fun cb_step :: "cb_options \<Rightarrow> cb_op \<Rightarrow> breaker \<Rightarrow> breaker" where
  "cb_step opt (GetState t) b = fst (getState opt t b)"
| "cb_step opt (CanAttempt t1 t2) b = fst (canAttempt opt t1 t2 b)"
| "cb_step opt RecordSuccess b = recordSuccess opt b"
| "cb_step opt (RecordFailure t) b = recordFailure opt t b"
| "cb_step opt ResetBreaker b = reset_breaker b"
| "cb_step opt (Cooldown t1 t2) b = fst (remainingCooldownMs opt t1 t2 b)"

text \<open>Whether the call let an attempt through.\<close>

fun admits :: "cb_options \<Rightarrow> cb_op \<Rightarrow> breaker \<Rightarrow> bool" where
  "admits opt (CanAttempt t1 t2) b = snd (canAttempt opt t1 t2 b)"
| "admits opt _ b = False"

text \<open>The number of attempts let through by a sequence of calls.\<close>

fun admitted :: "cb_options \<Rightarrow> cb_op list \<Rightarrow> breaker \<Rightarrow> nat" where
  "admitted opt [] b = 0"
| "admitted opt (a # as) b = (if admits opt a b then 1 else 0) + admitted opt as (cb_step opt a b)"

fun op_times :: "cb_op \<Rightarrow> ms list" where
  "op_times (GetState t) = [t]"
| "op_times (CanAttempt t1 t2) = [t1, t2]"
| "op_times (RecordFailure t) = [t]"
| "op_times (Cooldown t1 t2) = [t1, t2]"
| "op_times _ = []"

definition cb_inv :: "cb_options \<Rightarrow> breaker \<Rightarrow> bool" where
  "cb_inv opt b \<longleftrightarrow>
     (case cb_state b of
        Closed \<Rightarrow> (failures b = 0 \<or> failures b < failureThreshold opt) \<and> halfOpenSuccesses b = 0 \<and> probesRemaining b = 0
      | Open \<Rightarrow> halfOpenSuccesses b = 0 \<and> probesRemaining b = 0
      | HalfOpen \<Rightarrow> (halfOpenSuccesses b = 0 \<or> halfOpenSuccesses b < successThreshold opt) \<and>
                    probesRemaining b \<le> successThreshold opt)"

lemma cb_inv_new: "cb_inv opt new_breaker"
  by (simp add: cb_inv_def new_breaker_def)

lemma cb_step_inv: "cb_inv opt b \<Longrightarrow> cb_inv opt (cb_step opt a b)"
  by (cases a; cases "cb_state b") (auto simp: cb_inv_def cb_defs)

interpretation cb: guarded_machine "cb_step opt" "\<lambda>_. True" "cb_inv opt" for opt
  by unfold_locales (rule cb_step_inv)

section \<open>The contract\<close>

text \<open>
  The states of the file's header: closed with a failure count, open since a time, half open with
  a count of successes and of probes left.
\<close>

datatype abs_breaker = AClosed nat | AOpen ms | AHalfOpen nat nat

definition abs_of :: "breaker \<Rightarrow> abs_breaker" where
  "abs_of b = (case cb_state b of
     Closed \<Rightarrow> AClosed (failures b)
   | Open \<Rightarrow> AOpen (openedAt b)
   | HalfOpen \<Rightarrow> AHalfOpen (halfOpenSuccesses b) (probesRemaining b))"

fun a_wake :: "cb_options \<Rightarrow> ms \<Rightarrow> abs_breaker \<Rightarrow> abs_breaker" where
  "a_wake opt now (AOpen t) = (if t + resetTimeoutMs opt \<le> now then AHalfOpen 0 (successThreshold opt) else AOpen t)"
| "a_wake opt now a = a"

fun a_take :: "ms \<Rightarrow> abs_breaker \<Rightarrow> abs_breaker" where
  "a_take now (AHalfOpen s 0) = AOpen now"
| "a_take now (AHalfOpen s (Suc p)) = AHalfOpen s p"
| "a_take now a = a"

fun a_success :: "cb_options \<Rightarrow> abs_breaker \<Rightarrow> abs_breaker" where
  "a_success opt (AClosed n) = AClosed 0"
| "a_success opt (AOpen t) = AOpen t"
| "a_success opt (AHalfOpen s p) = (if successThreshold opt \<le> Suc s then AClosed 0 else AHalfOpen (Suc s) p)"

fun a_failure :: "cb_options \<Rightarrow> ms \<Rightarrow> abs_breaker \<Rightarrow> abs_breaker" where
  "a_failure opt now (AClosed n) = (if failureThreshold opt \<le> Suc n then AOpen now else AClosed (Suc n))"
| "a_failure opt now (AOpen t) = AOpen t"
| "a_failure opt now (AHalfOpen s p) = AOpen now"

fun a_step :: "cb_options \<Rightarrow> cb_op \<Rightarrow> abs_breaker \<Rightarrow> abs_breaker" where
  "a_step opt (GetState t) a = a_wake opt t a"
| "a_step opt (CanAttempt t1 t2) a = a_take t2 (a_wake opt t1 a)"
| "a_step opt RecordSuccess a = a_success opt a"
| "a_step opt (RecordFailure t) a = a_failure opt t a"
| "a_step opt ResetBreaker a = AClosed 0"
| "a_step opt (Cooldown t1 t2) a = a_wake opt t1 a"

lemma abs_tryHalfOpen: "abs_of (tryHalfOpen opt now b) = a_wake opt now (abs_of b)"
  by (cases "cb_state b") (auto simp: abs_of_def tryHalfOpen_def)

lemma abs_canAttempt: "abs_of (fst (canAttempt opt t1 t2 b)) = a_take t2 (a_wake opt t1 (abs_of b))"
proof -
  let ?b = "tryHalfOpen opt t1 b"
  have "abs_of (fst (canAttempt opt t1 t2 b)) = a_take t2 (abs_of ?b)"
    by (cases "cb_state ?b"; cases "probesRemaining ?b")
      (auto simp: canAttempt_def abs_of_def cb_open_def Let_def)
  then show ?thesis by (simp add: abs_tryHalfOpen)
qed

lemma abs_step: "abs_of (cb_step opt a b) = a_step opt a (abs_of b)"
proof (cases a)
  case RecordSuccess
  then show ?thesis by (cases "cb_state b") (auto simp: abs_of_def recordSuccess_def cb_close_def Let_def)
next
  case RecordFailure
  then show ?thesis by (cases "cb_state b") (auto simp: abs_of_def recordFailure_def cb_open_def Let_def)
next
  case ResetBreaker
  then show ?thesis by (simp add: abs_of_def reset_breaker_def)
qed (simp_all add: getState_def remainingCooldownMs_def abs_tryHalfOpen abs_canAttempt Let_def)

section \<open>Cooldown, probes, progress\<close>

definition early :: "cb_options \<Rightarrow> ms \<Rightarrow> cb_op \<Rightarrow> bool" where
  "early opt t0 a \<longleftrightarrow> a \<noteq> ResetBreaker \<and> (\<forall>t \<in> set (op_times a). t < t0 + resetTimeoutMs opt)"

lemma tryHalfOpen_early:
  "cb_state b = Open \<Longrightarrow> t < openedAt b + resetTimeoutMs opt \<Longrightarrow> tryHalfOpen opt t b = b"
  by (simp add: tryHalfOpen_def)

lemma early_step:
  "cb_state b = Open \<Longrightarrow> early opt (openedAt b) a \<Longrightarrow> cb_step opt a b = b \<and> \<not> admits opt a b"
  by (cases a)
    (simp_all add: early_def getState_def canAttempt_def remainingCooldownMs_def tryHalfOpen_early
      recordSuccess_def recordFailure_def Let_def)

lemma probes_step:
  assumes "cb_state b = HalfOpen" and "cb_state (cb_step opt a b) = HalfOpen"
  shows "(if admits opt a b then 1 else 0) + probesRemaining (cb_step opt a b) = probesRemaining b"
  using assms by (cases a) (auto simp: cb_defs split: if_splits)

text \<open>All the states a sequence of calls goes through.\<close>

fun cb_states :: "cb_options \<Rightarrow> cb_op list \<Rightarrow> breaker \<Rightarrow> circuit_state list" where
  "cb_states opt [] b = [cb_state b]"
| "cb_states opt (a # as) b = cb_state b # cb_states opt as (cb_step opt a b)"

lemma cb_states_hd: "cb_state b \<in> set (cb_states opt as b)"
  by (cases as) auto

lemma failure_streak:
  "failures b + k < failureThreshold opt \<Longrightarrow> cb_state b = Closed \<Longrightarrow>
   ((\<lambda>b. recordFailure opt t b) ^^ k) b = b\<lparr>failures := failures b + k\<rparr>"
  by (induction k) (auto simp: recordFailure_def)

section \<open>Properties\<close>


text \<open>
  The cooldown is respected: whatever is called on an open breaker (short of a manual reset),
  as long as every clock reading is before \<open>openedAt + resetTimeoutMs\<close>, the breaker does not
  change, so failures do not extend the cooldown, and no attempt is let through.
\<close>

theorem cooldown_respected:
  assumes "cb_state b = Open" and "list_all (early opt (openedAt b)) as"
  shows "fold (cb_step opt) as b = b \<and> admitted opt as b = 0"
  using assms by (induction as) (simp_all add: early_step)

definition cb_demo_options :: cb_options where
  "cb_demo_options = \<lparr>opt_failureThreshold = Some 2, opt_successThreshold = None, opt_resetTimeoutMs = None\<rparr>"

definition cb_demo_open :: breaker where
  "cb_demo_open = fold (cb_step cb_demo_options) [RecordFailure 10, RecordFailure 20] new_breaker"

lemma cb_demo_open_eq:
  "cb_demo_open = \<lparr>cb_state = Open, failures = 2, openedAt = 20, halfOpenSuccesses = 0, probesRemaining = 0\<rparr>"
  by (simp add: cb_demo_open_def new_breaker_def cb_demo_options_def recordFailure_def cb_open_def
      failureThreshold_def)

theorem cooldown_respected_witness:
  "fold (cb_step cb_demo_options) [CanAttempt 30 30, RecordFailure 40, CanAttempt 60019 60019] cb_demo_open = cb_demo_open \<and>
   admitted cb_demo_options [CanAttempt 30 30, RecordFailure 40, CanAttempt 60019 60019] cb_demo_open = 0"
  by (rule cooldown_respected)
    (simp_all add: cb_demo_open_eq early_def resetTimeoutMs_def cb_demo_options_def)

text \<open>
  Probes are bounded: while the breaker stays half open, every attempt let through uses up one
  of the remaining probes, so at most \<open>probesRemaining\<close> attempts, hence at most
  \<open>successThreshold\<close>, get through before it closes or reopens.
\<close>

theorem probes_bounded:
  assumes "set (cb_states opt as b) = {HalfOpen}"
  shows "admitted opt as b + probesRemaining (fold (cb_step opt) as b) = probesRemaining b"
  using assms
proof (induction as arbitrary: b)
  case (Cons a as)
  have b: "cb_state b = HalfOpen" using Cons.prems by auto
  have st: "set (cb_states opt as (cb_step opt a b)) = {HalfOpen}"
    using Cons.prems cb_states_hd [of "cb_step opt a b" opt as] by auto
  then have b': "cb_state (cb_step opt a b) = HalfOpen"
    using cb_states_hd [of "cb_step opt a b" opt as] by auto
  from Cons.IH [OF st] probes_step [OF b b'] show ?case by simp
qed simp

theorem probes_bounded_witness:
  "admitted cb_demo_options [CanAttempt 60021 60021, RecordSuccess, CanAttempt 60022 60022]
     (tryHalfOpen cb_demo_options 60020 cb_demo_open) = 2"
  using probes_bounded [of cb_demo_options "[CanAttempt 60021 60021, RecordSuccess, CanAttempt 60022 60022]"
    "tryHalfOpen cb_demo_options 60020 cb_demo_open"]
  by (simp add: cb_demo_open_eq cb_demo_options_def cb_defs resetTimeoutMs_def successThreshold_def)

text \<open>
  C2. The breaker is never wedged: with at least one probe and a clock that has not gone back
  behind \<open>openedAt\<close>, an attempt is either let through now or let through by the next call made one
  full cooldown later, even when every half-open probe was abandoned.
\<close>

theorem never_wedged:
  assumes "0 < successThreshold opt" and "openedAt b \<le> now" and "now + resetTimeoutMs opt \<le> later"
  shows "snd (canAttempt opt now now b) \<or> snd (canAttempt opt later later (fst (canAttempt opt now now b)))"
  using assms by (cases "cb_state b") (auto simp: canAttempt_def tryHalfOpen_def cb_open_def Let_def)

theorem never_wedged_witness:
  "snd (canAttempt cb_demo_options 30 30 cb_demo_open) \<or>
   snd (canAttempt cb_demo_options 60030 60030 (fst (canAttempt cb_demo_options 30 30 cb_demo_open)))"
  by (rule never_wedged)
    (simp_all add: cb_demo_open_eq cb_demo_options_def successThreshold_def resetTimeoutMs_def)

text \<open>
  It trips exactly at the threshold: from a closed breaker with no failures, the first
  \<open>failureThreshold - 1\<close> consecutive failures leave it closed and the next one opens it, with the
  cooldown starting at that failure.
\<close>

theorem trips_at_threshold:
  assumes "cb_state b = Closed" and "failures b = 0" and "0 < failureThreshold opt"
  shows "cb_state (((\<lambda>b. recordFailure opt t b) ^^ (failureThreshold opt - 1)) b) = Closed \<and>
         cb_state (((\<lambda>b. recordFailure opt t b) ^^ failureThreshold opt) b) = Open \<and>
         openedAt (((\<lambda>b. recordFailure opt t b) ^^ failureThreshold opt) b) = t"
proof -
  obtain k where k: "failureThreshold opt = Suc k" using assms(3) by (cases "failureThreshold opt") auto
  have "((\<lambda>b. recordFailure opt t b) ^^ k) b = b\<lparr>failures := k\<rparr>"
    using failure_streak [of b k opt t] assms k by simp
  then show ?thesis using assms k by (simp add: recordFailure_def cb_open_def Let_def)
qed

theorem trips_at_threshold_witness:
  "cb_state (((\<lambda>b. recordFailure cb_demo_options 9 b) ^^ failureThreshold cb_demo_options) new_breaker) = Open"
  using trips_at_threshold [of new_breaker cb_demo_options 9]
  by (simp add: new_breaker_def cb_demo_options_def failureThreshold_def)

end
