(* ===== verification/JsNumber.thy ===== *)
theory JsNumber
  imports Complex_Main Prelude
begin

text \<open>
  JavaScript numbers: IEEE 754 binary64 with round to nearest, ties to even. A finite value is a
  rational; the results of \<open>+\<close>, \<open>-\<close>, \<open>*\<close> and \<open>/\<close> are rounded (gradual underflow included) and
  overflow to an infinity; \<open>NaN\<close> propagates and compares false. The one thing left out is the
  sign of zero, which nothing in the modelled code looks at.
  The lemmas that the components use: rounding is monotone, keeps the sign, and is exact on the
  integers below \<open>2^53\<close>.
\<close>

section \<open>The binade of a positive rational\<close>

fun ilog2 :: "nat \<Rightarrow> nat" where
  "ilog2 n = (if n < 2 then 0 else Suc (ilog2 (n div 2)))"

declare ilog2.simps [simp del]

lemma ilog2_bounds: "0 < n \<Longrightarrow> 2 ^ ilog2 n \<le> n \<and> n < 2 ^ Suc (ilog2 n)"
proof (induction n rule: ilog2.induct)
  case (1 n)
  show ?case
  proof (cases "n < 2")
    case True
    with 1 show ?thesis by (subst (1 2) ilog2.simps) auto
  next
    case False
    with 1 have "2 ^ ilog2 (n div 2) \<le> n div 2 \<and> n div 2 < 2 ^ Suc (ilog2 (n div 2))"
      by simp
    with False show ?thesis by (subst (1 2) ilog2.simps) auto
  qed
qed

definition clog2 :: "nat \<Rightarrow> nat" where
  "clog2 n = (if n \<le> 1 then 0 else Suc (ilog2 (n - 1)))"

lemma clog2_bounds: "1 < n \<Longrightarrow> n \<le> 2 ^ clog2 n \<and> 2 ^ clog2 n < 2 * n"
  using ilog2_bounds [of "n - 1"] by (auto simp: clog2_def)

lemma pow2_rat_le: "2 ^ k \<le> n \<Longrightarrow> (2 ^ k :: rat) \<le> of_nat n"
  using of_nat_mono [of "2 ^ k" n, where 'a = rat] by simp

lemma rat_le_pow2: "n \<le> 2 ^ k \<Longrightarrow> of_nat n \<le> (2 ^ k :: rat)"
  using of_nat_mono [of n "2 ^ k", where 'a = rat] by simp

definition binade :: "rat \<Rightarrow> int" where
  "binade x = (if 1 \<le> x then int (ilog2 (nat \<lfloor>x\<rfloor>)) else - int (clog2 (nat \<lceil>1 / x\<rceil>)))"

lemma binade_ge1:
  assumes "1 \<le> x"
  shows "2 powi binade x \<le> x \<and> x < 2 powi (binade x + 1)"
proof -
  let ?n = "nat \<lfloor>x\<rfloor>"
  have n: "0 < ?n" using assms by simp
  have le: "of_nat ?n \<le> x" and lt: "x < of_nat ?n + 1"
    using assms by linarith+
  have "2 ^ ilog2 ?n \<le> ?n" and "?n + 1 \<le> 2 ^ Suc (ilog2 ?n)"
    using ilog2_bounds [OF n] by auto
  then have "(2 ^ ilog2 ?n :: rat) \<le> of_nat ?n" and "of_nat ?n + 1 \<le> (2 ^ Suc (ilog2 ?n) :: rat)"
    using pow2_rat_le [of "ilog2 ?n" ?n] rat_le_pow2 [of "?n + 1" "Suc (ilog2 ?n)"] by simp_all
  moreover have "(2::rat) powi binade x = 2 ^ ilog2 ?n"
    using assms by (simp add: binade_def power_int_def)
  moreover have "(2::rat) powi (binade x + 1) = 2 ^ Suc (ilog2 ?n)"
    using assms by (simp add: binade_def power_int_def nat_add_distrib)
  ultimately show ?thesis using le lt by linarith
qed

lemma binade_lt1:
  assumes "0 < x" and "x < 1"
  shows "2 powi binade x \<le> x \<and> x < 2 powi (binade x + 1)"
proof -
  let ?n = "nat \<lceil>1 / x\<rceil>"
  have inv: "1 < 1 / x" using assms by simp
  then have n: "1 < ?n" by linarith
  have up: "1 / x \<le> of_nat ?n" and lo: "of_nat ?n < 1 / x + 1"
    using inv by linarith+
  let ?k = "clog2 ?n"
  have k: "?k = Suc (ilog2 (?n - 1))" unfolding clog2_def using n by (metis linorder_not_less)
  have "?n \<le> 2 ^ ?k" using clog2_bounds [OF n] by simp
  then have "(of_nat ?n :: rat) \<le> 2 ^ ?k" by (rule rat_le_pow2)
  with up have "1 / x \<le> 2 ^ ?k" by linarith
  with assms have a: "1 / 2 ^ ?k \<le> x"
    by (simp add: field_simps)
  have "2 ^ ilog2 (?n - 1) \<le> ?n - 1" using ilog2_bounds [of "?n - 1"] n by simp
  then have "(2 ^ ilog2 (?n - 1) :: rat) \<le> of_nat (?n - 1)" by (rule pow2_rat_le)
  also have "\<dots> < 1 / x" using lo n by (simp add: of_nat_diff)
  finally have b: "x < 1 / 2 ^ ilog2 (?n - 1)"
    using assms by (simp add: field_simps)
  have e: "binade x = - int ?k" using assms by (simp add: binade_def)
  have "(2::rat) powi binade x = 1 / 2 ^ ?k"
    by (simp add: e power_int_minus inverse_eq_divide)
  moreover have "binade x + 1 = - int (ilog2 (?n - 1))" using e k by simp
  then have "(2::rat) powi (binade x + 1) = 1 / 2 ^ ilog2 (?n - 1)"
    by (simp add: power_int_minus inverse_eq_divide)
  ultimately show ?thesis using a b by simp
qed

lemma binade_bounds:
  "0 < x \<Longrightarrow> 2 powi binade x \<le> x \<and> x < 2 powi (binade x + 1)"
  using binade_ge1 [of x] binade_lt1 [of x] by (cases "1 \<le> x") auto

lemma powi2_le_iff [simp]: "(2::rat) powi a \<le> 2 powi b \<longleftrightarrow> a \<le> b"
proof
  show "(2::rat) powi a \<le> 2 powi b \<Longrightarrow> a \<le> b"
    using power_int_strict_increasing [of b a "2::rat"] by linarith
  show "a \<le> b \<Longrightarrow> (2::rat) powi a \<le> 2 powi b"
    by (rule power_int_increasing) simp_all
qed

lemma powi2_less_iff [simp]: "(2::rat) powi a < 2 powi b \<longleftrightarrow> a < b"
  by (simp flip: not_le)

lemma powi2_pos [simp]: "0 < (2::rat) powi a" "\<not> (2::rat) powi a \<le> 0" "\<not> (2::rat) powi a < 0"
  by (simp_all add: not_le not_less zero_less_power_int less_imp_le)

lemma binade_mono:
  assumes "0 < x" and "x \<le> y"
  shows "binade x \<le> binade y"
proof -
  have "2 powi binade x \<le> x" and "y < 2 powi (binade y + 1)"
    using binade_bounds [of x] binade_bounds [of y] assms by auto
  with assms have "(2::rat) powi binade x < 2 powi (binade y + 1)" by linarith
  then show ?thesis by simp
qed

section \<open>Round to nearest, ties to even\<close>

definition rne :: "rat \<Rightarrow> int" where
  "rne x = (let f = \<lfloor>x\<rfloor>; d = x - of_int f in
     if d < 1/2 then f else if 1/2 < d then f + 1 else if even f then f else f + 1)"

lemma rne_of_int [simp]: "rne (of_int n) = n"
  by (simp add: rne_def)

lemma rne_cases: "rne x = \<lfloor>x\<rfloor> \<or> rne x = \<lfloor>x\<rfloor> + 1"
  by (auto simp: rne_def Let_def)

lemma rne_mono: "x \<le> y \<Longrightarrow> rne x \<le> rne y"
proof (cases "\<lfloor>x\<rfloor> = \<lfloor>y\<rfloor>")
  case True
  assume "x \<le> y"
  with True show ?thesis by (auto simp: rne_def Let_def)
next
  case False
  assume "x \<le> y"
  with False have "\<lfloor>x\<rfloor> + 1 \<le> \<lfloor>y\<rfloor>"
    using floor_mono [of x y] by linarith
  then show ?thesis using rne_cases [of x] rne_cases [of y] by linarith
qed

lemma rne_nonneg: "0 \<le> x \<Longrightarrow> 0 \<le> rne x"
  using rne_mono [of 0 x] rne_of_int [of 0] by simp

lemma rne_le_int: "x \<le> of_int n \<Longrightarrow> rne x \<le> n"
  using rne_mono [of x "of_int n"] by simp

lemma rne_ge_int: "of_int n \<le> x \<Longrightarrow> n \<le> rne x"
  using rne_mono [of "of_int n" x] by simp

definition ulp_exp :: "rat \<Rightarrow> int" where
  "ulp_exp x = max (binade x - 52) (- 1074)"

definition round_pos :: "rat \<Rightarrow> rat" where
  "round_pos x = (let u = 2 powi ulp_exp x in of_int (rne (x / u)) * u)"

text \<open>The real result of an operation, rounded to 53 significant bits.\<close>

definition round64 :: "rat \<Rightarrow> rat" where
  "round64 x = (if x = 0 then 0 else if 0 < x then round_pos x else - round_pos (- x))"

lemma round_pos_nonneg: "0 < x \<Longrightarrow> 0 \<le> round_pos x"
  by (simp add: round_pos_def Let_def rne_nonneg)

lemma powi2_int: "0 \<le> a \<Longrightarrow> (2::rat) powi a = of_int (2 ^ nat a)"
  by (simp add: power_int_def)

lemma round_pos_mono:
  assumes x: "0 < x" and xy: "x \<le> y"
  shows "round_pos x \<le> round_pos y"
proof (cases "ulp_exp x = ulp_exp y")
  case True
  have "x / 2 powi ulp_exp y \<le> y / 2 powi ulp_exp y"
    using xy by (simp add: divide_right_mono)
  from rne_mono [OF this] True show ?thesis
    by (simp add: round_pos_def Let_def mult_right_mono)
next
  case False
  have bm: "binade x \<le> binade y" by (rule binade_mono [OF x xy])
  with False have lt: "binade x < binade y" and uy: "ulp_exp y = binade y - 52"
    by (auto simp: ulp_exp_def max_def split: if_splits)
  have ux: "ulp_exp x < binade y" using False bm lt uy by (auto simp: ulp_exp_def)
  let ?B = "(2::rat) powi binade y"
  have "x < 2 powi (binade x + 1)" using binade_bounds [OF x] by simp
  also have "\<dots> \<le> ?B" using lt by simp
  finally have xB: "x \<le> ?B" by simp
  have By: "?B \<le> y" using binade_bounds [of y] x xy by simp
  have B1: "?B = of_int (2 ^ nat (binade y - ulp_exp x)) * 2 powi ulp_exp x"
    using powi2_int [of "binade y - ulp_exp x"] power_int_add [of "2::rat" "binade y - ulp_exp x" "ulp_exp x"] ux
    by simp
  have B2: "?B = of_int (2 ^ 52) * 2 powi ulp_exp y"
    using power_int_add [of "2::rat" 52 "binade y - 52"] uy by (simp add: power_int_def)
  have "x / 2 powi ulp_exp x \<le> of_int (2 ^ nat (binade y - ulp_exp x))"
    using xB B1 by (simp add: divide_le_eq)
  then have "round_pos x \<le> ?B"
    unfolding B1 round_pos_def Let_def
    by (intro mult_right_mono of_int_le_iff [THEN iffD2] rne_le_int) simp_all
  moreover have "of_int (2 ^ 52) \<le> y / 2 powi ulp_exp y"
    using By B2 by (simp add: le_divide_eq)
  then have "?B \<le> round_pos y"
    unfolding B2 round_pos_def Let_def
    by (intro mult_right_mono of_int_le_iff [THEN iffD2] rne_ge_int) simp_all
  ultimately show ?thesis by linarith
qed

theorem round64_mono: "x \<le> y \<Longrightarrow> round64 x \<le> round64 y"
  using round_pos_mono [of x y] round_pos_mono [of "- y" "- x"]
    round_pos_nonneg [of y] round_pos_nonneg [of "- x"]
  by (auto simp: round64_def)

lemma round64_0 [simp]: "round64 0 = 0"
  by (simp add: round64_def)

lemma round64_minus: "round64 (- x) = - round64 x"
  by (simp add: round64_def)

lemma round64_nonneg: "0 \<le> x \<Longrightarrow> 0 \<le> round64 x"
  using round64_mono [of 0 x] by simp

lemma round64_nonpos: "x \<le> 0 \<Longrightarrow> round64 x \<le> 0"
  using round64_mono [of x 0] by simp

text \<open>Rounding is exact on the multiples of a power of two with a significand below \<open>2^53\<close>.\<close>

lemma round_pos_dyadic:
  assumes n: "0 < n" "n < 2 ^ 53" and e: "- 1074 \<le> e"
  shows "round_pos (of_int n * 2 powi e) = of_int n * 2 powi e"
proof -
  let ?x = "of_int n * 2 powi e :: rat"
  have x0: "0 < ?x" using n by simp
  have "2 powi binade ?x \<le> ?x" using binade_bounds [OF x0] by simp
  also have "(of_int n :: rat) < of_int (2 ^ 53)" using n(2) by (simp only: of_int_less_iff)
  then have "?x < of_int (2 ^ 53) * 2 powi e" by (simp only: mult_less_cancel_right) simp
  also have "\<dots> = 2 powi (53 + e)"
    using power_int_add [of "2::rat" 53 e] by (simp add: power_int_def)
  finally have "binade ?x < 53 + e" by (simp only: powi2_less_iff)
  with e have u: "0 \<le> e - ulp_exp ?x" by (auto simp: ulp_exp_def)
  have "?x / 2 powi ulp_exp ?x = of_int n * 2 powi (e - ulp_exp ?x)"
    by (simp add: power_int_diff)
  also have "\<dots> = of_int (n * 2 ^ nat (e - ulp_exp ?x))"
    using powi2_int [OF u] by simp
  finally have "of_int (rne (?x / 2 powi ulp_exp ?x)) = ?x / 2 powi ulp_exp ?x"
    by (metis rne_of_int)
  then show ?thesis by (simp add: round_pos_def Let_def)
qed

lemma round64_dyadic:
  "\<bar>n\<bar> < 2 ^ 53 \<Longrightarrow> - 1074 \<le> e \<Longrightarrow> round64 (of_int n * 2 powi e) = of_int n * 2 powi e"
  using round_pos_dyadic [of n e] round_pos_dyadic [of "- n" e]
  by (cases n "0::int" rule: linorder_cases) (auto simp: round64_def mult_less_0_iff zero_less_mult_iff)

lemma round64_int: "\<bar>n\<bar> < 2 ^ 53 \<Longrightarrow> round64 (of_int n) = of_int n"
  using round64_dyadic [of n 0] by simp

text \<open>A rounded number is rounded already.\<close>

lemma round_pos_idem: "0 < x \<Longrightarrow> 0 < round_pos x \<Longrightarrow> round_pos (round_pos x) = round_pos x"
proof -
  assume x: "0 < x" and r: "0 < round_pos x"
  let ?e = "ulp_exp x"
  let ?n = "rne (x / 2 powi ?e)"
  have rx: "round_pos x = of_int ?n * 2 powi ?e" by (simp add: round_pos_def Let_def)
  have e: "- 1074 \<le> ?e" by (simp add: ulp_exp_def)
  have "x < 2 powi (binade x + 1)" using binade_bounds [OF x] by simp
  also have "\<dots> \<le> 2 powi (53 + ?e)" by (simp add: ulp_exp_def)
  also have "\<dots> = of_int (2 ^ 53) * 2 powi ?e"
    using power_int_add [of "2::rat" 53 ?e] by (simp add: power_int_def)
  finally have "x / 2 powi ?e \<le> of_int (2 ^ 53)" by (simp add: divide_le_eq)
  then have le: "?n \<le> 2 ^ 53" by (rule rne_le_int)
  have n0: "0 < ?n" using r rx by (simp add: zero_less_mult_iff)
  show ?thesis
  proof (cases "?n = 2 ^ 53")
    case True
    have "round_pos x = of_int (2 ^ 52) * 2 powi (?e + 1)"
      using power_int_add [of "2::rat" ?e 1] by (simp add: rx True)
    then show ?thesis using round_pos_dyadic [of "2 ^ 52" "?e + 1"] e by simp
  next
    case False
    with le n0 e show ?thesis unfolding rx by (intro round_pos_dyadic) auto
  qed
qed

lemma round64_idem [simp]: "round64 (round64 x) = round64 x"
  using round_pos_idem [of x] round_pos_idem [of "- x"] round_pos_nonneg [of x] round_pos_nonneg [of "- x"]
  by (auto simp: round64_def)

lemma round64_numeral [simp]: "numeral k < (2 ^ 53 :: int) \<Longrightarrow> round64 (numeral k) = numeral k"
  using round64_int [of "numeral k"] by simp

lemma round64_1 [simp]: "round64 1 = 1"
  using round64_int [of 1] by simp

lemma round64_le_int: "x \<le> of_int n \<Longrightarrow> \<bar>n\<bar> < 2 ^ 53 \<Longrightarrow> round64 x \<le> of_int n"
  using round64_mono [of x "of_int n"] round64_int [of n] by simp

lemma round64_ge_int: "of_int n \<le> x \<Longrightarrow> \<bar>n\<bar> < 2 ^ 53 \<Longrightarrow> of_int n \<le> round64 x"
  using round64_mono [of "of_int n" x] round64_int [of n] by simp

section \<open>Numbers with infinities and NaN\<close>

datatype jsnum = Num rat | Infty | NegInfty | NaN

definition mk_num :: "rat \<Rightarrow> jsnum" where
  "mk_num x = (let r = round64 x in
     if 2 ^ 1024 \<le> r then Infty else if r \<le> - (2 ^ 1024) then NegInfty else Num r)"

abbreviation jint :: "int \<Rightarrow> jsnum" where
  "jint n \<equiv> Num (of_int n)"

fun is_finite :: "jsnum \<Rightarrow> bool" where
  "is_finite (Num _) = True"
| "is_finite _ = False"

text \<open>\<open>Number.isInteger\<close>\<close>

fun is_integer :: "jsnum \<Rightarrow> bool" where
  "is_integer (Num x) = (of_int \<lfloor>x\<rfloor> = x)"
| "is_integer _ = False"

fun jlt :: "jsnum \<Rightarrow> jsnum \<Rightarrow> bool" where
  "jlt (Num a) (Num b) = (a < b)"
| "jlt (Num _) Infty = True"
| "jlt NegInfty (Num _) = True"
| "jlt NegInfty Infty = True"
| "jlt _ _ = False"

fun jle :: "jsnum \<Rightarrow> jsnum \<Rightarrow> bool" where
  "jle NaN _ = False"
| "jle _ NaN = False"
| "jle x y = (\<not> jlt y x)"

abbreviation jgt :: "jsnum \<Rightarrow> jsnum \<Rightarrow> bool" where "jgt x y \<equiv> jlt y x"
abbreviation jge :: "jsnum \<Rightarrow> jsnum \<Rightarrow> bool" where "jge x y \<equiv> jle y x"

fun jneg :: "jsnum \<Rightarrow> jsnum" where
  "jneg (Num a) = Num (- a)"
| "jneg Infty = NegInfty"
| "jneg NegInfty = Infty"
| "jneg NaN = NaN"

fun jadd :: "jsnum \<Rightarrow> jsnum \<Rightarrow> jsnum" where
  "jadd (Num a) (Num b) = mk_num (a + b)"
| "jadd (Num _) Infty = Infty"
| "jadd Infty (Num _) = Infty"
| "jadd Infty Infty = Infty"
| "jadd (Num _) NegInfty = NegInfty"
| "jadd NegInfty (Num _) = NegInfty"
| "jadd NegInfty NegInfty = NegInfty"
| "jadd _ _ = NaN"

definition jsub :: "jsnum \<Rightarrow> jsnum \<Rightarrow> jsnum" where
  "jsub x y = jadd x (jneg y)"

definition signed_inf :: "rat \<Rightarrow> jsnum" where
  "signed_inf a = (if 0 < a then Infty else if a < 0 then NegInfty else NaN)"

fun jmul :: "jsnum \<Rightarrow> jsnum \<Rightarrow> jsnum" where
  "jmul (Num a) (Num b) = mk_num (a * b)"
| "jmul (Num a) Infty = signed_inf a"
| "jmul Infty (Num b) = signed_inf b"
| "jmul (Num a) NegInfty = signed_inf (- a)"
| "jmul NegInfty (Num b) = signed_inf (- b)"
| "jmul Infty Infty = Infty"
| "jmul NegInfty NegInfty = Infty"
| "jmul Infty NegInfty = NegInfty"
| "jmul NegInfty Infty = NegInfty"
| "jmul _ _ = NaN"

fun jdiv :: "jsnum \<Rightarrow> jsnum \<Rightarrow> jsnum" where
  "jdiv (Num a) (Num b) = (if b = 0 then signed_inf a else mk_num (a / b))"
| "jdiv (Num _) Infty = Num 0"
| "jdiv (Num _) NegInfty = Num 0"
| "jdiv Infty (Num b) = (if b < 0 then NegInfty else Infty)"
| "jdiv NegInfty (Num b) = (if b < 0 then Infty else NegInfty)"
| "jdiv _ _ = NaN"

text \<open>\<open>Math.min\<close>, \<open>Math.max\<close>, \<open>Math.floor\<close>, \<open>Math.ceil\<close>, \<open>Math.round\<close>, and \<open>2 ** n\<close>.\<close>

definition jmin :: "jsnum \<Rightarrow> jsnum \<Rightarrow> jsnum" where
  "jmin x y = (if x = NaN \<or> y = NaN then NaN else if jlt y x then y else x)"

definition jmax :: "jsnum \<Rightarrow> jsnum \<Rightarrow> jsnum" where
  "jmax x y = (if x = NaN \<or> y = NaN then NaN else if jlt x y then y else x)"

fun jfloor :: "jsnum \<Rightarrow> jsnum" where
  "jfloor (Num x) = jint \<lfloor>x\<rfloor>"
| "jfloor x = x"

fun jceil :: "jsnum \<Rightarrow> jsnum" where
  "jceil (Num x) = jint \<lceil>x\<rceil>"
| "jceil x = x"

fun jround :: "jsnum \<Rightarrow> jsnum" where
  "jround (Num x) = jint \<lfloor>x + 1 / 2\<rfloor>"
| "jround x = x"

definition jpow2 :: "nat \<Rightarrow> jsnum" where
  "jpow2 n = mk_num (2 ^ n)"

subsection \<open>Bounds of rounded results\<close>

lemma mk_num_0 [simp]: "mk_num 0 = Num 0"
  by (simp add: mk_num_def)

lemma int_lt_2_1024: "\<bar>n\<bar> < (2::int) ^ 53 \<Longrightarrow> of_int n < (2::rat) ^ 1024 \<and> - ((2::rat) ^ 1024) < of_int n"
proof -
  assume "\<bar>n\<bar> < (2::int) ^ 53"
  then have "of_int n < (of_int (2 ^ 53) :: rat)" and "(of_int (- (2 ^ 53)) :: rat) < of_int n"
    by (simp_all only: of_int_less_iff)
  then show ?thesis by simp
qed

lemma mk_num_int [simp]: "\<bar>n\<bar> < 2 ^ 53 \<Longrightarrow> mk_num (of_int n) = jint n"
  using int_lt_2_1024 [of n] by (auto simp: mk_num_def round64_int)

text \<open>Arithmetic on integers of less than 53 bits is exact.\<close>

lemma jadd_int: "\<bar>a + b\<bar> < 2 ^ 53 \<Longrightarrow> jadd (jint a) (jint b) = jint (a + b)"
  using mk_num_int [of "a + b"] by simp

lemma jsub_int: "\<bar>a - b\<bar> < 2 ^ 53 \<Longrightarrow> jsub (jint a) (jint b) = jint (a - b)"
  using mk_num_int [of "a - b"] by (simp add: jsub_def)

lemma jmul_int: "\<bar>a * b\<bar> < 2 ^ 53 \<Longrightarrow> jmul (jint a) (jint b) = jint (a * b)"
  using mk_num_int [of "a * b"] by simp

lemma mk_num_numeral [simp]:
  "numeral k < (2 ^ 53 :: int) \<Longrightarrow> mk_num (numeral k) = Num (numeral k)"
  using mk_num_int [of "numeral k"] by simp

lemma mk_num_neg_numeral [simp]:
  "numeral k < (2 ^ 53 :: int) \<Longrightarrow> mk_num (- numeral k) = Num (- numeral k)"
  using mk_num_int [of "- numeral k"] by simp

lemma mk_num_1 [simp]: "mk_num 1 = Num 1"
  using mk_num_int [of 1] by simp

text \<open>A real result between two integers stays between them when it is rounded.\<close>

lemma mk_num_between:
  assumes "of_int m \<le> x" and "x \<le> of_int n" and "\<bar>m\<bar> < 2 ^ 53" and "\<bar>n\<bar> < 2 ^ 53"
  shows "mk_num x = Num (round64 x) \<and> of_int m \<le> round64 x \<and> round64 x \<le> of_int n"
  using round64_ge_int [of m x] round64_le_int [of x n] int_lt_2_1024 [of m] int_lt_2_1024 [of n] assms
  by (auto simp: mk_num_def Let_def)

lemma mk_num_nonneg: "0 \<le> x \<Longrightarrow> mk_num x = Infty \<or> (\<exists>y \<ge> 0. mk_num x = Num y)"
  using round64_nonneg [of x] by (auto simp: mk_num_def Let_def)

text \<open>\<open>Math.round\<close> of an integer.\<close>

lemma jround_int [simp]: "jround (jint n) = jint n"
proof -
  have "\<lfloor>of_int n + (1 / 2 :: rat)\<rfloor> = n" by linarith
  then show ?thesis by simp
qed

lemma jround_numeral [simp]: "jround (Num (numeral k)) = Num (numeral k)"
  using jround_int [of "numeral k"] by (simp del: jround.simps jround_int)

lemma jround_0_1 [simp]: "jround (Num 0) = Num 0" "jround (Num 1) = Num 1"
  using jround_int [of 0] jround_int [of 1] by (simp_all del: jround.simps jround_int)

declare jround.simps(1) [simp del]

lemma mk_num_NumD: "mk_num x = Num r \<Longrightarrow> r = round64 x \<and> r < 2 ^ 1024 \<and> - (2 ^ 1024) < r"
  by (auto simp: mk_num_def Let_def split: if_splits)

text \<open>Between 0 and a finite double nothing overflows; above it, the result is above it.\<close>

lemma mk_num_below:
  assumes "mk_num x = Num d" and "0 \<le> d" and "0 \<le> y" and "y \<le> d"
  shows "\<exists>z. mk_num y = Num z \<and> 0 \<le> z \<and> z \<le> d"
proof -
  have d: "round64 d = d" and lt: "d < 2 ^ 1024" using mk_num_NumD [OF assms(1)] by auto
  have le: "round64 y \<le> d" using round64_mono [OF assms(4)] d by simp
  have "0 \<le> round64 y" using assms(3) by (rule round64_nonneg)
  moreover have "- (2 ^ 1024) < (0::rat)" by simp
  ultimately have "mk_num y = Num (round64 y)"
    using le lt by (simp only: mk_num_def Let_def not_le if_False) (auto simp only: not_le split: if_splits)
  with le \<open>0 \<le> round64 y\<close> show ?thesis by simp
qed

lemma mk_num_above:
  assumes "mk_num x = Num d" and "d \<le> y"
  shows "mk_num y = Infty \<or> (\<exists>z. mk_num y = Num z \<and> d \<le> z)"
proof -
  have d: "round64 d = d" and lt: "- (2 ^ 1024) < d" using mk_num_NumD [OF assms(1)] by auto
  have "d \<le> round64 y" using round64_mono [OF assms(2)] d by simp
  moreover from this lt have "\<not> round64 y \<le> - (2 ^ 1024)" by linarith
  ultimately show ?thesis by (simp only: mk_num_def Let_def) (auto split: if_splits)
qed

lemma jmin_le_right: "jmin x y = Num r \<Longrightarrow> y = Num c \<Longrightarrow> r \<le> c"
  by (cases x) (auto simp: jmin_def split: if_splits)

section \<open>Rounding keeps numbers apart\<close>

lemma rne_upper: "of_int (rne x) \<le> x + 1 / 2"
  unfolding rne_def Let_def by (auto split: if_splits) linarith+

lemma rne_lower: "x - 1 / 2 \<le> of_int (rne x)"
  unfolding rne_def Let_def by (auto split: if_splits) linarith+

lemma round_pos_near:
  assumes "0 < x"
  shows "round_pos x \<le> x + 2 powi ulp_exp x / 2" and "x - 2 powi ulp_exp x / 2 \<le> round_pos x"
proof -
  let ?u = "(2::rat) powi ulp_exp x"
  have "of_int (rne (x / ?u)) * ?u \<le> (x / ?u + 1 / 2) * ?u"
    by (intro mult_right_mono rne_upper) simp
  then show "round_pos x \<le> x + ?u / 2"
    by (simp add: round_pos_def Let_def algebra_simps)
  have "(x / ?u - 1 / 2) * ?u \<le> of_int (rne (x / ?u)) * ?u"
    by (intro mult_right_mono rne_lower) simp
  then show "x - ?u / 2 \<le> round_pos x"
    by (simp add: round_pos_def Let_def algebra_simps)
qed

lemma ulp_small: "0 < x \<Longrightarrow> 2 powi ulp_exp x \<le> max (x / 2 ^ 52) (2 powi (- 1074))"
proof -
  assume x: "0 < x"
  have "(2::rat) powi (binade x - 52) = 2 powi binade x / 2 ^ 52"
    by (simp add: power_int_diff)
  also have "\<dots> \<le> x / 2 ^ 52"
    using binade_bounds [OF x] by (simp add: divide_right_mono)
  finally show ?thesis by (auto simp: ulp_exp_def max_def)
qed

text \<open>Two numbers that are more than a unit in the last place apart stay in order.\<close>

lemma round64_strict:
  assumes x: "0 \<le> x" and far: "max (y / 2 ^ 52) (2 powi (- 1074)) < y - x"
  shows "round64 x < round64 y"
proof -
  have "0 < (2::rat) powi (- 1074)" by simp
  with far have xy: "x < y" by linarith
  with x have y: "0 < y" by linarith
  have uy: "2 powi ulp_exp y < y - x" using ulp_small [OF y] far by linarith
  have ry: "y - 2 powi ulp_exp y / 2 \<le> round64 y"
    using round_pos_near(2) [OF y] y by (simp add: round64_def)
  show ?thesis
  proof (cases "x = 0")
    case True
    moreover have "0 < (2::rat) powi ulp_exp y" by simp
    ultimately have "0 < y - 2 powi ulp_exp y / 2" using uy by linarith
    with ry True show ?thesis by simp
  next
    case False
    with x have x0: "0 < x" by simp
    have "ulp_exp x \<le> ulp_exp y" using binade_mono [OF x0, of y] xy by (auto simp: ulp_exp_def)
    then have "(2::rat) powi ulp_exp x \<le> 2 powi ulp_exp y" by simp
    moreover have "round64 x \<le> x + 2 powi ulp_exp x / 2"
      using round_pos_near(1) [OF x0] x0 by (simp add: round64_def)
    ultimately show ?thesis using ry uy by linarith
  qed
qed

section \<open>Random indices\<close>

text \<open>
  What \<open>Math.random()\<close> may return, a double in \<open>[0, 1)\<close>, and the index
  \<open>Math.floor(Math.random() * n)\<close>. The product is rounded, but never up to \<open>n\<close>.
\<close>

definition math_random :: "rat \<Rightarrow> bool" where
  "math_random r \<longleftrightarrow> 0 \<le> r \<and> r \<le> 1 - 1 / 2 ^ 53"

definition random_index :: "rat \<Rightarrow> nat \<Rightarrow> nat" where
  "random_index r n = (case jfloor (jmul (Num r) (jint (int n))) of Num x \<Rightarrow> nat \<lfloor>x\<rfloor> | _ \<Rightarrow> 0)"


lemma round64_random_lt:
  assumes x: "0 \<le> x" "x \<le> of_int n - of_int n / 2 ^ 53" and n: "0 < n"
  shows "round64 x < of_int n"
proof (cases "x = 0")
  case False
  with x have x0: "0 < x" by simp
  let ?u = "(2::rat) powi ulp_exp x"
  have "of_int (rne (x / ?u)) * ?u \<le> (x / ?u + 1 / 2) * ?u"
    by (intro mult_right_mono rne_upper) simp
  then have r: "round64 x \<le> x + ?u / 2"
    using x0 by (simp add: round64_def round_pos_def Let_def algebra_simps)
  show ?thesis
  proof (rule ccontr)
    assume "\<not> ?thesis"
    with r x(2) have "of_int n / 2 ^ 53 \<le> ?u / 2" by linarith
    then have le: "of_int n \<le> 2 ^ 52 * ?u" by simp
    have xn: "x < of_int n" using x(2) n by (simp add: field_simps)
    show False
    proof (cases "- 1074 \<le> binade x - 52")
      case True
      then have "2 ^ 52 * ?u = 2 powi binade x"
        using power_int_add [of "2::rat" 52 "binade x - 52"] by (simp add: ulp_exp_def power_int_def)
      with binade_bounds [OF x0] le xn show False by simp
    next
      case False
      then have "2 ^ 52 * ?u = 2 powi (- 1022)"
        using power_int_add [of "2::rat" 52 "- 1074"] by (simp add: ulp_exp_def power_int_def)
      also have "\<dots> < 2 powi 0" by (simp only: powi2_less_iff)
      finally show False using le n by simp
    qed
  qed
qed (simp add: n)

lemma random_index_lt:
  assumes r: "math_random r" and n: "0 < n" "int n < 2 ^ 53"
  shows "random_index r n < n"
proof -
  let ?x = "r * of_int (int n)"
  have lo: "0 \<le> ?x" using r by (simp add: math_random_def)
  have "?x \<le> (1 - 1 / 2 ^ 53) * of_int (int n)"
    using r by (intro mult_right_mono) (simp_all add: math_random_def)
  then have hi: "?x \<le> of_int (int n) - of_int (int n) / 2 ^ 53" by (simp add: algebra_simps)
  then have "?x \<le> of_int (int n)" by simp
  with lo n mk_num_between [of 0 ?x "int n"] have m: "mk_num ?x = Num (round64 ?x)" "0 \<le> round64 ?x" by auto
  have "round64 ?x < of_int (int n)" using round64_random_lt [OF lo hi] n by simp
  with m have "\<lfloor>round64 ?x\<rfloor> < int n" by (simp add: floor_less_iff)
  then show ?thesis using m n(1) by (simp add: random_index_def nat_less_iff)
qed

lemma random_index_nth: "math_random r \<Longrightarrow> xs \<noteq> [] \<Longrightarrow> int (length xs) < 2 ^ 53 \<Longrightarrow> xs ! random_index r (length xs) \<in> set xs"
  by (simp add: random_index_lt)

lemma random_index_0 [simp]: "random_index 0 n = 0"
  by (simp add: random_index_def)

end
