(* ===== verification/HealthScore.thy ===== *)
theory HealthScore
  imports JsNumber
begin

text \<open>
  The sliding-window health score, packages/core/src/resilience/health-score.ts, and the adaptive
  reconnect backoff that it feeds, packages/core/src/resilience/adaptive-backoff.ts. Times are
  integers, ratios and delays are JavaScript numbers with their rounding. Each method that reads
  the clock takes the reading.
\<close>

section \<open>The tracker\<close>

record outcome =
  out_success :: bool
  out_at :: ms

record tracker =
  outcomes :: "outcome list"
  opt_windowMs :: "ms option"

definition windowMs :: "tracker \<Rightarrow> ms" where
  "windowMs h = (case opt_windowMs h of None \<Rightarrow> 3600000 | Some w \<Rightarrow> w)"

definition new_tracker :: "ms option \<Rightarrow> tracker" where
  "new_tracker w = \<lparr>outcomes = [], opt_windowMs = w\<rparr>"

text \<open>\<open>while (length > 0 && outcomes[0].at <= cutoff) outcomes.shift()\<close>\<close>

fun shift_expired :: "ms \<Rightarrow> outcome list \<Rightarrow> outcome list" where
  "shift_expired cutoff [] = []"
| "shift_expired cutoff (x # xs) = (if out_at x \<le> cutoff then shift_expired cutoff xs else x # xs)"

definition prune :: "ms \<Rightarrow> tracker \<Rightarrow> tracker" where
  "prune now h = h\<lparr>outcomes := shift_expired (now - windowMs h) (outcomes h)\<rparr>"

definition record_outcome :: "bool \<Rightarrow> ms \<Rightarrow> tracker \<Rightarrow> tracker" where
  "record_outcome ok now h = prune now (h\<lparr>outcomes := outcomes h @ [\<lparr>out_success = ok, out_at = now\<rparr>]\<rparr>)"

definition getTotal :: "ms \<Rightarrow> tracker \<Rightarrow> tracker \<times> nat" where
  "getTotal now h = (let h' = prune now h in (h', length (outcomes h')))"

definition count_successes :: "outcome list \<Rightarrow> nat" where
  "count_successes xs = fold (\<lambda>x n. if out_success x then n + 1 else n) xs 0"

definition score_of :: "outcome list \<Rightarrow> jsnum" where
  "score_of xs =
     (if length xs = 0 then Num 100
      else jround (jmul (jdiv (Num (of_nat (count_successes xs))) (Num (of_nat (length xs)))) (Num 100)))"

definition getScore :: "ms \<Rightarrow> tracker \<Rightarrow> tracker \<times> jsnum" where
  "getScore now h = (let h' = prune now h in (h', score_of (outcomes h')))"

definition getFailureRate :: "ms \<Rightarrow> tracker \<Rightarrow> tracker \<times> jsnum" where
  "getFailureRate now h =
     (case getScore now h of (h', s) \<Rightarrow> (h', jsub (Num 1) (jdiv s (Num 100))))"

definition reset_tracker :: "tracker \<Rightarrow> tracker" where
  "reset_tracker h = h\<lparr>outcomes := []\<rparr>"

section \<open>The window\<close>

lemma shift_expired_sorted:
  "sorted (map out_at xs) \<Longrightarrow> shift_expired c xs = filter (\<lambda>x. c < out_at x) xs"
proof (induction xs)
  case (Cons x xs)
  have "out_at x > c \<Longrightarrow> filter (\<lambda>x. c < out_at x) xs = xs"
    using Cons.prems by (intro filter_True) fastforce
  with Cons show ?case by auto
qed simp

lemma sorted_shift_expired: "sorted (map out_at xs) \<Longrightarrow> sorted (map out_at (shift_expired c xs))"
  by (induction xs) auto

lemma set_shift_expired: "set (shift_expired c xs) \<subseteq> set xs"
  by (induction xs) auto

text \<open>The tracker after a history of recorded outcomes, oldest first.\<close>

definition run_records :: "outcome list \<Rightarrow> tracker \<Rightarrow> tracker" where
  "run_records xs h = fold (\<lambda>x. record_outcome (out_success x) (out_at x)) xs h"

lemma windowMs_simps [simp]:
  "windowMs (h\<lparr>outcomes := xs\<rparr>) = windowMs h" "windowMs (prune now h) = windowMs h"
  "windowMs (record_outcome ok now h) = windowMs h"
  by (simp_all add: windowMs_def prune_def record_outcome_def)

lemma outcomes_record:
  assumes "sorted (map out_at (outcomes h @ [x]))"
  shows "outcomes (record_outcome (out_success x) (out_at x) h) = filter (\<lambda>y. out_at x - windowMs h < out_at y) (outcomes h @ [x])"
proof -
  have x: "\<lparr>out_success = out_success x, out_at = out_at x\<rparr> = x" by simp
  show ?thesis unfolding record_outcome_def prune_def x
    using shift_expired_sorted [OF assms, of "out_at x - windowMs h"] by simp
qed

lemma run_records_outcomes:
  assumes "sorted (map out_at xs)" and "xs \<noteq> []"
  shows "outcomes (run_records xs (new_tracker w)) =
     filter (\<lambda>y. out_at (last xs) - windowMs (new_tracker w) < out_at y) xs \<and>
     windowMs (run_records xs (new_tracker w)) = windowMs (new_tracker w)"
  using assms
proof (induction xs rule: rev_induct)
  case (snoc x xs)
  let ?h = "run_records xs (new_tracker w)"
  let ?w = "windowMs (new_tracker w)"
  have srt: "sorted (map out_at xs)" and le: "\<forall>y \<in> set xs. out_at y \<le> out_at x"
    using snoc.prems(1) by (auto simp: sorted_append)
  have step: "run_records (xs @ [x]) (new_tracker w) = record_outcome (out_success x) (out_at x) ?h"
    by (simp add: run_records_def)
  show ?case
  proof (cases "xs = []")
    case True
    then show ?thesis
      by (simp add: run_records_def outcomes_record new_tracker_def)
  next
    case False
    with snoc.IH srt have h: "outcomes ?h = filter (\<lambda>y. out_at (last xs) - ?w < out_at y) xs" "windowMs ?h = ?w"
      by auto
    have lx: "out_at (last xs) \<le> out_at x" using le False by simp
    have "sorted (map out_at (outcomes ?h @ [x]))"
      using srt le by (auto simp: h sorted_append sorted_filter)
    from outcomes_record [OF this] h lx
    show ?thesis unfolding step by (auto intro: filter_cong)
  qed
qed simp

section \<open>The score\<close>

lemma count_successes_eq: "count_successes xs = length (filter out_success xs)"
proof -
  have "fold (\<lambda>x n. if out_success x then n + 1 else n) xs n = n + length (filter out_success xs)" for n
    by (induction xs arbitrary: n) auto
  then show ?thesis by (simp add: count_successes_def)
qed

lemma jround_between:
  assumes "of_int m \<le> x" and "x \<le> of_int n"
  shows "\<exists>k. jround (Num x) = jint k \<and> m \<le> k \<and> k \<le> n"
proof -
  have "m \<le> \<lfloor>x + 1 / 2\<rfloor>" using assms(1) by (simp add: le_floor_iff)
  moreover have "\<lfloor>x + 1 / 2\<rfloor> \<le> n" using assms(2) by (simp add: floor_le_iff)
  ultimately show ?thesis by (simp add: jround.simps)
qed

lemma score_of_range: "\<exists>k. score_of xs = jint k \<and> 0 \<le> k \<and> k \<le> 100"
proof (cases "length xs = 0")
  case True
  then show ?thesis by (intro exI [of _ 100]) (simp add: score_of_def)
next
  case False
  let ?q = "of_nat (count_successes xs) / of_nat (length xs) :: rat"
  have "count_successes xs \<le> length xs" by (simp add: count_successes_eq)
  with False have q: "of_int 0 \<le> ?q" "?q \<le> of_int 1" by (auto simp: divide_le_eq)
  from mk_num_between [OF q] have r: "mk_num ?q = Num (round64 ?q)" "0 \<le> round64 ?q" "round64 ?q \<le> 1"
    by auto
  then have "of_int 0 \<le> round64 ?q * 100" and "round64 ?q * 100 \<le> of_int 100" by auto
  from mk_num_between [OF this] have m: "mk_num (round64 ?q * 100) = Num (round64 (round64 ?q * 100))"
    "0 \<le> round64 (round64 ?q * 100)" "round64 (round64 ?q * 100) \<le> 100" by auto
  from jround_between [of 0 "round64 (round64 ?q * 100)" 100] m(2,3) obtain k where
    "jround (Num (round64 (round64 ?q * 100))) = jint k" "0 \<le> k" "k \<le> 100" by auto
  with False r(1) m(1) show ?thesis
    by (intro exI [of _ k]) (simp add: score_of_def)
qed

lemma score_of_all_success: "\<forall>x \<in> set xs. out_success x \<Longrightarrow> score_of xs = Num 100"
  by (simp add: score_of_def count_successes_eq filter_True)

lemma failure_rate_of_score:
  assumes "0 \<le> k" and "k \<le> 100"
  shows "\<exists>r. jsub (Num 1) (jdiv (jint k) (Num 100)) = Num r \<and> 0 \<le> r \<and> r \<le> 1"
proof -
  have "of_int 0 \<le> (of_int k / 100 :: rat)" and "of_int k / 100 \<le> (of_int 1 :: rat)" using assms by auto
  from mk_num_between [OF this] have a: "mk_num (of_int k / 100) = Num (round64 (of_int k / 100))"
    "0 \<le> round64 (of_int k / 100)" "round64 (of_int k / 100) \<le> 1" by auto
  then have "of_int 0 \<le> 1 - round64 (of_int k / 100)" and "1 - round64 (of_int k / 100) \<le> of_int 1" by auto
  from mk_num_between [OF this] a(1) show ?thesis by (auto simp: jsub_def)
qed

section \<open>Backoff\<close>

record backoff_options =
  bo_baseDelayMs :: "jsnum option"
  bo_jitterRatio :: "jsnum option"
  bo_maxDelayMs :: "jsnum option"

definition default_backoff :: backoff_options where
  "default_backoff = \<lparr>bo_baseDelayMs = None, bo_jitterRatio = None, bo_maxDelayMs = None\<rparr>"

definition DEFAULT_BACKOFF_MAX_MS :: jsnum where
  "DEFAULT_BACKOFF_MAX_MS = Num 300000"

definition or_default :: "jsnum \<Rightarrow> jsnum option \<Rightarrow> jsnum" where
  "or_default d x = (case x of None \<Rightarrow> d | Some v \<Rightarrow> v)"

definition clamp_attempt :: "jsnum \<Rightarrow> nat" where
  "clamp_attempt a = (case a of Num x \<Rightarrow> nat \<lfloor>x\<rfloor> | _ \<Rightarrow> 0)"

definition clamp01 :: "jsnum \<Rightarrow> jsnum \<Rightarrow> jsnum" where
  "clamp01 d x = (if is_finite x then jmax (Num 0) (jmin (Num 1) x) else d)"

definition positive_or :: "jsnum \<Rightarrow> jsnum \<Rightarrow> jsnum" where
  "positive_or d x = (if is_finite x \<and> jlt (Num 0) x then x else d)"

text \<open>\<open>rnd\<close> is the value that \<open>random()\<close> returns.\<close>

definition calculateBackoff :: "jsnum \<Rightarrow> jsnum option \<Rightarrow> backoff_options \<Rightarrow> jsnum \<Rightarrow> jsnum" where
  "calculateBackoff attempt failureRate opts rnd =
     (let attempts = clamp_attempt attempt;
          rate = clamp01 (Num 0) (or_default (Num 0) failureRate);
          base = positive_or (Num 1000) (or_default (Num 1000) (bo_baseDelayMs opts));
          jitterRatioClamped = clamp01 (mk_num (1/10)) (or_default (mk_num (1/10)) (bo_jitterRatio opts));
          cap = positive_or DEFAULT_BACKOFF_MAX_MS (or_default DEFAULT_BACKOFF_MAX_MS (bo_maxDelayMs opts));
          baseDelay = jmul base (jpow2 attempts);
          jitter = jmul (jmul rnd baseDelay) jitterRatioClamped
      in jmin (jadd (jmul baseDelay (jadd (Num 1) rate)) jitter) cap)"

text \<open>The cap and the first delay that the options settle on.\<close>

definition backoff_cap :: "backoff_options \<Rightarrow> jsnum" where
  "backoff_cap opts = positive_or DEFAULT_BACKOFF_MAX_MS (or_default DEFAULT_BACKOFF_MAX_MS (bo_maxDelayMs opts))"

definition backoff_base_delay :: "jsnum \<Rightarrow> backoff_options \<Rightarrow> jsnum" where
  "backoff_base_delay attempt opts =
     jmul (positive_or (Num 1000) (or_default (Num 1000) (bo_baseDelayMs opts))) (jpow2 (clamp_attempt attempt))"

subsection \<open>Bounds\<close>

lemma clamp01_range:
  assumes "\<exists>y. d = Num y \<and> 0 \<le> y \<and> y \<le> 1"
  shows "\<exists>y. clamp01 d x = Num y \<and> 0 \<le> y \<and> y \<le> 1"
  using assms by (cases x) (auto simp: clamp01_def jmin_def jmax_def)

lemma positive_or_range:
  assumes "\<exists>y. d = Num y \<and> 0 < y"
  shows "\<exists>y. positive_or d x = Num y \<and> 0 < y"
  using assms by (cases x) (auto simp: positive_or_def)

lemma backoff_cap_positive: "\<exists>c. backoff_cap opts = Num c \<and> 0 < c"
  unfolding backoff_cap_def by (rule positive_or_range) (simp add: DEFAULT_BACKOFF_MAX_MS_def)

lemma calculateBackoff_alt:
  "calculateBackoff attempt fr opts rnd =
     jmin (jadd (jmul (backoff_base_delay attempt opts) (jadd (Num 1) (clamp01 (Num 0) (or_default (Num 0) fr))))
                (jmul (jmul rnd (backoff_base_delay attempt opts))
                      (clamp01 (mk_num (1/10)) (or_default (mk_num (1/10)) (bo_jitterRatio opts)))))
          (backoff_cap opts)"
  by (simp add: calculateBackoff_def backoff_base_delay_def backoff_cap_def Let_def)

lemma tenth_range: "\<exists>y. mk_num (1/10) = Num y \<and> 0 \<le> y \<and> y \<le> 1"
  using mk_num_between [of 0 "1/10" 1] by auto

text \<open>The delay before it is capped: at least the base delay, or an overflow to infinity.\<close>

lemma uncapped_delay:
  assumes d: "mk_num d0 = Num d" "0 \<le> d" and r: "0 \<le> r" "r \<le> 1" and rate: "0 \<le> rate" "rate \<le> 1"
    and q: "0 \<le> q" "q \<le> 1"
  shows "\<exists>x. (jadd (jmul (Num d) (jadd (Num 1) (Num rate))) (jmul (jmul (Num r) (Num d)) (Num q)) = Num x \<and> d \<le> x)
     \<or> jadd (jmul (Num d) (jadd (Num 1) (Num rate))) (jmul (jmul (Num r) (Num d)) (Num q)) = Infty"
proof -
  have "of_int 1 \<le> 1 + rate" and "1 + rate \<le> of_int 2" using rate by auto
  from mk_num_between [OF this] obtain f where f: "mk_num (1 + rate) = Num f" "1 \<le> f" by auto
  have "d * 1 \<le> d * f" using d(2) f(2) by (rule mult_left_mono [rotated])
  then have df: "d \<le> d * f" by simp
  have rd: "0 \<le> r * d" "r * d \<le> d" using r d(2) by (auto simp: mult_left_le_one_le)
  from mk_num_below [OF d(1) d(2) rd] obtain j where j: "mk_num (r * d) = Num j" "0 \<le> j" "j \<le> d" by auto
  have "0 \<le> j * q" "j * q \<le> d" using j q by (auto intro: order_trans [OF mult_left_le])
  from mk_num_below [OF d(1) d(2) this] obtain j' where j': "mk_num (j * q) = Num j'" "0 \<le> j'" by auto
  from mk_num_above [OF d(1) df] consider "mk_num (d * f) = Infty" | m where "mk_num (d * f) = Num m" "d \<le> m"
    by auto
  then show ?thesis
  proof cases
    case 1
    then show ?thesis by (simp add: f j j')
  next
    case 2
    have "d \<le> m + j'" using 2 j' by simp
    from mk_num_above [OF d(1) this] show ?thesis using 2 by (auto simp: f j j')
  qed
qed

lemma backoff_base_delay_Num:
  assumes "backoff_base_delay attempt opts = Num d"
  shows "\<exists>d0. mk_num d0 = Num d \<and> 0 \<le> d"
proof -
  let ?b = "positive_or (Num 1000) (or_default (Num 1000) (bo_baseDelayMs opts))"
  obtain b where b: "?b = Num b" "0 < b" using positive_or_range [of "Num 1000"] by auto
  from mk_num_nonneg [of "2 ^ clamp_attempt attempt"] consider
    "jpow2 (clamp_attempt attempt) = Infty" | p where "jpow2 (clamp_attempt attempt) = Num p" "0 \<le> p"
    by (auto simp: jpow2_def)
  then show ?thesis
  proof cases
    case 1
    with assms b show ?thesis by (simp add: backoff_base_delay_def signed_inf_def)
  next
    case 2
    then have "mk_num (b * p) = Num d" using assms b by (simp add: backoff_base_delay_def)
    moreover have "0 \<le> d" using mk_num_nonneg [of "b * p"] calculation b 2 by auto
    ultimately show ?thesis by blast
  qed
qed

lemma jpow2_overflow: "1024 \<le> n \<Longrightarrow> jpow2 n = Infty"
proof -
  assume n: "1024 \<le> n"
  have "round64 (of_int 1 * 2 powi 1024) = of_int 1 * (2::rat) powi 1024"
    by (rule round64_dyadic) auto
  then have "round64 (2 ^ 1024) = (2 ^ 1024 :: rat)" by (simp add: power_int_def)
  moreover have "(2::rat) ^ 1024 \<le> 2 ^ n" using n by (rule power_increasing) simp
  ultimately have "2 ^ 1024 \<le> round64 (2 ^ n :: rat)" using round64_mono by metis
  then show ?thesis by (simp only: jpow2_def mk_num_def Let_def if_True)
qed

section \<open>Properties\<close>

text \<open>
  The score is the score of the window: with a clock that never goes back, after any history of
  recorded outcomes the total and the score at \<open>now\<close> are those of exactly the outcomes newer than
  \<open>now - windowMs\<close>, and the score is an integer between 0 and 100.
\<close>

lemma score_of_window:
  fixes xs :: "outcome list"
  defines "recent now W \<equiv> filter (\<lambda>y. now - W < out_at y) xs"
  assumes "sorted (map out_at xs)" and "\<forall>x \<in> set xs. out_at x \<le> now"
  shows "let h = run_records xs (new_tracker w); W = windowMs (new_tracker w) in
      snd (getTotal now h) = length (recent now W) \<and>
      snd (getScore now h) = score_of (recent now W) \<and>
      (\<exists>k. snd (getScore now h) = jint k \<and> 0 \<le> k \<and> k \<le> 100)"
proof -
  let ?h = "run_records xs (new_tracker w)"
  let ?W = "windowMs (new_tracker w)"
  have "outcomes (prune now ?h) = recent now ?W"
  proof (cases "xs = []")
    case True
    then show ?thesis by (simp add: run_records_def recent_def new_tracker_def prune_def)
  next
    case False
    note h = run_records_outcomes [OF assms(2) False, of w]
    have "sorted (map out_at (outcomes ?h))" using assms(2) by (simp add: h sorted_filter)
    from shift_expired_sorted [OF this] have
      "outcomes (prune now ?h) = filter (\<lambda>y. now - ?W < out_at y) (outcomes ?h)"
      by (simp add: prune_def h)
    also have "\<dots> = recent now ?W"
      using assms(3) False by (auto simp: h recent_def intro!: filter_cong) (meson last_in_set diff_right_mono le_less_trans)
    finally show ?thesis .
  qed
  then show ?thesis
    using score_of_range [of "recent now ?W"] by (simp add: getTotal_def getScore_def Let_def)
qed

theorem score_of_window_witness:
  "snd (getScore 3600005 (run_records
     [\<lparr>out_success = False, out_at = 1\<rparr>, \<lparr>out_success = True, out_at = 3600000\<rparr>] (new_tracker None))) = Num 100"
  using score_of_window [of "[\<lparr>out_success = False, out_at = 1\<rparr>, \<lparr>out_success = True, out_at = 3600000\<rparr>]" 3600005 None]
  by (simp add: new_tracker_def windowMs_def score_of_all_success Let_def)

text \<open>
  Backoff bounds: whenever \<open>base * 2 ** attempt\<close> is a finite number, for every failure rate and
  every random value in \<open>[0, 1]\<close>, the delay is a finite number, at most the cap, and at least the
  base delay (or the cap where that is less): jitter and the failure rate only ever lengthen it.
\<close>

theorem backoff_bounds:
  assumes "backoff_base_delay attempt opts = Num d" and "0 \<le> r" and "r \<le> 1"
  shows "\<exists>x c. backoff_cap opts = Num c \<and> 0 < c \<and>
     calculateBackoff attempt fr opts (Num r) = Num x \<and> min d c \<le> x \<and> x \<le> c"
proof -
  obtain c where c: "backoff_cap opts = Num c" "0 < c" using backoff_cap_positive by blast
  obtain rate where rate: "clamp01 (Num 0) (or_default (Num 0) fr) = Num rate" "0 \<le> rate" "rate \<le> 1"
    using clamp01_range [of "Num 0"] by auto
  obtain q where q: "clamp01 (mk_num (1/10)) (or_default (mk_num (1/10)) (bo_jitterRatio opts)) = Num q"
      "0 \<le> q" "q \<le> 1"
    using clamp01_range [OF tenth_range] by blast
  obtain d0 where d0: "mk_num d0 = Num d" "0 \<le> d"
    using backoff_base_delay_Num [OF assms(1)] by blast
  from uncapped_delay [OF d0 assms(2,3) rate(2,3) q(2,3)] c(2)
  show ?thesis
    by (auto simp: calculateBackoff_alt assms(1) c(1) rate(1) q(1) jmin_def)
qed

theorem backoff_bounds_witness:
  "\<exists>x c. backoff_cap default_backoff = Num c \<and> 0 < c \<and>
     calculateBackoff (jint 3) None default_backoff (Num (1/2)) = Num x \<and> min 8000 c \<le> x \<and> x \<le> c"
  by (rule backoff_bounds)
    (simp_all add: backoff_base_delay_def positive_or_def or_default_def default_backoff_def clamp_attempt_def jpow2_def)

text \<open>
  Past the range of a double the cap is lost: when \<open>base * 2 ** attempt\<close> overflows to infinity
  and the jitter ratio is 0, the "capped" delay is NaN for every random value.
\<close>

theorem backoff_overflow_nan:
  assumes "backoff_base_delay attempt opts = Infty" and "bo_jitterRatio opts = Some (Num 0)" and "0 \<le> r"
  shows "calculateBackoff attempt fr opts (Num r) = NaN"
proof -
  obtain rate where rate: "clamp01 (Num 0) (or_default (Num 0) fr) = Num rate" "0 \<le> rate" "rate \<le> 1"
    using clamp01_range [of "Num 0"] by auto
  have "of_int 1 \<le> 1 + rate" and "1 + rate \<le> of_int 2" using rate by auto
  from mk_num_between [OF this] obtain f where f: "mk_num (1 + rate) = Num f" "1 \<le> f" by auto
  have "clamp01 (mk_num (1/10)) (or_default (mk_num (1/10)) (bo_jitterRatio opts)) = Num 0"
    by (simp add: assms(2) or_default_def clamp01_def jmin_def jmax_def)
  then show ?thesis
    using assms(3) f by (simp add: calculateBackoff_alt assms(1) rate(1) signed_inf_def jmin_def)
qed

theorem backoff_overflow_nan_witness:
  "calculateBackoff (jint 1100) None (default_backoff\<lparr>bo_jitterRatio := Some (Num 0)\<rparr>) (Num (1/2)) = NaN"
  by (rule backoff_overflow_nan)
    (simp_all add: backoff_base_delay_def positive_or_def or_default_def default_backoff_def clamp_attempt_def
      jpow2_overflow signed_inf_def)

end
