(* ===== verification/RateLimiter.thy ===== *)
theory RateLimiter
  imports JsNumber
begin

text \<open>
  Outbound rate limiting. The in-memory sliding window of packages/core/src/utils/rate-limiter.ts
  (\<open>Date.now()\<close> is an argument of each method, twice where a method may read it twice), and
  packages/core/src/utils/redis-rate-limiter.ts, which prefers a Redis counter and degrades to the
  window. Redis itself is an argument: a record of the client's functions over an opaque server state.
  \<^item> \<open>spec_check\<close> is what a sliding window promises, over the full log of accepted requests;
    \<open>limiter_refines_log\<close> shows that the code, which forgets and prunes, takes the same decisions.
\<close>

section \<open>The in-memory sliding window\<close>

record limiter =
  rl_timestamps :: "(string, ms list) jmap"
  rl_maxRequests :: int
  rl_windowMs :: ms

definition new_limiter :: "int \<Rightarrow> ms \<Rightarrow> limiter" where
  "new_limiter n w = \<lparr>rl_timestamps = [], rl_maxRequests = n, rl_windowMs = w\<rparr>"

definition alive :: "ms \<Rightarrow> ms list \<Rightarrow> ms list" where
  "alive windowStart ts = filter (\<lambda>t. windowStart < t) ts"

definition pruneExpired :: "ms \<Rightarrow> limiter \<Rightarrow> limiter" where
  "pruneExpired now l =
     (let windowStart = now - rl_windowMs l
      in l\<lparr>rl_timestamps :=
            filter (\<lambda>(k, ts). ts \<noteq> []) (map (\<lambda>(k, ts). (k, alive windowStart ts)) (rl_timestamps l))\<rparr>)"

definition check :: "string \<Rightarrow> ms \<Rightarrow> ms \<Rightarrow> limiter \<Rightarrow> limiter \<times> bool" where
  "check key now now' l =
     (let windowStart = now - rl_windowMs l;
          ts = (case jget (rl_timestamps l) key of None \<Rightarrow> [] | Some ts \<Rightarrow> alive windowStart ts);
          l1 = l\<lparr>rl_timestamps := (if ts = [] then jdel key (rl_timestamps l) else jset key ts (rl_timestamps l))\<rparr>
      in if rl_maxRequests l \<le> int (length ts) then (l1, False)
         else let l2 = l1\<lparr>rl_timestamps := jset key (ts @ [now]) (rl_timestamps l1)\<rparr>
              in (if length (rl_timestamps l2) > 1000 then pruneExpired now' l2 else l2, True))"

definition waitDelay :: "string \<Rightarrow> ms \<Rightarrow> limiter \<Rightarrow> ms" where
  "waitDelay key now l =
     (let windowStart = now - rl_windowMs l;
          ts = alive windowStart (jget_or [] (rl_timestamps l) key)
      in if int (length ts) < rl_maxRequests l then 0
         else case ts of [] \<Rightarrow> 0 | oldest # _ \<Rightarrow> max 1 (oldest - windowStart))"

datatype wait_error = NotPositive

text \<open>
  \<open>waitIfNeeded\<close>: \<open>wake i\<close> is the clock when the i-th timer has fired. The loop may in principle not
  end, so the result is an option; \<open>Some (Inr n)\<close> says that it returned after \<open>n\<close> sleeps.
\<close>

partial_function (option) wait_loop :: "string \<Rightarrow> (nat \<Rightarrow> ms) \<Rightarrow> nat \<Rightarrow> limiter \<Rightarrow> nat option" where
  "wait_loop key wake i l =
     (if waitDelay key (wake i) l = 0 then Some i else wait_loop key wake (Suc i) l)"

definition waitIfNeeded :: "string \<Rightarrow> (nat \<Rightarrow> ms) \<Rightarrow> limiter \<Rightarrow> (wait_error + nat) option" where
  "waitIfNeeded key wake l =
     (if rl_maxRequests l \<le> 0 \<or> rl_windowMs l \<le> 0 then Some (Inl NotPositive)
      else map_option Inr (wait_loop key wake 0 l))"

definition getRemaining :: "string \<Rightarrow> ms \<Rightarrow> limiter \<Rightarrow> int" where
  "getRemaining key now l =
     max 0 (rl_maxRequests l - int (length (alive (now - rl_windowMs l) (jget_or [] (rl_timestamps l) key))))"

definition clear_limiter :: "limiter \<Rightarrow> limiter" where
  "clear_limiter l = l\<lparr>rl_timestamps := []\<rparr>"

section \<open>What a sliding window promises\<close>

text \<open>The log of accepted requests, and the decision it prescribes.\<close>

type_synonym request_log = "string \<Rightarrow> ms list"

definition in_window :: "ms \<Rightarrow> ms \<Rightarrow> ms list \<Rightarrow> nat" where
  "in_window W t ts = length (filter (\<lambda>s. t - W < s \<and> s \<le> t) ts)"

definition spec_check :: "int \<Rightarrow> ms \<Rightarrow> string \<Rightarrow> ms \<Rightarrow> request_log \<Rightarrow> request_log \<times> bool" where
  "spec_check n W key now lg =
     (if int (in_window W now (lg key)) < n then (lg(key := lg key @ [now]), True) else (lg, False))"

text \<open>A run: requests (key, clock at the check, clock at the prune), oldest first.\<close>

type_synonym request = "string \<times> ms \<times> ms"

fun run_checks :: "limiter \<Rightarrow> request list \<Rightarrow> limiter \<times> bool list" where
  "run_checks l [] = (l, [])"
| "run_checks l ((k, t, t') # rs) =
     (case check k t t' l of (l1, b) \<Rightarrow> (case run_checks l1 rs of (l2, bs) \<Rightarrow> (l2, b # bs)))"

fun run_spec :: "int \<Rightarrow> ms \<Rightarrow> request_log \<Rightarrow> request list \<Rightarrow> request_log \<times> bool list" where
  "run_spec n W lg [] = (lg, [])"
| "run_spec n W lg ((k, t, t') # rs) =
     (case spec_check n W k t lg of (log1, b) \<Rightarrow>
        (case run_spec n W log1 rs of (log2, bs) \<Rightarrow> (log2, b # bs)))"

lemma run_checks_Cons:
  "run_checks l ((k, t, t') # rs) =
     (fst (run_checks (fst (check k t t' l)) rs),
      snd (check k t t' l) # snd (run_checks (fst (check k t t' l)) rs))"
  by (simp split: prod.splits)

lemma run_spec_Cons:
  "run_spec n W lg ((k, t, t') # rs) =
     (fst (run_spec n W (fst (spec_check n W k t lg)) rs),
      snd (spec_check n W k t lg) # snd (run_spec n W (fst (spec_check n W k t lg)) rs))"
  by (simp split: prod.splits)

text \<open>A clock that never goes back, from \<open>t0\<close> on.\<close>

fun clock_from :: "ms \<Rightarrow> request list \<Rightarrow> bool" where
  "clock_from t0 [] = True"
| "clock_from t0 ((k, t, t') # rs) = (t0 \<le> t \<and> t \<le> t' \<and> clock_from t' rs)"

fun clock_end :: "ms \<Rightarrow> request list \<Rightarrow> ms" where
  "clock_end t0 [] = t0"
| "clock_end t0 ((k, t, t') # rs) = clock_end t' rs"

section \<open>The code keeps what matters of the log\<close>

lemma alive_simps [simp]:
  "alive w [] = []" "alive w (xs @ ys) = alive w xs @ alive w ys"
  "alive w (t # ts) = (if w < t then t # alive w ts else alive w ts)"
  by (simp_all add: alive_def)

lemma alive_alive [simp]: "alive a (alive b ts) = alive (max a b) ts"
  by (simp add: alive_def conj_commute)

lemma alive_mono: "a \<le> b \<Longrightarrow> alive a xs = alive a ys \<Longrightarrow> alive b xs = alive b ys"
  using alive_alive [of b a xs] alive_alive [of b a ys] by (simp add: max_def split: if_splits)

lemma prune_lookup:
  "jget_or [] (filter (\<lambda>(k, ts). ts \<noteq> []) (map (\<lambda>(k, ts). (k, alive w ts)) m)) k = alive w (jget_or [] m k)"
  if "jmap_ok m"
  using that
proof (induction m)
  case (Cons p m)
  obtain a ts where p: "p = (a, ts)" by (cases p)
  have "a \<notin> fst ` set m \<Longrightarrow>
      map_of (filter (\<lambda>(k, ts). ts \<noteq> []) (map (\<lambda>(k, ts). (k, alive w ts)) m)) a = None"
    by (force simp: map_of_eq_None_iff)
  with Cons p show ?case by (auto simp: jget_or_def)
qed (simp add: jget_or_def)

lemma prune_keys: "jmap_ok m \<Longrightarrow> jmap_ok (filter (\<lambda>(k, ts). ts \<noteq> []) (map (\<lambda>(k, ts). (k, alive w ts)) m))"
  by (rule jmap_ok_filter) (simp add: comp_def split_beta)

text \<open>
  The simulation relation at time \<open>t\<close>: for every key the stored timestamps and the log agree on
  what is newer than \<open>t - W\<close>; nothing in the log or stored is newer than \<open>t\<close>; the stored
  lists are sorted, and no key has more than the allowed number stored.
\<close>

definition stored_ok :: "int \<Rightarrow> ms \<Rightarrow> ms list \<Rightarrow> bool" where
  "stored_ok n t ts \<longleftrightarrow> sorted ts \<and> (\<forall>s \<in> set ts. s \<le> t) \<and> int (length ts) \<le> max 0 n"

definition sim :: "ms \<Rightarrow> limiter \<Rightarrow> request_log \<Rightarrow> bool" where
  "sim t l lg \<longleftrightarrow> jmap_ok (rl_timestamps l) \<and>
     (\<forall>k. alive (t - rl_windowMs l) (jget_or [] (rl_timestamps l) k) = alive (t - rl_windowMs l) (lg k)) \<and>
     (\<forall>k. \<forall>s \<in> set (lg k). s \<le> t) \<and>
     (\<forall>k. stored_ok (rl_maxRequests l) t (jget_or [] (rl_timestamps l) k))"

lemma length_alive: "length (alive w ts) \<le> length ts"
  by (simp add: alive_def)

lemma stored_ok_Nil [simp]: "stored_ok n t []"
  by (simp add: stored_ok_def)

lemma stored_ok_alive: "stored_ok n t ts \<Longrightarrow> stored_ok n t (alive w ts)"
  using sorted_filter [of "\<lambda>x. x" ts "\<lambda>s. w < s"]
  by (auto simp: stored_ok_def alive_def) (meson length_filter_le of_nat_le_iff order_trans)

lemma stored_ok_later: "stored_ok n t ts \<Longrightarrow> t \<le> t' \<Longrightarrow> stored_ok n t' ts"
  by (auto simp: stored_ok_def)

lemma stored_ok_snoc: "stored_ok n t ts \<Longrightarrow> int (length ts) < n \<Longrightarrow> stored_ok n t (ts @ [t])"
  by (auto simp: stored_ok_def sorted_append)

lemma sim_init: "sim t (new_limiter n W) (\<lambda>_. [])"
  by (simp add: sim_def new_limiter_def jget_or_def)

lemma sim_later: "sim t l lg \<Longrightarrow> t \<le> t' \<Longrightarrow> sim t' l lg"
  by (auto simp: sim_def intro: alive_mono [of "t - rl_windowMs l"] stored_ok_later order_trans)

lemma in_window_alive: "\<forall>s \<in> set ts. s \<le> t \<Longrightarrow> in_window W t ts = length (alive (t - W) ts)"
  unfolding in_window_def alive_def by (intro arg_cong [of _ _ length] filter_cong) auto

lemma sim_stored:
  "sim t l lg \<Longrightarrow> stored_ok (rl_maxRequests l) t (alive (t - rl_windowMs l) (lg k))"
  unfolding sim_def by (metis stored_ok_alive)

lemma sim_prune:
  assumes "sim t l lg"
  shows "sim t (pruneExpired t l) lg"
  using assms sim_stored [OF assms]
  by (simp add: sim_def pruneExpired_def Let_def prune_lookup prune_keys)

lemma check_config:
  "rl_maxRequests (fst (check k t t' l)) = rl_maxRequests l \<and> rl_windowMs (fst (check k t t' l)) = rl_windowMs l"
  by (simp add: check_def pruneExpired_def Let_def)

lemma sim_check:
  assumes s: "sim t l lg" and "t \<le> t'"
  shows "snd (check k t t' l) = snd (spec_check (rl_maxRequests l) (rl_windowMs l) k t lg) \<and>
     sim t' (fst (check k t t' l)) (fst (spec_check (rl_maxRequests l) (rl_windowMs l) k t lg))"
proof -
  let ?w = "t - rl_windowMs l" and ?m = "rl_timestamps l"
  let ?ts = "alive ?w (jget_or [] ?m k)"
  define l1 where "l1 = l\<lparr>rl_timestamps := (if ?ts = [] then jdel k ?m else jset k ?ts ?m)\<rparr>"
  define l2 where "l2 = l1\<lparr>rl_timestamps := jset k (?ts @ [t]) (rl_timestamps l1)\<rparr>"
  have ts: "(case jget ?m k of None \<Rightarrow> [] | Some ts \<Rightarrow> alive ?w ts) = ?ts"
    by (simp add: jget_or_def split: option.split)
  have chk: "check k t t' l = (if rl_maxRequests l \<le> int (length ?ts) then (l1, False)
      else (if length (rl_timestamps l2) > 1000 then pruneExpired t' l2 else l2, True))"
    unfolding check_def ts Let_def by (simp add: l1_def l2_def)
  have cnt: "in_window (rl_windowMs l) t (lg k) = length ?ts"
    using s by (auto simp: sim_def in_window_alive)
  have ok: "stored_ok (rl_maxRequests l) t ?ts"
    using s unfolding sim_def by (blast intro: stored_ok_alive)
  have s1: "sim t l1 lg"
    using s ok unfolding sim_def l1_def by auto
  show ?thesis
  proof (cases "rl_maxRequests l \<le> int (length ?ts)")
    case True
    with cnt sim_later [OF s1 \<open>t \<le> t'\<close>] show ?thesis by (simp add: chk spec_check_def)
  next
    case False
    have "sim t l2 (lg(k := lg k @ [t]))"
      using s s1 stored_ok_snoc [OF ok] False unfolding sim_def l2_def by (auto simp: l1_def)
    then have "sim t' l2 (lg(k := lg k @ [t]))" using \<open>t \<le> t'\<close> by (rule sim_later)
    with sim_prune [OF this] False cnt show ?thesis by (simp add: chk spec_check_def)
  qed
qed

lemma sim_run:
  assumes "sim t0 l lg" and "clock_from t0 rs"
  shows "snd (run_checks l rs) = snd (run_spec (rl_maxRequests l) (rl_windowMs l) lg rs) \<and>
     sim (clock_end t0 rs) (fst (run_checks l rs)) (fst (run_spec (rl_maxRequests l) (rl_windowMs l) lg rs)) \<and>
     rl_maxRequests (fst (run_checks l rs)) = rl_maxRequests l \<and> rl_windowMs (fst (run_checks l rs)) = rl_windowMs l"
  using assms
proof (induction rs arbitrary: t0 l lg)
  case (Cons r rs)
  obtain k t t' where r: "r = (k, t, t')" by (cases r)
  with Cons.prems have "sim t l lg" and tt: "t \<le> t'" and ck: "clock_from t' rs"
    using sim_later by auto
  note chk = sim_check [OF this(1) tt, of k]
  from chk Cons.IH [OF conjunct2 [OF chk] ck] check_config [of k t t' l]
  show ?case by (simp add: r run_checks_Cons run_spec_Cons del: run_checks.simps run_spec.simps)
qed simp

section \<open>The log keeps the bound\<close>

definition log_bounded :: "int \<Rightarrow> ms \<Rightarrow> ms \<Rightarrow> request_log \<Rightarrow> bool" where
  "log_bounded n W t0 lg \<longleftrightarrow>
     (\<forall>k t. int (in_window W t (lg k)) \<le> max 0 n) \<and> (\<forall>k. \<forall>s \<in> set (lg k). s \<le> t0)"

lemma spec_check_bounded:
  assumes "log_bounded n W t0 lg" and "t0 \<le> now"
  shows "log_bounded n W now (fst (spec_check n W k now lg))"
proof (cases "int (in_window W now (lg k)) < n")
  case False
  with assms show ?thesis by (force simp: log_bounded_def spec_check_def)
next
  case True
  have "int (in_window W t (lg k @ [now])) \<le> max 0 n" for t
  proof (cases "now \<le> t")
    case now: True
    have "in_window W t (lg k) \<le> in_window W now (lg k)"
      unfolding in_window_def
    proof (rule length_filter_mono_on)
      show "\<forall>s \<in> set (lg k). t - W < s \<and> s \<le> t \<longrightarrow> now - W < s \<and> s \<le> now"
        using assms now by (fastforce simp: log_bounded_def)
    qed
    with True show ?thesis by (simp add: in_window_def)
  next
    case False
    with assms show ?thesis by (simp add: in_window_def log_bounded_def)
  qed
  with assms True show ?thesis by (force simp: log_bounded_def spec_check_def)
qed

lemma run_spec_bounded:
  "log_bounded n W t0 lg \<Longrightarrow> clock_from t0 rs \<Longrightarrow>
   int (in_window W t (fst (run_spec n W lg rs) k)) \<le> max 0 n"
proof (induction rs arbitrary: t0 lg)
  case Nil
  then show ?case by (simp add: log_bounded_def)
next
  case (Cons r rs)
  obtain k' s s' where r: "r = (k', s, s')" by (cases r)
  have "log_bounded n W s (fst (spec_check n W k' s lg))"
    using Cons.prems r by (auto intro: spec_check_bounded)
  then have "log_bounded n W s' (fst (spec_check n W k' s lg))"
    using Cons.prems(2) r by (fastforce simp: log_bounded_def)
  from Cons.IH [OF this] Cons.prems r show ?case by (simp add: run_spec_Cons del: run_spec.simps)
qed

section \<open>Waiting\<close>

lemma waitDelay_zero_iff:
  assumes "0 < rl_maxRequests l"
  shows "waitDelay key now l = 0 \<longleftrightarrow> snd (check key now now' l)"
  using assms by (auto simp: waitDelay_def check_def jget_or_def Let_def not_le split: option.split list.split)

lemma sorted_alive_Cons:
  "sorted ts \<Longrightarrow> alive w ts = t # ts' \<Longrightarrow> t \<le> w' \<Longrightarrow> w \<le> w' \<Longrightarrow> length (alive w' ts) \<le> length ts'"
proof -
  assume srt: "sorted ts" and al: "alive w ts = t # ts'" and le: "t \<le> w'" "w \<le> w'"
  have "alive w' ts = alive w' (alive w ts)" using le by (simp add: max_absorb1)
  also have "\<dots> = alive w' ts'" using le by (simp add: al)
  finally show ?thesis by (simp add: alive_def)
qed

lemma wait_loop_stop: "waitDelay key (wake i) l = 0 \<Longrightarrow> wait_loop key wake i l = Some i"
  by (simp add: wait_loop.simps)

lemma wait_loop_next: "waitDelay key (wake i) l \<noteq> 0 \<Longrightarrow> wait_loop key wake i l = wait_loop key wake (Suc i) l"
  by (subst wait_loop.simps) simp

text \<open>One sleep is enough: once the oldest request has left the window there is a free slot.\<close>

lemma one_sleep:
  assumes srt: "sorted (jget_or [] (rl_timestamps l) key)"
    and len: "int (length (jget_or [] (rl_timestamps l) key)) \<le> rl_maxRequests l"
    and pos: "0 < rl_maxRequests l" and w: "now + waitDelay key now l \<le> now'"
    and busy: "waitDelay key now l \<noteq> 0"
  shows "waitDelay key now' l = 0"
proof -
  let ?ts = "jget_or [] (rl_timestamps l) key" and ?W = "rl_windowMs l"
  obtain t ts where al: "alive (now - ?W) ?ts = t # ts"
    using busy by (cases "alive (now - ?W) ?ts") (auto simp: waitDelay_def Let_def split: if_splits)
  have full: "\<not> int (length (t # ts)) < rl_maxRequests l"
    using busy al by (auto simp: waitDelay_def Let_def)
  then have d: "waitDelay key now l = max 1 (t - (now - ?W))"
    by (simp add: waitDelay_def Let_def al)
  have "length (alive (now' - ?W) ?ts) \<le> length ts"
    by (rule sorted_alive_Cons [OF srt al]) (use d w in linarith)+
  moreover have "length (t # ts) \<le> length ?ts" using length_alive [of "now - ?W" ?ts] al by simp
  ultimately have "int (length (alive (now' - ?W) ?ts)) < rl_maxRequests l" using len by simp
  then show ?thesis by (simp add: waitDelay_def)
qed

section \<open>The Redis-backed limiter\<close>

text \<open>
  The client: whether each optional method exists, and the methods over the server state \<open>'r\<close>;
  \<open>None\<close> is a rejected promise. \<open>c_eval\<close> runs the INCR / PEXPIRE script, \<open>c_get\<close> yields the
  stored value as \<open>Number(raw)\<close>.
\<close>

record 'r redis_client =
  c_has_incr :: bool
  c_has_pexpire :: bool
  c_has_eval :: bool
  c_has_get :: bool
  c_eval :: "string \<Rightarrow> ms \<Rightarrow> 'r \<Rightarrow> 'r \<times> int option"
  c_incr :: "string \<Rightarrow> 'r \<Rightarrow> 'r \<times> int option"
  c_pexpire :: "string \<Rightarrow> ms \<Rightarrow> 'r \<Rightarrow> 'r \<times> bool"
  c_get :: "string \<Rightarrow> 'r \<Rightarrow> 'r \<times> jsnum option"

record 'r redis_limiter =
  r_client :: "'r redis_client option"
  r_prefix :: string
  r_max :: int
  r_window :: ms
  r_memory :: limiter

definition new_redis_limiter :: "'r redis_client option \<Rightarrow> string \<Rightarrow> int \<Rightarrow> ms \<Rightarrow> 'r redis_limiter" where
  "new_redis_limiter c p n w =
     \<lparr>r_client = c, r_prefix = p, r_max = n, r_window = w, r_memory = new_limiter n w\<rparr>"

definition canUseRedis :: "'r redis_limiter \<Rightarrow> bool" where
  "canUseRedis rl = (case r_client rl of None \<Rightarrow> False | Some c \<Rightarrow> c_has_incr c \<and> c_has_pexpire c)"

definition incrementAtomic :: "'r redis_client \<Rightarrow> string \<Rightarrow> ms \<Rightarrow> 'r \<Rightarrow> 'r \<times> int option" where
  "incrementAtomic c key w r =
     (if c_has_eval c then c_eval c key w r
      else case c_incr c key r of
             (r1, None) \<Rightarrow> (r1, None)
           | (r1, Some n) \<Rightarrow> (fst (c_pexpire c key w r1), Some n))"

definition scoped_key :: "'r redis_limiter \<Rightarrow> string \<Rightarrow> string" where
  "scoped_key rl scope = r_prefix rl @ '':'' @ scope"

definition memory_check ::
  "string \<Rightarrow> ms \<Rightarrow> ms \<Rightarrow> 'r redis_limiter \<Rightarrow> 'r redis_limiter \<times> bool" where
  "memory_check scope now now' rl =
     (case check scope now now' (r_memory rl) of (m, b) \<Rightarrow> (rl\<lparr>r_memory := m\<rparr>, b))"

definition redis_check ::
  "string \<Rightarrow> ms \<Rightarrow> ms \<Rightarrow> 'r redis_limiter \<Rightarrow> 'r \<Rightarrow> 'r redis_limiter \<times> 'r \<times> bool" where
  "redis_check scope now now' rl r =
     (case r_client rl of
        Some c \<Rightarrow>
          (if canUseRedis rl then
             (case incrementAtomic c (scoped_key rl scope) (r_window rl) r of
                (r1, Some n) \<Rightarrow> (rl, r1, n \<le> r_max rl)
              | (r1, None) \<Rightarrow> (case memory_check scope now now' rl of (rl', b) \<Rightarrow> (rl', r1, b)))
           else (case memory_check scope now now' rl of (rl', b) \<Rightarrow> (rl', r, b)))
      | None \<Rightarrow> (case memory_check scope now now' rl of (rl', b) \<Rightarrow> (rl', r, b)))"

text \<open>\<open>Number(raw) || 0\<close>: NaN counts as 0.\<close>

definition number_or_0 :: "jsnum \<Rightarrow> jsnum" where
  "number_or_0 x = (if x = NaN then Num 0 else x)"

definition redis_getRemaining :: "string \<Rightarrow> ms \<Rightarrow> 'r redis_limiter \<Rightarrow> 'r \<Rightarrow> 'r \<times> jsnum" where
  "redis_getRemaining scope now rl r =
     (let local = Num (of_int (getRemaining scope now (r_memory rl)))
      in case r_client rl of
           None \<Rightarrow> (r, local)
         | Some c \<Rightarrow>
             (if \<not> canUseRedis rl \<or> \<not> c_has_get c then (r, local)
              else case c_get c (scoped_key rl scope) r of
                     (r1, None) \<Rightarrow> (r1, local)
                   | (r1, Some v) \<Rightarrow> (r1, jmax (Num 0) (jsub (jint (r_max rl)) (number_or_0 v)))))"

section \<open>Properties\<close>

text \<open>
  C3. The limiter is a sliding window: with a clock that never goes back, for any requests on any
  keys, it accepts exactly the requests that the full log of accepted requests prescribes (fewer
  than \<open>maxRequests\<close> accepted in the last \<open>windowMs\<close>), although it forgets and prunes; and in
  every window, wherever it starts, no key has more than \<open>maxRequests\<close> accepted requests.
\<close>

theorem limiter_refines_log:
  assumes "clock_from t0 rs"
  shows "snd (run_checks (new_limiter n W) rs) = snd (run_spec n W (\<lambda>_. []) rs) \<and>
     int (in_window W t (fst (run_spec n W (\<lambda>_. []) rs) k)) \<le> max 0 n"
proof
  show "snd (run_checks (new_limiter n W) rs) = snd (run_spec n W (\<lambda>_. []) rs)"
    using sim_run [OF sim_init assms, of n W] by (simp add: new_limiter_def)
  have "log_bounded n W t0 (\<lambda>_. [])" by (simp add: log_bounded_def in_window_def)
  then show "int (in_window W t (fst (run_spec n W (\<lambda>_. []) rs) k)) \<le> max 0 n"
    using assms by (rule run_spec_bounded)
qed

theorem limiter_refines_log_witness:
  "snd (run_checks (new_limiter 2 100)
      [(''a'', 0, 0), (''a'', 50, 50), (''b'', 60, 60), (''a'', 70, 70), (''a'', 100, 100)]) =
    [True, True, True, False, True]"
  using limiter_refines_log [of 0 "[(''a'', 0, 0), (''a'', 50, 50), (''b'', 60, 60), (''a'', 70, 70), (''a'', 100, 100)]"
      2 100 100 "''a''"]
  by (simp add: spec_check_def in_window_def)

text \<open>
  \<open>waitIfNeeded\<close> returns: after any run, with positive limits and a timer that never fires
  early, it returns after at most one sleep, and a check made at the moment it returns is accepted.
\<close>

theorem wait_returns:
  assumes "clock_from t0 rs" and "0 < n" and "0 < W"
    and l: "l = fst (run_checks (new_limiter n W) rs)"
    and timer: "\<forall>i. wake i + waitDelay key (wake i) l \<le> wake (Suc i)"
  shows "\<exists>i \<le> 1. waitIfNeeded key wake l = Some (Inr i) \<and> snd (check key (wake i) now' l)"
proof -
  have s: "sim (clock_end t0 rs) l (fst (run_spec n W (\<lambda>_. []) rs))" and cfg: "rl_maxRequests l = n" "rl_windowMs l = W"
    using sim_run [OF sim_init assms(1), of n W] by (auto simp: l new_limiter_def)
  then have srt: "sorted (jget_or [] (rl_timestamps l) key)"
    and len: "int (length (jget_or [] (rl_timestamps l) key)) \<le> rl_maxRequests l"
    using \<open>0 < n\<close> by (auto simp: sim_def stored_ok_def max_def)
  have pos: "0 < rl_maxRequests l" using cfg \<open>0 < n\<close> by simp
  have wait: "waitIfNeeded key wake l = map_option Inr (wait_loop key wake 0 l)"
    using cfg assms(2,3) by (simp add: waitIfNeeded_def)
  show ?thesis
  proof (cases "waitDelay key (wake 0) l = 0")
    case True
    then show ?thesis
      using waitDelay_zero_iff [OF pos, of key "wake 0" now'] by (auto simp: wait wait_loop_stop)
  next
    case False
    with one_sleep [OF srt len pos] timer have z: "waitDelay key (wake 1) l = 0" by (metis One_nat_def)
    then show ?thesis
      using False waitDelay_zero_iff [OF pos, of key "wake 1" now']
      by (auto simp: wait wait_loop_next wait_loop_stop)
  qed
qed

theorem wait_returns_witness:
  "\<exists>i \<le> 1. waitIfNeeded ''a'' (\<lambda>i. 20 + 1000 * int i) (fst (run_checks (new_limiter 1 100) [(''a'', 0, 0)])) = Some (Inr i) \<and>
     snd (check ''a'' (20 + 1000 * int i) 5000 (fst (run_checks (new_limiter 1 100) [(''a'', 0, 0)])))"
  by (rule wait_returns [of 0 "[(''a'', 0, 0)]" 1 100])
    (auto simp: check_def new_limiter_def waitDelay_def jget_or_def Let_def)

text \<open>
  The Redis limiter degrades, it never fails: when there is no usable client, or the counter
  call is rejected, the decision is that of the in-memory window and the window records it; when the
  counter answers, the answer alone decides and the window is untouched.
\<close>

theorem redis_check_degrades:
  "case redis_check scope now now' rl r of (rl', r', b) \<Rightarrow>
     (if \<not> canUseRedis rl
      then b = snd (check scope now now' (r_memory rl)) \<and> r_memory rl' = fst (check scope now now' (r_memory rl)) \<and> r' = r
      else case incrementAtomic (the (r_client rl)) (scoped_key rl scope) (r_window rl) r of
             (r1, None) \<Rightarrow> b = snd (check scope now now' (r_memory rl)) \<and>
                            r_memory rl' = fst (check scope now now' (r_memory rl)) \<and> r' = r1
           | (r1, Some n) \<Rightarrow> b = (n \<le> r_max rl) \<and> rl' = rl \<and> r' = r1)"
  by (cases "r_client rl")
    (auto simp: redis_check_def memory_check_def canUseRedis_def split: prod.split option.split)

end
