(* ===== verification/Json.thy ===== *)
theory Json
  imports JsNumber
begin

text \<open>
  JavaScript values as the program sees them in configs, events and request bodies: what
  \<open>JSON.parse\<close> yields, and \<open>undefined\<close>. Objects are association lists in property order. The
  operators the code applies to them: property access, \<open>??\<close>, truthiness, \<open>typeof\<close>. Property access
  is to own properties; where a name inherited from \<open>Object.prototype\<close> can be reached, the
  component says so.
\<close>

datatype json =
    JUndef
  | JNull
  | JBool bool
  | JNum jsnum
  | JStr string
  | JArr "json list"
  | JObj "(string \<times> json) list"

fun get_prop :: "json \<Rightarrow> string \<Rightarrow> json" where
  "get_prop (JObj ps) k = (case map_of ps k of None \<Rightarrow> JUndef | Some v \<Rightarrow> v)"
| "get_prop _ k = JUndef"

definition nullish :: "json \<Rightarrow> bool" where
  "nullish v \<longleftrightarrow> v = JUndef \<or> v = JNull"

definition nullish_or :: "json \<Rightarrow> json \<Rightarrow> json" where
  "nullish_or a b = (if nullish a then b else a)"

fun truthy :: "json \<Rightarrow> bool" where
  "truthy JUndef = False"
| "truthy JNull = False"
| "truthy (JBool b) = b"
| "truthy (JNum n) = (n \<noteq> Num 0 \<and> n \<noteq> NaN)"
| "truthy (JStr s) = (s \<noteq> [])"
| "truthy (JArr _) = True"
| "truthy (JObj _) = True"

fun is_object :: "json \<Rightarrow> bool" where
  "is_object (JObj _) = True"
| "is_object (JArr _) = True"
| "is_object JNull = True"
| "is_object _ = False"

fun is_plain_object :: "json \<Rightarrow> bool" where
  "is_plain_object (JObj _) = True"
| "is_plain_object _ = False"

fun is_string :: "json \<Rightarrow> bool" where
  "is_string (JStr _) = True"
| "is_string _ = False"

fun is_array :: "json \<Rightarrow> bool" where
  "is_array (JArr _) = True"
| "is_array _ = False"

text \<open>\<open>Object.values\<close>: of an array its elements, of a primitive nothing.\<close>

fun object_values :: "json \<Rightarrow> json list" where
  "object_values (JObj ps) = map snd ps"
| "object_values (JArr xs) = xs"
| "object_values _ = []"

text \<open>Object spread \<open>{...a, ...b}\<close>: later properties win, earlier ones keep their place.\<close>

definition spread :: "(string \<times> 'v) list \<Rightarrow> (string \<times> 'v) list \<Rightarrow> (string \<times> 'v) list" where
  "spread a b = fold (\<lambda>(k, v) m. AList.update k v m) b a"

lemma map_of_spread: "map_of (spread a b) k = (case map_of (rev b) k of None \<Rightarrow> map_of a k | Some v \<Rightarrow> Some v)"
proof (induction b arbitrary: a)
  case (Cons p b)
  obtain x v where p: "p = (x, v)" by (cases p)
  from Cons [of "AList.update x v a"] show ?case
    by (auto simp: spread_def p map_add_def split: option.splits)
qed (simp add: spread_def)

lemma get_prop_not_object: "\<not> is_plain_object v \<Longrightarrow> get_prop v k = JUndef"
  by (cases v) auto

end
