(* ===== verification/Contracts.thy ===== *)
theory Contracts
  imports Json Prelude
begin

text \<open>
  Platform events, packages/core/src/types/events.ts, and the contract versions stamped on them,
  packages/core/src/contracts/contract-registry.ts. The table is an object literal, so a look-up
  \<open>byType?.[type]\<close> also reaches the members of \<open>Object.prototype\<close>: such a result is \<open>Inherited\<close>,
  a value that is not a number. A platform name of \<open>Object.prototype\<close> is answered by the argument
  \<open>inherited\<close>, the members of the inherited members.
\<close>

record platform_event_input =
  ev_botId :: string
  ev_platform :: string
  ev_type :: string
  ev_payload :: json
  ev_timestamp :: ms
  ev_raw :: json

datatype contract = Version int | Inherited

record platform_event = platform_event_input +
  ev_v :: contract
  ev_eventId :: string

text \<open>The members every object literal inherits.\<close>

definition object_prototype :: "string list" where
  "object_prototype = [''constructor'', ''__defineGetter__'', ''__defineSetter__'', ''hasOwnProperty'',
     ''__lookupGetter__'', ''__lookupSetter__'', ''isPrototypeOf'', ''propertyIsEnumerable'',
     ''toString'', ''valueOf'', ''__proto__'', ''toLocaleString'']"

definition EVENT_CONTRACT_VERSION :: int where
  "EVENT_CONTRACT_VERSION = 1"

definition CONTRACT_VERSIONS :: "(string \<times> (string \<times> int) list) list" where
  "CONTRACT_VERSIONS =
    [(''telegram'', [(''message'', 1)]),
     (''twitch'', [(''message'', 1), (''follow'', 1), (''subscribe'', 1), (''donation'', 1),
        (''comment'', 1), (''raid'', 1), (''host'', 1)]),
     (''youtube'', [(''message'', 1), (''follow'', 1), (''subscribe'', 1), (''donation'', 1), (''comment'', 1)]),
     (''twitter'', [(''message'', 1), (''follow'', 1), (''comment'', 1), (''donation'', 1)]),
     (''crypto'', [(''price'', 1), (''signal'', 1), (''trade'', 1)]),
     (''discord'', [(''message'', 1), (''reaction'', 1), (''member_join'', 1)]),
     (''slack'', [(''message'', 1), (''reaction'', 1), (''member_join'', 1), (''team_join'', 1)]),
     (''bluesky'', [(''like'', 1), (''repost'', 1), (''follow'', 1), (''reply'', 1), (''mention'', 1),
        (''quote'', 1), (''notification'', 1)])]"

definition PLATFORMS :: "string list" where
  "PLATFORMS = [''telegram'', ''twitch'', ''youtube'', ''twitter'', ''crypto'', ''discord'', ''slack'', ''bluesky'']"

definition contractVersion :: "(string \<Rightarrow> string \<Rightarrow> contract option) \<Rightarrow> string \<Rightarrow> string \<Rightarrow> contract" where
  "contractVersion inherited platform type =
     (let explicit =
        (case map_of CONTRACT_VERSIONS platform of
           Some byType \<Rightarrow>
             (case map_of byType type of
                Some v \<Rightarrow> Some (Version v)
              | None \<Rightarrow> if type \<in> set object_prototype then Some Inherited else None)
         | None \<Rightarrow> if platform \<in> set object_prototype then inherited platform type else None)
      in case explicit of None \<Rightarrow> Version EVENT_CONTRACT_VERSION | Some v \<Rightarrow> v)"

text \<open>A comparison with a member function converts it to NaN and is false.\<close>

definition isContractSupported ::
  "(string \<Rightarrow> string \<Rightarrow> contract option) \<Rightarrow> string \<Rightarrow> string \<Rightarrow> jsnum \<Rightarrow> bool" where
  "isContractSupported inherited platform type version =
     (if \<not> is_finite version then False
      else jge version (jint 1) \<and>
        (case contractVersion inherited platform type of Version v \<Rightarrow> jle version (jint v) | Inherited \<Rightarrow> False))"

datatype contract_error = UnsupportedContract jsnum string string contract

definition assertContractSupported ::
  "(string \<Rightarrow> string \<Rightarrow> contract option) \<Rightarrow> string \<Rightarrow> string \<Rightarrow> jsnum \<Rightarrow> contract_error + unit" where
  "assertContractSupported inherited platform type version =
     (if \<not> isContractSupported inherited platform type version
      then Inl (UnsupportedContract version platform type (contractVersion inherited platform type))
      else Inr ())"

definition latestContractVersions ::
  "(string \<Rightarrow> string \<Rightarrow> contract option) \<Rightarrow> (string \<times> (string \<times> contract) list) list" where
  "latestContractVersions inherited =
     map (\<lambda>platform.
       let ks = map fst (case map_of CONTRACT_VERSIONS platform of None \<Rightarrow> [] | Some byType \<Rightarrow> byType);
           keys = (if ''error'' \<in> set ks then ks else ks @ [''error''])
       in (platform, map (\<lambda>type. (type, contractVersion inherited platform type)) keys)) PLATFORMS"

definition stampContractVersion ::
  "(string \<Rightarrow> string \<Rightarrow> contract option) \<Rightarrow> platform_event_input \<Rightarrow> platform_event_input \<times> contract" where
  "stampContractVersion inherited e = (e, contractVersion inherited (ev_platform e) (ev_type e))"

section \<open>What the registry promises\<close>

lemma versions_positive: "list_all (\<lambda>(p, b). list_all (\<lambda>(ty, v). 1 \<le> v) b) CONTRACT_VERSIONS"
  by (simp add: CONTRACT_VERSIONS_def)

lemma platforms_covered: "list_all (\<lambda>p. map_of CONTRACT_VERSIONS p \<noteq> None) PLATFORMS"
  by (simp add: CONTRACT_VERSIONS_def PLATFORMS_def)

lemma version_own:
  assumes "platform \<in> set PLATFORMS" and "type \<notin> set object_prototype"
  shows "\<exists>v \<ge> 1. contractVersion inherited platform type = Version v"
proof -
  obtain b where b: "map_of CONTRACT_VERSIONS platform = Some b"
    using platforms_covered assms(1) by (auto simp: list_all_iff)
  have "1 \<le> v" if "map_of b type = Some v" for v
    using versions_positive map_of_SomeD [OF b] map_of_SomeD [OF that] by (fastforce simp: list_all_iff)
  with b assms(2) show ?thesis
    by (cases "map_of b type") (simp_all add: contractVersion_def EVENT_CONTRACT_VERSION_def)
qed

text \<open>Every current version is supported, and no version above it.\<close>

lemma current_supported:
  assumes "platform \<in> set PLATFORMS" and "type \<notin> set object_prototype"
  obtains v where "contractVersion inherited platform type = Version v" and "1 \<le> v"
    and "\<And>n. isContractSupported inherited platform type (jint n) \<longleftrightarrow> 1 \<le> n \<and> n \<le> v"
proof -
  obtain v where "1 \<le> v" "contractVersion inherited platform type = Version v"
    using version_own [OF assms] by blast
  with that show ?thesis by (simp add: isContractSupported_def not_less)
qed

end
