(* ===== verification/Idempotency.thy ===== *)
theory Idempotency
  imports Contracts
begin

text \<open>
  Event idempotency, packages/core/src/utils/idempotency.ts. The locale \<open>dedup_store\<close> is the interface
  \<open>DedupStore\<close> with the laws its callers rely on: a claim succeeds exactly when the key is not
  live, a granted claim makes its key live for the time to live, and no claim changes any other key.
  It is interpreted on the in-memory store and on the Redis store as it runs without a client.
  SHA-256, \<open>randomUUID\<close> and \<open>String(...)\<close> are arguments.
\<close>

section \<open>The interface\<close>

locale dedup_store =
  fixes claim :: "'k \<Rightarrow> int \<Rightarrow> ms \<Rightarrow> 's \<Rightarrow> 's \<times> bool"
    and live :: "'s \<Rightarrow> 'k \<Rightarrow> ms \<Rightarrow> bool"
    and ok :: "'s \<Rightarrow> bool"
  assumes fresh: "ok s \<Longrightarrow> snd (claim k ttl now s) \<longleftrightarrow> \<not> live s k now"
    and ok_claim: "ok s \<Longrightarrow> ok (fst (claim k ttl now s))"
    and live_claim: "ok s \<Longrightarrow> now \<le> t \<Longrightarrow> live (fst (claim k' ttl now s)) k t \<longleftrightarrow>
       (if k = k' \<and> \<not> live s k' now then t < now + ttl * 1000 else live s k t)"
    and live_before: "live s k t \<Longrightarrow> now \<le> t \<Longrightarrow> live s k now"

text \<open>A run of claims (key, time to live in seconds, clock), oldest first.\<close>

fun run_claims :: "('k \<Rightarrow> int \<Rightarrow> ms \<Rightarrow> 's \<Rightarrow> 's \<times> bool) \<Rightarrow> ('k \<times> int \<times> ms) list \<Rightarrow> 's \<Rightarrow> 's" where
  "run_claims claim [] s = s"
| "run_claims claim ((k, ttl, t) # cs) s = run_claims claim cs (fst (claim k ttl t s))"

text \<open>The claims of a run that succeeded.\<close>

fun granted :: "('k \<Rightarrow> int \<Rightarrow> ms \<Rightarrow> 's \<Rightarrow> 's \<times> bool) \<Rightarrow> ('k \<times> int \<times> ms) list \<Rightarrow> 's \<Rightarrow> ('k \<times> int \<times> ms) list" where
  "granted claim [] s = []"
| "granted claim ((k, ttl, t) # cs) s =
     (if snd (claim k ttl t s) then [(k, ttl, t)] else []) @ granted claim cs (fst (claim k ttl t s))"

text \<open>The clock readings of a run, from \<open>t0\<close> on, never go back.\<close>

fun claims_clock :: "ms \<Rightarrow> ('k \<times> int \<times> ms) list \<Rightarrow> bool" where
  "claims_clock t0 [] = True"
| "claims_clock t0 ((k, ttl, t) # cs) = (t0 \<le> t \<and> claims_clock t cs)"

fun claims_end :: "ms \<Rightarrow> ('k \<times> int \<times> ms) list \<Rightarrow> ms" where
  "claims_end t0 [] = t0"
| "claims_end t0 ((k, ttl, t) # cs) = claims_end t cs"

lemma claims_end_ge: "claims_clock t0 cs \<Longrightarrow> t0 \<le> claims_end t0 cs"
  by (induction t0 cs rule: claims_clock.induct) auto

context dedup_store
begin

lemma ok_run: "ok s \<Longrightarrow> ok (run_claims claim cs s)"
proof (induction cs arbitrary: s)
  case (Cons c cs)
  then show ?case by (cases c) (simp add: ok_claim)
qed simp

lemma live_run:
  "ok s \<Longrightarrow> live s k t \<Longrightarrow> claims_clock t0 cs \<Longrightarrow> claims_end t0 cs \<le> t \<Longrightarrow> live (run_claims claim cs s) k t"
proof (induction cs arbitrary: s t0)
  case (Cons c cs)
  obtain k' ttl u where c: "c = (k', ttl, u)" by (cases c)
  have u: "u \<le> t" using Cons.prems(3,4) claims_end_ge [of u cs] by (auto simp: c)
  have "live (fst (claim k' ttl u s)) k t"
    using live_claim [OF Cons.prems(1) u, of k' ttl k] live_before [OF Cons.prems(2) u] Cons.prems(2) by auto
  with Cons.IH [OF ok_claim [OF Cons.prems(1)], of k' ttl u u] Cons.prems(3,4) show ?case
    by (simp add: c)
qed simp

lemma claim_excludes:
  assumes "ok s" and "snd (claim k ttl now s)" and "claims_clock now cs" and "claims_end now cs \<le> t"
    and "t < now + ttl * 1000"
  shows "\<not> snd (claim k ttl' t (run_claims claim cs (fst (claim k ttl now s))))"
proof -
  have "now \<le> t" using claims_end_ge [OF assms(3)] assms(4) by simp
  then have "live (fst (claim k ttl now s)) k t" using assms by (simp add: live_claim fresh)
  then have "live (run_claims claim cs (fst (claim k ttl now s))) k t"
    using live_run [OF ok_claim [OF assms(1)]] assms(3,4) by blast
  then show ?thesis using ok_run ok_claim assms(1) by (simp add: fresh)
qed

lemma live_origin:
  "ok s \<Longrightarrow> claims_clock t0 cs \<Longrightarrow> claims_end t0 cs \<le> t \<Longrightarrow> live (run_claims claim cs s) k t \<Longrightarrow>
   live s k t \<or> (\<exists>ttl u. (k, ttl, u) \<in> set (granted claim cs s) \<and> t < u + ttl * 1000)"
proof (induction cs arbitrary: s t0)
  case (Cons c cs)
  obtain k' ttl u where c: "c = (k', ttl, u)" by (cases c)
  let ?s = "fst (claim k' ttl u s)"
  have u: "u \<le> t" using Cons.prems(2,3) claims_end_ge [of u cs] by (auto simp: c)
  from Cons.IH [OF ok_claim [OF Cons.prems(1)], of u k' ttl u] Cons.prems(2-4)
  have "live ?s k t \<or> (\<exists>ttl' v. (k, ttl', v) \<in> set (granted claim cs ?s) \<and> t < v + ttl' * 1000)"
    by (simp add: c)
  then show ?case
    using live_claim [OF Cons.prems(1) u, of k' ttl k] fresh [OF Cons.prems(1), of k' ttl u]
    by (auto simp: c split: if_splits)
qed simp

lemma refusal_has_cause:
  assumes "ok s" and "\<And>t. \<not> live s k t" and "claims_clock t0 cs" and "claims_end t0 cs \<le> t"
    and "\<not> snd (claim k ttl t (run_claims claim cs s))"
  shows "\<exists>ttl' u. (k, ttl', u) \<in> set (granted claim cs s) \<and> t < u + ttl' * 1000"
  using live_origin [OF assms(1,3,4), of k] assms(2,5) ok_run [OF assms(1)] by (auto simp: fresh)

end

section \<open>The in-memory store\<close>

type_synonym memory_dedup = "(string, ms) jmap"

definition prune_dedup :: "ms \<Rightarrow> memory_dedup \<Rightarrow> memory_dedup" where
  "prune_dedup now seen = filter (\<lambda>(k, expiresAt). \<not> expiresAt \<le> now) seen"

definition mem_claim :: "string \<Rightarrow> int \<Rightarrow> ms \<Rightarrow> memory_dedup \<Rightarrow> memory_dedup \<times> bool" where
  "mem_claim key ttlSeconds now seen =
     (if (case jget seen key of None \<Rightarrow> False | Some expiresAt \<Rightarrow> now < expiresAt) then (seen, False)
      else let seen' = jset key (now + ttlSeconds * 1000) seen
           in (if length seen' > 100000 then prune_dedup now seen' else seen', True))"

definition mem_clear :: "memory_dedup \<Rightarrow> memory_dedup" where
  "mem_clear seen = []"

text \<open>The key is held at time \<open>t\<close>.\<close>

definition mem_live :: "memory_dedup \<Rightarrow> string \<Rightarrow> ms \<Rightarrow> bool" where
  "mem_live seen k t = (case jget seen k of None \<Rightarrow> False | Some e \<Rightarrow> t < e)"

lemma jget_prune_dedup:
  "jmap_ok m \<Longrightarrow> jget (prune_dedup now m) k =
     (case jget m k of None \<Rightarrow> None | Some e \<Rightarrow> if now < e then Some e else None)"
  unfolding prune_dedup_def by (subst map_of_filter) (auto split: option.split)

lemma mem_live_prune: "jmap_ok m \<Longrightarrow> now \<le> t \<Longrightarrow> mem_live (prune_dedup now m) k t = mem_live m k t"
  by (simp add: mem_live_def jget_prune_dedup split: option.split)

interpretation mem: dedup_store mem_claim mem_live jmap_ok
proof
  fix k k' :: string and ttl now t and s :: memory_dedup
  show "snd (mem_claim k ttl now s) \<longleftrightarrow> \<not> mem_live s k now"
    by (simp add: mem_claim_def mem_live_def Let_def)
  show "jmap_ok s \<Longrightarrow> jmap_ok (fst (mem_claim k ttl now s))"
    by (simp add: mem_claim_def prune_dedup_def Let_def)
  show "mem_live s k t \<Longrightarrow> now \<le> t \<Longrightarrow> mem_live s k now"
    by (simp add: mem_live_def split: option.splits)
  assume ok: "jmap_ok s" and t: "now \<le> t"
  show "mem_live (fst (mem_claim k' ttl now s)) k t \<longleftrightarrow>
     (if k = k' \<and> \<not> mem_live s k' now then t < now + ttl * 1000 else mem_live s k t)"
  proof (cases "mem_live s k' now")
    case True
    then show ?thesis by (simp add: mem_claim_def mem_live_def split: option.splits)
  next
    case False
    then have "mem_live (fst (mem_claim k' ttl now s)) k t = mem_live (jset k' (now + ttl * 1000) s) k t"
      using ok t by (simp add: mem_claim_def mem_live_prune Let_def flip: mem_live_def)
    with False show ?thesis by (simp add: mem_live_def)
  qed
qed

section \<open>The Redis store\<close>

text \<open>
  \<open>client\<close> is \<open>None\<close> when there is no client, \<open>setf\<close> is \<open>None\<close> when the client has no such
  function. The answer of \<open>SET key 1 EX ttl NX\<close> is \<open>Some True\<close> for a value, \<open>Some False\<close> for null or
  undefined, \<open>None\<close> when the call rejects. The server state \<open>'r\<close> is opaque.
\<close>

type_synonym 'r set_fn = "string \<Rightarrow> int \<Rightarrow> 'r \<Rightarrow> 'r \<times> bool option"

record 'r redis_dedup =
  rd_client :: "'r set_fn option option"
  rd_prefix :: string
  rd_memory :: memory_dedup

definition redis_claim ::
  "string \<Rightarrow> int \<Rightarrow> ms \<Rightarrow> 'r redis_dedup \<times> 'r \<Rightarrow> ('r redis_dedup \<times> 'r) \<times> bool" where
  "redis_claim key ttlSeconds now st =
     (case st of (d, r) \<Rightarrow>
       let fallback = (\<lambda>r'. case mem_claim key ttlSeconds now (rd_memory d) of
                              (m, b) \<Rightarrow> ((d\<lparr>rd_memory := m\<rparr>, r'), b))
       in case rd_client d of
            None \<Rightarrow> fallback r
          | Some None \<Rightarrow> fallback r
          | Some (Some setf) \<Rightarrow>
              (case setf (rd_prefix d @ key) ttlSeconds r of
                 (r', Some got) \<Rightarrow> ((d, r'), got)
               | (r', None) \<Rightarrow> fallback r'))"

text \<open>Without a usable client, or with one that always rejects, it is the in-memory store.\<close>

definition offline :: "'r redis_dedup \<Rightarrow> bool" where
  "offline d \<longleftrightarrow> (\<forall>setf. rd_client d = Some (Some setf) \<longrightarrow> (\<forall>k ttl r. snd (setf k ttl r) = None))"

lemma redis_claim_offline:
  assumes "offline d"
  shows "snd (redis_claim k ttl now (d, r)) = snd (mem_claim k ttl now (rd_memory d)) \<and>
    fst (fst (redis_claim k ttl now (d, r))) = d\<lparr>rd_memory := fst (mem_claim k ttl now (rd_memory d))\<rparr>"
proof (cases "rd_client d")
  case None
  then show ?thesis by (simp add: redis_claim_def split: prod.split)
next
  case (Some s)
  show ?thesis
  proof (cases s)
    case None
    with Some show ?thesis by (simp add: redis_claim_def split: prod.split)
  next
    case (Some setf)
    with \<open>rd_client d = _\<close> assms have "snd (setf (rd_prefix d @ k) ttl r) = None" by (simp add: offline_def)
    with Some \<open>rd_client d = _\<close> show ?thesis
      by (cases "setf (rd_prefix d @ k) ttl r") (simp add: redis_claim_def split: prod.split)
  qed
qed

text \<open>With a client the answer of Redis decides, and the in-memory store is not touched.\<close>

lemma redis_claim_online:
  "rd_client d = Some (Some setf) \<Longrightarrow> setf (rd_prefix d @ k) ttl r = (r', Some got) \<Longrightarrow>
   redis_claim k ttl now (d, r) = ((d, r'), got)"
  by (simp add: redis_claim_def)

lemma offline_memory [simp]: "offline (d\<lparr>rd_memory := m\<rparr>) = offline d"
  by (simp add: offline_def)

definition redis_live :: "'r redis_dedup \<times> 'r \<Rightarrow> string \<Rightarrow> ms \<Rightarrow> bool" where
  "redis_live s = mem_live (rd_memory (fst s))"

definition degraded_ok :: "'r redis_dedup \<times> 'r \<Rightarrow> bool" where
  "degraded_ok s \<longleftrightarrow> offline (fst s) \<and> jmap_ok (rd_memory (fst s))"

interpretation degraded: dedup_store redis_claim redis_live degraded_ok
proof
  fix k k' :: string and ttl now t and s :: "'r redis_dedup \<times> 'r"
  obtain d r where s: "s = (d, r)" by (cases s)
  show "snd (redis_claim k ttl now s) \<longleftrightarrow> \<not> redis_live s k now" if "degraded_ok s"
    using that by (simp add: s redis_live_def degraded_ok_def redis_claim_offline mem.fresh)
  show "degraded_ok (fst (redis_claim k ttl now s))" if "degraded_ok s"
    using that mem.ok_claim [of "rd_memory d"]
    by (simp add: s degraded_ok_def redis_claim_offline)
  show "redis_live s k t \<Longrightarrow> now \<le> t \<Longrightarrow> redis_live s k now"
    unfolding redis_live_def by (rule mem.live_before)
  show "redis_live (fst (redis_claim k' ttl now s)) k t \<longleftrightarrow>
     (if k = k' \<and> \<not> redis_live s k' now then t < now + ttl * 1000 else redis_live s k t)"
    if "degraded_ok s" "now \<le> t"
    using that by (simp add: s redis_live_def degraded_ok_def redis_claim_offline mem.live_claim)
qed

section \<open>Event keys\<close>

text \<open>\<open>payload.id ?? payload.messageId ?? ... ?? event.raw?.id\<close>\<close>

definition natural_id :: "platform_event_input \<Rightarrow> json" where
  "natural_id e =
     (let payload = nullish_or (ev_payload e) (JObj [])
      in nullish_or (get_prop payload ''id'')
        (nullish_or (get_prop payload ''messageId'')
          (nullish_or (get_prop payload ''update_id'')
            (nullish_or (get_prop payload ''tweetId'')
              (nullish_or (get_prop (get_prop payload ''data'') ''id'')
                (get_prop (ev_raw e) ''id''))))))"

definition hasNaturalEventId :: "platform_event_input \<Rightarrow> bool" where
  "hasNaturalEventId e =
     (let natural = natural_id e in natural \<noteq> JUndef \<and> natural \<noteq> JNull \<and> natural \<noteq> JStr [])"

definition event_key :: "(json \<Rightarrow> string) \<Rightarrow> platform_event_input \<Rightarrow> string" where
  "event_key to_string e =
     ev_platform e @ [CHR 0x00] @ ev_botId e @ [CHR 0x00] @ ev_type e @ [CHR 0x00] @ to_string (natural_id e)"

definition deriveEventId ::
  "(string \<Rightarrow> string) \<Rightarrow> (json \<Rightarrow> string) \<Rightarrow> string \<Rightarrow> platform_event_input \<Rightarrow> string" where
  "deriveEventId sha256 to_string uuid e =
     (let natural = natural_id e
      in if natural \<noteq> JUndef \<and> natural \<noteq> JNull \<and> natural \<noteq> JStr []
         then take 32 (sha256 (event_key to_string e)) else uuid)"

definition enrichPlatformEvent ::
  "(string \<Rightarrow> string) \<Rightarrow> (json \<Rightarrow> string) \<Rightarrow> (string \<Rightarrow> string \<Rightarrow> contract option) \<Rightarrow> string \<Rightarrow>
   platform_event_input \<Rightarrow> platform_event" where
  "enrichPlatformEvent sha256 to_string inherited uuid e =
     platform_event_input.extend e
       (platform_event.fields (contractVersion inherited (ev_platform e) (ev_type e))
          (deriveEventId sha256 to_string uuid e))"

text \<open>Fields are separated by NUL, so platform, bot and type can be read back from the key.\<close>

lemma nul_split:
  "z \<notin> set a \<Longrightarrow> z \<notin> set b \<Longrightarrow> a @ z # x = b @ z # y \<longleftrightarrow> a = b \<and> x = y"
proof (induction a arbitrary: b)
  case Nil
  then show ?case by (cases b) auto
next
  case (Cons c a)
  then show ?case by (cases b) auto
qed

definition nul_free :: "platform_event_input \<Rightarrow> bool" where
  "nul_free e \<longleftrightarrow> CHR 0x00 \<notin> set (ev_platform e) \<and> CHR 0x00 \<notin> set (ev_botId e) \<and> CHR 0x00 \<notin> set (ev_type e)"

lemma event_key_eq:
  "nul_free a \<Longrightarrow> nul_free b \<Longrightarrow> event_key ts a = event_key ts b \<longleftrightarrow>
     ev_platform a = ev_platform b \<and> ev_botId a = ev_botId b \<and> ev_type a = ev_type b \<and>
     ts (natural_id a) = ts (natural_id b)"
  by (simp add: event_key_def nul_free_def nul_split)

section \<open>Properties\<close>

text \<open>
  C4. At most once per window: after a granted claim, with Redis absent or failing, no sequence of
  claims of other keys or of the same key lets a second claim of the key succeed before the time to
  live has passed.
\<close>

lemma claimed_once:
  assumes "offline (fst s)" and "jmap_ok (rd_memory (fst s))"
    and "snd (redis_claim k ttl now s)" and "claims_clock now cs" and "claims_end now cs \<le> t"
    and "t < now + ttl * 1000"
  shows "\<not> snd (redis_claim k ttl' t (run_claims redis_claim cs (fst (redis_claim k ttl now s))))"
  using assms by (intro degraded.claim_excludes) (auto simp: degraded_ok_def)

definition no_redis :: "unit redis_dedup \<times> unit" where
  "no_redis = (\<lparr>rd_client = None, rd_prefix = ''dedup:'', rd_memory = []\<rparr>, ())"

lemma claimed_once_witness:
  "\<not> snd (redis_claim ''a'' 300 299000 (run_claims redis_claim [(''b'', 5, 10), (''a'', 300, 20)]
       (fst (redis_claim ''a'' 300 0 no_redis))))"
  by (rule claimed_once)
    (simp_all add: no_redis_def offline_def redis_claim_def mem_claim_def Let_def)

text \<open>
  No event is dropped without cause: a claim on the in-memory store fails only when an earlier
  claim of the same key was granted and its time to live still runs.
\<close>

lemma refused_with_cause:
  assumes "claims_clock t0 cs" and "claims_end t0 cs \<le> t"
    and "\<not> snd (mem_claim k ttl t (run_claims mem_claim cs []))"
  shows "\<exists>ttl' u. (k, ttl', u) \<in> set (granted mem_claim cs []) \<and> t < u + ttl' * 1000"
  by (rule mem.refusal_has_cause [OF _ _ assms]) (simp_all add: mem_live_def)

lemma refused_with_cause_witness:
  "\<exists>ttl' u. (''a'', ttl', u) \<in> set (granted mem_claim [(''a'', 300, 0), (''b'', 1, 5)] []) \<and> 9 < u + ttl' * 1000"
  by (rule refused_with_cause [of 0 _ _ _ 300]) (simp_all add: mem_claim_def Let_def)

text \<open>
  The event key identifies the event: two events with a natural id get the same key exactly when
  platform, bot, type and the text of the natural id agree, provided the truncated digest does not
  collide on these two events and the three names hold no NUL; an event without a natural id gets
  the fresh UUID.
\<close>

lemma event_id_identifies:
  assumes "hasNaturalEventId a" and "nul_free a" and "nul_free b"
    and "take 32 (sha256 (event_key ts a)) = take 32 (sha256 (event_key ts b)) \<Longrightarrow>
      event_key ts a = event_key ts b"
  shows "(if hasNaturalEventId b
      then deriveEventId sha256 ts u a = deriveEventId sha256 ts u' b \<longleftrightarrow>
        ev_platform a = ev_platform b \<and> ev_botId a = ev_botId b \<and> ev_type a = ev_type b \<and>
        ts (natural_id a) = ts (natural_id b)
      else deriveEventId sha256 ts u' b = u')"
proof (cases "hasNaturalEventId b")
  case True
  then have "deriveEventId sha256 ts u a = deriveEventId sha256 ts u' b \<longleftrightarrow>
    take 32 (sha256 (event_key ts a)) = take 32 (sha256 (event_key ts b))"
    using assms(1) by (simp add: deriveEventId_def hasNaturalEventId_def Let_def)
  also have "\<dots> \<longleftrightarrow> event_key ts a = event_key ts b" using assms(4) by auto
  also note event_key_eq [OF assms(2,3)]
  finally show ?thesis using True by simp
next
  case False
  then show ?thesis by (auto simp: deriveEventId_def hasNaturalEventId_def Let_def)
qed

definition sample_event :: "string \<Rightarrow> platform_event_input" where
  "sample_event i = \<lparr>ev_botId = ''b1'', ev_platform = ''twitch'', ev_type = ''message'',
     ev_payload = JObj [(''id'', JStr i)], ev_timestamp = 0, ev_raw = JUndef\<rparr>"

lemma event_id_identifies_witness:
  "deriveEventId id (case_json [] [] (\<lambda>_. []) (\<lambda>_. []) id (\<lambda>_. []) (\<lambda>_. [])) ''u'' (sample_event ''1'') \<noteq>
   deriveEventId id (case_json [] [] (\<lambda>_. []) (\<lambda>_. []) id (\<lambda>_. []) (\<lambda>_. [])) ''v'' (sample_event ''2'')"
  using event_id_identifies [of "sample_event ''1''" "sample_event ''2''" id
      "case_json [] [] (\<lambda>_. []) (\<lambda>_. []) id (\<lambda>_. []) (\<lambda>_. [])" "''u''" "''v''"]
  by (simp add: sample_event_def hasNaturalEventId_def natural_id_def nullish_or_def nullish_def
      nul_free_def event_key_def)

end
