(* ===== verification/ProxyPool.thy ===== *)
theory ProxyPool
  imports JsNumber
begin

text \<open>
  The pool of outbound proxies, packages/core/src/proxy/proxy-pool.ts, with the instances of
  proxy/types.ts. Priorities, scores and counters are integers, as in the database they come from.
  \<open>lastFailedAt\<close> is the optional ISO text: absent, present but falsy, a text \<open>Date.parse\<close> does not
  read, or the time it stands for. \<open>selectProxy\<close> returns the pool with its cursor moved.
\<close>

datatype proxy_type = Http | Socks5

datatype last_failed = Absent | NotFailed | Unparsable | FailedAt ms

record proxy_instance =
  px_id :: string
  px_url :: string
  px_type :: proxy_type
  px_priority :: int
  px_enabled :: bool
  px_healthScore :: int
  px_lastFailedAt :: last_failed
  px_requestsCount :: int
  px_failureCount :: int

record pool =
  pl_list :: "proxy_instance list"
  pl_cursor :: nat

definition empty_pool :: pool where
  "empty_pool = \<lparr>pl_list = [], pl_cursor = 0\<rparr>"

definition setProxies :: "proxy_instance list \<Rightarrow> pool \<Rightarrow> pool" where
  "setProxies proxies p = p\<lparr>pl_list := proxies, pl_cursor := 0\<rparr>"

definition getProxies :: "pool \<Rightarrow> proxy_instance list" where
  "getProxies p = pl_list p"

definition getProxy :: "string \<Rightarrow> pool \<Rightarrow> proxy_instance option" where
  "getProxy i p = find (\<lambda>x. px_id x = i) (pl_list p)"

text \<open>\<open>Object.assign(existing, proxy)\<close> keeps a property that \<open>proxy\<close> does not have.\<close>

definition assign_proxy :: "proxy_instance \<Rightarrow> proxy_instance \<Rightarrow> proxy_instance" where
  "assign_proxy new existing =
     new\<lparr>px_lastFailedAt := (if px_lastFailedAt new = Absent then px_lastFailedAt existing else px_lastFailedAt new)\<rparr>"

definition upsert :: "proxy_instance \<Rightarrow> pool \<Rightarrow> pool" where
  "upsert proxy p =
     (case getProxy (px_id proxy) p of
        Some _ \<Rightarrow> p\<lparr>pl_list := update_first (\<lambda>x. px_id x = px_id proxy) (assign_proxy proxy) (pl_list p)\<rparr>
      | None \<Rightarrow> p\<lparr>pl_list := pl_list p @ [proxy]\<rparr>)"

definition remove_proxy :: "string \<Rightarrow> pool \<Rightarrow> pool \<times> bool" where
  "remove_proxy i p =
     (let list' = filter (\<lambda>x. px_id x \<noteq> i) (pl_list p)
      in (p\<lparr>pl_list := list'\<rparr>, length list' \<noteq> length (pl_list p)))"

definition clear_pool :: "pool \<Rightarrow> pool" where
  "clear_pool p = p\<lparr>pl_list := [], pl_cursor := 0\<rparr>"

definition inCooldown :: "proxy_instance \<Rightarrow> ms \<Rightarrow> bool" where
  "inCooldown x now = (case px_lastFailedAt x of FailedAt t \<Rightarrow> now - t < 30000 | _ \<Rightarrow> False)"

definition eligible :: "ms \<Rightarrow> proxy_instance \<Rightarrow> bool" where
  "eligible now x \<longleftrightarrow> px_enabled x \<and> px_healthScore x > 0 \<and> \<not> inCooldown x now"

text \<open>The candidates of the highest priority, in list order.\<close>

definition best_tier :: "proxy_instance list \<Rightarrow> proxy_instance list" where
  "best_tier candidates =
     (let maxPriority = Max (set (map px_priority candidates))
      in filter (\<lambda>c. px_priority c = maxPriority) candidates)"

definition selectProxy :: "ms \<Rightarrow> pool \<Rightarrow> pool \<times> proxy_instance option" where
  "selectProxy now p =
     (let candidates = filter (eligible now) (pl_list p)
      in if candidates = [] then (p, None)
         else let tier = best_tier candidates;
                  pick = tier ! (pl_cursor p mod length tier)
              in (p\<lparr>pl_cursor := (pl_cursor p + 1) mod length tier\<rparr>, Some pick))"

definition reportSuccess :: "string \<Rightarrow> pool \<Rightarrow> pool" where
  "reportSuccess i p = p\<lparr>pl_list := update_first (\<lambda>x. px_id x = i)
     (\<lambda>x. x\<lparr>px_requestsCount := px_requestsCount x + 1, px_healthScore := min 100 (px_healthScore x + 5)\<rparr>)
     (pl_list p)\<rparr>"

definition reportFailure :: "string \<Rightarrow> ms \<Rightarrow> pool \<Rightarrow> pool" where
  "reportFailure i now p = p\<lparr>pl_list := update_first (\<lambda>x. px_id x = i)
     (\<lambda>x. x\<lparr>px_failureCount := px_failureCount x + 1, px_healthScore := max 0 (px_healthScore x - 25),
            px_lastFailedAt := FailedAt now\<rparr>)
     (pl_list p)\<rparr>"

section \<open>The tier\<close>

lemma best_tier_sub: "set (best_tier xs) \<subseteq> set xs"
  by (auto simp: best_tier_def)

lemma best_tier_max: "x \<in> set (best_tier xs) \<Longrightarrow> y \<in> set xs \<Longrightarrow> px_priority y \<le> px_priority x"
  by (simp add: best_tier_def)

lemma best_tier_nonempty: "xs \<noteq> [] \<Longrightarrow> best_tier xs \<noteq> []"
proof -
  assume "xs \<noteq> []"
  then have "Max (set (map px_priority xs)) \<in> set (map px_priority xs)" by (intro Max_in) auto
  then show ?thesis by (auto simp: best_tier_def filter_empty_conv)
qed

text \<open>What may be selected now.\<close>

definition tier_now :: "ms \<Rightarrow> pool \<Rightarrow> proxy_instance list" where
  "tier_now now p = best_tier (filter (eligible now) (pl_list p))"

lemma tier_now_empty: "tier_now now p = [] \<longleftrightarrow> (\<forall>x \<in> set (pl_list p). \<not> eligible now x)"
  using best_tier_nonempty [of "filter (eligible now) (pl_list p)"] best_tier_sub [of "filter (eligible now) (pl_list p)"]
  by (auto simp: tier_now_def filter_empty_conv best_tier_def)

lemma select_tier:
  "selectProxy now p =
     (if tier_now now p = [] then (p, None)
      else (p\<lparr>pl_cursor := (pl_cursor p + 1) mod length (tier_now now p)\<rparr>,
            Some (tier_now now p ! (pl_cursor p mod length (tier_now now p)))))"
  using tier_now_empty [of now p]
  by (auto simp: selectProxy_def tier_now_def Let_def filter_empty_conv)

lemma tier_now_cursor [simp]: "tier_now now (p\<lparr>pl_cursor := c\<rparr>) = tier_now now p"
  by (simp add: tier_now_def)

text \<open>Repeated selection at one moment.\<close>

fun select_many :: "ms \<Rightarrow> nat \<Rightarrow> pool \<Rightarrow> proxy_instance option list" where
  "select_many now 0 p = []"
| "select_many now (Suc n) p = snd (selectProxy now p) # select_many now n (fst (selectProxy now p))"

lemma select_many_map:
  assumes "tier_now now p \<noteq> []"
  shows "select_many now n p =
    map (\<lambda>i. Some (tier_now now p ! ((pl_cursor p + i) mod length (tier_now now p)))) [0..<n]"
  using assms
proof (induction n arbitrary: p)
  case (Suc n)
  show ?case
    using Suc.IH [of "fst (selectProxy now p)"] Suc.prems
    by (simp add: select_tier upt_conv_Cons map_Suc_upt [symmetric] comp_def mod_add_left_eq del: upt_Suc)
qed simp

section \<open>Operations\<close>

datatype pool_op =
    SetProxies "proxy_instance list" | Upsert proxy_instance | RemoveProxy string | ClearPool
  | Select ms | ReportSuccess string | ReportFailure string ms

fun pool_step :: "pool_op \<Rightarrow> pool \<Rightarrow> pool" where
  "pool_step (SetProxies xs) p = setProxies xs p"
| "pool_step (Upsert x) p = upsert x p"
| "pool_step (RemoveProxy i) p = fst (remove_proxy i p)"
| "pool_step ClearPool p = clear_pool p"
| "pool_step (Select now) p = fst (selectProxy now p)"
| "pool_step (ReportSuccess i) p = reportSuccess i p"
| "pool_step (ReportFailure i now) p = reportFailure i now p"

definition healthy :: "proxy_instance \<Rightarrow> bool" where
  "healthy x \<longleftrightarrow> 0 \<le> px_healthScore x \<and> px_healthScore x \<le> 100"

definition pool_inv :: "pool \<Rightarrow> bool" where
  "pool_inv p \<longleftrightarrow> list_all healthy (pl_list p) \<and> distinct (map px_id (pl_list p))"

fun pool_admissible :: "pool_op \<Rightarrow> bool" where
  "pool_admissible (SetProxies xs) = (list_all healthy xs \<and> distinct (map px_id xs))"
| "pool_admissible (Upsert x) = healthy x"
| "pool_admissible _ = True"

lemma assign_proxy_id [simp]: "px_id (assign_proxy new x) = px_id new"
  by (simp add: assign_proxy_def)

lemma healthy_assign [simp]: "healthy (assign_proxy new x) = healthy new"
  by (simp add: assign_proxy_def healthy_def)

lemma getProxy_None: "getProxy i p = None \<longleftrightarrow> i \<notin> px_id ` set (pl_list p)"
  by (auto simp: getProxy_def find_None_iff)

interpretation pool: guarded_machine pool_step pool_admissible pool_inv
proof
  fix a p
  assume p: "pool_inv p" and a: "pool_admissible a"
  then show "pool_inv (pool_step a p)"
  proof (cases a)
    case (Upsert x)
    show ?thesis
    proof (cases "getProxy (px_id x) p")
      case None
      with None show ?thesis using Upsert p a by (simp add: upsert_def pool_inv_def) (simp add: getProxy_None)
    next
      case (Some y)
      have "map px_id (update_first (\<lambda>y. px_id y = px_id x) (assign_proxy x) (pl_list p)) = map px_id (pl_list p)"
        by (rule map_update_first) simp
      with Some show ?thesis using Upsert p a by (simp add: upsert_def pool_inv_def list_all_update_first)
    qed
  next
    case (ReportSuccess i)
    then show ?thesis using p
      by (auto simp: pool_inv_def reportSuccess_def healthy_def intro!: list_all_update_first)
  next
    case (ReportFailure i t)
    then show ?thesis using p
      by (auto simp: pool_inv_def reportFailure_def healthy_def intro!: list_all_update_first)
  qed (auto simp: pool_inv_def setProxies_def remove_proxy_def clear_pool_def select_tier list_all_iff
      distinct_map_filter Let_def)
qed

section \<open>After a failure\<close>

text \<open>The operations of the traffic: no one reconfigures the pool and no clock reading is before \<open>t\<close>.\<close>

fun traffic_after :: "ms \<Rightarrow> pool_op \<Rightarrow> bool" where
  "traffic_after t (Select now) = True"
| "traffic_after t (ReportSuccess i) = True"
| "traffic_after t (ReportFailure i now) = (t \<le> now)"
| "traffic_after t _ = False"

definition failed_since :: "string \<Rightarrow> ms \<Rightarrow> proxy_instance \<Rightarrow> bool" where
  "failed_since i t x \<longleftrightarrow> (px_id x = i \<longrightarrow> (\<exists>u \<ge> t. px_lastFailedAt x = FailedAt u))"

lemma failed_since_step:
  "list_all (failed_since i t) (pl_list p) \<Longrightarrow> traffic_after t a \<Longrightarrow>
   list_all (failed_since i t) (pl_list (pool_step a p))"
  by (cases a)
    (auto simp: select_tier reportSuccess_def reportFailure_def failed_since_def intro!: list_all_update_first)

lemma failed_since_run:
  "list_all (failed_since i t) (pl_list p) \<Longrightarrow> list_all (traffic_after t) as \<Longrightarrow>
   list_all (failed_since i t) (pl_list (fold pool_step as p))"
  by (induction as arbitrary: p) (auto intro: failed_since_step)

lemma failed_since_report:
  "distinct (map px_id xs) \<Longrightarrow> list_all (failed_since i t)
     (update_first (\<lambda>x. px_id x = i) (\<lambda>x. f x\<lparr>px_lastFailedAt := FailedAt t\<rparr>) xs)"
proof (induction xs)
  case (Cons x xs)
  show ?case
  proof (cases "px_id x = i")
    case True
    have "px_id x \<notin> px_id ` set xs" using Cons.prems by simp
    with True have "px_id y \<noteq> i" if "y \<in> set xs" for y using that by (metis image_eqI)
    with True show ?thesis by (simp add: failed_since_def list_all_iff)
  next
    case False
    with Cons show ?thesis by (simp add: failed_since_def)
  qed
qed simp

lemma select_some:
  assumes "snd (selectProxy now p) = Some x"
  shows "x \<in> set (pl_list p) \<and> eligible now x \<and> (\<forall>y \<in> set (pl_list p). eligible now y \<longrightarrow> px_priority y \<le> px_priority x)"
proof -
  have ne: "tier_now now p \<noteq> []" and x: "x = tier_now now p ! (pl_cursor p mod length (tier_now now p))"
    using assms by (auto simp: select_tier split: if_splits)
  then have "x \<in> set (tier_now now p)" by simp
  then show ?thesis
    using best_tier_sub [of "filter (eligible now) (pl_list p)"] best_tier_max [of x "filter (eligible now) (pl_list p)"]
    by (auto simp: tier_now_def)
qed

section \<open>Properties\<close>

text \<open>
  Selection: it yields nothing exactly when no proxy is enabled, above zero health and out of
  its cooldown; otherwise it yields such a proxy, of the highest priority there is among them, and
  moves nothing but the cursor. Health stays between 0 and 100 and identifiers stay unique under any
  sequence of well-formed operations.
\<close>

theorem select_best:
  assumes "pool_inv p" and "list_all pool_admissible as" and "q = fold pool_step as p"
  shows "pool_inv q \<and> pl_list (fst (selectProxy now q)) = pl_list q \<and>
    (case snd (selectProxy now q) of
       None \<Rightarrow> \<forall>x \<in> set (pl_list q). \<not> eligible now x
     | Some x \<Rightarrow> x \<in> set (pl_list q) \<and> eligible now x \<and>
         (\<forall>y \<in> set (pl_list q). eligible now y \<longrightarrow> px_priority y \<le> px_priority x))"
proof (intro conjI)
  show "pool_inv q" unfolding assms(3) by (rule pool.run_inv [OF assms(1,2)])
  show "pl_list (fst (selectProxy now q)) = pl_list q" by (simp add: select_tier)
  show "case snd (selectProxy now q) of
       None \<Rightarrow> \<forall>x \<in> set (pl_list q). \<not> eligible now x
     | Some x \<Rightarrow> x \<in> set (pl_list q) \<and> eligible now x \<and>
         (\<forall>y \<in> set (pl_list q). eligible now y \<longrightarrow> px_priority y \<le> px_priority x)"
  proof (cases "snd (selectProxy now q)")
    case None
    then show ?thesis by (simp add: select_tier tier_now_empty split: if_splits)
  next
    case (Some x)
    then show ?thesis using select_some by simp
  qed
qed

definition demo_proxy :: "string \<Rightarrow> int \<Rightarrow> proxy_instance" where
  "demo_proxy i prio = \<lparr>px_id = i, px_url = ''http://h:1'', px_type = Http, px_priority = prio,
     px_enabled = True, px_healthScore = 100, px_lastFailedAt = Absent, px_requestsCount = 0,
     px_failureCount = 0\<rparr>"

lemma select_best_witness:
  "pool_inv (fold pool_step [SetProxies [demo_proxy ''a'' 1, demo_proxy ''b'' 2], ReportFailure ''b'' 5, Select 6] empty_pool)"
  by (rule conjunct1 [OF select_best [OF _ _ refl]])
    (simp_all add: pool_inv_def empty_pool_def demo_proxy_def healthy_def)

text \<open>
  Round robin is fair: with \<open>n\<close> proxies in the best tier, \<open>n\<close> selections in a row yield each of
  them once, in the order of the list, starting at the cursor.
\<close>

lemma round_robin_fair:
  assumes "tier_now now p \<noteq> []"
  shows "select_many now (length (tier_now now p)) p = map Some (rotate (pl_cursor p) (tier_now now p))"
  using assms by (simp add: select_many_map flip: nth_rotate_map)

lemma round_robin_fair_witness:
  "select_many 0 2 \<lparr>pl_list = [demo_proxy ''a'' 1, demo_proxy ''b'' 1], pl_cursor = 1\<rparr> =
     [Some (demo_proxy ''b'' 1), Some (demo_proxy ''a'' 1)]"
proof -
  let ?p = "\<lparr>pl_list = [demo_proxy ''a'' 1, demo_proxy ''b'' 1], pl_cursor = 1\<rparr>"
  have t: "tier_now 0 ?p = [demo_proxy ''a'' 1, demo_proxy ''b'' 1]"
    by (simp add: tier_now_def best_tier_def eligible_def inCooldown_def demo_proxy_def)
  from round_robin_fair [of 0 ?p] show ?thesis
    unfolding t by (simp add: numeral_2_eq_2 del: select_many.simps)
qed

text \<open>
  A failed proxy rests: after a failure report at \<open>t\<close>, whatever selections and reports follow,
  success reports of the same proxy included, it is not selected before \<open>t + 30 s\<close>.
\<close>

theorem failed_proxy_rests:
  assumes "pool_inv p" and "list_all (traffic_after t) as" and "now < t + 30000"
    and "snd (selectProxy now (fold pool_step as (reportFailure i t p))) = Some x"
  shows "px_id x \<noteq> i"
proof
  assume "px_id x = i"
  have "list_all (failed_since i t) (pl_list (reportFailure i t p))"
    using failed_since_report [of "pl_list p" i t] assms(1) by (simp add: reportFailure_def pool_inv_def)
  from failed_since_run [OF this assms(2)] select_some [OF assms(4)] \<open>px_id x = i\<close>
  obtain u where "t \<le> u" "px_lastFailedAt x = FailedAt u" and "eligible now x"
    by (auto simp: list_all_iff failed_since_def)
  with assms(3) show False by (simp add: eligible_def inCooldown_def)
qed

lemma failed_proxy_rests_witness:
  "px_id (the (snd (selectProxy 29999 (fold pool_step [ReportSuccess ''b'']
     (reportFailure ''b'' 0 \<lparr>pl_list = [demo_proxy ''a'' 1, demo_proxy ''b'' 2], pl_cursor = 0\<rparr>))))) \<noteq> ''b''"
  by (rule failed_proxy_rests [of "\<lparr>pl_list = [demo_proxy ''a'' 1, demo_proxy ''b'' 2], pl_cursor = 0\<rparr>" 0
        "[ReportSuccess ''b'']" 29999])
    (simp_all add: pool_inv_def demo_proxy_def healthy_def reportFailure_def reportSuccess_def select_tier
      tier_now_def best_tier_def eligible_def inCooldown_def)

end
