(* ===== verification/StickySessions.thy ===== *)
theory StickySessions
  imports ProxyPool
begin

text \<open>
  Sticky proxy sessions, packages/core/src/proxy/sticky-sessions.ts: the bindings of bots to proxies
  and the load map that is meant to count them. The pool is passed beside the manager, as the
  manager only reads it and lets it select. \<open>getProxyForBot\<close> takes two clock readings, its argument
  \<open>now\<close> and the \<open>Date.now()\<close> that its call of \<open>unbind\<close> reads, and the value of \<open>Math.random()\<close>.
\<close>

record sticky_config =
  stickyDurationMs :: int
  maxBotsPerProxy :: int

definition DEFAULT_STICKY_CONFIG :: sticky_config where
  "DEFAULT_STICKY_CONFIG = \<lparr>stickyDurationMs = 24 * 60 * 60 * 1000, maxBotsPerProxy = 3\<rparr>"

record sticky_binding =
  sb_botId :: string
  sb_proxyId :: string
  sb_boundAt :: ms
  sb_expiresAt :: ms

record sticky =
  st_bindings :: "(string, sticky_binding) jmap"
  st_proxyLoad :: "(string, int) jmap"
  st_config :: sticky_config

definition new_sticky :: "sticky_config \<Rightarrow> sticky" where
  "new_sticky cfg = \<lparr>st_bindings = [], st_proxyLoad = [], st_config = cfg\<rparr>"

definition release_load :: "string \<Rightarrow> (string, int) jmap \<Rightarrow> (string, int) jmap" where
  "release_load i load = jset i (max 0 (jget_or 1 load i - 1)) load"

definition unbind :: "string \<Rightarrow> ms \<Rightarrow> sticky \<Rightarrow> sticky" where
  "unbind botId now m =
     (case jget (st_bindings m) botId of
        None \<Rightarrow> m
      | Some existing \<Rightarrow>
          m\<lparr>st_proxyLoad := (if sb_expiresAt existing > now
                then release_load (sb_proxyId existing) (st_proxyLoad m) else st_proxyLoad m),
            st_bindings := jdel botId (st_bindings m)\<rparr>)"

definition bind_bot :: "string \<Rightarrow> string \<Rightarrow> ms \<Rightarrow> sticky \<Rightarrow> sticky" where
  "bind_bot botId proxyId now m =
     (let m1 = unbind botId now m; expiresAt = now + stickyDurationMs (st_config m1)
      in m1\<lparr>st_bindings := jset botId \<lparr>sb_botId = botId, sb_proxyId = proxyId, sb_boundAt = now,
              sb_expiresAt = expiresAt\<rparr> (st_bindings m1),
            st_proxyLoad := jset proxyId (jget_or 0 (st_proxyLoad m1) proxyId + 1) (st_proxyLoad m1)\<rparr>)"

text \<open>The valid binding of a bot, when its proxy is still usable.\<close>

definition bound_proxy :: "string \<Rightarrow> ms \<Rightarrow> pool \<Rightarrow> sticky \<Rightarrow> proxy_instance option" where
  "bound_proxy botId now p m =
     (case jget (st_bindings m) botId of
        None \<Rightarrow> None
      | Some existing \<Rightarrow>
          if sb_expiresAt existing > now
          then (case getProxy (sb_proxyId existing) p of
                  None \<Rightarrow> None
                | Some x \<Rightarrow> if px_enabled x \<and> px_healthScore x > 0 then Some x else None)
          else None)"

definition has_live_binding :: "string \<Rightarrow> ms \<Rightarrow> sticky \<Rightarrow> bool" where
  "has_live_binding botId now m =
     (case jget (st_bindings m) botId of None \<Rightarrow> False | Some existing \<Rightarrow> sb_expiresAt existing > now)"

definition with_capacity :: "pool \<Rightarrow> sticky \<Rightarrow> proxy_instance list" where
  "with_capacity p m = filter (\<lambda>x. px_enabled x \<and> px_healthScore x > 0 \<and>
     jget_or 0 (st_proxyLoad m) (px_id x) < maxBotsPerProxy (st_config m)) (getProxies p)"

definition getProxyForBot ::
  "string \<Rightarrow> ms \<Rightarrow> ms \<Rightarrow> rat \<Rightarrow> pool \<Rightarrow> sticky \<Rightarrow> sticky \<times> pool \<times> proxy_instance option" where
  "getProxyForBot botId now clock rnd p m =
     (case bound_proxy botId now p m of
        Some x \<Rightarrow> (m, p, Some x)
      | None \<Rightarrow>
          let m1 = (if has_live_binding botId now m then unbind botId clock m else m);
              elig = with_capacity p m1
          in if elig = [] then (let (p', res) = selectProxy now p in (m1, p', res))
             else let tier = best_tier elig;
                      pick = tier ! random_index rnd (length tier)
                  in (bind_bot botId (px_id pick) now m1, p, Some pick))"

definition getBinding :: "string \<Rightarrow> sticky \<Rightarrow> sticky_binding option" where
  "getBinding botId m = jget (st_bindings m) botId"

definition getLoadMap :: "sticky \<Rightarrow> (string, int) jmap" where
  "getLoadMap m = st_proxyLoad m"

text \<open>The loop of \<open>cleanup\<close>, one entry of the map.\<close>

definition cleanup_one :: "ms \<Rightarrow> string \<times> sticky_binding \<Rightarrow> sticky \<Rightarrow> sticky" where
  "cleanup_one now e m =
     (case e of (botId, binding) \<Rightarrow>
        if sb_expiresAt binding \<le> now
        then m\<lparr>st_proxyLoad := release_load (sb_proxyId binding) (st_proxyLoad m),
               st_bindings := jdel botId (st_bindings m)\<rparr>
        else m)"

definition cleanup :: "ms \<Rightarrow> sticky \<Rightarrow> sticky" where
  "cleanup now m = fold (cleanup_one now) (st_bindings m) m"

section \<open>Counting the bindings\<close>

definition bound_to :: "string \<Rightarrow> sticky \<Rightarrow> int" where
  "bound_to i m = int (length (filter (\<lambda>(b, x). sb_proxyId x = i) (st_bindings m)))"

definition load_of :: "string \<Rightarrow> sticky \<Rightarrow> int" where
  "load_of i m = jget_or 0 (st_proxyLoad m) i"

text \<open>The slots the load map counts beyond the bindings there are.\<close>

definition slack :: "string \<Rightarrow> sticky \<Rightarrow> int" where
  "slack i m = load_of i m - bound_to i m"

definition sticky_inv :: "sticky \<Rightarrow> bool" where
  "sticky_inv m \<longleftrightarrow> jmap_ok (st_bindings m) \<and> (\<forall>i. 0 \<le> slack i m)"

lemma sticky_inv_new: "sticky_inv (new_sticky cfg)"
  by (simp add: sticky_inv_def new_sticky_def slack_def load_of_def bound_to_def jget_or_def)

lemma count_jdel:
  "jmap_ok m \<Longrightarrow> length (filter (\<lambda>(b, x). P x) (jdel k m)) =
     length (filter (\<lambda>(b, x). P x) m) - (case jget m k of None \<Rightarrow> 0 | Some x \<Rightarrow> if P x then 1 else 0)"
proof (induction m)
  case (Cons e m)
  obtain b x where e: "e = (b, x)" by (cases e)
  show ?case
  proof (cases "b = k")
    case True
    with Cons.prems have "k \<notin> fst ` set m" by (simp add: e)
    then have "jdel k m = m" "jget m k = None" by (simp_all add: delete_idem map_of_eq_None_iff)
    with True show ?thesis by (simp add: e)
  next
    case False
    have "jget m k = Some y \<Longrightarrow> P y \<Longrightarrow> 0 < length (filter (\<lambda>(b, x). P x) m)" for y
      using map_of_SomeD [of m k y] by (force simp: filter_empty_conv)
    with False Cons show ?thesis by (auto simp: e split: option.splits)
  qed
qed simp

lemma count_jget: "jget m k = Some y \<Longrightarrow> P y \<Longrightarrow> 0 < length (filter (\<lambda>(b, x). P x) m)"
  using map_of_SomeD [of m k y] by (force simp: filter_empty_conv)

lemma load_release: "jget_or 0 (release_load j load) i =
    (if i = j then max 0 (jget_or 1 load i - 1) else jget_or 0 load i)"
  by (simp add: release_load_def)

lemma jget_or_1_0: "1 \<le> jget_or 0 load i \<Longrightarrow> jget_or 1 load i = jget_or (0 :: int) load i"
  by (simp add: jget_or_def split: option.splits)

text \<open>Taking one binding away, with and without giving its slot back.\<close>

lemma bound_to_load [simp]:
  "bound_to i (m\<lparr>st_proxyLoad := l\<rparr>) = bound_to i m"
  "load_of i (m\<lparr>st_bindings := b\<rparr>) = load_of i m"
  "bound_to i (m\<lparr>st_proxyLoad := l, st_bindings := b\<rparr>) = bound_to i (m\<lparr>st_bindings := b\<rparr>)"
  by (simp_all add: bound_to_def load_of_def)

lemma bound_to_pos: "jget (st_bindings m) b = Some x \<Longrightarrow> 1 \<le> bound_to (sb_proxyId x) m"
  using count_jget [of "st_bindings m" b x "\<lambda>y. sb_proxyId y = sb_proxyId x"] by (simp add: bound_to_def Suc_le_eq)

lemma bound_to_jdel:
  assumes "jmap_ok (st_bindings m)" and x: "jget (st_bindings m) b = Some x"
  shows "bound_to i (m\<lparr>st_bindings := jdel b (st_bindings m)\<rparr>) = bound_to i m - (if sb_proxyId x = i then 1 else 0)"
  using count_jdel [OF assms(1), of "\<lambda>y. sb_proxyId y = i" b] bound_to_pos [OF x]
  by (auto simp: bound_to_def x split: if_splits)

lemma slack_released:
  assumes m: "sticky_inv m" and x: "jget (st_bindings m) b = Some x"
  shows "slack i (m\<lparr>st_proxyLoad := release_load (sb_proxyId x) (st_proxyLoad m),
                    st_bindings := jdel b (st_bindings m)\<rparr>) = slack i m"
proof -
  let ?p = "sb_proxyId x"
  have "0 \<le> slack ?p m" using m by (simp add: sticky_inv_def)
  with bound_to_pos [OF x] have "1 \<le> load_of ?p m" by (simp add: slack_def)
  then have "load_of i (m\<lparr>st_proxyLoad := release_load ?p (st_proxyLoad m)\<rparr>) = load_of i m - (if ?p = i then 1 else 0)"
    by (auto simp: load_of_def load_release jget_or_1_0)
  then show ?thesis
    using bound_to_jdel [OF _ x, of i] m by (simp add: slack_def sticky_inv_def)
qed

lemma slack_unbind:
  assumes m: "sticky_inv m"
  shows "slack i (unbind b now m) = slack i m +
    (case jget (st_bindings m) b of None \<Rightarrow> 0
     | Some x \<Rightarrow> if sb_expiresAt x \<le> now \<and> sb_proxyId x = i then 1 else 0)"
proof (cases "jget (st_bindings m) b")
  case (Some x)
  have "slack i (m\<lparr>st_bindings := jdel b (st_bindings m)\<rparr>) = slack i m + (if sb_proxyId x = i then 1 else 0)"
    using bound_to_jdel [OF _ Some, of i] m by (simp add: slack_def sticky_inv_def)
  with Some slack_released [OF m Some, of i] show ?thesis by (simp add: unbind_def not_less)
qed (simp add: unbind_def)

lemma jmap_ok_unbind: "jmap_ok (st_bindings m) \<Longrightarrow> jmap_ok (st_bindings (unbind b now m))"
  by (simp add: unbind_def split: option.split)

lemma unbind_inv: "sticky_inv m \<Longrightarrow> sticky_inv (unbind b now m)"
  by (auto simp: sticky_inv_def slack_unbind jmap_ok_unbind split: option.split)

lemma unbind_gone: "jmap_ok (st_bindings m) \<Longrightarrow> jget (st_bindings (unbind b now m)) b = None"
  by (simp add: unbind_def split: option.split)

lemma slack_bind:
  assumes "sticky_inv m"
  shows "slack i (bind_bot b p now m) = slack i (unbind b now m)"
proof -
  have "b \<notin> fst ` set (st_bindings (unbind b now m))"
    using unbind_gone [of m b now] assms by (simp add: sticky_inv_def map_of_eq_None_iff)
  then show ?thesis by (simp add: bind_bot_def Let_def slack_def bound_to_def load_of_def jset_new)
qed

lemma bind_inv: "sticky_inv m \<Longrightarrow> sticky_inv (bind_bot b p now m)"
  using unbind_inv [of m b now] slack_bind [of m]
  by (auto simp: sticky_inv_def) (simp add: bind_bot_def Let_def)

text \<open>The sweep gives every slot back.\<close>

lemma cleanup_fold:
  assumes "sticky_inv m" and "distinct (map fst es)" and "\<forall>(b, x) \<in> set es. jget (st_bindings m) b = Some x"
  shows "sticky_inv (fold (cleanup_one now) es m) \<and> slack i (fold (cleanup_one now) es m) = slack i m"
  using assms
proof (induction es arbitrary: m)
  case (Cons e es)
  obtain b x where e: "e = (b, x)" by (cases e)
  have x: "jget (st_bindings m) b = Some x" using Cons.prems(3) by (simp add: e)
  show ?case
  proof (cases "sb_expiresAt x \<le> now")
    case True
    let ?m = "cleanup_one now e m"
    have m': "?m = m\<lparr>st_proxyLoad := release_load (sb_proxyId x) (st_proxyLoad m),
                    st_bindings := jdel b (st_bindings m)\<rparr>"
      using True by (simp add: cleanup_one_def e)
    have sl: "slack j ?m = slack j m" for j using slack_released [OF Cons.prems(1) x, of j] m' by simp
    have "sticky_inv ?m" using Cons.prems(1) sl by (simp add: sticky_inv_def) (simp add: m')
    moreover have "\<forall>(c, y) \<in> set es. jget (st_bindings ?m) c = Some y"
      unfolding m' using Cons.prems(2,3) by (auto simp: e rev_image_eqI)
    ultimately show ?thesis using Cons.IH [of ?m] Cons.prems(2) sl by simp
  next
    case False
    then have "cleanup_one now e m = m" by (simp add: cleanup_one_def e)
    with Cons show ?thesis by simp
  qed
qed simp

lemma cleanup_spec: "sticky_inv m \<Longrightarrow> sticky_inv (cleanup now m) \<and> slack i (cleanup now m) = slack i m"
  unfolding cleanup_def by (rule cleanup_fold) (auto simp: sticky_inv_def)

section \<open>Operations\<close>

datatype sticky_op =
    GetFor string ms ms rat pool | Bind string string ms | Unbind string ms | Cleanup ms

fun sticky_step :: "sticky_op \<Rightarrow> sticky \<Rightarrow> sticky" where
  "sticky_step (GetFor b now clock rnd p) m = fst (getProxyForBot b now clock rnd p m)"
| "sticky_step (Bind b i now) m = bind_bot b i now m"
| "sticky_step (Unbind b now) m = unbind b now m"
| "sticky_step (Cleanup now) m = cleanup now m"

lemma getProxyForBot_cases:
  obtains "fst (getProxyForBot b now clock rnd p m) = m"
  | "fst (getProxyForBot b now clock rnd p m) = unbind b clock m"
  | x m1 where "m1 = m \<or> m1 = unbind b clock m" and "with_capacity p m1 \<noteq> []"
      and "x = best_tier (with_capacity p m1) ! random_index rnd (length (best_tier (with_capacity p m1)))"
      and "getProxyForBot b now clock rnd p m = (bind_bot b (px_id x) now m1, p, Some x)"
proof -
  let ?m1 = "if has_live_binding b now m then unbind b clock m else m"
  show thesis
  proof (cases "bound_proxy b now p m")
    case None
    show thesis
    proof (cases "with_capacity p ?m1 = []")
      case True
      with None that(1,2) show thesis
        by (simp add: getProxyForBot_def Let_def split: prod.splits if_splits)
    next
      case False
      with None show thesis
        by (intro that(3) [of ?m1, OF _ False refl]) (simp_all add: getProxyForBot_def Let_def)
    qed
  next
    case (Some x)
    with that(1) show thesis by (simp add: getProxyForBot_def)
  qed
qed

lemma slack_grows_bind: "sticky_inv m \<Longrightarrow> slack i m \<le> slack i (bind_bot b p now m)"
  by (simp add: slack_bind slack_unbind split: option.split)

lemma slack_grows_unbind: "sticky_inv m \<Longrightarrow> slack i m \<le> slack i (unbind b now m)"
  by (simp add: slack_unbind split: option.split)

lemma sticky_step_grows:
  assumes "sticky_inv m"
  shows "sticky_inv (sticky_step a m) \<and> slack i m \<le> slack i (sticky_step a m)"
proof (cases a)
  case (GetFor b now clock rnd p)
  show ?thesis
  proof (cases rule: getProxyForBot_cases [of b now clock rnd p m])
    case (3 x m1)
    have "sticky_inv m1 \<and> slack i m \<le> slack i m1"
      using 3(1) assms unbind_inv slack_grows_unbind by auto
    with slack_grows_bind [of m1 i b "px_id x" now] bind_inv [of m1 b "px_id x" now] show ?thesis
      by (simp add: GetFor 3(4))
  qed (simp_all add: GetFor assms unbind_inv slack_grows_unbind)
qed (simp_all add: assms unbind_inv bind_inv slack_grows_unbind slack_grows_bind cleanup_spec)

interpretation sticky: guarded_machine sticky_step "\<lambda>_. True" sticky_inv
  by unfold_locales (simp add: sticky_step_grows)

lemma slack_grows_run: "sticky_inv m \<Longrightarrow> slack i m \<le> slack i (fold sticky_step as m)"
proof (induction as arbitrary: m)
  case (Cons a as)
  show ?case using sticky_step_grows [OF Cons.prems, of a i] Cons.IH [of "sticky_step a m"] by simp
qed simp

text \<open>The load that selection lets a proxy have.\<close>

definition capped :: "sticky \<Rightarrow> bool" where
  "capped m \<longleftrightarrow> (\<forall>i. 0 \<le> load_of i m \<and> load_of i m \<le> max 0 (maxBotsPerProxy (st_config m)))"

lemma config_unbind [simp]: "st_config (unbind b now m) = st_config m"
  by (simp add: unbind_def split: option.split)

lemma config_bind [simp]: "st_config (bind_bot b p now m) = st_config m"
  by (simp add: bind_bot_def Let_def)

lemma load_release_bounds:
  assumes "0 \<le> load_of i m"
  shows "0 \<le> load_of i (m\<lparr>st_proxyLoad := release_load j (st_proxyLoad m)\<rparr>) \<and>
    load_of i (m\<lparr>st_proxyLoad := release_load j (st_proxyLoad m)\<rparr>) \<le> load_of i m"
proof -
  have "max 0 (jget_or 1 (st_proxyLoad m) i - 1) \<le> jget_or 0 (st_proxyLoad m) i"
    using assms by (auto simp: load_of_def jget_or_def split: option.splits)
  with assms show ?thesis by (auto simp: load_of_def load_release)
qed

lemma load_unbind_bounds:
  "0 \<le> load_of i m \<Longrightarrow> 0 \<le> load_of i (unbind b now m) \<and> load_of i (unbind b now m) \<le> load_of i m"
  using load_release_bounds [of i m] by (simp add: unbind_def split: option.split)

lemma capped_unbind: "capped m \<Longrightarrow> capped (unbind b now m)"
  unfolding capped_def config_unbind using load_unbind_bounds [of _ m b now] by (meson order_trans)

lemma capped_bind:
  assumes "capped m" and "load_of p m < maxBotsPerProxy (st_config m)"
  shows "capped (bind_bot b p now m)"
  unfolding capped_def config_bind
proof
  fix i
  have "load_of i (bind_bot b p now m) = load_of i (unbind b now m) + (if i = p then 1 else 0)"
    by (simp add: bind_bot_def Let_def load_of_def)
  moreover have "0 \<le> load_of i m" "load_of i m \<le> max 0 (maxBotsPerProxy (st_config m))"
    using assms(1) by (simp_all add: capped_def)
  ultimately show "0 \<le> load_of i (bind_bot b p now m) \<and>
      load_of i (bind_bot b p now m) \<le> max 0 (maxBotsPerProxy (st_config m))"
    using load_unbind_bounds [of i m b now] assms(2) by (auto split: if_splits)
qed

lemma cleanup_one_config [simp]: "st_config (cleanup_one now e m) = st_config m"
  by (simp add: cleanup_one_def split: prod.split)

lemma capped_cleanup_one: "capped m \<Longrightarrow> capped (cleanup_one now e m)"
proof -
  assume m: "capped m"
  then have "0 \<le> load_of i (cleanup_one now e m) \<and> load_of i (cleanup_one now e m) \<le> load_of i m" for i
    using load_release_bounds [of i m] by (simp add: cleanup_one_def capped_def split: prod.split)
  with m show ?thesis unfolding capped_def cleanup_one_config by (meson order_trans)
qed

lemma capped_cleanup: "capped m \<Longrightarrow> capped (fold (cleanup_one now) es m)"
  by (induction es arbitrary: m) (auto intro: capped_cleanup_one)

text \<open>What the program runs when no proxy is chosen by hand; the arrays have less than \<open>2^53\<close> elements.\<close>

fun sticky_auto :: "sticky_op \<Rightarrow> bool" where
  "sticky_auto (GetFor b now clock rnd p) = (math_random rnd \<and> int (length (pl_list p)) < 2 ^ 53)"
| "sticky_auto (Bind b i now) = False"
| "sticky_auto _ = True"

lemma picked_with_capacity:
  assumes "math_random rnd" and "int (length (pl_list p)) < 2 ^ 53" and "with_capacity p m \<noteq> []"
  shows "best_tier (with_capacity p m) ! random_index rnd (length (best_tier (with_capacity p m))) \<in> set (with_capacity p m)"
proof -
  have "length (best_tier (with_capacity p m)) \<le> length (with_capacity p m)"
    by (simp add: best_tier_def Let_def)
  also have "\<dots> \<le> length (pl_list p)" by (simp add: with_capacity_def getProxies_def)
  finally have "int (length (best_tier (with_capacity p m))) < 2 ^ 53" using assms(2) by simp
  from random_index_nth [OF assms(1) best_tier_nonempty [OF assms(3)] this]
  show ?thesis using best_tier_sub by blast
qed

lemma capped_step: "capped m \<Longrightarrow> sticky_auto a \<Longrightarrow> capped (sticky_step a m)"
proof (cases a)
  assume m: "capped m" and a: "sticky_auto a"
  case (GetFor b now clock rnd p)
  show ?thesis
  proof (cases rule: getProxyForBot_cases [of b now clock rnd p m])
    case (3 x m1)
    have "capped m1" using 3(1) m capped_unbind by auto
    moreover have "x \<in> set (with_capacity p m1)"
      using picked_with_capacity [OF _ _ 3(2), of rnd] a 3(3) by (simp add: GetFor)
    ultimately show ?thesis
      using capped_bind [of m1 "px_id x" b now] by (simp add: GetFor 3(4) with_capacity_def load_of_def)
  qed (simp_all add: GetFor m capped_unbind)
qed (auto simp: capped_unbind cleanup_def capped_cleanup)

interpretation capped: guarded_machine sticky_step sticky_auto capped
  by unfold_locales (rule capped_step)

lemma sticky_config_step [simp]: "st_config (sticky_step a m) = st_config m"
proof (cases a)
  case (GetFor b now clock rnd p)
  then show ?thesis by (cases rule: getProxyForBot_cases [of b now clock rnd p m]) auto
next
  case (Cleanup now)
  have "st_config (fold (cleanup_one now) es m) = st_config m" for es
    by (induction es arbitrary: m) auto
  with Cleanup show ?thesis by (simp add: cleanup_def)
qed simp_all

lemma sticky_config_run: "st_config (fold sticky_step as m) = st_config m"
  by (induction as arbitrary: m) auto

section \<open>Properties\<close>

text \<open>An operation that is not about bot \<open>b\<close>; a sweep must come before \<open>e\<close>.\<close>

fun spares :: "string \<Rightarrow> ms \<Rightarrow> sticky_op \<Rightarrow> bool" where
  "spares b e (GetFor c now clock rnd p) = (c \<noteq> b)"
| "spares b e (Bind c i now) = (c \<noteq> b)"
| "spares b e (Unbind c now) = (c \<noteq> b)"
| "spares b e (Cleanup now) = (now < e)"

lemma unbind_other: "c \<noteq> b \<Longrightarrow> jget (st_bindings (unbind c now m)) b = jget (st_bindings m) b"
  by (simp add: unbind_def split: option.split)

lemma bind_other: "c \<noteq> b \<Longrightarrow> jget (st_bindings (bind_bot c i now m)) b = jget (st_bindings m) b"
  by (simp add: bind_bot_def Let_def unbind_other)

lemma cleanup_keeps:
  assumes "jget (st_bindings m) b = Some x" and "now < sb_expiresAt x"
    and "\<forall>y. (b, y) \<in> set es \<longrightarrow> y = x"
  shows "jget (st_bindings (fold (cleanup_one now) es m)) b = Some x"
  using assms
proof (induction es arbitrary: m)
  case (Cons e es)
  obtain c y where e: "e = (c, y)" by (cases e)
  have "c = b \<Longrightarrow> y = x" using Cons.prems(3) by (simp add: e)
  with Cons.prems(1,2) have "jget (st_bindings (cleanup_one now e m)) b = Some x"
    by (simp add: cleanup_one_def e)
  with Cons.IH [of "cleanup_one now e m"] Cons.prems(2,3) show ?case by simp
qed simp

lemma spares_step:
  assumes "sticky_inv m" and x: "jget (st_bindings m) b = Some x" and "spares b (sb_expiresAt x) a"
  shows "jget (st_bindings (sticky_step a m)) b = Some x"
proof (cases a)
  case (GetFor c now clock rnd p)
  then have c: "c \<noteq> b" using assms(3) by simp
  show ?thesis
  proof (cases rule: getProxyForBot_cases [of c now clock rnd p m])
    case (3 y m1)
    then have "jget (st_bindings m1) b = Some x" using x c by (auto simp: unbind_other simp del: map_of_eq_Some_iff)
    then show ?thesis using c by (simp add: GetFor 3(4) bind_other del: map_of_eq_Some_iff)
  qed (use x c in \<open>simp_all add: GetFor unbind_other del: map_of_eq_Some_iff\<close>)
next
  case (Cleanup now)
  have "\<forall>y. (b, y) \<in> set (st_bindings m) \<longrightarrow> y = x"
    using assms(1) x by (metis map_of_is_SomeI option.inject sticky_inv_def)
  with Cleanup assms show ?thesis by (simp add: cleanup_def cleanup_keeps)
qed (use assms in \<open>auto simp: unbind_other bind_other\<close>)

lemma spares_run:
  "sticky_inv m \<Longrightarrow> jget (st_bindings m) b = Some x \<Longrightarrow> list_all (spares b (sb_expiresAt x)) as \<Longrightarrow>
   jget (st_bindings (fold sticky_step as m)) b = Some x"
proof (induction as arbitrary: m)
  case (Cons a as)
  then show ?case using spares_step [of m b x a] sticky_step_grows [OF Cons.prems(1), of a] by simp
qed simp

text \<open>
  Stickiness: a bound bot gets the proxy it is bound to, and the binding is not touched, as long
  as the binding has not expired and that proxy is enabled with health above zero, whatever is done
  for other bots in the meantime.
\<close>

lemma bot_keeps_proxy:
  assumes "sticky_inv m" and "jget (st_bindings m) b = Some x" and "list_all (spares b (sb_expiresAt x)) as"
    and "now < sb_expiresAt x" and "getProxy (sb_proxyId x) p = Some y" and "px_enabled y" and "0 < px_healthScore y"
  shows "getProxyForBot b now clock rnd p (fold sticky_step as m) = (fold sticky_step as m, p, Some y)"
  using spares_run [OF assms(1-3)] assms(4-7) by (simp add: getProxyForBot_def bound_proxy_def)

definition demo_pool :: pool where
  "demo_pool = \<lparr>pl_list = [demo_proxy ''a'' 1, demo_proxy ''b'' 2], pl_cursor = 0\<rparr>"

definition demo_bound :: sticky where
  "demo_bound = bind_bot ''x'' ''a'' 0 (new_sticky \<lparr>stickyDurationMs = 100, maxBotsPerProxy = 1\<rparr>)"

lemma demo_bound_inv: "sticky_inv demo_bound"
  unfolding demo_bound_def by (rule bind_inv [OF sticky_inv_new])

lemma bot_keeps_proxy_witness:
  "snd (snd (getProxyForBot ''x'' 99 99 0 demo_pool (fold sticky_step [GetFor ''y'' 5 5 0 demo_pool, Cleanup 50] demo_bound)))
     = Some (demo_proxy ''a'' 1)"
  by (subst bot_keeps_proxy [OF demo_bound_inv, of _ "\<lparr>sb_botId = ''x'', sb_proxyId = ''a'', sb_boundAt = 0, sb_expiresAt = 100\<rparr>"])
    (simp_all add: demo_bound_def bind_bot_def unbind_def new_sticky_def demo_pool_def getProxy_def demo_proxy_def)

text \<open>
  The cap holds: whatever bots ask for a proxy, release it or expire, with any pools, clocks and
  random values, no proxy is ever bound to more bots than \<open>maxBotsPerProxy\<close>, as long as nothing binds
  by hand.
\<close>

theorem bots_per_proxy_capped:
  assumes "list_all sticky_auto as"
  shows "bound_to i (fold sticky_step as (new_sticky cfg)) \<le> max 0 (maxBotsPerProxy cfg)"
proof -
  let ?m = "fold sticky_step as (new_sticky cfg)"
  have "capped (new_sticky cfg)" by (simp add: capped_def new_sticky_def load_of_def jget_or_def)
  from capped.run_inv [OF this assms] have "load_of i ?m \<le> max 0 (maxBotsPerProxy cfg)"
    by (simp add: capped_def sticky_config_run) (simp add: new_sticky_def)
  moreover have "sticky_inv ?m" by (rule sticky.run_inv [OF sticky_inv_new]) (simp add: list_all_iff)
  ultimately show ?thesis by (simp add: sticky_inv_def slack_def) (meson order_trans)
qed

lemma bots_per_proxy_capped_witness:
  "bound_to ''b'' (fold sticky_step [GetFor ''x'' 0 0 0 demo_pool, GetFor ''y'' 1 1 (1 / 2) demo_pool, Cleanup 7]
     (new_sticky DEFAULT_STICKY_CONFIG)) \<le> 3"
  using bots_per_proxy_capped [of "[GetFor ''x'' 0 0 0 demo_pool, GetFor ''y'' 1 1 (1 / 2) demo_pool, Cleanup 7]"
      "''b''" DEFAULT_STICKY_CONFIG]
  by (simp add: DEFAULT_STICKY_CONFIG_def math_random_def demo_pool_def)

text \<open>
  Lost slots stay lost: releasing a binding that has already expired keeps its slot in the load
  map, and no operation whatsoever, the sweep included, ever gives it back; once as many slots are lost
  as the cap allows, no bot is bound to that proxy by selection again.
\<close>

theorem expired_unbind_leaks:
  assumes m: "sticky_inv m" and x: "jget (st_bindings m) b = Some x" and t: "sb_expiresAt x \<le> now"
  shows "slack (sb_proxyId x) m + 1 \<le> slack (sb_proxyId x) (fold sticky_step as (unbind b now m)) \<and>
    (maxBotsPerProxy (st_config m) \<le> slack (sb_proxyId x) m + 1 \<longrightarrow>
       (\<forall>y \<in> set (with_capacity p (fold sticky_step as (unbind b now m))). px_id y \<noteq> sb_proxyId x))"
proof -
  let ?q = "sb_proxyId x" and ?n = "fold sticky_step as (unbind b now m)"
  have "slack ?q (unbind b now m) = slack ?q m + 1" using x t by (simp add: slack_unbind [OF m])
  with slack_grows_run [OF unbind_inv [OF m], of ?q b now as] have s: "slack ?q m + 1 \<le> slack ?q ?n" by simp
  moreover have "slack ?q ?n \<le> load_of ?q ?n" by (simp add: slack_def bound_to_def)
  moreover have "st_config ?n = st_config m" by (simp add: sticky_config_run)
  ultimately show ?thesis by (auto simp: with_capacity_def load_of_def)
qed

lemma expired_unbind_leaks_witness:
  "list_all (\<lambda>y. px_id y \<noteq> ''a'')
     (with_capacity demo_pool (fold sticky_step [Cleanup 200, Cleanup 300] (unbind ''x'' 100 demo_bound)))"
  using expired_unbind_leaks [OF demo_bound_inv, of "''x''"
      "\<lparr>sb_botId = ''x'', sb_proxyId = ''a'', sb_boundAt = 0, sb_expiresAt = 100\<rparr>" 100 "[Cleanup 200, Cleanup 300]" demo_pool]
  by (simp add: demo_bound_def bind_bot_def unbind_def new_sticky_def slack_def load_of_def bound_to_def jget_or_def
      list_all_iff)

end
