(* ===== verification/Batchers.thy ===== *)
theory Batchers
  imports Idempotency "HOL-Library.Sublist"
begin

text \<open>
  The write batchers of the workers, packages/workers/src/event-batcher.ts and log-batcher.ts (the
  same code on two row types). The module's variables are a record; what the event loop may run is a
  step relation: an enqueue, the timer, a flush called from outside (shutdown), and the end of the
  write in flight. \<open>flushTimer\<close> and \<open>flushing\<close> are a flag and the rows handed to \<open>createMany\<close>. The
  rows whose write resolved are collected in \<open>bt_written\<close>; that a rejected write drops its batch is
  the documented choice of the code.
\<close>

record event_row =
  er_botId :: string
  er_platform :: string
  er_type :: string
  er_version :: contract
  er_eventId :: string
  er_payload :: json
  er_createdAt :: ms

record log_row =
  lr_botId :: string
  lr_level :: string
  lr_message :: string
  lr_meta :: json
  lr_createdAt :: ms

record 'r batcher =
  bt_buffer :: "'r list"
  bt_timer :: bool
  bt_flushing :: "'r list option"
  bt_written :: "'r list"

definition MAX_BUFFERED_ROWS :: nat where
  "MAX_BUFFERED_ROWS = 2000"

definition new_batcher :: "'r batcher" where
  "new_batcher = \<lparr>bt_buffer = [], bt_timer = False, bt_flushing = None, bt_written = []\<rparr>"

definition scheduleFlush :: "'r batcher \<Rightarrow> 'r batcher" where
  "scheduleFlush s = (if bt_timer s \<or> bt_flushing s \<noteq> None then s else s\<lparr>bt_timer := True\<rparr>)"

definition enqueue_row :: "'r \<Rightarrow> 'r batcher \<Rightarrow> 'r batcher" where
  "enqueue_row row s = scheduleFlush (s\<lparr>bt_buffer := push_capped MAX_BUFFERED_ROWS row (bt_buffer s)\<rparr>)"

definition row_of_event :: "platform_event \<Rightarrow> event_row" where
  "row_of_event e = \<lparr>er_botId = ev_botId e, er_platform = ev_platform e, er_type = ev_type e,
     er_version = ev_v e, er_eventId = ev_eventId e, er_payload = nullish_or (ev_payload e) (JObj []),
     er_createdAt = ev_timestamp e\<rparr>"

definition enqueueEvent :: "platform_event \<Rightarrow> event_row batcher \<Rightarrow> event_row batcher" where
  "enqueueEvent e s = enqueue_row (row_of_event e) s"

definition enqueueLog :: "log_row \<Rightarrow> log_row batcher \<Rightarrow> log_row batcher" where
  "enqueueLog row s = enqueue_row row s"

text \<open>\<open>flushEvents\<close> and \<open>flushLogs\<close>: a call during a flush only shares its promise.\<close>

definition flush_rows :: "'r batcher \<Rightarrow> 'r batcher" where
  "flush_rows s = (if bt_flushing s = None then s\<lparr>bt_buffer := [], bt_flushing := Some (bt_buffer s)\<rparr> else s)"

definition flushLogs :: "log_row batcher \<Rightarrow> log_row batcher" where
  "flushLogs s = flush_rows s"

definition timer_fires :: "'r batcher \<Rightarrow> 'r batcher" where
  "timer_fires s = flush_rows (s\<lparr>bt_timer := False\<rparr>)"

text \<open>The promise of the flush settles: the write was made or failed, then the \<open>finally\<close> block.\<close>

definition flush_settles :: "bool \<Rightarrow> 'r batcher \<Rightarrow> 'r batcher" where
  "flush_settles resolved s =
     (let rows = (case bt_flushing s of None \<Rightarrow> [] | Some rs \<Rightarrow> rs);
          s1 = s\<lparr>bt_written := (if resolved then bt_written s @ rows else bt_written s), bt_flushing := None\<rparr>
      in if bt_buffer s1 \<noteq> [] then scheduleFlush s1 else s1)"

section \<open>The step relation\<close>

datatype 'r batch_op = Enqueue 'r | TimerFires | FlushCalled | Settles bool

inductive batch_step :: "'r batcher \<Rightarrow> 'r batch_op \<Rightarrow> 'r batcher \<Rightarrow> bool" where
  enqueue: "batch_step s (Enqueue r) (enqueue_row r s)"
| timer: "bt_timer s \<Longrightarrow> batch_step s TimerFires (timer_fires s)"
| flush: "batch_step s FlushCalled (flush_rows s)"
| settle: "bt_flushing s \<noteq> None \<Longrightarrow> batch_step s (Settles b) (flush_settles b s)"

inductive_cases batch_step_elim: "batch_step s a s'"
inductive_simps batch_step_simps:
  "batch_step s (Enqueue r) s'" "batch_step s TimerFires s'" "batch_step s FlushCalled s'" "batch_step s (Settles b) s'"

inductive batch_run :: "'r batcher \<Rightarrow> 'r batch_op list \<Rightarrow> 'r batcher \<Rightarrow> bool" where
  start: "batch_run s [] s"
| snoc: "batch_run s as t \<Longrightarrow> batch_step t a u \<Longrightarrow> batch_run s (as @ [a]) u"

text \<open>Rows wait only while a timer or a flush is there to pick them up, and never more than the cap.\<close>

definition batch_inv :: "'r batcher \<Rightarrow> bool" where
  "batch_inv s \<longleftrightarrow> (bt_buffer s \<noteq> [] \<longrightarrow> bt_timer s \<or> bt_flushing s \<noteq> None) \<and> length (bt_buffer s) \<le> MAX_BUFFERED_ROWS"

lemma schedule_fields [simp]:
  "bt_buffer (scheduleFlush s) = bt_buffer s" "bt_flushing (scheduleFlush s) = bt_flushing s"
  "bt_written (scheduleFlush s) = bt_written s" "bt_timer (scheduleFlush s) \<longleftrightarrow> bt_timer s \<or> bt_flushing s = None"
  by (auto simp: scheduleFlush_def)

lemma enqueue_fields [simp]:
  "bt_buffer (enqueue_row r s) = last_n MAX_BUFFERED_ROWS (bt_buffer s @ [r])"
  "bt_flushing (enqueue_row r s) = bt_flushing s" "bt_written (enqueue_row r s) = bt_written s"
  "bt_timer (enqueue_row r s) \<longleftrightarrow> bt_timer s \<or> bt_flushing s = None"
  by (auto simp: enqueue_row_def push_capped_last_n)

lemma settle_fields [simp]:
  "bt_buffer (flush_settles b s) = bt_buffer s" "bt_flushing (flush_settles b s) = None"
  "bt_written (flush_settles b s) = bt_written s @ (if b then case bt_flushing s of None \<Rightarrow> [] | Some rs \<Rightarrow> rs else [])"
  "bt_timer (flush_settles b s) \<longleftrightarrow> bt_timer s \<or> bt_buffer s \<noteq> []"
  by (auto simp: flush_settles_def Let_def)

interpretation batch: newest_buffer MAX_BUFFERED_ROWS enqueue_row bt_buffer "\<lambda>_. True"
  by unfold_locales simp_all

lemma batch_inv_step: "batch_step s a t \<Longrightarrow> batch_inv s \<Longrightarrow> batch_inv t"
  by (erule batch_step_elim)
    (auto simp: batch_inv_def flush_rows_def timer_fires_def MAX_BUFFERED_ROWS_def)

lemma batch_inv_run: "batch_run s as t \<Longrightarrow> batch_inv s \<Longrightarrow> batch_inv t"
  by (induction rule: batch_run.induct) (auto intro: batch_inv_step)

lemma batch_inv_new: "batch_inv new_batcher"
  by (simp add: batch_inv_def new_batcher_def)

text \<open>The rows the batcher still answers for, oldest first, and the rows a run enqueued.\<close>

definition rows_kept :: "'r batcher \<Rightarrow> 'r list" where
  "rows_kept s = bt_written s @ (case bt_flushing s of None \<Rightarrow> [] | Some rs \<Rightarrow> rs) @ bt_buffer s"

definition enqueued :: "'r batch_op list \<Rightarrow> 'r list" where
  "enqueued as = concat (map (\<lambda>a. case a of Enqueue r \<Rightarrow> [r] | _ \<Rightarrow> []) as)"

lemma subseq_last_n: "subseq (last_n n xs) xs"
  unfolding last_n_def by (metis append_take_drop_id list_emb_append2 subseq_order.order_refl)

lemma rows_kept_step:
  "batch_step s a t \<Longrightarrow> subseq (rows_kept t) (rows_kept s @ enqueued [a])"
proof (erule batch_step_elim)
  fix r assume "a = Enqueue r" "t = enqueue_row r s"
  moreover have "subseq (last_n MAX_BUFFERED_ROWS (bt_buffer s @ [r])) (bt_buffer s @ [r])" by (rule subseq_last_n)
  ultimately show ?thesis
    by (auto simp: rows_kept_def enqueued_def intro!: list_emb_append_mono)
qed (auto simp: rows_kept_def enqueued_def flush_rows_def timer_fires_def split: option.splits
    intro!: list_emb_append_mono)

lemma enqueued_append [simp]: "enqueued (as @ bs) = enqueued as @ enqueued bs"
  by (simp add: enqueued_def)

lemma rows_kept_run: "batch_run s as t \<Longrightarrow> subseq (rows_kept t) (rows_kept s @ enqueued as)"
proof (induction rule: batch_run.induct)
  case (snoc s as t a u)
  have "subseq (rows_kept t @ enqueued [a]) ((rows_kept s @ enqueued as) @ enqueued [a])"
    by (intro list_emb_append_mono snoc.IH subseq_order.order_refl)
  with rows_kept_step [OF snoc.hyps(2)] show ?case by (auto intro: subseq_order.order_trans)
qed (simp add: enqueued_def)

text \<open>The runs without an overflow and without a failed write.\<close>

fun calm :: "'r batcher \<Rightarrow> 'r batch_op \<Rightarrow> bool" where
  "calm s (Enqueue r) = (length (bt_buffer s) < MAX_BUFFERED_ROWS)"
| "calm s (Settles b) = b"
| "calm s _ = True"

inductive calm_run :: "'r batcher \<Rightarrow> 'r batch_op list \<Rightarrow> 'r batcher \<Rightarrow> bool" where
  calm_start: "calm_run s [] s"
| calm_snoc: "calm_run s as t \<Longrightarrow> batch_step t a u \<Longrightarrow> calm t a \<Longrightarrow> calm_run s (as @ [a]) u"

lemma calm_run_run: "calm_run s as t \<Longrightarrow> batch_run s as t"
  by (induction rule: calm_run.induct) (auto intro: batch_run.intros)

lemma rows_kept_calm_step: "batch_step s a t \<Longrightarrow> calm s a \<Longrightarrow> rows_kept t = rows_kept s @ enqueued [a]"
  by (erule batch_step_elim)
    (auto simp: rows_kept_def enqueued_def flush_rows_def timer_fires_def split: option.splits)

lemma rows_kept_calm_run: "calm_run s as t \<Longrightarrow> rows_kept t = rows_kept s @ enqueued as"
  by (induction rule: calm_run.induct) (simp_all add: rows_kept_calm_step enqueued_def)

text \<open>The program's own steps that bring every row to the database.\<close>

lemma batch_run_Cons: "batch_run t as u \<Longrightarrow> batch_step s a t \<Longrightarrow> batch_run s (a # as) u"
proof (induction rule: batch_run.induct)
  case (start t)
  then show ?case using batch_run.snoc [OF batch_run.start, of s a t] by simp
next
  case (snoc t as v b u)
  then show ?case using batch_run.snoc [of s "a # as" v b u] by simp
qed

lemma idle_drain:
  assumes "batch_inv s" and f: "bt_flushing s = None"
  shows "\<exists>bs u. batch_run s bs u \<and> set bs \<subseteq> {TimerFires, Settles True} \<and> length bs \<le> 2 \<and>
    bt_written u = rows_kept s \<and> rows_kept u = rows_kept s"
proof (cases "bt_buffer s = []")
  case True
  with f show ?thesis by (intro exI [of _ "[]"] exI [of _ s]) (auto simp: rows_kept_def intro: batch_run.start)
next
  case False
  with assms have tm: "bt_timer s" by (simp add: batch_inv_def)
  let ?u = "flush_settles True (timer_fires s)"
  have "batch_run s [TimerFires, Settles True] ?u"
    using tm f by (intro batch_run_Cons [OF batch_run_Cons [OF batch_run.start]])
      (simp_all add: batch_step_simps timer_fires_def flush_rows_def)
  moreover have "bt_written ?u = rows_kept s" "rows_kept ?u = rows_kept s"
    using f by (simp_all add: timer_fires_def flush_rows_def rows_kept_def)
  ultimately show ?thesis by (intro exI [of _ "[TimerFires, Settles True]"] exI [of _ ?u]) simp
qed

lemma drain:
  assumes s: "batch_inv s"
  shows "\<exists>bs u. batch_run s bs u \<and> set bs \<subseteq> {TimerFires, Settles True} \<and> length bs \<le> 3 \<and>
    bt_written u = rows_kept s \<and> rows_kept u = rows_kept s"
proof (cases "bt_flushing s")
  case None
  with idle_drain [OF s] show ?thesis by fastforce
next
  case (Some rs)
  let ?t = "flush_settles True s"
  have st: "batch_step s (Settles True) ?t" using Some by (simp add: batch_step_simps)
  have "rows_kept ?t = rows_kept s" using Some by (simp add: rows_kept_def)
  with idle_drain [OF batch_inv_step [OF st s]]
  obtain bs u where "batch_run ?t bs u" "set bs \<subseteq> {TimerFires, Settles True}" "length bs \<le> 2"
    "bt_written u = rows_kept s" "rows_kept u = rows_kept s"
    by auto
  with batch_run_Cons [OF _ st] show ?thesis by (intro exI [of _ "Settles True # bs"] exI [of _ u]) simp
qed

section \<open>Properties\<close>

text \<open>
  C5. Order and bounds: after any run of enqueues, timers, flushes and finished writes, failed ones
  included, the buffer holds at most 2000 rows, waiting rows always have a timer or a flush ahead of
  them, and what was written, is being written and waits is, in this order, a subsequence of what was
  enqueued: nothing is duplicated, reordered or made up. Overlapping flushes never run two writes.
\<close>

theorem batcher_safe:
  assumes "batch_run new_batcher as s"
  shows "batch_inv s \<and> subseq (rows_kept s) (enqueued as)"
  using batch_inv_run [OF assms batch_inv_new] rows_kept_run [OF assms]
  by (simp add: rows_kept_def new_batcher_def)

lemma demo_run:
  "calm_run new_batcher [Enqueue (5::nat), TimerFires, Enqueue 2, FlushCalled, Settles True]
     \<lparr>bt_buffer = [2], bt_timer = True, bt_flushing = None, bt_written = [5]\<rparr>"
proof -
  let ?s1 = "enqueue_row (5::nat) new_batcher"
  let ?s2 = "timer_fires ?s1" let ?s3 = "enqueue_row 2 ?s2" let ?s4 = "flush_rows ?s3"
  let ?u = "flush_settles True ?s4"
  note e = new_batcher_def timer_fires_def flush_rows_def MAX_BUFFERED_ROWS_def
  have "calm_run new_batcher [Enqueue 5] ?s1"
    using calm_snoc [OF calm_start batch_step.enqueue, of new_batcher "5::nat"] by (simp add: e)
  from calm_snoc [OF this batch_step.timer]
  have "calm_run new_batcher [Enqueue 5, TimerFires] ?s2" by (simp add: e)
  from calm_snoc [OF this batch_step.enqueue, of 2]
  have "calm_run new_batcher [Enqueue 5, TimerFires, Enqueue 2] ?s3" by (simp add: e)
  from calm_snoc [OF this batch_step.flush]
  have "calm_run new_batcher [Enqueue 5, TimerFires, Enqueue 2, FlushCalled] ?s4" by simp
  from calm_snoc [OF this batch_step.settle, of True]
  have "calm_run new_batcher [Enqueue 5, TimerFires, Enqueue 2, FlushCalled, Settles True] ?u" by (simp add: e)
  moreover have "?u = \<lparr>bt_buffer = [2], bt_timer = True, bt_flushing = None, bt_written = [5]\<rparr>"
    by (simp add: flush_settles_def flush_rows_def enqueue_row_def scheduleFlush_def timer_fires_def new_batcher_def
        push_capped_def MAX_BUFFERED_ROWS_def)
  ultimately show ?thesis by simp
qed

lemma batcher_safe_witness:
  "subseq (rows_kept \<lparr>bt_buffer = [2::nat], bt_timer = True, bt_flushing = None, bt_written = [5]\<rparr>)
     (enqueued [Enqueue 5, TimerFires, Enqueue 2, FlushCalled, Settles True])"
  using batcher_safe [OF calm_run_run [OF demo_run]] by simp

text \<open>
  No row is forgotten: as long as the buffer has not overflowed and no write has failed, every
  enqueued row is written, in flight or waiting, and from any such moment at most three steps of the
  program itself (the write in flight, the timer, the next write) bring all of them to the database.
\<close>

theorem batcher_drains:
  assumes "calm_run new_batcher as s"
  shows "rows_kept s = enqueued as \<and>
    (\<exists>bs u. batch_run s bs u \<and> set bs \<subseteq> {TimerFires, Settles True} \<and> length bs \<le> 3 \<and> bt_written u = enqueued as)"
proof -
  have "rows_kept s = enqueued as" using rows_kept_calm_run [OF assms] by (simp add: rows_kept_def new_batcher_def)
  with drain [OF batch_inv_run [OF calm_run_run [OF assms] batch_inv_new]] show ?thesis by auto
qed

lemma batcher_drains_witness:
  "\<exists>bs u. batch_run \<lparr>bt_buffer = [2::nat], bt_timer = True, bt_flushing = None, bt_written = [5]\<rparr> bs u \<and>
     set bs \<subseteq> {TimerFires, Settles True} \<and> length bs \<le> 3 \<and> bt_written u = [5, 2]"
  using batcher_drains [OF demo_run] by (simp add: enqueued_def)

end
