(* ===== verification/WaitTracker.thy ===== *)
theory WaitTracker
  imports JsNumber "HOL-Library.Multiset"
begin

text \<open>
  The rolling window of job wait times, packages/workers/src/wait-tracker.ts: a ring buffer of
  samples and the percentiles over the fresh ones. The options are integers (the program passes
  none). The ring buffer is an instance of \<open>newest_buffer\<close>.
\<close>

record wait_tracker =
  wt_samples :: "(ms \<times> rat) list"
  wt_capacity :: nat
  wt_windowMs :: int
  wt_next :: nat
  wt_size :: nat

definition new_wait_tracker :: "int option \<Rightarrow> int option \<Rightarrow> wait_tracker" where
  "new_wait_tracker capacity window =
     \<lparr>wt_samples = [], wt_capacity = nat (max 1 (case capacity of None \<Rightarrow> 1000 | Some c \<Rightarrow> c)),
      wt_windowMs = max 1 (case window of None \<Rightarrow> 10 * 60 * 1000 | Some w \<Rightarrow> w), wt_next = 0, wt_size = 0\<rparr>"

text \<open>\<open>samples[i] = x\<close> inside the array or right behind its end.\<close>

definition put_at :: "nat \<Rightarrow> 'a \<Rightarrow> 'a list \<Rightarrow> 'a list" where
  "put_at i x xs = (if i < length xs then xs[i := x] else xs @ [x])"

definition push_sample :: "ms \<times> rat \<Rightarrow> wait_tracker \<Rightarrow> wait_tracker" where
  "push_sample s t =
     t\<lparr>wt_samples := put_at (wt_next t) s (wt_samples t),
       wt_next := (wt_next t + 1) mod wt_capacity t,
       wt_size := (if wt_size t < wt_capacity t then wt_size t + 1 else wt_size t)\<rparr>"

definition record_wait :: "jsnum \<Rightarrow> ms \<Rightarrow> wait_tracker \<Rightarrow> wait_tracker" where
  "record_wait waitMs ts t =
     (case waitMs of Num w \<Rightarrow> if w < 0 then t else push_sample (ts, w) t | _ \<Rightarrow> t)"

definition sizeCount :: "wait_tracker \<Rightarrow> nat" where
  "sizeCount t = wt_size t"

text \<open>The index of percentile \<open>q\<close> in \<open>n > 0\<close> sorted samples, and the value in seconds.\<close>

definition percentile_index :: "rat \<Rightarrow> nat \<Rightarrow> nat" where
  "percentile_index q n =
     (case jceil (jmul (Num q) (jint (int n))) of
        Num x \<Rightarrow> nat (min (int n - 1) (max 0 (\<lfloor>x\<rfloor> - 1))) | _ \<Rightarrow> n - 1)"

definition percentile_at :: "rat list \<Rightarrow> rat \<Rightarrow> jsnum" where
  "percentile_at fresh q = jdiv (Num (fresh ! percentile_index q (length fresh))) (jint 1000)"

definition percentiles_of :: "rat list \<Rightarrow> jsnum \<times> jsnum \<times> jsnum" where
  "percentiles_of fresh =
     (if fresh = [] then (Num 0, Num 0, Num 0)
      else let sorted_fresh = sort fresh
           in (percentile_at sorted_fresh (1 / 2), percentile_at sorted_fresh (round64 (95 / 100)),
               percentile_at sorted_fresh (round64 (99 / 100))))"

definition percentiles :: "ms \<Rightarrow> wait_tracker \<Rightarrow> jsnum \<times> jsnum \<times> jsnum" where
  "percentiles now t =
     percentiles_of (map snd (filter (\<lambda>s. now - wt_windowMs t \<le> fst s) (take (wt_size t) (wt_samples t))))"

section \<open>The ring buffer\<close>

definition wt_wf :: "nat \<Rightarrow> wait_tracker \<Rightarrow> bool" where
  "wt_wf c t \<longleftrightarrow> wt_capacity t = c \<and> 0 < c \<and> length (wt_samples t) = wt_size t \<and> wt_size t \<le> c \<and> wt_next t < c \<and>
     (wt_size t < c \<longrightarrow> wt_next t = wt_size t)"

text \<open>The samples, oldest first.\<close>

definition in_order :: "wait_tracker \<Rightarrow> (ms \<times> rat) list" where
  "in_order t = drop (wt_next t) (wt_samples t) @ take (wt_next t) (wt_samples t)"

lemma wt_wf_push: "wt_wf c t \<Longrightarrow> wt_wf c (push_sample s t)"
  by (auto simp: wt_wf_def push_sample_def put_at_def less_Suc_eq)

lemma in_order_push:
  assumes t: "wt_wf c t"
  shows "in_order (push_sample s t) = last_n c (in_order t @ [s])"
proof (cases "wt_size t < c")
  case True
  with t have "wt_next t = length (wt_samples t)" "wt_size t = length (wt_samples t)" "wt_capacity t = c"
    by (auto simp: wt_wf_def)
  with True show ?thesis
    by (cases "Suc (wt_size t) = c") (auto simp: in_order_def push_sample_def put_at_def)
next
  case False
  with t have len: "length (wt_samples t) = c" "wt_next t < c" "wt_capacity t = c" by (auto simp: wt_wf_def)
  let ?xs = "wt_samples t" and ?n = "wt_next t"
  have upd: "?xs[?n := s] = take ?n ?xs @ s # drop (Suc ?n) ?xs" using len by (simp add: upd_conv_take_nth_drop)
  have "drop ?n ?xs = ?xs ! ?n # drop (Suc ?n) ?xs" using len by (simp add: Cons_nth_drop_Suc)
  then have old: "last_n c (in_order t @ [s]) = drop (Suc ?n) ?xs @ take ?n ?xs @ [s]"
    using len by (simp add: in_order_def last_n_def)
  show ?thesis
  proof (cases "Suc ?n = c")
    case True
    then show ?thesis using len upd old by (simp add: in_order_def push_sample_def put_at_def)
  next
    case False
    then have "Suc ?n mod c = Suc ?n" using len by simp
    then show ?thesis using len upd old by (simp add: in_order_def push_sample_def put_at_def)
  qed
qed

interpretation ring: newest_buffer c push_sample in_order "wt_wf c" for c :: nat
  by unfold_locales (simp_all add: wt_wf_push in_order_push)

lemma wt_wf_new: "wt_wf (wt_capacity (new_wait_tracker c w)) (new_wait_tracker c w)"
  by (simp add: wt_wf_def new_wait_tracker_def)

lemma mset_in_order: "mset (in_order t) = mset (wt_samples t)"
  by (simp add: in_order_def flip: mset_append union_commute [of "mset (take _ _)"]) (metis append_take_drop_id mset_append union_commute)

lemma sort_mset_eq: "mset xs = mset ys \<Longrightarrow> sort xs = sort (ys :: 'a :: linorder list)"
  by (metis mset_sort properties_for_sort sorted_sort)

lemma sort_Nil_iff [simp]: "sort xs = [] \<longleftrightarrow> xs = []"
  by (metis length_0_conv length_sort)

lemma percentiles_of_mset: "mset xs = mset ys \<Longrightarrow> percentiles_of xs = percentiles_of ys"
proof -
  assume e: "mset xs = mset ys"
  then have "xs = [] \<longleftrightarrow> ys = []" by (metis mset_zero_iff)
  with sort_mset_eq [OF e] show ?thesis by (simp add: percentiles_of_def)
qed

lemma mset_map_filter: "mset xs = mset ys \<Longrightarrow> mset (map f (filter P xs)) = mset (map f (filter P ys))"
  by simp

text \<open>What a run of calls offered and the tracker took.\<close>

definition accepted :: "(jsnum \<times> ms) list \<Rightarrow> (ms \<times> rat) list" where
  "accepted rs = concat (map (\<lambda>(w, ts). case w of Num x \<Rightarrow> if x < 0 then [] else [(ts, x)] | _ \<Rightarrow> []) rs)"

definition record_all :: "(jsnum \<times> ms) list \<Rightarrow> wait_tracker \<Rightarrow> wait_tracker" where
  "record_all rs t = fold (\<lambda>(w, ts). record_wait w ts) rs t"

lemma record_all_push: "record_all rs t = fold push_sample (accepted rs) t"
  unfolding record_all_def
proof (induction rs arbitrary: t)
  case (Cons r rs)
  obtain w ts where r: "r = (w, ts)" by (cases r)
  from Cons show ?case by (cases w) (simp_all add: r accepted_def record_wait_def)
qed (simp add: accepted_def)

lemma window_fixed [simp]: "wt_windowMs (fold push_sample xs t) = wt_windowMs t"
  by (induction xs arbitrary: t) (simp_all add: push_sample_def)

section \<open>The percentiles are ordered\<close>

lemma mk_num_mono: "x \<le> y \<Longrightarrow> jle (mk_num x) (mk_num y)"
  using round64_mono [of x y] by (auto simp: mk_num_def Let_def)

lemma percentile_index_less: "0 < n \<Longrightarrow> percentile_index q n < n"
  by (auto simp: percentile_index_def split: jsnum.split)

lemma percentile_index_mono:
  assumes "0 \<le> p" "p \<le> q" "q \<le> 1" "int n < 2 ^ 53"
  shows "percentile_index p n \<le> percentile_index q n"
proof -
  have a: "0 \<le> p * of_int (int n)" "p * of_int (int n) \<le> q * of_int (int n)" "q * of_int (int n) \<le> of_int (int n)"
    using assms(1-3) by (auto intro: mult_right_mono mult_left_le_one_le)
  have "mk_num (p * of_int (int n)) = Num (round64 (p * of_int (int n)))"
    "mk_num (q * of_int (int n)) = Num (round64 (q * of_int (int n)))"
    using mk_num_between [of 0 "p * of_int (int n)" "int n"] mk_num_between [of 0 "q * of_int (int n)" "int n"] a assms(4)
    by auto
  with round64_mono [OF a(2)] show ?thesis
    by (simp add: percentile_index_def) (smt (verit) ceiling_mono nat_mono)
qed

lemma percentile_at_mono:
  assumes "sorted xs" "xs \<noteq> []" "0 \<le> p" "p \<le> q" "q \<le> 1" "int (length xs) < 2 ^ 53"
  shows "jle (percentile_at xs p) (percentile_at xs q)"
proof -
  have "xs ! percentile_index p (length xs) \<le> xs ! percentile_index q (length xs)"
    using assms by (intro sorted_nth_mono percentile_index_mono percentile_index_less) auto
  then show ?thesis by (simp add: percentile_at_def mk_num_mono divide_right_mono)
qed

section \<open>Properties\<close>

lemma round64_q: "1 / 2 \<le> round64 (95 / 100)" "round64 (95 / 100) \<le> round64 (99 / 100)" "round64 (99 / 100) \<le> 1"
proof -
  have "round64 (1 / 2) = 1 / 2"
    using round64_dyadic [of 1 "- 1"] by (simp add: power_int_minus)
  then show "1 / 2 \<le> round64 (95 / 100)" using round64_mono [of "1 / 2" "95 / 100"] by simp
  show "round64 (95 / 100) \<le> round64 (99 / 100)" by (rule round64_mono) simp
  show "round64 (99 / 100) \<le> 1" using round64_le_int [of "99 / 100" 1] by simp
qed

text \<open>
  The ring buffer forgets nothing it should keep: after any calls of \<open>record\<close>, the percentiles
  are those of exactly the last \<open>capacity\<close> valid samples that are inside the time window, and
  p50 \<open>\<le>\<close> p95 \<open>\<le>\<close> p99.
\<close>

theorem percentiles_of_recent:
  assumes t0: "t0 = new_wait_tracker c w" and small: "int (wt_capacity t0) < 2 ^ 53"
  shows "percentiles now (record_all rs t0) =
      percentiles_of (map snd (filter (\<lambda>s. now - wt_windowMs t0 \<le> fst s) (last_n (wt_capacity t0) (accepted rs)))) \<and>
    (case percentiles now (record_all rs t0) of (p50, p95, p99) \<Rightarrow> jle p50 p95 \<and> jle p95 p99)"
proof
  let ?t = "record_all rs t0"
  let ?recent = "map snd (filter (\<lambda>s. now - wt_windowMs t0 \<le> fst s) (last_n (wt_capacity t0) (accepted rs)))"
  have wf0: "wt_wf (wt_capacity t0) t0" unfolding t0 by (rule wt_wf_new)
  have "in_order t0 = []" by (simp add: t0 new_wait_tracker_def in_order_def)
  then have ord: "in_order ?t = last_n (wt_capacity t0) (accepted rs)"
    using ring.contents_fold_push [OF wf0, of "accepted rs"] by (simp add: record_all_push)
  have "wt_wf (wt_capacity t0) ?t" unfolding record_all_push by (rule ring.wf_fold_push [OF wf0])
  then have "take (wt_size ?t) (wt_samples ?t) = wt_samples ?t" by (simp add: wt_wf_def)
  moreover have "wt_windowMs ?t = wt_windowMs t0" by (simp add: record_all_push)
  moreover have "mset (wt_samples ?t) = mset (last_n (wt_capacity t0) (accepted rs))"
    using mset_in_order [of ?t] ord by simp
  ultimately show p: "percentiles now ?t = percentiles_of ?recent"
    unfolding percentiles_def by (simp only:) (rule percentiles_of_mset, rule mset_map_filter)
  have "length ?recent \<le> wt_capacity t0"
    by (simp del: length_last_n) (rule order_trans [OF length_filter_le], simp)
  then have "int (length ?recent) < 2 ^ 53" using small by linarith
  then show "case percentiles now ?t of (p50, p95, p99) \<Rightarrow> jle p50 p95 \<and> jle p95 p99"
    unfolding p percentiles_of_def
    using round64_q by (auto simp: Let_def intro!: percentile_at_mono)
qed

lemma percentiles_of_recent_witness:
  "percentiles 700000 (record_all [(Num 5000, 1), (NaN, 2), (Num 3000, 650000), (Num 1000, 660000)] (new_wait_tracker (Some 2) None)) =
     percentiles_of [3000, 1000]"
  using conjunct1 [OF percentiles_of_recent [OF refl, of "Some 2" None 700000 "[(Num 5000, 1), (NaN, 2), (Num 3000, 650000), (Num 1000, 660000)]"]]
  by (simp add: new_wait_tracker_def accepted_def last_n_def)

end
