(* ===== verification/EventBus.thy ===== *)
theory EventBus
  imports BotState Json
begin

text \<open>
  Results and errors (packages/core/src/errors/result.ts), the in-process event bus
  (packages/core/src/events/event-bus.ts) and the command and query buses
  (packages/core/src/cqrs/command-bus.ts). A \<open>Result\<close> is a sum. What a handler does is an argument;
  a handler does not change the bus while it is being called. The bounded history of a name is an
  instance of \<open>newest_buffer\<close>.
\<close>

section \<open>Results\<close>

type_synonym ('t, 'e) result = "'e + 't"

record app_error =
  ae_message :: string
  ae_code :: string
  ae_statusCode :: int
  ae_details :: "(string \<times> json) list option"

fun res_map :: "('t \<Rightarrow> 'u) \<Rightarrow> ('t, 'e) result \<Rightarrow> ('u, 'e) result" where
  "res_map f (Inr v) = Inr (f v)"
| "res_map f (Inl e) = Inl e"

fun res_mapErr :: "('e \<Rightarrow> 'f) \<Rightarrow> ('t, 'e) result \<Rightarrow> ('t, 'f) result" where
  "res_mapErr f (Inr v) = Inr v"
| "res_mapErr f (Inl e) = Inl (f e)"

text \<open>\<open>unwrap\<close> throws the error; \<open>None\<close> is the throw.\<close>

fun res_unwrap :: "('t, 'e) result \<Rightarrow> 't option" where
  "res_unwrap (Inr v) = Some v"
| "res_unwrap (Inl e) = None"

fun res_unwrapOr :: "'t \<Rightarrow> ('t, 'e) result \<Rightarrow> 't" where
  "res_unwrapOr d (Inr v) = v"
| "res_unwrapOr d (Inl e) = d"

fun res_getError :: "('t, 'e) result \<Rightarrow> 'e option" where
  "res_getError (Inr v) = None"
| "res_getError (Inl e) = Some e"

definition badRequest :: "string \<Rightarrow> (string \<times> json) list option \<Rightarrow> app_error" where
  "badRequest msg details = \<lparr>ae_message = msg, ae_code = ''BAD_REQUEST'', ae_statusCode = 400, ae_details = details\<rparr>"

definition notFound :: "string \<Rightarrow> app_error" where
  "notFound msg = \<lparr>ae_message = msg, ae_code = ''NOT_FOUND'', ae_statusCode = 404, ae_details = None\<rparr>"

definition unauthorized :: "string \<Rightarrow> app_error" where
  "unauthorized msg = \<lparr>ae_message = msg, ae_code = ''UNAUTHORIZED'', ae_statusCode = 401, ae_details = None\<rparr>"

definition conflict :: "string \<Rightarrow> app_error" where
  "conflict msg = \<lparr>ae_message = msg, ae_code = ''CONFLICT'', ae_statusCode = 409, ae_details = None\<rparr>"

definition validation_error :: "(string \<times> json) list \<Rightarrow> app_error" where
  "validation_error details = \<lparr>ae_message = ''Validation failed'', ae_code = ''VALIDATION_ERROR'',
     ae_statusCode = 422, ae_details = Some details\<rparr>"

definition internal_error :: "string \<Rightarrow> app_error" where
  "internal_error msg = \<lparr>ae_message = msg, ae_code = ''INTERNAL_ERROR'', ae_statusCode = 500, ae_details = None\<rparr>"

definition error_toJSON :: "app_error \<Rightarrow> json" where
  "error_toJSON e = JObj ([(''error'', JNum (jint (ae_statusCode e))), (''code'', JStr (ae_code e)),
     (''message'', JStr (ae_message e))] @
     (case ae_details e of None \<Rightarrow> [] | Some d \<Rightarrow> [(''details'', JObj d)]))"

section \<open>The event bus\<close>

record ('h, 'e) event_bus =
  eb_handlers :: "(string, 'h list) jmap"
  eb_history :: "(string, 'e list) jmap"

definition new_bus :: "('h, 'e) event_bus" where
  "new_bus = \<lparr>eb_handlers = [], eb_history = []\<rparr>"

text \<open>A \<open>Set\<close> keeps the first insertion.\<close>

definition bus_on :: "string \<Rightarrow> 'h \<Rightarrow> ('h, 'e) event_bus \<Rightarrow> ('h, 'e) event_bus" where
  "bus_on n h b =
     (let hs = jget_or [] (eb_handlers b) n
      in b\<lparr>eb_handlers := jset n (if h \<in> set hs then hs else hs @ [h]) (eb_handlers b)\<rparr>)"

definition bus_off :: "string \<Rightarrow> 'h \<Rightarrow> ('h, 'e) event_bus \<Rightarrow> ('h, 'e) event_bus" where
  "bus_off n h b =
     (case jget (eb_handlers b) n of
        None \<Rightarrow> b
      | Some hs \<Rightarrow> b\<lparr>eb_handlers := jset n (filter (\<lambda>x. x \<noteq> h) hs) (eb_handlers b)\<rparr>)"

definition HISTORY_LIMIT :: nat where
  "HISTORY_LIMIT = 100"

definition remember :: "string \<Rightarrow> 'e \<Rightarrow> ('h, 'e) event_bus \<Rightarrow> ('h, 'e) event_bus" where
  "remember n e b = b\<lparr>eb_history := jset n (push_capped HISTORY_LIMIT e (jget_or [] (eb_history b) n)) (eb_history b)\<rparr>"

text \<open>
  \<open>emit\<close>: the new bus, the handlers called, and whether its promise resolves. A handler that throws
  before it returns a promise stops the loop; a rejected promise is logged and ignored.
\<close>

definition bus_emit ::
  "('h \<Rightarrow> 'e \<Rightarrow> listener_outcome) \<Rightarrow> string \<Rightarrow> 'e \<Rightarrow> ('h, 'e) event_bus \<Rightarrow> ('h, 'e) event_bus \<times> 'h list \<times> bool" where
  "bus_emit out n e b =
     (let b1 = remember n e b
      in case jget (eb_handlers b1) n of
           None \<Rightarrow> (b1, [], True)
         | Some hs \<Rightarrow> (case call_listeners (\<lambda>h. out h e) hs of (called, ok) \<Rightarrow> (b1, called, ok)))"

text \<open>\<open>events.slice(-n)\<close>; a limit that is not a number makes \<open>slice(NaN)\<close>, the whole history.\<close>

definition getHistory :: "string \<Rightarrow> jsnum \<Rightarrow> ('h, 'e) event_bus \<Rightarrow> 'e list" where
  "getHistory n limit b =
     (let events = jget_or [] (eb_history b) n
      in case jmax (Num 0) (jfloor limit) of
           Num x \<Rightarrow> if x = 0 then [] else last_n (nat \<lfloor>x\<rfloor>) events
         | _ \<Rightarrow> events)"

definition clearHistory :: "string option \<Rightarrow> ('h, 'e) event_bus \<Rightarrow> ('h, 'e) event_bus" where
  "clearHistory n b =
     (case n of
        Some s \<Rightarrow> if s \<noteq> [] then b\<lparr>eb_history := jdel s (eb_history b)\<rparr> else b\<lparr>eb_history := []\<rparr>
      | None \<Rightarrow> b\<lparr>eb_history := []\<rparr>)"

definition listenerCount :: "string \<Rightarrow> ('h, 'e) event_bus \<Rightarrow> nat" where
  "listenerCount n b = (case jget (eb_handlers b) n of None \<Rightarrow> 0 | Some hs \<Rightarrow> length hs)"

section \<open>Command and query buses\<close>

datatype bus_error = AlreadyRegistered string

type_synonym 'h command_bus = "(string, 'h) jmap"

definition register_command :: "string \<Rightarrow> 'h \<Rightarrow> 'h command_bus \<Rightarrow> bus_error + 'h command_bus" where
  "register_command ty h b = (if jget b ty \<noteq> None then Inl (AlreadyRegistered ty) else Inr (jset ty h b))"

definition dispatch_command ::
  "('h \<Rightarrow> 'c \<Rightarrow> ('r, app_error) result) \<Rightarrow> string \<Rightarrow> 'c \<Rightarrow> 'h command_bus \<Rightarrow> ('r, app_error) result" where
  "dispatch_command handle ty c b =
     (case jget b ty of
        None \<Rightarrow> Inl (internal_error (''No handler registered for command \"'' @ ty @ ''\"''))
      | Some h \<Rightarrow> handle h c)"

definition registeredCommands :: "'h command_bus \<Rightarrow> string list" where
  "registeredCommands b = jkeys b"

definition register_query :: "string \<Rightarrow> 'h \<Rightarrow> 'h command_bus \<Rightarrow> bus_error + 'h command_bus" where
  "register_query ty h b = (if jget b ty \<noteq> None then Inl (AlreadyRegistered ty) else Inr (jset ty h b))"

definition ask ::
  "('h \<Rightarrow> 'c \<Rightarrow> ('r, app_error) result) \<Rightarrow> string \<Rightarrow> 'c \<Rightarrow> 'h command_bus \<Rightarrow> ('r, app_error) result" where
  "ask handle ty q b =
     (case jget b ty of
        None \<Rightarrow> Inl (internal_error (''No handler registered for query \"'' @ ty @ ''\"''))
      | Some h \<Rightarrow> handle h q)"

definition registeredQueries :: "'h command_bus \<Rightarrow> string list" where
  "registeredQueries b = jkeys b"

section \<open>The history\<close>

abbreviation history_of :: "string \<Rightarrow> ('h, 'e) event_bus \<Rightarrow> 'e list" where
  "history_of n b \<equiv> jget_or [] (eb_history b) n"

lemma emit_bus: "fst (bus_emit out n e b) = remember n e b"
  by (simp add: bus_emit_def Let_def split: option.split prod.split)

interpretation history: newest_buffer HISTORY_LIMIT "remember n" "history_of n" "\<lambda>_. True" for n
  by unfold_locales (simp_all add: remember_def push_capped_last_n)

datatype ('h, 'e) bus_op = On string 'h | Off string 'h | Emit string 'e | Clear "string option"

fun bus_step :: "('h \<Rightarrow> 'e \<Rightarrow> listener_outcome) \<Rightarrow> ('h, 'e) bus_op \<Rightarrow> ('h, 'e) event_bus \<Rightarrow> ('h, 'e) event_bus" where
  "bus_step out (On n h) b = bus_on n h b"
| "bus_step out (Off n h) b = bus_off n h b"
| "bus_step out (Emit n e) b = fst (bus_emit out n e b)"
| "bus_step out (Clear no) b = clearHistory no b"

text \<open>The contract: the events of a name since its last clearing.\<close>

fun emitted_step :: "string \<Rightarrow> ('h, 'e) bus_op \<Rightarrow> 'e list \<Rightarrow> 'e list" where
  "emitted_step n (Emit m e) es = (if m = n then es @ [e] else es)"
| "emitted_step n (Clear no) es = (if no = None \<or> no = Some [] \<or> no = Some n then [] else es)"
| "emitted_step n _ es = es"

lemma history_step:
  "history_of n b = last_n HISTORY_LIMIT es \<Longrightarrow>
   history_of n (bus_step out a b) = last_n HISTORY_LIMIT (emitted_step n a es)"
proof (cases a)
  case (Emit m e)
  assume "history_of n b = last_n HISTORY_LIMIT es"
  with Emit show ?thesis
    by (cases "m = n") (simp_all add: emit_bus remember_def push_capped_last_n last_n_last_n_snoc)
next
  case (Clear no)
  assume "history_of n b = last_n HISTORY_LIMIT es"
  with Clear show ?thesis by (auto simp: clearHistory_def jget_or_def last_n_def split: option.split)
next
  case (Off m h)
  assume "history_of n b = last_n HISTORY_LIMIT es"
  with Off show ?thesis by (simp add: bus_off_def split: option.split)
qed (simp add: bus_on_def Let_def)

lemma last_n_of_last_n: "m \<le> n \<Longrightarrow> last_n m (last_n n xs) = last_n m xs"
  by (cases "length xs \<le> n") (auto simp: last_n_def)

section \<open>Properties\<close>

text \<open>
  History: after any subscriptions, emissions and clearings, with any handlers, \<open>getHistory\<close> with
  a whole limit up to 100 yields exactly the last \<open>limit\<close> events of that name emitted since it was
  cleared, in order; and an emission calls every handler of the name exactly once in order when none
  of them throws at once, rejected promises included.
\<close>

theorem bus_history:
  assumes "l \<le> 100"
  shows "getHistory n (jint (int l)) (fold (bus_step out) as new_bus) = last_n l (fold (emitted_step n) as []) \<and>
    (let b = fold (bus_step out) as new_bus; hs = jget_or [] (eb_handlers b) n
     in list_all (\<lambda>h. out h e \<noteq> Throws) hs \<longrightarrow> snd (bus_emit out n e b) = (hs, True))"
proof
  let ?b = "fold (bus_step out) as new_bus"
  have "history_of n (fold (bus_step out) as b) = last_n HISTORY_LIMIT (fold (emitted_step n) as es)"
    if "history_of n b = last_n HISTORY_LIMIT es" for b es
    using that
  proof (induction as arbitrary: b es)
    case (Cons a as)
    from Cons.IH [OF history_step [OF Cons.prems]] show ?case by simp
  qed simp
  from this [of new_bus "[]"] have h: "history_of n ?b = last_n HISTORY_LIMIT (fold (emitted_step n) as [])"
    by (simp add: new_bus_def jget_or_def)
  have "jmax (Num 0) (jint (int l)) = jint (int l)" by (simp add: jmax_def)
  then show "getHistory n (jint (int l)) ?b = last_n l (fold (emitted_step n) as [])"
    using assms h by (auto simp: getHistory_def Let_def last_n_of_last_n HISTORY_LIMIT_def) (simp add: last_n_def)
  have "list_all (\<lambda>h. out h e \<noteq> Throws) hs \<Longrightarrow> call_listeners (\<lambda>h. out h e) hs = (hs, True)" for hs
    by (induction hs) auto
  then show "let b = ?b; hs = jget_or [] (eb_handlers b) n
     in list_all (\<lambda>h. out h e \<noteq> Throws) hs \<longrightarrow> snd (bus_emit out n e b) = (hs, True)"
    by (simp add: bus_emit_def remember_def jget_or_def Let_def split: option.split)
qed

lemma bus_history_witness:
  "getHistory ''a'' (jint 2) (fold (bus_step (\<lambda>(_::nat) _. Rejected))
     [Emit ''a'' (CHR ''x''), On ''a'' 1, Emit ''a'' (CHR ''y''), Emit ''b'' (CHR ''q''), Emit ''a'' (CHR ''z'')] new_bus) = ''yz''"
  using conjunct1 [OF bus_history [of 2 "''a''" "\<lambda>(_::nat) _. Rejected"
        "[Emit ''a'' (CHR ''x''), On ''a'' 1, Emit ''a'' (CHR ''y''), Emit ''b'' (CHR ''q''), Emit ''a'' (CHR ''z'')]"]]
  by (simp add: last_n_def)

end
