(* ===== verification/Sanitize.thy ===== *)
theory Sanitize
  imports Prelude "HOL-Library.Word" "HOL-Library.Sublist"
begin

text \<open>
  The text that is stored about a failing bot: packages/core/src/utils/sanitize.ts and the functions
  \<open>maskSecrets\<close> and \<open>sanitizeErrorMessage\<close> of packages/core/src/domain/bot.ts. A JavaScript string
  is its list of UTF-16 code units, a \<open>16 word list\<close>. Of the language's library: \<open>split\<close> followed by
  \<open>join\<close>, \<open>trim\<close>, \<open>encodeURIComponent\<close> (\<open>None\<close> is its URIError).
\<close>

type_synonym ustring = "16 word list"

section \<open>Library functions\<close>

definition js_space :: "16 word \<Rightarrow> bool" where
  "js_space c \<longleftrightarrow> (9 \<le> c \<and> c \<le> 13) \<or> c = 32 \<or> c = 160 \<or> c = 0x1680 \<or> (0x2000 \<le> c \<and> c \<le> 0x200A) \<or>
     c = 0x2028 \<or> c = 0x2029 \<or> c = 0x202F \<or> c = 0x205F \<or> c = 0x3000 \<or> c = 0xFEFF"

definition js_trim :: "ustring \<Rightarrow> ustring" where
  "js_trim s = rev (dropWhile js_space (rev (dropWhile js_space s)))"

text \<open>\<open>encodeURIComponent\<close>: letters, digits and \<open>- _ . ! ~ * ' ( )\<close> stay, the rest is percent-encoded UTF-8.\<close>

definition uri_unreserved :: "16 word \<Rightarrow> bool" where
  "uri_unreserved c \<longleftrightarrow> (65 \<le> c \<and> c \<le> 90) \<or> (97 \<le> c \<and> c \<le> 122) \<or> (48 \<le> c \<and> c \<le> 57) \<or>
     c \<in> set [45, 95, 46, 33, 126, 42, 39, 40, 41]"

definition hex_digit :: "nat \<Rightarrow> 16 word" where
  "hex_digit d = (if d < 10 then of_nat (48 + d) else of_nat (55 + d))"

definition pct_byte :: "nat \<Rightarrow> ustring" where
  "pct_byte b = [37, hex_digit (b div 16 mod 16), hex_digit (b mod 16)]"

definition utf8 :: "nat \<Rightarrow> nat list" where
  "utf8 p =
     (if p < 0x80 then [p]
      else if p < 0x800 then [0xC0 + p div 64, 0x80 + p mod 64]
      else if p < 0x10000 then [0xE0 + p div 4096, 0x80 + p div 64 mod 64, 0x80 + p mod 64]
      else [0xF0 + p div 262144, 0x80 + p div 4096 mod 64, 0x80 + p div 64 mod 64, 0x80 + p mod 64])"

definition pct_point :: "nat \<Rightarrow> ustring" where
  "pct_point p = concat (map pct_byte (utf8 p))"

fun encodeURIComponent :: "ustring \<Rightarrow> ustring option" where
  "encodeURIComponent [] = Some []"
| "encodeURIComponent (c # cs) =
     (if uri_unreserved c then map_option ((#) c) (encodeURIComponent cs)
      else if 0xDC00 \<le> c \<and> c \<le> 0xDFFF then None
      else if 0xD800 \<le> c \<and> c \<le> 0xDBFF
      then (case cs of
              [] \<Rightarrow> None
            | d # ds \<Rightarrow>
                if 0xDC00 \<le> d \<and> d \<le> 0xDFFF
                then map_option ((@) (pct_point (0x10000 + (unat c - 0xD800) * 1024 + (unat d - 0xDC00))))
                       (encodeURIComponent ds)
                else None)
      else map_option ((@) (pct_point (unat c))) (encodeURIComponent cs))"

section \<open>The code\<close>

definition control_unit :: "16 word \<Rightarrow> bool" where
  "control_unit c \<longleftrightarrow> c < 0x20 \<or> c = 0x7f \<or> c = 0x85 \<or> c = 0x2028 \<or> c = 0x2029"

definition stripControlChars :: "ustring \<Rightarrow> ustring" where
  "stripControlChars s = map (\<lambda>c. if control_unit c then 32 else c) s"

definition MAX_ERROR_LENGTH :: nat where
  "MAX_ERROR_LENGTH = 500"

definition SECRET_FIELDS :: "string list" where
  "SECRET_FIELDS = [''token'', ''clientSecret'', ''refreshToken'', ''accessToken'', ''apiKey'', ''apiSecret'']"

type_synonym credentials = "(string, ustring) jmap"

text \<open>Longer secrets first; the sort is stable.\<close>

definition secrets_of :: "credentials \<Rightarrow> ustring list" where
  "secrets_of cred =
     sort_key (\<lambda>v. - int (length v))
       (filter (\<lambda>v. 6 \<le> length v) (List.map_filter (\<lambda>field. jget cred field) SECRET_FIELDS))"

definition stars :: ustring where
  "stars = [42, 42, 42]"

fun mask_each :: "ustring list \<Rightarrow> ustring \<Rightarrow> ustring option" where
  "mask_each [] text = Some text"
| "mask_each (v # vs) text =
     (case encodeURIComponent v of
        None \<Rightarrow> None
      | Some e \<Rightarrow> mask_each vs (replace_all e stars (replace_all v stars text)))"

definition maskSecrets :: "ustring \<Rightarrow> credentials \<Rightarrow> ustring option" where
  "maskSecrets message cred = mask_each (secrets_of cred) message"

definition sanitizeErrorMessage :: "ustring \<Rightarrow> credentials \<Rightarrow> ustring option" where
  "sanitizeErrorMessage message cred =
     map_option (\<lambda>masked. take MAX_ERROR_LENGTH (js_trim (stripControlChars masked))) (maskSecrets message cred)"

section \<open>Replacing leaves nothing behind\<close>

lemma prefix_before:
  "z \<notin> set w \<Longrightarrow> prefix w (a @ z # b) \<Longrightarrow> prefix w a"
proof (induction a arbitrary: w)
  case Nil
  then show ?case by (cases w) auto
next
  case (Cons c a)
  then show ?case by (cases w) auto
qed

lemma sublist_around:
  "z \<notin> set w \<Longrightarrow> w \<noteq> [] \<Longrightarrow> sublist w (a @ z # b) \<Longrightarrow> sublist w a \<or> sublist w b"
proof (induction a)
  case Nil
  then show ?case by (cases w) (auto simp: sublist_Cons_right)
next
  case (Cons c a)
  then show ?case using prefix_before [of z w "c # a" b] by (auto simp: sublist_Cons_right)
qed

lemma sublist_stars:
  assumes "42 \<notin> set w" and "w \<noteq> []" and "sublist w (a @ stars @ b)"
  shows "sublist w a \<or> sublist w b"
proof -
  have "sublist w (a @ 42 # (42 # 42 # b))" using assms(3) by (simp add: stars_def)
  from sublist_around [OF assms(1,2) this] show ?thesis
    using sublist_around [OF assms(1,2), of "[]" "42 # b"] sublist_around [OF assms(1,2), of "[]" b] assms(2) by auto
qed

lemma prefix_replace:
  "42 \<notin> set w \<Longrightarrow> prefix w (replace_all v stars t) \<Longrightarrow> prefix w t"
proof (induction v stars t arbitrary: w rule: replace_all.induct)
  case (2 v c cs)
  show ?case
  proof (cases "v \<noteq> [] \<and> take (length v) (c # cs) = v")
    case True
    with 2 show ?thesis by (cases w) (auto simp: stars_def)
  next
    case False
    with 2 show ?thesis by (cases w) auto
  qed
qed simp

lemma replaced_gone: "42 \<notin> set v \<Longrightarrow> v \<noteq> [] \<Longrightarrow> \<not> sublist v (replace_all v stars t)"
proof (induction v stars t rule: replace_all.induct)
  case (2 v c cs)
  show ?case
  proof (cases "take (length v) (c # cs) = v")
    case True
    with 2 sublist_stars [of v "[]" "replace_all v stars (drop (length v) (c # cs))"] show ?thesis by auto
  next
    case False
    have "\<not> prefix v (c # replace_all v stars cs)"
    proof
      assume p: "prefix v (c # replace_all v stars cs)"
      obtain v' where v: "v = c # v'" using p 2(4) by (cases v) auto
      with p 2(3) have "prefix v' cs" using prefix_replace [of v' v cs] by simp
      with v have "prefix v (c # cs)" by simp
      with False show False by (auto simp: prefix_def)
    qed
    with False 2 show ?thesis by (simp add: sublist_Cons_right)
  qed
qed simp

lemma replace_no_new:
  "42 \<notin> set w \<Longrightarrow> w \<noteq> [] \<Longrightarrow> sublist w (p @ replace_all v stars t) \<Longrightarrow> sublist w (p @ t)"
proof (induction v stars t arbitrary: p rule: replace_all.induct)
  case (2 v c cs)
  show ?case
  proof (cases "v \<noteq> [] \<and> take (length v) (c # cs) = v")
    case True
    let ?rest = "drop (length v) (c # cs)"
    have cs: "c # cs = v @ ?rest" using True by (metis append_take_drop_id)
    from 2 True have "sublist w p \<or> sublist w (replace_all v stars ?rest)"
      using sublist_stars [of w p "replace_all v stars ?rest"] by simp
    then show ?thesis
    proof
      assume "sublist w p"
      then show ?thesis by (rule sublist_order.order.trans) simp
    next
      assume "sublist w (replace_all v stars ?rest)"
      with 2(1) [OF True, of "[]"] 2(3,4) have "sublist w ?rest" by simp
      then have "sublist w ((p @ v) @ ?rest)" by (rule sublist_order.order.trans) (rule sublist_append_leftI)
      then show ?thesis by (subst cs) (simp only: append_assoc)
    qed
  next
    case False
    with 2(2) [OF False, of "p @ [c]"] 2(3-5) show ?thesis by auto
  qed
qed simp

text \<open>What masking removes, it removes for good.\<close>

definition absent :: "ustring \<Rightarrow> ustring \<Rightarrow> bool" where
  "absent w text \<longleftrightarrow> \<not> sublist w text"

lemma mask_keeps_absent:
  "42 \<notin> set w \<Longrightarrow> w \<noteq> [] \<Longrightarrow> absent w m \<Longrightarrow> mask_each vs m = Some m' \<Longrightarrow> absent w m'"
proof (induction vs m rule: mask_each.induct)
  case (2 v vs m)
  then show ?case
    using replace_no_new [of w "[]" v m] replace_no_new [of w "[]" _ "replace_all v stars m"]
    by (auto simp: absent_def split: option.splits)
qed simp

lemma mask_removes:
  "v \<in> set vs \<Longrightarrow> 42 \<notin> set v \<Longrightarrow> v \<noteq> [] \<Longrightarrow> encodeURIComponent v = Some e \<Longrightarrow> 42 \<notin> set e \<Longrightarrow> e \<noteq> [] \<Longrightarrow>
   mask_each vs m = Some m' \<Longrightarrow> absent v m' \<and> absent e m'"
proof (induction vs m rule: mask_each.induct)
  case (2 u vs m)
  show ?case
  proof (cases "u = v")
    case True
    let ?t = "replace_all e stars (replace_all v stars m)"
    have "absent v ?t" "absent e ?t"
      using replaced_gone [of v m] replace_no_new [of v "[]" e "replace_all v stars m"]
        replaced_gone [of e "replace_all v stars m"] 2 by (auto simp: absent_def)
    with True 2 mask_keeps_absent [of v ?t vs m'] mask_keeps_absent [of e ?t vs m'] show ?thesis
      by (auto split: option.splits)
  next
    case False
    with 2 show ?thesis by (auto split: option.splits)
  qed
qed simp

section \<open>The encoding has no stars or blanks of its own\<close>

lemma unat_hex_digit: "d < 16 \<Longrightarrow> unat (hex_digit d) = (if d < 10 then 48 + d else 55 + d)"
  by (simp add: hex_digit_def unat_of_nat del: of_nat_add of_nat_numeral)

lemma hex_digit_plain: "hex_digit (d mod 16) \<noteq> 42" "hex_digit (d mod 16) \<noteq> 32"
proof -
  have "d mod 16 < 16" by simp
  from unat_hex_digit [OF this] have "48 \<le> unat (hex_digit (d mod 16))" by (auto split: if_splits)
  then show "hex_digit (d mod 16) \<noteq> 42" "hex_digit (d mod 16) \<noteq> 32" by auto
qed

lemma pct_point_plain: "42 \<notin> set (pct_point p)" "32 \<notin> set (pct_point p)"
  using hex_digit_plain by (auto simp: pct_point_def pct_byte_def)

lemma encode_plain:
  assumes "z = 42 \<or> z = 32"
  shows "z \<notin> set v \<Longrightarrow> encodeURIComponent v = Some e \<Longrightarrow> z \<notin> set e"
proof (induction v arbitrary: e rule: encodeURIComponent.induct)
  case (2 c cs)
  show ?case
  proof (cases cs)
    case Nil
    with 2 assms pct_point_plain show ?thesis by (auto split: if_splits)
  next
    case (Cons d ds)
    with 2 assms pct_point_plain show ?thesis by (auto split: if_splits)
  qed
qed simp

lemma encode_nonempty: "v \<noteq> [] \<Longrightarrow> encodeURIComponent v = Some e \<Longrightarrow> e \<noteq> []"
proof (cases v)
  case (Cons c cs)
  have "pct_point p \<noteq> []" for p by (simp add: pct_point_def pct_byte_def utf8_def)
  then show "encodeURIComponent v = Some e \<Longrightarrow> e \<noteq> []"
    by (auto simp: Cons split: if_splits list.splits)
qed simp

lemma strip_sublist:
  assumes w: "32 \<notin> set w" and s: "sublist w (stripControlChars t)"
  shows "sublist w t"
proof -
  obtain u where u: "sublist u t" "w = map (\<lambda>c. if control_unit c then 32 else c) u"
    using sublist_map_rightE [OF s [unfolded stripControlChars_def]] by blast
  have "\<not> control_unit c" if "c \<in> set u" for c
    using w that unfolding u(2) by force
  then have "w = u" unfolding u(2) by (intro map_idI) simp
  with u(1) show ?thesis by simp
qed

lemma trim_sublist: "sublist (js_trim t) t"
proof -
  have "suffix (dropWhile js_space t) t" by (rule suffix_dropWhile)
  moreover have "prefix (js_trim t) (dropWhile js_space t)"
    unfolding js_trim_def using suffix_dropWhile [of js_space "rev (dropWhile js_space t)"]
    by (simp add: suffix_to_prefix)
  ultimately show ?thesis by (meson prefix_imp_sublist suffix_imp_sublist sublist_order.order.trans)
qed

lemma sanitized_sublist: "sublist (take n (js_trim (stripControlChars t))) (stripControlChars t)"
  by (rule sublist_order.order.trans [OF _ trim_sublist]) simp

lemma secrets_of_mem:
  "jget cred field = Some v \<Longrightarrow> field \<in> set SECRET_FIELDS \<Longrightarrow> 6 \<le> length v \<Longrightarrow> v \<in> set (secrets_of cred)"
  by (force simp: secrets_of_def List.map_filter_def)

section \<open>Property\<close>


definition demo_credentials :: credentials where
  "demo_credentials = [(''token'', [115, 51, 99, 114, 51, 116])]"


end
