(* ===== verification/BotDomain.thy ===== *)
theory BotDomain
  imports EventBus Sanitize
begin

text \<open>
  The aggregates of the domain, packages/core/src/domain/bot.ts and domain/account.ts. A \<open>Bot\<close>
  holds its state machine; every operation that stamps \<open>updatedAt\<close> takes the clock reading. Names,
  identifiers and credentials are the program's strings; credentials map the present fields to their
  text. What the listeners of the state machine do is the argument \<open>out\<close>; the text that a caught
  error leaves in a message is the argument \<open>show_err\<close>.
\<close>

type_synonym bot_config = "(string \<times> json) list"

record bot_snapshot =
  sn_id :: string
  sn_name :: string
  sn_platform :: string
  sn_state :: bot_state
  sn_credentials :: credentials
  sn_config :: bot_config
  sn_accountId :: string
  sn_createdAt :: ms
  sn_updatedAt :: ms
  sn_lastError :: "ustring option"
  sn_connectedAt :: "ms option"

record 'h bot =
  b_id :: string
  b_name :: string
  b_platform :: string
  b_credentials :: credentials
  b_config :: bot_config
  b_accountId :: string
  b_createdAt :: ms
  b_updatedAt :: ms
  b_lastError :: "ustring option"
  b_connectedAt :: "ms option"
  b_machine :: "'h machine"

definition fromSnapshot :: "bot_snapshot \<Rightarrow> 'h bot" where
  "fromSnapshot s = \<lparr>b_id = sn_id s, b_name = sn_name s, b_platform = sn_platform s,
     b_credentials = sn_credentials s, b_config = sn_config s, b_accountId = sn_accountId s,
     b_createdAt = sn_createdAt s, b_updatedAt = sn_updatedAt s, b_lastError = sn_lastError s,
     b_connectedAt = sn_connectedAt s, b_machine = new_machine (sn_state s)\<rparr>"

text \<open>\<open>Bot.create\<close>; the two dates are two readings of the clock.\<close>

definition create_bot ::
  "string \<Rightarrow> string \<Rightarrow> string \<Rightarrow> credentials option \<Rightarrow> bot_config option \<Rightarrow> string \<Rightarrow> ms \<Rightarrow> ms \<Rightarrow> 'h bot" where
  "create_bot i name platform cred cfg accountId now now' =
     fromSnapshot \<lparr>sn_id = i, sn_name = name, sn_platform = platform, sn_state = Idle,
       sn_credentials = (case cred of None \<Rightarrow> [] | Some c \<Rightarrow> c),
       sn_config = (case cfg of None \<Rightarrow> [] | Some c \<Rightarrow> c), sn_accountId = accountId,
       sn_createdAt = now, sn_updatedAt = now', sn_lastError = None, sn_connectedAt = None\<rparr>"

definition bot_snapshot_of :: "'h bot \<Rightarrow> bot_snapshot" where
  "bot_snapshot_of b = \<lparr>sn_id = b_id b, sn_name = b_name b, sn_platform = b_platform b,
     sn_state = m_state (b_machine b), sn_credentials = b_credentials b, sn_config = b_config b,
     sn_accountId = b_accountId b, sn_createdAt = b_createdAt b, sn_updatedAt = b_updatedAt b,
     sn_lastError = b_lastError b, sn_connectedAt = b_connectedAt b\<rparr>"

definition bot_can :: "'h bot \<Rightarrow> bot_transition \<Rightarrow> bool" where
  "bot_can b t = can (b_machine b) t"

fun state_name :: "bot_state \<Rightarrow> string" where
  "state_name Idle = ''idle''"
| "state_name Connecting = ''connecting''"
| "state_name Running = ''running''"
| "state_name Paused = ''paused''"
| "state_name Error = ''error''"
| "state_name Reconnecting = ''reconnecting''"
| "state_name Disconnecting = ''disconnecting''"
| "state_name Removed = ''removed''"

type_synonym 'h outcomes = "'h \<Rightarrow> bot_state \<Rightarrow> bot_state \<Rightarrow> listener_outcome"

text \<open>Dispatching on the bot's machine: the bot and whether the promise resolved.\<close>

definition bot_dispatch :: "'h outcomes \<Rightarrow> bot_transition \<Rightarrow> 'h bot \<Rightarrow> 'h bot \<times> (sm_error + bot_state)" where
  "bot_dispatch out t b = (case dispatch out t (b_machine b) of (m, _, res) \<Rightarrow> (b\<lparr>b_machine := m\<rparr>, res))"

definition bot_start ::
  "(sm_error \<Rightarrow> string) \<Rightarrow> 'h outcomes \<Rightarrow> ms \<Rightarrow> 'h bot \<Rightarrow> 'h bot \<times> (unit, app_error) result" where
  "bot_start show_err out now b =
     (if \<not> bot_can b Start
      then (b, Inl (badRequest (''Cannot start bot in state '' @ state_name (m_state (b_machine b))) None))
      else case bot_dispatch out Start b of
             (b', Inr _) \<Rightarrow> (b'\<lparr>b_updatedAt := now\<rparr>, Inr ())
           | (b', Inl e) \<Rightarrow> (b', Inl (internal_error (''Start failed: '' @ show_err e))))"

definition bot_stop ::
  "(sm_error \<Rightarrow> string) \<Rightarrow> 'h outcomes \<Rightarrow> ms \<Rightarrow> 'h bot \<Rightarrow> 'h bot \<times> (unit, app_error) result" where
  "bot_stop show_err out now b =
     (if \<not> bot_can b Stop
      then (b, Inl (badRequest (''Cannot stop bot in state '' @ state_name (m_state (b_machine b))) None))
      else case bot_dispatch out Stop b of
             (b', Inr _) \<Rightarrow> (b'\<lparr>b_connectedAt := None, b_updatedAt := now\<rparr>, Inr ())
           | (b', Inl e) \<Rightarrow> (b', Inl (internal_error (''Stop failed: '' @ show_err e))))"

definition bot_onConnected :: "'h outcomes \<Rightarrow> ms \<Rightarrow> ms \<Rightarrow> 'h bot \<Rightarrow> 'h bot" where
  "bot_onConnected out now now' b =
     (case bot_dispatch out Connect b of
        (b', Inl _) \<Rightarrow> b'
      | (b', Inr _) \<Rightarrow> b'\<lparr>b_connectedAt := Some now, b_lastError := None, b_updatedAt := now'\<rparr>)"

text \<open>
  \<open>onError\<close>: the promise rejects with the URIError of a credential that cannot be encoded, before
  anything changed (\<open>Inl None\<close>), or with the error of the dispatch.
\<close>

definition bot_onError ::
  "'h outcomes \<Rightarrow> ms \<Rightarrow> ustring \<Rightarrow> 'h bot \<Rightarrow> 'h bot \<times> (sm_error option + unit)" where
  "bot_onError out now error b =
     (case sanitizeErrorMessage error (b_credentials b) of
        None \<Rightarrow> (b, Inl None)
      | Some m \<Rightarrow>
          let b1 = b\<lparr>b_lastError := Some m, b_updatedAt := now\<rparr>
          in if bot_can b1 Fail
             then (case bot_dispatch out Fail b1 of
                     (b', Inr _) \<Rightarrow> (b', Inr ()) | (b', Inl e) \<Rightarrow> (b', Inl (Some e)))
             else (b1, Inr ()))"

definition bot_onReconnect :: "'h outcomes \<Rightarrow> ms \<Rightarrow> 'h bot \<Rightarrow> 'h bot \<times> (sm_error + unit)" where
  "bot_onReconnect out now b =
     (if bot_can b Reconnect
      then (case bot_dispatch out Reconnect b of
              (b', Inr _) \<Rightarrow> (b'\<lparr>b_updatedAt := now\<rparr>, Inr ()) | (b', Inl e) \<Rightarrow> (b', Inl e))
      else (b, Inr ()))"

definition bot_updateConfig :: "bot_config \<Rightarrow> ms \<Rightarrow> 'h bot \<Rightarrow> 'h bot" where
  "bot_updateConfig cfg now b = b\<lparr>b_config := spread (b_config b) cfg, b_updatedAt := now\<rparr>"

definition bot_updateCredentials :: "credentials \<Rightarrow> ms \<Rightarrow> 'h bot \<Rightarrow> 'h bot" where
  "bot_updateCredentials cred now b = b\<lparr>b_credentials := spread (b_credentials b) cred, b_updatedAt := now\<rparr>"

definition bot_rename :: "string \<Rightarrow> ms \<Rightarrow> 'h bot \<Rightarrow> 'h bot" where
  "bot_rename name now b = b\<lparr>b_name := name, b_updatedAt := now\<rparr>"

definition isOnline :: "'h bot \<Rightarrow> bool" where
  "isOnline b \<longleftrightarrow> m_state (b_machine b) = Running"

definition isOffline :: "'h bot \<Rightarrow> bool" where
  "isOffline b \<longleftrightarrow> m_state (b_machine b) = Idle \<or> m_state (b_machine b) = Error \<or> m_state (b_machine b) = Removed"

section \<open>Accounts\<close>

record account =
  ac_id :: string
  ac_name :: string
  ac_platform :: string
  ac_credentials :: credentials
  ac_createdAt :: ms
  ac_updatedAt :: ms

definition create_account :: "string \<Rightarrow> string \<Rightarrow> string \<Rightarrow> credentials option \<Rightarrow> ms \<Rightarrow> ms \<Rightarrow> account" where
  "create_account i name platform cred now now' = \<lparr>ac_id = i, ac_name = name, ac_platform = platform,
     ac_credentials = (case cred of None \<Rightarrow> [] | Some c \<Rightarrow> c), ac_createdAt = now, ac_updatedAt = now'\<rparr>"

text \<open>\<open>Account.fromSnapshot\<close> and \<open>snapshot\<close> copy the same fields.\<close>

definition account_fromSnapshot :: "account \<Rightarrow> account" where
  "account_fromSnapshot s = \<lparr>ac_id = ac_id s, ac_name = ac_name s, ac_platform = ac_platform s,
     ac_credentials = ac_credentials s, ac_createdAt = ac_createdAt s, ac_updatedAt = ac_updatedAt s\<rparr>"

definition account_snapshot :: "account \<Rightarrow> account" where
  "account_snapshot a = \<lparr>ac_id = ac_id a, ac_name = ac_name a, ac_platform = ac_platform a,
     ac_credentials = ac_credentials a, ac_createdAt = ac_createdAt a, ac_updatedAt = ac_updatedAt a\<rparr>"

definition account_updateCredentials :: "credentials \<Rightarrow> ms \<Rightarrow> account \<Rightarrow> account" where
  "account_updateCredentials cred now a = a\<lparr>ac_credentials := spread (ac_credentials a) cred, ac_updatedAt := now\<rparr>"

definition account_rename :: "string \<Rightarrow> ms \<Rightarrow> account \<Rightarrow> account" where
  "account_rename name now a = a\<lparr>ac_name := name, ac_updatedAt := now\<rparr>"

section \<open>Invariants of a bot\<close>

lemma snapshot_roundtrip: "bot_snapshot_of (fromSnapshot s) = s"
  by (simp add: bot_snapshot_of_def fromSnapshot_def new_machine_def)

datatype 'h bot_op =
    OpStart "'h outcomes" ms | OpStop "'h outcomes" ms | OpConnected "'h outcomes" ms ms
  | OpError "'h outcomes" ms ustring | OpReconnect "'h outcomes" ms
  | OpConfig bot_config ms | OpCredentials credentials ms | OpRename string ms

fun bot_op_step :: "(sm_error \<Rightarrow> string) \<Rightarrow> 'h bot_op \<Rightarrow> 'h bot \<Rightarrow> 'h bot" where
  "bot_op_step sh (OpStart out now) b = fst (bot_start sh out now b)"
| "bot_op_step sh (OpStop out now) b = fst (bot_stop sh out now b)"
| "bot_op_step sh (OpConnected out now now') b = bot_onConnected out now now' b"
| "bot_op_step sh (OpError out now e) b = fst (bot_onError out now e b)"
| "bot_op_step sh (OpReconnect out now) b = fst (bot_onReconnect out now b)"
| "bot_op_step sh (OpConfig cfg now) b = bot_updateConfig cfg now b"
| "bot_op_step sh (OpCredentials cred now) b = bot_updateCredentials cred now b"
| "bot_op_step sh (OpRename name now) b = bot_rename name now b"

text \<open>Listeners that answer with a promise, as the program's do.\<close>

fun no_throw :: "'h bot_op \<Rightarrow> bool" where
  "no_throw (OpStart out now) = (\<forall>h s s'. out h s s' \<noteq> Throws)"
| "no_throw (OpStop out now) = (\<forall>h s s'. out h s s' \<noteq> Throws)"
| "no_throw (OpConnected out now now') = (\<forall>h s s'. out h s s' \<noteq> Throws)"
| "no_throw (OpError out now e) = (\<forall>h s s'. out h s s' \<noteq> Throws)"
| "no_throw (OpReconnect out now) = (\<forall>h s s'. out h s s' \<noteq> Throws)"
| "no_throw _ = True"

lemma call_listeners_ok: "\<forall>h. out h \<noteq> Throws \<Longrightarrow> call_listeners out hs = (hs, True)"
  by (induction hs) auto

lemma bot_dispatch_ok:
  "\<forall>h s s'. out h s s' \<noteq> Throws \<Longrightarrow> bot_dispatch out t b =
     (case jget (transitions (m_state (b_machine b))) t of
        None \<Rightarrow> (b, Inl (CannotTransition (m_state (b_machine b)) t))
      | Some s \<Rightarrow> (b\<lparr>b_machine := (b_machine b)\<lparr>m_state := s\<rparr>\<rparr>, Inr s))"
  by (simp add: bot_dispatch_def dispatch_def can_def canTransition_def applyTransition_def call_listeners_ok
      split: option.split)

text \<open>A running bot knows since when it is connected and has no error on record.\<close>

definition bot_inv :: "'h bot \<Rightarrow> bool" where
  "bot_inv b \<longleftrightarrow> m_state (b_machine b) \<noteq> Disconnecting \<and>
     (m_state (b_machine b) = Running \<longrightarrow> b_connectedAt b \<noteq> None)"

lemma bot_op_inv:
  assumes "bot_inv b" and "no_throw a"
  shows "bot_inv (bot_op_step sh a b)"
  using assms
  by (cases a; cases "m_state (b_machine b)")
    (auto simp: bot_inv_def bot_start_def bot_stop_def bot_onConnected_def bot_onError_def bot_onReconnect_def
      bot_updateConfig_def bot_updateCredentials_def bot_rename_def bot_can_def can_def canTransition_def
      bot_dispatch_ok Let_def split: option.split)

interpretation bots: guarded_machine "bot_op_step sh" no_throw bot_inv for sh
  by unfold_locales (rule bot_op_inv)

section \<open>Property\<close>

text \<open>
  A bot's record tells the truth about a running bot: whatever operations are run on a created
  bot, with listeners that answer by promises (rejected ones included), a bot in state \<open>Running\<close> has
  its connection time, the state \<open>Disconnecting\<close> does not occur, and storing and restoring the bot at
  any moment loses nothing but the listeners.
\<close>

theorem running_is_connected:
  assumes "list_all no_throw as"
    and b: "b = fold (bot_op_step sh) as (create_bot i name platform cred cfg accountId now now')"
  shows "m_state (b_machine b) \<noteq> Disconnecting \<and> (isOnline b \<longrightarrow> b_connectedAt b \<noteq> None) \<and>
    fromSnapshot (bot_snapshot_of b) = b\<lparr>b_machine := (b_machine b)\<lparr>m_listeners := []\<rparr>\<rparr>"
proof -
  have "bot_inv (create_bot i name platform cred cfg accountId now now')"
    by (simp add: bot_inv_def create_bot_def fromSnapshot_def new_machine_def)
  from bots.run_inv [OF this assms(1)] have "bot_inv b" by (simp add: b)
  then show ?thesis by (simp add: bot_inv_def isOnline_def fromSnapshot_def bot_snapshot_of_def new_machine_def)
qed

lemma running_is_connected_witness:
  "fromSnapshot (bot_snapshot_of (fold (bot_op_step (\<lambda>_. []))
      [OpStart (\<lambda>_ _ _. Rejected) 1, OpConnected (\<lambda>(_::nat) _ _. Fulfilled) 2 3]
      (create_bot ''b'' ''n'' ''twitch'' None None ''a'' 0 0))) =
    \<lparr>b_id = ''b'', b_name = ''n'', b_platform = ''twitch'', b_credentials = [], b_config = [], b_accountId = ''a'',
     b_createdAt = 0, b_updatedAt = 3, b_lastError = None, b_connectedAt = Some 2,
     b_machine = \<lparr>m_state = Running, m_listeners = ([] :: (bot_transition, nat list) jmap)\<rparr>\<rparr>"
proof -
  let ?ops = "[OpStart (\<lambda>_ _ _. Rejected) 1, OpConnected (\<lambda>(_::nat) _ _. Fulfilled) 2 3]"
  have "list_all no_throw ?ops" by simp
  note r = running_is_connected [OF this refl, of "\<lambda>_. []" "''b''" "''n''" "''twitch''" None None "''a''" 0 0]
  show ?thesis
    unfolding conjunct2 [OF conjunct2 [OF r]]
    by (simp add: create_bot_def fromSnapshot_def new_machine_def bot_start_def bot_onConnected_def
      bot_dispatch_def dispatch_def can_def canTransition_def applyTransition_def bot_can_def handlers_of_def jget_or_def)
qed

text \<open>
  A divergence: the comment in \<open>onConnected\<close> says \<open>connectedAt\<close> is not set on a bot that is not
  connected, but from \<open>Idle\<close> the dispatch succeeds with \<open>Connecting\<close> and the time is stamped.
\<close>

lemma connecting_bot_is_stamped:
  "\<forall>h s s'. out h s s' \<noteq> Throws \<Longrightarrow> m_state (b_machine b) = Idle \<Longrightarrow>
   m_state (b_machine (bot_onConnected out now now' b)) = Connecting \<and>
   b_connectedAt (bot_onConnected out now now' b) = Some now"
  by (simp add: bot_onConnected_def bot_dispatch_ok)

end
