(* ===== verification/Budgets.thy ===== *)
theory Budgets
  imports Contracts Texts
begin

text \<open>
  Rate limit budgets per action type, packages/core/src/rate-limit/budget.ts, and resource quotas,
  packages/core/src/tenancy/quota.ts. Configuration values are JSON; \<open>JSON.parse\<close>, \<open>JSON.stringify\<close>
  and \<open>trim() === ''\<close> are arguments. A look-up of an action type in \<open>overrides\<close> also
  reaches the members an object or an array inherits; such a result is \<open>InheritedMember\<close>.
\<close>

record budget =
  bg_maxRequests :: jsnum
  bg_windowMs :: jsnum

definition DEFAULT_RATE_LIMIT_BUDGET :: json where
  "DEFAULT_RATE_LIMIT_BUDGET = JObj [(''maxRequests'', JNum (jint 30)), (''windowMs'', JNum (jint 60000))]"

fun positive_integer :: "json \<Rightarrow> bool" where
  "positive_integer (JNum n) = (is_integer n \<and> jgt n (Num 0))"
| "positive_integer _ = False"

definition isRateLimitBudget :: "json \<Rightarrow> bool" where
  "isRateLimitBudget v \<longleftrightarrow> truthy v \<and> is_object v \<and>
     positive_integer (get_prop v ''maxRequests'') \<and> positive_integer (get_prop v ''windowMs'')"

definition isRateLimitBudgets :: "json \<Rightarrow> bool" where
  "isRateLimitBudgets v \<longleftrightarrow> truthy v \<and> is_object v \<and> isRateLimitBudget (get_prop v ''default'') \<and>
     (get_prop v ''overrides'' \<noteq> JUndef \<longrightarrow> is_object (get_prop v ''overrides'') \<and> get_prop v ''overrides'' \<noteq> JNull) \<and>
     list_all isRateLimitBudget (object_values (nullish_or (get_prop v ''overrides'') (JObj [])))"

text \<open>The members of an array besides its elements.\<close>

definition array_prototype :: "string list" where
  "array_prototype = [''length'', ''at'', ''concat'', ''copyWithin'', ''fill'', ''find'', ''findIndex'', ''findLast'',
     ''findLastIndex'', ''lastIndexOf'', ''pop'', ''push'', ''reverse'', ''shift'', ''unshift'', ''slice'', ''sort'',
     ''splice'', ''includes'', ''indexOf'', ''join'', ''keys'', ''entries'', ''values'', ''forEach'', ''filter'',
     ''flat'', ''flatMap'', ''map'', ''every'', ''some'', ''reduce'', ''reduceRight'', ''toReversed'', ''toSorted'',
     ''toSpliced'', ''with'']"

datatype member = Own json | InheritedMember string | Missing

definition own_or_inherited :: "(string \<times> json) list \<Rightarrow> string list \<Rightarrow> string \<Rightarrow> member" where
  "own_or_inherited ps names k =
     (case map_of ps k of Some v \<Rightarrow> Own v | None \<Rightarrow> if k \<in> set names then InheritedMember k else Missing)"

fun member_of :: "json \<Rightarrow> string \<Rightarrow> member" where
  "member_of (JObj ps) k = own_or_inherited ps object_prototype k"
| "member_of (JArr xs) k =
     own_or_inherited (zip (map nat_text [0..<length xs]) xs) (array_prototype @ object_prototype) k"
| "member_of _ k = Missing"

text \<open>The budgets are a parsed value, or \<open>None\<close> for \<open>undefined\<close>.\<close>

definition resolveActionBudget :: "json option \<Rightarrow> string \<Rightarrow> json \<Rightarrow> member" where
  "resolveActionBudget budgets actionType fallback =
     (let base = (case budgets of None \<Rightarrow> fallback | Some b \<Rightarrow> nullish_or (get_prop b ''default'') fallback)
      in case (case budgets of None \<Rightarrow> Missing | Some b \<Rightarrow> member_of (get_prop b ''overrides'') actionType) of
           Own v \<Rightarrow> if nullish v then Own base else Own v
         | InheritedMember k \<Rightarrow> InheritedMember k
         | Missing \<Rightarrow> Own base)"

definition parseRateLimitBudgets ::
  "(string \<Rightarrow> json option) \<Rightarrow> (string \<Rightarrow> bool) \<Rightarrow> string option \<Rightarrow> json option" where
  "parseRateLimitBudgets json_parse blank raw =
     (case raw of
        None \<Rightarrow> None
      | Some s \<Rightarrow>
          if s = [] \<or> blank s then None
          else case json_parse s of
                 None \<Rightarrow> None
               | Some parsed \<Rightarrow> if \<not> isRateLimitBudgets parsed then None else Some parsed)"

definition serializeRateLimitBudgets :: "(json \<Rightarrow> string) \<Rightarrow> json \<Rightarrow> string" where
  "serializeRateLimitBudgets stringify budgets = stringify budgets"

section \<open>Quotas\<close>

datatype quota_resource = Accounts | Bots | Webhooks

record quota_limits =
  maxAccounts :: jsnum
  maxBots :: jsnum
  maxWebhooks :: jsnum

record quota_usage =
  us_accounts :: jsnum
  us_bots :: jsnum
  us_webhooks :: jsnum

text \<open>\<open>Number(process.env.X ?? n)\<close>, with the conversion of the text as an argument.\<close>

definition quota_defaults :: "(string \<Rightarrow> jsnum) \<Rightarrow> (string \<Rightarrow> string option) \<Rightarrow> quota_limits" where
  "quota_defaults to_number env =
     (let get = (\<lambda>k d. case env k of None \<Rightarrow> jint d | Some s \<Rightarrow> to_number s)
      in \<lparr>maxAccounts = get ''QUOTA_MAX_ACCOUNTS'' 20, maxBots = get ''QUOTA_MAX_BOTS'' 50,
          maxWebhooks = get ''QUOTA_MAX_WEBHOOKS'' 30\<rparr>)"

fun limit_of :: "quota_limits \<Rightarrow> quota_resource \<Rightarrow> jsnum" where
  "limit_of l Accounts = maxAccounts l"
| "limit_of l Bots = maxBots l"
| "limit_of l Webhooks = maxWebhooks l"

fun usage_of :: "quota_usage \<Rightarrow> quota_resource \<Rightarrow> jsnum" where
  "usage_of u Accounts = us_accounts u"
| "usage_of u Bots = us_bots u"
| "usage_of u Webhooks = us_webhooks u"

datatype quota_error = QuotaExceeded quota_resource jsnum jsnum

definition checkQuota :: "quota_usage \<Rightarrow> quota_resource \<Rightarrow> quota_limits \<Rightarrow> quota_error + unit" where
  "checkQuota u r l =
     (if jlt (usage_of u r) (limit_of l r) then Inr () else Inl (QuotaExceeded r (usage_of u r) (limit_of l r)))"

text \<open>A limit that is not a number refuses everything.\<close>

lemma quota_nan: "limit_of l r = NaN \<Longrightarrow> checkQuota u r l \<noteq> Inr ()"
  by (cases "usage_of u r") (simp_all add: checkQuota_def)

text \<open>Creating one at a time never exceeds the limit.\<close>

fun create_many :: "int \<Rightarrow> quota_resource \<Rightarrow> nat \<Rightarrow> int \<Rightarrow> int" where
  "create_many limit r 0 n = n"
| "create_many limit r (Suc k) n =
     create_many limit r k
       (case checkQuota \<lparr>us_accounts = jint n, us_bots = jint n, us_webhooks = jint n\<rparr> r
               \<lparr>maxAccounts = jint limit, maxBots = jint limit, maxWebhooks = jint limit\<rparr> of
          Inr _ \<Rightarrow> n + 1 | Inl _ \<Rightarrow> n)"

lemma create_many_bounded: "n \<le> limit \<Longrightarrow> create_many limit r k n \<le> limit"
  by (induction k arbitrary: n) (cases r; auto simp: checkQuota_def)+

section \<open>Property\<close>

lemma isRateLimitBudget_not_nullish: "isRateLimitBudget v \<Longrightarrow> \<not> nullish v"
  by (auto simp: isRateLimitBudget_def nullish_def)

lemma own_value: "own_or_inherited ps names k = Own v \<Longrightarrow> v \<in> snd ` set ps"
  by (force simp: own_or_inherited_def split: option.splits if_splits dest: map_of_SomeD)

lemma member_value: "member_of j k = Own v \<Longrightarrow> v \<in> set (object_values j)"
  by (cases j) (auto dest!: own_value simp: set_zip)

text \<open>
  A typo in the deployment never yields a useless limit: for every text of the environment
  variable, the budget resolved for an action type has a positive whole request count and window,
  with a fallback that has them, unless the action type is the name of an inherited member of
  \<open>overrides\<close>, which is then returned instead of a budget.
\<close>

theorem resolved_budget_usable:
  assumes "isRateLimitBudget fallback"
  shows "case resolveActionBudget (parseRateLimitBudgets json_parse blank raw) actionType fallback of
      Own v \<Rightarrow> isRateLimitBudget v
    | InheritedMember k \<Rightarrow> k = actionType \<and> k \<in> set (array_prototype @ object_prototype)
    | Missing \<Rightarrow> False"
proof (cases "parseRateLimitBudgets json_parse blank raw")
  case None
  then show ?thesis using assms by (simp add: resolveActionBudget_def)
next
  case (Some b)
  then have b: "isRateLimitBudgets b"
    by (auto simp: parseRateLimitBudgets_def split: option.splits if_splits)
  let ?ov = "get_prop b ''overrides''"
  have base: "isRateLimitBudget (nullish_or (get_prop b ''default'') fallback)"
    using b isRateLimitBudget_not_nullish by (auto simp: isRateLimitBudgets_def nullish_or_def)
  show ?thesis
  proof (cases "member_of ?ov actionType")
    case (Own v)
    have "list_all isRateLimitBudget (object_values (nullish_or ?ov (JObj [])))"
      using b by (simp add: isRateLimitBudgets_def)
    moreover have "v \<in> set (object_values ?ov)" by (rule member_value [OF Own])
    moreover from this have "\<not> nullish ?ov" by (auto simp: nullish_def)
    ultimately have "isRateLimitBudget v" by (auto simp: list_all_iff nullish_or_def)
    with Own isRateLimitBudget_not_nullish show ?thesis by (simp add: Some resolveActionBudget_def)
  next
    case (InheritedMember k)
    then have "k = actionType \<and> k \<in> set (array_prototype @ object_prototype)"
      by (cases ?ov) (auto simp: own_or_inherited_def split: option.splits if_splits)
    moreover have "resolveActionBudget (Some b) actionType fallback = InheritedMember k"
      using InheritedMember by (simp add: resolveActionBudget_def)
    ultimately show ?thesis by (auto simp: Some)
  qed (simp add: Some resolveActionBudget_def base)
qed

lemma resolved_budget_usable_witness:
  "isRateLimitBudget (case resolveActionBudget (parseRateLimitBudgets
       (\<lambda>_. Some (JObj [(''default'', DEFAULT_RATE_LIMIT_BUDGET),
          (''overrides'', JObj [(''tweet'', JObj [(''maxRequests'', JNum (jint 17)), (''windowMs'', JNum (jint 900000))])])]))
       (\<lambda>_. False) (Some ''x'')) ''tweet'' DEFAULT_RATE_LIMIT_BUDGET of Own v \<Rightarrow> v | _ \<Rightarrow> JNull)"
proof -
  have d: "isRateLimitBudget DEFAULT_RATE_LIMIT_BUDGET"
    by (simp add: DEFAULT_RATE_LIMIT_BUDGET_def isRateLimitBudget_def)
  let ?j = "JObj [(''default'', DEFAULT_RATE_LIMIT_BUDGET),
          (''overrides'', JObj [(''tweet'', JObj [(''maxRequests'', JNum (jint 17)), (''windowMs'', JNum (jint 900000))])])]"
  have "resolveActionBudget (parseRateLimitBudgets (\<lambda>_. Some ?j) (\<lambda>_. False) (Some ''x'')) ''tweet'' DEFAULT_RATE_LIMIT_BUDGET =
      Own (JObj [(''maxRequests'', JNum (jint 17)), (''windowMs'', JNum (jint 900000))])"
    using d by (simp add: parseRateLimitBudgets_def isRateLimitBudgets_def resolveActionBudget_def own_or_inherited_def
        isRateLimitBudget_def nullish_or_def nullish_def)
  with resolved_budget_usable [where json_parse = "\<lambda>_. Some ?j" and blank = "\<lambda>_. False" and raw = "Some ''x''"
      and actionType = "''tweet''", OF d]
  show ?thesis by simp
qed

end
