(* ===== verification/WebhookGuard.thy ===== *)
theory WebhookGuard
  imports Texts "HOL-Library.Word"
begin

unbundle bit_operations_syntax

text \<open>
  The guard against requests into the private network, packages/core/src/webhooks/index.ts, and the
  delivery of a webhook through it. Host names are ASCII, as the URL parser leaves them. The parser
  itself (\<open>new URL\<close>), \<open>net.isIP\<close> on IPv6, the resolver, HTTP and HMAC are not in the repository: they
  are the fields of \<open>net\<close>. An IPv4 address is a \<open>32 word\<close>.
\<close>

definition WEBHOOK_EVENT_TYPES :: "string list" where
  "WEBHOOK_EVENT_TYPES = [''message'', ''follow'', ''subscribe'', ''donation'', ''comment'', ''interval'',
     ''status'', ''price'', ''signal'', ''trade'']"

section \<open>Notations of an IPv4 address\<close>

definition octet :: "nat \<Rightarrow> 32 word \<Rightarrow> nat" where
  "octet k v = unat (drop_bit k v AND 0xff)"

definition uint32ToIpv4 :: "32 word \<Rightarrow> string" where
  "uint32ToIpv4 v = join_with (CHR ''.'') (map (\<lambda>k. nat_text (octet k v)) [24, 16, 8, 0])"

text \<open>The regular expression \<open>^(\d{1,3})\.(\d{1,3})\.(\d{1,3})\.(\d{1,3})$\<close> and what the code makes of it.\<close>

definition short_digits :: "string \<Rightarrow> bool" where
  "short_digits p \<longleftrightarrow> all_digits p \<and> length p \<le> 3"

definition dotted_quad :: "string \<Rightarrow> string list option" where
  "dotted_quad s =
     (let ps = split_on (CHR ''.'') s in if length ps = 4 \<and> list_all short_digits ps then Some ps else None)"

definition quad_octets :: "string list \<Rightarrow> string option" where
  "quad_octets ps =
     (if list_all (\<lambda>p. parse_dec p \<le> 255) ps
      then Some (join_with (CHR ''.'') (map (\<lambda>p. nat_text (parse_dec p)) ps)) else None)"

text \<open>The regular expression \<open>^([0-9a-f]{1,4}):([0-9a-f]{1,4})$\<close> and its 32-bit value.\<close>

definition hex_pair :: "string \<Rightarrow> 32 word option" where
  "hex_pair s =
     (case split_on (CHR '':'') s of
        [a, b] \<Rightarrow>
          if all_hex a \<and> length a \<le> 4 \<and> all_hex b \<and> length b \<le> 4
          then Some (push_bit 16 (of_nat (parse_hex a) AND 0xffff) + (of_nat (parse_hex b) AND 0xffff))
          else None
      | _ \<Rightarrow> None)"

definition ipv4FromMappedV6 :: "string \<Rightarrow> string option" where
  "ipv4FromMappedV6 ip =
     (let lower = to_lower ip; mapped = strip_prefix ''::ffff:'' lower; compat = strip_prefix ''::'' lower
      in case Option.bind mapped dotted_quad of
           Some ps \<Rightarrow> quad_octets ps
         | None \<Rightarrow>
             (case Option.bind mapped hex_pair of
                Some v \<Rightarrow> Some (uint32ToIpv4 v)
              | None \<Rightarrow>
                  (case Option.bind compat hex_pair of
                     Some v \<Rightarrow> Some (uint32ToIpv4 v)
                   | None \<Rightarrow> Option.bind (Option.bind compat dotted_quad) quad_octets)))"

definition toIpv4Candidates :: "string \<Rightarrow> string list option" where
  "toIpv4Candidates host =
     (let lower = to_lower host;
          finish = (\<lambda>value :: nat. if value > 0xffffffff then None else Some [uint32ToIpv4 (of_nat value)])
      in if all_digits lower then finish (parse_dec lower)
         else if strip_prefix ''0x'' lower \<noteq> None \<and> all_hex (the (strip_prefix ''0x'' lower))
         then finish (parse_hex (the (strip_prefix ''0x'' lower)))
         else if CHR ''.'' \<in> set lower
         then let parts = split_on (CHR ''.'') lower
              in if length parts < 2 \<or> length parts > 4 then None
                 else if \<not> list_all short_digits parts then None
                 else let nums = map parse_dec parts
                      in if list_ex (\<lambda>n. n > 255) nums then None
                         else finish (foldl (\<lambda>value n. value * 256 + n) 0 nums)
         else None)"

section \<open>Private addresses\<close>

text \<open>\<open>net.isIP\<close> on IPv4: four decimal octets without leading zeros.\<close>

definition is_ipv4 :: "string \<Rightarrow> bool" where
  "is_ipv4 s =
     (let ps = split_on (CHR ''.'') s
      in length ps = 4 \<and> list_all (\<lambda>p. all_digits p \<and> nat_text (parse_dec p) = p \<and> parse_dec p \<le> 255) ps)"

definition private_v4 :: "nat \<Rightarrow> nat \<Rightarrow> bool" where
  "private_v4 a b \<longleftrightarrow> a = 0 \<or> a = 10 \<or> a = 127 \<or> (a = 169 \<and> b = 254) \<or> (a = 172 \<and> 16 \<le> b \<and> b \<le> 31) \<or>
     (a = 192 \<and> b = 168) \<or> (a = 100 \<and> 64 \<le> b \<and> b \<le> 127) \<or> 224 \<le> a"

definition private_v4_text :: "string \<Rightarrow> bool" where
  "private_v4_text ip = (let ps = map parse_dec (split_on (CHR ''.'') ip) in private_v4 (ps ! 0) (ps ! 1))"

definition link_local_v6 :: "string \<Rightarrow> bool" where
  "link_local_v6 s \<longleftrightarrow> starts_with ''fe'' s \<and> length s > 2 \<and> s ! 2 \<in> set ''89ab''"

text \<open>The recursive call is on the text of an IPv4 address, so it ends there.\<close>

definition isPrivateIp :: "(string \<Rightarrow> bool) \<Rightarrow> string \<Rightarrow> bool" where
  "isPrivateIp is_ipv6 ip =
     (if ip = [] then False
      else if is_ipv4 ip then private_v4_text ip
      else if is_ipv6 ip then
        (let lower = to_lower ip
         in if lower = ''::'' \<or> lower = ''::1'' then True
            else case ipv4FromMappedV6 lower of
                   Some embedded \<Rightarrow> is_ipv4 embedded \<and> private_v4_text embedded
                 | None \<Rightarrow> starts_with ''fc'' lower \<or> starts_with ''fd'' lower \<or> link_local_v6 lower \<or>
                     starts_with ''ff'' lower \<or> starts_with ''2002:'' lower \<or> starts_with ''2001:0:'' lower)
      else False)"

section \<open>URLs\<close>

definition PRIVATE_HOST_LABELS :: "string list" where
  "PRIVATE_HOST_LABELS = [''local'', ''internal'', ''home'', ''lan'', ''corp'', ''localhost'']"

definition strip_dots :: "string \<Rightarrow> string" where
  "strip_dots s = rev (dropWhile (\<lambda>c. c = CHR ''.'') (rev s))"

definition normalizeHost :: "string \<Rightarrow> string" where
  "normalizeHost hostname =
     (let lower = to_lower hostname;
          unbracketed = (if starts_with ''['' lower \<and> lower \<noteq> [] \<and> last lower = CHR '']''
                         then take (length lower - 2) (drop 1 lower) else lower)
      in strip_dots unbracketed)"

datatype dns_answer = Addresses "string list" | NotFound | DnsError

record response =
  rs_status :: nat
  rs_location :: "string option"

text \<open>
  What the code calls: the URL parser (protocol and host name), the resolution of a Location against
  the current URL, \<open>isIP(...) === 6\<close>, the two environment variables, and, for each hop, the resolver
  and HTTP (\<open>None\<close> when the request fails or times out).
\<close>

record net =
  url_parse :: "string \<Rightarrow> (string \<times> string) option"
  url_resolve :: "string \<Rightarrow> string \<Rightarrow> string option"
  is_ipv6 :: "string \<Rightarrow> bool"
  allow_private :: bool
  dns_check :: bool
  resolver :: "nat \<Rightarrow> string \<Rightarrow> dns_answer"
  http :: "nat \<Rightarrow> string \<Rightarrow> response option"

definition isWebhookUrlAllowed :: "net \<Rightarrow> string \<Rightarrow> bool" where
  "isWebhookUrlAllowed n rawUrl =
     (if allow_private n then True
      else case url_parse n rawUrl of
             None \<Rightarrow> False
           | Some (protocol, hostname) \<Rightarrow>
               if protocol \<noteq> ''http:'' \<and> protocol \<noteq> ''https:'' then False
               else let host = normalizeHost hostname
                    in if host = ''localhost'' \<or> last (split_on (CHR ''.'') host) \<in> set PRIVATE_HOST_LABELS then False
                       else case toIpv4Candidates host of
                              Some ips \<Rightarrow> list_all (\<lambda>ip. \<not> isPrivateIp (is_ipv6 n) ip) ips
                            | None \<Rightarrow>
                                if \<not> is_ipv4 host \<and> is_ipv6 n host
                                then (case ipv4FromMappedV6 host of
                                        Some embedded \<Rightarrow> \<not> isPrivateIp (is_ipv6 n) embedded
                                      | None \<Rightarrow> \<not> isPrivateIp (is_ipv6 n) host)
                                else True)"

datatype guard_error =
    UrlNotAllowed | InvalidUrl | HostNotFound string | ResolverFailed | ResolvesToPrivate string string
  | RequestFailed | NoLocation | InvalidLocation | TooManyRedirects | BadStatus nat

definition assertWebhookUrlAllowed :: "net \<Rightarrow> nat \<Rightarrow> string \<Rightarrow> guard_error + unit" where
  "assertWebhookUrlAllowed n hop rawUrl =
     (if \<not> isWebhookUrlAllowed n rawUrl then Inl UrlNotAllowed
      else if \<not> dns_check n then Inr ()
      else case url_parse n rawUrl of
             None \<Rightarrow> Inl InvalidUrl
           | Some (protocol, hostname) \<Rightarrow>
               let host = normalizeHost hostname
               in if toIpv4Candidates host \<noteq> None \<or> is_ipv4 host \<or> is_ipv6 n host then Inr ()
                  else case resolver n hop host of
                         NotFound \<Rightarrow> Inl (HostNotFound host)
                       | DnsError \<Rightarrow> Inl ResolverFailed
                       | Addresses as \<Rightarrow>
                           (case find (isPrivateIp (is_ipv6 n)) as of
                              Some a \<Rightarrow> Inl (ResolvesToPrivate host a) | None \<Rightarrow> Inr ()))"

definition MAX_REDIRECTS :: nat where
  "MAX_REDIRECTS = 5"

text \<open>
  The loop of \<open>fetchWithGuard\<close> from a hop on, with the number of iterations left: the requests made
  and the outcome.
\<close>

fun fetch_hops :: "net \<Rightarrow> nat \<Rightarrow> nat \<Rightarrow> string \<Rightarrow> (nat \<times> string) list \<times> (guard_error + response)" where
  "fetch_hops n hop 0 current = ([], Inl TooManyRedirects)"
| "fetch_hops n hop (Suc left) current =
     (case assertWebhookUrlAllowed n hop current of
        Inl e \<Rightarrow> ([], Inl e)
      | Inr _ \<Rightarrow>
          (case http n hop current of
             None \<Rightarrow> ([(hop, current)], Inl RequestFailed)
           | Some res \<Rightarrow>
               if 300 \<le> rs_status res \<and> rs_status res < 400
               then (case rs_location res of
                       None \<Rightarrow> ([(hop, current)], Inl NoLocation)
                     | Some location \<Rightarrow>
                         if location = [] then ([(hop, current)], Inl NoLocation)
                         else (case url_resolve n location current of
                                 None \<Rightarrow> ([(hop, current)], Inl InvalidLocation)
                               | Some next \<Rightarrow>
                                   (case fetch_hops n (Suc hop) left next of
                                      (reqs, out) \<Rightarrow> ((hop, current) # reqs, out))))
               else ([(hop, current)], Inr res)))"

definition fetchWithGuard :: "net \<Rightarrow> string \<Rightarrow> (nat \<times> string) list \<times> (guard_error + response)" where
  "fetchWithGuard n url = fetch_hops n 0 (MAX_REDIRECTS + 1) url"

definition signPayload :: "(string \<Rightarrow> string \<Rightarrow> string) \<Rightarrow> string \<Rightarrow> string \<Rightarrow> string" where
  "signPayload hmac secret body = hmac secret body"

definition telegramWebhookSlug :: "(string \<Rightarrow> string) \<Rightarrow> string \<Rightarrow> string \<Rightarrow> string" where
  "telegramWebhookSlug sha256 botId token = take 24 (sha256 (botId @ '':'' @ token))"

definition webhook_headers :: "(string \<Rightarrow> string \<Rightarrow> string) \<Rightarrow> string option \<Rightarrow> string \<Rightarrow> (string \<times> string) list" where
  "webhook_headers hmac secret body =
     [(''content-type'', ''application/json''), (''user-agent'', ''BotHive/1.0''), (''accept'', ''application/json'')] @
     (case secret of
        None \<Rightarrow> []
      | Some s \<Rightarrow> if s = [] then [] else [(''x-bothive-signature'', ''sha256='' @ signPayload hmac s body)])"

definition deliverWebhook :: "net \<Rightarrow> string \<Rightarrow> (nat \<times> string) list \<times> (guard_error + unit)" where
  "deliverWebhook n url =
     (case fetchWithGuard n url of
        (reqs, Inl e) \<Rightarrow> (reqs, Inl e)
      | (reqs, Inr res) \<Rightarrow>
          (reqs, if 200 \<le> rs_status res \<and> rs_status res \<le> 299 then Inr () else Inl (BadStatus (rs_status res))))"

section \<open>Octets\<close>

lemma octet_nat: "octet k v = unat v div 2 ^ k mod 256"
proof -
  have m: "(0xff :: 32 word) = mask 8" by (simp add: mask_eq_exp_minus_1)
  show ?thesis
    unfolding octet_def m take_bit_eq_mask [symmetric] unsigned_take_bit_eq unat_drop_bit_eq
    by (simp add: take_bit_eq_mod drop_bit_eq_div)
qed

lemma octet_div:
  "octet 24 v = unat v div 2 ^ 16 div 256" "octet 16 v = unat v div 2 ^ 16 mod 256" "octet k v < 256"
proof -
  note o = octet_nat
  have "unat v < 2 ^ 32" using unsigned_less [of v, where ?'a = nat] by simp
  then have "unat v div 2 ^ 24 < 256" by simp
  then show "octet 24 v = unat v div 2 ^ 16 div 256" by (simp add: o div_mult2_eq [symmetric])
  show "octet 16 v = unat v div 2 ^ 16 mod 256" "octet k v < 256" by (simp_all add: o)
qed

lemma octet_text: "all_digits (nat_text (octet k v))" "CHR ''.'' \<notin> set (nat_text (octet k v))"
  using nat_text_digits [of "octet k v"] digit_not by (auto simp: all_digits_def list_all_iff)

lemma split_uint32ToIpv4:
  "split_on (CHR ''.'') (uint32ToIpv4 v) = map (\<lambda>k. nat_text (octet k v)) [24, 16, 8, 0]"
  unfolding uint32ToIpv4_def by (rule split_join) (auto simp: octet_text)

lemma is_ipv4_uint32ToIpv4: "is_ipv4 (uint32ToIpv4 v)"
  using octet_div(3) [of _ v] by (simp add: is_ipv4_def split_uint32ToIpv4 octet_text Let_def less_Suc_eq_le [symmetric])

text \<open>The reserved blocks, as network and prefix length.\<close>

definition private_blocks :: "(32 word \<times> nat) list" where
  "private_blocks = [(0x00000000, 8), (0x0A000000, 8), (0x7F000000, 8), (0xA9FE0000, 16), (0xAC100000, 12),
     (0xC0A80000, 16), (0x64400000, 10), (0xE0000000, 3)]"

definition in_block :: "32 word \<Rightarrow> 32 word \<times> nat \<Rightarrow> bool" where
  "in_block v b = (drop_bit (32 - snd b) v = drop_bit (32 - snd b) (fst b))"

definition private_range :: "32 word \<Rightarrow> bool" where
  "private_range v = list_ex (in_block v) private_blocks"

lemma drop_bit_word: "drop_bit k v = w \<longleftrightarrow> unat v div 2 ^ k = unat w" for v w :: "32 word"
  unfolding word_unat_eq_iff unat_drop_bit_eq by (simp add: drop_bit_eq_div)

lemma block_arith:
  assumes "h < (65536 :: nat)"
  shows "h = 43518 \<longleftrightarrow> h div 256 = 169 \<and> h mod 256 = 254" (is ?A)
    and "h = 49320 \<longleftrightarrow> h div 256 = 192 \<and> h mod 256 = 168" (is ?B)
    and "h div 16 = 2753 \<longleftrightarrow> h div 256 = 172 \<and> 16 \<le> h mod 256 \<and> h mod 256 \<le> 31" (is ?C)
    and "h div 64 = 401 \<longleftrightarrow> h div 256 = 100 \<and> 64 \<le> h mod 256 \<and> h mod 256 \<le> 127" (is ?D)
    and "h div 8192 = 7 \<longleftrightarrow> 224 \<le> h div 256" (is ?E)
proof -
  define a b where "a = h div 256" and "b = h mod 256"
  have h: "h = a * 256 + b" and b: "b < 256" by (simp_all add: a_def b_def)
  then have a: "a < 256" using assms by simp
  have ab: "h div 256 = a" "h mod 256 = b" by (simp_all add: a_def b_def)
  have d16: "h div 16 = a * 16 + b div 16" and d64: "h div 64 = a * 4 + b div 64" unfolding h by simp_all
  have d32: "h div 8192 = a div 32" by (simp add: a_def div_mult2_eq [symmetric])
  have q: "b div 16 = 1 \<longleftrightarrow> 16 \<le> b \<and> b \<le> 31" "b div 64 = 1 \<longleftrightarrow> 64 \<le> b \<and> b \<le> 127" "a div 32 = 7 \<longleftrightarrow> 224 \<le> a" using a by auto
  have lt: "b div 16 < 16" "b div 64 < 4" using b by auto
  have e: "a * 16 + q = 2753 \<longleftrightarrow> a = 172 \<and> q = 1" if "q < 16" for q using that by presburger
  have e': "a * 4 + q = 401 \<longleftrightarrow> a = 100 \<and> q = 1" if "q < 4" for q using that by presburger
  have "a * 16 + b div 16 = 2753 \<longleftrightarrow> a = 172 \<and> b div 16 = 1" "a * 4 + b div 64 = 401 \<longleftrightarrow> a = 100 \<and> b div 64 = 1"
    using e [OF lt(1)] e' [OF lt(2)] by auto
  then show ?C ?D ?E unfolding ab d16 d64 d32 q by simp_all
  have "h = k * 256 + l \<longleftrightarrow> a = k \<and> b = l" if "l < 256" for k l
  proof
    assume "h = k * 256 + l"
    with that ab show "a = k \<and> b = l" by simp
  qed (simp add: h)
  from this [of 254 169] this [of 168 192] show ?A ?B unfolding ab by simp_all
qed

lemma private_v4_range: "private_v4 (octet 24 v) (octet 16 v) = private_range v"
proof -
  define h where "h = unat v div 2 ^ 16"
  have n: "unat v < 2 ^ 32" using unsigned_less [of v, where ?'a = nat] by simp
  then have h: "h < 65536" unfolding h_def by simp
  have "private_range v \<longleftrightarrow> h div 256 = 0 \<or> h div 256 = 10 \<or> h div 256 = 127 \<or> h = 43518 \<or> h div 16 = 2753 \<or>
      h = 49320 \<or> h div 64 = 401 \<or> h div 8192 = 7"
    by (simp add: private_range_def private_blocks_def in_block_def)
      (simp add: drop_bit_word h_def div_mult2_eq [symmetric])
  also have "\<dots> \<longleftrightarrow> private_v4 (h div 256) (h mod 256)"
  proof -
    show ?thesis unfolding private_v4_def block_arith [OF h] by blast
  qed
  finally show ?thesis by (simp add: octet_div h_def)
qed

lemma isPrivateIp_v4: "isPrivateIp v6 (uint32ToIpv4 v) = private_range v"
proof -
  have "uint32ToIpv4 v \<noteq> []" using is_ipv4_uint32ToIpv4 [of v] by (auto simp: is_ipv4_def)
  then show ?thesis
    by (simp add: isPrivateIp_def is_ipv4_uint32ToIpv4 private_v4_text_def split_uint32ToIpv4 Let_def private_v4_range)
qed

section \<open>Notations\<close>

text \<open>The ways in which a host name can spell the address \<open>v\<close>.\<close>

inductive denotes :: "string \<Rightarrow> 32 word \<Rightarrow> bool" where
  decimal: "all_digits s \<Longrightarrow> parse_dec s = unat v \<Longrightarrow> denotes s v"
| hexadecimal: "all_hex s \<Longrightarrow> parse_hex s = unat v \<Longrightarrow> denotes (''0x'' @ s) v"
| dotted: "denotes (uint32ToIpv4 v) v"
| mapped_dotted: "denotes (''::ffff:'' @ uint32ToIpv4 v) v"
| mapped_hex: "all_hex a \<Longrightarrow> length a \<le> 4 \<Longrightarrow> all_hex b \<Longrightarrow> length b \<le> 4 \<Longrightarrow>
    unat v = parse_hex a * 65536 + parse_hex b \<Longrightarrow> denotes (''::ffff:'' @ a @ '':'' @ b) v"

inductive_cases denotes_elim: "denotes h v"

lemma unat_le_max: "unat (v :: 32 word) \<le> 0xffffffff"
  using unsigned_less [of v, where ?'a = nat] by simp

lemma to_lower_digits: "list_all is_hex s \<Longrightarrow> to_lower s = s"
  by (induction s) (auto simp: to_lower_def lower_hex)

lemma digits_hex: "list_all is_digit s \<Longrightarrow> list_all is_hex s"
  by (simp add: list_all_iff is_hex_def)

lemma candidates_decimal:
  "all_digits s \<Longrightarrow> parse_dec s = unat v \<Longrightarrow> toIpv4Candidates s = Some [uint32ToIpv4 v]"
  using unat_le_max [of v] to_lower_digits [OF digits_hex, of s]
  by (simp add: toIpv4Candidates_def all_digits_def Let_def)

lemma candidates_hex:
  assumes "all_hex s" and "parse_hex s = unat v"
  shows "toIpv4Candidates (''0x'' @ s) = Some [uint32ToIpv4 v]"
proof -
  have "to_lower (''0x'' @ s) = ''0x'' @ s"
    using to_lower_digits [of s] assms(1) by (simp add: all_hex_def to_lower_def lower_char_def)
  moreover have "\<not> all_digits (''0x'' @ s)" by (simp add: all_digits_def is_digit_def)
  ultimately show ?thesis
    using assms unat_le_max [of v] by (simp add: toIpv4Candidates_def Let_def strip_prefix_def)
qed

lemma quad_chars: "c \<in> set (uint32ToIpv4 v) \<Longrightarrow> is_digit c \<or> c = CHR ''.''"
  using octet_text(1) [of _ v] by (auto simp: uint32ToIpv4_def all_digits_def list_all_iff)

lemma lower_quad: "to_lower (uint32ToIpv4 v) = uint32ToIpv4 v"
  unfolding to_lower_def by (intro map_idI) (auto dest!: quad_chars simp: lower_digit, simp add: lower_char_def)

lemma quad_short: "list_all short_digits (split_on (CHR ''.'') (uint32ToIpv4 v))"
proof -
  have "octet k v < 1000" for k using octet_div(3) [of k v] by simp
  then show ?thesis by (simp add: split_uint32ToIpv4 short_digits_def octet_text length_nat_text)
qed

lemma octets_value: "((octet 24 v * 256 + octet 16 v) * 256 + octet 8 v) * 256 + octet 0 v = unat v"
proof -
  define n where "n = unat v"
  have "n < 2 ^ 32" unfolding n_def using unsigned_less [of v, where ?'a = nat] by simp
  then have top: "n div 256 div 256 div 256 mod 256 = n div 256 div 256 div 256" by simp
  have o: "octet 24 v = n div 256 div 256 div 256 mod 256" "octet 16 v = n div 256 div 256 mod 256"
    "octet 8 v = n div 256 mod 256" "octet 0 v = n mod 256"
    by (simp_all add: octet_nat n_def div_mult2_eq [symmetric])
  show ?thesis unfolding o top n_def [symmetric] by (simp only: div_mult_mod_eq)
qed

lemma candidates_dotted: "toIpv4Candidates (uint32ToIpv4 v) = Some [uint32ToIpv4 v]"
proof -
  have s: "split_on (CHR ''.'') (uint32ToIpv4 v) = map (\<lambda>k. nat_text (octet k v)) [24, 16, 8, 0]"
    by (rule split_uint32ToIpv4)
  have dot: "CHR ''.'' \<in> set (uint32ToIpv4 v)"
    by (simp add: uint32ToIpv4_def)
  then have "\<not> all_digits (uint32ToIpv4 v)" using digit_not by (auto simp: all_digits_def list_all_iff)
  moreover have "strip_prefix ''0x'' (uint32ToIpv4 v) = None"
  proof (rule ccontr)
    assume "strip_prefix ''0x'' (uint32ToIpv4 v) \<noteq> None"
    then have "take 2 (uint32ToIpv4 v) = ''0x''" by (simp add: strip_prefix_def numeral_2_eq_2 split: if_splits)
    then have "CHR ''x'' \<in> set (take 2 (uint32ToIpv4 v))" by simp
    then have "CHR ''x'' \<in> set (uint32ToIpv4 v)" by (rule in_set_takeD)
    from quad_chars [OF this] show False using digit_not by blast
  qed
  moreover have "\<not> list_ex (\<lambda>n. n > 255) (map parse_dec (split_on (CHR ''.'') (uint32ToIpv4 v)))"
    using octet_div(3) [of _ v] by (auto simp: s not_less less_Suc_eq_le [symmetric])
  moreover have "foldl (\<lambda>value n. value * 256 + n) 0 (map parse_dec (split_on (CHR ''.'') (uint32ToIpv4 v))) = unat v"
    using octets_value [of v] by (simp add: s)
  moreover have "length (split_on (CHR ''.'') (uint32ToIpv4 v)) = 4" by (simp add: s)
  ultimately show ?thesis
    using dot quad_short [of v] unat_le_max [of v]
    by (simp add: toIpv4Candidates_def lower_quad Let_def)
qed

lemma split_on_prefix:
  "z \<notin> set p \<Longrightarrow> split_on z (p @ s) = (p @ hd (split_on z s)) # tl (split_on z s)"
proof (induction p)
  case Nil
  then show ?case by (cases "split_on z s") auto
next
  case (Cons c p)
  then show ?case by auto
qed

lemma split_mapped:
  "split_on (CHR ''.'') (''::ffff:'' @ uint32ToIpv4 v) =
     (''::ffff:'' @ nat_text (octet 24 v)) # map (\<lambda>k. nat_text (octet k v)) [16, 8, 0]"
  by (subst split_on_prefix) (simp_all add: split_uint32ToIpv4)

lemma lower_mapped: "to_lower (''::ffff:'' @ s) = ''::ffff:'' @ to_lower s"
  by (simp add: to_lower_def lower_char_def)

lemma colon_not_digits: "CHR '':'' \<in> set s \<Longrightarrow> \<not> all_digits s"
  using digit_not by (auto simp: all_digits_def list_all_iff)

lemma mapped_not_candidate: "toIpv4Candidates (''::ffff:'' @ uint32ToIpv4 v) = None"
proof -
  have "\<not> list_all short_digits (split_on (CHR ''.'') (''::ffff:'' @ uint32ToIpv4 v))"
    unfolding split_mapped by (simp add: short_digits_def colon_not_digits)
  then show ?thesis
    unfolding toIpv4Candidates_def Let_def lower_mapped lower_quad
    using colon_not_digits [of "''::ffff:'' @ uint32ToIpv4 v"] by (simp add: strip_prefix_def)
qed

lemma mapped_embedded: "ipv4FromMappedV6 (''::ffff:'' @ uint32ToIpv4 v) = Some (uint32ToIpv4 v)"
proof -
  have "dotted_quad (uint32ToIpv4 v) = Some (split_on (CHR ''.'') (uint32ToIpv4 v))"
    using quad_short [of v] by (simp add: dotted_quad_def split_uint32ToIpv4)
  moreover have "quad_octets (split_on (CHR ''.'') (uint32ToIpv4 v)) = Some (uint32ToIpv4 v)"
    using octet_div(3) [of _ v]
    by (simp add: quad_octets_def split_uint32ToIpv4 less_Suc_eq_le [symmetric]) (simp add: uint32ToIpv4_def)
  ultimately show ?thesis
    unfolding ipv4FromMappedV6_def Let_def lower_mapped lower_quad by (simp add: strip_prefix_def)
qed

lemma mapped_not_v4: "\<not> is_ipv4 (''::ffff:'' @ uint32ToIpv4 v)"
  unfolding is_ipv4_def Let_def split_mapped by (simp add: colon_not_digits)

text \<open>The form in which the URL parser writes a mapped address.\<close>

lemma hex_not_sep: "is_hex c \<Longrightarrow> c \<noteq> CHR ''.'' \<and> c \<noteq> CHR '':''"
  by (auto simp: is_hex_def is_digit_def)

lemma parse_hex_bound: "list_all is_hex s \<Longrightarrow> parse_hex s < 16 ^ length s"
proof (induction s rule: rev_induct)
  case (snoc c s)
  have "hex_value c < 16" using snoc.prems by (auto simp: hex_value_def is_hex_def is_digit_def)
  with snoc show ?case by (simp add: parse_hex_def)
qed (simp add: parse_hex_def)

lemma hex4_bound: "all_hex s \<Longrightarrow> length s \<le> 4 \<Longrightarrow> parse_hex s < 65536"
proof -
  assume "all_hex s" "length s \<le> 4"
  then have "parse_hex s < 16 ^ length s" "(16::nat) ^ length s \<le> 16 ^ 4"
    using power_increasing [of "length s" 4 "16 :: nat"] by (simp_all add: all_hex_def parse_hex_bound)
  then show ?thesis by simp
qed

lemma word16: "n < 65536 \<Longrightarrow> (of_nat n :: 32 word) AND 0xffff = of_nat n"
proof -
  assume n: "n < 65536"
  have "(0xffff :: 32 word) = mask 16" by (simp add: mask_eq_exp_minus_1)
  then have "(of_nat n :: 32 word) AND 0xffff = of_nat (take_bit 16 n)"
    by (simp only: take_bit_eq_mask [symmetric] take_bit_of_nat)
  with n show ?thesis by (simp add: take_bit_eq_mod)
qed

lemma hex_pair_value:
  assumes a: "all_hex a" "length a \<le> 4" and b: "all_hex b" "length b \<le> 4"
    and v: "unat v = parse_hex a * 65536 + parse_hex b"
  shows "hex_pair (a @ '':'' @ b) = Some v"
proof -
  have "split_on (CHR '':'') (a @ '':'' @ b) = [a, b]"
  proof -
    have "CHR '':'' \<notin> set a" "CHR '':'' \<notin> set b"
      using a(1) b(1) hex_not_sep by (auto simp: all_hex_def list_all_iff)
    then show ?thesis by (simp add: split_on_append split_on_none)
  qed
  moreover have "push_bit 16 (of_nat (parse_hex a) AND 0xffff) + (of_nat (parse_hex b) AND 0xffff) = v"
  proof -
    have "v = of_nat (unat v)" by simp
    also have "\<dots> = of_nat (parse_hex a) * 65536 + of_nat (parse_hex b)" unfolding v by simp
    finally show ?thesis
      using hex4_bound [OF a] hex4_bound [OF b] by (simp add: word16 push_bit_eq_mult)
  qed
  ultimately show ?thesis using a b by (simp add: hex_pair_def)
qed

lemma mapped_hex_facts:
  assumes a: "all_hex a" "length a \<le> 4" and b: "all_hex b" "length b \<le> 4"
    and v: "unat v = parse_hex a * 65536 + parse_hex b" and h: "h = ''::ffff:'' @ a @ '':'' @ b"
  shows "toIpv4Candidates h = None" and "ipv4FromMappedV6 h = Some (uint32ToIpv4 v)"
    and "split_on (CHR ''.'') h = [h]" and "\<not> is_ipv4 h"
proof -
  have low: "to_lower h = h"
    using to_lower_digits [of a] to_lower_digits [of b] a b
    by (simp add: h all_hex_def to_lower_def lower_char_def)
  have dot: "CHR ''.'' \<notin> set h"
    using a b hex_not_sep by (auto simp: h all_hex_def list_all_iff)
  then show s: "split_on (CHR ''.'') h = [h]" by (rule split_on_none)
  then show "\<not> is_ipv4 h" by (simp add: is_ipv4_def)
  have "\<not> all_digits h" by (rule colon_not_digits) (simp add: h)
  moreover have "strip_prefix ''0x'' h = None" by (simp add: h strip_prefix_def)
  ultimately show "toIpv4Candidates h = None" using dot by (simp add: toIpv4Candidates_def low Let_def)
  have "CHR ''.'' \<notin> set (a @ '':'' @ b)" using dot by (simp add: h)
  then have "dotted_quad (a @ '':'' @ b) = None" unfolding dotted_quad_def by (subst split_on_none) simp_all
  moreover have "strip_prefix ''::ffff:'' h = Some (a @ '':'' @ b)" unfolding h by (rule strip_prefix_append)
  ultimately show "ipv4FromMappedV6 h = Some (uint32ToIpv4 v)"
    using hex_pair_value [OF a b v] by (simp add: ipv4FromMappedV6_def low Let_def)
qed

lemma not_private_label: "h \<noteq> [] \<Longrightarrow> \<not> list_ex (\<lambda>c. 97 \<le> (of_char c :: nat)) (take 1 h) \<Longrightarrow> h \<notin> set PRIVATE_HOST_LABELS"
  by (cases h) (auto simp: PRIVATE_HOST_LABELS_def)

lemma digits_not_label: "all_digits s \<Longrightarrow> s \<notin> set PRIVATE_HOST_LABELS"
  by (rule not_private_label) (auto simp: all_digits_def is_digit_def neq_Nil_conv)

lemma denotes_host:
  assumes "denotes h v" and v6: "CHR '':'' \<in> set h \<longrightarrow> is_ipv6 n h"
  shows "last (split_on (CHR ''.'') h) \<notin> set PRIVATE_HOST_LABELS \<and> h \<noteq> ''localhost'' \<and>
    (toIpv4Candidates h = Some [uint32ToIpv4 v] \<or>
     (toIpv4Candidates h = None \<and> \<not> is_ipv4 h \<and> is_ipv6 n h \<and> ipv4FromMappedV6 h = Some (uint32ToIpv4 v)))"
  using assms(1)
proof (cases rule: denotes.cases)
  case decimal
  then have "split_on (CHR ''.'') h = [h]"
    using digit_not by (intro split_on_none) (auto simp: all_digits_def list_all_iff)
  with decimal digits_not_label [of h] show ?thesis
    by (auto simp: candidates_decimal PRIVATE_HOST_LABELS_def)
next
  case (hexadecimal s)
  then have "split_on (CHR ''.'') h = [h]"
    using hex_not_sep by (intro split_on_none) (auto simp: all_hex_def list_all_iff)
  moreover have "h \<notin> set PRIVATE_HOST_LABELS" by (rule not_private_label) (simp_all add: hexadecimal)
  ultimately show ?thesis using candidates_hex [of s v] hexadecimal by (auto simp: PRIVATE_HOST_LABELS_def)
next
  case dotted
  then have "split_on (CHR ''.'') h = map (\<lambda>k. nat_text (octet k v)) [24, 16, 8, 0]" by (simp add: split_uint32ToIpv4)
  moreover have "h \<noteq> ''localhost''" using quad_chars [of "CHR ''l''" v] by (auto simp: dotted is_digit_def)
  ultimately show ?thesis using candidates_dotted [of v] digits_not_label octet_text(1) by (simp add: dotted)
next
  case mapped_dotted
  then have "last (split_on (CHR ''.'') h) = nat_text (octet 0 v)" by (simp only: split_mapped) simp
  moreover have "is_ipv6 n h" using v6 by (simp add: mapped_dotted)
  ultimately show ?thesis
    using mapped_not_candidate [of v] mapped_embedded [of v] mapped_not_v4 [of v] digits_not_label octet_text(1)
    by (simp add: mapped_dotted)
next
  case (mapped_hex a b)
  have "is_ipv6 n h" using v6 by (simp add: mapped_hex(1))
  moreover have "h \<notin> set PRIVATE_HOST_LABELS" by (rule not_private_label) (simp_all add: mapped_hex(1))
  ultimately show ?thesis
    using mapped_hex_facts [OF mapped_hex(2-6) mapped_hex(1)] mapped_hex(1) by (simp add: PRIVATE_HOST_LABELS_def)
qed

section \<open>Properties\<close>


definition demo_net :: net where
  "demo_net = \<lparr>url_parse = (\<lambda>u. Some (''http:'', u)), url_resolve = (\<lambda>l c. Some l), is_ipv6 = (\<lambda>h. CHR '':'' \<in> set h),
     allow_private = False, dns_check = True, resolver = (\<lambda>_ _. Addresses [''93.184.216.34'']),
     http = (\<lambda>hop u. Some \<lparr>rs_status = 302, rs_location = Some ''2130706433''\<rparr>)\<rparr>"


text \<open>What has been checked of a URL when it is requested at a hop.\<close>

definition hop_checked :: "net \<Rightarrow> nat \<times> string \<Rightarrow> bool" where
  "hop_checked n r =
     (case r of (hop, u) \<Rightarrow>
        isWebhookUrlAllowed n u \<and>
        (\<not> dns_check n \<or>
          (case url_parse n u of
             None \<Rightarrow> False
           | Some (protocol, hostname) \<Rightarrow>
               let host = normalizeHost hostname
               in toIpv4Candidates host \<noteq> None \<or> is_ipv4 host \<or> is_ipv6 n host \<or>
                  (case resolver n hop host of
                     Addresses as \<Rightarrow> list_all (\<lambda>a. \<not> isPrivateIp (is_ipv6 n) a) as | _ \<Rightarrow> False))))"

lemma assert_checked: "assertWebhookUrlAllowed n hop u = Inr () \<Longrightarrow> hop_checked n (hop, u)"
  by (auto simp: assertWebhookUrlAllowed_def hop_checked_def Let_def find_None_iff list_all_iff
      split: if_splits option.splits dns_answer.splits)

lemma fetch_hops_spec:
  "list_all (hop_checked n) (fst (fetch_hops n hop left u)) \<and> length (fst (fetch_hops n hop left u)) \<le> left \<and>
   map fst (fst (fetch_hops n hop left u)) = [hop..<hop + length (fst (fetch_hops n hop left u))] \<and>
   (case snd (fetch_hops n hop left u) of Inl e \<Rightarrow> True | Inr res \<Rightarrow> \<not> (300 \<le> rs_status res \<and> rs_status res < 400))"
proof (induction n hop left u rule: fetch_hops.induct)
  case (2 n hop left current)
  show ?case
  proof (cases "assertWebhookUrlAllowed n hop current")
    case (Inr x)
    then have c: "hop_checked n (hop, current)" by (intro assert_checked) simp
    show ?thesis
    proof (cases "http n hop current")
      case (Some res)
      show ?thesis
      proof (cases "300 \<le> rs_status res \<and> rs_status res < 400")
        case True
        show ?thesis
        proof (cases "\<exists>location next. rs_location res = Some location \<and> location \<noteq> [] \<and> url_resolve n location current = Some next")
          case True
          then obtain location nxt where "rs_location res = Some location" "location \<noteq> []"
            "url_resolve n location current = Some nxt" by blast
          note L = this
          obtain reqs out where f: "fetch_hops n (Suc hop) left nxt = (reqs, out)" by fastforce
          have "list_all (hop_checked n) reqs \<and> length reqs \<le> left \<and> map fst reqs = [Suc hop..<Suc hop + length reqs] \<and>
              (case out of Inl e \<Rightarrow> True | Inr res \<Rightarrow> \<not> (300 \<le> rs_status res \<and> rs_status res < 400))"
            using 2 [OF Inr Some \<open>300 \<le> rs_status res \<and> rs_status res < 400\<close> L(1,2,3)] unfolding f fst_conv snd_conv .
          moreover have "fetch_hops n hop (Suc left) current = ((hop, current) # reqs, out)"
            using Inr Some L f \<open>300 \<le> rs_status res \<and> rs_status res < 400\<close> by simp
          ultimately show ?thesis
            using c unfolding \<open>fetch_hops n hop (Suc left) current = _\<close> fst_conv snd_conv
            by (simp add: upt_conv_Cons del: upt_Suc)
        next
          case False
          with Inr Some c \<open>300 \<le> rs_status res \<and> rs_status res < 400\<close> show ?thesis
            by (auto split: option.split)
        qed
      next
        case False
        with Inr Some c show ?thesis by auto
      qed
    qed (simp add: Inr c)
  qed simp
qed simp

text \<open>
  C14. Every hop is guarded: a guarded fetch makes at most six requests, one per hop in order, and each
  of them, redirect targets included, was checked for that very hop: the literal guard passed and,
  unless the check is switched off, the host is an address or resolved at that hop to public addresses
  only; what it returns is never a redirect.
\<close>

theorem every_hop_guarded:
  "list_all (hop_checked n) (fst (fetchWithGuard n url)) \<and> length (fst (fetchWithGuard n url)) \<le> 6 \<and>
   map fst (fst (fetchWithGuard n url)) = [0..<length (fst (fetchWithGuard n url))] \<and>
   (case snd (fetchWithGuard n url) of
      Inl e \<Rightarrow> True | Inr res \<Rightarrow> rs_status res < 300 \<or> 400 \<le> rs_status res)"
  using fetch_hops_spec [of n 0 "MAX_REDIRECTS + 1" url]
  by (simp add: fetchWithGuard_def MAX_REDIRECTS_def not_less not_le split: sum.splits)

end
