(* ===== verification/Strategies.thy ===== *)
theory Strategies
  imports Json
begin

text \<open>
  The trading strategies, packages/core/src/crypto/strategies.ts, on binary64 numbers. Strategy
  parameters are JSON as the user supplied them. The text of a signal's reason is kept as the values
  it shows.
\<close>

datatype strategy_kind = Sma | Rsi | Alert

datatype direction = Buy | Sell

datatype signal_reason = SmaCross jsnum jsnum | RsiCrossed jsnum jsnum | BrokeThreshold direction

record strategy_signal =
  sg_direction :: direction
  sg_reason :: signal_reason
  sg_price :: jsnum

fun num_nat :: "jsnum \<Rightarrow> nat" where
  "num_nat (Num x) = nat \<lfloor>x\<rfloor>"
| "num_nat _ = 0"

definition sma :: "jsnum list \<Rightarrow> jsnum \<Rightarrow> jsnum option" where
  "sma values period =
     (if \<not> is_integer period \<or> jlt period (Num 1) then None
      else if length values < num_nat period then None
      else Some (jdiv (foldl jadd (Num 0) (drop (length values - num_nat period) values)) period))"

definition smaCross :: "jsnum list \<Rightarrow> jsnum \<Rightarrow> jsnum \<Rightarrow> direction option" where
  "smaCross closes fast slow =
     (if \<not> is_integer fast \<or> \<not> is_integer slow \<or> jlt fast (Num 1) \<or> jge fast slow then None
      else if length closes < num_nat slow + 1 then None
      else case (sma (butlast closes) fast, sma (butlast closes) slow, sma closes fast, sma closes slow) of
             (Some prevFast, Some prevSlow, Some curFast, Some curSlow) \<Rightarrow>
               if jle prevFast prevSlow \<and> jgt curFast curSlow then Some Buy
               else if jge prevFast prevSlow \<and> jlt curFast curSlow then Some Sell
               else None
           | _ \<Rightarrow> None)"

text \<open>The differences of neighbours, first to last.\<close>

definition diffs :: "jsnum list \<Rightarrow> jsnum list" where
  "diffs closes = map2 jsub (tl closes) closes"

definition rsi_seed :: "jsnum list \<Rightarrow> jsnum \<times> jsnum" where
  "rsi_seed ds =
     foldl (\<lambda>(gain, loss) d. if jge d (Num 0) then (jadd gain d, loss) else (gain, jsub loss d)) (Num 0, Num 0) ds"

definition rsi_smooth :: "jsnum \<Rightarrow> jsnum \<times> jsnum \<Rightarrow> jsnum \<Rightarrow> jsnum \<times> jsnum" where
  "rsi_smooth period avg diff =
     (case avg of (avgGain, avgLoss) \<Rightarrow>
        let gain = (if jge diff (Num 0) then diff else Num 0);
            loss = (if jlt diff (Num 0) then jneg diff else Num 0)
        in (jdiv (jadd (jmul avgGain (jsub period (Num 1))) gain) period,
            jdiv (jadd (jmul avgLoss (jsub period (Num 1))) loss) period))"

definition rsi_value :: "jsnum \<times> jsnum \<Rightarrow> jsnum" where
  "rsi_value avg =
     (case avg of (avgGain, avgLoss) \<Rightarrow>
        if avgLoss = Num 0 then (if avgGain = Num 0 then Num 50 else Num 100)
        else jsub (Num 100) (jdiv (Num 100) (jadd (Num 1) (jdiv avgGain avgLoss))))"

definition rsi :: "jsnum list \<Rightarrow> jsnum \<Rightarrow> jsnum option" where
  "rsi closes period =
     (if \<not> is_integer period \<or> jlt period (Num 2) then None
      else if length closes < num_nat period + 1 then None
      else let ds = diffs closes;
               seed = (case rsi_seed (take (num_nat period) ds) of (g, l) \<Rightarrow> (jdiv g period, jdiv l period))
           in Some (rsi_value (foldl (rsi_smooth period) seed (drop (num_nat period) ds))))"

definition rsiSignal :: "jsnum list \<Rightarrow> jsnum \<Rightarrow> jsnum \<Rightarrow> jsnum \<Rightarrow> direction option" where
  "rsiSignal closes period oversold overbought =
     (case rsi closes period of
        None \<Rightarrow> None
      | Some v \<Rightarrow> if jle v oversold then Some Buy else if jge v overbought then Some Sell else None)"

definition alertSignal :: "jsnum \<Rightarrow> jsnum \<Rightarrow> jsnum option \<Rightarrow> jsnum option \<Rightarrow> direction option" where
  "alertSignal current previous upThreshold downThreshold =
     (if (case upThreshold of None \<Rightarrow> False | Some u \<Rightarrow> jle previous u \<and> jgt current u) then Some Buy
      else if (case downThreshold of None \<Rightarrow> False | Some d \<Rightarrow> jge previous d \<and> jlt current d) then Some Sell
      else None)"

section \<open>Parameters\<close>

fun json_integer :: "json \<Rightarrow> bool" where
  "json_integer (JNum n) = is_integer n"
| "json_integer _ = False"

fun json_finite :: "json \<Rightarrow> bool" where
  "json_finite (JNum n) = is_finite n"
| "json_finite _ = False"

text \<open>The number of a value that the caller has checked to be one.\<close>

fun json_num :: "json \<Rightarrow> jsnum" where
  "json_num (JNum n) = n"
| "json_num _ = NaN"

definition problem_if :: "bool \<Rightarrow> string \<Rightarrow> string list" where
  "problem_if b msg = (if b then [msg] else [])"

definition sma_problems :: "json \<Rightarrow> string list" where
  "sma_problems p =
     (let fast = get_prop p ''fastPeriod''; slow = get_prop p ''slowPeriod''
      in problem_if (fast \<noteq> JUndef \<and> (\<not> json_integer fast \<or> jlt (json_num fast) (Num 1)))
           ''sma.fastPeriod must be a positive integer'' @
         problem_if (slow \<noteq> JUndef \<and> (\<not> json_integer slow \<or> jlt (json_num slow) (Num 2)))
           ''sma.slowPeriod must be an integer of at least 2'' @
         problem_if (json_integer fast \<and> json_integer slow \<and> jle (json_num slow) (json_num fast))
           ''sma.slowPeriod must be greater than fastPeriod'')"

definition rsi_problems :: "json \<Rightarrow> string list" where
  "rsi_problems p =
     (let period = get_prop p ''period''; os = get_prop p ''oversold''; ob = get_prop p ''overbought'';
          bad = (\<lambda>v. v \<noteq> JUndef \<and> (\<not> json_finite v \<or> jle (json_num v) (Num 0) \<or> jge (json_num v) (Num 100)))
      in problem_if (period \<noteq> JUndef \<and> (\<not> json_integer period \<or> jlt (json_num period) (Num 2)))
           ''rsi.period must be an integer of at least 2'' @
         problem_if (bad os) ''rsi.oversold must be between 0 and 100'' @
         problem_if (bad ob) ''rsi.overbought must be between 0 and 100'' @
         problem_if (json_finite os \<and> json_finite ob \<and> jge (json_num os) (json_num ob))
           ''rsi.oversold must be lower than overbought'')"

definition alert_problems :: "json \<Rightarrow> string list" where
  "alert_problems p =
     (let up = get_prop p ''upThreshold''; down = get_prop p ''downThreshold''
      in problem_if (up \<noteq> JUndef \<and> (\<not> json_finite up \<or> jle (json_num up) (Num 0)))
           ''alert.upThreshold must be a positive number'' @
         problem_if (down \<noteq> JUndef \<and> (\<not> json_finite down \<or> jle (json_num down) (Num 0)))
           ''alert.downThreshold must be a positive number'' @
         problem_if (json_finite up \<and> json_finite down \<and> jle (json_num up) (json_num down))
           ''alert.upThreshold must be greater than downThreshold'')"

definition exit_problems :: "json \<Rightarrow> string list" where
  "exit_problems p = concat (map (\<lambda>key.
     problem_if (get_prop p key \<noteq> JUndef \<and> (\<not> json_finite (get_prop p key) \<or> jlt (json_num (get_prop p key)) (Num 0)))
       (key @ '' must be a non-negative number'')) [''stopLossPct'', ''takeProfitPct'', ''trailingStopPct''])"

definition validateStrategyParams :: "strategy_kind \<Rightarrow> json \<Rightarrow> string list" where
  "validateStrategyParams kind params =
     (if \<not> truthy params then []
      else (case kind of Sma \<Rightarrow> sma_problems params | Rsi \<Rightarrow> rsi_problems params | Alert \<Rightarrow> alert_problems params) @
        exit_problems params)"

definition numberParam :: "json \<Rightarrow> jsnum \<Rightarrow> jsnum" where
  "numberParam v fallback = (if json_finite v then json_num v else fallback)"

definition evaluateStrategy ::
  "strategy_kind \<Rightarrow> json \<Rightarrow> jsnum list \<Rightarrow> jsnum \<Rightarrow> jsnum \<Rightarrow> strategy_signal option" where
  "evaluateStrategy kind params closes currentPrice previousPrice =
     (case kind of
        Sma \<Rightarrow>
          (let fast = jfloor (numberParam (get_prop params ''fastPeriod'') (Num 9));
               slow = jfloor (numberParam (get_prop params ''slowPeriod'') (Num 21))
           in map_option (\<lambda>d. \<lparr>sg_direction = d, sg_reason = SmaCross fast slow, sg_price = currentPrice\<rparr>)
                (smaCross closes fast slow))
      | Rsi \<Rightarrow>
          (let period = jfloor (numberParam (get_prop params ''period'') (Num 14));
               oversold = numberParam (get_prop params ''oversold'') (Num 30);
               overbought = numberParam (get_prop params ''overbought'') (Num 70)
           in case (rsiSignal closes period oversold overbought, rsi closes period) of
                (Some d, Some v) \<Rightarrow> Some \<lparr>sg_direction = d,
                   sg_reason = RsiCrossed v (if d = Buy then oversold else overbought), sg_price = currentPrice\<rparr>
              | _ \<Rightarrow> None)
      | Alert \<Rightarrow>
          (let up = numberParam (get_prop params ''upThreshold'') NaN;
               down = numberParam (get_prop params ''downThreshold'') NaN;
               opt = (\<lambda>x. if is_finite x then Some x else None)
           in map_option (\<lambda>d. \<lparr>sg_direction = d, sg_reason = BrokeThreshold d, sg_price = currentPrice\<rparr>)
                (alertSignal currentPrice previousPrice (opt up) (opt down))))"

section \<open>The range of the RSI\<close>

text \<open>A number that is not negative, or not a number.\<close>

definition nonneg :: "jsnum \<Rightarrow> bool" where
  "nonneg v \<longleftrightarrow> v = NaN \<or> v = Infty \<or> (\<exists>x \<ge> 0. v = Num x)"

lemma nonneg_simps [simp]: "nonneg NaN" "nonneg Infty" "\<not> nonneg NegInfty" "nonneg (Num x) \<longleftrightarrow> 0 \<le> x"
  by (auto simp: nonneg_def)

lemma nonneg_mk_num [intro]: "0 \<le> x \<Longrightarrow> nonneg (mk_num x)"
  using mk_num_nonneg [of x] by auto

lemma nonneg_jadd: "nonneg a \<Longrightarrow> nonneg b \<Longrightarrow> nonneg (jadd a b)"
  by (cases a; cases b) auto

lemma nonneg_jmul: "nonneg a \<Longrightarrow> nonneg b \<Longrightarrow> nonneg (jmul a b)"
  by (cases a; cases b) (auto simp: signed_inf_def)

lemma nonneg_jdiv: "nonneg a \<Longrightarrow> nonneg b \<Longrightarrow> nonneg (jdiv a b)"
  by (cases a; cases b) (auto simp: signed_inf_def)

lemma nonneg_loss: "nonneg l \<Longrightarrow> \<not> jge d (Num 0) \<Longrightarrow> nonneg (jsub l d)"
  by (cases l; cases d) (auto simp: jsub_def)

lemma nonneg_ge0: "jge d (Num 0) \<Longrightarrow> nonneg d"
  by (cases d) auto

lemma nonneg_neg: "jlt d (Num 0) \<Longrightarrow> nonneg (jneg d)"
  by (cases d) auto

definition nonneg_pair :: "jsnum \<times> jsnum \<Rightarrow> bool" where
  "nonneg_pair p \<longleftrightarrow> nonneg (fst p) \<and> nonneg (snd p)"

lemma rsi_seed_nonneg: "nonneg_pair (rsi_seed ds)"
  unfolding rsi_seed_def
proof (induction ds rule: rev_induct)
  case (snoc d ds)
  then show ?case by (auto simp: nonneg_pair_def split: prod.splits intro: nonneg_jadd nonneg_loss nonneg_ge0)
qed (simp add: nonneg_pair_def)

lemma rsi_smooth_nonneg:
  assumes "nonneg_pair avg" and "nonneg period" and "nonneg (jsub period (Num 1))"
  shows "nonneg_pair (rsi_smooth period avg d)"
proof -
  obtain g l where avg: "avg = (g, l)" by (cases avg)
  have "nonneg (if jge d (Num 0) then d else Num 0)" "nonneg (if jlt d (Num 0) then jneg d else Num 0)"
    using nonneg_ge0 [of d] nonneg_neg [of d] by simp_all
  with assms show ?thesis
    by (simp only: rsi_smooth_def avg prod.case Let_def nonneg_pair_def fst_conv snd_conv nonneg_jdiv nonneg_jadd nonneg_jmul)
qed

lemma rsi_fold_nonneg:
  assumes "nonneg period" and "nonneg (jsub period (Num 1))"
  shows "nonneg_pair avg \<Longrightarrow> nonneg_pair (foldl (rsi_smooth period) avg ds)"
proof (induction ds arbitrary: avg)
  case (Cons d ds)
  from Cons.IH [OF rsi_smooth_nonneg [OF Cons.prems assms]] show ?case by (simp only: foldl_Cons)
qed simp

lemma rsi_value_range:
  assumes "nonneg_pair avg"
  shows "rsi_value avg = NaN \<or> (\<exists>x. rsi_value avg = Num x \<and> 0 \<le> x \<and> x \<le> 100)"
proof -
  obtain g l where avg: "avg = (g, l)" by (cases avg)
  have gl: "nonneg g" "nonneg l" using assms by (auto simp: nonneg_pair_def avg)
  show ?thesis
  proof (cases "l = Num 0")
    case True
    then show ?thesis by (simp add: rsi_value_def avg)
  next
    case False
    let ?r = "jdiv g l"
    have r: "nonneg ?r" by (rule nonneg_jdiv [OF gl])
    consider "?r = NaN" | "?r = Infty" | x where "?r = Num x" "0 \<le> x" using r by (cases ?r) auto
    then show ?thesis
    proof cases
      case (3 x)
      consider "mk_num (1 + x) = Infty" | y where "mk_num (1 + x) = Num y" "1 \<le> y"
        using mk_num_nonneg [of "1 + x"] round64_ge_int [of 1 "1 + x"] 3(2)
          mk_num_NumD [of "1 + x"] by auto
      then show ?thesis
      proof cases
        case 1
        then show ?thesis using False 3 by (simp add: rsi_value_def avg jsub_def)
      next
        case (2 y)
        have "0 \<le> 100 / y" "100 / y \<le> 100" using 2(2) by (simp_all add: divide_le_eq)
        then have m: "mk_num (100 / y) = Num (round64 (100 / y))" "0 \<le> round64 (100 / y)" "round64 (100 / y) \<le> 100"
          using mk_num_between [of 0 "100 / y" 100] by simp_all
        then have "mk_num (100 + - round64 (100 / y)) = Num (round64 (100 - round64 (100 / y))) \<and>
            0 \<le> round64 (100 - round64 (100 / y)) \<and> round64 (100 - round64 (100 / y)) \<le> 100"
          using mk_num_between [of 0 "100 - round64 (100 / y)" 100] by simp
        then show ?thesis using False 3 2 m by (simp add: rsi_value_def avg jsub_def)
      qed
    qed (use False in \<open>simp_all add: rsi_value_def avg jsub_def\<close>)
  qed
qed

section \<open>Properties\<close>

text \<open>
  C18. The RSI is an index: for any closing prices, infinities, NaN and overflow included, and any
  period, a computed value that is a number lies between 0 and 100, and a value that is not a number
  never becomes a signal.
\<close>

theorem rsi_in_range:
  assumes "rsi closes period = Some v"
  shows "(v = NaN \<or> (\<exists>x. v = Num x \<and> 0 \<le> x \<and> x \<le> 100)) \<and>
    (v = NaN \<longrightarrow> rsiSignal closes period oversold overbought = None)"
proof
  have "is_integer period" "\<not> jlt period (Num 2)" using assms by (auto simp: rsi_def split: if_splits)
  then obtain k where k: "period = Num k" "2 \<le> k" by (cases period) auto
  have p: "nonneg period" "nonneg (jsub period (Num 1))"
    using k nonneg_mk_num [of "k - 1"] by (simp_all add: jsub_def)
  obtain g l where s: "rsi_seed (take (num_nat period) (diffs closes)) = (g, l)" by fastforce
  have "nonneg_pair (jdiv g period, jdiv l period)"
    using rsi_seed_nonneg [of "take (num_nat period) (diffs closes)"] p(1)
    by (simp only: s nonneg_pair_def fst_conv snd_conv nonneg_jdiv)
  from rsi_value_range [OF rsi_fold_nonneg [OF p this]]
  show "v = NaN \<or> (\<exists>x. v = Num x \<and> 0 \<le> x \<and> x \<le> 100)"
    using assms by (auto simp: rsi_def s Let_def split: if_splits)
  show "v = NaN \<longrightarrow> rsiSignal closes period oversold overbought = None"
    using assms by (cases overbought) (simp_all add: rsiSignal_def)
qed

lemma rsi_in_range_witness:
  "rsiSignal [Num 1, NaN, Num 3] (Num 2) (Num 30) (Num 70) = None"
proof -
  have "rsi [Num 1, NaN, Num 3] (Num 2) = Some NaN"
    by (simp add: rsi_def diffs_def rsi_seed_def rsi_smooth_def rsi_value_def jsub_def numeral_2_eq_2)
  from rsi_in_range [OF this] show ?thesis by simp
qed

text \<open>
  Accepted parameters can make a strategy that never trades: for every slow period from 2 to 9
  given without a fast period, validation finds no problem, but the default fast period 9 is not below
  it, and no price history and no price ever give a signal.
\<close>

theorem accepted_but_dead:
  assumes "2 \<le> k" and "k \<le> 9"
  shows "validateStrategyParams Sma (JObj [(''slowPeriod'', JNum (jint k))]) = [] \<and>
    evaluateStrategy Sma (JObj [(''slowPeriod'', JNum (jint k))]) closes current previous = None"
proof
  have "2 \<le> (of_int k :: rat)" "of_int k \<le> (9 :: rat)" using assms by simp_all
  then show "validateStrategyParams Sma (JObj [(''slowPeriod'', JNum (jint k))]) = []"
    by (simp add: validateStrategyParams_def sma_problems_def exit_problems_def problem_if_def)
  show "evaluateStrategy Sma (JObj [(''slowPeriod'', JNum (jint k))]) closes current previous = None"
    using assms by (simp add: evaluateStrategy_def numberParam_def smaCross_def not_less)
qed

lemma accepted_but_dead_witness:
  "evaluateStrategy Sma (JObj [(''slowPeriod'', JNum (jint 5))]) (replicate 40 (Num 7)) (Num 1) (Num 2) = None"
  by (rule conjunct2 [OF accepted_but_dead]) simp_all

end
