(* ===== verification/RiskGuard.thy ===== *)
theory RiskGuard
  imports Json Texts
begin

text \<open>
  The guard on orders, packages/core/src/crypto/risk.ts, on binary64 numbers. Symbols are ASCII. A
  refusal keeps the reason as a constructor with the values its text shows.
\<close>

datatype trade_mode = Dry | Live

datatype plan_side = BuySide | SellSide

datatype order_type = Market | Limit

record risk_guard =
  rg_tradeMode :: trade_mode
  rg_maxOrderValueUsdt :: jsnum
  rg_hasKeys :: bool
  rg_allowedSymbols :: "string list"

record order_plan =
  op_symbol :: string
  op_side :: plan_side
  op_type :: order_type
  op_quantity :: "jsnum option"
  op_quoteOrderQty :: "jsnum option"
  op_price :: "jsnum option"
  op_valueUsdt :: jsnum

datatype refusal = SymbolNotAllowed string | BadAmount | BadPrice | BadQuantity | ExceedsMax jsnum jsnum | NoKeys

definition DEFAULT_MAX_ORDER_USDT :: jsnum where
  "DEFAULT_MAX_ORDER_USDT = Num 100"

definition MAX_PRICE :: jsnum where
  "MAX_PRICE = Num 1000000"

definition trim8 :: "jsnum \<Rightarrow> jsnum" where
  "trim8 v = jdiv (jround (jmul v (Num 100000000))) (Num 100000000)"

fun symbol_texts :: "json list \<Rightarrow> string list" where
  "symbol_texts [] = []"
| "symbol_texts (JStr s # xs) = (if s = [] then symbol_texts xs else to_upper s # symbol_texts xs)"
| "symbol_texts (_ # xs) = symbol_texts xs"

definition new_guard :: "string \<Rightarrow> jsnum \<Rightarrow> bool \<Rightarrow> json \<Rightarrow> risk_guard" where
  "new_guard tradeMode maxOrderValueUsdt hasKeys allowedSymbols =
     \<lparr>rg_tradeMode = (if tradeMode = ''live'' then Live else Dry),
      rg_maxOrderValueUsdt = (if is_finite maxOrderValueUsdt \<and> jgt maxOrderValueUsdt (Num 0)
        then maxOrderValueUsdt else DEFAULT_MAX_ORDER_USDT),
      rg_hasKeys = hasKeys,
      rg_allowedSymbols = remdups (case allowedSymbols of JArr xs \<Rightarrow> symbol_texts xs | _ \<Rightarrow> [])\<rparr>"

definition allowed :: "risk_guard \<Rightarrow> string \<Rightarrow> bool" where
  "allowed g symbol \<longleftrightarrow> rg_allowedSymbols g = [] \<or> to_upper symbol \<in> set (rg_allowedSymbols g)"

definition isAllowed :: "risk_guard \<Rightarrow> string \<Rightarrow> bool" where
  "isAllowed g symbol = allowed g symbol"

definition needs_keys :: "risk_guard \<Rightarrow> bool" where
  "needs_keys g \<longleftrightarrow> rg_tradeMode g = Live \<and> \<not> rg_hasKeys g"

definition positive :: "jsnum \<Rightarrow> bool" where
  "positive v \<longleftrightarrow> is_finite v \<and> \<not> jle v (Num 0)"

definition planMarketBuy :: "risk_guard \<Rightarrow> string \<Rightarrow> jsnum \<Rightarrow> refusal + order_plan" where
  "planMarketBuy g symbol amountUsdt =
     (if \<not> allowed g symbol then Inl (SymbolNotAllowed symbol)
      else if \<not> positive amountUsdt then Inl BadAmount
      else if jgt amountUsdt (rg_maxOrderValueUsdt g) then Inl (ExceedsMax amountUsdt (rg_maxOrderValueUsdt g))
      else if needs_keys g then Inl NoKeys
      else Inr \<lparr>op_symbol = to_upper symbol, op_side = BuySide, op_type = Market, op_quantity = None,
             op_quoteOrderQty = Some (jdiv (jround (jmul amountUsdt (Num 100))) (Num 100)), op_price = None,
             op_valueUsdt = amountUsdt\<rparr>)"

definition planMarketSell :: "risk_guard \<Rightarrow> string \<Rightarrow> jsnum \<Rightarrow> jsnum \<Rightarrow> bool \<Rightarrow> refusal + order_plan" where
  "planMarketSell g symbol price quantity exit =
     (if \<not> allowed g symbol then Inl (SymbolNotAllowed symbol)
      else if \<not> positive price then Inl BadPrice
      else if \<not> positive quantity then Inl BadQuantity
      else let value = jmul quantity price
           in if \<not> exit \<and> jgt value (rg_maxOrderValueUsdt g) then Inl (ExceedsMax value (rg_maxOrderValueUsdt g))
              else if needs_keys g then Inl NoKeys
              else Inr \<lparr>op_symbol = to_upper symbol, op_side = SellSide, op_type = Market,
                     op_quantity = Some (trim8 quantity), op_quoteOrderQty = None, op_price = None,
                     op_valueUsdt = value\<rparr>)"

definition planLimit :: "risk_guard \<Rightarrow> string \<Rightarrow> plan_side \<Rightarrow> jsnum \<Rightarrow> jsnum \<Rightarrow> refusal + order_plan" where
  "planLimit g symbol side price quantity =
     (if \<not> allowed g symbol then Inl (SymbolNotAllowed symbol)
      else if \<not> positive price \<or> jgt price MAX_PRICE then Inl BadPrice
      else if \<not> positive quantity then Inl BadQuantity
      else let value = jmul price quantity
           in if jgt value (rg_maxOrderValueUsdt g) then Inl (ExceedsMax value (rg_maxOrderValueUsdt g))
              else if needs_keys g then Inl NoKeys
              else Inr \<lparr>op_symbol = to_upper symbol, op_side = side, op_type = Limit,
                     op_quantity = Some (trim8 quantity), op_quoteOrderQty = None, op_price = Some (trim8 price),
                     op_valueUsdt = value\<rparr>)"

definition requireKeys :: "risk_guard \<Rightarrow> refusal + unit" where
  "requireKeys g = (if needs_keys g then Inl NoKeys else Inr ())"

section \<open>Requests\<close>

datatype order_request =
    MarketBuy string jsnum
  | MarketSell string jsnum jsnum bool
  | LimitOrder string plan_side jsnum jsnum

fun plan :: "risk_guard \<Rightarrow> order_request \<Rightarrow> refusal + order_plan" where
  "plan g (MarketBuy symbol amount) = planMarketBuy g symbol amount"
| "plan g (MarketSell symbol price quantity exit) = planMarketSell g symbol price quantity exit"
| "plan g (LimitOrder symbol side price quantity) = planLimit g symbol side price quantity"

fun is_exit :: "order_request \<Rightarrow> bool" where
  "is_exit (MarketSell symbol price quantity exit) = exit"
| "is_exit _ = False"

lemma guard_max: "\<exists>m. rg_maxOrderValueUsdt (new_guard mode mx keys syms) = Num m \<and> 0 < m"
  by (cases mx) (auto simp: new_guard_def DEFAULT_MAX_ORDER_USDT_def)

lemma positive_Num: "positive v \<Longrightarrow> \<exists>x. v = Num x \<and> 0 < x"
  by (cases v) (auto simp: positive_def)

lemma symbol_texts_upper: "s \<in> set (symbol_texts xs) \<Longrightarrow> to_upper s = s"
  by (induction xs rule: symbol_texts.induct) (auto split: if_splits)

lemma product_value:
  assumes "positive a" and "positive b" and "\<not> jgt (jmul a b) (Num m)"
  shows "\<exists>x. jmul a b = Num x \<and> 0 \<le> x \<and> x \<le> m"
proof -
  obtain x y where "a = Num x" "0 < x" "b = Num y" "0 < y" using assms positive_Num by blast
  then show ?thesis using assms(3) mk_num_nonneg [of "x * y"] by auto
qed

section \<open>Properties\<close>



text \<open>The quote amount of a market buy is rounded to cents after the check, so it can exceed the cap.\<close>

lemma quote_exceeds_cap:
  "\<exists>p q. planMarketBuy (new_guard ''dry'' (Num (65 / 64)) False JNull) ''X'' (Num (65 / 64)) = Inr p \<and>
     op_quoteOrderQty p = Some (Num q) \<and> 65 / 64 < q"
proof -
  have r1: "round64 (1625 / 16) = 1625 / 16"
    using round64_dyadic [of 1625 "- 4"] by (simp add: power_int_minus)
  then have m: "mk_num (1625 / 16) = Num (1625 / 16)"
    using int_lt_2_1024 [of 102] by (simp add: mk_num_def Let_def)
  have "round64 (261 / 256) = 261 / 256"
    using round64_dyadic [of 261 "- 8"] by (simp add: power_int_minus)
  then have "65 / 64 < round64 (51 / 50)" using round64_mono [of "261 / 256" "51 / 50"] by simp
  moreover have "mk_num (51 / 50) = Num (round64 (51 / 50))"
    using mk_num_between [of 1 "51 / 50" 2] by simp
  moreover have "jround (Num (1625 / 16)) = Num 102" by (simp add: jround.simps floor_eq_iff)
  ultimately show ?thesis
    by (simp add: planMarketBuy_def new_guard_def allowed_def positive_def needs_keys_def m)
qed

end
