(* ===== verification/Ledger.thy ===== *)
theory Ledger
  imports Json Texts
begin

text \<open>
  The trade ledger of live bots, packages/workers/src/crypto/ledger.ts, on binary64 numbers. Symbols
  are ASCII. Orders are the objects they are stored as (JSON), so that restoring a snapshot can check
  their fields as the code does.
\<close>

datatype side = Buy | Sell

record ledger =
  lg_positions :: "(string, jsnum) jmap"
  lg_avgEntry :: "(string, jsnum) jmap"
  lg_trailingHigh :: "(string, jsnum) jmap"
  lg_realizedPnl :: jsnum
  lg_openOrders :: "(string, json) jmap"

record ledger_snapshot =
  ls_positions :: "(string, jsnum) jmap option"
  ls_avgEntry :: "(string, jsnum) jmap option"
  ls_realizedPnl :: jsnum
  ls_openOrders :: "(string, json) jmap option"
  ls_trailingHigh :: "(string, jsnum) jmap option"
  ls_updatedAt :: ms

definition EPS :: jsnum where
  "EPS = Num (round64 (1 / 10 ^ 10))"

definition new_ledger :: ledger where
  "new_ledger = \<lparr>lg_positions = [], lg_avgEntry = [], lg_trailingHigh = [], lg_realizedPnl = Num 0, lg_openOrders = []\<rparr>"

definition position :: "string \<Rightarrow> ledger \<Rightarrow> jsnum" where
  "position symbol l = jget_or (Num 0) (lg_positions l) (to_upper symbol)"

definition avgEntryFor :: "string \<Rightarrow> ledger \<Rightarrow> jsnum" where
  "avgEntryFor symbol l = jget_or (Num 0) (lg_avgEntry l) (to_upper symbol)"

definition trailingHighFor :: "string \<Rightarrow> ledger \<Rightarrow> jsnum option" where
  "trailingHighFor symbol l = jget (lg_trailingHigh l) (to_upper symbol)"

definition setTrailingHigh :: "string \<Rightarrow> jsnum \<Rightarrow> ledger \<Rightarrow> ledger" where
  "setTrailingHigh symbol price l = l\<lparr>lg_trailingHigh := jset (to_upper symbol) price (lg_trailingHigh l)\<rparr>"

definition openCount :: "ledger \<Rightarrow> nat" where
  "openCount l = length (lg_openOrders l)"

definition openOrdersList :: "ledger \<Rightarrow> json list" where
  "openOrdersList l = map snd (lg_openOrders l)"

definition recordOrder :: "string \<Rightarrow> json \<Rightarrow> ledger \<Rightarrow> ledger" where
  "recordOrder clientOrderId order l = l\<lparr>lg_openOrders := jset clientOrderId order (lg_openOrders l)\<rparr>"

definition removeOrder :: "string \<Rightarrow> ledger \<Rightarrow> ledger \<times> json option" where
  "removeOrder clientOrderId l =
     (case jget (lg_openOrders l) clientOrderId of
        None \<Rightarrow> (l, None)
      | Some order \<Rightarrow> (l\<lparr>lg_openOrders := jdel clientOrderId (lg_openOrders l)\<rparr>, Some order))"

definition valid_number :: "jsnum \<Rightarrow> bool" where
  "valid_number v \<longleftrightarrow> is_finite v \<and> \<not> jle v (Num 0)"

text \<open>The selling branch, which both kinds of fill share.\<close>

definition sell_fill :: "string \<Rightarrow> jsnum \<Rightarrow> jsnum \<Rightarrow> ledger \<Rightarrow> ledger" where
  "sell_fill s qty price l =
     (let current = jget_or (Num 0) (lg_positions l) s;
          entry = jget_or (Num 0) (lg_avgEntry l) s;
          sold = jmin current qty;
          l1 = (if jgt entry (Num 0) \<and> jgt sold (Num 0)
                then l\<lparr>lg_realizedPnl := jadd (lg_realizedPnl l) (jmul (jsub price entry) sold)\<rparr> else l);
          remaining = jsub current sold
      in if jgt remaining EPS then l1\<lparr>lg_positions := jset s remaining (lg_positions l1)\<rparr>
         else l1\<lparr>lg_positions := jdel s (lg_positions l1), lg_avgEntry := jdel s (lg_avgEntry l1),
                 lg_trailingHigh := jdel s (lg_trailingHigh l1)\<rparr>)"

definition buy_fill :: "string \<Rightarrow> jsnum \<Rightarrow> jsnum \<Rightarrow> ledger \<Rightarrow> ledger" where
  "buy_fill s qty price l =
     (let current = jget_or (Num 0) (lg_positions l) s;
          cost = jmul current (jget_or (Num 0) (lg_avgEntry l) s);
          next = jadd current qty
      in l\<lparr>lg_avgEntry := jset s (jdiv (jadd cost (jmul qty price)) next) (lg_avgEntry l),
           lg_positions := jset s next (lg_positions l),
           lg_trailingHigh := jdel s (lg_trailingHigh l)\<rparr>)"

definition applyFill :: "string \<Rightarrow> side \<Rightarrow> jsnum \<Rightarrow> jsnum \<Rightarrow> ledger \<Rightarrow> ledger" where
  "applyFill symbol sd qty price l =
     (let s = to_upper symbol
      in if \<not> valid_number qty then l
         else if \<not> valid_number price then l
         else if sd = Buy then buy_fill s qty price l else sell_fill s qty price l)"

definition applyReconciledFill :: "string \<Rightarrow> side \<Rightarrow> jsnum \<Rightarrow> jsnum \<Rightarrow> ledger \<Rightarrow> ledger" where
  "applyReconciledFill symbol sd qty price l =
     (let s = to_upper symbol
      in if \<not> valid_number qty then l
         else if \<not> valid_number price then l
         else if sd = Sell then sell_fill s qty price l
         else let current = jget_or (Num 0) (lg_positions l) s
              in if jle current (Num 0) then applyFill s sd qty price l
                 else let basis = jmax (Num 0) (jsub current qty)
                      in case jget (lg_avgEntry l) s of
                           None \<Rightarrow>
                             if jge qty (jsub current EPS) then l\<lparr>lg_avgEntry := jset s price (lg_avgEntry l)\<rparr> else l
                         | Some known \<Rightarrow>
                             if jle known (Num 0)
                             then (if jge qty (jsub current EPS) then l\<lparr>lg_avgEntry := jset s price (lg_avgEntry l)\<rparr> else l)
                             else l\<lparr>lg_avgEntry := jset s (jdiv (jadd (jmul basis known) (jmul qty price)) current)
                                                        (lg_avgEntry l),
                                    lg_trailingHigh := jdel s (lg_trailingHigh l)\<rparr>)"

text \<open>\<open>reconcilePositions\<close>: the balances that count, then the positions that have none are dropped.\<close>

definition balance_entries :: "(string \<times> jsnum) list \<Rightarrow> (string \<times> jsnum) list" where
  "balance_entries exchange = map (\<lambda>(s, q). (to_upper s, q)) (filter (\<lambda>(s, q). is_finite q \<and> jgt q (Num 0)) exchange)"

definition drop_position :: "string \<Rightarrow> ledger \<Rightarrow> ledger" where
  "drop_position s l = l\<lparr>lg_positions := jdel s (lg_positions l), lg_avgEntry := jdel s (lg_avgEntry l),
     lg_trailingHigh := jdel s (lg_trailingHigh l)\<rparr>"

definition reconcilePositions :: "(string \<times> jsnum) list \<Rightarrow> ledger \<Rightarrow> ledger" where
  "reconcilePositions exchange l =
     (let entries = balance_entries exchange;
          kept = map fst entries;
          l1 = l\<lparr>lg_positions := fold (\<lambda>(s, q) m. jset s q m) entries (lg_positions l)\<rparr>
      in fold drop_position (filter (\<lambda>s. s \<notin> set kept) (jkeys (lg_positions l1))) l1)"

definition ledger_snapshot_of :: "ms \<Rightarrow> ledger \<Rightarrow> ledger_snapshot" where
  "ledger_snapshot_of now l = \<lparr>ls_positions = Some (lg_positions l), ls_avgEntry = Some (lg_avgEntry l),
     ls_realizedPnl = lg_realizedPnl l, ls_openOrders = Some (lg_openOrders l),
     ls_trailingHigh = Some (lg_trailingHigh l), ls_updatedAt = now\<rparr>"

definition restore_one :: "string \<times> jsnum \<Rightarrow> (string, jsnum) jmap \<Rightarrow> (string, jsnum) jmap" where
  "restore_one e m = (if is_finite (snd e) \<and> jgt (snd e) (Num 0) then jset (to_upper (fst e)) (snd e) m else m)"

definition restore_numbers :: "(string, jsnum) jmap option \<Rightarrow> (string, jsnum) jmap" where
  "restore_numbers entries = fold restore_one (case entries of None \<Rightarrow> [] | Some es \<Rightarrow> es) []"

fun nonempty_text :: "json \<Rightarrow> bool" where
  "nonempty_text (JStr s) = (s \<noteq> [])"
| "nonempty_text _ = False"

fun finite_number :: "json \<Rightarrow> bool" where
  "finite_number (JNum n) = is_finite n"
| "finite_number _ = False"

fun number_ge_0 :: "json \<Rightarrow> bool" where
  "number_ge_0 (JNum n) = jge n (Num 0)"
| "number_ge_0 _ = False"

definition valid_order :: "json \<Rightarrow> bool" where
  "valid_order order \<longleftrightarrow> truthy order \<and> nonempty_text (get_prop order ''clientOrderId'') \<and>
     nonempty_text (get_prop order ''symbol'') \<and> finite_number (get_prop order ''quantity'') \<and>
     number_ge_0 (get_prop order ''quantity'') \<and>
     (get_prop order ''price'' = JNull \<or> finite_number (get_prop order ''price'')) \<and>
     finite_number (get_prop order ''placedAt'')"

definition ledger_fromSnapshot :: "ledger_snapshot option \<Rightarrow> ledger" where
  "ledger_fromSnapshot snapshot =
     (case snapshot of
        None \<Rightarrow> new_ledger
      | Some s \<Rightarrow> \<lparr>lg_positions = restore_numbers (ls_positions s), lg_avgEntry = restore_numbers (ls_avgEntry s),
          lg_trailingHigh = restore_numbers (ls_trailingHigh s),
          lg_realizedPnl = (if is_finite (ls_realizedPnl s) then ls_realizedPnl s else Num 0),
          lg_openOrders = fold (\<lambda>(i, order) m. if valid_order order then jset i order m else m)
            (case ls_openOrders s of None \<Rightarrow> [] | Some es \<Rightarrow> es) []\<rparr>)"

section \<open>No short positions\<close>

text \<open>A quantity that is held: not negative, a number or infinity.\<close>

definition held :: "jsnum \<Rightarrow> bool" where
  "held q \<longleftrightarrow> jle (Num 0) q"

definition ledger_inv :: "ledger \<Rightarrow> bool" where
  "ledger_inv l \<longleftrightarrow> jmap_ok (lg_positions l) \<and> (\<forall>s q. jget (lg_positions l) s = Some q \<longrightarrow> held q)"

lemma held_add: "held a \<Longrightarrow> valid_number b \<Longrightarrow> held (jadd a b)"
proof -
  assume a: "held a" and "valid_number b"
  then obtain y where b: "b = Num y" "0 < y" by (cases b) (auto simp: valid_number_def)
  show ?thesis
  proof (cases a)
    case (Num x)
    then have "0 \<le> x + y" using a b by (simp add: held_def)
    from mk_num_nonneg [OF this] show ?thesis using Num b by (auto simp: held_def)
  qed (use a b in \<open>auto simp: held_def\<close>)
qed

lemma valid_held: "is_finite q \<Longrightarrow> jgt q (Num 0) \<Longrightarrow> held q"
  by (cases q) (auto simp: held_def)

lemma EPS_nonneg: "jgt q EPS \<Longrightarrow> held q"
proof -
  have "0 \<le> round64 (1 / 10 ^ 10)" by (rule round64_nonneg) simp
  then show "jgt q EPS \<Longrightarrow> held q" by (cases q) (auto simp: EPS_def held_def)
qed

lemma current_held: "ledger_inv l \<Longrightarrow> held (jget_or (Num 0) (lg_positions l) s)"
  by (auto simp: ledger_inv_def jget_or_def held_def split: option.split)

lemma ledger_inv_set:
  "ledger_inv l \<Longrightarrow> held q \<Longrightarrow> lg_positions l' = jset s q (lg_positions l) \<Longrightarrow> ledger_inv l'"
  by (simp add: ledger_inv_def del: map_of_eq_Some_iff)

lemma ledger_inv_del: "ledger_inv l \<Longrightarrow> lg_positions l' = jdel s (lg_positions l) \<Longrightarrow> ledger_inv l'"
  by (simp add: ledger_inv_def del: map_of_eq_Some_iff)

lemma ledger_inv_same: "ledger_inv l \<Longrightarrow> lg_positions l' = lg_positions l \<Longrightarrow> ledger_inv l'"
  by (simp add: ledger_inv_def)

lemma sell_positions:
  "lg_positions (sell_fill s qty price l) =
     (let current = jget_or (Num 0) (lg_positions l) s; remaining = jsub current (jmin current qty)
      in if jgt remaining EPS then jset s remaining (lg_positions l) else jdel s (lg_positions l))"
  by (simp add: sell_fill_def Let_def)

lemma sell_inv: "ledger_inv l \<Longrightarrow> ledger_inv (sell_fill s qty price l)"
  by (cases "jgt (jsub (jget_or (Num 0) (lg_positions l) s) (jmin (jget_or (Num 0) (lg_positions l) s) qty)) EPS")
    (auto simp: sell_positions Let_def intro: ledger_inv_set ledger_inv_del dest: EPS_nonneg)

lemma buy_inv: "ledger_inv l \<Longrightarrow> valid_number qty \<Longrightarrow> ledger_inv (buy_fill s qty price l)"
  by (rule ledger_inv_set [where s = s and q = "jadd (jget_or (Num 0) (lg_positions l) s) qty"])
    (simp_all add: buy_fill_def Let_def held_add current_held)

lemma applyFill_inv: "ledger_inv l \<Longrightarrow> ledger_inv (applyFill s sd qty price l)"
  by (simp add: applyFill_def Let_def sell_inv buy_inv)

lemma applyReconciledFill_inv: "ledger_inv l \<Longrightarrow> ledger_inv (applyReconciledFill s sd qty price l)"
  by (auto simp: applyReconciledFill_def Let_def sell_inv applyFill_inv intro: ledger_inv_same split: option.split)

lemma drop_positions_inv: "ledger_inv l \<Longrightarrow> ledger_inv (fold drop_position ss l)"
proof (induction ss arbitrary: l)
  case (Cons s ss)
  have "ledger_inv (drop_position s l)"
    by (rule ledger_inv_del [OF Cons.prems, of _ s]) (simp add: drop_position_def)
  with Cons.IH show ?case by simp
qed simp

lemma reconcile_inv:
  assumes "ledger_inv l"
  shows "ledger_inv (reconcilePositions exchange l)"
proof -
  have "ledger_inv (l\<lparr>lg_positions := fold (\<lambda>(s, q) m. jset s q m) es (lg_positions l)\<rparr>)"
    if "\<forall>(s, q) \<in> set es. held q" for es
    using that assms
  proof (induction es arbitrary: l)
    case (Cons e es)
    obtain s q where e: "e = (s, q)" by (cases e)
    have "ledger_inv (l\<lparr>lg_positions := jset s q (lg_positions l)\<rparr>)"
      by (rule ledger_inv_set [OF Cons.prems(2), of q _ s]) (use Cons.prems(1) e in auto)
    from Cons.IH [OF _ this] Cons.prems(1) show ?case by (simp add: e)
  qed (auto intro: ledger_inv_same)
  moreover have "\<forall>(s, q) \<in> set (balance_entries exchange). held q"
    by (auto simp: balance_entries_def valid_held)
  ultimately show ?thesis unfolding reconcilePositions_def Let_def by (blast intro: drop_positions_inv)
qed

definition held_map :: "(string, jsnum) jmap \<Rightarrow> bool" where
  "held_map m \<longleftrightarrow> jmap_ok m \<and> (\<forall>s q. jget m s = Some q \<longrightarrow> held q)"

lemma held_map_set: "held_map m \<Longrightarrow> held q \<Longrightarrow> held_map (jset s q m)"
  by (simp add: held_map_def del: map_of_eq_Some_iff)

lemma restore_one_inv: "held_map m \<Longrightarrow> held_map (restore_one e m)"
  unfolding restore_one_def by (cases "is_finite (snd e) \<and> jgt (snd e) (Num 0)") (auto intro: held_map_set valid_held)

lemma restore_inv: "held_map m \<Longrightarrow> held_map (fold restore_one es m)"
  by (induction es arbitrary: m) (simp_all add: restore_one_inv)

lemma fromSnapshot_inv: "ledger_inv (ledger_fromSnapshot s)"
proof (cases s)
  case None
  then show ?thesis by (simp add: ledger_fromSnapshot_def ledger_inv_def new_ledger_def)
next
  case (Some x)
  have "held_map (restore_numbers es)" for es
    unfolding restore_numbers_def by (rule restore_inv) (simp add: held_map_def)
  then show ?thesis by (simp add: Some ledger_fromSnapshot_def ledger_inv_def held_map_def)
qed

section \<open>Operations\<close>

datatype ledger_op =
    Fill string side jsnum jsnum
  | ReconciledFill string side jsnum jsnum
  | Reconcile "(string \<times> jsnum) list"
  | SetHigh string jsnum
  | Record string json
  | Forget string
  | Restart ms

fun ledger_step :: "ledger_op \<Rightarrow> ledger \<Rightarrow> ledger" where
  "ledger_step (Fill s sd q p) l = applyFill s sd q p l"
| "ledger_step (ReconciledFill s sd q p) l = applyReconciledFill s sd q p l"
| "ledger_step (Reconcile ex) l = reconcilePositions ex l"
| "ledger_step (SetHigh s p) l = setTrailingHigh s p l"
| "ledger_step (Record i order) l = recordOrder i order l"
| "ledger_step (Forget i) l = fst (removeOrder i l)"
| "ledger_step (Restart now) l = ledger_fromSnapshot (Some (ledger_snapshot_of now l))"

interpretation ledgers: guarded_machine ledger_step "\<lambda>_. True" ledger_inv
proof
  fix l a
  assume "ledger_inv l"
  then show "ledger_inv (ledger_step a l)"
    by (cases a) (auto simp: applyFill_inv applyReconciledFill_inv reconcile_inv fromSnapshot_inv setTrailingHigh_def
        recordOrder_def removeOrder_def intro: ledger_inv_same split: option.split)
qed

section \<open>Properties\<close>

text \<open>
  C20. No short positions: whatever fills, reconciliations, order changes and restarts from the
  snapshot follow each other, with any quantities and prices, no position is ever negative or not a
  number, even when more is sold than is held.
\<close>

theorem position_never_short:
  "jle (Num 0) (position symbol (fold ledger_step as new_ledger))"
proof -
  have "ledger_inv new_ledger" by (simp add: ledger_inv_def new_ledger_def)
  from ledgers.run_inv [OF this, of as] have "ledger_inv (fold ledger_step as new_ledger)" by (simp add: list_all_iff)
  from current_held [OF this] show ?thesis by (simp add: position_def held_def)
qed

lemma drop_others:
  "to_upper s \<notin> set ss \<Longrightarrow> jget (lg_positions (fold drop_position ss l)) (to_upper s) = jget (lg_positions l) (to_upper s)"
  by (induction ss arbitrary: l) (auto simp: drop_position_def)

text \<open>
  A reconciled sale is subtracted twice: the exchange reports the balance that is left after a
  sale, the reconciliation records it, and then applying that very fill as "already reflected" takes
  its quantity off again; when at least as much was sold as is left, the position and its entry price
  are forgotten although the exchange still holds the balance.
\<close>

theorem reconciled_sale_counted_twice:
  assumes "valid_number b" and "valid_number qty" and "valid_number price" and "jle b qty"
  shows "position s (reconcilePositions [(s, b)] l) = b \<and>
    position s (applyReconciledFill s Sell qty price (reconcilePositions [(s, b)] l)) = Num 0 \<and>
    avgEntryFor s (applyReconciledFill s Sell qty price (reconcilePositions [(s, b)] l)) = Num 0"
proof -
  obtain x where b: "b = Num x" "0 < x" using assms(1) by (cases b) (auto simp: valid_number_def)
  obtain y where y: "qty = Num y" using assms(2) by (cases qty) (auto simp: valid_number_def)
  let ?l = "reconcilePositions [(s, b)] l"
  have g: "jget_or (Num 0) (lg_positions ?l) (to_upper s) = b"
    by (simp add: reconcilePositions_def balance_entries_def b jget_or_def drop_others)
  have "jmin b qty = b" using assms(4) b y by (simp add: jmin_def)
  moreover have "\<not> jgt (jsub b b) EPS"
  proof -
    have "0 \<le> round64 (1 / 10 ^ 10)" by (rule round64_nonneg) simp
    then show ?thesis by (simp add: jsub_def b EPS_def)
  qed
  ultimately have "lg_positions (sell_fill (to_upper s) qty price ?l) = jdel (to_upper s) (lg_positions ?l)"
    "lg_avgEntry (sell_fill (to_upper s) qty price ?l) = jdel (to_upper s) (lg_avgEntry ?l)"
    by (simp_all add: sell_fill_def g Let_def)
  then show ?thesis using g assms(2,3)
    by (simp add: position_def avgEntryFor_def applyReconciledFill_def Let_def)
qed

lemma reconciled_sale_counted_twice_witness:
  "position ''BTCUSDT'' (applyReconciledFill ''BTCUSDT'' Sell (Num 5) (Num 66)
     (reconcilePositions [(''BTCUSDT'', Num 5)] (applyFill ''BTCUSDT'' Buy (Num 10) (Num 60) new_ledger))) = Num 0"
  by (rule conjunct1 [OF conjunct2 [OF reconciled_sale_counted_twice]]) (simp_all add: valid_number_def)

end
