(* ===== verification/ScriptConfig.thy ===== *)
theory ScriptConfig
  imports Json WebhookGuard
begin

text \<open>
  The validation of user scripts at save time, packages/core/src/validation/script-config.ts. The
  regular expressions of the source are written out as scans of the text: a pattern \<open>\bw\b\<close> is an
  occurrence of \<open>w\<close> between non-word characters. Lengths are those of ASCII texts. \<open>String(v)\<close> and
  \<open>Number(v)\<close> of a JSON value are arguments; the URL guard is the one of \<open>WebhookGuard\<close>.
\<close>

definition MAX_FILTERS :: nat where "MAX_FILTERS = 20"
definition MAX_FILTER_VALUE :: nat where "MAX_FILTER_VALUE = 500"
definition MAX_REGEX_LENGTH :: nat where "MAX_REGEX_LENGTH = 500"
definition MAX_CUSTOM_EXPRESSION :: nat where "MAX_CUSTOM_EXPRESSION = 500"
definition MAX_CUSTOM_CODE :: nat where "MAX_CUSTOM_CODE = 4000"
definition MAX_ACTIONS :: nat where "MAX_ACTIONS = 200"
definition MAX_NESTING :: nat where "MAX_NESTING = 5"
definition MAX_DELAY_MS :: jsnum where "MAX_DELAY_MS = Num 300000"
definition MAX_EXECUTION_MS :: jsnum where "MAX_EXECUTION_MS = Num 600000"
definition MAX_PAYLOAD_STRING :: nat where "MAX_PAYLOAD_STRING = 10000"

section \<open>Scanning code\<close>

definition word_char :: "char \<Rightarrow> bool" where
  "word_char c \<longleftrightarrow> (let n = (of_char c :: nat) in (48 \<le> n \<and> n \<le> 57) \<or> (65 \<le> n \<and> n \<le> 90) \<or> (97 \<le> n \<and> n \<le> 122) \<or> n = 95)"

definition space_char :: "char \<Rightarrow> bool" where
  "space_char c \<longleftrightarrow> (let n = (of_char c :: nat) in (9 \<le> n \<and> n \<le> 13) \<or> n = 32 \<or> n = 160)"

text \<open>Whether \<open>p\<close> holds of the character before and the rest of the text at some position.\<close>

fun somewhere :: "(char option \<Rightarrow> string \<Rightarrow> bool) \<Rightarrow> char option \<Rightarrow> string \<Rightarrow> bool" where
  "somewhere p before [] = p before []"
| "somewhere p before (c # cs) = (p before (c # cs) \<or> somewhere p (Some c) cs)"

definition no_word_before :: "char option \<Rightarrow> bool" where
  "no_word_before b \<longleftrightarrow> (case b of None \<Rightarrow> True | Some c \<Rightarrow> \<not> word_char c)"

definition no_word_after :: "string \<Rightarrow> bool" where
  "no_word_after s \<longleftrightarrow> (case s of [] \<Rightarrow> True | c # _ \<Rightarrow> \<not> word_char c)"

definition bounded_word :: "string \<Rightarrow> string \<Rightarrow> bool" where
  "bounded_word w s = somewhere (\<lambda>b r. no_word_before b \<and> starts_with w r \<and> no_word_after (drop (length w) r)) None s"

definition opens_call :: "string \<Rightarrow> string \<Rightarrow> bool" where
  "opens_call w r \<longleftrightarrow> starts_with w r \<and> starts_with ''('' (dropWhile space_char (drop (length w) r))"

definition called_word :: "string \<Rightarrow> string \<Rightarrow> bool" where
  "called_word w s = somewhere (\<lambda>b r. no_word_before b \<and> opens_call w r) None s"

text \<open>\<open>\bw\s*\(\s*['"](?:node:)?(?:http|https|net|dns|fs)\<close>\<close>

definition module_argument :: "string \<Rightarrow> bool" where
  "module_argument r \<longleftrightarrow>
     (case dropWhile space_char r of
        [] \<Rightarrow> False
      | q # t \<Rightarrow> (q = CHR 0x27 \<or> q = CHR 0x22) \<and>
          (let names = [''http'', ''https'', ''net'', ''dns'', ''fs'']
           in list_ex (\<lambda>m. starts_with m t \<or> starts_with (''node:'' @ m) t) names))"

definition loads_module :: "string \<Rightarrow> string \<Rightarrow> bool" where
  "loads_module w s = somewhere (\<lambda>b r. no_word_before b \<and> opens_call w r \<and>
     module_argument (drop 1 (dropWhile space_char (drop (length w) r)))) None s"

definition forbidden_code :: "string \<Rightarrow> bool" where
  "forbidden_code s \<longleftrightarrow>
     list_ex (\<lambda>w. bounded_word w s) [''process'', ''module'', ''exports'', ''globalThis'', ''global'', ''Function'',
       ''constructor'', ''prototype'', ''import'', ''import.meta'', ''worker_threads'', ''child_process'', ''fs'',
       ''readFileSync'', ''writeFileSync'', ''WebAssembly'', ''XMLHttpRequest''] \<or>
     list_ex (\<lambda>w. called_word w s) [''require'', ''eval''] \<or>
     somewhere (\<lambda>b r. starts_with ''__proto__'' r) None s \<or>
     loads_module ''import'' s \<or> loads_module ''require'' s"

section \<open>Regular expressions of users\<close>

text \<open>\<open>\([^)]*[+*{][^)]*\)[+*?{]\<close>: the first closing parenthesis ends the group.\<close>

definition quantified_group :: "string \<Rightarrow> bool" where
  "quantified_group r \<longleftrightarrow>
     (case r of
        [] \<Rightarrow> False
      | c # t \<Rightarrow> c = CHR ''('' \<and> list_ex (\<lambda>x. x \<in> set ''+*{'') (takeWhile (\<lambda>x. x \<noteq> CHR '')'') t) \<and>
          (case dropWhile (\<lambda>x. x \<noteq> CHR '')'') t of _ # q # _ \<Rightarrow> q \<in> set ''+*?{'' | _ \<Rightarrow> False))"

definition QUANTIFIED_GROUP_REDOS :: "string \<Rightarrow> bool" where
  "QUANTIFIED_GROUP_REDOS s = somewhere (\<lambda>b r. quantified_group r) None s"

definition back_reference :: "string \<Rightarrow> bool" where
  "back_reference r \<longleftrightarrow> (case r of b # d # _ \<Rightarrow> b = CHR 0x5C \<and> d \<in> set ''123456789'' | _ \<Rightarrow> False)"

definition lookaround :: "string \<Rightarrow> bool" where
  "lookaround r \<longleftrightarrow> starts_with ''(?='' r \<or> starts_with ''(?<'' r \<or> starts_with ''(?!'' r"

text \<open>The parenthesis count; an escape skips a character, a class is skipped to its first bracket.\<close>

function balanced :: "nat \<Rightarrow> string \<Rightarrow> bool" where
  "balanced depth [] = (depth = 0)"
| "balanced depth (c # cs) =
     (if c = CHR 0x5C then balanced depth (drop 1 cs)
      else if c = CHR ''['' then balanced depth (drop 1 (dropWhile (\<lambda>x. x \<noteq> CHR '']'') cs))
      else if c = CHR ''('' then balanced (depth + 1) cs
      else if c = CHR '')'' then (if depth = 0 then False else balanced (depth - 1) cs)
      else balanced depth cs)"
  by pat_completeness auto
termination
proof (relation "measure (\<lambda>(d, s). length s)")
  fix c :: char and cs :: string and depth :: nat
  have "length (dropWhile (\<lambda>x. x \<noteq> CHR '']'') cs) \<le> length cs" by (rule length_dropWhile_le)
  then show "((depth, drop 1 (dropWhile (\<lambda>x. x \<noteq> CHR '']'') cs)), depth, c # cs) \<in> measure (\<lambda>(d, s). length s)"
    by simp
qed auto

definition isRegexSafe :: "string \<Rightarrow> nat \<Rightarrow> bool" where
  "isRegexSafe s maxLength \<longleftrightarrow> \<not> length s > maxLength \<and> \<not> QUANTIFIED_GROUP_REDOS s \<and>
     \<not> somewhere (\<lambda>b r. back_reference r) None s \<and> \<not> somewhere (\<lambda>b r. lookaround r) None s \<and> balanced 0 s"

definition checkCode :: "string \<Rightarrow> nat \<Rightarrow> string option" where
  "checkCode s maxLength =
     (if length s > maxLength then Some (''code exceeds '' @ nat_text maxLength @ '' characters'')
      else if forbidden_code s then Some ''code uses forbidden constructs'' else None)"

definition checkRegex :: "string \<Rightarrow> string option" where
  "checkRegex s =
     (if \<not> isRegexSafe s MAX_REGEX_LENGTH
      then (if length s > MAX_REGEX_LENGTH then Some ''regex exceeds 500 characters''
            else if QUANTIFIED_GROUP_REDOS s then Some ''regex uses dangerous nested quantifiers''
            else Some ''regex does not compile'')
      else None)"

section \<open>Filters and conditions\<close>

fun text_or_empty :: "json \<Rightarrow> string" where
  "text_or_empty (JStr s) = s"
| "text_or_empty _ = []"

definition prefixed :: "string \<Rightarrow> string option \<Rightarrow> string list" where
  "prefixed p e = (case e of None \<Rightarrow> [] | Some m \<Rightarrow> [p @ m])"

definition filter_errors :: "(json \<Rightarrow> string) \<Rightarrow> json \<Rightarrow> string list" where
  "filter_errors to_string f =
     (if \<not> is_plain_object f then [''filter must be an object'']
      else let ty = get_prop f ''type''; v = text_or_empty (get_prop f ''value'')
           in if ty = JStr ''regex'' then prefixed ''filter regex: '' (checkRegex v)
              else if ty = JStr ''custom'' then prefixed ''filter custom: '' (checkCode v MAX_CUSTOM_EXPRESSION)
              else if ty = JStr ''keyword'' \<or> ty = JStr ''role''
              then (if length v > MAX_FILTER_VALUE then [''filter value too long''] else [])
              else [''filter type '' @ [CHR 0x22] @ to_string ty @ [CHR 0x22] @ '' is not supported''])"

definition checkFilters :: "(json \<Rightarrow> string) \<Rightarrow> json \<Rightarrow> string list" where
  "checkFilters to_string filters =
     (case filters of
        JArr fs \<Rightarrow> if length fs > MAX_FILTERS then [''too many filters'']
                    else concat (map (filter_errors to_string) fs)
      | _ \<Rightarrow> [])"

definition checkCondition :: "json \<Rightarrow> string list" where
  "checkCondition c =
     (if \<not> is_plain_object c then [''condition must be an object'']
      else if get_prop c ''operator'' = JStr ''regex''
      then prefixed ''condition regex: '' (checkRegex (text_or_empty (get_prop c ''value'')))
      else [])"

definition checkPayloadStrings :: "json \<Rightarrow> string \<Rightarrow> string list" where
  "checkPayloadStrings payload prefix =
     (case payload of
        JObj ps \<Rightarrow> concat (map (\<lambda>(key, v).
          case v of JStr s \<Rightarrow> if length s > MAX_PAYLOAD_STRING
                              then [prefix @ ''.'' @ key @ '' exceeds '' @ nat_text MAX_PAYLOAD_STRING @ '' characters'']
                              else []
                  | _ \<Rightarrow> []) ps)
      | _ \<Rightarrow> [])"

section \<open>Actions\<close>

text \<open>\<open>payload.code\<close> and the like: a property of a payload that may be absent or not an object.\<close>

definition custom_errors :: "json \<Rightarrow> string list" where
  "custom_errors payload =
     (case get_prop payload ''code'' of
        JStr code \<Rightarrow> prefixed ''custom action: '' (checkCode code MAX_CUSTOM_CODE)
      | _ \<Rightarrow> [''custom action requires payload.code''])"

definition delay_errors :: "json \<Rightarrow> string list" where
  "delay_errors payload =
     (let ms = (case get_prop payload ''ms'' of JNum n \<Rightarrow> n | _ \<Rightarrow> Num 0)
      in if jgt ms MAX_DELAY_MS then [''delay exceeds 300000ms''] else [])"

definition webhook_errors :: "net \<Rightarrow> json \<Rightarrow> string list" where
  "webhook_errors n payload =
     (let url = text_or_empty (get_prop payload ''url'')
      in if url = [] \<or> \<not> isWebhookUrlAllowed n url then [''webhook action uses a disallowed URL''] else [])"

text \<open>What a step reports besides its nested actions.\<close>

definition step_errors :: "net \<Rightarrow> nat \<Rightarrow> json \<Rightarrow> string \<Rightarrow> string list" where
  "step_errors n depth step ty =
     (let payload = get_prop step ''payload''
      in (if get_prop step ''condition'' \<noteq> JUndef then checkCondition (get_prop step ''condition'') else []) @
         (if is_plain_object payload
          then checkPayloadStrings payload (''action '' @ [CHR 0x22] @ ty @ [CHR 0x22] @ '' payload'') else []) @
         (if ty = ''if'' then (if depth + 1 > MAX_NESTING then [''action nesting is too deep''] else [])
          else if ty = ''custom'' then custom_errors payload
          else if ty = ''delay'' then delay_errors payload
          else if ty = ''webhook'' then webhook_errors n payload
          else []))"

lemma size_get_prop: "get_prop step k = JArr xs \<Longrightarrow> size_list size xs < size step"
proof (cases step)
  case (JObj ps)
  assume g: "get_prop step k = JArr xs"
  then have "map_of ps k = Some (JArr xs)" by (auto simp: JObj split: option.splits)
  then have m: "(k, JArr xs) \<in> set ps" by (rule map_of_SomeD)
  have "size_prod (\<lambda>x. 0) size (k, JArr xs) \<le> size_list (size_prod (\<lambda>x. 0) size) ps"
    using m by (rule size_list_estimation') simp
  then show ?thesis by (simp add: JObj)
qed auto

function walk_steps :: "net \<Rightarrow> nat \<Rightarrow> json list \<Rightarrow> string list \<times> nat \<Rightarrow> string list \<times> nat" where
  "walk_steps n depth [] st = st"
| "walk_steps n depth (step # steps) (errors, counter) =
     (if counter + 1 > MAX_ACTIONS then (errors @ [''too many actions''], counter + 1)
      else if \<not> is_plain_object step
      then walk_steps n depth steps (errors @ [''action must be an object''], counter + 1)
      else case get_prop step ''type'' of
             JStr ty \<Rightarrow>
               (if ty = [] then walk_steps n depth steps (errors @ [''action requires a type''], counter + 1)
                else let st1 = (errors @ step_errors n depth step ty, counter + 1)
                     in if ty = ''if''
                        then (case get_prop step ''actions'' of
                                JArr xs \<Rightarrow> walk_steps n depth steps (walk_steps n (depth + 1) xs st1)
                              | JUndef \<Rightarrow> walk_steps n depth steps st1
                              | _ \<Rightarrow> walk_steps n depth steps (fst st1 @ [''actions must be an array''], snd st1))
                        else walk_steps n depth steps st1)
           | _ \<Rightarrow> walk_steps n depth steps (errors @ [''action requires a type''], counter + 1))"
  by pat_completeness auto
termination
  by (relation "measure (\<lambda>(n, d, xs, st). size_list size xs)")
    (auto dest!: size_get_prop)

definition walkActions :: "net \<Rightarrow> json \<Rightarrow> nat \<Rightarrow> string list \<times> nat \<Rightarrow> string list \<times> nat" where
  "walkActions n actions depth st =
     (case actions of
        JArr xs \<Rightarrow> walk_steps n depth xs st
      | JUndef \<Rightarrow> st
      | _ \<Rightarrow> (fst st @ [''actions must be an array''], snd st))"

definition integer_within :: "jsnum \<Rightarrow> int \<Rightarrow> jsnum \<Rightarrow> bool" where
  "integer_within v lo hi \<longleftrightarrow> is_integer v \<and> \<not> jlt v (jint lo) \<and> \<not> jgt v hi"

definition limit_errors :: "(json \<Rightarrow> jsnum) \<Rightarrow> json \<Rightarrow> string list" where
  "limit_errors to_number c =
     (let bad = (\<lambda>k lo hi. get_prop c k \<noteq> JUndef \<and> \<not> integer_within (to_number (get_prop c k)) lo hi)
      in (if bad ''cooldown'' 0 (Num 86400) then [''cooldown must be an integer between 0 and 86400''] else []) @
         (if bad ''interval'' 1 (Num 86400) then [''interval must be an integer between 1 and 86400''] else []) @
         (if bad ''maxExecutionMs'' 100 MAX_EXECUTION_MS
          then [''maxExecutionMs must be an integer between 100 and 600000''] else []))"

definition validateScriptConfig :: "net \<Rightarrow> (json \<Rightarrow> string) \<Rightarrow> (json \<Rightarrow> jsnum) \<Rightarrow> json \<Rightarrow> string list" where
  "validateScriptConfig n to_string to_number config =
     (if \<not> is_plain_object config then [''config must be an object'']
      else fst (walkActions n (get_prop config ''actions'') 0 (checkFilters to_string (get_prop config ''filters''), 0)) @
           limit_errors to_number config)"

section \<open>What an accepted script is\<close>

text \<open>Every action of a script with its nesting depth, in the order the validator meets them.\<close>

definition nested_actions :: "json \<Rightarrow> json list" where
  "nested_actions s =
     (if get_prop s ''type'' = JStr ''if'' then (case get_prop s ''actions'' of JArr xs \<Rightarrow> xs | _ \<Rightarrow> []) else [])"

lemma size_nested_actions: "size_list size (nested_actions s) < Suc (size s + size_list size ss)"
  using size_get_prop by (fastforce simp: nested_actions_def split: json.splits)

function actions_at :: "nat \<Rightarrow> json list \<Rightarrow> (nat \<times> json) list" where
  "actions_at d [] = []"
| "actions_at d (s # ss) = (d, s) # actions_at (d + 1) (nested_actions s) @ actions_at d ss"
  by pat_completeness auto
termination
  by (relation "measure (\<lambda>(d, xs). size_list size xs)") (auto simp: size_nested_actions)

definition condition_ok :: "json \<Rightarrow> bool" where
  "condition_ok c \<longleftrightarrow> c = JUndef \<or>
     is_plain_object c \<and> (get_prop c ''operator'' = JStr ''regex'' \<longrightarrow> isRegexSafe (text_or_empty (get_prop c ''value'')) 500)"

definition code_ok :: "nat \<Rightarrow> string \<Rightarrow> bool" where
  "code_ok most code \<longleftrightarrow> length code \<le> most \<and> \<not> forbidden_code code"

definition payload_ok :: "json \<Rightarrow> bool" where
  "payload_ok p \<longleftrightarrow> (\<forall>ps k s. p = JObj ps \<longrightarrow> (k, JStr s) \<in> set ps \<longrightarrow> length s \<le> 10000)"

definition action_ok :: "net \<Rightarrow> nat \<Rightarrow> json \<Rightarrow> bool" where
  "action_ok n depth s \<longleftrightarrow>
     is_plain_object s \<and>
     (\<exists>ty. get_prop s ''type'' = JStr ty \<and> ty \<noteq> []) \<and>
     condition_ok (get_prop s ''condition'') \<and>
     payload_ok (get_prop s ''payload'') \<and>
     (get_prop s ''type'' = JStr ''if'' \<longrightarrow> depth < 5 \<and> (get_prop s ''actions'' = JUndef \<or> is_array (get_prop s ''actions''))) \<and>
     (get_prop s ''type'' = JStr ''custom'' \<longrightarrow>
        (\<exists>code. get_prop (get_prop s ''payload'') ''code'' = JStr code \<and> code_ok 4000 code)) \<and>
     (get_prop s ''type'' = JStr ''delay'' \<longrightarrow>
        (\<forall>ms. get_prop (get_prop s ''payload'') ''ms'' = JNum ms \<longrightarrow> \<not> jgt ms (Num 300000))) \<and>
     (get_prop s ''type'' = JStr ''webhook'' \<longrightarrow>
        (\<exists>url. get_prop (get_prop s ''payload'') ''url'' = JStr url \<and> url \<noteq> [] \<and> isWebhookUrlAllowed n url))"

lemma checkRegex_None: "checkRegex s = None \<longleftrightarrow> isRegexSafe s 500"
  by (simp add: checkRegex_def MAX_REGEX_LENGTH_def)

lemma checkCode_None: "checkCode s m = None \<longleftrightarrow> code_ok m s"
  by (auto simp: checkCode_def code_ok_def)

lemma prefixed_Nil [simp]: "prefixed p e = [] \<longleftrightarrow> e = None"
  by (simp add: prefixed_def split: option.splits)

lemma checkCondition_Nil: "(c \<noteq> JUndef \<longrightarrow> checkCondition c = []) \<longleftrightarrow> condition_ok c"
  by (auto simp: checkCondition_def condition_ok_def checkRegex_None)

lemma checkPayloadStrings_Nil: "checkPayloadStrings p prefix = [] \<longleftrightarrow> payload_ok p"
proof (cases p)
  case (JObj ps)
  have "checkPayloadStrings (JObj ps) prefix = [] \<longleftrightarrow> (\<forall>k s. (k, JStr s) \<in> set ps \<longrightarrow> length s \<le> 10000)"
  proof (induction ps)
    case (Cons q ps)
    obtain k v where q: "q = (k, v)" by (cases q)
    have "checkPayloadStrings (JObj (q # ps)) prefix = [] \<longleftrightarrow>
        (\<forall>s. v = JStr s \<longrightarrow> length s \<le> 10000) \<and> checkPayloadStrings (JObj ps) prefix = []"
      by (auto simp: checkPayloadStrings_def q MAX_PAYLOAD_STRING_def split: json.splits)
    then show ?case using Cons q by auto
  qed (simp add: checkPayloadStrings_def)
  then show ?thesis by (simp add: JObj payload_ok_def)
qed (auto simp: checkPayloadStrings_def payload_ok_def)

lemma custom_errors_Nil:
  "custom_errors p = [] \<longleftrightarrow> (\<exists>code. get_prop p ''code'' = JStr code \<and> code_ok 4000 code)"
  by (simp add: custom_errors_def checkCode_None MAX_CUSTOM_CODE_def split: json.splits)

lemma delay_errors_Nil: "delay_errors p = [] \<longleftrightarrow> (\<forall>ms. get_prop p ''ms'' = JNum ms \<longrightarrow> \<not> jgt ms (Num 300000))"
  by (auto simp: delay_errors_def MAX_DELAY_MS_def split: json.splits)

lemma webhook_errors_Nil:
  "webhook_errors n p = [] \<longleftrightarrow> (\<exists>url. get_prop p ''url'' = JStr url \<and> url \<noteq> [] \<and> isWebhookUrlAllowed n url)"
  by (cases "get_prop p ''url''") (auto simp: webhook_errors_def)

lemma payload_ok_no_object: "\<not> is_plain_object p \<Longrightarrow> payload_ok p"
  by (auto simp: payload_ok_def)

text \<open>The errors of one action apart from those of its nested actions.\<close>

definition own_errors :: "net \<Rightarrow> nat \<Rightarrow> json \<Rightarrow> string list" where
  "own_errors n d s =
     (if \<not> is_plain_object s then [''action must be an object'']
      else case get_prop s ''type'' of
             JStr ty \<Rightarrow>
               if ty = [] then [''action requires a type'']
               else step_errors n d s ty @
                 (if ty = ''if'' \<and> get_prop s ''actions'' \<noteq> JUndef \<and> \<not> is_array (get_prop s ''actions'')
                  then [''actions must be an array''] else [])
           | _ \<Rightarrow> [''action requires a type''])"

lemma walk_steps_one:
  "walk_steps n d (s # ss) (errors, c) =
     (if c + 1 > 200 then (errors @ [''too many actions''], c + 1)
      else walk_steps n d ss (walk_steps n (d + 1) (nested_actions s) (errors @ own_errors n d s, c + 1)))"
proof (cases "is_plain_object s")
  case True
  then show ?thesis
    by (cases "get_prop s ''type''"; cases "get_prop s ''actions''")
      (auto simp: own_errors_def nested_actions_def MAX_ACTIONS_def Let_def)
next
  case False
  then show ?thesis
    by (simp add: own_errors_def nested_actions_def MAX_ACTIONS_def get_prop_not_object)
qed

lemma step_errors_Nil:
  "step_errors n d s ty = [] \<longleftrightarrow>
     condition_ok (get_prop s ''condition'') \<and> payload_ok (get_prop s ''payload'') \<and>
     (ty = ''if'' \<longrightarrow> d < 5) \<and>
     (ty = ''custom'' \<longrightarrow> custom_errors (get_prop s ''payload'') = []) \<and>
     (ty = ''delay'' \<longrightarrow> delay_errors (get_prop s ''payload'') = []) \<and>
     (ty = ''webhook'' \<longrightarrow> webhook_errors n (get_prop s ''payload'') = [])"
proof -
  define p where "p = get_prop s ''payload''"
  have c: "(if get_prop s ''condition'' \<noteq> JUndef then checkCondition (get_prop s ''condition'') else []) = [] \<longleftrightarrow>
      condition_ok (get_prop s ''condition'')"
    using checkCondition_Nil [of "get_prop s ''condition''"] by (auto simp: condition_ok_def)
  have pl: "(if is_plain_object p then checkPayloadStrings p x else []) = [] \<longleftrightarrow> payload_ok p" for x
    by (simp add: checkPayloadStrings_Nil payload_ok_no_object)
  show ?thesis
    unfolding step_errors_def Let_def append_is_Nil_conv c p_def [symmetric] pl
    by (auto simp: MAX_NESTING_def)
qed

lemma own_errors_Nil: "own_errors n d s = [] \<longleftrightarrow> action_ok n d s"
proof (cases "get_prop s ''type''")
  case (JStr ty)
  then show ?thesis
    unfolding own_errors_def action_ok_def JStr custom_errors_Nil [symmetric] delay_errors_Nil [symmetric]
      webhook_errors_Nil [symmetric]
    by (simp add: step_errors_Nil)
qed (auto simp: own_errors_def action_ok_def)

lemma walk_steps_errors_stay: "fst st \<noteq> [] \<Longrightarrow> fst (walk_steps n d xs st) \<noteq> []"
proof (induction xs arbitrary: d st rule: measure_induct_rule [of "size_list size"])
  case (less xs)
  then show ?case
  proof (cases xs)
    case (Cons s ss)
    obtain es c where st: "st = (es, c)" by (cases st)
    have 1: "fst (walk_steps n (d + 1) (nested_actions s) (es @ own_errors n d s, c + 1)) \<noteq> []"
    proof (rule less.IH)
      show "size_list size (nested_actions s) < size_list size xs" by (simp add: Cons size_nested_actions)
    qed (use less.prems st in simp)
    have "fst (walk_steps n d ss (walk_steps n (d + 1) (nested_actions s) (es @ own_errors n d s, c + 1))) \<noteq> []"
      by (rule less.IH [OF _ 1]) (simp add: Cons)
    then show ?thesis using less.prems by (simp add: Cons st walk_steps_one del: walk_steps.simps)
  qed simp
qed

lemma walk_steps_clean:
  "c \<le> 200 \<Longrightarrow>
   (if c + length (actions_at d xs) \<le> 200 \<and> (\<forall>(e, s) \<in> set (actions_at d xs). action_ok n e s)
    then walk_steps n d xs ([], c) = ([], c + length (actions_at d xs))
    else fst (walk_steps n d xs ([], c)) \<noteq> [])"
proof (induction xs arbitrary: d c rule: measure_induct_rule [of "size_list size"])
  case (less xs)
  show ?case
  proof (cases xs)
    case (Cons s ss)
    show ?thesis
    proof (cases "c < 200 \<and> action_ok n d s")
      case True
      let ?in = "actions_at (d + 1) (nested_actions s)"
      have own: "own_errors n d s = []" using True by (simp add: own_errors_Nil)
      have nested: "if c + 1 + length ?in \<le> 200 \<and> (\<forall>(e, s) \<in> set ?in. action_ok n e s)
          then walk_steps n (d + 1) (nested_actions s) ([], c + 1) = ([], c + 1 + length ?in)
          else fst (walk_steps n (d + 1) (nested_actions s) ([], c + 1)) \<noteq> []"
        by (rule less.IH) (use True in \<open>simp_all add: Cons size_nested_actions\<close>)
      have rest: "c' \<le> 200 \<Longrightarrow> if c' + length (actions_at d ss) \<le> 200 \<and> (\<forall>(e, s) \<in> set (actions_at d ss). action_ok n e s)
          then walk_steps n d ss ([], c') = ([], c' + length (actions_at d ss))
          else fst (walk_steps n d ss ([], c')) \<noteq> []" for c'
        by (rule less.IH) (simp_all add: Cons)
      have unfold: "walk_steps n d xs ([], c) = walk_steps n d ss (walk_steps n (d + 1) (nested_actions s) ([], c + 1))"
        using True own by (simp add: Cons walk_steps_one del: walk_steps.simps)
      show ?thesis
      proof (cases "c + 1 + length ?in \<le> 200 \<and> (\<forall>(e, s) \<in> set ?in. action_ok n e s)")
        case ok: True
        then show ?thesis
          using nested rest [of "c + 1 + length ?in"] True by (simp add: unfold) (auto simp: Cons add.assoc simp del: walk_steps.simps split: if_splits)
      next
        case bad: False
        then have "fst (walk_steps n (d + 1) (nested_actions s) ([], c + 1)) \<noteq> []"
          using nested by (meson)
        then have "fst (walk_steps n d xs ([], c)) \<noteq> []" by (simp add: unfold walk_steps_errors_stay)
        moreover have "\<not> (c + length (actions_at d xs) \<le> 200 \<and> (\<forall>(e, s) \<in> set (actions_at d xs). action_ok n e s))"
          using bad by (auto simp: Cons)
        ultimately show ?thesis by auto
      qed
    next
      case False
      then have "c + 1 > 200 \<or> own_errors n d s \<noteq> []" by (auto simp: own_errors_Nil)
      then have "fst (walk_steps n d xs ([], c)) \<noteq> []"
        by (auto simp: Cons walk_steps_one simp del: walk_steps.simps intro!: walk_steps_errors_stay)
      moreover have "\<not> (c + length (actions_at d xs) \<le> 200 \<and> (\<forall>(e, s) \<in> set (actions_at d xs). action_ok n e s))"
        using False by (auto simp: Cons)
      ultimately show ?thesis by auto
    qed
  qed (use less.prems in simp)
qed

definition filter_ok :: "json \<Rightarrow> bool" where
  "filter_ok f \<longleftrightarrow> is_plain_object f \<and>
     (let ty = get_prop f ''type''; v = text_or_empty (get_prop f ''value'')
      in ty = JStr ''regex'' \<and> isRegexSafe v 500 \<or>
         ty = JStr ''custom'' \<and> code_ok 500 v \<or>
         (ty = JStr ''keyword'' \<or> ty = JStr ''role'') \<and> length v \<le> 500)"

lemma filter_errors_Nil: "filter_errors to_string f = [] \<longleftrightarrow> filter_ok f"
  by (auto simp: filter_errors_def filter_ok_def Let_def checkRegex_None checkCode_None
    MAX_CUSTOM_EXPRESSION_def MAX_FILTER_VALUE_def not_less)

definition filters_ok :: "json \<Rightarrow> bool" where
  "filters_ok v \<longleftrightarrow> (case v of JArr fs \<Rightarrow> length fs \<le> 20 \<and> list_all filter_ok fs | _ \<Rightarrow> True)"

lemma checkFilters_Nil: "checkFilters to_string v = [] \<longleftrightarrow> filters_ok v"
  by (auto simp: checkFilters_def filters_ok_def MAX_FILTERS_def list_all_iff filter_errors_Nil not_less split: json.splits)

text \<open>An optional property whose number is an integer from \<open>lo\<close> to \<open>hi\<close>.\<close>

definition limit_ok :: "(json \<Rightarrow> jsnum) \<Rightarrow> json \<Rightarrow> string \<Rightarrow> int \<Rightarrow> int \<Rightarrow> bool" where
  "limit_ok to_number c k lo hi \<longleftrightarrow>
     get_prop c k = JUndef \<or> (\<exists>i. to_number (get_prop c k) = jint i \<and> lo \<le> i \<and> i \<le> hi)"

lemma integer_within_iff: "integer_within v lo (jint hi) \<longleftrightarrow> (\<exists>i. v = jint i \<and> lo \<le> i \<and> i \<le> hi)"
  by (cases v) (auto simp: integer_within_def not_less)

lemma limit_errors_Nil:
  "limit_errors to_number c = [] \<longleftrightarrow>
     limit_ok to_number c ''cooldown'' 0 86400 \<and> limit_ok to_number c ''interval'' 1 86400 \<and>
     limit_ok to_number c ''maxExecutionMs'' 100 600000"
proof -
  have "integer_within v 0 (Num 86400) = integer_within v 0 (jint 86400)"
    "integer_within v 1 (Num 86400) = integer_within v 1 (jint 86400)"
    "integer_within v 100 MAX_EXECUTION_MS = integer_within v 100 (jint 600000)" for v
    by (simp_all add: MAX_EXECUTION_MS_def)
  then have bad: "\<not> (get_prop c k \<noteq> JUndef \<and> \<not> integer_within (to_number (get_prop c k)) 0 (Num 86400)) \<longleftrightarrow> limit_ok to_number c k 0 86400"
    "\<not> (get_prop c k \<noteq> JUndef \<and> \<not> integer_within (to_number (get_prop c k)) 1 (Num 86400)) \<longleftrightarrow> limit_ok to_number c k 1 86400"
    "\<not> (get_prop c k \<noteq> JUndef \<and> \<not> integer_within (to_number (get_prop c k)) 100 MAX_EXECUTION_MS) \<longleftrightarrow>
      limit_ok to_number c k 100 600000" for k
    by (simp_all only: limit_ok_def integer_within_iff not_not de_Morgan_conj)
  have "(if b then [x] else []) = [] \<longleftrightarrow> \<not> b" for b and x :: string by simp
  then show ?thesis by (simp only: limit_errors_def Let_def append_is_Nil_conv bad)
qed

lemma walkActions_Nil:
  "fst (walkActions n v 0 (es, 0)) = [] \<longleftrightarrow>
     es = [] \<and> (v = JUndef \<or> (\<exists>xs. v = JArr xs \<and> length (actions_at 0 xs) \<le> 200 \<and>
       list_all (\<lambda>(d, s). action_ok n d s) (actions_at 0 xs)))"
proof (cases "es = [] \<and> is_array v")
  case True
  then obtain xs where v: "v = JArr xs" by (cases v) auto
  then show ?thesis
    using True walk_steps_clean [of 0 0 xs n] by (simp add: walkActions_def list_all_iff split: if_splits)
next
  case False
  then show ?thesis
    using walk_steps_errors_stay [of "(es, 0)" n 0] by (cases v) (auto simp: walkActions_def)
qed

lemma validate_Nil:
  "validateScriptConfig n to_string to_number config = [] \<longleftrightarrow>
     is_plain_object config \<and> filters_ok (get_prop config ''filters'') \<and>
     (get_prop config ''actions'' = JUndef \<or>
      (\<exists>xs. get_prop config ''actions'' = JArr xs \<and> length (actions_at 0 xs) \<le> 200 \<and>
        list_all (\<lambda>(d, s). action_ok n d s) (actions_at 0 xs))) \<and>
     limit_ok to_number config ''cooldown'' 0 86400 \<and> limit_ok to_number config ''interval'' 1 86400 \<and>
     limit_ok to_number config ''maxExecutionMs'' 100 600000"
  by (auto simp: validateScriptConfig_def walkActions_Nil checkFilters_Nil limit_errors_Nil)

text \<open>
  C21. What a saved script is: the validator reports nothing exactly when the config is an object,
  at most 20 filters are all of a known type within their limits, at most 200 actions occur at any
  depth together, every one of them is a typed object that is nested less than six deep, has no
  oversized payload text and, by its type, safe code of at most 4000 characters, a delay of at most
  five minutes, or an allowed webhook URL, and the three limits are integers in range. The walk over
  nested actions ends on every config.
\<close>

theorem accepted_script_iff:
  "validateScriptConfig n to_string to_number config = [] \<longleftrightarrow>
     is_plain_object config \<and> filters_ok (get_prop config ''filters'') \<and>
     (get_prop config ''actions'' = JUndef \<or>
      (\<exists>xs. get_prop config ''actions'' = JArr xs \<and> length (actions_at 0 xs) \<le> 200 \<and>
        list_all (\<lambda>(d, s). action_ok n d s) (actions_at 0 xs))) \<and>
     limit_ok to_number config ''cooldown'' 0 86400 \<and> limit_ok to_number config ''interval'' 1 86400 \<and>
     limit_ok to_number config ''maxExecutionMs'' 100 600000"
  by (rule validate_Nil)

end
