(* ===== verification/ScriptEngine.thy ===== *)
theory ScriptEngine
  imports Json Texts
begin

text \<open>
  The registry of user scripts, \<open>ScriptEngine\<close> in packages/workers/src/script-engine.ts: the map of
  scripts, the index by bot and trigger that events are looked up in, the counters and the
  cooldowns. How one script runs is in \<open>ScriptRun\<close>.
\<close>

section \<open>Scripts\<close>

text \<open>Configs are cast from JSON: a condition may lack its field, a filter may have any value.\<close>

record condition =
  operator :: string
  field :: "string option"
  cvalue :: json

text \<open>A step: its type, its payload (\<open>JUndef\<close> when absent), its condition, its nested actions.\<close>

datatype step = Step (step_type: string) (payload: json) (step_condition: "condition option") (nested: "step list option")

record filter_spec =
  filter_type :: string
  filter_field :: "string option"
  filter_value :: json

record script =
  script_id :: "string option"
  trigger :: string
  filters :: "filter_spec list"
  actions :: "step list"
  variables :: "(string \<times> json) list"
  cooldown :: "jsnum option"
  interval :: "jsnum option"
  maxExecutionMs :: "jsnum option"

text \<open>\<open>x && x > 0\<close> of an optional number.\<close>

definition positive :: "jsnum option \<Rightarrow> bool" where
  "positive x = (case x of None \<Rightarrow> False | Some v \<Rightarrow> jgt v (Num 0))"

text \<open>
  The counters of a bot are one mutable map that its runs share: the engine holds its address, and a
  run keeps the address it started with.
\<close>

type_synonym counter_map = "(json \<times> jsnum) list"

record engine =
  scripts :: "(string \<times> script) list"
  byTrigger :: "(string \<times> script list) list"
  counters :: "(string \<times> nat) list"
  counterMaps :: "counter_map list"
  cooldowns :: "(string \<times> jsnum) list"

definition new_engine :: engine where
  "new_engine = \<lparr> scripts = [], byTrigger = [], counters = [], counterMaps = [], cooldowns = [] \<rparr>"

section \<open>Operations\<close>

definition triggerKey :: "string \<Rightarrow> string \<Rightarrow> string" where
  "triggerKey bid t = bid @ CHR '':'' # t"

text \<open>\<open>script.id ?\<close>: an empty id counts as none.\<close>

definition id_of :: "script \<Rightarrow> string option" where
  "id_of c = (case script_id c of None \<Rightarrow> None | Some i \<Rightarrow> if i = [] then None else Some i)"

definition scriptKey :: "string \<Rightarrow> script \<Rightarrow> string" where
  "scriptKey bid c =
     (case id_of c of
        None \<Rightarrow> bid @ CHR '':'' # trigger c
      | Some i \<Rightarrow> bid @ CHR '':'' # trigger c @ CHR '':'' # i)"

definition lookup_list :: "(string \<times> 'a list) list \<Rightarrow> string \<Rightarrow> 'a list" where
  "lookup_list m k = (case map_of m k of None \<Rightarrow> [] | Some xs \<Rightarrow> xs)"

definition index_script :: "(string \<times> script) \<Rightarrow> (string \<times> script list) list \<Rightarrow> (string \<times> script list) list" where
  "index_script kc m =
     (let parts = split_on CHR '':'' (fst kc); tKey = triggerKey (parts ! 0) (parts ! 1)
      in AList.update tKey (lookup_list m tKey @ [snd kc]) m)"

definition rebuildIndex :: "engine \<Rightarrow> engine" where
  "rebuildIndex e = e\<lparr> byTrigger := fold index_script (scripts e) [] \<rparr>"

text \<open>\<open>if (!this.counters.has(botId)) this.counters.set(botId, new Map())\<close>\<close>

definition ensure_counters :: "string \<Rightarrow> engine \<Rightarrow> engine" where
  "ensure_counters bid e =
     (if map_of (counters e) bid = None
      then e\<lparr> counters := AList.update bid (length (counterMaps e)) (counters e), counterMaps := counterMaps e @ [[]] \<rparr>
      else e)"

lemma ensure_counters_keeps [simp]:
  "scripts (ensure_counters bid e) = scripts e" "byTrigger (ensure_counters bid e) = byTrigger e"
  "cooldowns (ensure_counters bid e) = cooldowns e"
  by (simp_all add: ensure_counters_def)

definition register :: "string \<Rightarrow> script \<Rightarrow> engine \<Rightarrow> engine" where
  "register bid c e =
     (let key = scriptKey bid c;
          tKey = triggerKey bid (trigger c);
          deduped = filter (\<lambda>x. scriptKey bid x \<noteq> key) (lookup_list (byTrigger e) tKey)
      in ensure_counters bid (e\<lparr> scripts := AList.update key c (scripts e),
                                 byTrigger := AList.update tKey (deduped @ [c]) (byTrigger e) \<rparr>))"

definition of_bot :: "string \<Rightarrow> string \<Rightarrow> bool" where
  "of_bot bid key \<longleftrightarrow> key = bid \<or> starts_with (bid @ '':'') key"

definition unregister :: "string \<Rightarrow> engine \<Rightarrow> engine" where
  "unregister bid e =
     (let e1 = rebuildIndex (e\<lparr> scripts := filter (\<lambda>(k, _). \<not> of_bot bid k) (scripts e) \<rparr>)
      in e1\<lparr> counters := AList.delete bid (counters e1), cooldowns := AList.delete bid (cooldowns e1) \<rparr>)"

definition clear_engine :: "engine \<Rightarrow> engine" where
  "clear_engine e = e\<lparr> scripts := [], byTrigger := [], counters := [], cooldowns := [] \<rparr>"

definition intervalBots :: "engine \<Rightarrow> string list" where
  "intervalBots e = rev (remdups (rev (map (\<lambda>(k, _). split_on CHR '':'' k ! 0) (filter (\<lambda>(_, c). positive (interval c)) (scripts e)))))"

definition matching :: "engine \<Rightarrow> string \<Rightarrow> string \<Rightarrow> script list" where
  "matching e bid t = lookup_list (byTrigger e) (triggerKey bid t)"

definition hasMatch :: "engine \<Rightarrow> string \<Rightarrow> string \<Rightarrow> bool" where
  "hasMatch e bid t \<longleftrightarrow> length (matching e bid t) > 0"

section \<open>Keys\<close>

definition plain :: "string \<Rightarrow> bool" where
  "plain s \<longleftrightarrow> CHR '':'' \<notin> set s"

lemma colon_split: "plain a \<Longrightarrow> plain b \<Longrightarrow> a @ CHR '':'' # x = b @ CHR '':'' # y \<longleftrightarrow> a = b \<and> x = y"
proof (induction a arbitrary: b)
  case (Cons c a)
  then show ?case by (cases b) (auto simp: plain_def)
qed (auto simp: plain_def Cons_eq_append_conv)

lemma triggerKey_inj [simp]:
  "plain a \<Longrightarrow> plain b \<Longrightarrow> triggerKey a t = triggerKey b u \<longleftrightarrow> a = b \<and> t = u"
  by (simp add: triggerKey_def colon_split)

lemma scriptKey_inj [simp]:
  assumes "plain a" "plain b" "plain (trigger c)" "plain (trigger d)"
  shows "scriptKey a c = scriptKey b d \<longleftrightarrow> a = b \<and> trigger c = trigger d \<and> id_of c = id_of d"
proof -
  have no: "plain t \<Longrightarrow> t \<noteq> u @ CHR '':'' # i" for t u i by (auto simp: plain_def)
  show ?thesis
    using assms no [of "trigger c"] no [of "trigger d"] no [of "trigger c", THEN not_sym] no [of "trigger d", THEN not_sym]
    by (auto simp: scriptKey_def colon_split split: option.splits)
qed

lemma scriptKey_parts:
  "plain bid \<Longrightarrow> plain (trigger c) \<Longrightarrow>
   triggerKey (split_on CHR '':'' (scriptKey bid c) ! 0) (split_on CHR '':'' (scriptKey bid c) ! 1) = triggerKey bid (trigger c)"
  by (auto simp: scriptKey_def plain_def split_on_append split_on_none split: option.split)

lemma scriptKey_bot: "plain bid \<Longrightarrow> split_on CHR '':'' (scriptKey bid c) ! 0 = bid"
  by (auto simp: scriptKey_def plain_def split_on_append split: option.split)

lemma starts_with_iff: "starts_with p s \<longleftrightarrow> (\<exists>r. s = p @ r)"
  unfolding starts_with_def by (metis append_eq_conv_conj append_take_drop_id)

lemma of_bot_scriptKey: "plain a \<Longrightarrow> plain bid \<Longrightarrow> of_bot a (scriptKey bid c) \<longleftrightarrow> a = bid"
proof -
  assume p: "plain a" "plain bid"
  have "\<exists>r. scriptKey bid c = bid @ CHR '':'' # r" by (auto simp: scriptKey_def split: option.split)
  then obtain r where r: "scriptKey bid c = bid @ CHR '':'' # r" by blast
  have "starts_with (a @ '':'') (bid @ CHR '':'' # r) \<longleftrightarrow> a = bid"
    using p by (auto simp: starts_with_iff colon_split)
  moreover have "bid @ CHR '':'' # r \<noteq> a" using p by (auto simp: plain_def)
  ultimately show ?thesis by (auto simp: of_bot_def r)
qed

section \<open>The index agrees with the scripts\<close>

definition entries :: "string \<Rightarrow> string \<Rightarrow> (string \<times> script) list \<Rightarrow> script list" where
  "entries b t m = map snd (filter (\<lambda>(k, c). k = scriptKey b c \<and> trigger c = t) m)"

definition keyed :: "(string \<times> script) list \<Rightarrow> bool" where
  "keyed m \<longleftrightarrow> jmap_ok m \<and> (\<forall>(k, c) \<in> set m. plain (trigger c) \<and> (\<exists>b. plain b \<and> k = scriptKey b c))"

definition engine_ok :: "engine \<Rightarrow> bool" where
  "engine_ok e \<longleftrightarrow> keyed (scripts e) \<and>
     (\<forall>b t. plain b \<longrightarrow> plain t \<longrightarrow>
        set (matching e b t) = set (entries b t (scripts e)) \<and> distinct (map (scriptKey b) (matching e b t)))"

lemma engine_okI:
  assumes "keyed (scripts e)"
    and "\<And>b t. plain b \<Longrightarrow> plain t \<Longrightarrow> set (matching e b t) = set (entries b t (scripts e))"
    and "\<And>b t. plain b \<Longrightarrow> plain t \<Longrightarrow> distinct (map (scriptKey b) (matching e b t))"
  shows "engine_ok e"
  using assms by (simp add: engine_ok_def)

lemma engine_okD:
  assumes "engine_ok e"
  shows "keyed (scripts e)"
    and "plain b \<Longrightarrow> plain t \<Longrightarrow> set (matching e b t) = set (entries b t (scripts e))"
    and "plain b \<Longrightarrow> plain t \<Longrightarrow> distinct (map (scriptKey b) (matching e b t))"
  using assms by (simp_all add: engine_ok_def)

lemma set_entries: "set (entries b t m) = {c. (scriptKey b c, c) \<in> set m \<and> trigger c = t}"
  by (force simp: entries_def)

lemma entries_keys: "map (scriptKey b) (entries b t m) = map fst (filter (\<lambda>(k, c). k = scriptKey b c \<and> trigger c = t) m)"
  by (induction m) (auto simp: entries_def)

lemma lookup_list_update [simp]:
  "lookup_list (AList.update k v m) k' = (if k = k' then v else lookup_list m k')"
  by (simp add: lookup_list_def)

lemma lookup_rebuilt:
  assumes "plain b" "plain t" and "\<forall>(k, c) \<in> set sc. plain (trigger c) \<and> (\<exists>b. plain b \<and> k = scriptKey b c)"
  shows "lookup_list (fold index_script sc m) (triggerKey b t) = lookup_list m (triggerKey b t) @ entries b t sc"
  using assms(3)
proof (induction sc arbitrary: m)
  case (Cons kc sc)
  obtain k c where kc: "kc = (k, c)" by (cases kc)
  with Cons.prems obtain a where a: "plain a" "plain (trigger c)" "k = scriptKey a c" by auto
  have "k = scriptKey b c \<and> trigger c = t \<longleftrightarrow> triggerKey a (trigger c) = triggerKey b t"
    using assms a by auto
  then have "lookup_list (index_script kc m) (triggerKey b t) = lookup_list m (triggerKey b t) @ entries b t [kc]"
    unfolding kc index_script_def Let_def fst_conv snd_conv lookup_list_update
    by (auto simp: entries_def a(3) scriptKey_parts [OF a(1,2), simplified])
  then show ?case using Cons by (simp add: entries_def)
qed (simp add: entries_def)

lemma rebuild_ok: "keyed (scripts e) \<Longrightarrow> engine_ok (rebuildIndex e)"
proof (rule engine_okI)
  assume k: "keyed (scripts e)"
  then show "keyed (scripts (rebuildIndex e))" by (simp add: rebuildIndex_def)
  fix b t assume p: "plain b" "plain t"
  have m: "matching (rebuildIndex e) b t = entries b t (scripts e)"
    using k p by (simp add: matching_def rebuildIndex_def lookup_rebuilt keyed_def) (simp add: lookup_list_def)
  then show "set (matching (rebuildIndex e) b t) = set (entries b t (scripts (rebuildIndex e)))"
    by (simp add: rebuildIndex_def)
  show "distinct (map (scriptKey b) (matching (rebuildIndex e) b t))"
    using k by (auto simp: m entries_keys keyed_def intro: distinct_map_filter)
qed

lemma unregister_ok: "engine_ok e \<Longrightarrow> engine_ok (unregister b e)"
proof -
  assume "engine_ok e"
  then have "keyed (filter (\<lambda>(k, _). \<not> of_bot b k) (scripts e))" by (auto simp: engine_ok_def keyed_def)
  then have "engine_ok (rebuildIndex (e\<lparr> scripts := filter (\<lambda>(k, _). \<not> of_bot b k) (scripts e) \<rparr>))"
    by (intro rebuild_ok) simp
  then show ?thesis by (simp add: unregister_def engine_ok_def matching_def Let_def)
qed

lemma set_update: "jmap_ok m \<Longrightarrow> set (AList.update k v m) = {(k, v)} \<union> {(x, y) \<in> set m. x \<noteq> k}"
  by (induction m) (auto simp: image_iff)

lemma matching_register:
  assumes "plain b" "plain b'" "plain t"
  shows "matching (register b' c e) b t =
     (if b' = b \<and> trigger c = t then filter (\<lambda>x. scriptKey b' x \<noteq> scriptKey b' c) (matching e b t) @ [c]
      else matching e b t)"
  using assms by (auto simp: matching_def register_def Let_def)

lemma keyed_register: "keyed (scripts e) \<Longrightarrow> plain b \<Longrightarrow> plain (trigger c) \<Longrightarrow> keyed (scripts (register b c e))"
  by (auto simp: keyed_def register_def Let_def set_update)

lemma register_ok: "engine_ok e \<Longrightarrow> plain b' \<Longrightarrow> plain (trigger c) \<Longrightarrow> engine_ok (register b' c e)"
proof (rule engine_okI)
  assume e: "engine_ok e" and p': "plain b'" "plain (trigger c)"
  show "keyed (scripts (register b' c e))" using e p' by (simp add: keyed_register engine_okD)
  fix b t assume p: "plain b" "plain t"
  have j: "jmap_ok (scripts e)" using e by (simp add: engine_ok_def keyed_def)
  show "set (matching (register b' c e) b t) = set (entries b t (scripts (register b' c e)))"
  proof -
    have sc: "set (scripts (register b' c e)) = {(scriptKey b' c, c)} \<union> {(x, y) \<in> set (scripts e). x \<noteq> scriptKey b' c}"
      using j by (simp add: register_def Let_def set_update)
    have old: "set (matching e b t) = {d. (scriptKey b d, d) \<in> set (scripts e) \<and> trigger d = t}"
      using engine_okD(2) [OF e p] by (simp add: set_entries)
    show ?thesis
    proof (cases "b' = b \<and> trigger c = t")
      case True
      then show ?thesis
        unfolding matching_register [OF p(1) p'(1) p(2)] set_entries sc
        using old by (auto simp del: scriptKey_inj)
    next
      case False
      then have "trigger d = t \<Longrightarrow> scriptKey b d \<noteq> scriptKey b' c" for d
        using p p' by auto
      with False show ?thesis
        unfolding matching_register [OF p(1) p'(1) p(2)] set_entries sc
        using old by (auto simp del: scriptKey_inj)
    qed
  qed
  show "distinct (map (scriptKey b) (matching (register b' c e) b t))"
    unfolding matching_register [OF p(1) p'(1) p(2)]
    using engine_okD(3) [OF e p] by (auto simp: distinct_map_filter simp del: scriptKey_inj)
qed

section \<open>Histories of the registry\<close>

datatype registry_op = Reg string script | Unreg string | ClearAll

fun apply_op :: "registry_op \<Rightarrow> engine \<Rightarrow> engine" where
  "apply_op (Reg b c) e = register b c e"
| "apply_op (Unreg b) e = unregister b e"
| "apply_op ClearAll e = clear_engine e"

text \<open>What should be registered: for each bot, trigger and id the last script since the bot was dropped.\<close>

type_synonym registry = "string \<times> string \<times> string option \<Rightarrow> script option"

fun spec_op :: "registry_op \<Rightarrow> registry \<Rightarrow> registry" where
  "spec_op (Reg b c) A = A((b, trigger c, id_of c) \<mapsto> c)"
| "spec_op (Unreg b) A = (\<lambda>(x, t, i). if x = b then None else A (x, t, i))"
| "spec_op ClearAll A = (\<lambda>_. None)"

fun plain_op :: "registry_op \<Rightarrow> bool" where
  "plain_op (Reg b c) = (plain b \<and> plain (trigger c))"
| "plain_op (Unreg b) = plain b"
| "plain_op ClearAll = True"

definition implements :: "engine \<Rightarrow> registry \<Rightarrow> bool" where
  "implements e A \<longleftrightarrow> engine_ok e \<and>
     (\<forall>b t i c. plain b \<longrightarrow> plain t \<longrightarrow>
        A (b, t, i) = Some c \<longleftrightarrow> (scriptKey b c, c) \<in> set (scripts e) \<and> trigger c = t \<and> id_of c = i)"

lemma implements_empty: "scripts e = [] \<Longrightarrow> byTrigger e = [] \<Longrightarrow> implements e (\<lambda>_. None)"
  by (auto simp: implements_def engine_ok_def keyed_def matching_def lookup_list_def entries_def)

lemma implements_register:
  assumes i: "implements e A" and p: "plain b" "plain (trigger c)"
  shows "implements (register b c e) (spec_op (Reg b c) A)"
proof -
  have e: "engine_ok e" using i by (simp add: implements_def)
  have sc: "set (scripts (register b c e)) = {(scriptKey b c, c)} \<union> {(x, y) \<in> set (scripts e). x \<noteq> scriptKey b c}"
    using e by (simp add: register_def Let_def set_update engine_ok_def keyed_def)
  have "(spec_op (Reg b c) A) (a, t, j) = Some d \<longleftrightarrow>
      (scriptKey a d, d) \<in> set (scripts (register b c e)) \<and> trigger d = t \<and> id_of d = j"
    if a: "plain a" "plain t" for a t j d
  proof (cases "(a, t, j) = (b, trigger c, id_of c)")
    case True
    then show ?thesis using a p by (auto simp: sc)
  next
    case False
    then have "trigger d = t \<Longrightarrow> id_of d = j \<Longrightarrow> scriptKey a d \<noteq> scriptKey b c" using a p by auto
    then show ?thesis
      using False i a by (auto simp: sc implements_def simp del: scriptKey_inj)
  qed
  then show ?thesis using register_ok [OF e p] by (simp add: implements_def)
qed

lemma implements_unregister: "implements e A \<Longrightarrow> plain b \<Longrightarrow> implements (unregister b e) (spec_op (Unreg b) A)"
  by (auto simp: implements_def unregister_ok) (auto simp: unregister_def rebuildIndex_def Let_def of_bot_scriptKey)

lemma implements_step: "implements e A \<Longrightarrow> plain_op x \<Longrightarrow> implements (apply_op x e) (spec_op x A)"
  by (cases x) (auto simp: implements_register implements_unregister clear_engine_def
    intro!: implements_empty simp del: spec_op.simps(1,2))

lemma implements_history:
  "implements e A \<Longrightarrow> list_all plain_op ops \<Longrightarrow> implements (fold apply_op ops e) (fold spec_op ops A)"
  by (induction ops arbitrary: e A) (auto simp: implements_step)

text \<open>
  C22. The trigger index never goes stale: after any history of registrations, reloads, removals and
  clears of bots and triggers without a colon, an event of a bot finds exactly the scripts that were
  registered last for that bot, trigger and id and not removed since, none of them twice, and the
  cheap guard says whether there is one.
\<close>

theorem index_follows_registry:
  assumes "list_all plain_op ops" "plain b" "plain t"
  defines "e \<equiv> fold apply_op ops new_engine" and "A \<equiv> fold spec_op ops (\<lambda>_. None)"
  shows "set (matching e b t) = {c. \<exists>i. A (b, t, i) = Some c} \<and> distinct (map id_of (matching e b t)) \<and>
    (hasMatch e b t \<longleftrightarrow> (\<exists>i. A (b, t, i) \<noteq> None))"
proof -
  have i: "implements e A"
    unfolding e_def A_def by (intro implements_history implements_empty) (simp_all add: new_engine_def assms)
  then have m: "set (matching e b t) = {c. (scriptKey b c, c) \<in> set (scripts e) \<and> trigger c = t}"
    and d: "distinct (map (scriptKey b) (matching e b t))"
    using assms(2,3) by (auto simp: implements_def engine_okD set_entries)
  have s: "set (matching e b t) = {c. \<exists>i. A (b, t, i) = Some c}"
    using i assms(2,3) by (auto simp: m implements_def)
  have t: "trigger c = t" if "c \<in> set (matching e b t)" for c using that m by auto
  have "distinct (map id_of (matching e b t))"
    using d t assms(2,3) by (auto simp: distinct_map inj_on_def)
  moreover have "hasMatch e b t \<longleftrightarrow> (\<exists>i. A (b, t, i) \<noteq> None)"
  proof -
    have "hasMatch e b t \<longleftrightarrow> set (matching e b t) \<noteq> {}" by (simp add: hasMatch_def)
    then show ?thesis unfolding s by auto
  qed
  ultimately show ?thesis using s by blast
qed

definition sample_script :: "string \<Rightarrow> script" where
  "sample_script t = \<lparr> script_id = None, trigger = t, filters = [], actions = [], variables = [],
     cooldown = None, interval = None, maxExecutionMs = None \<rparr>"

theorem index_follows_registry_witness:
  "hasMatch (fold apply_op [Reg ''b1'' (sample_script ''raid''), Reg ''b2'' (sample_script ''raid''), Unreg ''b1''] new_engine)
     ''b2'' ''raid''"
proof -
  have "list_all plain_op [Reg ''b1'' (sample_script ''raid''), Reg ''b2'' (sample_script ''raid''), Unreg ''b1'']"
    by (simp add: plain_def sample_script_def)
  from index_follows_registry [OF this, of "''b2''" "''raid''"] show ?thesis
    by (simp add: plain_def sample_script_def)
qed

text \<open>
  With a colon in the trigger the index is rebuilt under the wrong key: removing one bot silences a
  script of another.
\<close>

lemma colon_trigger_is_lost:
  "hasMatch (register ''b'' (sample_script ''x:y'') new_engine) ''b'' ''x:y'' \<and>
   \<not> hasMatch (unregister ''c'' (register ''b'' (sample_script ''x:y'') new_engine)) ''b'' ''x:y''"
  by (simp add: hasMatch_def matching_def lookup_list_def register_def unregister_def rebuildIndex_def index_script_def
    of_bot_def starts_with_def scriptKey_def id_of_def triggerKey_def sample_script_def new_engine_def)

text \<open>Removing a bot keeps its cooldowns: they are stored under the keys of its scripts.\<close>

lemma cooldowns_survive_unregister:
  "plain b \<Longrightarrow> map_of (cooldowns (unregister b e)) (scriptKey b c) = map_of (cooldowns e) (scriptKey b c)"
proof -
  assume "plain b"
  then have "scriptKey b c \<noteq> b" by (auto simp: scriptKey_def split: option.split)
  then show ?thesis by (simp add: unregister_def rebuildIndex_def Let_def)
qed

end
