(* ===== verification/ScriptRun.thy ===== *)
theory ScriptRun
  imports ScriptEngine ScriptConfig
begin

text \<open>
  How a script runs, packages/workers/src/script-engine.ts: filters, conditions, interpolation and the
  chain of actions. A run is a stack of pending action lists; one step of it is what the code does
  between two turns of the loop of \<open>runActions\<close>, so that the runs of a bot may interleave at any
  of its awaits. What a step finds outside is its \<open>moment\<close>: the clock, the answers of the API,
  a random number, the sandbox threads that are alive. Regular expressions, the VM, \<open>String\<close>, \<open>Number\<close>
  and \<open>JSON.stringify\<close> are fields of the environment. A payload is an object or absent.
\<close>

section \<open>Values of the event\<close>

record run_env =
  guard :: net
  to_string :: "json \<Rightarrow> string"
  to_number :: "json \<Rightarrow> jsnum"
  stringify :: "json \<Rightarrow> string"
  inherited :: "json \<Rightarrow> string \<Rightarrow> json"
  compile :: "string \<Rightarrow> (string \<Rightarrow> bool) option"
  eval_expr :: "string \<Rightarrow> json \<Rightarrow> bool option"

text \<open>
  The trace notes what became of each action that the chain came to: skipped by its condition,
  entered (an \<open>if\<close> with nested actions), done, failed.
\<close>

datatype mark = Skipped | Entered | Done | Failed

record run =
  rn_bot :: string
  rn_platform :: json
  rn_event :: json
  rn_variables :: "(string \<times> json) list"
  rn_counters :: nat
  rn_deadline :: "jsnum option"
  rn_failed :: bool
  rn_frames :: "step list list"
  rn_trace :: "(step \<times> mark) list"

text \<open>Property access that may reach elements and inherited members.\<close>

definition member_value :: "run_env \<Rightarrow> json \<Rightarrow> string \<Rightarrow> json" where
  "member_value E v k =
     (case v of
        JObj ps \<Rightarrow> (case map_of ps k of Some x \<Rightarrow> x | None \<Rightarrow> inherited E v k)
      | JArr xs \<Rightarrow> if k = ''length'' then JNum (jint (int (length xs)))
                  else if all_digits k \<and> nat_text (parse_dec k) = k \<and> parse_dec k < length xs then xs ! parse_dec k
                  else inherited E v k
      | _ \<Rightarrow> JUndef)"

definition path_step :: "run_env \<Rightarrow> json \<Rightarrow> string \<Rightarrow> json" where
  "path_step E acc part =
     (if is_plain_object acc \<or> is_array acc
      then if part \<in> set [''__proto__'', ''constructor'', ''prototype''] then JUndef else member_value E acc part
      else JUndef)"

definition resolvePath :: "run_env \<Rightarrow> json \<Rightarrow> string \<Rightarrow> json" where
  "resolvePath E obj path = foldl (path_step E) obj (split_on CHR ''.'' path)"

definition counter_value :: "counter_map \<Rightarrow> string \<Rightarrow> json" where
  "counter_value m k = (case map_of m (JStr k) of None \<Rightarrow> JUndef | Some n \<Rightarrow> JNum n)"

definition variable_value :: "run \<Rightarrow> string \<Rightarrow> json" where
  "variable_value r k = (case map_of (rn_variables r) k of None \<Rightarrow> JUndef | Some v \<Rightarrow> v)"

section \<open>Interpolation\<close>

definition path_value :: "run_env \<Rightarrow> run \<Rightarrow> counter_map \<Rightarrow> string \<Rightarrow> json" where
  "path_value E r m path =
     (case strip_prefix ''counters.'' path of
        Some k \<Rightarrow> counter_value m k
      | None \<Rightarrow>
          (case strip_prefix ''variables.'' path of
             Some k \<Rightarrow> variable_value r k
           | None \<Rightarrow> nullish_or (resolvePath E (rn_event r) path) (nullish_or (variable_value r path) (counter_value m path))))"

text \<open>\<open>\{(\w+(?:\.\w+)*)\}\<close> at the start of a text: the path and the text behind the brace.\<close>

definition placeholder :: "string \<Rightarrow> (string \<times> string) option" where
  "placeholder s =
     (case s of
        [] \<Rightarrow> None
      | c # t \<Rightarrow>
          (let path = takeWhile (\<lambda>x. word_char x \<or> x = CHR ''.'') t;
               behind = dropWhile (\<lambda>x. word_char x \<or> x = CHR ''.'') t
           in if c = CHR ''{'' \<and> list_all (\<lambda>p. p \<noteq> []) (split_on CHR ''.'' path) \<and> starts_with ''}'' behind
              then Some (path, drop 1 behind) else None))"

lemma placeholder_shorter: "placeholder s = Some (path, t) \<Longrightarrow> length t < length s"
  by (cases s) (auto simp: placeholder_def Let_def le_less_trans [OF length_dropWhile_le] less_Suc_eq_le
    length_dropWhile_le le_diff_conv le_SucI split: if_splits)

function replace_paths :: "(string \<Rightarrow> string) \<Rightarrow> string \<Rightarrow> string" where
  "replace_paths f s =
     (case s of
        [] \<Rightarrow> []
      | c # t \<Rightarrow> (case placeholder s of
                   Some (path, behind) \<Rightarrow> f path @ replace_paths f behind
                 | None \<Rightarrow> c # replace_paths f t))"
  by pat_completeness auto
termination
  by (relation "measure (\<lambda>(f, s). length s)") (auto dest: placeholder_shorter)

declare replace_paths.simps [simp del]

definition interpolate :: "run_env \<Rightarrow> run \<Rightarrow> counter_map \<Rightarrow> string \<Rightarrow> string" where
  "interpolate E r m template =
     replace_paths (\<lambda>path. to_string E (nullish_or (path_value E r m path) (JStr []))) template"

section \<open>Regular expressions\<close>

text \<open>\<open>pattern.replace(/\\./g, '__')\<close>\<close>

fun strip_escapes :: "string \<Rightarrow> string" where
  "strip_escapes (c # d # cs) =
     (if c = CHR 0x5C \<and> d \<noteq> CHR 0x0A \<and> d \<noteq> CHR 0x0D then ''__'' @ strip_escapes cs else c # strip_escapes (d # cs))"
| "strip_escapes s = s"

definition dangerous_group :: "string \<Rightarrow> bool" where
  "dangerous_group r \<longleftrightarrow>
     (case r of
        [] \<Rightarrow> False
      | c # t \<Rightarrow> c = CHR ''('' \<and> list_ex (\<lambda>x. x \<in> set ''+*?{'') (takeWhile (\<lambda>x. x \<noteq> CHR '')'') t) \<and>
          (case dropWhile (\<lambda>x. x \<noteq> CHR '')'') t of _ # q # _ \<Rightarrow> q \<in> set ''+*?{'' | _ \<Rightarrow> False))"

definition looksDangerous :: "string \<Rightarrow> bool" where
  "looksDangerous p \<longleftrightarrow> somewhere (\<lambda>b r. dangerous_group r) None (strip_escapes p)"

definition MAX_CACHED_REGEXES :: nat where "MAX_CACHED_REGEXES = 512"

type_synonym regex_cache = "(string \<times> (string \<Rightarrow> bool) option) list"

definition cachedRegex :: "run_env \<Rightarrow> string \<Rightarrow> regex_cache \<Rightarrow> (string \<Rightarrow> bool) option \<times> regex_cache" where
  "cachedRegex E p cache =
     (case map_of cache p of
        Some r \<Rightarrow> (r, cache)
      | None \<Rightarrow>
          if looksDangerous p then (None, AList.update p None cache)
          else case compile E p of
                 None \<Rightarrow> (None, AList.update p None cache)
               | Some f \<Rightarrow>
                   (let evicted = (if length cache \<ge> MAX_CACHED_REGEXES
                                   then AList.delete (fst (hd cache)) cache else cache)
                    in (Some f, AList.update p (Some f) evicted)))"

text \<open>What the cache stands for, and that it is transparent.\<close>

definition regex_of :: "run_env \<Rightarrow> string \<Rightarrow> (string \<Rightarrow> bool) option" where
  "regex_of E p = (if looksDangerous p then None else compile E p)"

definition cache_ok :: "run_env \<Rightarrow> regex_cache \<Rightarrow> bool" where
  "cache_ok E cache \<longleftrightarrow> (\<forall>p r. map_of cache p = Some r \<longrightarrow> r = regex_of E p)"

lemma cachedRegex_transparent:
  "cache_ok E cache \<Longrightarrow> fst (cachedRegex E p cache) = regex_of E p \<and> cache_ok E (snd (cachedRegex E p cache))"
  by (auto simp: cachedRegex_def cache_ok_def regex_of_def Let_def split: option.split if_splits)

text \<open>The bound of the cache only holds for patterns that compile.\<close>

lemma cachedRegex_unbounded:
  "looksDangerous p \<Longrightarrow> map_of cache p = None \<Longrightarrow> length (snd (cachedRegex E p cache)) = Suc (length cache)"
  by (simp add: cachedRegex_def length_jset flip: map_of_eq_None_iff)

text \<open>The validator accepts patterns that the engine then treats as never matching.\<close>

lemma accepted_regex_never_matches: "isRegexSafe ''(a?b)+'' 500 \<and> regex_of E ''(a?b)+'' = None"
  by (simp add: isRegexSafe_def QUANTIFIED_GROUP_REDOS_def quantified_group_def back_reference_def lookaround_def
    regex_of_def looksDangerous_def dangerous_group_def starts_with_def)

section \<open>Filters and conditions\<close>

definition counters_object :: "run_env \<Rightarrow> counter_map \<Rightarrow> json" where
  "counters_object E m = JObj (map (\<lambda>(k, n). (to_string E k, JNum n)) m)"

text \<open>A copy without functions, of which JSON values have none.\<close>

fun toSafeSnapshot :: "json \<Rightarrow> json" where
  "toSafeSnapshot (JArr xs) = JArr (map toSafeSnapshot xs)"
| "toSafeSnapshot (JObj ps) = JObj (map (\<lambda>p. (fst p, toSafeSnapshot (snd p))) ps)"
| "toSafeSnapshot v = v"

definition ctxSnapshot :: "run_env \<Rightarrow> run \<Rightarrow> counter_map \<Rightarrow> json" where
  "ctxSnapshot E r m = toSafeSnapshot (JObj
     [(''botId'', JStr (rn_bot r)), (''platform'', rn_platform r), (''event'', rn_event r),
      (''variables'', JObj (rn_variables r)), (''counters'', counters_object E m)])"

definition MAX_CUSTOM_CODE :: nat where "MAX_CUSTOM_CODE = 4000"
definition MAX_CUSTOM_EXPRESSION :: nat where "MAX_CUSTOM_EXPRESSION = 500"
definition MAX_DELAY_MS :: jsnum where "MAX_DELAY_MS = Num 300000"
definition MAX_SANDBOX_WORKERS :: nat where "MAX_SANDBOX_WORKERS = 10"

definition isCodeAllowed :: "string \<Rightarrow> bool" where
  "isCodeAllowed code \<longleftrightarrow> \<not> length code > MAX_CUSTOM_CODE \<and> \<not> forbidden_code code"

text \<open>\<open>\bw\b\<close> for async and await, \<open>new\s+Promise\b\<close>, \<open>\.then\s*\(\<close> and \<open>\.catch\s*\(\<close>\<close>

definition new_promise :: "string \<Rightarrow> bool" where
  "new_promise r \<longleftrightarrow> starts_with ''new'' r \<and>
     (let t = drop 3 r; u = dropWhile space_char t
      in u \<noteq> t \<and> starts_with ''Promise'' u \<and> no_word_after (drop 7 u))"

definition forbidden_expression :: "string \<Rightarrow> bool" where
  "forbidden_expression s \<longleftrightarrow>
     bounded_word ''async'' s \<or> bounded_word ''await'' s \<or> somewhere (\<lambda>b r. new_promise r) None s \<or>
     somewhere (\<lambda>b r. opens_call ''.then'' r) None s \<or> somewhere (\<lambda>b r. opens_call ''.catch'' r) None s"

text \<open>\<open>value.length\<close>, a number for texts and lists only, unless an object has such a property.\<close>

definition length_value :: "json \<Rightarrow> jsnum" where
  "length_value v =
     (case v of
        JStr s \<Rightarrow> jint (int (length s))
      | JArr xs \<Rightarrow> jint (int (length xs))
      | JObj ps \<Rightarrow> (case get_prop v ''length'' of JNum n \<Rightarrow> n | _ \<Rightarrow> NaN)
      | _ \<Rightarrow> NaN)"

text \<open>The check is given the value, of which patterns see the text.\<close>

definition isExpressionAllowed :: "json \<Rightarrow> string \<Rightarrow> bool" where
  "isExpressionAllowed v s \<longleftrightarrow> \<not> jgt (length_value v) (jint (int MAX_CUSTOM_EXPRESSION)) \<and>
     \<not> forbidden_code s \<and> \<not> forbidden_expression s"

text \<open>
  A filter matches, does not, or throws. \<open>filter.value\<close> is used as a text without a check, so a value
  of another kind throws where a method of it is called.
\<close>

datatype verdict = Matches | Misses | Throws

definition verdict_of :: "bool \<Rightarrow> verdict" where
  "verdict_of b = (if b then Matches else Misses)"

definition filter_target :: "run_env \<Rightarrow> run \<Rightarrow> filter_spec \<Rightarrow> json \<Rightarrow> json" where
  "filter_target E r f other =
     (case filter_field f of
        None \<Rightarrow> other
      | Some p \<Rightarrow> if p = [] then other else nullish_or (resolvePath E (rn_event r) p) (JStr []))"

definition text_includes :: "string \<Rightarrow> string \<Rightarrow> bool" where
  "text_includes part s \<longleftrightarrow> somewhere (\<lambda>b r. starts_with part r) None s"

definition custom_filter :: "run_env \<Rightarrow> run \<Rightarrow> counter_map \<Rightarrow> json \<Rightarrow> verdict" where
  "custom_filter E r m v =
     (if nullish v then Throws
      else let s = (case v of JStr s \<Rightarrow> s | _ \<Rightarrow> to_string E v)
           in if \<not> isExpressionAllowed v s then Misses
              else case eval_expr E s (ctxSnapshot E r m) of None \<Rightarrow> Misses | Some b \<Rightarrow> verdict_of b)"

definition filter_verdict :: "run_env \<Rightarrow> run \<Rightarrow> counter_map \<Rightarrow> filter_spec \<Rightarrow> verdict" where
  "filter_verdict E r m f =
     (let event = rn_event r;
          text = nullish_or (get_prop event ''text'') (nullish_or (get_prop event ''message'') (JStr []));
          ty = filter_type f
      in if ty = ''role''
         then (let target = filter_target E r f (nullish_or (get_prop event ''role'') (JStr []))
               in verdict_of (to_lower (to_string E target) = to_lower (to_string E (filter_value f))))
         else if ty = ''regex''
         then (case filter_value f of
                 JStr v \<Rightarrow> if length v > 500 then Misses
                           else (case regex_of E v of
                                   None \<Rightarrow> Misses
                                 | Some test \<Rightarrow> verdict_of (test (to_string E (filter_target E r f text))))
               | _ \<Rightarrow> Throws)
         else if ty = ''keyword''
         then (case (filter_target E r f text, filter_value f) of
                 (JStr t, JStr v) \<Rightarrow> verdict_of (text_includes (to_lower v) (to_lower t))
               | _ \<Rightarrow> Throws)
         else if ty = ''custom''
         then custom_filter E r m (filter_value f)
         else Matches)"

text \<open>\<open>filters.every\<close>: in order, until one misses or throws.\<close>

fun matchesFilters :: "run_env \<Rightarrow> run \<Rightarrow> counter_map \<Rightarrow> filter_spec list \<Rightarrow> verdict" where
  "matchesFilters E r m [] = Matches"
| "matchesFilters E r m (f # fs) =
     (case filter_verdict E r m f of Matches \<Rightarrow> matchesFilters E r m fs | v \<Rightarrow> v)"

text \<open>\<open>===\<close>: objects of the event and of the config are never the same.\<close>

definition strict_equal :: "json \<Rightarrow> json \<Rightarrow> bool" where
  "strict_equal a b \<longleftrightarrow> a = b \<and> a \<noteq> JNum NaN \<and> \<not> is_array a \<and> \<not> is_plain_object a"

definition left_value :: "run_env \<Rightarrow> run \<Rightarrow> counter_map \<Rightarrow> string \<Rightarrow> json" where
  "left_value E r m f =
     (case strip_prefix ''counters.'' f of
        Some k \<Rightarrow> counter_value m k
      | None \<Rightarrow>
          (case strip_prefix ''variables.'' f of
             Some k \<Rightarrow> variable_value r k
           | None \<Rightarrow>
               (let v = resolvePath E (rn_event r) f;
                    v2 = (if v = JUndef then variable_value r f else v)
                in if v2 = JUndef then counter_value m f else v2)))"

definition evaluateCondition :: "run_env \<Rightarrow> run \<Rightarrow> counter_map \<Rightarrow> condition \<Rightarrow> verdict" where
  "evaluateCondition E r m c =
     (case field c of
        None \<Rightarrow> Throws
      | Some f \<Rightarrow>
          (let left = left_value E r m f; right = cvalue c; op = operator c; num = to_number E
           in if op = ''eq'' then verdict_of (strict_equal left right)
              else if op = ''ne'' then verdict_of (\<not> strict_equal left right)
              else if op = ''gt'' then verdict_of (jgt (num left) (num right))
              else if op = ''gte'' then verdict_of (jge (num left) (num right))
              else if op = ''lt'' then verdict_of (jlt (num left) (num right))
              else if op = ''lte'' then verdict_of (jle (num left) (num right))
              else if op = ''contains'' then verdict_of (text_includes (to_string E right) (to_string E left))
              else if op = ''regex''
              then (let pattern = to_string E right
                    in if length pattern > 500 then Misses
                       else (case regex_of E pattern of
                               None \<Rightarrow> Misses | Some test \<Rightarrow> verdict_of (test (to_string E left))))
              else if op = ''exists'' then verdict_of (\<not> nullish left)
              else Matches))"

lemma verdict_of_simps [simp]: "verdict_of b = Matches \<longleftrightarrow> b" "verdict_of b \<noteq> Throws"
  by (simp_all add: verdict_of_def)

lemma matchesFilters_Matches:
  "matchesFilters E r m fs = Matches \<longleftrightarrow> list_all (\<lambda>f. filter_verdict E r m f = Matches) fs"
  by (induction fs) (auto split: verdict.split)

section \<open>Actions\<close>

datatype api_call =
    SendMessage string string json
  | Say string string
  | React json
  | ApiLog string string json
  | Fetch string string
  | RunCode string json
  | Sleep jsnum

text \<open>What a step finds outside of the engine; \<open>answers c\<close>: the call resolves.\<close>

record moment =
  clock :: jsnum
  answers :: "api_call \<Rightarrow> bool"
  random :: rat
  threads :: nat

text \<open>Awaited calls in order, up to the first that rejects: the calls made, and whether one rejected.\<close>

fun awaits :: "(api_call \<Rightarrow> bool) \<Rightarrow> api_call list \<Rightarrow> api_call list \<times> bool" where
  "awaits ans [] = ([], False)"
| "awaits ans (c # cs) =
     (if ans c then (case awaits ans cs of (done, threw) \<Rightarrow> (c # done, threw)) else ([c], True))"

definition THUMBS_UP :: string where
  "THUMBS_UP = [CHR 0xF0, CHR 0x9F, CHR 0x91, CHR 0x8D]"

text \<open>Where a reply goes: the chat of the payload or of the event, or else the channel.\<close>

definition send_reply :: "run_env \<Rightarrow> run \<Rightarrow> step \<Rightarrow> string \<Rightarrow> api_call list" where
  "send_reply E r s text =
     (let event = rn_event r;
          chatId = to_string E (nullish_or (get_prop (payload s) ''chatId'')
            (nullish_or (get_prop event ''chatId'') (nullish_or (get_prop event ''id'') (JStr []))))
      in if chatId \<noteq> [] \<and> chatId \<noteq> ''undefined'' then [SendMessage chatId text (payload s)]
         else if truthy (get_prop event ''channel'') then [Say (to_string E (get_prop event ''channel'')) text]
         else [])"

text \<open>The calls of \<open>handleReply\<close>; \<open>None\<close> when the text is not one and \<open>replace\<close> throws.\<close>

definition handleReply :: "run_env \<Rightarrow> run \<Rightarrow> counter_map \<Rightarrow> step \<Rightarrow> api_call list option" where
  "handleReply E r m s =
     (case nullish_or (get_prop (payload s) ''text'') (JStr []) of
        JStr t \<Rightarrow> Some (send_reply E r s (interpolate E r m t))
      | _ \<Rightarrow> None)"

definition handleRandomReply :: "run_env \<Rightarrow> rat \<Rightarrow> run \<Rightarrow> counter_map \<Rightarrow> step \<Rightarrow> api_call list" where
  "handleRandomReply E rnd r m s =
     (case get_prop (payload s) ''variants'' of
        JArr variants \<Rightarrow>
          if variants = [] then []
          else let picked = variants ! random_index rnd (length variants)
               in send_reply E r s (interpolate E r m (to_string E (nullish_or picked (JStr []))))
      | _ \<Rightarrow> [])"

definition handleSay :: "run_env \<Rightarrow> run \<Rightarrow> counter_map \<Rightarrow> step \<Rightarrow> api_call list" where
  "handleSay E r m s =
     (let channel = get_prop (payload s) ''channel'';
          text = interpolate E r m (to_string E (nullish_or (get_prop (payload s) ''message'') (JStr [])))
      in if truthy channel \<and> text \<noteq> [] then [Say (to_string E channel) text] else [])"

text \<open>\<open>if (!payload.k && v) payload.k = v\<close>\<close>

definition default_prop :: "string \<Rightarrow> json \<Rightarrow> (string \<times> json) list \<Rightarrow> (string \<times> json) list" where
  "default_prop k v ps = (if \<not> truthy (get_prop (JObj ps) k) \<and> truthy v then AList.update k v ps else ps)"

definition react_payload :: "json \<Rightarrow> step \<Rightarrow> (string \<times> json) list" where
  "react_payload event s =
     (let ps0 = (case payload s of JObj ps \<Rightarrow> ps | _ \<Rightarrow> []);
          ps1 = default_prop ''chatId'' (get_prop event ''chatId'') ps0;
          ps2 = default_prop ''messageId'' (get_prop event ''messageId'') ps1;
          ps3 = default_prop ''messageId'' (get_prop event ''tweetId'') ps2;
          ps4 = default_prop ''userId'' (get_prop event ''authorId'') ps3
      in default_prop ''reaction'' (JStr THUMBS_UP) ps4)"

definition handleReact :: "run_env \<Rightarrow> run \<Rightarrow> step \<Rightarrow> api_call list" where
  "handleReact E r s =
     (let ps = react_payload (rn_event r) s
      in if \<not> truthy (get_prop (JObj ps) ''messageId'') \<and> \<not> truthy (get_prop (JObj ps) ''chatId'') then []
         else [React (JObj ps),
               ApiLog ''info'' (''Reacted on '' @ to_string E (get_prop (rn_event r) ''type'') @ '' event'') (JObj ps)])"

definition handleForward :: "run_env \<Rightarrow> run \<Rightarrow> step \<Rightarrow> api_call list" where
  "handleForward E r s =
     (let target = get_prop (payload s) ''to''
      in if \<not> truthy target then []
         else [SendMessage (to_string E target) (stringify E (rn_event r)) JUndef,
               ApiLog ''info'' (''Forwarded event to '' @ to_string E target) JUndef])"

definition handleIncrementCounter :: "step \<Rightarrow> counter_map \<Rightarrow> counter_map" where
  "handleIncrementCounter s m =
     (let name = get_prop (payload s) ''name''
      in if \<not> truthy name then m
         else AList.update name (jadd (jget_or (Num 0) m name) (Num 1)) m)"

definition handleLog :: "run_env \<Rightarrow> step \<Rightarrow> api_call list" where
  "handleLog E s = [ApiLog ''info'' (to_string E (nullish_or (get_prop (payload s) ''message'') (JStr ''Script log''))) (payload s)]"

definition handleDelay :: "run_env \<Rightarrow> step \<Rightarrow> api_call list" where
  "handleDelay E s = [Sleep (jmin (to_number E (nullish_or (get_prop (payload s) ''ms'') (JNum (Num 1000)))) MAX_DELAY_MS)]"

definition handleWebhook :: "run_env \<Rightarrow> run \<Rightarrow> counter_map \<Rightarrow> step \<Rightarrow> api_call list" where
  "handleWebhook E r m s =
     (let url = get_prop (payload s) ''url''; u = to_string E url
      in if \<not> truthy url \<or> \<not> isWebhookUrlAllowed (guard E) u then []
         else let body = (case payload s of JObj ps \<Rightarrow> filter (\<lambda>(k, _). k \<noteq> ''url'') ps | _ \<Rightarrow> [])
              in [Fetch u (stringify E (JObj [(''data'', JObj body), (''ctx'', ctxSnapshot E r m)]))])"

text \<open>The code of a custom action runs when it is allowed and a sandbox thread is free.\<close>

definition handleCustom :: "run_env \<Rightarrow> nat \<Rightarrow> run \<Rightarrow> counter_map \<Rightarrow> step \<Rightarrow> api_call list" where
  "handleCustom E alive r m s =
     (let c = nullish_or (get_prop (payload s) ''code'') (JStr []);
          code = (case c of JStr t \<Rightarrow> t | v \<Rightarrow> to_string E v)
      in if \<not> isCodeAllowed code then []
         else if alive \<ge> MAX_SANDBOX_WORKERS then []
         else [RunCode code (ctxSnapshot E r m)])"

text \<open>
  One action: the counters after it, the calls it made, whether it failed without throwing, and
  whether it threw. \<open>react\<close> and \<open>custom\<close> catch their own errors.
\<close>

record outcome =
  oc_counters :: counter_map
  oc_calls :: "api_call list"
  oc_failed :: bool
  oc_threw :: bool

definition calling :: "counter_map \<Rightarrow> moment \<Rightarrow> api_call list \<Rightarrow> outcome" where
  "calling m mo cs = (case awaits (answers mo) cs of
     (made, threw) \<Rightarrow> \<lparr> oc_counters = m, oc_calls = made, oc_failed = False, oc_threw = threw \<rparr>)"

definition calling_caught :: "counter_map \<Rightarrow> moment \<Rightarrow> api_call list \<Rightarrow> outcome" where
  "calling_caught m mo cs = (case awaits (answers mo) cs of
     (made, threw) \<Rightarrow> \<lparr> oc_counters = m, oc_calls = made, oc_failed = threw, oc_threw = False \<rparr>)"

definition perform :: "run_env \<Rightarrow> moment \<Rightarrow> run \<Rightarrow> counter_map \<Rightarrow> step \<Rightarrow> outcome" where
  "perform E mo r m s =
     (let ty = step_type s
      in if ty = ''reply''
         then (case handleReply E r m s of
                 None \<Rightarrow> \<lparr> oc_counters = m, oc_calls = [], oc_failed = False, oc_threw = True \<rparr>
               | Some cs \<Rightarrow> calling m mo cs)
         else if ty = ''random_reply'' then calling m mo (handleRandomReply E (random mo) r m s)
         else if ty = ''say'' then calling m mo (handleSay E r m s)
         else if ty = ''react'' then calling_caught m mo (handleReact E r s)
         else if ty = ''forward'' then calling m mo (handleForward E r s)
         else if ty = ''increment_counter'' then calling (handleIncrementCounter s m) mo []
         else if ty = ''log'' then calling m mo (handleLog E s)
         else if ty = ''delay'' then calling m mo (handleDelay E s)
         else if ty = ''webhook'' then calling m mo (handleWebhook E r m s)
         else if ty = ''custom'' then calling_caught m mo (handleCustom E (threads mo) r m s)
         else calling m mo [])"

section \<open>The chain of actions\<close>

definition marked :: "step \<Rightarrow> mark \<Rightarrow> run \<Rightarrow> run" where
  "marked s k r = r\<lparr> rn_trace := rn_trace r @ [(s, k)], rn_failed := (rn_failed r \<or> k = Failed) \<rparr>"

definition deadline_passed :: "moment \<Rightarrow> run \<Rightarrow> bool" where
  "deadline_passed mo r = (case rn_deadline r of None \<Rightarrow> False | Some d \<Rightarrow> jge (clock mo) d)"

text \<open>The catch block: the failure is logged, and whether that works does not matter.\<close>

definition failure_log :: "step \<Rightarrow> api_call" where
  "failure_log s = ApiLog ''error'' (''Script action '' @ [CHR 0x22] @ step_type s @ [CHR 0x22] @ '' failed'') JUndef"

definition enters :: "step \<Rightarrow> step list option" where
  "enters s = (if step_type s = ''if'' then nested s else None)"

definition run_action :: "run_env \<Rightarrow> moment \<Rightarrow> step \<Rightarrow> step list \<Rightarrow> step list list \<Rightarrow> counter_map \<times> run
    \<Rightarrow> (counter_map \<times> run) \<times> api_call list" where
  "run_action E mo s ss rest st =
     (let (m, r) = st; r1 = r\<lparr> rn_frames := ss # rest \<rparr>
      in case (case step_condition s of None \<Rightarrow> Matches | Some c \<Rightarrow> evaluateCondition E r m c) of
           Throws \<Rightarrow> ((m, marked s Failed r1), [failure_log s])
         | Misses \<Rightarrow> ((m, marked s Skipped r1), [])
         | Matches \<Rightarrow>
             (case enters s of
                Some xs \<Rightarrow> ((m, marked s Entered (r1\<lparr> rn_frames := xs # ss # rest \<rparr>)), [])
              | None \<Rightarrow>
                  (let out = perform E mo r m s
                   in if oc_threw out then ((oc_counters out, marked s Failed r1), oc_calls out @ [failure_log s])
                      else ((oc_counters out, marked s (if oc_failed out then Failed else Done) r1), oc_calls out))))"

definition run_step :: "run_env \<Rightarrow> moment \<Rightarrow> counter_map \<times> run \<Rightarrow> (counter_map \<times> run) \<times> api_call list" where
  "run_step E mo st =
     (case rn_frames (snd st) of
        [] \<Rightarrow> (st, [])
      | [] # rest \<Rightarrow> ((fst st, (snd st)\<lparr> rn_frames := rest \<rparr>), [])
      | (s # ss) # rest \<Rightarrow>
          if deadline_passed mo (snd st) then ((fst st, (snd st)\<lparr> rn_frames := rest \<rparr>), [])
          else run_action E mo s ss rest st)"

text \<open>After the chain: a passed deadline is reported, a failed run is notified once.\<close>

definition finish_run :: "moment \<Rightarrow> run \<Rightarrow> run \<times> api_call list \<times> string list" where
  "finish_run mo r =
     (let over = deadline_passed mo r; r1 = r\<lparr> rn_failed := (rn_failed r \<or> over) \<rparr>
      in (r1, if over then [ApiLog ''warn'' ''Script exceeded its maxExecutionMs'' JUndef] else [],
          if rn_failed r1 then [rn_bot r1] else []))"

section \<open>Starting runs\<close>

text \<open>\<open>runScript\<close> up to its chain: the cooldown, then the shared counters, the deadline, the filters.\<close>

datatype launch = Blocked | NoMatch | FilterThrew | Started run

definition cooldown_blocks :: "string \<Rightarrow> script \<Rightarrow> jsnum \<Rightarrow> engine \<Rightarrow> bool" where
  "cooldown_blocks key c now e \<longleftrightarrow>
     (case cooldown c of
        None \<Rightarrow> False
      | Some s \<Rightarrow> jlt (jsub now (jget_or (Num 0) (cooldowns e) key)) (jmul s (Num 1000)))"

definition start_cooldown :: "bool \<Rightarrow> string \<Rightarrow> script \<Rightarrow> jsnum \<Rightarrow> engine \<Rightarrow> engine" where
  "start_cooldown ignoreCooldown key c now e =
     (if \<not> ignoreCooldown \<and> positive (cooldown c) then e\<lparr> cooldowns := AList.update key now (cooldowns e) \<rparr> else e)"

definition new_run :: "string \<Rightarrow> script \<Rightarrow> json \<Rightarrow> jsnum \<Rightarrow> nat \<Rightarrow> run" where
  "new_run bid c event now a =
     \<lparr> rn_bot = bid, rn_platform = get_prop event ''platform'', rn_event = event, rn_variables = variables c,
       rn_counters = a,
       rn_deadline = (case maxExecutionMs c of
                        Some ms \<Rightarrow> if positive (Some ms) then Some (jadd now ms) else None | None \<Rightarrow> None),
       rn_failed = False, rn_frames = [actions c], rn_trace = [] \<rparr>"

definition runScript :: "run_env \<Rightarrow> bool \<Rightarrow> jsnum \<Rightarrow> jsnum \<Rightarrow> string \<Rightarrow> json \<Rightarrow> script \<Rightarrow> engine \<Rightarrow> engine \<times> launch" where
  "runScript E ignoreCooldown now now2 bid event c e =
     (let key = scriptKey bid c
      in if \<not> ignoreCooldown \<and> positive (cooldown c) \<and> cooldown_blocks key c now e then (e, Blocked)
         else let e1 = ensure_counters bid (start_cooldown ignoreCooldown key c now e);
                  a = (case map_of (counters e1) bid of Some a \<Rightarrow> a | None \<Rightarrow> 0);
                  r = new_run bid c event now2 a
              in (case matchesFilters E r (counterMaps e1 ! a) (filters c) of
                    Matches \<Rightarrow> (e1, Started r) | Misses \<Rightarrow> (e1, NoMatch) | Throws \<Rightarrow> (e1, FilterThrew)))"

text \<open>\<open>execute\<close>: the scripts that an event starts, one after the other; their runs interleave.\<close>

definition execute :: "string \<Rightarrow> json \<Rightarrow> engine \<Rightarrow> engine \<times> script list" where
  "execute bid event e =
     (ensure_counters bid e, (case get_prop event ''type'' of JStr t \<Rightarrow> matching e bid t | _ \<Rightarrow> []))"

text \<open>
  The cooldown starts before the filters are asked: an event that the script is not for blocks the
  next one that it is for.
\<close>

lemma missed_event_blocks_next:
  assumes "cooldown c = Some (jint s)" "0 < s" "s < 1000" "0 \<le> t" "t < 2 ^ 43" "0 \<le> d" "d < s * 1000"
    and "\<not> cooldown_blocks (scriptKey bid c) c (jint t) e"
    and "runScript E False (jint t) now2 bid ev1 c e = (e1, NoMatch)"
  shows "runScript E False (jint (t + d)) now3 bid ev2 c e1 = (e1, Blocked)"
proof -
  have p: "positive (cooldown c)" using assms(1,2) by (simp add: positive_def)
  have "e1 = ensure_counters bid (start_cooldown False (scriptKey bid c) c (jint t) e)"
    using assms(8,9) by (auto simp: runScript_def Let_def split: verdict.splits if_splits)
  then have "map_of (cooldowns e1) (scriptKey bid c) = Some (jint t)"
    using p by (simp add: start_cooldown_def)
  moreover have "jsub (jint (t + d)) (jint t) = jint d"
    using jsub_int [of "t + d" t] assms(5,6,7,3) by simp
  moreover have "jmul (jint s) (Num 1000) = jint (s * 1000)"
    using jmul_int [of s 1000] assms(2,3) by simp
  ultimately have "cooldown_blocks (scriptKey bid c) c (jint (t + d)) e1"
    using assms(1,7) by (simp add: cooldown_blocks_def jget_or_def)
  with p show ?thesis by (simp add: runScript_def Let_def)
qed

section \<open>Every run ends and reaches its actions\<close>

text \<open>The steps of a run with whatever counters other runs leave it with.\<close>

definition run_among :: "run_env \<Rightarrow> (moment \<times> counter_map) list \<Rightarrow> run \<Rightarrow> run" where
  "run_among E world r = foldl (\<lambda>r (mo, m). snd (fst (run_step E mo (m, r)))) r world"

fun cost :: "step \<Rightarrow> nat" where
  "cost (Step ty p c None) = 1"
| "cost (Step ty p c (Some xs)) = 2 + sum_list (map cost xs)"

definition costs :: "step list \<Rightarrow> nat" where
  "costs ss = Suc (sum_list (map cost ss))"

definition frames_cost :: "step list list \<Rightarrow> nat" where
  "frames_cost fs = sum_list (map costs fs)"

lemma cost_pos: "0 < cost s"
  by (cases s rule: cost.cases) auto

lemma cost_enters: "enters s = Some xs \<Longrightarrow> cost s = Suc (costs xs)"
  by (cases s rule: cost.cases) (auto simp: enters_def costs_def split: if_splits)

text \<open>The actions a chain comes to, in order: those nested in an \<open>if\<close> only when it is entered.\<close>

inductive visits :: "step list \<Rightarrow> (step \<times> mark) list \<Rightarrow> bool" where
  visits_nil: "visits [] []"
| visits_enter: "enters s = Some xs \<Longrightarrow> visits xs tr \<Longrightarrow> visits ss tr' \<Longrightarrow> visits (s # ss) ((s, Entered) # tr @ tr')"
| visits_step: "k \<noteq> Entered \<Longrightarrow> k = Done \<longrightarrow> enters s = None \<Longrightarrow> visits ss tr \<Longrightarrow> visits (s # ss) ((s, k) # tr)"

inductive_simps visits_nil_iff [simp]: "visits [] tr"

fun visits_frames :: "step list list \<Rightarrow> (step \<times> mark) list \<Rightarrow> bool" where
  "visits_frames [] tr \<longleftrightarrow> tr = []"
| "visits_frames (f # fs) tr \<longleftrightarrow> (\<exists>t t'. tr = t @ t' \<and> visits f t \<and> visits_frames fs t')"

lemma visits_frames_enter:
  assumes "enters s = Some xs" and "visits_frames (xs # ss # fs) tr"
  shows "visits_frames ((s # ss) # fs) ((s, Entered) # tr)"
proof -
  obtain a b c where "tr = a @ b @ c" "visits xs a" "visits ss b" "visits_frames fs c" using assms(2) by auto
  moreover from this have "visits (s # ss) ((s, Entered) # a @ b)" using assms(1) by (intro visits_enter)
  ultimately show ?thesis unfolding visits_frames.simps by - (rule exI [of _ "(s, Entered) # a @ b"], rule exI [of _ c], simp)
qed

lemma visits_frames_step:
  assumes "k \<noteq> Entered" "k = Done \<longrightarrow> enters s = None" and "visits_frames (ss # fs) tr"
  shows "visits_frames ((s # ss) # fs) ((s, k) # tr)"
proof -
  obtain a b where "tr = a @ b" "visits ss a" "visits_frames fs b" using assms(3) by auto
  moreover from this have "visits (s # ss) ((s, k) # a)" using assms(1,2) by (intro visits_step)
  ultimately show ?thesis unfolding visits_frames.simps by - (rule exI [of _ "(s, k) # a"], rule exI [of _ b], simp)
qed

text \<open>What one step does to the run.\<close>

lemma run_action_cases:
  fixes E mo s ss rest m r
  defines "r' \<equiv> snd (fst (run_action E mo s ss rest (m, r)))"
  shows "rn_deadline r' = rn_deadline r \<and> rn_bot r' = rn_bot r \<and>
    (\<exists>k. rn_trace r' = rn_trace r @ [(s, k)] \<and> rn_failed r' = (rn_failed r \<or> k = Failed) \<and>
      (if k = Entered then \<exists>xs. enters s = Some xs \<and> rn_frames r' = xs # ss # rest
       else rn_frames r' = ss # rest \<and> (k = Done \<longrightarrow> enters s = None)))"
  unfolding r'_def run_action_def Let_def
  by (auto simp: marked_def split: verdict.split option.split)

lemma run_step_frames_cost:
  "frames_cost (rn_frames (snd (fst (run_step E mo (m, r))))) \<le> frames_cost (rn_frames r) - 1"
proof (cases "rn_frames r")
  case (Cons f rest)
  show ?thesis
  proof (cases f)
    case (Cons s ss)
    note f = this
    show ?thesis
    proof (cases "deadline_passed mo r")
      case False
      then show ?thesis
        using run_action_cases [of E mo s ss rest m r] \<open>rn_frames r = f # rest\<close> cost_pos [of s]
        by (auto simp: run_step_def f frames_cost_def costs_def dest!: cost_enters split: if_splits)
    qed (use \<open>rn_frames r = f # rest\<close> in \<open>simp add: run_step_def f frames_cost_def costs_def\<close>)
  qed (simp add: Cons run_step_def frames_cost_def costs_def)
qed (simp add: run_step_def frames_cost_def)

lemma run_ends: "frames_cost (rn_frames r) \<le> length world \<Longrightarrow> rn_frames (run_among E world r) = []"
proof (induction world arbitrary: r)
  case Nil
  then show ?case by (cases "rn_frames r") (auto simp: run_among_def frames_cost_def costs_def)
next
  case (Cons w world)
  obtain mo m where w: "w = (mo, m)" by (cases w)
  have "frames_cost (rn_frames (snd (fst (run_step E mo (m, r))))) \<le> length world"
    using Cons.prems run_step_frames_cost [of E mo m r] by simp
  from Cons.IH [OF this] show ?case by (simp add: run_among_def w)
qed

lemma run_visits:
  "frames_cost (rn_frames r) \<le> length world \<Longrightarrow> rn_deadline r = None \<Longrightarrow>
   \<exists>tr. rn_trace (run_among E world r) = rn_trace r @ tr \<and> visits_frames (rn_frames r) tr \<and>
     (rn_failed (run_among E world r) \<longleftrightarrow> rn_failed r \<or> Failed \<in> snd ` set tr) \<and>
     rn_bot (run_among E world r) = rn_bot r \<and> rn_deadline (run_among E world r) = None"
proof (induction world arbitrary: r)
  case Nil
  then show ?case by (cases "rn_frames r") (auto simp: run_among_def frames_cost_def costs_def)
next
  case (Cons w world)
  obtain mo m where w: "w = (mo, m)" by (cases w)
  define r1 where "r1 = snd (fst (run_step E mo (m, r)))"
  have u: "run_among E (w # world) r = run_among E world r1" by (simp add: run_among_def w r1_def)
  have c: "frames_cost (rn_frames r1) \<le> length world"
    using Cons.prems run_step_frames_cost [of E mo m r] by (simp add: r1_def)
  show ?case
  proof (cases "rn_frames r")
    case Nil
    then have "r1 = r" by (simp add: r1_def run_step_def)
    then show ?thesis using Cons.IH [OF c] Cons.prems(2) u by simp
  next
    case (Cons f rest)
    note fr = this
    show ?thesis
    proof (cases f)
      case Nil
      then have r1: "r1 = r\<lparr> rn_frames := rest \<rparr>" by (simp add: r1_def run_step_def fr)
      then obtain tr where "rn_trace (run_among E world r1) = rn_trace r @ tr" "visits_frames rest tr"
        "rn_failed (run_among E world r1) \<longleftrightarrow> rn_failed r \<or> Failed \<in> snd ` set tr" "rn_bot (run_among E world r1) = rn_bot r"
        "rn_deadline (run_among E world r1) = None"
        using Cons.IH [OF c] Cons.prems(2) by auto
      then show ?thesis using fr Nil visits_nil by (fastforce simp: u)
    next
      case (Cons s ss)
      have r1: "r1 = snd (fst (run_action E mo s ss rest (m, r)))"
        using Cons.prems(2) by (simp add: r1_def run_step_def fr Cons deadline_passed_def)
      obtain k where k: "rn_deadline r1 = rn_deadline r" "rn_bot r1 = rn_bot r" "rn_trace r1 = rn_trace r @ [(s, k)]"
        "rn_failed r1 = (rn_failed r \<or> k = Failed)"
        "if k = Entered then \<exists>xs. enters s = Some xs \<and> rn_frames r1 = xs # ss # rest
         else rn_frames r1 = ss # rest \<and> (k = Done \<longrightarrow> enters s = None)"
        using run_action_cases [of E mo s ss rest m r] unfolding r1 [symmetric] by blast
      obtain tr where tr: "rn_trace (run_among E world r1) = rn_trace r1 @ tr" "visits_frames (rn_frames r1) tr"
        "rn_failed (run_among E world r1) \<longleftrightarrow> rn_failed r1 \<or> Failed \<in> snd ` set tr" "rn_bot (run_among E world r1) = rn_bot r1"
        "rn_deadline (run_among E world r1) = None"
        using Cons.IH [OF c] Cons.prems(2) k(1) by auto
      have "visits_frames (rn_frames r) ((s, k) # tr)"
        using k(5) tr(2) by (auto simp: fr Cons simp del: visits_frames.simps intro: visits_frames_enter visits_frames_step split: if_splits)
      then show ?thesis using tr k by (auto simp: u intro!: exI [of _ "(s, k) # tr"])
    qed
  qed
qed


definition demo_script :: script where
  "demo_script = \<lparr> script_id = None, trigger = ''raid'', filters = [],
     actions = [Step ''log'' JUndef None None, Step ''if'' JUndef None (Some [Step ''log'' JUndef None None]),
                Step ''increment_counter'' JUndef None None],
     variables = [], cooldown = None, interval = None, maxExecutionMs = None \<rparr>"

definition demo_env :: run_env where
  "demo_env = \<lparr> guard = demo_net, to_string = (\<lambda>_. ''x''), to_number = (\<lambda>_. NaN), stringify = (\<lambda>_. []),
     inherited = (\<lambda>_ _. JUndef), compile = (\<lambda>_. None), eval_expr = (\<lambda>_ _. None) \<rparr>"

definition demo_moment :: moment where
  "demo_moment = \<lparr> clock = Num 0, answers = (\<lambda>_. False), random = 0, threads = 0 \<rparr>"


end
