(* ===== verification/SandboxAction.thy ===== *)
theory SandboxAction
  imports Texts JsNumber
begin

text \<open>
  Custom actions in worker threads, \<open>runSandboxAction\<close> in packages/workers/src/script-engine.ts: the
  cap on threads, the promise that settles with the first of a message, an error, the exit or the
  timeout, and what may cross the boundary of the thread. The thread itself is the sequence of events
  that the host sees.
\<close>

section \<open>The host of the threads\<close>

datatype settlement = Pending | Resolved | Rejected string

record sandbox_thread =
  sa_settled :: settlement
  sa_terminated :: bool
  sa_alive :: bool
  sa_handled :: "(nat \<times> string) list"

record sandbox_host =
  sa_threads :: "sandbox_thread list"
  activeSandboxWorkers :: int

datatype message = CallMsg nat string | DoneMsg bool "string option" | OtherMsg

datatype thread_event = TimesOut | Posts message | Errs string | Exits int

definition MAX_SANDBOX_WORKERS :: int where "MAX_SANDBOX_WORKERS = 10"

definition TIMED_OUT :: string where "TIMED_OUT = ''Script action timed out (possible infinite loop)''"

definition contains_text :: "string \<Rightarrow> string \<Rightarrow> bool" where
  "contains_text part s \<longleftrightarrow> list_ex (\<lambda>i. starts_with part (drop i s)) [0..<Suc (length s)]"

text \<open>\<open>finish\<close>: the first call settles, the listeners and the timer are gone afterwards.\<close>

definition finish :: "settlement \<Rightarrow> bool \<Rightarrow> sandbox_thread \<Rightarrow> sandbox_thread" where
  "finish outcome terminate t =
     (if sa_settled t \<noteq> Pending then t
      else t\<lparr> sa_settled := outcome, sa_terminated := (sa_terminated t \<or> terminate) \<rparr>)"

definition done_error :: "string option \<Rightarrow> string" where
  "done_error e =
     (let raw = (case e of None \<Rightarrow> ''Script action failed'' | Some m \<Rightarrow> m)
      in if contains_text ''Script execution timed out'' raw then TIMED_OUT else raw)"

fun onMessage :: "message \<Rightarrow> sandbox_thread \<Rightarrow> sandbox_thread" where
  "onMessage (CallMsg i f) t =
     (if sa_settled t = Pending \<and> f \<noteq> [] then t\<lparr> sa_handled := sa_handled t @ [(i, f)] \<rparr> else t)"
| "onMessage (DoneMsg ok e) t = finish (if ok then Resolved else Rejected (done_error e)) True t"
| "onMessage OtherMsg t = t"

definition onExit :: "int \<Rightarrow> sandbox_thread \<Rightarrow> sandbox_thread" where
  "onExit code t = finish (Rejected (if code = 0 then ''Script action exited unexpectedly''
     else ''Script worker exited with code '' @ (if code < 0 then ''-'' else []) @ nat_text (nat \<bar>code\<bar>))) False t"

fun on_event :: "thread_event \<Rightarrow> sandbox_thread \<Rightarrow> sandbox_thread" where
  "on_event TimesOut t = finish (Rejected TIMED_OUT) True t"
| "on_event (Posts m) t = onMessage m t"
| "on_event (Errs e) t = finish (Rejected e) False t"
| "on_event (Exits code) t = (onExit code t)\<lparr> sa_alive := False \<rparr>"

datatype host_event = Runs | Sees nat thread_event

definition new_thread :: sandbox_thread where
  "new_thread = \<lparr> sa_settled = Pending, sa_terminated = False, sa_alive = True, sa_handled = [] \<rparr>"

definition runSandboxAction :: "sandbox_host \<Rightarrow> sandbox_host" where
  "runSandboxAction h =
     (if activeSandboxWorkers h \<ge> MAX_SANDBOX_WORKERS then h
      else h\<lparr> sa_threads := sa_threads h @ [new_thread], activeSandboxWorkers := activeSandboxWorkers h + 1 \<rparr>)"

text \<open>The counter goes down with the first exit of a thread.\<close>

definition on_thread :: "nat \<Rightarrow> thread_event \<Rightarrow> sandbox_host \<Rightarrow> sandbox_host" where
  "on_thread i ev h =
     (if i < length (sa_threads h)
      then let t = sa_threads h ! i; exits = (case ev of Exits _ \<Rightarrow> sa_alive t | _ \<Rightarrow> False)
           in h\<lparr> sa_threads := (sa_threads h)[i := on_event ev t],
                 activeSandboxWorkers := (if exits then max 0 (activeSandboxWorkers h - 1) else activeSandboxWorkers h) \<rparr>
      else h)"

fun host_step :: "host_event \<Rightarrow> sandbox_host \<Rightarrow> sandbox_host" where
  "host_step Runs h = runSandboxAction h"
| "host_step (Sees i ev) h = on_thread i ev h"

definition new_host :: sandbox_host where
  "new_host = \<lparr> sa_threads = [], activeSandboxWorkers = 0 \<rparr>"

section \<open>The counter counts\<close>

definition alive_count :: "sandbox_host \<Rightarrow> nat" where
  "alive_count h = length (filter sa_alive (sa_threads h))"

definition host_inv :: "sandbox_host \<Rightarrow> bool" where
  "host_inv h \<longleftrightarrow> activeSandboxWorkers h = int (alive_count h) \<and> activeSandboxWorkers h \<le> 10 \<and>
     list_all (\<lambda>t. sa_alive t \<or> sa_settled t \<noteq> Pending) (sa_threads h)"

lemma finish_keeps [simp]: "sa_alive (finish x k t) = sa_alive t"
  by (simp add: finish_def)

lemma finish_settles: "x \<noteq> Pending \<Longrightarrow> sa_settled (finish x k t) \<noteq> Pending"
  by (simp add: finish_def)

lemma finish_final: "sa_settled t \<noteq> Pending \<Longrightarrow> finish x k t = t"
  by (simp add: finish_def)

lemma onMessage_keeps [simp]: "sa_alive (onMessage m t) = sa_alive t"
  by (cases m) auto

lemma onMessage_final: "sa_settled t \<noteq> Pending \<Longrightarrow> sa_settled (onMessage m t) = sa_settled t"
  by (cases m) (auto simp: finish_final)

lemma event_alive: "sa_alive (on_event ev t) \<longleftrightarrow> sa_alive t \<and> \<not> (\<exists>c. ev = Exits c)"
  by (cases ev) auto

lemma event_final: "sa_settled t \<noteq> Pending \<Longrightarrow> sa_settled (on_event ev t) = sa_settled t"
  by (cases ev) (simp_all add: finish_final onExit_def onMessage_final)

lemma event_dead_settled:
  "sa_alive t \<or> sa_settled t \<noteq> Pending \<Longrightarrow> sa_alive (on_event ev t) \<or> sa_settled (on_event ev t) \<noteq> Pending"
  using event_final [of t ev] by (cases ev) (auto simp: onExit_def finish_settles)

lemma count_update:
  "i < length ts \<Longrightarrow>
   length (filter P (ts[i := x])) + (if P (ts ! i) then 1 else 0) = length (filter P ts) + (if P x then 1 else 0)"
proof (induction ts arbitrary: i)
  case (Cons t ts)
  then show ?case by (cases i) auto
qed simp

interpretation hosts: guarded_machine host_step "\<lambda>_. True" host_inv
proof
  fix h a
  assume inv: "host_inv h"
  show "host_inv (host_step a h)"
  proof (cases a)
    case Runs
    then show ?thesis
      using inv by (auto simp: host_inv_def alive_count_def runSandboxAction_def MAX_SANDBOX_WORKERS_def new_thread_def)
  next
    case (Sees i ev)
    show ?thesis
    proof (cases "i < length (sa_threads h)")
      case True
      let ?t = "sa_threads h ! i"
      have a: "sa_alive ?t \<Longrightarrow> 0 < length (filter sa_alive (sa_threads h))"
        using True by (auto simp: filter_empty_conv)
      have "list_all (\<lambda>t. sa_alive t \<or> sa_settled t \<noteq> Pending) ((sa_threads h)[i := on_event ev ?t])"
        using inv True event_dead_settled [of ?t ev] by (auto simp: host_inv_def list_all_length nth_list_update)
      moreover have "int (length (filter sa_alive ((sa_threads h)[i := on_event ev ?t]))) =
          (if \<exists>c. ev = Exits c \<and> sa_alive ?t then int (length (filter sa_alive (sa_threads h))) - 1
           else int (length (filter sa_alive (sa_threads h))))"
        using count_update [OF True, of sa_alive "on_event ev ?t"] a by (auto simp: event_alive split: if_splits)
      ultimately show ?thesis
        using inv True a by (auto simp: Sees host_inv_def on_thread_def alive_count_def Let_def split: thread_event.split)
    qed (use inv in \<open>simp add: Sees on_thread_def\<close>)
  qed
qed

text \<open>What was settled in \<open>h\<close> is settled in the same way in \<open>h'\<close>.\<close>

definition settled_stays :: "sandbox_host \<Rightarrow> sandbox_host \<Rightarrow> bool" where
  "settled_stays h h' \<longleftrightarrow> length (sa_threads h) \<le> length (sa_threads h') \<and>
     list_all2 (\<lambda>a b. sa_settled a = Pending \<or> sa_settled b = sa_settled a)
       (sa_threads h) (take (length (sa_threads h)) (sa_threads h'))"

lemma settled_stays_refl: "settled_stays h h"
  by (simp add: settled_stays_def list_all2_same)

lemma settled_stays_trans: "settled_stays h h' \<Longrightarrow> settled_stays h' h'' \<Longrightarrow> settled_stays h h''"
  unfolding settled_stays_def list_all2_conv_all_nth by (auto, metis order_less_le_trans)

lemma settled_stays_step: "settled_stays h (host_step a h)"
proof (cases a)
  case (Sees i ev)
  then show ?thesis
    using event_final [of "sa_threads h ! i" ev]
    by (auto simp: settled_stays_def on_thread_def Let_def list_all2_conv_all_nth nth_list_update)
qed (auto simp: settled_stays_def runSandboxAction_def list_all2_conv_all_nth nth_append)

lemma settled_stays_run: "settled_stays h (fold host_step as h)"
  by (induction as arbitrary: h)
    (auto simp: settled_stays_refl intro: settled_stays_trans settled_stays_step)

text \<open>
  Threads are counted and promises settle once: after any run of actions, messages, errors, exits
  and timeouts, in any order and repeated, the counter is the number of threads that have not exited,
  at most ten; an action whose thread is gone is settled; the timeout settles one that is not; and
  nothing that happens later changes how an action was settled.
\<close>

lemma sandbox_counts:
  fixes as bs
  defines "h \<equiv> fold host_step as new_host"
  shows "activeSandboxWorkers h = int (alive_count h) \<and> activeSandboxWorkers h \<le> 10 \<and>
    list_all (\<lambda>t. sa_alive t \<or> sa_settled t \<noteq> Pending) (sa_threads h) \<and>
    list_all (\<lambda>t. sa_settled (on_event TimesOut t) \<noteq> Pending) (sa_threads h) \<and>
    settled_stays h (fold host_step bs h)"
proof -
  have "host_inv h"
    unfolding h_def by (rule hosts.run_inv) (simp_all add: host_inv_def new_host_def alive_count_def list_all_iff)
  then show ?thesis
    by (auto simp: host_inv_def settled_stays_run list_all_iff finish_settles)
qed

theorem sandbox_counts_witness:
  "let h = fold host_step [Runs, Runs, Sees 0 (Exits 1), Sees 1 (Posts (DoneMsg True None))] new_host
   in activeSandboxWorkers h = 1 \<and> map sa_settled (sa_threads h) = [Rejected ''Script worker exited with code 1'', Resolved] \<and>
      settled_stays h (fold host_step [Sees 0 TimesOut, Sees 1 (Errs ''late'')] h)"
proof -
  let ?as = "[Runs, Runs, Sees 0 (Exits 1), Sees 1 (Posts (DoneMsg True None))]"
  have "activeSandboxWorkers (fold host_step ?as new_host) = 1"
    by code_simp
  moreover have "map sa_settled (sa_threads (fold host_step ?as new_host)) =
      [Rejected ''Script worker exited with code 1'', Resolved]"
    by code_simp
  moreover have "settled_stays (fold host_step ?as new_host)
      (fold host_step [Sees 0 TimesOut, Sees 1 (Errs ''late'')] (fold host_step ?as new_host))"
    using sandbox_counts [of ?as "[Sees 0 TimesOut, Sees 1 (Errs ''late'')]"] by (elim conjE)
  ultimately show ?thesis by (simp only: Let_def simp_thms)
qed

section \<open>What crosses the boundary\<close>

text \<open>Values of the host, functions and symbols included.\<close>

datatype host_value =
    HUndefined | HNull | HBool bool | HNum jsnum | HBigint int | HStr string | HFunction | HSymbol
  | HArray "host_value list" | HDate string | HMap "(host_value \<times> host_value) list" | HSet "host_value list"
  | HObject "(string \<times> host_value) list"

fun toCloneable :: "(host_value \<Rightarrow> string) \<Rightarrow> host_value \<Rightarrow> host_value" where
  "toCloneable str HFunction = HUndefined"
| "toCloneable str HSymbol = HUndefined"
| "toCloneable str (HArray xs) = HArray (map (toCloneable str) xs)"
| "toCloneable str (HDate t) = HStr t"
| "toCloneable str (HMap m) = HObject (map (\<lambda>p. (str (fst p), toCloneable str (snd p))) m)"
| "toCloneable str (HSet xs) = HArray (map (toCloneable str) xs)"
| "toCloneable str (HObject ps) = HObject (map (\<lambda>p. (fst p, toCloneable str (snd p))) ps)"
| "toCloneable str v = v"

fun plain_data :: "host_value \<Rightarrow> bool" where
  "plain_data (HArray xs) = list_all plain_data xs"
| "plain_data (HObject ps) = list_all (\<lambda>p. plain_data (snd p)) ps"
| "plain_data HFunction = False"
| "plain_data HSymbol = False"
| "plain_data (HDate _) = False"
| "plain_data (HMap _) = False"
| "plain_data (HSet _) = False"
| "plain_data _ = True"

lemma toCloneable_plain: "plain_data (toCloneable str v)"
  by (induction str v rule: toCloneable.induct) (auto simp: list_all_iff)

lemma toCloneable_id: "plain_data v \<Longrightarrow> toCloneable str v = v"
  by (induction v rule: plain_data.induct) (auto simp: list_all_iff map_idI prod_eq_iff)

text \<open>
  A response with a \<open>text\<close> method is flattened; \<open>body\<close> is what its text resolves to, \<open>headers\<close> what
  \<open>forEach\<close> or \<open>entries\<close> yields.
\<close>

definition MAX_RESPONSE_BODY_BYTES :: nat where "MAX_RESPONSE_BODY_BYTES = 1048576"

definition own_value :: "(string \<times> host_value) list \<Rightarrow> string \<Rightarrow> host_value" where
  "own_value ps k = (case map_of ps k of None \<Rightarrow> HUndefined | Some v \<Rightarrow> v)"

definition or_value :: "host_value \<Rightarrow> host_value \<Rightarrow> host_value" where
  "or_value v d = (if v = HUndefined \<or> v = HNull then d else v)"

definition fetchResponseToPlain :: "string option \<Rightarrow> (string \<times> string) list \<Rightarrow> host_value \<Rightarrow> host_value" where
  "fetchResponseToPlain body headers v =
     (case v of
        HObject ps \<Rightarrow>
          if own_value ps ''text'' = HFunction
          then let raw = (case body of None \<Rightarrow> [] | Some b \<Rightarrow> b);
                   kept = (if length raw > MAX_RESPONSE_BODY_BYTES then take MAX_RESPONSE_BODY_BYTES raw else raw);
                   hs = fold (\<lambda>(k, x) m. AList.update k (HStr x) m) headers []
               in HObject [(''ok'', or_value (own_value ps ''ok'') (HBool False)),
                    (''status'', or_value (own_value ps ''status'') (HNum (Num 0))),
                    (''statusText'', or_value (own_value ps ''statusText'') (HStr [])),
                    (''headers'', HObject hs), (''text'', HStr kept)]
          else v
      | _ \<Rightarrow> v)"

text \<open>The reply to a call of the thread: the method's plain result, or the text of the error.\<close>

definition handleCall ::
  "(host_value \<Rightarrow> string) \<Rightarrow> (string \<Rightarrow> bool) \<Rightarrow> (string \<Rightarrow> string + host_value) \<Rightarrow> string option \<Rightarrow> (string \<times> string) list
   \<Rightarrow> string \<Rightarrow> string + host_value" where
  "handleCall str is_method call body headers name =
     (if \<not> is_method name then Inl (''Unknown script api method: '' @ name)
      else case call name of
             Inl e \<Rightarrow> Inl e
           | Inr raw \<Rightarrow> Inr (toCloneable str (fetchResponseToPlain body headers raw)))"

lemma handleCall_plain: "handleCall str is_method call body headers name = Inr v \<Longrightarrow> plain_data v"
  by (auto simp: handleCall_def toCloneable_plain split: if_splits sum.splits)

end
