(* ===== verification/PatternLibrary.thy ===== *)
theory PatternLibrary
  imports ScriptConfig
begin

text \<open>
  The library of script templates, packages/core/src/patterns/library.ts: the parameters of each
  pattern and the config it generates from what a user enters, with the functions that build keyword
  expressions under a budget. Labels, descriptions and placeholders are display texts and left out;
  texts outside of ASCII are their UTF-8 bytes.
\<close>

section \<open>Parameters\<close>

datatype param_type = PString | PText | PNumber | PBoolean | PSelect

record param_spec =
  ps_key :: string
  ps_type :: param_type
  ps_required :: bool
  ps_default :: json
  ps_options :: "string list"

record pattern =
  pt_id :: string
  pt_platforms :: "string list"
  pt_params :: "param_spec list"
  pt_generate :: "json \<Rightarrow> json"

definition TRIGGER_OPTIONS :: "string list" where
  "TRIGGER_OPTIONS = [''message'', ''follow'', ''subscribe'', ''donation'', ''comment'']"

definition spec :: "string \<Rightarrow> param_type \<Rightarrow> bool \<Rightarrow> json \<Rightarrow> string list \<Rightarrow> param_spec" where
  "spec k t req d os = \<lparr> ps_key = k, ps_type = t, ps_required = req, ps_default = d, ps_options = os \<rparr>"

definition trigger_spec :: "string \<Rightarrow> param_spec" where
  "trigger_spec d = spec ''trigger'' PSelect True (JStr d) TRIGGER_OPTIONS"

definition str_param :: "json \<Rightarrow> string \<Rightarrow> string \<Rightarrow> string" where
  "str_param params key fallback = (case get_prop params key of JStr s \<Rightarrow> s | _ \<Rightarrow> fallback)"

definition trim :: "string \<Rightarrow> string" where
  "trim s = rev (dropWhile space_char (rev (dropWhile space_char s)))"

text \<open>\<open>/^-?\d+(?:\.\d+)?$/\<close> and the number of such a text.\<close>

definition unsigned_decimal :: "string \<Rightarrow> rat option" where
  "unsigned_decimal s =
     (case split_on CHR ''.'' s of
        [a] \<Rightarrow> if all_digits a then Some (of_nat (parse_dec a)) else None
      | [a, b] \<Rightarrow> if all_digits a \<and> all_digits b
                   then Some (of_nat (parse_dec a) + of_nat (parse_dec b) / 10 ^ length b) else None
      | _ \<Rightarrow> None)"

definition decimal_number :: "string \<Rightarrow> jsnum option" where
  "decimal_number s =
     (case strip_prefix ''-'' s of
        Some t \<Rightarrow> map_option (\<lambda>x. mk_num (- x)) (unsigned_decimal t)
      | None \<Rightarrow> map_option mk_num (unsigned_decimal s))"

definition num_param :: "json \<Rightarrow> string \<Rightarrow> jsnum \<Rightarrow> jsnum" where
  "num_param params key fallback =
     (case get_prop params key of
        JNum v \<Rightarrow> if is_finite v then v else fallback
      | JStr s \<Rightarrow> (case decimal_number (trim s) of
                     Some n \<Rightarrow> if is_finite n then n else fallback
                   | None \<Rightarrow> fallback)
      | _ \<Rightarrow> fallback)"

section \<open>Keyword expressions\<close>

definition MAX_LIST_ITEMS :: nat where "MAX_LIST_ITEMS = 100"
definition MAX_ITEM_LENGTH :: nat where "MAX_ITEM_LENGTH = 200"
definition MAX_TEXT_LENGTH :: nat where "MAX_TEXT_LENGTH = 4000"
definition MAX_VARIANTS :: nat where "MAX_VARIANTS = 100"
definition MAX_KEYWORD_REGEX :: nat where "MAX_KEYWORD_REGEX = 400"

definition splitList :: "string \<Rightarrow> string list" where
  "splitList value =
     map (take MAX_ITEM_LENGTH)
       (take MAX_LIST_ITEMS (filter (\<lambda>s. s \<noteq> []) (map trim (split_on CHR '','' value))))"

definition regex_special :: "char \<Rightarrow> bool" where
  "regex_special c \<longleftrightarrow> c \<in> set ''.*+?^${}()|[]'' \<or> c = CHR 0x5C"

definition escapeRegex :: "string \<Rightarrow> string" where
  "escapeRegex s = concat (map (\<lambda>c. if regex_special c then [CHR 0x5C, c] else [c]) s)"

text \<open>The loop over the words: the parts so far and their length with the bars between them.\<close>

fun keyword_parts :: "string list \<Rightarrow> nat \<Rightarrow> string list \<Rightarrow> string list" where
  "keyword_parts parts len [] = parts"
| "keyword_parts parts len (word # words) =
     (let escaped = escapeRegex word;
          cost = length escaped + (if parts \<noteq> [] then 1 else 0)
      in if len + cost > MAX_KEYWORD_REGEX then parts
         else keyword_parts (parts @ [escaped]) (len + cost) words)"

definition keywordRegex :: "string list \<Rightarrow> string" where
  "keywordRegex words = join_with CHR ''|'' (keyword_parts [] 0 words)"

definition BOUNDARY_BEFORE :: string where
  "BOUNDARY_BEFORE = ''(?:^|[^'' @ [CHR 0x5C] @ ''w])(''"

definition BOUNDARY_AFTER :: string where
  "BOUNDARY_AFTER = '')(?:$|[^'' @ [CHR 0x5C] @ ''w])''"

definition keywordBoundaryRegex :: "string list \<Rightarrow> string" where
  "keywordBoundaryRegex words = BOUNDARY_BEFORE @ keywordRegex words @ BOUNDARY_AFTER"

definition capText :: "string \<Rightarrow> string" where
  "capText value = (if length value > MAX_TEXT_LENGTH then take MAX_TEXT_LENGTH value else value)"

definition counterName :: "json \<Rightarrow> string \<Rightarrow> string" where
  "counterName params fallback =
     (let name = str_param params ''counterName'' fallback
      in if 1 \<le> length name \<and> length name \<le> 64 \<and> list_all (\<lambda>c. word_char c \<or> c = CHR ''-'') name
         then name else fallback)"

section \<open>Patterns\<close>

definition reply_action :: "string \<Rightarrow> json" where
  "reply_action text = JObj [(''type'', JStr ''reply''), (''payload'', JObj [(''text'', JStr text)])]"

definition say_action :: "string \<Rightarrow> string \<Rightarrow> json" where
  "say_action channel message = JObj [(''type'', JStr ''say''),
     (''payload'', JObj [(''channel'', JStr channel), (''message'', JStr message)])]"

definition increment_action :: "string \<Rightarrow> json" where
  "increment_action name = JObj [(''type'', JStr ''increment_counter''), (''payload'', JObj [(''name'', JStr name)])]"

definition if_action :: "string \<Rightarrow> string \<Rightarrow> jsnum \<Rightarrow> json list \<Rightarrow> json" where
  "if_action f op v as = JObj [(''type'', JStr ''if''),
     (''condition'', JObj [(''field'', JStr f), (''operator'', JStr op), (''value'', JNum v)]),
     (''actions'', JArr as)]"

definition regex_filter :: "string \<Rightarrow> json" where
  "regex_filter r = JObj [(''type'', JStr ''regex''), (''value'', JStr r)]"

text \<open>\<open>if (cooldown > 0) config.cooldown = cooldown\<close>\<close>

definition with_cooldown :: "jsnum \<Rightarrow> (string \<times> json) list \<Rightarrow> json" where
  "with_cooldown cd ps = JObj (ps @ (if jgt cd (Num 0) then [(''cooldown'', JNum cd)] else []))"

definition welcome_pattern :: pattern where
  "welcome_pattern = \<lparr> pt_id = ''welcome'', pt_platforms = [''twitch'', ''telegram'', ''youtube'', ''twitter''],
     pt_params =
       [trigger_spec ''follow'',
        spec ''message'' PText True
          (JStr (''Welcome, {username}! Glad to see you. '' @ [CHR 0xF0, CHR 0x9F, CHR 0x91, CHR 0x8B])) [],
        spec ''channel'' PString False (JStr []) []],
     pt_generate = (\<lambda>params.
       let trigger = str_param params ''trigger'' ''follow'';
           channel = str_param params ''channel'' [];
           text = capText (str_param params ''message'' [])
       in JObj [(''trigger'', JStr trigger),
            (''actions'', JArr [if trigger = ''follow'' \<and> channel \<noteq> [] then say_action channel text else reply_action text])]) \<rparr>"

definition auto_reply_pattern :: pattern where
  "auto_reply_pattern = \<lparr> pt_id = ''auto-reply'', pt_platforms = [''telegram'', ''twitch''],
     pt_params =
       [trigger_spec ''message'',
        spec ''keywords'' PString True (JStr ''hello,hi'') [],
        spec ''reply'' PText True (JStr ''Hello there! {text}'') [],
        spec ''cooldown'' PNumber False (JNum (Num 0)) []],
     pt_generate = (\<lambda>params.
       let keywords = splitList (str_param params ''keywords'' ''hello'');
           regex = keywordBoundaryRegex (if keywords \<noteq> [] then keywords else [''hello''])
       in with_cooldown (num_param params ''cooldown'' (Num 0))
            [(''trigger'', JStr (str_param params ''trigger'' ''message'')),
             (''filters'', JArr [regex_filter regex]),
             (''actions'', JArr [reply_action (capText (str_param params ''reply'' []))])]) \<rparr>"

definition command_pattern :: pattern where
  "command_pattern = \<lparr> pt_id = ''command'', pt_platforms = [''telegram'', ''twitch''],
     pt_params =
       [trigger_spec ''message'',
        spec ''prefix'' PSelect True (JStr ''/'') [''/'', ''!''],
        spec ''command'' PString True (JStr ''start'') [],
        spec ''reply'' PText True
          (JStr (''Available commands:'' @ [CHR 0x0A] @ ''/start '' @ [CHR 0xE2, CHR 0x80, CHR 0x93] @ '' start here'' @
             [CHR 0x0A] @ ''/help '' @ [CHR 0xE2, CHR 0x80, CHR 0x93] @ '' show help'')) []],
     pt_generate = (\<lambda>params.
       JObj [(''trigger'', JStr (str_param params ''trigger'' ''message'')),
         (''filters'', JArr [regex_filter (''^'' @ escapeRegex (str_param params ''prefix'' ''/'') @
            escapeRegex (str_param params ''command'' []) @ [CHR 0x5C] @ ''b'')]),
         (''actions'', JArr [reply_action (capText (str_param params ''reply'' []))])]) \<rparr>"

definition counter_pattern :: pattern where
  "counter_pattern = \<lparr> pt_id = ''counter'', pt_platforms = [''telegram'', ''twitch''],
     pt_params =
       [trigger_spec ''message'',
        spec ''counterName'' PString True (JStr ''visits'') [],
        spec ''reply'' PText True (JStr ''Count so far: {counters.{counterName}}'') []],
     pt_generate = (\<lambda>params.
       let name = counterName params ''visits'';
           reply = capText (replace_all ''{counterName}'' name (str_param params ''reply'' []))
       in JObj [(''trigger'', JStr (str_param params ''trigger'' ''message'')),
            (''actions'', JArr [increment_action name, reply_action reply])]) \<rparr>"

definition moderation_pattern :: pattern where
  "moderation_pattern = \<lparr> pt_id = ''moderation'', pt_platforms = [''telegram'', ''twitch''],
     pt_params =
       [trigger_spec ''message'',
        spec ''banned'' PString True (JStr ''spam,scam'') [],
        spec ''warning'' PText True (JStr (CHR 0x40 # ''{username}, please keep the chat friendly.'')) [],
        spec ''cooldown'' PNumber False (JNum (Num 10)) []],
     pt_generate = (\<lambda>params.
       let banned = splitList (str_param params ''banned'' ''spam'');
           regex = keywordBoundaryRegex (if banned \<noteq> [] then banned else [''spam''])
       in with_cooldown (num_param params ''cooldown'' (Num 10))
            [(''trigger'', JStr (str_param params ''trigger'' ''message'')),
             (''filters'', JArr [regex_filter regex]),
             (''actions'', JArr [reply_action (capText (str_param params ''warning'' []))])]) \<rparr>"

definition random_response_pattern :: pattern where
  "random_response_pattern = \<lparr> pt_id = ''random-response'', pt_platforms = [''telegram'', ''twitch''],
     pt_params =
       [trigger_spec ''message'',
        spec ''keywords'' PString True (JStr ''!roll'') [],
        spec ''variants'' PText True
          (JStr (''You rolled a 6!'' @ [CHR 0x0A] @ ''Better luck next time!'' @ [CHR 0x0A] @ ''It is a mystery.'')) []],
     pt_generate = (\<lambda>params.
       let keywords = splitList (str_param params ''keywords'' ''!roll'');
           regex = keywordRegex (if keywords \<noteq> [] then keywords else [''!roll'']);
           variants = map (take MAX_TEXT_LENGTH) (take MAX_VARIANTS
             (filter (\<lambda>s. s \<noteq> []) (map trim (split_on CHR 0x0A (str_param params ''variants'' [])))))
       in JObj [(''trigger'', JStr (str_param params ''trigger'' ''message'')),
            (''filters'', JArr [regex_filter (''^('' @ regex @ '')'' @ [CHR 0x5C] @ ''b'')]),
            (''actions'', JArr [JObj [(''type'', JStr ''random_reply''),
               (''payload'', JObj [(''variants'', JArr (map JStr variants))])]])]) \<rparr>"

definition donation_thanks_pattern :: pattern where
  "donation_thanks_pattern = \<lparr> pt_id = ''donation-thanks'', pt_platforms = [''twitch''],
     pt_params =
       [spec ''minAmount'' PNumber True (JNum (Num 1)) [],
        spec ''thanks'' PText True (JStr ''Thank you {username} for the {amount} donation!'') []],
     pt_generate = (\<lambda>params.
       JObj [(''trigger'', JStr ''donation''),
         (''actions'', JArr [if_action ''amount'' ''gt'' (num_param params ''minAmount'' (Num 1))
            [reply_action (capText (str_param params ''thanks'' []))]])]) \<rparr>"

definition LINK_REGEX :: string where
  "LINK_REGEX = ''(?:https?:'' @ [CHR 0x5C] @ ''/'' @ [CHR 0x5C] @ ''/|www'' @ [CHR 0x5C] @ ''.)'' @ [CHR 0x5C] @ ''S+''"

definition link_guard_pattern :: pattern where
  "link_guard_pattern = \<lparr> pt_id = ''link-guard'', pt_platforms = [''telegram'', ''twitch''],
     pt_params =
       [trigger_spec ''message'',
        spec ''warning'' PText True (JStr (CHR 0x40 # ''{username}, please do not post links here.'')) [],
        spec ''cooldown'' PNumber False (JNum (Num 30)) []],
     pt_generate = (\<lambda>params.
       with_cooldown (num_param params ''cooldown'' (Num 30))
         [(''trigger'', JStr (str_param params ''trigger'' ''message'')),
          (''filters'', JArr [regex_filter LINK_REGEX]),
          (''actions'', JArr [reply_action (capText (str_param params ''warning'' []))])]) \<rparr>"

definition heartbeat_pattern :: pattern where
  "heartbeat_pattern = \<lparr> pt_id = ''heartbeat'', pt_platforms = [''telegram'', ''twitch'', ''youtube'', ''twitter''],
     pt_params =
       [spec ''intervalSeconds'' PNumber True (JNum (Num 300)) [],
        spec ''message'' PText True (JStr ''Still alive and running.'') [],
        spec ''channel'' PString False (JStr []) []],
     pt_generate = (\<lambda>params.
       let interval = jmax (Num 10) (jmin (Num 86400) (jround (num_param params ''intervalSeconds'' (Num 300))));
           channel = str_param params ''channel'' [];
           message = capText (str_param params ''message'' [])
       in JObj [(''trigger'', JStr ''interval''), (''interval'', JNum interval), (''cooldown'', JNum interval),
            (''actions'', JArr [if channel \<noteq> [] then say_action channel message
               else JObj [(''type'', JStr ''log''),
                 (''payload'', JObj [(''level'', JStr ''info''), (''message'', JStr message)])]])]) \<rparr>"

definition raid_host_thanks_pattern :: pattern where
  "raid_host_thanks_pattern = \<lparr> pt_id = ''raid-host-thanks'', pt_platforms = [''twitch''],
     pt_params =
       [spec ''trigger'' PSelect True (JStr ''raid'') [''raid'', ''host''],
        spec ''message'' PText True (JStr ''Thanks for the raid, {username}! Welcome all raiders.'') [],
        spec ''minViewers'' PNumber False (JNum (Num 0)) []],
     pt_generate = (\<lambda>params.
       let text = str_param params ''message'' [];
           minViewers = num_param params ''minViewers'' (Num 0);
           reply = reply_action text
       in JObj [(''trigger'', JStr (str_param params ''trigger'' ''raid'')),
            (''actions'', JArr [if jgt minViewers (Num 0) then if_action ''viewers'' ''gte'' minViewers [reply] else reply])]) \<rparr>"

definition threshold_alert_pattern :: pattern where
  "threshold_alert_pattern = \<lparr> pt_id = ''threshold-alert'', pt_platforms = [''telegram'', ''twitch''],
     pt_params =
       [trigger_spec ''message'',
        spec ''counterName'' PString True (JStr ''visits'') [],
        spec ''threshold'' PNumber True (JNum (Num 100)) [],
        spec ''message'' PText True
          (JStr (''We hit {counters.{counterName}}! Milestone reached. '' @ [CHR 0xF0, CHR 0x9F, CHR 0x8E, CHR 0x89])) []],
     pt_generate = (\<lambda>params.
       let name = counterName params ''visits'';
           threshold = num_param params ''threshold'' (Num 100);
           message = replace_all ''{counterName}'' name (str_param params ''message'' [])
       in JObj [(''trigger'', JStr (str_param params ''trigger'' ''message'')),
            (''actions'', JArr [increment_action name,
               if_action (''counters.'' @ name) ''gte'' threshold [reply_action message]])]) \<rparr>"

definition patterns :: "pattern list" where
  "patterns = [welcome_pattern, auto_reply_pattern, command_pattern, counter_pattern, moderation_pattern,
     random_response_pattern, donation_thanks_pattern, link_guard_pattern, heartbeat_pattern,
     raid_host_thanks_pattern, threshold_alert_pattern]"

definition getPattern :: "string \<Rightarrow> pattern option" where
  "getPattern i = find (\<lambda>p. pt_id p = i) patterns"

definition listPatterns :: "(string \<times> string list \<times> param_spec list) list" where
  "listPatterns = map (\<lambda>p. (pt_id p, pt_platforms p, pt_params p)) patterns"

section \<open>Escaped text is safe in an expression\<close>

text \<open>Texts of plain characters and escaped special ones other than the backslash.\<close>

fun escaped :: "string \<Rightarrow> bool" where
  "escaped [] = True"
| "escaped [c] = (c \<noteq> CHR 0x5C \<and> c \<notin> set ''[()+*?{'')"
| "escaped (c # d # ds) =
     (if c = CHR 0x5C then regex_special d \<and> d \<noteq> CHR 0x5C \<and> escaped ds
      else c \<notin> set ''[()+*?{'' \<and> escaped (d # ds))"

lemma escaped_plain: "c \<noteq> CHR 0x5C \<Longrightarrow> escaped (c # cs) = (c \<notin> set ''[()+*?{'' \<and> escaped cs)"
  by (cases cs) auto

lemma escaped_escape: "CHR 0x5C \<notin> set s \<Longrightarrow> escaped t \<Longrightarrow> escaped (escapeRegex s @ t)"
proof (induction s)
  case (Cons c s)
  then have "escaped (escapeRegex s @ t)" by simp
  with Cons.prems show ?case
    by (auto simp: escapeRegex_def escaped_plain regex_special_def)
qed (simp add: escapeRegex_def)

lemma escaped_escapeRegex: "CHR 0x5C \<notin> set s \<Longrightarrow> escaped (escapeRegex s)"
  using escaped_escape [of s "[]"] by simp

lemma escaped_join:
  "list_all (\<lambda>w. CHR 0x5C \<notin> set w) ws \<Longrightarrow> escaped (join_with CHR ''|'' (map escapeRegex ws))"
proof (induction ws)
  case (Cons w ws)
  then show ?case
    by (cases ws) (auto simp: escaped_escapeRegex escaped_plain intro!: escaped_escape)
qed simp

lemma keyword_parts_words: "\<exists>us. keyword_parts (map escapeRegex vs) len ws = map escapeRegex (vs @ us) \<and> set us \<subseteq> set ws"
proof (induction ws arbitrary: vs len)
  case (Cons w ws)
  show ?case
  proof (cases "len + (length (escapeRegex w) + (if vs \<noteq> [] then 1 else 0)) > MAX_KEYWORD_REGEX")
    case True
    then show ?thesis by (auto simp: Let_def intro!: exI [of _ "[]"])
  next
    case False
    obtain us where "keyword_parts (map escapeRegex (vs @ [w])) (len + (length (escapeRegex w) + (if vs \<noteq> [] then 1 else 0))) ws =
        map escapeRegex ((vs @ [w]) @ us)" "set us \<subseteq> set ws"
      using Cons.IH by blast
    with False show ?thesis by (auto simp: Let_def intro!: exI [of _ "w # us"])
  qed
qed (auto intro!: exI [of _ "[]"])

lemma escaped_keywordRegex: "list_all (\<lambda>w. CHR 0x5C \<notin> set w) ws \<Longrightarrow> escaped (keywordRegex ws)"
proof -
  assume w: "list_all (\<lambda>w. CHR 0x5C \<notin> set w) ws"
  obtain us where "keyword_parts [] 0 ws = map escapeRegex us" "set us \<subseteq> set ws"
    using keyword_parts_words [of "[]" 0 ws] by auto
  with w escaped_join [of us] show ?thesis by (auto simp: keywordRegex_def list_all_iff)
qed

text \<open>The budget of the alternation.\<close>

definition bar_length :: "string list \<Rightarrow> nat" where
  "bar_length ps = sum_list (map length ps) + (length ps - 1)"

lemma length_join: "length (join_with z ps) = bar_length ps"
  by (induction z ps rule: join_with.induct) (auto simp: bar_length_def)

lemma keyword_parts_budget:
  "bar_length ps \<le> len \<Longrightarrow> len \<le> MAX_KEYWORD_REGEX \<Longrightarrow> bar_length (keyword_parts ps len ws) \<le> MAX_KEYWORD_REGEX"
proof (induction ws arbitrary: ps len)
  case (Cons w ws)
  have "bar_length (ps @ [escapeRegex w]) = bar_length ps + length (escapeRegex w) + (if ps \<noteq> [] then 1 else 0)"
    by (cases ps) (auto simp: bar_length_def)
  then show ?case using Cons by (auto simp: Let_def)
qed simp

lemma length_keywordRegex: "length (keywordRegex ws) \<le> 400"
  using keyword_parts_budget [of "[]" 0 ws]
  by (simp add: keywordRegex_def length_join MAX_KEYWORD_REGEX_def bar_length_def)

section \<open>Scans of expressions with escaped text inside\<close>

fun occurs :: "(string \<Rightarrow> bool) \<Rightarrow> string \<Rightarrow> bool" where
  "occurs p [] = p []"
| "occurs p (c # cs) = (p (c # cs) \<or> occurs p cs)"

lemma somewhere_occurs: "somewhere (\<lambda>b r. p r) b s = occurs p s"
  by (induction s arbitrary: b) auto

lemma balanced_escaped: "escaped s \<Longrightarrow> balanced d (s @ t) = balanced d t"
  by (induction s rule: escaped.induct) (auto split: if_splits)

definition soft_start :: "string \<Rightarrow> bool" where
  "soft_start t \<longleftrightarrow> (case t of [] \<Rightarrow> True | c # _ \<Rightarrow> c \<notin> set ''+*?{'')"

lemma soft_start_escaped: "escaped s \<Longrightarrow> soft_start t \<Longrightarrow> soft_start (s @ t)"
  by (cases s rule: escaped.cases) (auto simp: soft_start_def split: if_splits)

definition soft_close :: "string \<Rightarrow> bool" where
  "soft_close t \<longleftrightarrow> (case dropWhile (\<lambda>x. x \<noteq> CHR '')'') t of _ # u \<Rightarrow> soft_start u | [] \<Rightarrow> True)"

lemma soft_close_Cons: "soft_close (c # s) = (if c = CHR '')'' then soft_start s else soft_close s)"
  by (simp add: soft_close_def)

lemma soft_close_escaped: "escaped s \<Longrightarrow> soft_start t \<Longrightarrow> soft_close t \<Longrightarrow> soft_close (s @ t)"
proof (induction s rule: escaped.induct)
  case (3 c d ds)
  show ?case
  proof (cases "c = CHR 0x5C")
    case True
    then have "escaped ds" using 3(3) by simp
    then have "soft_start (ds @ t)" "soft_close (ds @ t)"
      using soft_start_escaped [OF _ 3(4)] 3(1) [OF True _ 3(4,5)] by blast+
    with True show ?thesis by (simp add: soft_close_Cons)
  next
    case False
    then have c: "c \<noteq> CHR '')''" and e: "escaped (d # ds)" using 3(3) by auto
    have "soft_close ((d # ds) @ t)" by (rule 3(2) [OF False e 3(4,5)])
    with c show ?thesis by (simp add: soft_close_Cons)
  qed
qed (simp_all add: soft_close_Cons)

lemma quantified_group_soft: "soft_close t \<Longrightarrow> \<not> quantified_group (c # t)"
proof (cases "dropWhile (\<lambda>x. x \<noteq> CHR '')'') t")
  case (Cons x u)
  assume s: "soft_close t"
  show ?thesis
  proof (cases u)
    case Nil
    then show ?thesis by (simp add: quantified_group_def Cons)
  next
    case (Cons q v)
    then have "q \<notin> set ''+*?{''"
      using s \<open>dropWhile _ t = x # u\<close> unfolding soft_close_def soft_start_def by simp
    then show ?thesis by (simp add: quantified_group_def \<open>dropWhile _ t = x # u\<close> Cons)
  qed
next
  case Nil
  show ?thesis unfolding quantified_group_def list.case Nil by simp
qed

lemma lookaround_soft: "soft_start t \<Longrightarrow> \<not> lookaround (c # t)"
  by (cases t) (auto simp: lookaround_def soft_start_def starts_with_def)

lemma occurs_quantified_escaped:
  "escaped s \<Longrightarrow> soft_start t \<Longrightarrow> soft_close t \<Longrightarrow> occurs quantified_group (s @ t) = occurs quantified_group t"
proof (induction s rule: escaped.induct)
  case (2 c)
  then show ?case using quantified_group_soft [of t c] by simp
next
  case (3 c d ds)
  show ?case
  proof (cases "c = CHR 0x5C")
    case True
    then have "escaped ds" using 3(3) by simp
    then have "soft_close (ds @ t)" using 3 by (intro soft_close_escaped)
    moreover have "\<not> quantified_group (c # d # ds @ t)" by (simp add: True quantified_group_def)
    ultimately show ?thesis using 3 True quantified_group_soft [of "ds @ t" d] by simp
  next
    case False
    then have "\<not> quantified_group (c # d # ds @ t)" using 3(3) by (auto simp: quantified_group_def split: if_splits)
    then show ?thesis using 3 False by simp
  qed
qed simp

lemma occurs_lookaround_escaped:
  "escaped s \<Longrightarrow> soft_start t \<Longrightarrow> occurs lookaround (s @ t) = occurs lookaround t"
proof (induction s rule: escaped.induct)
  case (2 c)
  then show ?case using lookaround_soft [of t c] by simp
next
  case (3 c d ds)
  show ?case
  proof (cases "c = CHR 0x5C")
    case True
    then have "soft_start (ds @ t)" using 3 by (auto intro: soft_start_escaped)
    moreover have "\<not> lookaround (c # d # ds @ t)" by (simp add: True lookaround_def starts_with_def)
    ultimately show ?thesis using 3 True lookaround_soft [of "ds @ t" d] by simp
  next
    case False
    then have "\<not> lookaround (c # d # ds @ t)" using 3(3) by (auto simp: lookaround_def starts_with_def split: if_splits)
    then show ?thesis using 3 False by simp
  qed
qed simp

lemma occurs_back_reference_escaped: "escaped s \<Longrightarrow> occurs back_reference (s @ t) = occurs back_reference t"
proof (induction s rule: escaped.induct)
  case (2 c)
  then show ?case by (auto simp: back_reference_def split: list.splits)
next
  case (3 c d ds)
  have "\<not> back_reference (d # u)" if "d \<noteq> CHR 0x5C" for u using that by (auto simp: back_reference_def split: list.split)
  moreover have "\<not> back_reference (c # d # ds @ t)"
    using 3(3) by (auto simp: back_reference_def regex_special_def split: if_splits)
  ultimately show ?case using 3 by (cases "c = CHR 0x5C") auto
qed simp

lemmas scan_escaped = balanced_escaped occurs_quantified_escaped occurs_lookaround_escaped occurs_back_reference_escaped

lemma isRegexSafe_occurs:
  "isRegexSafe s m \<longleftrightarrow> length s \<le> m \<and> \<not> occurs quantified_group s \<and> \<not> occurs back_reference s \<and>
     \<not> occurs lookaround s \<and> balanced 0 s"
  by (auto simp: isRegexSafe_def QUANTIFIED_GROUP_REDOS_def somewhere_occurs not_less)

section \<open>Generated scripts are accepted\<close>

text \<open>The scans on concrete characters.\<close>

lemma quantified_other: "c \<noteq> CHR ''('' \<Longrightarrow> \<not> quantified_group (c # t)"
  by (simp add: quantified_group_def)

lemma soft_start_Cons: "soft_start (c # t) \<longleftrightarrow> c \<notin> set ''+*?{''"
  by (simp add: soft_start_def)

lemma soft_Nil: "soft_start []" "soft_close []" "\<not> quantified_group []" "\<not> lookaround []" "\<not> back_reference []"
  by (simp_all add: soft_start_def soft_close_def quantified_group_def lookaround_def back_reference_def starts_with_def)

lemma lookaround_other: "c \<noteq> CHR ''('' \<Longrightarrow> \<not> lookaround (c # t)"
  by (simp add: lookaround_def starts_with_def)

lemma lookaround_group: "x \<notin> set ''=<!'' \<Longrightarrow> \<not> lookaround (c # d # x # t)"
  by (simp add: lookaround_def starts_with_def)

lemma back_reference_other: "c \<noteq> CHR 0x5C \<Longrightarrow> \<not> back_reference (c # t)"
  by (simp add: back_reference_def split: list.split)

lemma back_reference_letter: "d \<notin> set ''123456789'' \<Longrightarrow> \<not> back_reference (c # d # t)"
  by (simp add: back_reference_def)

lemmas scan_rules = quantified_other quantified_group_soft soft_start_Cons soft_close_Cons soft_Nil lookaround_other
  lookaround_group lookaround_soft back_reference_other back_reference_letter

lemma length_escapeRegex: "length (escapeRegex s) \<le> 2 * length s"
  by (induction s) (auto simp: escapeRegex_def)

lemma keywordBoundary_safe:
  assumes "list_all (\<lambda>w. CHR 0x5C \<notin> set w) ws"
  shows "isRegexSafe (keywordBoundaryRegex ws) 500"
proof -
  have e: "escaped (keywordRegex ws)" by (rule escaped_keywordRegex [OF assms])
  have t: "soft_start BOUNDARY_AFTER" "soft_close BOUNDARY_AFTER"
    by (simp_all add: BOUNDARY_AFTER_def scan_rules)
  have c: "soft_close (keywordRegex ws @ BOUNDARY_AFTER)" "soft_start (keywordRegex ws @ BOUNDARY_AFTER)"
    by (rule soft_close_escaped [OF e t] soft_start_escaped [OF e t(1)])+
  have after: "\<not> occurs quantified_group BOUNDARY_AFTER" "\<not> occurs back_reference BOUNDARY_AFTER"
    "\<not> occurs lookaround BOUNDARY_AFTER" "balanced (Suc 0) BOUNDARY_AFTER" "length BOUNDARY_AFTER = 12"
    by (simp_all add: BOUNDARY_AFTER_def scan_rules)
  show ?thesis
    using length_keywordRegex [of ws]
    unfolding isRegexSafe_occurs keywordBoundaryRegex_def BOUNDARY_BEFORE_def
    by (simp add: scan_escaped e t c after scan_rules)
qed

lemma command_safe:
  assumes "CHR 0x5C \<notin> set p" "CHR 0x5C \<notin> set c" "length p + length c \<le> 248"
  shows "isRegexSafe (''^'' @ escapeRegex p @ escapeRegex c @ [CHR 0x5C] @ ''b'') 500"
proof -
  have e: "escaped (escapeRegex p)" "escaped (escapeRegex c)" using assms by (simp_all add: escaped_escapeRegex)
  have t: "soft_start [CHR 0x5C, CHR ''b'']" "soft_close [CHR 0x5C, CHR ''b'']" by (simp_all add: scan_rules)
  note t2 = soft_start_escaped [OF e(2) t(1)] soft_close_escaped [OF e(2) t]
  show ?thesis
    using length_escapeRegex [of p] length_escapeRegex [of c] assms(3)
    unfolding isRegexSafe_occurs
    by (simp add: scan_escaped e t t2 scan_rules)
qed

lemma roll_safe:
  assumes "list_all (\<lambda>w. CHR 0x5C \<notin> set w) ws"
  shows "isRegexSafe (''^('' @ keywordRegex ws @ '')'' @ [CHR 0x5C] @ ''b'') 500"
proof -
  have e: "escaped (keywordRegex ws)" by (rule escaped_keywordRegex [OF assms])
  have t: "soft_start [CHR '')'', CHR 0x5C, CHR ''b'']" "soft_close [CHR '')'', CHR 0x5C, CHR ''b'']"
    by (simp_all add: scan_rules)
  note t2 = soft_start_escaped [OF e t(1)] soft_close_escaped [OF e t]
  show ?thesis
    using length_keywordRegex [of ws]
    unfolding isRegexSafe_occurs
    by (simp add: scan_escaped e t t2 scan_rules)
qed

lemma link_safe: "isRegexSafe LINK_REGEX 500"
  unfolding isRegexSafe_occurs LINK_REGEX_def by (simp add: scan_rules)

text \<open>The words of a list without backslashes.\<close>

lemma set_split_on: "p \<in> set (split_on z s) \<Longrightarrow> set p \<subseteq> set s"
proof (induction s arbitrary: p)
  case (Cons c s)
  obtain q qs where q: "split_on z s = q # qs" by (cases "split_on z s") auto
  from Cons.prems have "p = [] \<or> p \<in> set (split_on z s) \<or> p = c # q" by (auto simp: q split: if_splits)
  moreover have "set q \<subseteq> set s" by (rule Cons.IH) (simp add: q)
  moreover have "p \<in> set (split_on z s) \<Longrightarrow> set p \<subseteq> set s" by (rule Cons.IH)
  ultimately show ?case by (elim disjE) (simp, metis set_subset_Cons subset_trans, simp add: subset_insertI2)
qed simp

lemma set_trim: "set (trim s) \<subseteq> set s"
proof
  fix c
  assume "c \<in> set (trim s)"
  then have "c \<in> set (dropWhile space_char (rev (dropWhile space_char s)))" by (simp add: trim_def)
  then have "c \<in> set (rev (dropWhile space_char s))" using set_dropWhileD by fast
  then show "c \<in> set s" using set_dropWhileD by fastforce
qed

lemma set_splitList: "w \<in> set (splitList s) \<Longrightarrow> set w \<subseteq> set s"
proof -
  assume "w \<in> set (splitList s)"
  then obtain u where u: "w = take MAX_ITEM_LENGTH u" "u \<in> set (map trim (split_on CHR '','' s))"
    by (auto simp: splitList_def dest!: in_set_takeD)
  then obtain p where p: "p \<in> set (split_on CHR '','' s)" "u = trim p" by auto
  have "set w \<subseteq> set u" using set_take_subset u(1) by metis
  also have "\<dots> \<subseteq> set p" using set_trim p(2) by simp
  also have "\<dots> \<subseteq> set s" by (rule set_split_on [OF p(1)])
  finally show ?thesis .
qed

lemma splitList_plain: "CHR 0x5C \<notin> set s \<Longrightarrow> list_all (\<lambda>w. CHR 0x5C \<notin> set w) (splitList s)"
  by (auto simp: list_all_iff dest: set_splitList)

lemma length_replace_all:
  "length r \<le> m \<Longrightarrow> length v \<le> m \<Longrightarrow> length v * length (replace_all v r s) \<le> m * length s"
proof (induction v r s rule: replace_all.induct)
  case (2 v r c cs)
  show ?case
  proof (cases "v \<noteq> [] \<and> take (length v) (c # cs) = v")
    case True
    define n where "n = length (c # cs)"
    have l: "length v \<le> n" using True by (metis n_def length_take min.cobounded1)
    have ih: "length v * length (replace_all v r (drop (length v) (c # cs))) \<le> m * (n - length v)"
      using 2 True by (simp add: n_def)
    have "length v * length (replace_all v r (c # cs)) =
        length v * length r + length v * length (replace_all v r (drop (length v) (c # cs)))"
      using True by (simp add: distrib_left)
    also have "\<dots> \<le> m * length v + m * (n - length v)"
      using ih 2(3) by (intro add_mono) (simp_all add: mult.commute)
    also have "\<dots> = m * n" using l by (simp flip: distrib_left)
    finally show ?thesis by (simp add: n_def)
  next
    case False
    then have "length v * length (replace_all v r (c # cs)) = length v + length v * length (replace_all v r cs)" by auto
    also have "\<dots> \<le> m + m * length cs" using 2 False by (intro add_mono) auto
    finally show ?thesis by simp
  qed
qed simp

lemma length_named:
  "length name \<le> 64 \<Longrightarrow> length s \<le> 2000 \<Longrightarrow> length (replace_all ''{counterName}'' name s) \<le> 10000"
  using length_replace_all [of name 64 "''{counterName}''" s] by simp

lemma length_counterName: "length fallback \<le> 64 \<Longrightarrow> length (counterName params fallback) \<le> 64"
  by (simp add: counterName_def Let_def)

text \<open>What a user has to keep to: no backslashes in keywords, lengths, a whole cooldown of at most a day.\<close>

definition keywords_ok :: "json \<Rightarrow> string \<Rightarrow> bool" where
  "keywords_ok params key \<longleftrightarrow> CHR 0x5C \<notin> set (str_param params key [])"

definition cooldown_ok :: "json \<Rightarrow> bool" where
  "cooldown_ok params \<longleftrightarrow> list_all (\<lambda>d. let c = num_param params ''cooldown'' (jint d)
     in \<not> jgt c (Num 0) \<or> integer_within c 0 (jint 86400)) [0, 10, 30]"

definition sensible :: "json \<Rightarrow> bool" where
  "sensible params \<longleftrightarrow>
     list_all (keywords_ok params) [''keywords'', ''banned'', ''prefix'', ''command''] \<and>
     length (str_param params ''prefix'' []) + length (str_param params ''command'' []) \<le> 247 \<and>
     length (str_param params ''channel'' []) \<le> 10000 \<and> length (str_param params ''message'' []) \<le> 2000 \<and>
     cooldown_ok params"

lemma str_param_fallback: "str_param params key d = (if is_string (get_prop params key) then str_param params key [] else d)"
  by (cases "get_prop params key") (auto simp: str_param_def)

lemma keywords_ok_fallback:
  "keywords_ok params key \<Longrightarrow> CHR 0x5C \<notin> set d \<Longrightarrow> CHR 0x5C \<notin> set (str_param params key d)"
  by (subst str_param_fallback) (simp add: keywords_ok_def)

lemma words_ok:
  "keywords_ok params key \<Longrightarrow> CHR 0x5C \<notin> set d \<Longrightarrow> CHR 0x5C \<notin> set e \<Longrightarrow>
   list_all (\<lambda>w. CHR 0x5C \<notin> set w)
     (if splitList (str_param params key d) \<noteq> [] then splitList (str_param params key d) else [e])"
  using splitList_plain [OF keywords_ok_fallback [of params key d]] by simp

lemma length_capText [simp]: "length (capText s) \<le> 4000"
  by (simp add: capText_def MAX_TEXT_LENGTH_def)

lemma filters_one: "filters_ok (JArr [regex_filter r]) \<longleftrightarrow> isRegexSafe r 500"
  by (simp add: filters_ok_def filter_ok_def regex_filter_def)

lemma filters_absent: "filters_ok JUndef"
  by (simp add: filters_ok_def)

lemma reply_ok: "length t \<le> 10000 \<Longrightarrow> action_ok n d (reply_action t) \<and> nested_actions (reply_action t) = []"
  by (simp add: action_ok_def reply_action_def condition_ok_def payload_ok_def nested_actions_def)

lemma say_ok:
  "length c \<le> 10000 \<Longrightarrow> length t \<le> 10000 \<Longrightarrow> action_ok n d (say_action c t) \<and> nested_actions (say_action c t) = []"
  by (auto simp: action_ok_def say_action_def condition_ok_def payload_ok_def nested_actions_def)

lemma increment_ok: "length c \<le> 64 \<Longrightarrow> action_ok n d (increment_action c) \<and> nested_actions (increment_action c) = []"
  by (simp add: action_ok_def increment_action_def condition_ok_def payload_ok_def nested_actions_def)

lemma if_ok: "d < 5 \<Longrightarrow> op \<noteq> ''regex'' \<Longrightarrow> action_ok n d (if_action f op v xs)"
  by (simp add: action_ok_def if_action_def condition_ok_def payload_ok_def)

lemma nested_if [simp]: "nested_actions (if_action f op v xs) = xs"
  by (simp add: if_action_def nested_actions_def)

text \<open>When a config with these actions and a number as its cooldown is accepted.\<close>

definition actions_fine :: "net \<Rightarrow> json list \<Rightarrow> bool" where
  "actions_fine n xs \<longleftrightarrow> length (actions_at 0 xs) \<le> 200 \<and> list_all (\<lambda>(d, s). action_ok n d s) (actions_at 0 xs)"

lemma accepted:
  assumes "get_prop (JObj ps) ''filters'' = fs" "filters_ok fs"
    and "get_prop (JObj ps) ''actions'' = JArr xs" "actions_fine n xs"
    and "limit_ok tn (JObj ps) ''cooldown'' 0 86400" "limit_ok tn (JObj ps) ''interval'' 1 86400"
    and "get_prop (JObj ps) ''maxExecutionMs'' = JUndef"
  shows "validateScriptConfig n ts tn (JObj ps) = []"
  using assms by (simp add: validate_Nil actions_fine_def limit_ok_def del: get_prop.simps)

lemma accepted_with_cooldown:
  assumes cd: "\<not> jgt cd (Num 0) \<or> integer_within cd 0 (jint 86400)" and tn: "\<And>v. tn (JNum v) = v"
    and r: "isRegexSafe r 500" and xs: "actions_fine n xs"
  shows "validateScriptConfig n ts tn
    (with_cooldown cd [(''trigger'', t), (''filters'', JArr [regex_filter r]), (''actions'', JArr xs)]) = []"
proof -
  have "limit_ok tn (JObj ([(''trigger'', t), (''filters'', JArr [regex_filter r]), (''actions'', JArr xs)] @
      (if jgt cd (Num 0) then [(''cooldown'', JNum cd)] else []))) ''cooldown'' 0 86400"
    using cd tn integer_within_iff [of cd 0 86400] by (auto simp: limit_ok_def)
  then show ?thesis
    unfolding with_cooldown_def
    by (intro accepted [where fs = "JArr [regex_filter r]" and xs = xs]) (simp_all add: filters_one r xs limit_ok_def)
qed

lemma fine_one: "action_ok n 0 a \<and> nested_actions a = [] \<Longrightarrow> actions_fine n [a]"
  by (simp add: actions_fine_def)

lemma cooldown_okD:
  "cooldown_ok params \<Longrightarrow> d \<in> {0, 10, 30} \<Longrightarrow>
   \<not> jgt (num_param params ''cooldown'' (jint d)) (Num 0) \<or> integer_within (num_param params ''cooldown'' (jint d)) 0 (jint 86400)"
  by (auto simp: cooldown_ok_def Let_def)

text \<open>The three patterns with keywords or links and a cooldown, then the others.\<close>

lemma guarded_patterns:
  assumes s: "sensible params" and tn: "\<And>v. tn (JNum v) = v"
    and p: "p \<in> set [auto_reply_pattern, moderation_pattern, link_guard_pattern]"
  shows "validateScriptConfig n ts tn (pt_generate p params) = []"
proof -
  have k: "keywords_ok params ''keywords''" "keywords_ok params ''banned''" and c: "cooldown_ok params"
    using s by (simp_all add: sensible_def)
  have a: "actions_fine n [reply_action (capText t)]" for t
    by (rule fine_one, rule reply_ok) (use length_capText [of t] in linarith)
  show ?thesis
    using p words_ok [OF k(1), of "''hello''" "''hello''"] words_ok [OF k(2), of "''spam''" "''spam''"]
      cooldown_okD [OF c, of 0] cooldown_okD [OF c, of 10] cooldown_okD [OF c, of 30]
    by (auto simp: auto_reply_pattern_def moderation_pattern_def link_guard_pattern_def Let_def
      intro!: accepted_with_cooldown tn keywordBoundary_safe link_safe a simp del: splitList_plain)
qed

lemma plain_patterns:
  assumes s: "sensible params" and p: "p \<in> set [welcome_pattern, command_pattern, random_response_pattern]"
  shows "validateScriptConfig n ts tn (pt_generate p params) = []"
proof -
  have k: "keywords_ok params ''keywords''" "keywords_ok params ''prefix''" "keywords_ok params ''command''"
    and l: "length (str_param params ''channel'' []) \<le> 10000"
      "length (str_param params ''prefix'' []) + length (str_param params ''command'' []) \<le> 247"
    using s by (simp_all add: sensible_def)
  have "length (str_param params ''prefix'' ''/'') \<le> Suc (length (str_param params ''prefix'' []))"
    by (subst str_param_fallback) simp
  then have cmd: "isRegexSafe (''^'' @ escapeRegex (str_param params ''prefix'' ''/'') @
      escapeRegex (str_param params ''command'' []) @ [CHR 0x5C] @ ''b'') 500"
    using l(2) by (intro command_safe keywords_ok_fallback k) simp_all
  have r: "actions_fine n [reply_action (capText t)]" for t
    by (rule fine_one, rule reply_ok) (use length_capText [of t] in linarith)
  have w: "actions_fine n [say_action (str_param params ''channel'' []) (capText t)]" for t
    by (rule fine_one, rule say_ok) (use l(1) length_capText [of t] in linarith)+
  have v: "actions_fine n [JObj [(''type'', JStr ''random_reply''), (''payload'', JObj [(''variants'', JArr vs)])]]" for vs
    by (rule fine_one) (simp add: action_ok_def condition_ok_def payload_ok_def nested_actions_def)
  have 1: "validateScriptConfig n ts tn (pt_generate welcome_pattern params) = []"
    unfolding welcome_pattern_def
    by (auto simp: Let_def intro!: accepted [OF refl] r w simp: filters_absent limit_ok_def)
  have 2: "validateScriptConfig n ts tn (pt_generate command_pattern params) = []"
    unfolding command_pattern_def pattern.simps
    by (rule accepted [OF refl]) (use cmd r in \<open>simp_all add: filters_one limit_ok_def\<close>)
  have 3: "validateScriptConfig n ts tn (pt_generate random_response_pattern params) = []"
    unfolding random_response_pattern_def pattern.simps Let_def
    by (rule accepted [OF refl])
      (use roll_safe [OF words_ok [OF k(1), of "''!roll''" "''!roll''"]] v in \<open>simp_all add: filters_one limit_ok_def\<close>)
  show ?thesis using p 1 2 3 by auto
qed

lemma fine_two:
  "action_ok n 0 a \<and> nested_actions a = [] \<Longrightarrow> action_ok n 0 b \<and> nested_actions b = [] \<Longrightarrow> actions_fine n [a, b]"
  by (simp add: actions_fine_def)

lemma fine_if:
  "op \<noteq> ''regex'' \<Longrightarrow> action_ok n 1 a \<and> nested_actions a = [] \<Longrightarrow> actions_fine n [if_action f op v [a]]"
  by (simp add: actions_fine_def if_ok)

lemma fine_then_if:
  "op \<noteq> ''regex'' \<Longrightarrow> action_ok n 0 b \<and> nested_actions b = [] \<Longrightarrow> action_ok n 1 a \<and> nested_actions a = [] \<Longrightarrow>
   actions_fine n [b, if_action f op v [a]]"
  by (simp add: actions_fine_def if_ok)

lemma counting_patterns:
  assumes s: "sensible params" and p: "p \<in> set [counter_pattern, donation_thanks_pattern, raid_host_thanks_pattern, threshold_alert_pattern]"
  shows "validateScriptConfig n ts tn (pt_generate p params) = []"
proof -
  have m: "length (str_param params ''message'' []) \<le> 2000" using s by (simp add: sensible_def)
  have name: "length (counterName params ''visits'') \<le> 64" by (simp add: length_counterName)
  have cap: "length (capText t) \<le> 10000" for t using length_capText [of t] by linarith
  have 1: "validateScriptConfig n ts tn (pt_generate counter_pattern params) = []"
    unfolding counter_pattern_def pattern.simps Let_def
    by (rule accepted [OF refl _ _ fine_two [OF increment_ok [OF name] reply_ok [OF cap]]])
      (simp_all add: filters_absent limit_ok_def)
  have 2: "validateScriptConfig n ts tn (pt_generate donation_thanks_pattern params) = []"
    unfolding donation_thanks_pattern_def pattern.simps Let_def
    by (rule accepted [OF refl _ _ fine_if [where op = "''gt''", OF _ reply_ok [OF cap]]]) (simp_all add: filters_absent limit_ok_def)
  have m2: "length (str_param params ''message'' []) \<le> 10000" using m by linarith
  have raid: "actions_fine n [if b then if_action ''viewers'' ''gte'' v [reply_action (str_param params ''message'' [])]
      else reply_action (str_param params ''message'' [])]" for b v
    by (cases b) (simp_all add: fine_if [where op = "''gte''", OF _ reply_ok [OF m2]] fine_one [OF reply_ok [OF m2]])
  have 3: "validateScriptConfig n ts tn (pt_generate raid_host_thanks_pattern params) = []"
    unfolding raid_host_thanks_pattern_def pattern.simps Let_def
    by (rule accepted [OF refl _ _ raid]) (simp_all add: filters_absent limit_ok_def)
  have 4: "validateScriptConfig n ts tn (pt_generate threshold_alert_pattern params) = []"
    unfolding threshold_alert_pattern_def pattern.simps Let_def
    by (rule accepted [OF refl _ _ fine_then_if [where op = "''gte''", OF _ increment_ok [OF name] reply_ok [OF length_named [OF name m]]]])
      (simp_all add: filters_absent limit_ok_def)
  show ?thesis using p 1 2 3 4 by auto
qed

text \<open>The interval of a heartbeat is a whole number from 10 to 86400, whatever was entered.\<close>

lemma num_param_finite: "is_finite d \<Longrightarrow> is_finite (num_param params key d)"
  by (simp add: num_param_def split: json.split option.split)

lemma heartbeat_interval:
  "\<exists>i. jmax (Num 10) (jmin (Num 86400) (jround (num_param params key (Num 300)))) = jint i \<and> 10 \<le> i \<and> i \<le> 86400"
proof -
  obtain x where x: "num_param params key (Num 300) = Num x"
    using num_param_finite [of "Num 300" params key] by (cases "num_param params key (Num 300)") auto
  define k where "k = \<lfloor>x + 1 / 2\<rfloor>"
  have "jmax (Num 10) (jmin (Num 86400) (jint k)) = jint (max 10 (min 86400 k))"
    by (auto simp: jmax_def jmin_def max_def min_def)
  moreover have "jround (num_param params key (Num 300)) = jint k" by (simp only: x k_def jround.simps)
  ultimately show ?thesis by (intro exI [of _ "max 10 (min 86400 k)"]) auto
qed

lemma heartbeat_accepted:
  assumes s: "sensible params" and tn: "\<And>v. tn (JNum v) = v"
  shows "validateScriptConfig n ts tn (pt_generate heartbeat_pattern params) = []"
proof -
  obtain i where i: "jmax (Num 10) (jmin (Num 86400) (jround (num_param params ''intervalSeconds'' (Num 300)))) = jint i"
    "10 \<le> i" "i \<le> 86400"
    using heartbeat_interval by blast
  have l: "length (str_param params ''channel'' []) \<le> 10000" using s by (simp add: sensible_def)
  have cap: "length (capText t) \<le> 10000" for t using length_capText [of t] by linarith
  have log: "action_ok n 0 (JObj [(''type'', JStr ''log''), (''payload'', JObj [(''level'', JStr ''info''), (''message'', JStr (capText t))])]) \<and>
      nested_actions (JObj [(''type'', JStr ''log''), (''payload'', JObj [(''level'', JStr ''info''), (''message'', JStr (capText t))])]) = []" for t
    using cap by (auto simp: action_ok_def condition_ok_def payload_ok_def nested_actions_def)
  show ?thesis
    unfolding heartbeat_pattern_def pattern.simps Let_def i(1)
    by (rule accepted [OF refl]) (use i l in \<open>auto simp: filters_absent limit_ok_def tn fine_one [OF say_ok] fine_one [OF log] cap\<close>)
qed

text \<open>
  C27. Templates make valid scripts: for every pattern of the library and whatever else the user
  enters, when keywords have no backslash, texts that are not capped are at most 2000 characters
  (10000 for a channel, 247 for a command with its prefix) and the cooldown is a whole number of at
  most a day, the generated config passes the validation of scripts; in particular no list of keywords,
  however long or full of special characters, makes an expression that is too long or unsafe.
\<close>

theorem generated_scripts_accepted:
  assumes "p \<in> set patterns" and "sensible params" and "\<And>v. to_number (JNum v) = v"
  shows "validateScriptConfig n to_string to_number (pt_generate p params) = []"
proof -
  have "p \<in> set [auto_reply_pattern, moderation_pattern, link_guard_pattern] \<or>
      p \<in> set [welcome_pattern, command_pattern, random_response_pattern] \<or>
      p \<in> set [counter_pattern, donation_thanks_pattern, raid_host_thanks_pattern, threshold_alert_pattern] \<or>
      p = heartbeat_pattern"
    using assms(1) by (auto simp: patterns_def)
  with assms(2,3) show ?thesis
    by (elim disjE) (blast intro: guarded_patterns plain_patterns counting_patterns heartbeat_accepted)+
qed

theorem generated_scripts_accepted_witness:
  "validateScriptConfig demo_net (\<lambda>_. []) (\<lambda>v. case v of JNum x \<Rightarrow> x | _ \<Rightarrow> NaN)
     (pt_generate auto_reply_pattern (JObj [(''keywords'', JStr ''(a+)+,?b''), (''cooldown'', JNum (Num 5))])) = []"
proof (rule generated_scripts_accepted)
  show "auto_reply_pattern \<in> set patterns" by (simp add: patterns_def)
  show "sensible (JObj [(''keywords'', JStr ''(a+)+,?b''), (''cooldown'', JNum (Num 5))])"
    by (simp add: sensible_def keywords_ok_def cooldown_ok_def str_param_def num_param_def integer_within_def)
qed simp

text \<open>Outside of these bounds there are templates whose config is refused or does not do what it says.\<close>

lemma length_escapeRegex_ge: "length s \<le> length (escapeRegex s)"
  by (induction s) (auto simp: escapeRegex_def)

lemma long_command_refused:
  "500 \<le> length c \<Longrightarrow> \<not> isRegexSafe (''^'' @ escapeRegex p @ escapeRegex c @ [CHR 0x5C] @ ''b'') 500"
  using length_escapeRegex_ge [of c] by (simp add: isRegexSafe_def)

text \<open>\<open>raid-host-thanks\<close> does not cap its text, unlike the other patterns.\<close>

lemma long_raid_text_refused:
  "10000 < length t \<Longrightarrow>
   validateScriptConfig n ts tn (pt_generate raid_host_thanks_pattern (JObj [(''message'', JStr t)])) \<noteq> []"
  by (simp add: validate_Nil raid_host_thanks_pattern_def str_param_def num_param_def reply_action_def nested_actions_def
    action_ok_def payload_ok_def)

text \<open>A fractional cooldown is taken over and then refused.\<close>

lemma fractional_cooldown_refused:
  "tn (JNum (Num (3 / 2))) = Num (3 / 2) \<Longrightarrow>
   validateScriptConfig n ts tn (pt_generate link_guard_pattern (JObj [(''cooldown'', JNum (Num (3 / 2)))])) \<noteq> []"
proof -
  assume t: "tn (JNum (Num (3 / 2))) = Num (3 / 2)"
  have "(3 / 2 :: rat) \<noteq> of_int i" for i
  proof
    assume "(3 / 2 :: rat) = of_int i"
    then have "of_int 3 = (of_int (2 * i) :: rat)" by simp
    then have "3 = 2 * i" by (simp only: of_int_eq_iff)
    then show False by presburger
  qed
  then show ?thesis
    by (simp add: validate_Nil link_guard_pattern_def num_param_def with_cooldown_def limit_ok_def t)
qed

end
