(* ===== verification/Lifecycle.thy ===== *)
theory Lifecycle
  imports HealthScore Texts
begin

text \<open>
  The sleep and wake schedule of bots: packages/core/src/behavior/session-lifecycle.ts. The local
  clock of a time zone (\<open>Intl.DateTimeFormat\<close>) is an argument: it gives the parts of the date, or
  nothing where the zone is unknown and the constructor throws. \<open>Math.random()\<close> is an argument.
\<close>

section \<open>Schedules\<close>

record active_window =
  startHour :: jsnum
  startMinute :: jsnum
  endHour :: jsnum
  endMinute :: jsnum

record lifecycle_schedule =
  activeWindows :: "(nat, active_window list) jmap"
  sched_timezone :: "string option"
  jitterMs :: "jsnum option"

definition clock_window :: "int \<Rightarrow> int \<Rightarrow> int \<Rightarrow> int \<Rightarrow> active_window" where
  "clock_window sh sm eh em = \<lparr> startHour = jint sh, startMinute = jint sm, endHour = jint eh, endMinute = jint em \<rparr>"

definition HUMAN_DEFAULT_SCHEDULE :: lifecycle_schedule where
  "HUMAN_DEFAULT_SCHEDULE =
     \<lparr> activeWindows =
         [(1, [clock_window 8 0 12 0, clock_window 17 0 23 0]),
          (2, [clock_window 8 0 12 0, clock_window 17 0 23 0]),
          (3, [clock_window 8 0 12 0, clock_window 17 0 23 0]),
          (4, [clock_window 8 0 12 0, clock_window 17 0 23 0]),
          (5, [clock_window 8 0 12 0, clock_window 17 0 23 0]),
          (6, [clock_window 10 0 24 0]),
          (0, [clock_window 10 0 1 0])],
       sched_timezone = Some ''UTC'',
       jitterMs = Some (jint (15 * 60 * 1000)) \<rparr>"

type_synonym local_clock = "string \<Rightarrow> ms \<Rightarrow> (string, string) jmap option"

definition zone_of :: "lifecycle_schedule \<Rightarrow> string" where
  "zone_of s = (case sched_timezone s of None \<Rightarrow> ''UTC'' | Some z \<Rightarrow> z)"

definition jitter_of :: "lifecycle_schedule \<Rightarrow> jsnum" where
  "jitter_of s = or_default (jint (15 * 60 * 1000)) (jitterMs s)"

text \<open>\<open>parseInt(s, 10)\<close> of a text without leading blanks.\<close>

definition parse_int :: "string \<Rightarrow> jsnum" where
  "parse_int s =
     (let negative = starts_with ''-'' s;
          digits = takeWhile is_digit (if negative \<or> starts_with ''+'' s then tl s else s);
          n = mk_num (of_nat (parse_dec digits))
      in if digits = [] then NaN else if negative then jneg n else n)"

definition dayMap :: "(string, nat) jmap" where
  "dayMap = [(''Sun'', 0), (''Mon'', 1), (''Tue'', 2), (''Wed'', 3), (''Thu'', 4), (''Fri'', 5), (''Sat'', 6)]"

section \<open>Active or asleep\<close>

text \<open>The body of the loop over the windows of a day.\<close>

definition window_covers :: "jsnum \<Rightarrow> jsnum \<Rightarrow> active_window \<Rightarrow> bool" where
  "window_covers currentMinutes jitter w =
     (let start = jadd (jmul (startHour w) (Num 60)) (startMinute w);
          end_at = jadd (jmul (endHour w) (Num 60)) (endMinute w);
          jitterMinutes = jround (jdiv jitter (Num 60000));
          jitteredStart = jmax (Num 0) (jsub start jitterMinutes);
          jitteredEnd = jmin (Num (24 * 60)) (jadd end_at jitterMinutes)
      in if jle start end_at then jge currentMinutes jitteredStart \<and> jle currentMinutes jitteredEnd
         else jge currentMinutes jitteredStart \<or> jle currentMinutes jitteredEnd)"

definition shouldBeActive :: "local_clock \<Rightarrow> ms \<Rightarrow> lifecycle_schedule \<Rightarrow> bool option" where
  "shouldBeActive clock now schedule =
     (case clock (zone_of schedule) now of
        None \<Rightarrow> None
      | Some parts \<Rightarrow>
          (let weekdayStr = jget_or ''Sun'' parts ''weekday'';
               hour = parse_int (jget_or ''0'' parts ''hour'');
               minute = parse_int (jget_or ''0'' parts ''minute'');
               day = jget_or 0 dayMap weekdayStr;
               currentMinutes = jadd (jmul hour (Num 60)) minute
           in Some (list_ex (window_covers currentMinutes (jitter_of schedule))
                (jget_or [] (activeWindows schedule) day))))"

section \<open>The next transition\<close>

datatype transition_action = Wake | Sleep

definition MS_PER_MINUTE :: int where "MS_PER_MINUTE = 60000"

definition LOOK_AHEAD :: nat where "LOOK_AHEAD = 48 * 60"

lemma LOOK_AHEAD_eq: "LOOK_AHEAD = 2880"
  by (simp add: LOOK_AHEAD_def)

text \<open>
  The loop over the minutes: nothing where the clock throws, otherwise the first offset with another
  activity, if there is one.
\<close>

fun first_change :: "(nat \<Rightarrow> bool option) \<Rightarrow> bool \<Rightarrow> nat list \<Rightarrow> (nat \<times> bool) option option" where
  "first_change active current [] = Some None"
| "first_change active current (k # ks) =
     (case active k of
        None \<Rightarrow> None
      | Some b \<Rightarrow> if b \<noteq> current then Some (Some (k, b)) else first_change active current ks)"

definition adjusted_offset :: "jsnum \<Rightarrow> rat \<Rightarrow> nat \<Rightarrow> jsnum" where
  "adjusted_offset jitter rnd k =
     (let jitterOffset = jround (jdiv (jmul (jmul (jsub (Num rnd) (Num (1/2))) (Num 2)) jitter) (jint MS_PER_MINUTE))
      in jmax (Num 1) (jadd (jint (int k)) jitterOffset))"

definition nextTransition ::
  "local_clock \<Rightarrow> ms \<Rightarrow> lifecycle_schedule \<Rightarrow> rat \<Rightarrow> (jsnum \<times> transition_action) option" where
  "nextTransition clock now schedule rnd =
     do { currentlyActive \<leftarrow> shouldBeActive clock now schedule;
          change \<leftarrow> first_change (\<lambda>k. shouldBeActive clock (now + int k * MS_PER_MINUTE) schedule) currentlyActive
                      [1..<Suc LOOK_AHEAD];
          Some (case change of
              Some (k, willBeActive) \<Rightarrow>
                (jmul (adjusted_offset (jitter_of schedule) rnd k) (jint MS_PER_MINUTE),
                 if willBeActive then Wake else Sleep)
            | None \<Rightarrow> (Num 1800000, if currentlyActive then Sleep else Wake)) }"

section \<open>What the schedule means\<close>

text \<open>The jitter widens every window by the same amount at both ends; it is no random drift.\<close>

lemma window_covers_int:
  assumes w: "w = clock_window sh sm eh em" "0 \<le> sh" "sh \<le> 24" "0 \<le> sm" "sm < 60" "0 \<le> eh" "eh \<le> 24" "0 \<le> em" "em < 60"
    and j: "0 \<le> j" "j \<le> 1000"
  shows "window_covers (jint c) (jint (j * 60000)) w \<longleftrightarrow>
    (if sh * 60 + sm \<le> eh * 60 + em
     then max 0 (sh * 60 + sm - j) \<le> c \<and> c \<le> min 1440 (eh * 60 + em + j)
     else max 0 (sh * 60 + sm - j) \<le> c \<or> c \<le> min 1440 (eh * 60 + em + j))"
proof -
  have start: "jadd (jmul (startHour w) (Num 60)) (startMinute w) = jint (sh * 60 + sm)"
    using w jmul_int [of sh 60] jadd_int [of "sh * 60" sm] by (simp add: clock_window_def del: jmul.simps jadd.simps of_int_mult of_int_add)
  have end_at: "jadd (jmul (endHour w) (Num 60)) (endMinute w) = jint (eh * 60 + em)"
    using w jmul_int [of eh 60] jadd_int [of "eh * 60" em] by (simp add: clock_window_def del: jmul.simps jadd.simps of_int_mult of_int_add)
  have q: "(of_int (j * 60000) :: rat) / 60000 = of_int j" by simp
  have m: "jround (jdiv (jint (j * 60000)) (Num 60000)) = jint j"
    using j by (simp only: jdiv.simps q) simp
  have lo: "jmax (Num 0) (jsub (jint (sh * 60 + sm)) (jint j)) = jint (max 0 (sh * 60 + sm - j))"
    using w j jsub_int [of "sh * 60 + sm" j] by (simp add: jmax_def max_def del: of_int_add of_int_mult of_int_diff)
  have hi: "jmin (Num (24 * 60)) (jadd (jint (eh * 60 + em)) (jint j)) = jint (min 1440 (eh * 60 + em + j))"
    using w j jadd_int [of "eh * 60 + em" j]
    by (simp add: jmin_def min_def del: of_int_add of_int_mult of_int_diff jadd.simps)
  show ?thesis
    unfolding window_covers_def Let_def start end_at m lo hi by (auto simp: max_def min_def)
qed

text \<open>The tail of the window of Sunday evening is looked up on Sunday, not on Monday.\<close>

lemma parse_int_demo: "parse_int ''00'' = Num 0" "parse_int ''30'' = Num 30"
  by (simp_all add: parse_int_def starts_with_def is_digit_def parse_dec_def digit_value_def)

lemma overnight_tail_on_same_day:
  "shouldBeActive (\<lambda>_ _. Some [(''weekday'', ''Sun''), (''hour'', ''00''), (''minute'', ''30'')]) t HUMAN_DEFAULT_SCHEDULE = Some True"
  "shouldBeActive (\<lambda>_ _. Some [(''weekday'', ''Mon''), (''hour'', ''00''), (''minute'', ''30'')]) t HUMAN_DEFAULT_SCHEDULE = Some False"
  using window_covers_int [OF refl, of 10 0 1 0 15 30] window_covers_int [OF refl, of 8 0 12 0 15 30]
    window_covers_int [OF refl, of 17 0 23 0 15 30]
  by (simp_all add: shouldBeActive_def HUMAN_DEFAULT_SCHEDULE_def jget_or_def dayMap_def parse_int_demo
      jitter_of_def or_default_def)

lemma find_least: "find P [m..<n] = Some k \<longleftrightarrow> m \<le> k \<and> k < n \<and> P k \<and> (\<forall>i. m \<le> i \<and> i < k \<longrightarrow> \<not> P i)"
proof (induction "n - m" arbitrary: m)
  case (Suc d)
  then have "[m..<n] = m # [Suc m..<n]" by (simp add: upt_conv_Cons)
  moreover have "find P [Suc m..<n] = Some k \<longleftrightarrow> Suc m \<le> k \<and> k < n \<and> P k \<and> (\<forall>i. Suc m \<le> i \<and> i < k \<longrightarrow> \<not> P i)"
    using Suc by simp
  moreover have split: "(\<forall>i. m \<le> i \<and> i < k \<longrightarrow> \<not> P i) \<longleftrightarrow>
      (m < k \<longrightarrow> \<not> P m) \<and> (\<forall>i. Suc m \<le> i \<and> i < k \<longrightarrow> \<not> P i)" for k
    by (metis Suc_le_eq le_eq_less_or_eq)
  moreover have "m < n" using Suc.hyps(2) by simp
  ultimately show ?case
    by (cases "P m") (auto simp: Suc_le_eq)
qed auto

lemma first_change_find:
  "(\<And>k. k \<in> set ks \<Longrightarrow> active k = Some (act k)) \<Longrightarrow>
   first_change active c ks = Some (map_option (\<lambda>k. (k, \<not> c)) (find (\<lambda>k. act k \<noteq> c) ks))"
  by (induction ks) auto

lemma half_range:
  assumes "math_random r"
  shows "\<exists>b. jmul (jsub (Num r) (Num (1/2))) (Num 2) = Num b \<and> - 1 \<le> b \<and> b \<le> 1"
proof -
  have r: "- (1 / 2) \<le> r - 1 / 2" "r - 1 / 2 \<le> 1 / 2"
    using assms by (simp_all add: math_random_def)
  have h: "round64 (1 / 2) = 1 / 2" "round64 (- (1 / 2)) = - (1 / 2)"
    using round64_dyadic [of 1 "- 1"] round64_dyadic [of "- 1" "- 1"] by (simp_all add: power_int_minus)
  have a: "- (1 / 2) \<le> round64 (r - 1 / 2)" "round64 (r - 1 / 2) \<le> 1 / 2"
    using round64_mono [OF r(1)] round64_mono [OF r(2)] h by simp_all
  have "mk_num (r - 1 / 2) = Num (round64 (r - 1 / 2))"
    using mk_num_between [of "- 1" "r - 1 / 2" 1] r by simp
  then show ?thesis
    using mk_num_between [of "- 1" "round64 (r - 1 / 2) * 2" 1] a by (simp add: jsub_def)
qed

lemma adjusted_offset_range:
  assumes j: "0 \<le> j" "j < 2 ^ 40" and r: "math_random r" and k: "k \<le> 2880"
  defines "c \<equiv> (j + 59999) div 60000"
  shows "\<exists>m. adjusted_offset (jint j) r k = jint m \<and> max 1 (int k - c) \<le> m \<and> m \<le> max 1 (int k + c)"
proof -
  obtain b where b: "jmul (jsub (Num r) (Num (1/2))) (Num 2) = Num b" "- 1 \<le> b" "b \<le> 1"
    using half_range [OF r] by blast
  have c: "0 \<le> c" "c < 2 ^ 40" "j \<le> 60000 * c" using j by (simp_all add: c_def)
  have bj: "of_int (- j) \<le> b * of_int j" "b * of_int j \<le> of_int j"
    using b j mult_right_mono [of "- 1" b "of_int j"] mult_right_mono [of b 1 "of_int j"] by simp_all
  obtain x where x: "mk_num (b * of_int j) = Num x" "of_int (- j) \<le> x" "x \<le> of_int j"
    using mk_num_between [OF bj] j by auto
  have xc: "of_int (- c) \<le> x / 60000" "x / 60000 \<le> of_int c"
    using x c(3) of_int_le_iff [of j "60000 * c", where 'a = rat] by (simp_all add: field_simps)
  obtain y where y: "mk_num (x / 60000) = Num y" "of_int (- c) \<le> y" "y \<le> of_int c"
    using mk_num_between [OF xc] c by auto
  have f: "- c \<le> \<lfloor>y + 1 / 2\<rfloor>" "\<lfloor>y + 1 / 2\<rfloor> \<le> c" using y(2,3) by linarith+
  have "jadd (jint (int k)) (jint \<lfloor>y + 1 / 2\<rfloor>) = jint (int k + \<lfloor>y + 1 / 2\<rfloor>)"
    using f c(1,2) k by (intro jadd_int) (simp add: abs_less_iff)
  then have "adjusted_offset (jint j) r k = jmax (Num 1) (jint (int k + \<lfloor>y + 1 / 2\<rfloor>))"
    using b(1) x(1) y(1) by (simp add: adjusted_offset_def MS_PER_MINUTE_def jround.simps del: jadd.simps of_int_add)
  also have "\<dots> = jint (max 1 (int k + \<lfloor>y + 1 / 2\<rfloor>))"
    by (simp add: jmax_def max_def)
  finally show ?thesis using f by (intro exI [of _ "max 1 (int k + \<lfloor>y + 1 / 2\<rfloor>)"]) auto
qed

text \<open>
  The announced transition is the first one: where the schedule does not change within two days the
  check is repeated after half an hour; otherwise the delay is a whole number of minutes, at least
  one, that differs from the first minute of another activity by at most the jitter; and the
  action is to wake up exactly when the bot sleeps now.
\<close>

theorem next_transition_is_first:
  assumes active: "\<And>k. k \<le> 2880 \<Longrightarrow> shouldBeActive clock (now + int k * 60000) s = Some (act k)"
    and j: "jitter_of s = jint j" "0 \<le> j" "j < 2 ^ 40"
    and r: "math_random r"
  shows "((\<forall>k \<le> 2880. act k = act 0) \<longrightarrow>
      nextTransition clock now s r = Some (Num 1800000, if act 0 then Sleep else Wake)) \<and>
    (k \<le> 2880 \<and> act k \<noteq> act 0 \<and> (\<forall>i < k. act i = act 0) \<longrightarrow>
      (\<exists>m. nextTransition clock now s r = Some (jint (m * 60000), if act 0 then Sleep else Wake) \<and>
         1 \<le> m \<and> int k - (j + 59999) div 60000 \<le> m \<and> m \<le> max 1 (int k + (j + 59999) div 60000)))"
proof -
  have now: "shouldBeActive clock now s = Some (act 0)" using active [of 0] by simp
  have scan: "first_change (\<lambda>k. shouldBeActive clock (now + int k * MS_PER_MINUTE) s) (act 0) [1..<Suc LOOK_AHEAD] =
      Some (map_option (\<lambda>k. (k, \<not> act 0)) (find (\<lambda>k. act k \<noteq> act 0) [1..<Suc LOOK_AHEAD]))"
    by (rule first_change_find) (simp add: MS_PER_MINUTE_def LOOK_AHEAD_def active)
  note next_simps = nextTransition_def now scan
  have "(\<forall>k \<le> 2880. act k = act 0) \<longrightarrow>
      nextTransition clock now s r = Some (Num 1800000, if act 0 then Sleep else Wake)"
  proof
    assume none: "\<forall>k \<le> 2880. act k = act 0"
    have "find (\<lambda>k. act k \<noteq> act 0) [1..<Suc LOOK_AHEAD] = None"
      unfolding find_None_iff set_upt atLeastLessThan_iff LOOK_AHEAD_eq less_Suc_eq_le using none by blast
    then show "nextTransition clock now s r = Some (Num 1800000, if act 0 then Sleep else Wake)"
      unfolding next_simps Option.bind.simps
      by (simp only: option.map option.case)
  qed
  moreover have "k \<le> 2880 \<and> act k \<noteq> act 0 \<and> (\<forall>i < k. act i = act 0) \<longrightarrow>
      (\<exists>m. nextTransition clock now s r = Some (jint (m * 60000), if act 0 then Sleep else Wake) \<and>
         1 \<le> m \<and> int k - (j + 59999) div 60000 \<le> m \<and> m \<le> max 1 (int k + (j + 59999) div 60000))"
  proof
    assume "k \<le> 2880 \<and> act k \<noteq> act 0 \<and> (\<forall>i < k. act i = act 0)"
    then have k: "k \<le> 2880" "act k \<noteq> act 0" "\<forall>i < k. act i = act 0" by blast+
    from k(2) have "1 \<le> k" by (cases k) auto
    with k have f: "find (\<lambda>k. act k \<noteq> act 0) [1..<Suc LOOK_AHEAD] = Some k"
      unfolding find_least LOOK_AHEAD_eq less_Suc_eq_le by blast
    obtain m where m: "adjusted_offset (jint j) r k = jint m"
      "max 1 (int k - (j + 59999) div 60000) \<le> m" "m \<le> max 1 (int k + (j + 59999) div 60000)"
      using adjusted_offset_range [OF j(2,3) r k(1)] by auto
    have "(j + 59999) div 60000 < 2 ^ 36" using j by simp
    with m(2,3) k(1) have "\<bar>m * 60000\<bar> < 2 ^ 53" by (auto simp: max_def abs_less_iff split: if_splits)
    then have "jmul (jint m) (jint MS_PER_MINUTE) = jint (m * 60000)"
      unfolding MS_PER_MINUTE_def by (rule jmul_int)
    then have "nextTransition clock now s r = Some (jint (m * 60000), if act 0 then Sleep else Wake)"
      using f j(1) m(1) unfolding next_simps Option.bind.simps by (simp del: jmul.simps)
    with m show "\<exists>m. nextTransition clock now s r = Some (jint (m * 60000), if act 0 then Sleep else Wake) \<and>
         1 \<le> m \<and> int k - (j + 59999) div 60000 \<le> m \<and> m \<le> max 1 (int k + (j + 59999) div 60000)"
      by auto
  qed
  ultimately show ?thesis by blast
qed

text \<open>The clock of the zone UTC.\<close>

definition two_digits :: "nat \<Rightarrow> string" where
  "two_digits n = (if n < 10 then CHR ''0'' # nat_text n else nat_text n)"

definition utc_clock :: local_clock where
  "utc_clock zone t =
     (if zone = ''UTC''
      then Some [(''weekday'', map fst dayMap ! nat ((t div 86400000 + 4) mod 7)),
                 (''hour'', two_digits (nat (t div 3600000 mod 24))),
                 (''minute'', two_digits (nat (t div 60000 mod 60)))]
      else None)"

lemma two_digits_demo: "two_digits 7 = ''07''" "two_digits 44 = ''44''" "two_digits 45 = ''45''"
  by code_simp+

lemma parse_int_morning: "parse_int ''07'' = Num 7" "parse_int ''44'' = Num 44" "parse_int ''45'' = Num 45"
  by (simp_all add: parse_int_def starts_with_def is_digit_def parse_dec_def digit_value_def)

lemma monday_0744:
  "shouldBeActive utc_clock (373440000 + int 0 * 60000) HUMAN_DEFAULT_SCHEDULE = Some False"
  "shouldBeActive utc_clock (373440000 + int 1 * 60000) HUMAN_DEFAULT_SCHEDULE = Some True"
  using window_covers_int [OF refl, of 8 0 12 0 15 464] window_covers_int [OF refl, of 17 0 23 0 15 464]
    window_covers_int [OF refl, of 8 0 12 0 15 465]
  by (simp_all add: shouldBeActive_def HUMAN_DEFAULT_SCHEDULE_def jget_or_def dayMap_def utc_clock_def zone_of_def
      two_digits_demo parse_int_morning jitter_of_def or_default_def)

theorem next_transition_is_first_witness:
  "\<exists>m. nextTransition utc_clock 373440000 HUMAN_DEFAULT_SCHEDULE (1 / 2) = Some (jint (m * 60000), Wake) \<and>
     1 \<le> m \<and> m \<le> 16"
proof -
  let ?act = "\<lambda>k. the (shouldBeActive utc_clock (373440000 + int k * 60000) HUMAN_DEFAULT_SCHEDULE)"
  have act: "shouldBeActive utc_clock (373440000 + int k * 60000) HUMAN_DEFAULT_SCHEDULE = Some (?act k)" for k
    by (simp add: shouldBeActive_def utc_clock_def zone_of_def HUMAN_DEFAULT_SCHEDULE_def Let_def)
  have jitter: "jitter_of HUMAN_DEFAULT_SCHEDULE = jint 900000"
    by (simp add: jitter_of_def HUMAN_DEFAULT_SCHEDULE_def or_default_def)
  have "0 \<le> (900000::int)" "(900000::int) < 2 ^ 40" "math_random (1 / 2)"
    by (simp_all add: math_random_def)
  note conjunct2 [OF next_transition_is_first [OF act jitter this, of 1]]
  then show ?thesis using monday_0744 by (auto simp del: of_int_mult)
qed

end
