(* ===== verification/SelfHealing.thy ===== *)
theory SelfHealing
  imports HealthScore Texts
begin

text \<open>
  Detection of throttled and shadow-banned bots, the warming of new accounts and the plan of counter
  measures: packages/core/src/behavior/self-healing.ts. Counters are naturals, rates are binary64
  numbers, the start of a warming phase is the parsed date (nothing where the text is no date).
\<close>

section \<open>Detection\<close>

record health_snapshot =
  attempted :: nat
  succeeded :: nat
  rateLimited :: nat
  silentDrops :: nat
  lastSuccessAt :: ms

datatype recommendation = Continue | Throttle | Pause | Rotate

record detection_result =
  flagged :: bool
  reason :: string
  confidence :: jsnum
  recommended :: recommendation

text \<open>\<open>x.toFixed(d)\<close> for numbers below \<open>10^21\<close>.\<close>

definition pad_left :: "nat \<Rightarrow> string \<Rightarrow> string" where
  "pad_left n s = replicate (n - length s) CHR ''0'' @ s"

definition fixed_text :: "nat \<Rightarrow> rat \<Rightarrow> string" where
  "fixed_text d x = (let n = nat \<lfloor>x * 10 ^ d + 1 / 2\<rfloor>
     in nat_text (n div 10 ^ d) @ (if d = 0 then [] else CHR ''.'' # pad_left d (nat_text (n mod 10 ^ d))))"

fun toFixed :: "nat \<Rightarrow> jsnum \<Rightarrow> string" where
  "toFixed d (Num x) = (if x < 0 then CHR ''-'' # fixed_text d (- x) else fixed_text d x)"
| "toFixed d Infty = ''Infinity''"
| "toFixed d NegInfty = ''-Infinity''"
| "toFixed d NaN = ''NaN''"

definition percent_text :: "jsnum \<Rightarrow> string" where
  "percent_text rate = toFixed 1 (jmul rate (Num 100))"

definition detectAnomaly :: "ms \<Rightarrow> health_snapshot \<Rightarrow> detection_result" where
  "detectAnomaly now snapshot =
     (let n = attempted snapshot; attempts = jint (int n)
      in if n < 5
         then \<lparr> flagged = False, reason = ''Insufficient data'', confidence = Num 0, recommended = Continue \<rparr>
         else
           let successRate = jdiv (jint (int (succeeded snapshot))) attempts;
               rateLimitRate = jdiv (jint (int (rateLimited snapshot))) attempts;
               silentDropRate = jdiv (jint (int (silentDrops snapshot))) attempts;
               minutesSinceLastSuccess = jdiv (jint (now - lastSuccessAt snapshot)) (Num 60000)
           in if jlt successRate (mk_num (1/10)) \<and> n \<ge> 20
              then \<lparr> flagged = True,
                     reason = ''Success rate '' @ percent_text successRate @ ''% over '' @ nat_text n @ '' attempts'',
                     confidence = mk_num (9/10), recommended = Pause \<rparr>
              else if jgt rateLimitRate (Num (1/2))
              then \<lparr> flagged = True,
                     reason = ''Rate-limited on '' @ percent_text rateLimitRate @ ''% of '' @ nat_text n @ '' attempts'',
                     confidence = mk_num (85/100), recommended = Throttle \<rparr>
              else if jgt minutesSinceLastSuccess (Num 30) \<and> n \<ge> 10
              then \<lparr> flagged = True,
                     reason = ''No success in '' @ toFixed 0 (jround minutesSinceLastSuccess) @ '' minutes despite '' @
                       nat_text n @ '' attempts'',
                     confidence = Num (3/4), recommended = Rotate \<rparr>
              else if jgt silentDropRate (mk_num (8/10)) \<and> n \<ge> 10
              then \<lparr> flagged = True,
                     reason = ''Silent drops on '' @ percent_text silentDropRate @ ''% of messages (possible shadowban)'',
                     confidence = mk_num (7/10), recommended = Pause \<rparr>
              else \<lparr> flagged = False, reason = ''Normal behavior'', confidence = Num 0, recommended = Continue \<rparr>)"

section \<open>Warming\<close>

record warming_config =
  durationDays :: jsnum
  maxDailyActions :: jsnum
  maxDailyPosts :: jsnum
  firstPostDay :: jsnum

definition DEFAULT_WARMING_CONFIG :: warming_config where
  "DEFAULT_WARMING_CONFIG =
     \<lparr> durationDays = Num 5, maxDailyActions = Num 5, maxDailyPosts = Num 2, firstPostDay = Num 3 \<rparr>"

record warming_state =
  startedAt :: "ms option"
  todayActions :: nat
  todayPosts :: nat
  lastActionDate :: string

record warming_limits =
  canAct :: bool
  canPost :: bool
  wl_reason :: string
  daysRemaining :: jsnum

definition day_number :: "ms option \<Rightarrow> ms \<Rightarrow> jsnum" where
  "day_number started now =
     (case started of
        None \<Rightarrow> NaN
      | Some t \<Rightarrow> jadd (jfloor (jdiv (jint (now - t)) (Num 86400000))) (Num 1))"

text \<open>\<open>str\<close> is the text of a number in a template.\<close>

definition warmingLimits :: "(jsnum \<Rightarrow> string) \<Rightarrow> warming_state \<Rightarrow> warming_config \<Rightarrow> ms \<Rightarrow> warming_limits" where
  "warmingLimits str st config now =
     (let dayNumber = day_number (startedAt st) now
      in if jgt dayNumber (durationDays config)
         then \<lparr> canAct = True, canPost = True, wl_reason = ''Warming complete'', daysRemaining = Num 0 \<rparr>
         else
           let todayActionsRemaining = jmax (Num 0) (jsub (maxDailyActions config) (jint (int (todayActions st))));
               todayPostsRemaining = jmax (Num 0) (jsub (maxDailyPosts config) (jint (int (todayPosts st))));
               posts = (jge dayNumber (firstPostDay config) \<and> jgt todayPostsRemaining (Num 0));
               day = ''Warming day '' @ str dayNumber @ ''/'' @ str (durationDays config)
           in \<lparr> canAct = jgt todayActionsRemaining (Num 0),
                canPost = posts,
                wl_reason = (if posts then day
                  else day @ '' '' @ [CHR 0xE2, CHR 0x80, CHR 0x94] @ '' posting not yet allowed''),
                daysRemaining = jmax (Num 0) (jsub (durationDays config) dayNumber) \<rparr>)"

section \<open>Counter measures\<close>

datatype rotation_type = Pauses | ChangesProxy | Alerts | CoolsDown

record rotation_action =
  ra_type :: rotation_type
  durationMs :: "ms option"
  ra_reason :: string

definition rotation :: "rotation_type \<Rightarrow> ms option \<Rightarrow> string \<Rightarrow> rotation_action" where
  "rotation ty d r = \<lparr> ra_type = ty, durationMs = d, ra_reason = r \<rparr>"

definition planRotation :: "detection_result \<Rightarrow> rotation_action list" where
  "planRotation detection =
     (case recommended detection of
        Pause \<Rightarrow>
          [rotation Pauses (Some (30 * 60000)) (reason detection),
           rotation ChangesProxy None ''Switch proxy after pause'',
           rotation Alerts None (''Bot flagged: '' @ reason detection)]
      | Throttle \<Rightarrow>
          [rotation CoolsDown (Some (10 * 60000)) (reason detection),
           rotation ChangesProxy None ''Rotate proxy to reduce rate-limit pressure'']
      | Rotate \<Rightarrow>
          [rotation ChangesProxy None (reason detection),
           rotation Alerts None (''Possible shadowban: '' @ reason detection)]
      | Continue \<Rightarrow> [])"

section \<open>The thresholds are exact\<close>

text \<open>Rounding a rate never moves it across a threshold, as long as the counters are small.\<close>

lemma tiny: "(2::rat) powi (- 1074) < 1 / 2 ^ 52"
  using powi2_less_iff [of "- 1074" "- 52"] by (simp add: power_int_minus inverse_eq_divide)

lemma rate_value:
  assumes "k \<le> n" and "0 < n" and "n < 2 ^ 40"
  shows "jdiv (jint (int k)) (jint (int n)) = Num (round64 (of_nat k / of_nat n))"
  using mk_num_between [of 0 "of_nat k / of_nat n" 1] assms by simp

lemma round64_near:
  assumes "0 \<le> x" "y \<le> 2" "1 / 2 ^ 50 \<le> y - x"
  shows "round64 x < round64 y"
proof (rule round64_strict [OF assms(1)])
  have "y / 2 ^ 52 \<le> 1 / 2 ^ 51" using assms(2) by (simp add: field_simps)
  with tiny assms(3) show "max (y / 2 ^ 52) (2 powi (- 1074)) < y - x" by simp
qed

lemma fraction_gap:
  fixes p q r t :: nat
  assumes "0 < q" "0 < t" "q * t \<le> 2 ^ 50" "p * t < r * q"
  shows "(1::rat) / 2 ^ 50 \<le> of_nat r / of_nat t - of_nat p / of_nat q"
proof -
  have "p * t + 1 \<le> r * q" using assms(4) by simp
  then have "(of_nat (p * t + 1) :: rat) \<le> of_nat (r * q)" by (simp only: of_nat_le_iff)
  then have "(1::rat) / (of_nat q * of_nat t) \<le> of_nat r / of_nat t - of_nat p / of_nat q"
    using assms(1,2) by (simp add: field_simps)
  moreover have "(of_nat (q * t) :: rat) \<le> of_nat (2 ^ 50)" using assms(3) by (simp only: of_nat_le_iff)
  then have "(1::rat) / 2 ^ 50 \<le> 1 / (of_nat q * of_nat t)"
    using assms(1,2) by (simp add: field_simps)
  ultimately show ?thesis by linarith
qed

lemma fraction_le: "0 < q \<Longrightarrow> 0 < t \<Longrightarrow> r * q \<le> p * t \<Longrightarrow> (of_nat r :: rat) / of_nat t \<le> of_nat p / of_nat q"
  using of_nat_le_iff [of "r * q" "p * t", where 'a = rat] by (simp add: field_simps)

lemma unit_fraction: "k \<le> n \<Longrightarrow> 0 < n \<Longrightarrow> (of_nat k :: rat) / of_nat n \<le> 1"
  by (simp add: field_simps)

lemma rates_compare:
  assumes kn: "k \<le> n" "0 < n" "n < 2 ^ 40" and ab: "a \<le> b" "0 < b" "b \<le> 10"
  shows "round64 (of_nat k / of_nat n) < round64 (of_nat a / of_nat b) \<longleftrightarrow> k * b < a * n"
    and "round64 (of_nat a / of_nat b) < round64 (of_nat k / of_nat n) \<longleftrightarrow> a * n < k * b"
proof -
  have nb: "n * b \<le> 2 ^ 50" "b * n \<le> 2 ^ 50"
    using mult_le_mono [of n "2 ^ 40" b 10] kn ab by (simp_all add: mult.commute)
  have "k * b < a * n \<Longrightarrow> round64 (of_nat k / of_nat n) < round64 (of_nat a / of_nat b)"
    using fraction_gap [OF kn(2) ab(2) nb(1)] unit_fraction [OF ab(1,2)] by (intro round64_near) auto
  moreover have "a * n \<le> k * b \<Longrightarrow> round64 (of_nat a / of_nat b) \<le> round64 (of_nat k / of_nat n)"
    by (intro round64_mono fraction_le kn ab)
  ultimately show "round64 (of_nat k / of_nat n) < round64 (of_nat a / of_nat b) \<longleftrightarrow> k * b < a * n"
    by linarith
  have "a * n < k * b \<Longrightarrow> round64 (of_nat a / of_nat b) < round64 (of_nat k / of_nat n)"
    using fraction_gap [OF ab(2) kn(2) nb(2)] unit_fraction [OF kn(1,2)] by (intro round64_near) auto
  moreover have "k * b \<le> a * n \<Longrightarrow> round64 (of_nat k / of_nat n) \<le> round64 (of_nat a / of_nat b)"
    by (intro round64_mono fraction_le kn ab)
  ultimately show "round64 (of_nat a / of_nat b) < round64 (of_nat k / of_nat n) \<longleftrightarrow> a * n < k * b"
    by linarith
qed

lemma minutes_compare:
  assumes "\<bar>d\<bar> < 2 ^ 53"
  shows "jlt (Num 30) (jdiv (jint d) (Num 60000)) \<longleftrightarrow> 1800000 < d"
proof (cases "1800000 < d")
  case True
  have "30 + 1 / 60000 \<le> (of_int d :: rat) / 60000"
    using True of_int_le_iff [of 1800001 d, where 'a = rat] by simp
  moreover have "round64 30 < round64 (30 + 1 / 60000)"
  proof (rule round64_strict)
    show "max ((30 + 1 / 60000) / 2 ^ 52) (2 powi (- 1074)) < 30 + 1 / 60000 - (30::rat)"
      using tiny by simp
  qed simp
  ultimately have "30 < round64 (of_int d / 60000)"
    using round64_mono [of "30 + 1 / 60000" "of_int d / 60000"] by simp
  moreover have "mk_num (of_int d / 60000) = Num (round64 (of_int d / 60000))"
    using mk_num_between [of 0 "of_int d / 60000" d] assms True by simp
  ultimately show ?thesis using True by simp
next
  case False
  then have "of_int d / 60000 \<le> (of_int 30 :: rat)"
    using of_int_le_iff [of d 1800000, where 'a = rat] by simp
  moreover have "(of_int (- (2 ^ 52)) :: rat) \<le> of_int d / 60000"
    using assms of_int_le_iff [of "- (2 ^ 53)" d, where 'a = rat] by simp
  ultimately show ?thesis
    using mk_num_between [of "- (2 ^ 52)" "of_int d / 60000" 30] False by auto
qed

lemma detection_guards:
  assumes n: "5 \<le> attempted h" "attempted h < 2 ^ 40"
    and "succeeded h \<le> attempted h" "rateLimited h \<le> attempted h" "silentDrops h \<le> attempted h"
  shows "jlt (jdiv (jint (int (succeeded h))) (jint (int (attempted h)))) (mk_num (1/10)) \<longleftrightarrow>
      10 * succeeded h < attempted h"
    and "jlt (Num (1/2)) (jdiv (jint (int (rateLimited h))) (jint (int (attempted h)))) \<longleftrightarrow>
      attempted h < 2 * rateLimited h"
    and "jlt (mk_num (8/10)) (jdiv (jint (int (silentDrops h))) (jint (int (attempted h)))) \<longleftrightarrow>
      4 * attempted h < 5 * silentDrops h"
proof -
  have pos: "0 < attempted h" using n by simp
  have c: "mk_num (1/10) = Num (round64 (1/10))" "mk_num (8/10) = Num (round64 (4/5))"
    using mk_num_between [of 0 "1/10" 1] mk_num_between [of 0 "4/5" 1] by simp_all
  have half: "round64 (1 / 2) = 1 / 2"
    using round64_dyadic [of 1 "- 1"] by (simp add: power_int_minus)
  show "jlt (jdiv (jint (int (succeeded h))) (jint (int (attempted h)))) (mk_num (1/10)) \<longleftrightarrow>
      10 * succeeded h < attempted h"
    using rates_compare(1) [OF assms(3) pos n(2), of 1 10] unfolding rate_value [OF assms(3) pos n(2)] c
    by (simp add: mult.commute)
  show "jlt (Num (1/2)) (jdiv (jint (int (rateLimited h))) (jint (int (attempted h)))) \<longleftrightarrow>
      attempted h < 2 * rateLimited h"
    using rates_compare(2) [OF assms(4) pos n(2), of 1 2] half unfolding rate_value [OF assms(4) pos n(2)]
    by (simp add: mult.commute)
  show "jlt (mk_num (8/10)) (jdiv (jint (int (silentDrops h))) (jint (int (attempted h)))) \<longleftrightarrow>
      4 * attempted h < 5 * silentDrops h"
    using rates_compare(2) [OF assms(5) pos n(2), of 4 5] unfolding rate_value [OF assms(5) pos n(2)] c
    by (simp add: mult.commute)
qed

text \<open>
  The anomaly detector decides by exact thresholds in spite of its floating-point rates: less than a
  tenth of twenty or more attempts succeeded, more than half were rate-limited, no success for more
  than half an hour, more than four fifths without an echo, in this order; a bot is flagged exactly
  when counter measures are planned.
\<close>

lemma detection_thresholds:
  assumes n: "attempted h < 2 ^ 40"
    and parts: "succeeded h \<le> attempted h" "rateLimited h \<le> attempted h" "silentDrops h \<le> attempted h"
    and clock: "\<bar>now - lastSuccessAt h\<bar> < 2 ^ 53"
  shows "recommended (detectAnomaly now h) =
      (if attempted h < 5 then Continue
       else if 20 \<le> attempted h \<and> 10 * succeeded h < attempted h then Pause
       else if attempted h < 2 * rateLimited h then Throttle
       else if 10 \<le> attempted h \<and> lastSuccessAt h + 1800000 < now then Rotate
       else if 10 \<le> attempted h \<and> 4 * attempted h < 5 * silentDrops h then Pause
       else Continue) \<and>
    (flagged (detectAnomaly now h) \<longleftrightarrow> planRotation (detectAnomaly now h) \<noteq> [])"
proof (cases "attempted h < 5")
  case True
  then show ?thesis by (simp add: detectAnomaly_def planRotation_def)
next
  case False
  then have n5: "5 \<le> attempted h" by simp
  have silence: "jlt (Num 30) (jdiv (jint (now - lastSuccessAt h)) (Num 60000)) \<longleftrightarrow> lastSuccessAt h + 1800000 < now"
    using minutes_compare [OF clock] by auto
  show ?thesis
    using n5 unfolding detectAnomaly_def Let_def detection_guards [OF n5 n parts] silence
    by (simp add: planRotation_def conj_commute)
qed

theorem detection_thresholds_witness:
  "recommended (detectAnomaly 5000000 \<lparr> attempted = 20, succeeded = 2, rateLimited = 10, silentDrops = 0,
     lastSuccessAt = 1000000 \<rparr>) = Rotate"
  using detection_thresholds [of "\<lparr> attempted = 20, succeeded = 2, rateLimited = 10, silentDrops = 0,
     lastSuccessAt = 1000000 \<rparr>" 5000000] by simp

text \<open>A warming account has room for another action, or for a post, only below its daily maximum.\<close>

lemma warming_room:
  assumes "\<not> jgt (day_number (startedAt st) now) (durationDays config)"
    and "maxDailyActions config = jint a" "maxDailyPosts config = jint p" "0 \<le> a" "a < 2 ^ 40" "0 \<le> p" "p < 2 ^ 40"
    and "todayActions st < 2 ^ 40" "todayPosts st < 2 ^ 40"
  shows "canAct (warmingLimits str st config now) \<longleftrightarrow> int (todayActions st) < a"
    and "canPost (warmingLimits str st config now) \<longleftrightarrow>
      jge (day_number (startedAt st) now) (firstPostDay config) \<and> int (todayPosts st) < p"
proof -
  have room: "jgt (jmax (Num 0) (jsub (jint m) (jint (int k)))) (Num 0) \<longleftrightarrow> int k < m"
    if "0 \<le> m" "m < 2 ^ 40" "k < 2 ^ 40" for m k
    using that jsub_int [of m "int k"]
    by (simp add: jmax_def abs_less_iff del: of_int_diff)
  show "canAct (warmingLimits str st config now) \<longleftrightarrow> int (todayActions st) < a"
    and "canPost (warmingLimits str st config now) \<longleftrightarrow>
      jge (day_number (startedAt st) now) (firstPostDay config) \<and> int (todayPosts st) < p"
    using assms room [of a "todayActions st"] room [of p "todayPosts st"] by (simp_all add: warmingLimits_def Let_def)
qed

end
