(* ===== verification/HumanDelay.thy ===== *)
theory HumanDelay
  imports Lifecycle
begin

text \<open>
  Random pauses before publishing actions: packages/core/src/behavior/human-delay.ts, and the behaviour
  configuration of a bot. The transcendental functions of \<open>Math\<close> are implementation-approximated, so
  they are an argument with the ranges that every implementation keeps as hypotheses; the random
  numbers are a sequence of draws, and every function also returns the position it has come to.
\<close>

section \<open>The distributions\<close>

record math_functions =
  m_log :: "jsnum \<Rightarrow> jsnum"
  m_sqrt :: "jsnum \<Rightarrow> jsnum"
  m_cos :: "jsnum \<Rightarrow> jsnum"
  m_exp :: "jsnum \<Rightarrow> jsnum"

definition MATH_PI :: jsnum where
  "MATH_PI = Num (884279719003555 / 281474976710656)"

text \<open>\<open>while (u === 0) u = rng()\<close>: a generator that yields only zeros never gets out.\<close>

partial_function (option) next_nonzero :: "(nat \<Rightarrow> rat) \<Rightarrow> nat \<Rightarrow> (rat \<times> nat) option" where
  "next_nonzero rng i = (if rng i = 0 then next_nonzero rng (Suc i) else Some (rng i, Suc i))"

definition boxMuller :: "math_functions \<Rightarrow> (nat \<Rightarrow> rat) \<Rightarrow> nat \<Rightarrow> (jsnum \<times> nat) option" where
  "boxMuller M rng i =
     do { (u, i) \<leftarrow> next_nonzero rng i;
          (v, i) \<leftarrow> next_nonzero rng i;
          Some (jmul (m_sqrt M (jmul (Num (- 2)) (m_log M (Num u)))) (m_cos M (jmul (jmul (Num 2) MATH_PI) (Num v))), i) }"

record delay_bounds =
  db_min :: "jsnum option"
  db_max :: "jsnum option"

definition between :: "jsnum \<Rightarrow> jsnum \<Rightarrow> delay_bounds" where
  "between lo hi = \<lparr> db_min = Some lo, db_max = Some hi \<rparr>"

definition gaussian ::
  "math_functions \<Rightarrow> jsnum \<Rightarrow> jsnum \<Rightarrow> delay_bounds \<Rightarrow> (nat \<Rightarrow> rat) \<Rightarrow> nat \<Rightarrow> (jsnum \<times> nat) option" where
  "gaussian M meanMs stdMs bounds rng i =
     do { (z, i) \<leftarrow> boxMuller M rng i;
          let min = or_default (Num 0) (db_min bounds);
          let max = or_default Infty (db_max bounds);
          let raw = jadd meanMs (jmul z stdMs);
          Some (jmax min (jmin max raw), i) }"

definition logNormal ::
  "math_functions \<Rightarrow> jsnum \<Rightarrow> jsnum \<Rightarrow> delay_bounds \<Rightarrow> (nat \<Rightarrow> rat) \<Rightarrow> nat \<Rightarrow> (jsnum \<times> nat) option" where
  "logNormal M mu sigma bounds rng i =
     do { (z, i) \<leftarrow> boxMuller M rng i;
          let min = or_default (Num 0) (db_min bounds);
          let max = or_default Infty (db_max bounds);
          let raw = m_exp M (jadd mu (jmul z sigma));
          Some (jmax min (jmin max raw), i) }"

definition uniform :: "jsnum \<Rightarrow> jsnum \<Rightarrow> (nat \<Rightarrow> rat) \<Rightarrow> nat \<Rightarrow> jsnum \<times> nat" where
  "uniform minMs maxMs rng i = (jadd minMs (jmul (Num (rng i)) (jsub maxMs minMs)), Suc i)"

section \<open>Presets\<close>

type_synonym delay_source = "(nat \<Rightarrow> rat) \<Rightarrow> nat \<Rightarrow> (jsnum \<times> nat) option"

definition typingDelay :: "math_functions \<Rightarrow> delay_source" where
  "typingDelay M = gaussian M (Num 75) (Num 25) (between (Num 30) (Num 160))"

definition messageGap :: "math_functions \<Rightarrow> delay_source" where
  "messageGap M = logNormal M (m_log M (Num 3500)) (mk_num (6/10)) (between (Num 800) (Num 20000))"

definition clickDelay :: "math_functions \<Rightarrow> delay_source" where
  "clickDelay M = gaussian M (Num 350) (Num 120) (between (Num 100) (Num 900))"

definition reactionDelay :: "math_functions \<Rightarrow> delay_source" where
  "reactionDelay M = gaussian M (Num 1200) (Num 400) (between (Num 400) (Num 4000))"

definition thinkingPause :: "math_functions \<Rightarrow> delay_source" where
  "thinkingPause M = logNormal M (m_log M (Num 5000)) (mk_num (7/10)) (between (Num 1500) (Num 30000))"

definition scrollDelay :: "math_functions \<Rightarrow> delay_source" where
  "scrollDelay M = gaussian M (Num 600) (Num 200) (between (Num 200) (Num 1500))"

section \<open>The pause before an action\<close>

record human_delay_config =
  hd_messageGap :: "bool option"
  hd_thinkingPause :: "bool option"
  hd_reactionDelay :: "bool option"
  hd_scale :: "jsnum option"

definition default_delays :: human_delay_config where
  "default_delays = \<lparr> hd_messageGap = None, hd_thinkingPause = None, hd_reactionDelay = None, hd_scale = None \<rparr>"

text \<open>\<open>config.behavior\<close> of a bot; \<open>humanDelay\<close> may be a boolean or a configuration.\<close>

datatype human_delay = DelayFlag bool | DelayConfig human_delay_config

record human_behavior_config =
  enabled :: bool
  schedule :: "lifecycle_schedule option"
  timezone :: "string option"
  humanDelay :: "human_delay option"

definition MESSAGE_ACTIONS :: "string list" where
  "MESSAGE_ACTIONS = [''sendMessage'', ''sendPhoto'', ''say'', ''tweet'']"

definition REPLY_ACTIONS :: "string list" where "REPLY_ACTIONS = [''reply'']"

definition REACTION_ACTIONS :: "string list" where "REACTION_ACTIONS = [''react'']"

definition scaled :: "human_delay_config \<Rightarrow> jsnum \<Rightarrow> jsnum" where
  "scaled config delay = jmax (Num 0) (jround (jmul delay (or_default (Num 1) (hd_scale config))))"

definition delayForAction ::
  "math_functions \<Rightarrow> string \<Rightarrow> human_delay_config \<Rightarrow> (nat \<Rightarrow> rat) \<Rightarrow> nat \<Rightarrow> (jsnum \<times> nat) option" where
  "delayForAction M actionType config rng i =
     (let pause = (\<lambda>source. do { (d, i) \<leftarrow> source rng i; Some (scaled config d, i) })
      in if actionType \<in> set REPLY_ACTIONS
         then if hd_thinkingPause config = Some False then Some (Num 0, i) else pause (thinkingPause M)
         else if actionType \<in> set REACTION_ACTIONS
         then if hd_reactionDelay config = Some False then Some (Num 0, i) else pause (reactionDelay M)
         else if actionType \<in> set MESSAGE_ACTIONS
         then if hd_messageGap config = Some False then Some (Num 0, i) else pause (messageGap M)
         else Some (Num 0, i))"

section \<open>Pauses are bounded\<close>

text \<open>The ranges of the functions of \<open>Math\<close> on the numbers that are fed to them.\<close>

definition math_ok :: "math_functions \<Rightarrow> bool" where
  "math_ok M \<longleftrightarrow>
     (\<forall>x. 0 < x \<and> x < 1 \<and> round64 x = x \<longrightarrow> (\<exists>y. m_log M (Num x) = Num y \<and> - 746 \<le> y \<and> y \<le> 0)) \<and>
     (\<forall>x. 1 \<le> x \<and> x < 2 ^ 53 \<longrightarrow> (\<exists>y. m_log M (Num x) = Num y \<and> 0 \<le> y \<and> y \<le> 37)) \<and>
     (\<forall>x. 0 \<le> x \<and> x \<le> 1492 \<longrightarrow> (\<exists>y. m_sqrt M (Num x) = Num y \<and> 0 \<le> y \<and> y \<le> 39)) \<and>
     (\<forall>x. \<exists>y. m_cos M (Num x) = Num y \<and> - 1 \<le> y \<and> y \<le> 1) \<and>
     (\<forall>x. m_exp M (Num x) = Infty \<or> (\<exists>y \<ge> 0. m_exp M (Num x) = Num y))"

definition draws_ok :: "(nat \<Rightarrow> rat) \<Rightarrow> bool" where
  "draws_ok rng \<longleftrightarrow> (\<forall>i. math_random (rng i) \<and> round64 (rng i) = rng i) \<and> (\<forall>i. \<exists>j \<ge> i. rng j \<noteq> 0)"

lemma math_okD:
  assumes "math_ok M"
  shows "\<exists>y. m_cos M (Num x) = Num y \<and> - 1 \<le> y \<and> y \<le> 1"
    and "m_exp M (Num x) = Infty \<or> (\<exists>y \<ge> 0. m_exp M (Num x) = Num y)"
    and "1 \<le> x \<Longrightarrow> x < 2 ^ 53 \<Longrightarrow> \<exists>y. m_log M (Num x) = Num y \<and> 0 \<le> y \<and> y \<le> 37"
  using assms unfolding math_ok_def by blast+

lemma next_nonzero_found:
  "i \<le> j \<Longrightarrow> rng j \<noteq> 0 \<Longrightarrow> \<exists>k \<ge> i. next_nonzero rng i = Some (rng k, Suc k) \<and> rng k \<noteq> 0"
proof (induction "j - i" arbitrary: i)
  case 0
  then show ?case by (intro exI [of _ i]) (simp add: next_nonzero.simps)
next
  case (Suc d)
  show ?case
  proof (cases "rng i = 0")
    case True
    with Suc have "\<exists>k \<ge> Suc i. next_nonzero rng (Suc i) = Some (rng k, Suc k) \<and> rng k \<noteq> 0" by simp
    with True show ?thesis by (subst next_nonzero.simps) (auto intro: Suc_leD)
  qed (auto simp: next_nonzero.simps)
qed

lemma next_nonzero_draw:
  assumes "draws_ok rng"
  shows "\<exists>x k. next_nonzero rng i = Some (x, k) \<and> 0 < x \<and> x < 1 \<and> round64 x = x"
proof -
  obtain j where "i \<le> j" "rng j \<noteq> 0" using assms by (auto simp: draws_ok_def)
  then obtain k where k: "next_nonzero rng i = Some (rng k, Suc k)" "rng k \<noteq> 0"
    using next_nonzero_found by blast
  have r: "math_random (rng k)" "round64 (rng k) = rng k" using assms by (auto simp: draws_ok_def)
  have "(0::rat) < 1 / 2 ^ 53" by simp
  with r(1) k(2) have "0 < rng k" "rng k < 1" unfolding math_random_def by linarith+
  with k r show ?thesis by blast
qed

lemma product_between:
  assumes "0 \<le> a" "a \<le> of_int n" "- 1 \<le> b" "b \<le> (1::rat)"
  shows "of_int (- n) \<le> a * b" "a * b \<le> of_int n"
proof -
  have "\<bar>a * b\<bar> \<le> of_int n * 1"
    unfolding abs_mult using assms by (intro mult_mono) auto
  then show "of_int (- n) \<le> a * b" "a * b \<le> of_int n" by auto
qed

lemma boxMuller_range:
  assumes M: "math_ok M" and rng: "draws_ok rng"
  shows "\<exists>z k. boxMuller M rng i = Some (Num z, k) \<and> - 39 \<le> z \<and> z \<le> 39"
proof -
  obtain u k where u: "next_nonzero rng i = Some (u, k)" "0 < u" "u < 1" "round64 u = u"
    using next_nonzero_draw [OF rng] by blast
  obtain v l where v: "next_nonzero rng k = Some (v, l)" "0 < v" "v < 1" "round64 v = v"
    using next_nonzero_draw [OF rng] by blast
  obtain a where a: "m_log M (Num u) = Num a" "- 746 \<le> a" "a \<le> 0"
    using M u by (auto simp: math_ok_def)
  then have "mk_num (- 2 * a) = Num (round64 (- 2 * a)) \<and> 0 \<le> round64 (- 2 * a) \<and> round64 (- 2 * a) \<le> 1492"
    using mk_num_between [of 0 "- 2 * a" 1492] by simp
  then obtain s where s: "m_sqrt M (mk_num (- 2 * a)) = Num s" "0 \<le> s" "s \<le> 39"
    using M by (auto simp: math_ok_def)
  have pi: "jmul (Num 2) MATH_PI = Num (884279719003555 / 140737488355328)"
    using round64_dyadic [of 884279719003555 "- 47"] mk_num_between [of 0 "884279719003555 / 140737488355328" 7]
    by (simp add: MATH_PI_def power_int_minus)
  have "884279719003555 / 140737488355328 * v \<le> 7 * 1"
    using v by (intro mult_mono) simp_all
  then have "\<exists>t. jmul (jmul (Num 2) MATH_PI) (Num v) = Num t"
    using mk_num_between [of 0 "884279719003555 / 140737488355328 * v" 7] v unfolding pi by simp
  then obtain c where c: "m_cos M (jmul (jmul (Num 2) MATH_PI) (Num v)) = Num c" "- 1 \<le> c" "c \<le> 1"
    using math_okD(1) [OF M] by metis
  have "mk_num (s * c) = Num (round64 (s * c)) \<and> - 39 \<le> round64 (s * c) \<and> round64 (s * c) \<le> 39"
    using mk_num_between [of "- 39" "s * c" 39] product_between [of s 39 c] s c by simp
  then show ?thesis
    using u v a s c by (simp add: boxMuller_def del: jmul.simps) (simp add: s)
qed

lemma clamp_range:
  "x \<noteq> NaN \<Longrightarrow> lo \<le> hi \<Longrightarrow> \<exists>d. jmax (Num lo) (jmin (Num hi) x) = Num d \<and> lo \<le> d \<and> d \<le> hi"
  by (cases x) (auto simp: jmax_def jmin_def)

lemma mk_num_not_nan: "mk_num x \<noteq> NaN"
  by (simp add: mk_num_def Let_def)

lemma jadd_not_nan: "y \<noteq> NaN \<Longrightarrow> jadd (Num x) y \<noteq> NaN"
  by (cases y) (simp_all add: mk_num_not_nan)

lemma gaussian_range:
  assumes "math_ok M" "draws_ok rng" "lo \<le> hi"
  shows "\<exists>d k. gaussian M (Num m) (Num t) (between (Num lo) (Num hi)) rng i = Some (Num d, k) \<and> lo \<le> d \<and> d \<le> hi"
proof -
  obtain z k where z: "boxMuller M rng i = Some (Num z, k)"
    using boxMuller_range [OF assms(1,2)] by blast
  have "jadd (Num m) (jmul (Num z) (Num t)) \<noteq> NaN"
    by (intro jadd_not_nan) (simp add: mk_num_not_nan)
  from clamp_range [OF this assms(3)] show ?thesis
    by (auto simp: gaussian_def z between_def or_default_def Let_def simp del: jadd.simps jmul.simps)
qed

lemma logNormal_range:
  assumes "math_ok M" "draws_ok rng" "lo \<le> hi"
    and mu: "1 \<le> c" "c < 2 ^ 53" and sigma: "0 \<le> t" "t \<le> 1"
  shows "\<exists>d k. logNormal M (m_log M (Num c)) (mk_num t) (between (Num lo) (Num hi)) rng i = Some (Num d, k) \<and>
    lo \<le> d \<and> d \<le> hi"
proof -
  obtain z k where z: "boxMuller M rng i = Some (Num z, k)" "- 39 \<le> z" "z \<le> 39"
    using boxMuller_range [OF assms(1,2)] by blast
  obtain s where s: "mk_num t = Num s" "0 \<le> s" "s \<le> 1"
    using mk_num_between [of 0 t 1] sigma by simp
  obtain m where m: "m_log M (Num c) = Num m" "0 \<le> m" "m \<le> 37"
    using math_okD(3) [OF assms(1) mu] by blast
  have "\<bar>z * s\<bar> \<le> 39 * 1"
    unfolding abs_mult using z s by (intro mult_mono) auto
  then have "mk_num (z * s) = Num (round64 (z * s)) \<and> - 39 \<le> round64 (z * s) \<and> round64 (z * s) \<le> 39"
    using mk_num_between [of "- 39" "z * s" 39] by (simp add: abs_le_iff)
  then obtain p where p: "mk_num (z * s) = Num p" "- 39 \<le> p" "p \<le> 39" by blast
  obtain q where q: "mk_num (m + p) = Num q"
    using mk_num_between [of "- 39" "m + p" 76] m p by simp
  have "m_exp M (jadd (m_log M (Num c)) (jmul (Num z) (mk_num t))) \<noteq> NaN"
    using math_okD(2) [OF assms(1), of q] by (auto simp: m s p q)
  from clamp_range [OF this assms(3)] show ?thesis
    by (auto simp: logNormal_def z between_def or_default_def Let_def simp del: jadd.simps jmul.simps)
qed

lemma round_between_int:
  assumes "of_int a \<le> d" "d \<le> of_int b"
  shows "\<exists>n. jround (Num d) = jint n \<and> a \<le> n \<and> n \<le> b"
  using assms by (intro exI [of _ "\<lfloor>d + 1 / 2\<rfloor>"]) (auto simp: jround.simps le_floor_iff floor_le_iff)

text \<open>The range in whole milliseconds of the pause before an action.\<close>

definition pause_range :: "human_delay_config \<Rightarrow> string \<Rightarrow> int \<times> int" where
  "pause_range config a =
     (if a = ''reply'' \<and> hd_thinkingPause config \<noteq> Some False then (1500, 30000)
      else if a = ''react'' \<and> hd_reactionDelay config \<noteq> Some False then (400, 4000)
      else if a \<in> set MESSAGE_ACTIONS \<and> hd_messageGap config \<noteq> Some False then (800, 20000)
      else (0, 0))"

lemma scaled_range:
  assumes "hd_scale config = None" "of_int a \<le> d" "d \<le> of_int b" "0 \<le> a" "a \<le> b" "b < 2 ^ 40"
  shows "\<exists>n. scaled config (Num d) = jint n \<and> a \<le> n \<and> n \<le> b"
proof -
  obtain e where e: "mk_num (d * 1) = Num e" "of_int a \<le> e" "e \<le> of_int b"
    using mk_num_between [of a d b] assms by auto
  then obtain n where "jround (Num e) = jint n" "a \<le> n" "n \<le> b"
    using round_between_int by blast
  with e show ?thesis
    using assms(1,4) by (auto simp: scaled_def or_default_def jmax_def)
qed

text \<open>
  The pause before an action always comes to an end, and it is a whole number of milliseconds in
  the range of the kind of action: up to half a minute before a reply, up to four seconds before a
  reaction, up to twenty seconds before a message, none before anything else or where it is
  switched off; whatever the random numbers are, unless they are zero from some point on.
\<close>

theorem pause_bounded:
  assumes M: "math_ok M" and rng: "draws_ok rng" and scale: "hd_scale config = None"
  shows "\<exists>d k. delayForAction M a config rng i = Some (jint d, k) \<and>
    fst (pause_range config a) \<le> d \<and> d \<le> snd (pause_range config a)"
proof -
  have thinking: "\<exists>d k. thinkingPause M rng i = Some (Num d, k) \<and> 1500 \<le> d \<and> d \<le> 30000"
    unfolding thinkingPause_def using M rng by (rule logNormal_range) simp_all
  have gap: "\<exists>d k. messageGap M rng i = Some (Num d, k) \<and> 800 \<le> d \<and> d \<le> 20000"
    unfolding messageGap_def using M rng by (rule logNormal_range) simp_all
  have reaction: "\<exists>d k. reactionDelay M rng i = Some (Num d, k) \<and> 400 \<le> d \<and> d \<le> 4000"
    unfolding reactionDelay_def using M rng by (rule gaussian_range) simp
  have pause: "\<exists>n k. source rng i \<bind> (\<lambda>(d, i). Some (scaled config d, i)) = Some (jint n, k) \<and> lo \<le> n \<and> n \<le> hi"
    if "\<exists>d k. source rng i = Some (Num d, k) \<and> of_int lo \<le> d \<and> d \<le> of_int hi" "0 \<le> lo" "lo \<le> hi" "hi < 2 ^ 40"
    for source and lo hi :: int
    using that scaled_range [OF scale, of lo _ hi] by fastforce
  show ?thesis
    using pause [of "thinkingPause M" 1500 30000] pause [of "messageGap M" 800 20000]
      pause [of "reactionDelay M" 400 4000] thinking gap reaction
    by (auto simp: delayForAction_def pause_range_def REPLY_ACTIONS_def REACTION_ACTIONS_def MESSAGE_ACTIONS_def)
qed

definition demo_math :: math_functions where
  "demo_math = \<lparr> m_log = (\<lambda>x. if jlt x (Num 1) then Num (- 1) else Num 8), m_sqrt = (\<lambda>_. Num 1),
     m_cos = (\<lambda>_. Num 1), m_exp = (\<lambda>_. Num 3000) \<rparr>"

lemma demo_math_ok: "math_ok demo_math" "draws_ok (\<lambda>_. 1 / 2)"
  using round64_dyadic [of 1 "- 1"]
  by (auto simp: math_ok_def demo_math_def draws_ok_def math_random_def power_int_minus)

theorem pause_bounded_witness:
  "\<exists>d k. delayForAction demo_math ''reply'' default_delays (\<lambda>_. 1 / 2) 0 = Some (jint d, k) \<and> 1500 \<le> d \<and> d \<le> 30000"
  using pause_bounded [OF demo_math_ok, of default_delays "''reply''" 0]
  by (simp add: pause_range_def default_delays_def)

text \<open>A generator that is stuck at zero keeps the loop of the normal distribution going for ever.\<close>

lemma next_nonzero_draws: "next_nonzero rng i = Some r \<Longrightarrow> \<exists>j. rng j \<noteq> 0"
  by (rule next_nonzero.raw_induct [where P = "\<lambda>rng i r. \<exists>j. rng j \<noteq> 0", rotated])
    (auto split: if_splits)

lemma zeros_never_end: "next_nonzero (\<lambda>_. 0) i = None"
  using next_nonzero_draws [of "\<lambda>_. 0" i] by (cases "next_nonzero (\<lambda>_. 0) i") auto

end
