(* ===== verification/WorkerBots.thy ===== *)
theory WorkerBots
  imports CircuitBreaker ProxyPool RateLimiter HumanDelay SelfHealing Json
begin

text \<open>
  The bots of a worker process: packages/workers/src/base-worker.ts, the entries of the bots with
  their breakers, health windows, proxies and reconnect timers. The database, the log and the
  webhooks are the list of effects that the worker has sent out; rows that it reads are arguments. A
  method runs between two awaits on the outside world, with one reading of the clock. The
  connection of a platform, an abstract method, is an argument.
\<close>

section \<open>State\<close>

definition MAX_RECONNECT_ATTEMPTS :: nat where "MAX_RECONNECT_ATTEMPTS = 10"

definition CIRCUIT_OPTIONS :: cb_options where
  "CIRCUIT_OPTIONS =
     \<lparr> opt_failureThreshold = Some 5, opt_successThreshold = Some 1, opt_resetTimeoutMs = Some 60000 \<rparr>"

record bot_entry =
  be_status :: string
  be_reconnectAttempts :: nat
  be_connectedAt :: "ms option"
  be_rateLimitPerMinute :: "int option"
  be_rateLimitBudgets :: "json option"
  be_actionsSuccess :: nat
  be_actionsFailed :: nat
  be_scriptExecutions :: nat
  be_scriptErrors :: nat
  be_behavior :: "human_behavior_config option"
  be_rateLimited :: nat
  be_silentDrops :: nat
  be_lastSuccessAt :: ms
  be_warming :: "(warming_state \<times> warming_config) option"
  be_selfHealingPauseUntil :: ms
  be_selfHealingCooldownUntil :: ms
  be_cryptoOrders :: nat
  be_cryptoFills :: nat
  be_cryptoOrderErrors :: nat
  be_cryptoVolumeUsdt :: jsnum

definition new_entry :: bot_entry where
  "new_entry =
     \<lparr> be_status = ''connecting'', be_reconnectAttempts = 0, be_connectedAt = None, be_rateLimitPerMinute = None,
       be_rateLimitBudgets = None, be_actionsSuccess = 0, be_actionsFailed = 0, be_scriptExecutions = 0,
       be_scriptErrors = 0, be_behavior = None, be_rateLimited = 0, be_silentDrops = 0, be_lastSuccessAt = 0,
       be_warming = None, be_selfHealingPauseUntil = 0, be_selfHealingCooldownUntil = 0, be_cryptoOrders = 0,
       be_cryptoFills = 0, be_cryptoOrderErrors = 0, be_cryptoVolumeUsdt = Num 0 \<rparr>"

text \<open>An entry of \<open>reconnectTimers\<close> stays there when its timer has fired; \<open>rt_live\<close> says that it will still fire.\<close>

record reconnect_timer =
  rt_due :: ms
  rt_live :: bool

datatype worker_effect =
    DbStatus string string "ms option"
  | LogLine string string string
  | StatusWebhook string string "string option"
  | ErrorWebhook string string

record worker =
  wk_bots :: "(string, bot_entry) jmap"
  wk_timers :: "(string, reconnect_timer) jmap"
  wk_breakers :: "(string, breaker) jmap"
  wk_health :: "(string, tracker) jmap"
  wk_proxies :: pool
  wk_botProxyIds :: "(string, string) jmap"
  wk_isLeader :: bool
  wk_isLosing :: bool
  wk_out :: "worker_effect list"

definition new_worker :: worker where
  "new_worker = \<lparr> wk_bots = [], wk_timers = [], wk_breakers = [], wk_health = [], wk_proxies = empty_pool,
     wk_botProxyIds = [], wk_isLeader = False, wk_isLosing = False, wk_out = [] \<rparr>"

definition emits :: "worker_effect list \<Rightarrow> worker \<Rightarrow> worker" where
  "emits es w = w\<lparr> wk_out := wk_out w @ es \<rparr>"

section \<open>Entries, breakers and health windows on demand\<close>

definition getCircuitBreaker :: "string \<Rightarrow> worker \<Rightarrow> breaker" where
  "getCircuitBreaker b w = jget_or new_breaker (wk_breakers w) b"

definition set_breaker :: "string \<Rightarrow> breaker \<Rightarrow> worker \<Rightarrow> worker" where
  "set_breaker b br w = w\<lparr> wk_breakers := jset b br (wk_breakers w) \<rparr>"

definition getHealth :: "string \<Rightarrow> worker \<Rightarrow> tracker" where
  "getHealth b w = jget_or (new_tracker None) (wk_health w) b"

definition set_health :: "string \<Rightarrow> tracker \<Rightarrow> worker \<Rightarrow> worker" where
  "set_health b h w = w\<lparr> wk_health := jset b h (wk_health w) \<rparr>"

definition ensureBot :: "string \<Rightarrow> worker \<Rightarrow> worker" where
  "ensureBot b w = (if jget (wk_bots w) b = None then w\<lparr> wk_bots := jset b new_entry (wk_bots w) \<rparr> else w)"

definition entry_of :: "string \<Rightarrow> worker \<Rightarrow> bot_entry" where
  "entry_of b w = jget_or new_entry (wk_bots w) b"

text \<open>Changes the entry of a bot where there is one.\<close>

definition map_entry :: "string \<Rightarrow> (bot_entry \<Rightarrow> bot_entry) \<Rightarrow> worker \<Rightarrow> worker" where
  "map_entry b f w = (case jget (wk_bots w) b of None \<Rightarrow> w | Some e \<Rightarrow> w\<lparr> wk_bots := jset b (f e) (wk_bots w) \<rparr>)"

definition prepareConnect :: "string \<Rightarrow> worker \<Rightarrow> worker" where
  "prepareConnect b w =
     (case jget (wk_bots w) b of
        Some e \<Rightarrow> w\<lparr> wk_bots := jset b (e\<lparr> be_status := ''connecting'' \<rparr>) (wk_bots w) \<rparr>
      | None \<Rightarrow> w\<lparr> wk_bots := jset b new_entry (wk_bots w) \<rparr>)"

section \<open>Marks\<close>

text \<open>What a proxy earned, once; then the bot gives it back.\<close>

definition settle_proxy :: "(string \<Rightarrow> pool \<Rightarrow> pool) \<Rightarrow> string \<Rightarrow> worker \<Rightarrow> worker" where
  "settle_proxy report b w =
     (case jget (wk_botProxyIds w) b of
        None \<Rightarrow> w
      | Some p \<Rightarrow> if p = [] then w
                   else w\<lparr> wk_proxies := report p (wk_proxies w), wk_botProxyIds := jdel b (wk_botProxyIds w) \<rparr>)"

definition drop_timer :: "string \<Rightarrow> worker \<Rightarrow> worker" where
  "drop_timer b w = w\<lparr> wk_timers := jdel b (wk_timers w) \<rparr>"

definition markConnected :: "ms \<Rightarrow> string \<Rightarrow> worker \<Rightarrow> worker" where
  "markConnected now b w =
     (let w = ensureBot b w;
          w = map_entry b (\<lambda>e. e\<lparr> be_status := ''running'', be_reconnectAttempts := 0, be_connectedAt := Some now \<rparr>) w;
          w = set_breaker b (recordSuccess CIRCUIT_OPTIONS (getCircuitBreaker b w)) w;
          w = set_health b (record_outcome True now (getHealth b w)) w;
          w = settle_proxy reportSuccess b w;
          w = emits [DbStatus b ''running'' (Some now)] w;
          w = drop_timer b w
      in emits [StatusWebhook b ''running'' None] w)"

definition markDisconnected :: "string \<Rightarrow> string option \<Rightarrow> worker \<Rightarrow> worker" where
  "markDisconnected b err w =
     (let failoverStatus = (if wk_isLosing w then ''reconnecting'' else ''idle'');
          failed = (case err of None \<Rightarrow> False | Some m \<Rightarrow> m \<noteq> []);
          status = (if failed then ''error'' else failoverStatus);
          w = map_entry b (\<lambda>e. e\<lparr> be_status := status \<rparr>) w;
          w = emits [DbStatus b status None] w;
          w = (case err of Some m \<Rightarrow> if failed then emits [LogLine b ''error'' m] w else w | None \<Rightarrow> w)
      in emits [StatusWebhook b status (if failed then err else None)] w)"

definition markReconnecting :: "string \<Rightarrow> worker \<Rightarrow> worker" where
  "markReconnecting b w =
     emits [DbStatus b ''reconnecting'' None, StatusWebhook b ''reconnecting'' None]
       (map_entry b (\<lambda>e. e\<lparr> be_status := ''reconnecting'' \<rparr>) w)"

section \<open>Reconnecting\<close>

text \<open>The clock zone and the three random numbers that scheduling a reconnect may draw.\<close>

record chance =
  ch_clock :: local_clock
  ch_transition :: rat
  ch_backoff :: rat
  ch_spread :: rat

text \<open>\<open>setTimeout\<close>: a delay that is no number from 1 to \<open>2^31 - 1\<close> is one millisecond.\<close>

definition timeout_ms :: "jsnum \<Rightarrow> ms" where
  "timeout_ms d = (case d of Num x \<Rightarrow> if 1 \<le> x \<and> x \<le> 2147483647 then \<lfloor>x\<rfloor> else 1 | _ \<Rightarrow> 1)"

definition set_timer :: "ms \<Rightarrow> string \<Rightarrow> jsnum \<Rightarrow> worker \<Rightarrow> worker" where
  "set_timer now b d w = w\<lparr> wk_timers := jset b \<lparr> rt_due = now + timeout_ms d, rt_live = True \<rparr> (wk_timers w) \<rparr>"

definition clear_timer :: "string \<Rightarrow> worker \<Rightarrow> worker" where
  "clear_timer b w =
     (case jget (wk_timers w) b of
        None \<Rightarrow> w
      | Some t \<Rightarrow> w\<lparr> wk_timers := jset b (t\<lparr> rt_live := False \<rparr>) (wk_timers w) \<rparr>)"

text \<open>Nothing where the zone of the schedule is unknown and the clock throws.\<close>

definition sleepWindowReconnectDelay ::
  "chance \<Rightarrow> ms \<Rightarrow> human_behavior_config \<Rightarrow> jsnum option" where
  "sleepWindowReconnectDelay c now behavior =
     (if \<not> enabled behavior then Some (Num 0)
      else let s = (case schedule behavior of None \<Rightarrow> HUMAN_DEFAULT_SCHEDULE | Some s \<Rightarrow> s)
           in do { active \<leftarrow> shouldBeActive (ch_clock c) now s;
                   if active then Some (Num 0)
                   else do { (untilMs, _) \<leftarrow> nextTransition (ch_clock c) now s (ch_transition c);
                             Some (jmax (Num 60000) untilMs) } })"

definition backoff_delay :: "chance \<Rightarrow> nat \<Rightarrow> jsnum \<Rightarrow> jsnum" where
  "backoff_delay c attempt failureRate =
     jround (jmul (calculateBackoff (jint (int attempt)) (Some failureRate) default_backoff (Num (ch_backoff c)))
        (jadd (Num (3/4)) (jmul (Num (ch_spread c)) (Num (1/2)))))"

datatype reconnect_outcome = Untracked | GaveUp | CoolsOff jsnum | Sleeps jsnum | BacksOff jsnum | ClockThrows

text \<open>The log lines without the numbers in them.\<close>

definition scheduleReconnect ::
  "chance \<Rightarrow> ms \<Rightarrow> string \<Rightarrow> human_behavior_config option \<Rightarrow> worker \<Rightarrow> worker \<times> reconnect_outcome" where
  "scheduleReconnect c now b behavior w =
     (case jget (wk_bots w) b of
        None \<Rightarrow> (w, Untracked)
      | Some entry \<Rightarrow>
          let w = set_breaker b (recordFailure CIRCUIT_OPTIONS now (getCircuitBreaker b w)) w;
              w = set_health b (record_outcome False now (getHealth b w)) w;
              w = settle_proxy (\<lambda>p. reportFailure p now) b w;
              attempt = be_reconnectAttempts entry;
              w = clear_timer b w
          in if attempt \<ge> MAX_RECONNECT_ATTEMPTS
             then let w = set_breaker b (reset_breaker (getCircuitBreaker b w)) w;
                      w = set_health b (reset_tracker (getHealth b w)) w;
                      w = map_entry b (\<lambda>e. e\<lparr> be_reconnectAttempts := 0 \<rparr>) w;
                      w = drop_timer b w
                  in (markDisconnected b (Some (''Gave up reconnecting after '' @ nat_text attempt @ '' attempts'')) w, GaveUp)
             else
               let w = map_entry b (\<lambda>e. e\<lparr> be_reconnectAttempts := attempt + 1 \<rparr>) w;
                   (br, st) = getState CIRCUIT_OPTIONS now (getCircuitBreaker b w);
                   w = set_breaker b br w
               in if st = Open
                  then let delay = jint (snd (remainingCooldownMs CIRCUIT_OPTIONS now now br))
                       in (set_timer now b delay (emits [LogLine b ''warn'' ''Connection circuit open''] w), CoolsOff delay)
                  else
                    let (h, failureRate) = getFailureRate now (getHealth b w);
                        w = set_health b h w;
                        sleepDelay = (case behavior of
                            None \<Rightarrow> Some (Num 0)
                          | Some bh \<Rightarrow> if enabled bh then sleepWindowReconnectDelay c now bh else Some (Num 0))
                    in (case sleepDelay of
                          None \<Rightarrow> (w, ClockThrows)
                        | Some d \<Rightarrow>
                            if jgt d (Num 0)
                            then (set_timer now b d (emits [LogLine b ''info'' ''Sleep window''] w), Sleeps d)
                            else let delay = backoff_delay c attempt failureRate
                                 in (set_timer now b delay (emits [LogLine b ''warn'' ''Reconnecting''] w), BacksOff delay)))"

section \<open>Credentials\<close>

record account_row =
  ac_token :: "string option"
  ac_clientId :: "string option"
  ac_secret :: "string option"
  ac_refreshToken :: "string option"
  ac_apiKey :: "string option"
  ac_apiSecret :: "string option"
  ac_apiKeys :: "(string option \<times> string option) list option"

text \<open>\<open>bot.config\<close> with the types that the code gives to its members.\<close>

record bot_config =
  cf_channelId :: json
  cf_username :: json
  cf_channel :: json
  cf_telegramWebhook :: json
  cf_crypto :: json
  cf_rateLimitPerMinute :: "int option"
  cf_rateLimitBudgets :: json
  cf_behavior :: "human_behavior_config option"
  cf_warming :: "warming_config option"

record bot_row =
  br_id :: string
  br_account :: account_row
  br_config :: bot_config

record credentials =
  cr_botId :: string
  cr_secrets :: "(string, string) jmap"
  cr_apiKeys :: "(string \<times> string) list"
  cr_config :: "(string, json) jmap"
  cr_behavior :: "human_behavior_config option"
  cr_proxy :: "(string \<times> proxy_type) option"

text \<open>\<open>if (value) credentials.name = value\<close>\<close>

definition if_text :: "string \<Rightarrow> string option \<Rightarrow> (string, string) jmap" where
  "if_text k v = (case v of None \<Rightarrow> [] | Some t \<Rightarrow> if t = [] then [] else [(k, t)])"

definition if_truthy :: "string \<Rightarrow> json \<Rightarrow> (string, json) jmap" where
  "if_truthy k v = (if truthy v then [(k, v)] else [])"

definition text_or_empty :: "string option \<Rightarrow> string" where
  "text_or_empty v = (case v of None \<Rightarrow> [] | Some t \<Rightarrow> t)"

datatype connect_error = DbFailed | BotNotFound string | ConnectFailed string

text \<open>
  What reading a bot from the database yields: a rejection, nothing, or the row. \<open>decrypt\<close> is
  \<open>decryptCredential\<close>, \<open>sanitize\<close> is \<open>sanitizeCryptoConfig\<close>.
\<close>

datatype db_read = DbRejects | DbRow "bot_row option"

definition secrets_from :: "(string option \<Rightarrow> string option) \<Rightarrow> account_row \<Rightarrow> (string, string) jmap" where
  "secrets_from decrypt a =
     if_text ''token'' (decrypt (ac_token a)) @ if_text ''clientId'' (decrypt (ac_clientId a)) @
     if_text ''clientSecret'' (decrypt (ac_secret a)) @ if_text ''refreshToken'' (decrypt (ac_refreshToken a)) @
     if_text ''apiKey'' (decrypt (ac_apiKey a)) @ if_text ''apiSecret'' (decrypt (ac_apiSecret a))"

definition key_pairs :: "(string option \<Rightarrow> string option) \<Rightarrow> account_row \<Rightarrow> (string \<times> string) list" where
  "key_pairs decrypt a =
     (case ac_apiKeys a of
        None \<Rightarrow> []
      | Some ps \<Rightarrow> filter (\<lambda>(k, s). k \<noteq> [] \<and> s \<noteq> [])
          (map (\<lambda>(k, s). (text_or_empty (decrypt k), text_or_empty (decrypt s))) ps))"

text \<open>\<open>day\<close> is the date of the clock, \<open>toISOString().slice(0, 10)\<close>.\<close>

definition configure_entry :: "(ms \<Rightarrow> string) \<Rightarrow> ms \<Rightarrow> bot_config \<Rightarrow> bot_entry \<Rightarrow> bot_entry" where
  "configure_entry day now config entry =
     (let entry = (case cf_rateLimitPerMinute config of
              Some n \<Rightarrow> if n > 0 then entry\<lparr> be_rateLimitPerMinute := Some n \<rparr> else entry
            | None \<Rightarrow> entry);
          entry = (if is_plain_object (cf_rateLimitBudgets config)
                   then entry\<lparr> be_rateLimitBudgets := Some (cf_rateLimitBudgets config) \<rparr> else entry);
          entry = (case cf_behavior config of Some b \<Rightarrow> entry\<lparr> be_behavior := Some b \<rparr> | None \<Rightarrow> entry)
      in (case cf_warming config of
            None \<Rightarrow> entry
          | Some warmingConfig \<Rightarrow>
              (case be_warming entry of
                 Some _ \<Rightarrow> entry
               | None \<Rightarrow> entry\<lparr> be_warming := Some
                   (\<lparr> startedAt = Some (case be_connectedAt entry of Some t \<Rightarrow> t | None \<Rightarrow> now),
                      todayActions = 0, todayPosts = 0, lastActionDate = day now \<rparr>, warmingConfig) \<rparr>)))"

definition buildCredentials ::
  "(string option \<Rightarrow> string option) \<Rightarrow> (json \<Rightarrow> json option) \<Rightarrow> (ms \<Rightarrow> string) \<Rightarrow> ms \<Rightarrow> string \<Rightarrow> db_read \<Rightarrow>
   worker \<Rightarrow> worker \<times> (connect_error + credentials)" where
  "buildCredentials decrypt sanitize day now b row w =
     (case row of
        DbRejects \<Rightarrow> (w, Inl DbFailed)
      | DbRow None \<Rightarrow> (w, Inl (BotNotFound b))
      | DbRow (Some found) \<Rightarrow>
          let config = br_config found;
              w = map_entry b (configure_entry day now config) (ensureBot b w)
          in (w, Inr \<lparr> cr_botId = br_id found,
                       cr_secrets = secrets_from decrypt (br_account found),
                       cr_apiKeys = key_pairs decrypt (br_account found),
                       cr_config = if_truthy ''channelId'' (cf_channelId config) @ if_truthy ''username'' (cf_username config) @
                         if_truthy ''channel'' (cf_channel config) @
                         (if cf_telegramWebhook config = JBool True then [(''webhookMode'', JBool True)] else []) @
                         (case sanitize (cf_crypto config) of None \<Rightarrow> [] | Some c \<Rightarrow> [(''crypto'', c)]),
                       cr_behavior = cf_behavior config,
                       cr_proxy = None \<rparr>))"

definition applyProxy :: "ms \<Rightarrow> string \<Rightarrow> credentials \<Rightarrow> worker \<Rightarrow> worker \<times> credentials" where
  "applyProxy now b cr w =
     (case selectProxy now (wk_proxies w) of
        (pool, None) \<Rightarrow> (w\<lparr> wk_proxies := pool, wk_botProxyIds := jdel b (wk_botProxyIds w) \<rparr>, cr)
      | (pool, Some p) \<Rightarrow>
          (w\<lparr> wk_proxies := pool, wk_botProxyIds := jset b (px_id p) (wk_botProxyIds w) \<rparr>,
           cr\<lparr> cr_proxy := Some (px_url p, px_type p) \<rparr>))"

text \<open>
  The services of a worker: decryption, the sanitizer, the calendar, and the platform's \<open>connect\<close>,
  which works on the worker and either returns or throws.
\<close>

record services =
  sv_decrypt :: "string option \<Rightarrow> string option"
  sv_sanitize :: "json \<Rightarrow> json option"
  sv_day :: "ms \<Rightarrow> string"
  sv_connect :: "ms \<Rightarrow> credentials \<Rightarrow> worker \<Rightarrow> worker \<times> connect_error option"

text \<open>Credentials, proxy and connect: the three steps that every way to connect has in common.\<close>

definition connect_bot ::
  "services \<Rightarrow> ms \<Rightarrow> string \<Rightarrow> db_read \<Rightarrow> worker \<Rightarrow> worker \<times> connect_error option" where
  "connect_bot sv now b row w =
     (case buildCredentials (sv_decrypt sv) (sv_sanitize sv) (sv_day sv) now b row w of
        (w, Inl e) \<Rightarrow> (w, Some e)
      | (w, Inr cr) \<Rightarrow> (case applyProxy now b cr w of (w, cr) \<Rightarrow> sv_connect sv now cr w))"

definition attemptReconnect ::
  "services \<Rightarrow> chance \<Rightarrow> ms \<Rightarrow> string \<Rightarrow> db_read \<Rightarrow> worker \<Rightarrow> worker \<times> reconnect_outcome option" where
  "attemptReconnect sv c now b row w =
     (case canAttempt CIRCUIT_OPTIONS now now (getCircuitBreaker b w) of
        (br, ok) \<Rightarrow>
          let w = set_breaker b br w
          in if \<not> ok then (w, None)
             else (case connect_bot sv now b row w of
                     (w, None) \<Rightarrow> (w, None)
                   | (w, Some e) \<Rightarrow> (case scheduleReconnect c now b None w of (w, out) \<Rightarrow> (w, Some out))))"

text \<open>The timer of a bot fires, not before it is due.\<close>

definition timer_fires ::
  "services \<Rightarrow> chance \<Rightarrow> ms \<Rightarrow> string \<Rightarrow> db_read \<Rightarrow> worker \<Rightarrow> worker \<times> reconnect_outcome option" where
  "timer_fires sv c now b row w =
     (case jget (wk_timers w) b of
        Some t \<Rightarrow> if rt_live t \<and> rt_due t \<le> now then attemptReconnect sv c now b row (clear_timer b w) else (w, None)
      | None \<Rightarrow> (w, None))"

end
