(* ===== verification/Reconnects.thy ===== *)
theory Reconnects
  imports WorkerBots
begin

text \<open>
  What the reconnect machinery of \<open>WorkerBots\<close> guarantees: a timer is only set for a time at which the
  breaker lets an attempt through, and a bot that keeps failing comes to an end.
\<close>

section \<open>What the helpers change\<close>

lemma helper_fields [simp]:
  "wk_timers (set_breaker b br w) = wk_timers w" "wk_bots (set_breaker b br w) = wk_bots w"
  "wk_timers (set_health b h w) = wk_timers w" "wk_bots (set_health b h w) = wk_bots w"
  "wk_breakers (set_health b h w) = wk_breakers w"
  "wk_timers (emits es w) = wk_timers w" "wk_bots (emits es w) = wk_bots w" "wk_breakers (emits es w) = wk_breakers w"
  "wk_bots (drop_timer b w) = wk_bots w" "wk_breakers (drop_timer b w) = wk_breakers w"
  "wk_bots (set_timer t b d w) = wk_bots w" "wk_breakers (set_timer t b d w) = wk_breakers w"
  by (simp_all add: set_breaker_def set_health_def emits_def drop_timer_def set_timer_def)

lemma settle_proxy_fields [simp]:
  "wk_timers (settle_proxy r b w) = wk_timers w" "wk_bots (settle_proxy r b w) = wk_bots w"
  "wk_breakers (settle_proxy r b w) = wk_breakers w"
  by (simp_all add: settle_proxy_def split: option.split)

lemma map_entry_fields [simp]:
  "wk_timers (map_entry b f w) = wk_timers w" "wk_breakers (map_entry b f w) = wk_breakers w"
  by (simp_all add: map_entry_def split: option.split)

lemma map_entry_bots [simp]: "map_of (wk_bots (map_entry b f w)) b = map_option f (map_of (wk_bots w) b)"
  by (simp add: map_entry_def split: option.split)

lemma clear_timer_fields [simp]:
  "wk_bots (clear_timer b w) = wk_bots w" "wk_breakers (clear_timer b w) = wk_breakers w"
  by (simp_all add: clear_timer_def split: option.split)

lemma ensureBot_fields [simp]:
  "wk_timers (ensureBot b w) = wk_timers w" "wk_breakers (ensureBot b w) = wk_breakers w"
  by (simp_all add: ensureBot_def)

lemma ensureBot_bots: "map_of (wk_bots (ensureBot b w)) b = Some (entry_of b w)"
  by (auto simp: ensureBot_def entry_of_def jget_or_def)

lemma prepareConnect_fields [simp]:
  "wk_timers (prepareConnect b w) = wk_timers w" "wk_breakers (prepareConnect b w) = wk_breakers w"
  by (simp_all add: prepareConnect_def split: option.split)

lemma markDisconnected_fields [simp]:
  "wk_timers (markDisconnected b e w) = wk_timers w" "wk_breakers (markDisconnected b e w) = wk_breakers w"
  by (simp_all add: markDisconnected_def Let_def split: option.split)

lemma breaker_simps [simp]:
  "getCircuitBreaker b (set_breaker b br w) = br"
  "getCircuitBreaker b (set_health b' h w) = getCircuitBreaker b w"
  "getCircuitBreaker b (emits es w) = getCircuitBreaker b w"
  "getCircuitBreaker b (map_entry b' f w) = getCircuitBreaker b w"
  "getCircuitBreaker b (clear_timer b' w) = getCircuitBreaker b w"
  "getCircuitBreaker b (set_timer t b' d w) = getCircuitBreaker b w"
  "getCircuitBreaker b (drop_timer b' w) = getCircuitBreaker b w"
  "getCircuitBreaker b (settle_proxy r b' w) = getCircuitBreaker b w"
  "getCircuitBreaker b (markDisconnected b' e w) = getCircuitBreaker b w"
  by (simp_all add: getCircuitBreaker_def set_breaker_def set_timer_def)

lemma timer_set: "map_of (wk_timers (set_timer t b d w)) b = Some \<lparr> rt_due = t + timeout_ms d, rt_live = True \<rparr>"
  by (simp add: set_timer_def)

lemma timer_dropped: "map_of (wk_timers (drop_timer b w)) b = None"
  by (simp add: drop_timer_def)

lemma timeout_pos: "1 \<le> timeout_ms d"
  by (auto simp: timeout_ms_def split: jsnum.split)

lemma timeout_max: "timeout_ms d \<le> 2147483647"
  by (auto simp: timeout_ms_def floor_le_iff split: jsnum.split)

section \<open>Timers and breakers fit together\<close>

text \<open>From the time \<open>due\<close> on the breaker lets an attempt through.\<close>

definition breaker_ready :: "ms \<Rightarrow> breaker \<Rightarrow> bool" where
  "breaker_ready due br \<longleftrightarrow> (\<forall>t \<ge> due. snd (canAttempt CIRCUIT_OPTIONS t t br) \<and>
     cb_state (fst (canAttempt CIRCUIT_OPTIONS t t br)) \<noteq> Open)"

lemmas circuit_options = CIRCUIT_OPTIONS_def failureThreshold_def successThreshold_def resetTimeoutMs_def

lemma ready_after_failure:
  assumes "cb_state br = Open \<longrightarrow> openedAt br \<le> now"
    and "getState CIRCUIT_OPTIONS now (recordFailure CIRCUIT_OPTIONS now br) = (br', st)"
  shows "st = Open \<Longrightarrow>
      breaker_ready (now + timeout_ms (jint (snd (remainingCooldownMs CIRCUIT_OPTIONS now now br')))) br'"
    and "st \<noteq> Open \<Longrightarrow> breaker_ready due br'"
proof -
  have opened: "openedAt br' \<le> now" if "st = Open"
    using assms that by (cases "cb_state br") (auto simp: cb_defs split: if_splits)
  have state: "cb_state br' = st" "st = HalfOpen \<longrightarrow> probesRemaining br' = 1"
    using assms(2) by (cases "cb_state br"; auto simp: cb_defs circuit_options split: if_splits)+
  show "st = Open \<Longrightarrow>
      breaker_ready (now + timeout_ms (jint (snd (remainingCooldownMs CIRCUIT_OPTIONS now now br')))) br'"
  proof -
    assume o: "st = Open"
    let ?r = "60000 - (now - openedAt br')"
    have young: "now - openedAt br' < 60000"
      using assms(2) o by (cases "cb_state br") (auto simp: cb_defs circuit_options split: if_splits)
    have "snd (remainingCooldownMs CIRCUIT_OPTIONS now now br') = ?r"
      using o state(1) young by (auto simp: cb_defs circuit_options)
    moreover have "timeout_ms (jint ?r) = ?r"
      using young opened [OF o] of_int_le_iff [of ?r 2147483647, where 'a = rat] of_int_le_iff [of 1 ?r, where 'a = rat]
      by (simp add: timeout_ms_def del: of_int_diff)
    ultimately show ?thesis
      using o state(1) by (auto simp: breaker_ready_def cb_defs circuit_options)
  qed
  show "breaker_ready due br'" if "st \<noteq> Open"
    using state that by (cases st) (auto simp: breaker_ready_def cb_defs)
qed

text \<open>
  After \<open>k\<close> failures in a row the bot waits for a timer at \<open>due\<close>; after the last one it is given up.
\<close>

definition waiting :: "string \<Rightarrow> nat \<Rightarrow> ms \<Rightarrow> worker \<Rightarrow> bool" where
  "waiting b k due w \<longleftrightarrow> map_of (wk_timers w) b = Some \<lparr> rt_due = due, rt_live = True \<rparr> \<and>
     map_option be_reconnectAttempts (map_of (wk_bots w) b) = Some k \<and> breaker_ready due (getCircuitBreaker b w)"

definition given_up :: "string \<Rightarrow> worker \<Rightarrow> bool" where
  "given_up b w \<longleftrightarrow> map_of (wk_timers w) b = None \<and> cb_state (getCircuitBreaker b w) = Closed \<and>
     (\<exists>e. map_of (wk_bots w) b = Some e \<and> be_reconnectAttempts e = 0 \<and> be_status e = ''error'')"

fun retries :: "reconnect_outcome \<Rightarrow> bool" where
  "retries (CoolsOff _) = True"
| "retries (Sleeps _) = True"
| "retries (BacksOff _) = True"
| "retries _ = False"

lemma markDisconnected_entry:
  "m \<noteq> [] \<Longrightarrow> map_of (wk_bots (markDisconnected b (Some m) w)) b =
     map_option (be_status_update (\<lambda>_. ''error'')) (map_of (wk_bots w) b)"
  by (simp add: markDisconnected_def Let_def)

lemma schedule_gives_up:
  assumes e: "map_of (wk_bots w) b = Some e" "10 \<le> be_reconnectAttempts e"
  shows "snd (scheduleReconnect c now b bh w) = GaveUp \<and> given_up b (fst (scheduleReconnect c now b bh w))"
  using e by (simp add: scheduleReconnect_def Let_def MAX_RECONNECT_ATTEMPTS_def given_up_def timer_dropped
      markDisconnected_entry reset_breaker_def)

lemma schedule_waits:
  assumes e: "map_of (wk_bots w) b = Some e" "be_reconnectAttempts e < 10"
    and past: "cb_state (getCircuitBreaker b w) = Open \<longrightarrow> openedAt (getCircuitBreaker b w) \<le> now"
    and result: "scheduleReconnect c now b bh w = (w', out)" "out \<noteq> ClockThrows"
  shows "retries out \<and>
    (\<exists>due. now < due \<and> due \<le> now + 2147483647 \<and> waiting b (be_reconnectAttempts e + 1) due w')"
proof -
  obtain br st where g: "getState CIRCUIT_OPTIONS now (recordFailure CIRCUIT_OPTIONS now (getCircuitBreaker b w)) = (br, st)"
    by fastforce
  note ready = ready_after_failure [OF past g]
  have later: "now < now + timeout_ms d" "now + timeout_ms d \<le> now + 2147483647" for d
    using timeout_pos [of d] timeout_max [of d] by simp_all
  show ?thesis
  proof (cases "st = Open")
    case True
    with result e g ready(1) later show ?thesis
      by (auto simp: scheduleReconnect_def Let_def MAX_RECONNECT_ATTEMPTS_def waiting_def timer_set)
  next
    case False
    with result e g ready(2) later show ?thesis
      by (auto simp: scheduleReconnect_def Let_def MAX_RECONNECT_ATTEMPTS_def waiting_def timer_set
          split: option.splits if_splits prod.splits)
  qed
qed

lemma schedule_no_clock: "snd (scheduleReconnect c now b None w) \<noteq> ClockThrows"
  by (auto simp: scheduleReconnect_def Let_def split: option.split prod.split)

section \<open>A connection that keeps failing\<close>

text \<open>A platform that throws leaves timers and breakers alone, and the counter of the bot.\<close>

definition refusing :: "services \<Rightarrow> string \<Rightarrow> bool" where
  "refusing sv b \<longleftrightarrow> (\<forall>now cr w. map_of (wk_bots w) b \<noteq> None \<longrightarrow> snd (sv_connect sv now cr w) \<noteq> None \<and>
     wk_timers (fst (sv_connect sv now cr w)) = wk_timers w \<and>
     wk_breakers (fst (sv_connect sv now cr w)) = wk_breakers w \<and>
     map_option be_reconnectAttempts (map_of (wk_bots (fst (sv_connect sv now cr w))) b) =
     map_option be_reconnectAttempts (map_of (wk_bots w) b))"

text \<open>The two ways in which the platforms of the repository fail to connect.\<close>

definition throws_only :: "ms \<Rightarrow> credentials \<Rightarrow> worker \<Rightarrow> worker \<times> connect_error option" where
  "throws_only now cr w = (prepareConnect (cr_botId cr) w, Some (ConnectFailed ''refused''))"

definition marks_and_throws :: "ms \<Rightarrow> credentials \<Rightarrow> worker \<Rightarrow> worker \<times> connect_error option" where
  "marks_and_throws now cr w =
     (markDisconnected (cr_botId cr) (Some ''Connect failed'') (prepareConnect (cr_botId cr) w),
      Some (ConnectFailed ''refused''))"

lemma prepareConnect_attempts:
  "map_of (wk_bots w) b = Some e \<Longrightarrow>
   map_option be_reconnectAttempts (map_of (wk_bots (prepareConnect b' w)) b) = Some (be_reconnectAttempts e)"
  by (auto simp: prepareConnect_def split: option.split)

lemma connect_bot_refused:
  assumes "refusing sv b" and "map_option be_reconnectAttempts (map_of (wk_bots w) b) = Some k"
    and "connect_bot sv now b row w = (w', e)"
  shows "e \<noteq> None \<and> wk_timers w' = wk_timers w \<and> wk_breakers w' = wk_breakers w \<and>
    map_option be_reconnectAttempts (map_of (wk_bots w') b) = Some k"
proof -
  have conf: "be_reconnectAttempts (configure_entry day t cf x) = be_reconnectAttempts x" for day t cf x
    by (simp add: configure_entry_def Let_def split: option.split)
  have build: "wk_timers w1 = wk_timers w \<and> wk_breakers w1 = wk_breakers w \<and>
      map_option be_reconnectAttempts (map_of (wk_bots w1) b) = Some k"
    if "buildCredentials d sn dy now b row w = (w1, r)" for d sn dy w1 r
    using that assms(2)
    by (auto simp: buildCredentials_def Let_def conf ensureBot_bots entry_of_def jget_or_def
        split: db_read.splits option.splits)
  have proxy: "wk_timers w2 = wk_timers w1 \<and> wk_breakers w2 = wk_breakers w1 \<and> wk_bots w2 = wk_bots w1"
    if "applyProxy now b cr w1 = (w2, cr')" for w1 w2 cr cr'
    using that by (auto simp: applyProxy_def split: prod.splits option.splits)
  obtain w1 r where w1: "buildCredentials (sv_decrypt sv) (sv_sanitize sv) (sv_day sv) now b row w = (w1, r)"
    by fastforce
  show ?thesis
  proof (cases r)
    case (Inl x)
    then show ?thesis using assms(3) build [OF w1] by (auto simp: connect_bot_def w1)
  next
    case (Inr cr)
    obtain w2 cr' where w2: "applyProxy now b cr w1 = (w2, cr')" by fastforce
    have "sv_connect sv now cr' w2 = (w', e)"
      using assms(3) by (simp add: connect_bot_def w1 Inr w2)
    moreover have "map_of (wk_bots w2) b \<noteq> None" using build [OF w1] proxy [OF w2] by auto
    note assms(1) [unfolded refusing_def, rule_format, OF this, of now cr']
    ultimately show ?thesis using build [OF w1] proxy [OF w2] by simp
  qed
qed

lemma markDisconnected_attempts:
  "map_option be_reconnectAttempts (map_of (wk_bots (markDisconnected b' err w)) b) =
   map_option be_reconnectAttempts (map_of (wk_bots w) b)"
  by (auto simp: markDisconnected_def Let_def map_entry_def split: option.split)

lemma platforms_refuse:
  "sv_connect sv = throws_only \<Longrightarrow> refusing sv b" "sv_connect sv = marks_and_throws \<Longrightarrow> refusing sv b"
  by (auto simp: refusing_def throws_only_def marks_and_throws_def markDisconnected_attempts prepareConnect_attempts
      simp del: not_None_eq option.map_sel map_option_eq_Some)

section \<open>The chain of reconnects\<close>

lemma timer_fires_waiting:
  assumes w: "waiting b k due w" and t: "due \<le> t" and sv: "refusing sv b"
  shows "k < 10 \<Longrightarrow> \<exists>out due'. snd (timer_fires sv c t b row w) = Some out \<and> retries out \<and> t < due' \<and> due' \<le> t + 2147483647 \<and>
      waiting b (k + 1) due' (fst (timer_fires sv c t b row w))"
    and "10 \<le> k \<Longrightarrow> snd (timer_fires sv c t b row w) = Some GaveUp \<and> given_up b (fst (timer_fires sv c t b row w))"
proof -
  obtain br where br: "canAttempt CIRCUIT_OPTIONS t t (getCircuitBreaker b w) = (br, True)" "cb_state br \<noteq> Open"
    using w t unfolding waiting_def breaker_ready_def by (metis prod.collapse)
  let ?w1 = "set_breaker b br (clear_timer b w)"
  have k: "map_option be_reconnectAttempts (map_of (wk_bots ?w1) b) = Some k"
    using w by (simp add: waiting_def)
  obtain w2 e where w2: "connect_bot sv t b row ?w1 = (w2, Some e)"
    "map_option be_reconnectAttempts (map_of (wk_bots w2) b) = Some k" "wk_breakers w2 = wk_breakers ?w1"
    using connect_bot_refused [OF sv k] by (metis option.exhaust prod.exhaust)
  have closed: "cb_state (getCircuitBreaker b w2) \<noteq> Open"
    using w2(3) br(2) by (simp add: getCircuitBreaker_def set_breaker_def)
  obtain x where x: "map_of (wk_bots w2) b = Some x" "be_reconnectAttempts x = k"
    using w2(2) by auto
  have fires: "timer_fires sv c t b row w = (case scheduleReconnect c t b None w2 of (w, out) \<Rightarrow> (w, Some out))"
    using w t by (simp add: timer_fires_def waiting_def attemptReconnect_def Let_def br(1) w2(1))
  show "\<exists>out due'. snd (timer_fires sv c t b row w) = Some out \<and> retries out \<and> t < due' \<and> due' \<le> t + 2147483647 \<and>
      waiting b (k + 1) due' (fst (timer_fires sv c t b row w))" if "k < 10"
    using schedule_waits [OF x(1), of t c None] schedule_no_clock [of c t b w2] closed x(2) that
    unfolding fires by (auto split: prod.split)
  show "snd (timer_fires sv c t b row w) = Some GaveUp \<and> given_up b (fst (timer_fires sv c t b row w))" if "10 \<le> k"
    using schedule_gives_up [OF x(1), of c t None] x(2) that unfolding fires by (auto split: prod.split)
qed

text \<open>Firings of the timer of a bot: chances, clock, and what the database yields.\<close>

type_synonym firing = "chance \<times> ms \<times> db_read"

fun fires :: "services \<Rightarrow> string \<Rightarrow> firing list \<Rightarrow> worker \<Rightarrow> worker \<times> reconnect_outcome option list" where
  "fires sv b [] w = (w, [])"
| "fires sv b ((c, t, row) # fs) w =
     (case timer_fires sv c t b row w of (w, out) \<Rightarrow> (case fires sv b fs w of (w, outs) \<Rightarrow> (w, out # outs)))"

fun on_time :: "services \<Rightarrow> string \<Rightarrow> firing list \<Rightarrow> worker \<Rightarrow> bool" where
  "on_time sv b [] w = True"
| "on_time sv b ((c, t, row) # fs) w =
     ((case map_of (wk_timers w) b of None \<Rightarrow> True | Some tm \<Rightarrow> rt_due tm \<le> t) \<and>
      on_time sv b fs (fst (timer_fires sv c t b row w)))"

lemma fires_end:
  assumes "refusing sv b"
  shows "waiting b k due w \<Longrightarrow> on_time sv b fs w \<Longrightarrow> length fs + k = 11 \<Longrightarrow> k \<le> 10 \<Longrightarrow>
    given_up b (fst (fires sv b fs w)) \<and>
    (\<exists>outs. snd (fires sv b fs w) = map Some outs @ [Some GaveUp] \<and> list_all retries outs)"
proof (induction fs arbitrary: k due w)
  case (Cons f fs)
  obtain c t row where f: "f = (c, t, row)" by (cases f)
  have due: "due \<le> t" and rest: "on_time sv b fs (fst (timer_fires sv c t b row w))"
    using Cons.prems(1,2) by (simp_all add: f waiting_def)
  note step = timer_fires_waiting [OF Cons.prems(1) due assms, of c row]
  show ?case
  proof (cases "k = 10")
    case True
    with Cons.prems(3) have "fs = []" by simp
    with True step(2) show ?thesis by (auto simp: f split: prod.split)
  next
    case False
    with Cons.prems(4) obtain out due' where out: "snd (timer_fires sv c t b row w) = Some out" "retries out"
      "waiting b (k + 1) due' (fst (timer_fires sv c t b row w))"
      using step(1) by auto
    obtain outs where "given_up b (fst (fires sv b fs (fst (timer_fires sv c t b row w))))"
      "snd (fires sv b fs (fst (timer_fires sv c t b row w))) = map Some outs @ [Some GaveUp]" "list_all retries outs"
      using Cons.IH [OF out(3) rest] Cons.prems(3,4) False by auto
    with out show ?thesis by (auto simp: f split: prod.split intro!: exI [of _ "out # outs"])
  qed
qed simp

text \<open>
  C28. Reconnecting comes to an end: a bot whose connects keep failing gets exactly ten timers, each of
  which fires at a time when the circuit breaker lets the attempt through; then it is given up, with
  no timer left, its breaker closed and its status an error, whatever the platform, the database and
  the random numbers do.
\<close>

theorem reconnects_end:
  assumes sv: "refusing sv b"
    and fresh: "map_of (wk_bots w0) b = Some e" "be_reconnectAttempts e = 0"
      "cb_state (getCircuitBreaker b w0) = Open \<longrightarrow> openedAt (getCircuitBreaker b w0) \<le> t0"
    and first: "scheduleReconnect c0 t0 b behavior w0 = (w1, out0)" "out0 \<noteq> ClockThrows"
    and timers: "length fs = 10" "on_time sv b fs w1"
  shows "retries out0 \<and> given_up b (fst (fires sv b fs w1)) \<and>
    (\<exists>outs. snd (fires sv b fs w1) = map Some outs @ [Some GaveUp] \<and> list_all retries outs)"
proof -
  obtain due where "retries out0" "waiting b 1 due w1"
    using schedule_waits [OF fresh(1) _ fresh(3) first] fresh(2) by auto
  with fires_end [OF sv _ timers(2), of 1 due] timers(1) show ?thesis by simp
qed

text \<open>Firings that are far enough apart are on time.\<close>

definition spaced :: "chance \<Rightarrow> nat \<Rightarrow> firing list" where
  "spaced c k = map (\<lambda>i. (c, int i * 2147483648, DbRejects)) [k..<11]"

lemma spaced_on_time:
  assumes "refusing sv b"
  shows "waiting b k due w \<Longrightarrow> due \<le> int k * 2147483648 \<Longrightarrow> k \<le> 10 \<Longrightarrow> on_time sv b (spaced c k) w"
proof (induction "10 - k" arbitrary: k due w)
  case 0
  then have "k = 10" by simp
  with 0 show ?case by (simp add: spaced_def waiting_def)
next
  case (Suc d)
  then have k: "k < 10" "[k..<11] = k # [Suc k..<11]" by (simp_all add: upt_conv_Cons)
  obtain due' where "due' \<le> int k * 2147483648 + 2147483647"
    "waiting b (k + 1) due' (fst (timer_fires sv c (int k * 2147483648) b DbRejects w))"
    using timer_fires_waiting(1) [OF Suc.prems(1,2) assms k(1)] by metis
  then have "on_time sv b (spaced c (Suc k)) (fst (timer_fires sv c (int k * 2147483648) b DbRejects w))"
    using Suc.hyps(1) [of "Suc k" due'] Suc.hyps(2) k(1) by simp
  with Suc.prems k(2) show ?case by (simp add: spaced_def waiting_def)
qed

definition demo_services :: services where
  "demo_services = \<lparr> sv_decrypt = id, sv_sanitize = (\<lambda>_. None), sv_day = (\<lambda>_. []), sv_connect = throws_only \<rparr>"

definition demo_chance :: chance where
  "demo_chance = \<lparr> ch_clock = utc_clock, ch_transition = 0, ch_backoff = 0, ch_spread = 0 \<rparr>"

theorem reconnects_end_witness:
  "let w1 = fst (scheduleReconnect demo_chance 0 ''b'' None (ensureBot ''b'' new_worker))
   in given_up ''b'' (fst (fires demo_services ''b'' (spaced demo_chance 1) w1))"
proof -
  let ?w0 = "ensureBot ''b'' new_worker"
  obtain w1 out where w1: "scheduleReconnect demo_chance 0 ''b'' None ?w0 = (w1, out)" by fastforce
  have sv: "refusing demo_services ''b''"
    by (rule platforms_refuse(1)) (simp add: demo_services_def)
  have e: "map_of (wk_bots ?w0) ''b'' = Some new_entry" "be_reconnectAttempts new_entry = 0"
    and closed: "cb_state (getCircuitBreaker ''b'' ?w0) = Open \<longrightarrow> openedAt (getCircuitBreaker ''b'' ?w0) \<le> 0"
    by (simp_all add: ensureBot_def new_worker_def new_entry_def getCircuitBreaker_def jget_or_def new_breaker_def)
  have out: "out \<noteq> ClockThrows" using schedule_no_clock [of demo_chance 0 "''b''" ?w0] w1 by simp
  obtain due where due: "due \<le> 2147483647" "waiting ''b'' 1 due w1"
    using schedule_waits [OF e(1) _ closed w1 out] e(2) by auto
  have "on_time demo_services ''b'' (spaced demo_chance 1) w1"
    using spaced_on_time [OF sv due(2)] due(1) by simp
  moreover have "length (spaced demo_chance 1) = 10" by (simp add: spaced_def)
  ultimately show ?thesis
    using reconnects_end [OF sv e closed w1 out] w1 by simp
qed

section \<open>A timer that comes too early strands the bot\<close>

text \<open>
  A timer that fires while the breaker is still open, say because the wall clock was set back, leaves
  its entry in \<open>reconnectTimers\<close> without a timer; reconciliation skips a bot that has an entry.
\<close>

lemma early_timer_strands:
  assumes "map_of (wk_timers w) b = Some tm" "rt_live tm" "rt_due tm \<le> t"
    and "cb_state (getCircuitBreaker b w) = Open" "t - openedAt (getCircuitBreaker b w) < 60000"
  shows "snd (timer_fires sv c t b row w) = None \<and>
    map_of (wk_timers (fst (timer_fires sv c t b row w))) b = Some (tm\<lparr> rt_live := False \<rparr>)"
  using assms
  by (simp add: timer_fires_def attemptReconnect_def Let_def clear_timer_def canAttempt_def tryHalfOpen_def
      circuit_options getCircuitBreaker_def set_breaker_def)

end
