(* ===== verification/WorkerActions.thy ===== *)
theory WorkerActions
  imports WorkerBots Budgets
begin

text \<open>
  Outgoing actions of a bot: packages/workers/src/base-worker.ts, from the gate of the self-healing
  pause over warming, budgets and human pauses to the book-keeping after the platform has answered, and
  the self-healing checks. The platform's answer is an argument. A method is split at its waits, and
  \<open>executeRateLimited\<close> is the run without anything else in between.
\<close>

section \<open>The gate\<close>

definition OUTBOUND_EXEMPT_ACTIONS :: "string list" where
  "OUTBOUND_EXEMPT_ACTIONS = [''deleteMessage'', ''listComments'']"

definition POST_ACTIONS :: "string list" where
  "POST_ACTIONS = [''sendMessage'', ''sendPhoto'', ''tweet'', ''post'']"

text \<open>What a process reads once: the text of numbers in templates, the calendar.\<close>

record texts =
  tx_number :: "jsnum \<Rightarrow> string"
  tx_day :: "ms \<Rightarrow> string"

definition new_day :: "string \<Rightarrow> warming_state \<Rightarrow> warming_state" where
  "new_day today st =
     (if lastActionDate st \<noteq> today then st\<lparr> todayActions := 0, todayPosts := 0, lastActionDate := today \<rparr> else st)"

definition warming_refusal :: "texts \<Rightarrow> ms \<Rightarrow> string \<Rightarrow> warming_state \<times> warming_config \<Rightarrow> string option" where
  "warming_refusal tx now a warming =
     (case warming of (st, config) \<Rightarrow>
        let limits = warmingLimits (tx_number tx) st config now;
            isPost = a \<in> set POST_ACTIONS
        in if (if isPost then \<not> canPost limits else \<not> canAct limits)
           then Some (''Bot warming active: '' @ wl_reason limits) else None)"

datatype gate = Refused string | PassesAfter ms

text \<open>Up to the wait of a cool-down, which lasts five seconds at most.\<close>

definition action_gate :: "texts \<Rightarrow> ms \<Rightarrow> string \<Rightarrow> string \<Rightarrow> worker \<Rightarrow> worker \<times> gate" where
  "action_gate tx now b a w =
     (let w = ensureBot b w; entry = entry_of b w
      in if be_selfHealingPauseUntil entry > now
         then (w, Refused (''Bot paused by self-healing ('' @
                tx_number tx (jround (jdiv (jint (be_selfHealingPauseUntil entry - now)) (Num 60000))) @ ''min remaining)''))
         else
           let warming = (if a \<in> set OUTBOUND_EXEMPT_ACTIONS then None
                          else map_option (\<lambda>(st, cf). (new_day (tx_day tx now) st, cf)) (be_warming entry));
               w = (if warming = None then w else map_entry b (\<lambda>e. e\<lparr> be_warming := warming \<rparr>) w)
           in (case (case warming of None \<Rightarrow> None | Some wm \<Rightarrow> warming_refusal tx now a wm) of
                 Some why \<Rightarrow> (w, Refused why)
               | None \<Rightarrow>
                   (w, PassesAfter (if be_selfHealingCooldownUntil entry > now
                                    then min 5000 (be_selfHealingCooldownUntil entry - now) else 0))))"

section \<open>Budgets\<close>

record 'r outbound =
  ob_client :: "'r redis_client option"
  ob_global :: "'r redis_limiter"
  ob_env :: "json option"
  ob_bot :: "(string, 'r redis_limiter) jmap"
  ob_budget :: "(string, 'r redis_limiter) jmap"

datatype verdict = Allowed | Exceeded string | NoBudget

definition limit_numbers :: "member \<Rightarrow> (int \<times> ms) option" where
  "limit_numbers m =
     (case m of
        Own v \<Rightarrow> (case (get_prop v ''maxRequests'', get_prop v ''windowMs'') of
            (JNum (Num n), JNum (Num t)) \<Rightarrow>
              if is_integer (Num n) \<and> is_integer (Num t) then Some (\<lfloor>n\<rfloor>, \<lfloor>t\<rfloor>) else None
          | _ \<Rightarrow> None)
      | _ \<Rightarrow> None)"

text \<open>
  \<open>NoBudget\<close> stands for budgets that are not made of integers, which the configuration does not rule
  out; the limiter is not modelled for them. \<open>t\<close> and \<open>t'\<close> are the clock readings of the limiter.
\<close>

definition assertOutboundAllowed ::
  "(int \<Rightarrow> string) \<Rightarrow> ms \<Rightarrow> ms \<Rightarrow> string \<Rightarrow> string \<Rightarrow> worker \<Rightarrow> 'r outbound \<Rightarrow> 'r \<Rightarrow> 'r outbound \<times> 'r \<times> verdict" where
  "assertOutboundAllowed str t t' b a w ob r =
     (if a \<in> set OUTBOUND_EXEMPT_ACTIONS then (ob, r, Allowed)
      else
        case (case jget (wk_bots w) b of
                Some e \<Rightarrow> (case be_rateLimitBudgets e of Some j \<Rightarrow> Some j | None \<Rightarrow> ob_env ob)
              | None \<Rightarrow> ob_env ob) of
          Some budgets \<Rightarrow>
            (case limit_numbers (resolveActionBudget (Some budgets) a DEFAULT_RATE_LIMIT_BUDGET) of
               None \<Rightarrow> (ob, r, NoBudget)
             | Some (n, window) \<Rightarrow>
                 let key = b @ [CHR 0x00] @ a;
                     limiter = (case jget (ob_budget ob) key of
                         Some l \<Rightarrow> l
                       | None \<Rightarrow> new_redis_limiter (ob_client ob) (''bothive:budget:'' @ b @ '':'') n window)
                 in case redis_check a t t' limiter r of (limiter, r, ok) \<Rightarrow>
                      (ob\<lparr> ob_budget := jset key limiter (ob_budget ob) \<rparr>, r,
                       if ok then Allowed
                       else Exceeded (''Action budget exceeded ('' @ str n @ ''/'' @ str window @ ''ms) for '' @ a)))
        | None \<Rightarrow>
            (case (case jget (wk_bots w) b of Some e \<Rightarrow> be_rateLimitPerMinute e | None \<Rightarrow> None) of
               Some perMinute \<Rightarrow>
                 if perMinute > 0
                 then let limiter = (case jget (ob_bot ob) b of
                              Some l \<Rightarrow> l
                            | None \<Rightarrow> new_redis_limiter (ob_client ob) (''bothive:outbound:'' @ b @ '':'') perMinute 60000)
                      in case redis_check a t t' limiter r of (limiter, r, ok) \<Rightarrow>
                           (ob\<lparr> ob_bot := jset b limiter (ob_bot ob) \<rparr>, r,
                            if ok then Allowed
                            else Exceeded (''Bot rate limit exceeded ('' @ str perMinute @ ''/min) for '' @ a))
                 else (case redis_check (b @ '':'' @ a) t t' (ob_global ob) r of (limiter, r, ok) \<Rightarrow>
                         (ob\<lparr> ob_global := limiter \<rparr>, r, if ok then Allowed else Exceeded (''Outbound rate limit exceeded for '' @ a)))
             | None \<Rightarrow>
                 (case redis_check (b @ '':'' @ a) t t' (ob_global ob) r of (limiter, r, ok) \<Rightarrow>
                    (ob\<lparr> ob_global := limiter \<rparr>, r, if ok then Allowed else Exceeded (''Outbound rate limit exceeded for '' @ a)))))"

section \<open>The human pause\<close>

text \<open>Nothing where the draws of the random generator never end.\<close>

definition applyHumanDelay ::
  "math_functions \<Rightarrow> string \<Rightarrow> string \<Rightarrow> (nat \<Rightarrow> rat) \<Rightarrow> nat \<Rightarrow> worker \<Rightarrow> worker \<times> ms option" where
  "applyHumanDelay M b a rng i w =
     (let w = ensureBot b w
      in (w, case be_behavior (entry_of b w) of
               None \<Rightarrow> Some 0
             | Some behavior \<Rightarrow>
                 (case humanDelay behavior of
                    None \<Rightarrow> Some 0
                  | Some (DelayFlag False) \<Rightarrow> Some 0
                  | Some delay \<Rightarrow>
                      map_option (\<lambda>(d, _). if jle d (Num 0) then 0 else timeout_ms d)
                        (delayForAction M a (case delay of DelayConfig c \<Rightarrow> c | _ \<Rightarrow> default_delays) rng i))))"

section \<open>Self-healing\<close>

fun executeRotation :: "ms \<Rightarrow> string \<Rightarrow> rotation_action \<Rightarrow> worker \<Rightarrow> worker" where
  "executeRotation now b action w =
     (case ra_type action of
        Pauses \<Rightarrow>
          let d = (case durationMs action of Some d \<Rightarrow> d | None \<Rightarrow> 30 * 60000)
          in emits [LogLine b ''warn'' ''Self-healing: paused'']
               (map_entry b (\<lambda>e. e\<lparr> be_selfHealingPauseUntil := now + d \<rparr>) w)
      | CoolsDown \<Rightarrow>
          let d = (case durationMs action of Some d \<Rightarrow> d | None \<Rightarrow> 10 * 60000)
          in map_entry b (\<lambda>e. e\<lparr> be_selfHealingCooldownUntil := now + d \<rparr>) w
      | ChangesProxy \<Rightarrow>
          emits [LogLine b ''info'' ''Self-healing: proxy rotated''] (settle_proxy (\<lambda>p. reportFailure p now) b w)
      | Alerts \<Rightarrow>
          emits [LogLine b ''error'' (''Self-healing alert: '' @ ra_reason action), ErrorWebhook b (ra_reason action)] w)"

definition executeRotationActions :: "ms \<Rightarrow> string \<Rightarrow> rotation_action list \<Rightarrow> worker \<Rightarrow> worker" where
  "executeRotationActions now b actions w = fold (executeRotation now b) actions w"

definition snapshot_of :: "ms \<Rightarrow> bot_entry \<Rightarrow> health_snapshot" where
  "snapshot_of now e =
     \<lparr> attempted = be_actionsSuccess e + be_actionsFailed e, succeeded = be_actionsSuccess e,
       rateLimited = be_rateLimited e, silentDrops = be_silentDrops e,
       lastSuccessAt = (if be_lastSuccessAt e = 0 then now else be_lastSuccessAt e) \<rparr>"

definition runSelfHealingCheck :: "ms \<Rightarrow> string \<Rightarrow> worker \<Rightarrow> worker" where
  "runSelfHealingCheck now b w =
     (let entry = entry_of b w
      in if be_actionsSuccess entry + be_actionsFailed entry < 5 then w
         else let detection = detectAnomaly now (snapshot_of now entry); actions = planRotation detection
              in if \<not> flagged detection then w
                 else if actions = [] then w
                 else executeRotationActions now b actions
                   (emits [LogLine b ''warn'' (''Self-healing: '' @ reason detection @ '' (confidence '' @
                      toFixed 2 (confidence detection) @ '')'')] w))"

definition runSelfHealingSweep :: "ms \<Rightarrow> worker \<Rightarrow> worker" where
  "runSelfHealingSweep now w =
     fold (\<lambda>b w. if be_status (entry_of b w) \<noteq> ''running'' then w else runSelfHealingCheck now b w)
       (jkeys (wk_bots w)) w"

section \<open>After the platform has answered\<close>

definition some_suffix :: "(string \<Rightarrow> bool) \<Rightarrow> string \<Rightarrow> bool" where
  "some_suffix P s \<longleftrightarrow> list_ex (\<lambda>i. P (drop i s)) [0..<Suc (length s)]"

text \<open>\<open>/rate.?limit|429|throttl/i\<close>\<close>

definition rate_limit_message :: "string \<Rightarrow> bool" where
  "rate_limit_message m =
     some_suffix (\<lambda>s. starts_with ''429'' s \<or> starts_with ''throttl'' s \<or> starts_with ''ratelimit'' s \<or>
       (starts_with ''rate'' s \<and> take 1 (drop 4 s) \<notin> {[CHR 0x0A], [CHR 0x0D]} \<and> starts_with ''limit'' (drop 5 s)))
       (to_lower m)"

definition count_action :: "string \<Rightarrow> string \<Rightarrow> warming_state \<Rightarrow> warming_state" where
  "count_action today a st =
     st\<lparr> todayActions := todayActions st + 1,
        todayPosts := (if a \<in> set POST_ACTIONS then todayPosts st + 1 else todayPosts st),
        lastActionDate := today \<rparr>"

definition action_succeeded :: "texts \<Rightarrow> ms \<Rightarrow> string \<Rightarrow> string \<Rightarrow> worker \<Rightarrow> worker" where
  "action_succeeded tx now b a w =
     map_entry b (\<lambda>e. e\<lparr> be_actionsSuccess := be_actionsSuccess e + 1, be_lastSuccessAt := now,
         be_warming := map_option (\<lambda>(st, cf). (count_action (tx_day tx now) a st, cf)) (be_warming e) \<rparr>)
       (set_health b (record_outcome True now (getHealth b w)) w)"

definition action_failed :: "ms \<Rightarrow> string \<Rightarrow> string \<Rightarrow> worker \<Rightarrow> worker" where
  "action_failed now b message w =
     runSelfHealingCheck now b
       (map_entry b (\<lambda>e. e\<lparr> be_actionsFailed := be_actionsFailed e + 1,
           be_rateLimited := (if rate_limit_message message then be_rateLimited e + 1 else be_rateLimited e) \<rparr>)
         (set_health b (record_outcome False now (getHealth b w)) w))"

section \<open>A whole action\<close>

text \<open>What the run meets outside: the limiter's decision and the platform's answer, each at its time.\<close>

record action_run =
  ar_now :: ms
  ar_allowed :: verdict
  ar_answer :: "string + json"
  ar_answer_at :: ms

definition executeRateLimited ::
  "texts \<Rightarrow> action_run \<Rightarrow> string \<Rightarrow> string \<Rightarrow> worker \<Rightarrow> worker \<times> (string + json)" where
  "executeRateLimited tx ar b a w =
     (case action_gate tx (ar_now ar) b a w of
        (w, Refused why) \<Rightarrow> (w, Inl why)
      | (w, PassesAfter _) \<Rightarrow>
          (case ar_allowed ar of
             Exceeded why \<Rightarrow> (w, Inl why)
           | NoBudget \<Rightarrow> (w, Inl [])
           | Allowed \<Rightarrow>
               (case ar_answer ar of
                  Inr res \<Rightarrow> (action_succeeded tx (ar_answer_at ar) b a w, Inr res)
                | Inl message \<Rightarrow> (action_failed (ar_answer_at ar) b message w, Inl message))))"

section \<open>Counters\<close>

definition recordScriptExecution :: "string \<Rightarrow> worker \<Rightarrow> worker" where
  "recordScriptExecution b w = map_entry b (\<lambda>e. e\<lparr> be_scriptExecutions := be_scriptExecutions e + 1 \<rparr>) (ensureBot b w)"

definition recordScriptError :: "string \<Rightarrow> worker \<Rightarrow> worker" where
  "recordScriptError b w = map_entry b (\<lambda>e. e\<lparr> be_scriptErrors := be_scriptErrors e + 1 \<rparr>) (ensureBot b w)"

definition recordCryptoOrder :: "string \<Rightarrow> worker \<Rightarrow> worker" where
  "recordCryptoOrder b w = map_entry b (\<lambda>e. e\<lparr> be_cryptoOrders := be_cryptoOrders e + 1 \<rparr>) (ensureBot b w)"

definition recordCryptoFill :: "string \<Rightarrow> jsnum \<Rightarrow> worker \<Rightarrow> worker" where
  "recordCryptoFill b volumeUsdt w =
     map_entry b (\<lambda>e. e\<lparr> be_cryptoFills := be_cryptoFills e + 1,
         be_cryptoVolumeUsdt := (if is_finite volumeUsdt \<and> jgt volumeUsdt (Num 0)
           then jadd (be_cryptoVolumeUsdt e) volumeUsdt else be_cryptoVolumeUsdt e) \<rparr>) (ensureBot b w)"

definition recordCryptoOrderError :: "string \<Rightarrow> worker \<Rightarrow> worker" where
  "recordCryptoOrderError b w =
     map_entry b (\<lambda>e. e\<lparr> be_cryptoOrderErrors := be_cryptoOrderErrors e + 1 \<rparr>) (ensureBot b w)"

end
