(* ===== verification/SelfHealingLoop.thy ===== *)
theory SelfHealingLoop
  imports WorkerActions Reconnects
begin

text \<open>
  Self-healing over time. The counters that a bot is judged by are those of its whole life in the
  process, and the sweep of the leader judges it every thirty seconds: a pause for a low success rate
  is prolonged by every sweep, and while it lasts no action can improve the counters.
\<close>

section \<open>Entries of the other bots\<close>

lemma map_entry_other [simp]: "b' \<noteq> b \<Longrightarrow> map_of (wk_bots (map_entry b' f w)) b = map_of (wk_bots w) b"
  by (auto simp: map_entry_def split: option.split)

lemma ensureBot_other [simp]: "b' \<noteq> b \<Longrightarrow> map_of (wk_bots (ensureBot b' w)) b = map_of (wk_bots w) b"
  by (auto simp: ensureBot_def)

lemma ensureBot_tracked: "map_of (wk_bots w) b = Some e \<Longrightarrow> ensureBot b w = w"
  by (simp add: ensureBot_def)

lemma entry_of_tracked: "map_of (wk_bots w) b = Some e \<Longrightarrow> entry_of b w = e"
  by (simp add: entry_of_def jget_or_def)

lemma entry_of_cong: "map_of (wk_bots w') b = map_of (wk_bots w) b \<Longrightarrow> entry_of b w' = entry_of b w"
  by (simp add: entry_of_def jget_or_def)

lemma rotation_other: "b' \<noteq> b \<Longrightarrow> map_of (wk_bots (executeRotation now b' a w)) b = map_of (wk_bots w) b"
  by (cases "ra_type a") (auto simp: Let_def)

lemma rotations_other:
  "b' \<noteq> b \<Longrightarrow> map_of (wk_bots (executeRotationActions now b' as w)) b = map_of (wk_bots w) b"
  unfolding executeRotationActions_def
  by (induction as arbitrary: w) (simp_all add: rotation_other del: executeRotation.simps)

lemma check_other: "b' \<noteq> b \<Longrightarrow> map_of (wk_bots (runSelfHealingCheck now b' w)) b = map_of (wk_bots w) b"
  by (simp add: runSelfHealingCheck_def Let_def rotations_other)

lemma gate_other: "b' \<noteq> b \<Longrightarrow> map_of (wk_bots (fst (action_gate tx now b' a w))) b = map_of (wk_bots w) b"
  by (auto simp: action_gate_def Let_def split: option.split)

lemma action_other:
  "b' \<noteq> b \<Longrightarrow> map_of (wk_bots (fst (executeRateLimited tx ar b' a w))) b = map_of (wk_bots w) b"
  using gate_other [of b' b tx "ar_now ar" a w]
  by (auto simp: executeRateLimited_def action_succeeded_def action_failed_def check_other
      split: prod.split gate.split verdict.split sum.split)

section \<open>A failing bot\<close>

text \<open>Running, with at least twenty attempts of which less than a tenth succeeded.\<close>

definition failing :: "bot_entry \<Rightarrow> bool" where
  "failing e \<longleftrightarrow> be_status e = ''running'' \<and> 20 \<le> be_actionsSuccess e + be_actionsFailed e \<and>
     9 * be_actionsSuccess e < be_actionsFailed e \<and> be_rateLimited e \<le> be_actionsFailed e \<and>
     be_silentDrops e \<le> be_actionsSuccess e \<and> be_actionsSuccess e + be_actionsFailed e < 2 ^ 40"

abbreviation paused_until :: "ms \<Rightarrow> bot_entry \<Rightarrow> bot_entry" where
  "paused_until t e \<equiv> e\<lparr> be_selfHealingPauseUntil := t \<rparr>"

lemma failing_detected:
  assumes "failing e"
  shows "flagged (detectAnomaly now (snapshot_of now e)) \<and> recommended (detectAnomaly now (snapshot_of now e)) = Pause"
proof -
  let ?h = "snapshot_of now e"
  have "jlt (jdiv (jint (int (succeeded ?h))) (jint (int (attempted ?h)))) (mk_num (1/10))"
    using detection_guards(1) [of ?h] assms by (simp add: snapshot_of_def failing_def)
  moreover have "20 \<le> attempted ?h" using assms by (simp add: snapshot_of_def failing_def)
  ultimately show ?thesis by (simp add: detectAnomaly_def Let_def)
qed

lemma check_failing:
  assumes "map_of (wk_bots w) b = Some e" and "failing e"
  shows "map_of (wk_bots (runSelfHealingCheck now b w)) b = Some (paused_until (now + 1800000) e)"
proof -
  have "\<not> be_actionsSuccess e + be_actionsFailed e < 5" using assms(2) by (simp add: failing_def)
  then show ?thesis
    using failing_detected [OF assms(2), of now] assms(1)
    by (simp add: runSelfHealingCheck_def Let_def entry_of_tracked planRotation_def executeRotationActions_def rotation_def)
qed

lemma failing_paused [simp]: "failing (paused_until t e) = failing e"
  by (simp add: failing_def)

lemma sweep_fold:
  assumes "failing e"
  shows "map_of (wk_bots w) b = Some (paused_until t e) \<Longrightarrow>
    map_of (wk_bots (fold (\<lambda>b w. if be_status (entry_of b w) \<noteq> ''running'' then w else runSelfHealingCheck now b w) bs w)) b =
    Some (paused_until (if b \<in> set bs then now + 1800000 else t) e)"
proof (induction bs arbitrary: w t)
  case (Cons x bs)
  have run: "be_status e = ''running''" using assms by (simp add: failing_def)
  show ?case
  proof (cases "x = b")
    case True
    have "map_of (wk_bots (runSelfHealingCheck now b w)) b = Some (paused_until (now + 1800000) e)"
      using check_failing [OF Cons.prems] assms by simp
    from Cons.IH [OF this] show ?thesis
      using True run Cons.prems by (simp add: entry_of_tracked)
  next
    case False
    then show ?thesis using Cons.IH [of _ t] Cons.prems by (auto simp: check_other)
  qed
qed simp

lemma sweep_failing:
  assumes "map_of (wk_bots w) b = Some (paused_until t e)" and "failing e"
  shows "map_of (wk_bots (runSelfHealingSweep now w)) b = Some (paused_until (now + 1800000) e)"
proof -
  have "b \<in> set (jkeys (wk_bots w))"
    using assms(1) by (metis domI dom_map_of_conv_image_fst image_set)
  then show ?thesis
    unfolding runSelfHealingSweep_def using sweep_fold [OF assms(2,1), of now "jkeys (wk_bots w)"] by simp
qed

lemma paused_refused:
  assumes "map_of (wk_bots w) b = Some (paused_until t e)" and "ar_now ar < t"
  shows "fst (executeRateLimited tx ar b a w) = w" "\<exists>why. snd (executeRateLimited tx ar b a w) = Inl why"
  using assms by (simp_all add: executeRateLimited_def action_gate_def Let_def ensureBot_tracked entry_of_tracked)

section \<open>Sweeps and actions\<close>

datatype heal_op = Sweeps ms | Acts action_run string string

text \<open>The results of the actions of a bot in a sequence of sweeps and actions of any bots.\<close>

fun heal_run :: "texts \<Rightarrow> string \<Rightarrow> heal_op list \<Rightarrow> worker \<Rightarrow> worker \<times> (string + json) list" where
  "heal_run tx b [] w = (w, [])"
| "heal_run tx b (Sweeps t # ops) w = heal_run tx b ops (runSelfHealingSweep t w)"
| "heal_run tx b (Acts ar x a # ops) w =
     (case executeRateLimited tx ar x a w of (w, res) \<Rightarrow>
        (case heal_run tx b ops w of (w, out) \<Rightarrow> (w, if x = b then res # out else out)))"

text \<open>After a sweep at \<open>s\<close>, actions follow within half an hour of the last sweep.\<close>

fun swept_often :: "ms \<Rightarrow> heal_op list \<Rightarrow> bool" where
  "swept_often s [] = True"
| "swept_often s (Sweeps t # ops) = swept_often t ops"
| "swept_often s (Acts ar x a # ops) = (ar_now ar < s + 1800000 \<and> swept_often s ops)"

lemma heal_run_paused:
  assumes "failing e"
  shows "map_of (wk_bots w) b = Some (paused_until (s + 1800000) e) \<Longrightarrow> swept_often s ops \<Longrightarrow>
    (\<exists>t. map_of (wk_bots (fst (heal_run tx b ops w))) b = Some (paused_until t e)) \<and>
    list_all (\<lambda>res. \<exists>why. res = Inl why) (snd (heal_run tx b ops w))"
proof (induction ops arbitrary: s w)
  case (Cons op ops)
  show ?case
  proof (cases op)
    case (Sweeps t)
    then show ?thesis using Cons.IH [OF sweep_failing [OF Cons.prems(1) assms]] Cons.prems(2) by simp
  next
    case (Acts ar x a)
    show ?thesis
    proof (cases "x = b")
      case True
      then show ?thesis
        using Cons.IH [OF Cons.prems(1)] Cons.prems(2) paused_refused [OF Cons.prems(1), of ar tx a]
        by (auto simp: Acts split: prod.split)
    next
      case False
      then have "map_of (wk_bots (fst (executeRateLimited tx ar x a w))) b = Some (paused_until (s + 1800000) e)"
        using Cons.prems(1) by (simp add: action_other)
      from Cons.IH [OF this] show ?thesis
        using False Cons.prems(2) by (auto simp: Acts split: prod.split)
    qed
  qed
next
  case Nil
  then show ?case by (intro conjI exI [of _ "s + 1800000"]) simp_all
qed

text \<open>
  C30. A bot that is paused for its success rate never acts again: once less than a tenth of at least
  twenty attempts have succeeded, as long as the leader sweeps at least every half hour every action of
  the bot is refused, and the counters that it is judged by stay as they are.
\<close>

theorem pause_never_ends:
  assumes "map_of (wk_bots w) b = Some e" and "failing e" and "swept_often s ops"
  shows "list_all (\<lambda>res. \<exists>why. res = Inl why) (snd (heal_run tx b (Sweeps s # ops) w)) \<and>
    (\<exists>e'. map_of (wk_bots (fst (heal_run tx b (Sweeps s # ops) w))) b = Some e' \<and>
       be_actionsSuccess e' = be_actionsSuccess e \<and> be_actionsFailed e' = be_actionsFailed e)"
proof -
  have "map_of (wk_bots w) b = Some (paused_until (be_selfHealingPauseUntil e) e)" using assms(1) by simp
  from heal_run_paused [OF assms(2) sweep_failing [OF this assms(2)] assms(3), of tx] show ?thesis by auto
qed

definition failing_entry :: bot_entry where
  "failing_entry = new_entry\<lparr> be_status := ''running'', be_actionsSuccess := 1, be_actionsFailed := 19 \<rparr>"

definition demo_texts :: texts where
  "demo_texts = \<lparr> tx_number = (\<lambda>_. []), tx_day = (\<lambda>_. []) \<rparr>"

definition demo_run :: "ms \<Rightarrow> action_run" where
  "demo_run t = \<lparr> ar_now = t, ar_allowed = Allowed, ar_answer = Inr JNull, ar_answer_at = t \<rparr>"

theorem pause_never_ends_witness:
  "list_all (\<lambda>res. \<exists>why. res = Inl why) (snd (heal_run demo_texts ''b''
      [Sweeps 0, Acts (demo_run 600000) ''b'' ''say'', Sweeps 1200000, Acts (demo_run 2100000) ''b'' ''say'']
      (new_worker\<lparr> wk_bots := [(''b'', failing_entry)] \<rparr>)))"
  by (rule conjunct1 [OF pause_never_ends [of _ _ failing_entry]])
    (simp_all add: failing_entry_def failing_def new_entry_def demo_run_def)

section \<open>Rotating the proxy of a connected bot\<close>

text \<open>
  A connection that is up has given its proxy back, so rotating the proxy of a running bot writes a
  line into the log and does nothing else.
\<close>

lemma rotation_without_proxy:
  assumes "map_of (wk_botProxyIds w) b = None"
  shows "executeRotation now b (rotation ChangesProxy d r) w = emits [LogLine b ''info'' ''Self-healing: proxy rotated''] w"
  using assms by (simp add: rotation_def settle_proxy_def)

lemma connected_without_proxy:
  assumes "map_of (wk_botProxyIds w) b \<noteq> Some []"
  shows "map_of (wk_botProxyIds (markConnected now b w)) b = None"
proof -
  have settle: "map_of (wk_botProxyIds (settle_proxy r b w1)) b = None"
    if "map_of (wk_botProxyIds w1) b \<noteq> Some []" for r w1
    using that by (auto simp: settle_proxy_def split: option.split)
  have "wk_botProxyIds (ensureBot b w) = wk_botProxyIds w" "wk_botProxyIds (map_entry b f w) = wk_botProxyIds w"
    "wk_botProxyIds (set_breaker b br w) = wk_botProxyIds w" "wk_botProxyIds (set_health b h w) = wk_botProxyIds w"
    "wk_botProxyIds (emits es w) = wk_botProxyIds w" "wk_botProxyIds (drop_timer b w) = wk_botProxyIds w" for f br h es w
    by (simp_all add: ensureBot_def map_entry_def set_breaker_def set_health_def emits_def drop_timer_def split: option.split)
  then show ?thesis using settle assms by (simp add: markConnected_def Let_def)
qed

end
