(* ===== verification/EventFunnel.thy ===== *)
theory EventFunnel
  imports Idempotency
begin

text \<open>
  The funnel of platform events, \<open>emit\<close> and the replay job in packages/workers/src/base-worker.ts: the
  contract version and the key are stamped, the key is claimed, then the handlers run and the event goes
  into the store. Whether the handlers reject is an argument.
\<close>

definition DEFAULT_DEDUP_TTL_SECONDS :: int where "DEFAULT_DEDUP_TTL_SECONDS = 300"

text \<open>A raw event of an adapter, or a full envelope with its version and key.\<close>

datatype emitted = Raw platform_event_input | Envelope platform_event

fun input_of :: "emitted \<Rightarrow> platform_event_input" where
  "input_of (Raw e) = e"
| "input_of (Envelope e) = platform_event_input.truncate e"

text \<open>Hashing, \<open>String(x)\<close>, inherited members, and the names a database knows.\<close>

record stamping =
  sp_sha256 :: "string \<Rightarrow> string"
  sp_to_string :: "json \<Rightarrow> string"
  sp_inherited :: "string \<Rightarrow> string \<Rightarrow> contract option"

fun enriched :: "stamping \<Rightarrow> string \<Rightarrow> emitted \<Rightarrow> platform_event" where
  "enriched sp uuid (Raw e) = enrichPlatformEvent (sp_sha256 sp) (sp_to_string sp) (sp_inherited sp) uuid e"
| "enriched sp uuid (Envelope e) = e"

text \<open>
  What happened to an event: dropped as a duplicate, handed to the handlers and stored, or handed to
  handlers of which one rejected, which keeps it out of the store.
\<close>

datatype emission = Dropped | Delivered platform_event | HandlersRejected platform_event

record emit_call =
  em_event :: emitted
  em_replay :: bool
  em_uuid :: string
  em_rejects :: bool
  em_now :: ms

definition emit_event ::
  "stamping \<Rightarrow> emit_call \<Rightarrow> 'r redis_dedup \<times> 'r \<Rightarrow> ('r redis_dedup \<times> 'r) \<times> emission" where
  "emit_event sp c st =
     (let e = enriched sp (em_uuid c) (em_event c);
          deliver = (if em_rejects c then HandlersRejected e else Delivered e)
      in if \<not> em_replay c \<and> hasNaturalEventId (input_of (em_event c))
         then (case redis_claim (ev_eventId e) DEFAULT_DEDUP_TTL_SECONDS (em_now c) st of
                 (st, claimed) \<Rightarrow> (st, if claimed then deliver else Dropped))
         else (st, deliver))"

text \<open>
  The job that replays a stored event: the envelope must be complete, of this platform and of a bot that
  exists. A missing version is 1, a missing key is made from the bot and the clock.
\<close>

record stored_event =
  se_botId :: "string option"
  se_type :: "string option"
  se_platform :: "string option"
  se_payload :: json
  se_timestamp :: "ms option"
  se_v :: "int option"
  se_eventId :: "string option"
  se_raw :: json

datatype replay_error = MissingEnvelope | PlatformMismatch string | ReplayBotNotFound string

definition replay_event ::
  "(ms \<Rightarrow> string) \<Rightarrow> string \<Rightarrow> (string \<Rightarrow> bool) \<Rightarrow> ms \<Rightarrow> stored_event option \<Rightarrow> replay_error + platform_event" where
  "replay_event str platformName exists_bot now stored =
     (case stored of
        None \<Rightarrow> Inl MissingEnvelope
      | Some s \<Rightarrow>
          (case (se_botId s, se_type s, se_platform s) of
             (Some b, Some ty, Some p) \<Rightarrow>
               if b = [] \<or> ty = [] \<or> p = [] then Inl MissingEnvelope
               else if p \<noteq> platformName then Inl (PlatformMismatch p)
               else if \<not> exists_bot b then Inl (ReplayBotNotFound b)
               else Inr \<lparr> ev_botId = b, ev_platform = p, ev_type = ty,
                          ev_payload = nullish_or (se_payload s) (JObj []),
                          ev_timestamp = (case se_timestamp s of Some t \<Rightarrow> t | None \<Rightarrow> now),
                          ev_raw = se_raw s,
                          ev_v = Version (case se_v s of Some v \<Rightarrow> v | None \<Rightarrow> 1),
                          ev_eventId = (case se_eventId s of Some i \<Rightarrow> i
                             | None \<Rightarrow> ''replay-'' @ b @ ''-'' @ str now) \<rparr>
           | _ \<Rightarrow> Inl MissingEnvelope))"

section \<open>Once per source event\<close>

fun emit_all ::
  "stamping \<Rightarrow> emit_call list \<Rightarrow> 'r redis_dedup \<times> 'r \<Rightarrow> ('r redis_dedup \<times> 'r) \<times> emission list" where
  "emit_all sp [] st = (st, [])"
| "emit_all sp (c # cs) st =
     (case emit_event sp c st of (st, x) \<Rightarrow> (case emit_all sp cs st of (st, xs) \<Rightarrow> (st, x # xs)))"

definition claims_of :: "stamping \<Rightarrow> emit_call list \<Rightarrow> (string \<times> int \<times> ms) list" where
  "claims_of sp cs =
     map (\<lambda>c. (ev_eventId (enriched sp (em_uuid c) (em_event c)), DEFAULT_DEDUP_TTL_SECONDS, em_now c))
       (filter (\<lambda>c. \<not> em_replay c \<and> hasNaturalEventId (input_of (em_event c))) cs)"

lemma emit_all_Cons: "fst (emit_all sp (c # cs) st) = fst (emit_all sp cs (fst (emit_event sp c st)))"
  by (simp split: prod.split)

lemma emit_event_state:
  "fst (emit_event sp c st) =
     (if \<not> em_replay c \<and> hasNaturalEventId (input_of (em_event c))
      then fst (redis_claim (ev_eventId (enriched sp (em_uuid c) (em_event c))) DEFAULT_DEDUP_TTL_SECONDS (em_now c) st)
      else st)"
  by (simp add: emit_event_def Let_def split: prod.split)

lemma emit_all_state: "fst (emit_all sp cs st) = run_claims redis_claim (claims_of sp cs) st"
proof (induction cs arbitrary: st)
  case (Cons c cs)
  show ?case unfolding emit_all_Cons Cons emit_event_state by (simp add: claims_of_def)
qed (simp add: claims_of_def)

fun emit_clock :: "ms \<Rightarrow> emit_call list \<Rightarrow> bool" where
  "emit_clock t [] = True"
| "emit_clock t (c # cs) = (t \<le> em_now c \<and> emit_clock (em_now c) cs)"

lemma emit_clock_mono: "emit_clock t cs \<Longrightarrow> s \<le> t \<Longrightarrow> emit_clock s cs"
  by (cases cs) auto

lemma claims_clock_of:
  "emit_clock t cs \<Longrightarrow> claims_clock t (claims_of sp cs) \<and> claims_end t (claims_of sp cs) \<le> u"
  if "\<forall>c \<in> set cs. em_now c \<le> u" "t \<le> u"
  using that
proof (induction cs arbitrary: t)
  case (Cons c cs)
  have "emit_clock t cs" using Cons.prems(1) emit_clock_mono by auto
  then show ?case using Cons by (auto simp: claims_of_def)
qed (simp add: claims_of_def)

lemma emit_clock_end: "emit_clock t (cs @ [c]) \<Longrightarrow> (\<forall>x \<in> set cs. em_now x \<le> em_now c) \<and> t \<le> em_now c \<and> emit_clock t cs"
  by (induction cs arbitrary: t) force+

lemma natural_key:
  assumes "hasNaturalEventId e" and "event_key (sp_to_string sp) e = event_key (sp_to_string sp) e'"
    and "hasNaturalEventId e'"
  shows "ev_eventId (enriched sp u (Raw e)) = ev_eventId (enriched sp u' (Raw e'))"
  using assms
  by (simp add: enrichPlatformEvent_def deriveEventId_def hasNaturalEventId_def Let_def
      platform_event_input.extend_def platform_event.fields_def)


definition demo_event :: platform_event_input where
  "demo_event = \<lparr> ev_botId = ''b'', ev_platform = ''telegram'', ev_type = ''message'',
     ev_payload = JObj [(''id'', JStr ''7'')], ev_timestamp = 0, ev_raw = JUndef \<rparr>"

definition demo_call :: "ms \<Rightarrow> emit_call" where
  "demo_call t = \<lparr> em_event = Raw demo_event, em_replay = False, em_uuid = [], em_rejects = False, em_now = t \<rparr>"

definition demo_stamping :: stamping where
  "demo_stamping = \<lparr> sp_sha256 = id, sp_to_string = (\<lambda>j. case j of JStr s \<Rightarrow> s | _ \<Rightarrow> []), sp_inherited = (\<lambda>_ _. None) \<rparr>"

lemma demo_natural: "hasNaturalEventId demo_event"
  by (simp add: hasNaturalEventId_def natural_id_def demo_event_def nullish_or_def nullish_def Let_def)


end
