(* ===== verification/Leadership.thy ===== *)
theory Leadership
  imports Prelude
begin

text \<open>
  Leader election among the processes of a platform: \<open>tryAcquireLeadership\<close>, \<open>ensureLeadershipState\<close> and
  \<open>stopLeadership\<close> in packages/workers/src/base-worker.ts. The lease is a key in Redis, which is an
  argument: a record of its four commands, whose documented behaviour is the predicate \<open>lease_laws\<close>. The
  steps are the segments between two awaits, so the checks of several processes, and several checks
  of one process, interleave at every command; a command may also be rejected.
\<close>

section \<open>The lease in Redis\<close>

definition LEADER_TTL_MS :: ms where "LEADER_TTL_MS = 30000"

definition LEADER_CHECK_INTERVAL_MS :: ms where "LEADER_CHECK_INTERVAL_MS = 10000"

text \<open>\<open>SET key id PX ttl NX\<close>, \<open>GET\<close>, \<open>PEXPIRE\<close> and \<open>DEL\<close> of the lease key, each at a time of the server.\<close>

record 'r lease_commands =
  lc_set_nx :: "string \<Rightarrow> ms \<Rightarrow> ms \<Rightarrow> 'r \<Rightarrow> 'r \<times> bool"
  lc_get :: "ms \<Rightarrow> 'r \<Rightarrow> string option"
  lc_pexpire :: "ms \<Rightarrow> ms \<Rightarrow> 'r \<Rightarrow> 'r"
  lc_del :: "'r \<Rightarrow> 'r"

text \<open>\<open>lease r\<close> is the holder and the time of expiry that are stored.\<close>

definition held :: "('r \<Rightarrow> (string \<times> ms) option) \<Rightarrow> ms \<Rightarrow> 'r \<Rightarrow> string option" where
  "held lease now r = (case lease r of Some (i, e) \<Rightarrow> if now < e then Some i else None | None \<Rightarrow> None)"

definition lease_laws :: "'r lease_commands \<Rightarrow> ('r \<Rightarrow> (string \<times> ms) option) \<Rightarrow> bool" where
  "lease_laws R lease \<longleftrightarrow>
     (\<forall>i ttl now r. snd (lc_set_nx R i ttl now r) = (held lease now r = None)) \<and>
     (\<forall>i ttl now r. lease (fst (lc_set_nx R i ttl now r)) =
        (if held lease now r = None then Some (i, now + ttl) else lease r)) \<and>
     (\<forall>now r. lc_get R now r = held lease now r) \<and>
     (\<forall>ttl now r. lease (lc_pexpire R ttl now r) =
        (case held lease now r of Some i \<Rightarrow> Some (i, now + ttl) | None \<Rightarrow> lease r)) \<and>
     (\<forall>r. lease (lc_del R r) = None)"

section \<open>Checks and releases\<close>

text \<open>Before which command a check or a release stands.\<close>

datatype lead_phase = Acquiring | AskingHolder | Renewing | AskingToRelease | Releasing

datatype lead_effect = TakesOver string | StepsDown string

text \<open>
  \<open>cl_confirmed\<close> is no state of the program: the time of the last command by which an instance got or
  renewed the lease.
\<close>

record 'r cluster =
  cl_redis :: 'r
  cl_isLeader :: "string \<Rightarrow> bool"
  cl_checks :: "(string \<times> lead_phase) list"
  cl_effects :: "lead_effect list"
  cl_confirmed :: "string \<Rightarrow> ms option"

definition drop_nth :: "nat \<Rightarrow> 'a list \<Rightarrow> 'a list" where
  "drop_nth n xs = take n xs @ drop (Suc n) xs"

definition settle_check :: "nat \<Rightarrow> 'r cluster \<Rightarrow> 'r cluster" where
  "settle_check n c = c\<lparr> cl_checks := drop_nth n (cl_checks c) \<rparr>"

definition goes_on :: "nat \<Rightarrow> string \<Rightarrow> lead_phase \<Rightarrow> 'r cluster \<Rightarrow> 'r cluster" where
  "goes_on n i p c = c\<lparr> cl_checks := (cl_checks c)[n := (i, p)] \<rparr>"

text \<open>\<open>ensureLeadershipState\<close> with the result of \<open>tryAcquireLeadership\<close>; the effects stand for taking over or tearing down.\<close>

definition ensureLeadershipState :: "string \<Rightarrow> bool \<Rightarrow> 'r cluster \<Rightarrow> 'r cluster" where
  "ensureLeadershipState i nowLeader c =
     (if nowLeader = cl_isLeader c i then c
      else c\<lparr> cl_isLeader := (cl_isLeader c)(i := nowLeader),
              cl_effects := cl_effects c @ [if nowLeader then TakesOver i else StepsDown i] \<rparr>)"

definition confirm :: "string \<Rightarrow> ms option \<Rightarrow> 'r cluster \<Rightarrow> 'r cluster" where
  "confirm i t c = c\<lparr> cl_confirmed := (cl_confirmed c)(i := t) \<rparr>"

text \<open>The commands of a release, and one command of a check or release that was started, with whether Redis answers.\<close>

definition release_command ::
  "'r lease_commands \<Rightarrow> nat \<Rightarrow> ms \<Rightarrow> string \<Rightarrow> bool \<Rightarrow> 'r cluster \<Rightarrow> 'r cluster" where
  "release_command R n now i asked c =
     (if \<not> asked
      then if lc_get R now (cl_redis c) = Some i then goes_on n i Releasing c else settle_check n c
      else settle_check n (confirm i None (c\<lparr> cl_redis := lc_del R (cl_redis c) \<rparr>)))"

definition command :: "'r lease_commands \<Rightarrow> nat \<Rightarrow> ms \<Rightarrow> bool \<Rightarrow> 'r cluster \<Rightarrow> 'r cluster" where
  "command R n now answers c =
     (if n \<ge> length (cl_checks c) then c
      else case cl_checks c ! n of (i, p) \<Rightarrow>
        if \<not> answers then settle_check n c
        else (case p of
            Acquiring \<Rightarrow>
              (case lc_set_nx R i LEADER_TTL_MS now (cl_redis c) of
                 (r, True) \<Rightarrow> settle_check n (ensureLeadershipState i True (confirm i (Some now) (c\<lparr> cl_redis := r \<rparr>)))
               | (r, False) \<Rightarrow> goes_on n i AskingHolder (c\<lparr> cl_redis := r \<rparr>))
          | AskingHolder \<Rightarrow>
              if lc_get R now (cl_redis c) = Some i then goes_on n i Renewing c
              else settle_check n (ensureLeadershipState i False c)
          | Renewing \<Rightarrow>
              settle_check n (ensureLeadershipState i True (confirm i (Some now)
                (c\<lparr> cl_redis := lc_pexpire R LEADER_TTL_MS now (cl_redis c) \<rparr>)))
          | AskingToRelease \<Rightarrow> release_command R n now i False c
          | Releasing \<Rightarrow> release_command R n now i True c))"

datatype lead_event = StartsCheck string | StartsRelease string | Command nat ms bool

fun lead_step :: "'r lease_commands \<Rightarrow> lead_event \<Rightarrow> 'r cluster \<Rightarrow> 'r cluster" where
  "lead_step R (StartsCheck i) c = c\<lparr> cl_checks := cl_checks c @ [(i, Acquiring)] \<rparr>"
| "lead_step R (StartsRelease i) c = c\<lparr> cl_checks := cl_checks c @ [(i, AskingToRelease)] \<rparr>"
| "lead_step R (Command n now answers) c = command R n now answers c"

definition new_cluster :: "'r \<Rightarrow> 'r cluster" where
  "new_cluster r =
     \<lparr> cl_redis = r, cl_isLeader = (\<lambda>_. False), cl_checks = [], cl_effects = [], cl_confirmed = (\<lambda>_. None) \<rparr>"

section \<open>At most one leader with a confirmed lease\<close>

definition confirmed_at :: "ms \<Rightarrow> string \<Rightarrow> 'r cluster \<Rightarrow> bool" where
  "confirmed_at t i c \<longleftrightarrow> (case cl_confirmed c i of Some u \<Rightarrow> t < u + LEADER_TTL_MS | None \<Rightarrow> False)"

text \<open>
  A renewal, and a release, are timely when the command reaches Redis before the lease that the
  instance knows of runs out.
\<close>

definition timely :: "ms \<Rightarrow> nat \<Rightarrow> 'r cluster \<Rightarrow> bool" where
  "timely now n c \<longleftrightarrow> n < length (cl_checks c) \<longrightarrow>
     (case cl_checks c ! n of (i, p) \<Rightarrow> p \<in> {Renewing, Releasing} \<longrightarrow> confirmed_at now i c)"

fun timely_run :: "'r lease_commands \<Rightarrow> ms \<Rightarrow> lead_event list \<Rightarrow> 'r cluster \<Rightarrow> bool" where
  "timely_run R t [] c = True"
| "timely_run R t (ev # evs) c =
     ((case ev of Command n now answers \<Rightarrow> t \<le> now \<and> (answers \<longrightarrow> timely now n c) | _ \<Rightarrow> True) \<and>
      timely_run R (case ev of Command n now answers \<Rightarrow> now | _ \<Rightarrow> t) evs (lead_step R ev c))"

fun end_time :: "ms \<Rightarrow> lead_event list \<Rightarrow> ms" where
  "end_time t [] = t"
| "end_time t (ev # evs) = end_time (case ev of Command n now answers \<Rightarrow> now | _ \<Rightarrow> t) evs"

definition lease_inv :: "('r \<Rightarrow> (string \<times> ms) option) \<Rightarrow> ms \<Rightarrow> 'r cluster \<Rightarrow> bool" where
  "lease_inv lease now c \<longleftrightarrow> (\<forall>i u. cl_confirmed c i = Some u \<and> now < u + LEADER_TTL_MS \<longrightarrow>
     (\<exists>e. lease (cl_redis c) = Some (i, e) \<and> u + LEADER_TTL_MS \<le> e))"

lemma lead_fields [simp]:
  "cl_redis (settle_check n c) = cl_redis c" "cl_confirmed (settle_check n c) = cl_confirmed c"
  "cl_redis (goes_on n i p c) = cl_redis c" "cl_confirmed (goes_on n i p c) = cl_confirmed c"
  "cl_redis (ensureLeadershipState i b c) = cl_redis c" "cl_confirmed (ensureLeadershipState i b c) = cl_confirmed c"
  "cl_redis (confirm i t c) = cl_redis c" "cl_confirmed (confirm i t c) = (cl_confirmed c)(i := t)"
  by (simp_all add: settle_check_def goes_on_def ensureLeadershipState_def confirm_def)

lemma set_nx_free:
  assumes "lease_laws R lease" "held lease now r = None"
  shows "\<exists>r'. lc_set_nx R i ttl now r = (r', True) \<and> lease r' = Some (i, now + ttl)"
proof (intro exI conjI)
  have laws: "snd (lc_set_nx R i ttl now r)" "lease (fst (lc_set_nx R i ttl now r)) = Some (i, now + ttl)"
    using assms by (simp_all add: lease_laws_def)
  show "lc_set_nx R i ttl now r = (fst (lc_set_nx R i ttl now r), True)"
    using laws(1) by (simp add: prod_eq_iff)
  show "lease (fst (lc_set_nx R i ttl now r)) = Some (i, now + ttl)" by (fact laws(2))
qed

lemma set_nx_taken:
  assumes "lease_laws R lease" "held lease now r \<noteq> None"
  shows "\<exists>r'. lc_set_nx R i ttl now r = (r', False) \<and> lease r' = lease r"
proof (intro exI conjI)
  have laws: "\<not> snd (lc_set_nx R i ttl now r)" "lease (fst (lc_set_nx R i ttl now r)) = lease r"
    using assms by (auto simp: lease_laws_def)
  show "lc_set_nx R i ttl now r = (fst (lc_set_nx R i ttl now r), False)"
    using laws(1) by (simp add: prod_eq_iff)
  show "lease (fst (lc_set_nx R i ttl now r)) = lease r" by (fact laws(2))
qed

lemma lease_inv_later: "lease_inv lease t c \<Longrightarrow> t \<le> now \<Longrightarrow> lease_inv lease now c"
  by (auto simp: lease_inv_def)

lemma lease_inv_cong:
  "cl_redis c' = cl_redis c \<Longrightarrow> cl_confirmed c' = cl_confirmed c \<Longrightarrow> lease_inv lease now c' = lease_inv lease now c"
  by (simp add: lease_inv_def)

lemma held_confirmed:
  "lease_inv lease now c \<Longrightarrow> confirmed_at now i c \<Longrightarrow> held lease now (cl_redis c) = Some i"
  by (fastforce simp: lease_inv_def confirmed_at_def held_def split: option.splits)

lemma command_inv:
  assumes R: "lease_laws R lease" and inv: "lease_inv lease now c" and ok: "answers \<Longrightarrow> timely now n c"
  shows "lease_inv lease now (command R n now answers c)"
proof (cases "n < length (cl_checks c) \<and> answers")
  case True
  obtain i p where ip: "cl_checks c ! n = (i, p)" by fastforce
  show ?thesis
  proof (cases p)
    case Acquiring
    show ?thesis
    proof (cases "held lease now (cl_redis c) = None")
      case free: True
      have none: "\<not> confirmed_at now j c" for j using held_confirmed [OF inv, of j] free by auto
      have old: "cl_confirmed c j = Some u \<Longrightarrow> \<not> now < u + LEADER_TTL_MS" for j u
        using none [of j] by (simp add: confirmed_at_def)
      obtain r' where r': "lc_set_nx R i LEADER_TTL_MS now (cl_redis c) = (r', True)"
        "lease r' = Some (i, now + LEADER_TTL_MS)"
        using set_nx_free [OF R free] by blast
      have "command R n now answers c =
          settle_check n (ensureLeadershipState i True (confirm i (Some now) (c\<lparr> cl_redis := r' \<rparr>)))"
        using True ip Acquiring r' by (simp add: command_def)
      then show ?thesis using r' by (auto simp: lease_inv_def dest: old)
    next
      case False
      obtain r' where r': "lc_set_nx R i LEADER_TTL_MS now (cl_redis c) = (r', False)" "lease r' = lease (cl_redis c)"
        using set_nx_taken [OF R False] by blast
      then have "command R n now answers c = goes_on n i AskingHolder (c\<lparr> cl_redis := r' \<rparr>)"
        using True ip Acquiring by (simp add: command_def)
      then show ?thesis using inv r' by (auto simp: lease_inv_def)
    qed
  next
    case AskingHolder
    then show ?thesis using inv True ip by (simp add: command_def release_command_def lease_inv_def)
  next
    case AskingToRelease
    then show ?thesis using inv True ip by (simp add: command_def release_command_def lease_inv_def)
  next
    case Renewing
    then have "confirmed_at now i c" using ok True ip by (simp add: timely_def)
    note mine = held_confirmed [OF inv this]
    have "j = i" if "cl_confirmed c j = Some u" "now < u + LEADER_TTL_MS" for j u
      using held_confirmed [OF inv, of j] that mine by (simp add: confirmed_at_def)
    with R mine True ip Renewing show ?thesis
      by (auto simp: command_def release_command_def lease_laws_def lease_inv_def)
  next
    case Releasing
    then have "confirmed_at now i c" using ok True ip by (simp add: timely_def)
    note mine = held_confirmed [OF inv this]
    have "j = i" if "cl_confirmed c j = Some u" "now < u + LEADER_TTL_MS" for j u
      using held_confirmed [OF inv, of j] that mine by (simp add: confirmed_at_def)
    with R True ip Releasing show ?thesis
      by (auto simp: command_def release_command_def lease_laws_def lease_inv_def)
  qed
next
  case False
  then show ?thesis using inv by (auto simp: command_def lease_inv_def split: prod.split)
qed

lemma run_lease_inv:
  assumes "lease_laws R lease"
  shows "lease_inv lease t c \<Longrightarrow> timely_run R t evs c \<Longrightarrow> lease_inv lease (end_time t evs) (fold (lead_step R) evs c)"
proof (induction evs arbitrary: t c)
  case (Cons ev evs)
  have "lease_inv lease (case ev of Command n now answers \<Rightarrow> now | _ \<Rightarrow> t) (lead_step R ev c)"
  proof (cases ev)
    case (Command n now answers)
    then show ?thesis
      using Cons.prems command_inv [OF assms lease_inv_later, of t c now answers n] by auto
  qed (use Cons.prems(1) in \<open>simp_all add: lease_inv_def\<close>)
  from Cons.IH [OF this] Cons.prems(2) show ?case by simp
qed simp


section \<open>A model of the lease, and what can go wrong\<close>

text \<open>The commands as Redis documents them, on the holder and the expiry.\<close>

definition key_value :: "(string \<times> ms) option lease_commands" where
  "key_value =
     \<lparr> lc_set_nx = (\<lambda>i ttl now r. if held id now r = None then (Some (i, now + ttl), True) else (r, False)),
       lc_get = (\<lambda>now r. held id now r),
       lc_pexpire = (\<lambda>ttl now r. case held id now r of Some i \<Rightarrow> Some (i, now + ttl) | None \<Rightarrow> r),
       lc_del = (\<lambda>r. None) \<rparr>"

lemma key_value_laws: "lease_laws key_value id"
  by (auto simp: lease_laws_def key_value_def split: option.split)

definition failover :: "lead_event list" where
  "failover =
     [StartsCheck ''p'', Command 0 0 True, StartsCheck ''q'', Command 0 5000 True, Command 0 5001 True,
      StartsCheck ''p'', Command 0 10000 True, Command 0 10001 True, Command 0 10002 True,
      StartsCheck ''q'', Command 0 40002 True]"

lemma failover_timely: "timely_run key_value 0 failover (new_cluster None)"
  by code_simp

lemma failover_end: "end_time 0 failover = 40002"
  by (simp add: failover_def)

lemma failover_confirmed: "confirmed_at 40002 ''q'' (fold (lead_step key_value) failover (new_cluster None))"
  by code_simp


text \<open>
  The flag outlives the lease: a leader whose commands are rejected keeps \<open>isLeader\<close> when another process
  has taken over, and both consume jobs.
\<close>

definition cut_off :: "lead_event list" where
  "cut_off =
     [StartsCheck ''p'', Command 0 0 True, StartsCheck ''p'', Command 0 10000 False,
      StartsCheck ''p'', Command 0 20000 False, StartsCheck ''q'', Command 0 30000 True]"

lemma two_leaders_without_redis:
  "cl_isLeader (fold (lead_step key_value) cut_off (new_cluster None)) ''p''"
  "cl_isLeader (fold (lead_step key_value) cut_off (new_cluster None)) ''q''"
  by code_simp+

text \<open>
  \<open>GET\<close> and \<open>PEXPIRE\<close> are two commands: a renewal that is held up between them prolongs the lease of the
  process that has taken over, and its own process goes on as a leader, freshly confirmed.
\<close>

definition late_renewal :: "lead_event list" where
  "late_renewal =
     [StartsCheck ''p'', Command 0 0 True, StartsCheck ''p'', Command 0 29000 True, Command 0 29999 True,
      StartsCheck ''q'', Command 1 30001 True, Command 0 30002 True]"

lemma late_renewal_two_leaders:
  "confirmed_at 30002 ''p'' (fold (lead_step key_value) late_renewal (new_cluster None))"
  "confirmed_at 30002 ''q'' (fold (lead_step key_value) late_renewal (new_cluster None))"
  by code_simp+

end
