(* ===== verification/BinanceApi.thy ===== *)
theory BinanceApi
  imports Json Texts RiskGuard
begin

text \<open>
  The client of the exchange, packages/core/src/crypto/binance.ts with the errors of errors.ts: the
  requests with their retries, the checks of an order, and the reading of the answers. What \<open>fetch\<close>
  does at each attempt is an argument, as are \<open>Number()\<close> on what the API returns, the text of a
  value, the encoding of a query and the signature. The text of an error message that is read by no
  code is kept where the code fixes it.
\<close>

section \<open>Errors\<close>

record crypto_error =
  ce_message :: string
  ce_code :: string
  ce_status :: "nat option"
  ce_binanceCode :: "json option"

datatype thrown = Crypto crypto_error | OtherError string

definition cerror :: "string \<Rightarrow> string \<Rightarrow> thrown" where
  "cerror message code = Crypto \<lparr> ce_message = message, ce_code = code, ce_status = None, ce_binanceCode = None \<rparr>"

definition cerror_status :: "string \<Rightarrow> string \<Rightarrow> nat \<Rightarrow> thrown" where
  "cerror_status message code status =
     Crypto \<lparr> ce_message = message, ce_code = code, ce_status = Some status, ce_binanceCode = None \<rparr>"

section \<open>Requests\<close>

definition DEFAULT_MAX_RETRIES :: nat where "DEFAULT_MAX_RETRIES = 2"

definition RETRYABLE_STATUSES :: "nat list" where
  "RETRYABLE_STATUSES = [429, 418, 500, 502, 503, 504]"

definition KLINE_INTERVALS :: "string list" where
  "KLINE_INTERVALS = [''1m'', ''3m'', ''5m'', ''15m'', ''30m'', ''1h'', ''2h'', ''4h'', ''6h'', ''8h'', ''12h'',
     ''1d'', ''3d'', ''1w'', ''1M'']"

record binance_client =
  bc_apiKey :: "string option"
  bc_apiSecret :: "string option"
  bc_maxRetries :: nat
  bc_proxyUrl :: "string option"

definition nonempty :: "string option \<Rightarrow> string option" where
  "nonempty t = (case t of Some (c # cs) \<Rightarrow> Some (c # cs) | _ \<Rightarrow> None)"

text \<open>\<open>/^https?:\/\//i\<close>\<close>

definition http_url :: "string \<Rightarrow> bool" where
  "http_url u \<longleftrightarrow> starts_with ''http://'' (to_lower u) \<or> starts_with ''https://'' (to_lower u)"

definition new_binance :: "string option \<Rightarrow> string option \<Rightarrow> nat option \<Rightarrow> string option \<Rightarrow> thrown + binance_client" where
  "new_binance apiKey apiSecret maxRetries proxyUrl =
     (if nonempty proxyUrl \<noteq> None \<and> \<not> http_url (the proxyUrl)
      then Inl (cerror ''Only http(s) proxies are supported for Binance API calls'' ''INVALID_CONFIG'')
      else Inr \<lparr> bc_apiKey = nonempty apiKey, bc_apiSecret = nonempty apiSecret,
        bc_maxRetries = (case maxRetries of None \<Rightarrow> DEFAULT_MAX_RETRIES | Some n \<Rightarrow> n), bc_proxyUrl = proxyUrl \<rparr>)"

definition hasKeys :: "binance_client \<Rightarrow> bool" where
  "hasKeys c \<longleftrightarrow> bc_apiKey c \<noteq> None \<and> bc_apiSecret c \<noteq> None"

text \<open>
  What one attempt meets: a timeout, another failure of the network, or an answer with its status,
  its parsed body (\<open>null\<close> when it is empty or no JSON) and its retry-after header as a number.
\<close>

datatype fetch_outcome = TimedOut | NetworkFailed string | Answer nat json jsnum

definition status_ok :: "nat \<Rightarrow> bool" where
  "status_ok s \<longleftrightarrow> 200 \<le> s \<and> s \<le> 299"

definition retry_delay :: "nat \<Rightarrow> jsnum \<Rightarrow> jsnum" where
  "retry_delay attempt retryAfterSec =
     jmax (jmul (Num 250) (jpow2 (attempt - 1)))
       (if is_finite retryAfterSec \<and> jgt retryAfterSec (Num 0) then jmul retryAfterSec (Num 1000) else Num 0)"

definition message_or :: "json \<Rightarrow> string \<Rightarrow> string" where
  "message_or msg d = (case msg of JStr m \<Rightarrow> m | _ \<Rightarrow> d)"

definition status_error :: "nat \<Rightarrow> json \<Rightarrow> thrown" where
  "status_error status data =
     (let code = get_prop data ''code''; msg = get_prop data ''msg''
      in if status = 429 \<or> status = 418 then cerror_status (message_or msg ''Rate limited by Binance'') ''RATE_LIMITED'' status
         else if status = 401 \<or> status = 403 then cerror_status (message_or msg ''Unauthorized by Binance'') ''UNAUTHORIZED'' status
         else Crypto \<lparr> ce_message = message_or msg (''Binance API error '' @ nat_text status), ce_code = ''API_ERROR'',
                ce_status = Some status, ce_binanceCode = (if code = JUndef then None else Some code) \<rparr>)"

text \<open>A run of the loop: the requests sent, the pauses between them, and what it ended with.\<close>

type_synonym 'a run = "nat \<times> jsnum list \<times> (thrown + 'a)"

fun request_loop :: "(nat \<Rightarrow> fetch_outcome) \<Rightarrow> bool \<Rightarrow> nat \<Rightarrow> nat \<Rightarrow> json run" where
  "request_loop fetch retryable attempt 0 = (0, [], Inl (cerror_status ''Binance API error'' ''API_ERROR'' 0))"
| "request_loop fetch retryable attempt (Suc left) =
     (case fetch attempt of
        TimedOut \<Rightarrow> (1, [], Inl (cerror_status ''Binance request timed out'' ''TIMEOUT'' 0))
      | NetworkFailed message \<Rightarrow> (1, [], Inl (OtherError message))
      | Answer status data retryAfterSec \<Rightarrow>
          if status_ok status then (1, [], Inr data)
          else if retryable \<and> status \<in> set RETRYABLE_STATUSES \<and> left > 0
          then (case request_loop fetch retryable (Suc attempt) left of
                  (n, ds, res) \<Rightarrow> (Suc n, retry_delay attempt retryAfterSec # ds, res))
          else (1, [], Inl (status_error status data)))"

definition request :: "(nat \<Rightarrow> fetch_outcome) \<Rightarrow> bool \<Rightarrow> bool \<Rightarrow> binance_client \<Rightarrow> json run" where
  "request fetch signed retryable c =
     (if signed \<and> \<not> hasKeys c then (0, [], Inl (cerror ''Binance API key and secret are required'' ''UNAUTHORIZED''))
      else request_loop fetch retryable 1 (bc_maxRetries c + 1))"

section \<open>Signed queries\<close>

text \<open>\<open>URLSearchParams.set\<close> on the parameters that are given; the text and the encoding are arguments.\<close>

record signer =
  sg_text :: "json \<Rightarrow> string"
  sg_encode :: "(string \<times> string) list \<Rightarrow> string"
  sg_hmac :: "string \<Rightarrow> string \<Rightarrow> string"

definition given :: "json \<Rightarrow> bool" where
  "given v \<longleftrightarrow> v \<noteq> JUndef \<and> v \<noteq> JNull \<and> v \<noteq> JStr []"

definition signedQuery :: "signer \<Rightarrow> ms \<Rightarrow> (string \<times> json) list \<Rightarrow> binance_client \<Rightarrow> thrown + string" where
  "signedQuery sg now params c =
     (case bc_apiSecret c of
        None \<Rightarrow> Inl (cerror ''Binance API secret is required for signed requests'' ''UNAUTHORIZED'')
      | Some secret \<Rightarrow>
          let qs = fold (\<lambda>(key, v) m. if given v then jset key (sg_text sg v) m else m) params [];
              qs = jset ''timestamp'' (sg_text sg (JNum (jint now))) qs;
              qs = jset ''recvWindow'' ''10000'' qs
          in Inr (sg_encode sg qs @ ''&signature='' @ sg_hmac sg secret (sg_encode sg qs)))"

text \<open>A request that needs a signed query; \<open>fetch\<close> sees the query.\<close>

definition signed_request ::
  "signer \<Rightarrow> ms \<Rightarrow> (string \<Rightarrow> nat \<Rightarrow> fetch_outcome) \<Rightarrow> (string \<times> json) list \<Rightarrow> bool \<Rightarrow> binance_client \<Rightarrow> json run" where
  "signed_request sg now fetch params retryable c =
     (case signedQuery sg now params c of
        Inl err \<Rightarrow> (0, [], Inl err)
      | Inr query \<Rightarrow> request (fetch query) True retryable c)"

section \<open>Prices\<close>

record ticker_info =
  ti_symbol :: string
  ti_price :: jsnum
  ti_change24h :: json
  ti_volume24h :: json
  ti_quoteVolume24h :: json

definition unless_undefined :: "(json \<Rightarrow> jsnum) \<Rightarrow> json \<Rightarrow> json" where
  "unless_undefined number v = (if v = JUndef then JNull else JNum (number v))"

definition parseTicker :: "(json \<Rightarrow> jsnum) \<Rightarrow> json \<Rightarrow> ticker_info" where
  "parseTicker number data =
     \<lparr> ti_symbol = (case get_prop data ''symbol'' of JStr s \<Rightarrow> s | _ \<Rightarrow> []),
       ti_price = number (nullish_or (get_prop data ''lastPrice'') (JStr ''0'')),
       ti_change24h = unless_undefined number (get_prop data ''priceChangePercent''),
       ti_volume24h = unless_undefined number (get_prop data ''volume''),
       ti_quoteVolume24h = unless_undefined number (get_prop data ''quoteVolume'') \<rparr>"

function chunks_of_10 :: "'a list \<Rightarrow> 'a list list" where
  "chunks_of_10 xs = (if xs = [] then [] else take 10 xs # chunks_of_10 (drop 10 xs))"
  by pat_completeness auto
termination by (relation "measure length") auto

declare chunks_of_10.simps [simp del]

text \<open>The distinct symbols in the order of their first occurrence, \<open>[...new Set(xs)]\<close>.\<close>

definition distinct_of :: "'a list \<Rightarrow> 'a list" where
  "distinct_of xs = rev (remdups (rev xs))"

lemma distinct_of_id: "distinct xs \<Longrightarrow> distinct_of xs = xs"
  by (simp add: distinct_of_def distinct_remdups_id)

lemma set_distinct_of [simp]: "set (distinct_of xs) = set xs" and distinct_distinct_of [simp]: "distinct (distinct_of xs)"
  by (simp_all add: distinct_of_def)

fun tickers_of :: "(json \<Rightarrow> jsnum) \<Rightarrow> (string list \<Rightarrow> nat \<Rightarrow> fetch_outcome) \<Rightarrow> binance_client \<Rightarrow> string list list \<Rightarrow>
     thrown + ticker_info list" where
  "tickers_of number fetch c [] = Inr []"
| "tickers_of number fetch c (part # parts) =
     (case snd (snd (request (fetch part) False True c)) of
        Inl err \<Rightarrow> Inl err
      | Inr data \<Rightarrow>
          (case tickers_of number fetch c parts of
             Inl err \<Rightarrow> Inl err
           | Inr rest \<Rightarrow> Inr (map (parseTicker number) (case data of JArr rows \<Rightarrow> rows | _ \<Rightarrow> [data]) @ rest)))"

definition tickers ::
  "(json \<Rightarrow> jsnum) \<Rightarrow> (string list \<Rightarrow> nat \<Rightarrow> fetch_outcome) \<Rightarrow> string list \<Rightarrow> binance_client \<Rightarrow> thrown + ticker_info list" where
  "tickers number fetch symbols c = tickers_of number fetch c (chunks_of_10 (distinct_of (map to_upper symbols)))"

record kline =
  kl_openTime :: jsnum
  kl_open :: jsnum
  kl_high :: jsnum
  kl_low :: jsnum
  kl_close :: jsnum
  kl_volume :: jsnum
  kl_closeTime :: jsnum

fun element :: "json \<Rightarrow> nat \<Rightarrow> json" where
  "element (JArr xs) i = (if i < length xs then xs ! i else JUndef)"
| "element _ i = JUndef"

definition parse_kline :: "(json \<Rightarrow> jsnum) \<Rightarrow> json \<Rightarrow> kline" where
  "parse_kline number r =
     \<lparr> kl_openTime = number (element r 0), kl_open = number (element r 1), kl_high = number (element r 2),
       kl_low = number (element r 3), kl_close = number (element r 4), kl_volume = number (element r 5),
       kl_closeTime = number (element r 6) \<rparr>"

definition kline_limit :: "jsnum \<Rightarrow> jsnum" where
  "kline_limit limit = jmax (Num 1) (jmin (Num 500) (jfloor limit))"

text \<open>\<open>fetch\<close> sees the limit that the request asks for.\<close>

definition klines ::
  "(json \<Rightarrow> jsnum) \<Rightarrow> (string \<Rightarrow> string \<Rightarrow> jsnum \<Rightarrow> nat \<Rightarrow> fetch_outcome) \<Rightarrow> string \<Rightarrow> string \<Rightarrow> jsnum \<Rightarrow> binance_client \<Rightarrow>
     thrown + kline list" where
  "klines number fetch symbol interval limit c =
     (if interval \<notin> set KLINE_INTERVALS
      then Inl (cerror (''Unsupported kline interval '' @ interval) ''INVALID_PARAMS'')
      else case snd (snd (request (fetch symbol interval (kline_limit limit)) False True c)) of
             Inl err \<Rightarrow> Inl err
           | Inr (JArr rows) \<Rightarrow> Inr (map (parse_kline number) rows)
           | Inr _ \<Rightarrow> Inl (OtherError ''data.map is not a function''))"

section \<open>Balances\<close>

record balance_info =
  bi_asset :: json
  bi_free :: jsnum
  bi_locked :: jsnum

definition parse_balances :: "(json \<Rightarrow> jsnum) \<Rightarrow> json list \<Rightarrow> balance_info list" where
  "parse_balances number rows =
     map (\<lambda>b. \<lparr> bi_asset = get_prop b ''asset'', bi_free = number (get_prop b ''free''),
         bi_locked = number (get_prop b ''locked'') \<rparr>)
       (filter (\<lambda>b. jgt (number (get_prop b ''free'')) (Num 0) \<or> jgt (number (get_prop b ''locked'')) (Num 0)) rows)"

definition account ::
  "(json \<Rightarrow> jsnum) \<Rightarrow> signer \<Rightarrow> ms \<Rightarrow> (string \<Rightarrow> nat \<Rightarrow> fetch_outcome) \<Rightarrow> binance_client \<Rightarrow> thrown + balance_info list" where
  "account number sg now fetch c =
     (case snd (snd (signed_request sg now fetch [] True c)) of
        Inl err \<Rightarrow> Inl err
      | Inr data \<Rightarrow> (case get_prop data ''balances'' of
            JArr rows \<Rightarrow> Inr (parse_balances number rows)
          | _ \<Rightarrow> Inl (OtherError ''data.balances.filter is not a function'')))"

definition balance_of :: "string \<Rightarrow> balance_info list \<Rightarrow> balance_info" where
  "balance_of asset balances =
     (case find (\<lambda>b. bi_asset b = JStr asset) balances of
        Some b \<Rightarrow> b
      | None \<Rightarrow> \<lparr> bi_asset = JStr asset, bi_free = Num 0, bi_locked = Num 0 \<rparr>)"

definition balance ::
  "(json \<Rightarrow> jsnum) \<Rightarrow> signer \<Rightarrow> ms \<Rightarrow> (string \<Rightarrow> nat \<Rightarrow> fetch_outcome) \<Rightarrow> string \<Rightarrow> binance_client \<Rightarrow> thrown + balance_info" where
  "balance number sg now fetch asset c = map_sum id (balance_of asset) (account number sg now fetch c)"

section \<open>Orders\<close>

record order_request =
  or_symbol :: string
  or_side :: plan_side
  or_type :: order_type
  or_quantity :: "jsnum option"
  or_quoteOrderQty :: "jsnum option"
  or_price :: "jsnum option"
  or_clientOrderId :: "string option"

definition space_char :: "char \<Rightarrow> bool" where
  "space_char c \<longleftrightarrow> c = CHR '' '' \<or> (9 \<le> (of_char c :: nat) \<and> (of_char c :: nat) \<le> 13)"

definition trim_text :: "string \<Rightarrow> string" where
  "trim_text s = rev (dropWhile space_char (rev (dropWhile space_char s)))"

definition id_char :: "char \<Rightarrow> bool" where
  "id_char c \<longleftrightarrow> is_digit c \<or> (65 \<le> (of_char c :: nat) \<and> (of_char c :: nat) \<le> 90) \<or>
     (97 \<le> (of_char c :: nat) \<and> (of_char c :: nat) \<le> 122) \<or> c = CHR ''_''"

text \<open>\<open>/^[a-zA-Z0-9_]{1,36}$/\<close>\<close>

definition order_id_ok :: "string \<Rightarrow> bool" where
  "order_id_ok s \<longleftrightarrow> 1 \<le> length s \<and> length s \<le> 36 \<and> list_all id_char s"

definition given_positive :: "jsnum option \<Rightarrow> jsnum option" where
  "given_positive v = (case v of Some n \<Rightarrow> if jgt n (Num 0) then Some n else None | None \<Rightarrow> None)"

definition finite_positive :: "jsnum option \<Rightarrow> jsnum option" where
  "finite_positive v = (case v of Some n \<Rightarrow> if is_finite n \<and> \<not> jle n (Num 0) then Some n else None | None \<Rightarrow> None)"

definition side_text :: "plan_side \<Rightarrow> string" where
  "side_text s = (case s of BuySide \<Rightarrow> ''BUY'' | SellSide \<Rightarrow> ''SELL'')"

definition type_text :: "order_type \<Rightarrow> string" where
  "type_text t = (case t of Market \<Rightarrow> ''MARKET'' | Limit \<Rightarrow> ''LIMIT'')"

definition order_amounts :: "order_request \<Rightarrow> thrown + (string \<times> json) list" where
  "order_amounts req =
     (case or_type req of
        Limit \<Rightarrow>
          (case finite_positive (or_price req) of
             None \<Rightarrow> Inl (cerror ''Limit order requires a positive price'' ''INVALID_PARAMS'')
           | Some price \<Rightarrow>
               (case finite_positive (or_quantity req) of
                  None \<Rightarrow> Inl (cerror ''Limit order requires a positive quantity'' ''INVALID_PARAMS'')
                | Some quantity \<Rightarrow> Inr [(''timeInForce'', JStr ''GTC''), (''price'', JNum (trim8 price)),
                    (''quantity'', JNum (trim8 quantity))]))
      | Market \<Rightarrow>
          (case given_positive (or_quantity req) of
             Some quantity \<Rightarrow> Inr [(''quantity'', JNum (trim8 quantity))]
           | None \<Rightarrow>
               (case given_positive (or_quoteOrderQty req) of
                  Some amount \<Rightarrow> Inr [(''quoteOrderQty'', JNum (jdiv (jround (jmul amount (Num 100))) (Num 100)))]
                | None \<Rightarrow> Inl (cerror ''Market order requires quantity or quoteOrderQty'' ''INVALID_PARAMS''))))"

definition order_params :: "order_request \<Rightarrow> thrown + (string \<times> json) list" where
  "order_params req =
     (if or_symbol req = [] then Inl (cerror ''Order requires a symbol'' ''INVALID_PARAMS'')
      else case order_amounts req of
             Inl err \<Rightarrow> Inl err
           | Inr amounts \<Rightarrow>
               let params = [(''symbol'', JStr (to_upper (or_symbol req))), (''side'', JStr (side_text (or_side req))),
                     (''type'', JStr (type_text (or_type req)))] @ amounts
               in case nonempty (or_clientOrderId req) of
                    None \<Rightarrow> Inr params
                  | Some clientOrderId \<Rightarrow>
                      let i = trim_text clientOrderId
                      in if order_id_ok i then Inr (params @ [(''newClientOrderId'', JStr i)])
                         else Inl (cerror ''clientOrderId must be 1-36 alphanumeric characters'' ''INVALID_PARAMS''))"

definition send_order ::
  "signer \<Rightarrow> ms \<Rightarrow> (string \<Rightarrow> nat \<Rightarrow> fetch_outcome) \<Rightarrow> order_request \<Rightarrow> binance_client \<Rightarrow> json run" where
  "send_order sg now fetch req c =
     (case order_params req of
        Inl err \<Rightarrow> (0, [], Inl err)
      | Inr params \<Rightarrow> signed_request sg now fetch params False c)"

definition openOrders ::
  "signer \<Rightarrow> ms \<Rightarrow> (string \<Rightarrow> nat \<Rightarrow> fetch_outcome) \<Rightarrow> string option \<Rightarrow> binance_client \<Rightarrow> thrown + json list" where
  "openOrders sg now fetch symbol c =
     (case snd (snd (signed_request sg now fetch
         (case nonempty symbol of None \<Rightarrow> [] | Some s \<Rightarrow> [(''symbol'', JStr (to_upper s))]) True c)) of
        Inl err \<Rightarrow> Inl err
      | Inr (JArr xs) \<Rightarrow> Inr xs
      | Inr data \<Rightarrow> Inr [data])"

definition orderStatus ::
  "signer \<Rightarrow> ms \<Rightarrow> (string \<Rightarrow> nat \<Rightarrow> fetch_outcome) \<Rightarrow> string \<Rightarrow> string \<Rightarrow> binance_client \<Rightarrow> json run" where
  "orderStatus sg now fetch symbol clientOrderId c =
     signed_request sg now fetch [(''symbol'', JStr (to_upper symbol)), (''origClientOrderId'', JStr clientOrderId)] True c"

definition cancelOrder ::
  "signer \<Rightarrow> ms \<Rightarrow> (string \<Rightarrow> nat \<Rightarrow> fetch_outcome) \<Rightarrow> string \<Rightarrow> string \<Rightarrow> binance_client \<Rightarrow> json run" where
  "cancelOrder sg now fetch symbol clientOrderId c =
     signed_request sg now fetch [(''symbol'', JStr (to_upper symbol)), (''origClientOrderId'', JStr clientOrderId)] False c"

section \<open>How often a request is sent\<close>

lemma loop_sent: "fst (request_loop fetch retryable attempt left) \<le> left"
proof (induction left arbitrary: attempt)
  case (Suc left)
  from Suc [of "Suc attempt"] show ?case by (auto split: fetch_outcome.splits prod.splits)
qed simp

lemma loop_once: "fst (request_loop fetch False attempt left) \<le> 1"
  by (cases left) (auto split: fetch_outcome.splits)

lemma loop_pauses: "length (fst (snd (request_loop fetch retryable attempt left))) = fst (request_loop fetch retryable attempt left) - 1"
proof (induction left arbitrary: attempt)
  case (Suc left)
  have sent: "left > 0 \<Longrightarrow> 0 < fst (request_loop fetch retryable (Suc attempt) left)"
    by (cases left) (auto split: fetch_outcome.splits prod.splits)
  from Suc [of "Suc attempt"] sent show ?case by (auto split: fetch_outcome.splits prod.splits)
qed simp

text \<open>The status of an answer that ended a run with an API error was not a success.\<close>

lemma loop_success: "snd (snd (request_loop fetch retryable attempt left)) = Inr data \<Longrightarrow>
    \<exists>k status r. fetch k = Answer status data r \<and> status_ok status \<and> attempt \<le> k \<and> k < attempt + left"
proof (induction left arbitrary: attempt)
  case (Suc left)
  show ?case
  proof (cases "fetch attempt")
    case (Answer status d r)
    show ?thesis
    proof (cases "\<not> status_ok status \<and> retryable \<and> status \<in> set RETRYABLE_STATUSES \<and> left > 0")
      case True
      with Suc.prems Answer have "snd (snd (request_loop fetch retryable (Suc attempt) left)) = Inr data"
        by (auto split: prod.splits)
      from Suc.IH [OF this] obtain k status' r' where
        k: "fetch k = Answer status' data r' \<and> status_ok status' \<and> Suc attempt \<le> k \<and> k < Suc attempt + left" by blast
      then have "attempt \<le> k \<and> k < attempt + Suc left" by auto
      with k show ?thesis by blast
    next
      case False
      with Suc.prems Answer have "status_ok status \<and> d = data" by (auto split: if_splits)
      with Answer have "fetch attempt = Answer status data r \<and> status_ok status" by simp
      moreover have "attempt \<le> attempt \<and> attempt < attempt + Suc left" by simp
      ultimately show ?thesis by blast
    qed
  qed (use Suc.prems in auto)
qed simp

text \<open>
  C40. An order and a cancellation are sent to the exchange at most once, whatever it answers: a timeout
  or an error of the server is never followed by a second order. The requests that may be repeated are
  sent at most three times by a client with the default options.
\<close>

theorem order_sent_once:
  "fst (send_order sg now fetch req c) \<le> 1 \<and> fst (cancelOrder sg now fetch symbol i c) \<le> 1 \<and>
   (new_binance key secret None proxy = Inr d \<longrightarrow> fst (request out signed retryable d) \<le> 3)"
proof (intro conjI impI)
  have *: "fst (signed_request sg now fetch params False c) \<le> 1" for params
    using loop_once [of _ 1 "bc_maxRetries c + 1"]
    by (simp add: signed_request_def request_def del: request_loop.simps split: sum.split)
  then show "fst (send_order sg now fetch req c) \<le> 1" and "fst (cancelOrder sg now fetch symbol i c) \<le> 1"
    by (simp_all add: send_order_def cancelOrder_def split: sum.split)
  assume "new_binance key secret None proxy = Inr d"
  then have "bc_maxRetries d = 2" by (auto simp: new_binance_def DEFAULT_MAX_RETRIES_def split: if_splits)
  with loop_sent [of out retryable 1 3] show "fst (request out signed retryable d) \<le> 3"
    by (simp add: request_def numeral_3_eq_3)
qed

lemma order_sent_once_witness:
  "\<exists>d. new_binance None None None None = Inr d \<and> fst (request (\<lambda>_. Answer 500 JNull (Num 0)) False True d) \<le> 3"
proof -
  obtain d where d: "new_binance None None None None = Inr d" by (simp add: new_binance_def nonempty_def)
  with order_sent_once [of undefined 0 undefined undefined d undefined undefined None None None d
      "\<lambda>_. Answer 500 JNull (Num 0)" False True] show ?thesis by blast
qed

end
