(* ===== verification/PriceSources.thy ===== *)
theory PriceSources
  imports BinanceApi
begin

text \<open>
  Where prices come from: packages/core/src/crypto/prices.ts (the feed of a bot over two sources) and
  coingecko.ts (the client with its caches). What the HTTP calls answer is an argument. Symbols are
  ASCII, as the schema of a bot's config wants them. The URL of a request is not built; a request is
  given by the identifiers it asks for.
\<close>

section \<open>Symbols\<close>

definition QUOTE_CURRENCIES :: "string list" where
  "QUOTE_CURRENCIES = [''USDT'', ''USDC'', ''BUSD'', ''FDUSD'', ''TUSD'', ''DAI'', ''EUR'', ''BTC'', ''ETH'']"

definition ends_with :: "string \<Rightarrow> string \<Rightarrow> bool" where
  "ends_with suffix s \<longleftrightarrow> length suffix \<le> length s \<and> drop (length s - length suffix) s = suffix"

definition baseOf :: "string \<Rightarrow> string" where
  "baseOf symbol =
     (let upper = to_upper symbol
      in case find (\<lambda>quote. length upper > length quote \<and> ends_with quote upper) QUOTE_CURRENCIES of
           Some quote \<Rightarrow> take (length upper - length quote) upper
         | None \<Rightarrow> upper)"

definition COINGECKO_ID_BY_SYMBOL :: "(string, string) jmap" where
  "COINGECKO_ID_BY_SYMBOL =
     [(''BTC'', ''bitcoin''), (''ETH'', ''ethereum''), (''BNB'', ''binancecoin''), (''SOL'', ''solana''),
      (''XRP'', ''ripple''), (''ADA'', ''cardano''), (''DOGE'', ''dogecoin''), (''DOT'', ''polkadot''),
      (''AVAX'', ''avalanche-2''), (''MATIC'', ''matic-network''), (''POL'', ''polygon-ecosystem-token''),
      (''LINK'', ''chainlink''), (''LTC'', ''litecoin''), (''UNI'', ''uniswap''), (''ATOM'', ''cosmos''),
      (''TON'', ''the-open-network''), (''TRX'', ''tron''), (''NEAR'', ''near''), (''APT'', ''aptos''),
      (''ARB'', ''arbitrum'')]"

section \<open>The CoinGecko client\<close>

record gecko_price =
  gp_price :: jsnum
  gp_change24h :: json

record gecko_client =
  gc_priceCacheMs :: ms
  gc_priceCache :: "(ms \<times> (string, gecko_price) jmap) option"
  gc_listCache :: "(ms \<times> (json \<times> string) list) option"
  gc_proxyUrl :: "string option"

text \<open>An answer of the API: its status and parsed body, or the error of the request.\<close>

type_synonym gecko_answer = "thrown + (nat \<times> json)"

definition LIST_CACHE_MS :: ms where "LIST_CACHE_MS = 60 * 60 * 1000"

definition new_gecko :: "ms option \<Rightarrow> string option \<Rightarrow> thrown + gecko_client" where
  "new_gecko priceCacheMs proxyUrl =
     (if nonempty proxyUrl \<noteq> None \<and> \<not> http_url (the proxyUrl)
      then Inl (cerror ''Only http(s) proxies are supported for CoinGecko API calls'' ''INVALID_CONFIG'')
      else Inr \<lparr> gc_priceCacheMs = (case priceCacheMs of None \<Rightarrow> 10000 | Some v \<Rightarrow> v),
        gc_priceCache = None, gc_listCache = None, gc_proxyUrl = proxyUrl \<rparr>)"

text \<open>What a failed \<open>fetch\<close> throws.\<close>

datatype fetch_failure = FetchTimeout | FetchError string

fun gecko_failure :: "fetch_failure \<Rightarrow> thrown" where
  "gecko_failure FetchTimeout = cerror_status ''CoinGecko request timed out'' ''TIMEOUT'' 0"
| "gecko_failure (FetchError message) = OtherError message"

definition gecko_error :: "nat \<Rightarrow> thrown" where
  "gecko_error status = cerror_status (''CoinGecko API error '' @ nat_text status) ''COINGECKO_ERROR'' status"

definition gecko_row :: "json \<Rightarrow> string \<Rightarrow> (string, gecko_price) jmap \<Rightarrow> (string, gecko_price) jmap" where
  "gecko_row data i out =
     (let row = get_prop data i; change = get_prop row ''usd_24h_change''
      in case get_prop row ''usd'' of
           JNum usd \<Rightarrow> jset i \<lparr> gp_price = usd, gp_change24h = (if change = JUndef then JNull else change) \<rparr> out
         | _ \<Rightarrow> out)"

definition fetch_prices ::
  "ms \<Rightarrow> (string list \<Rightarrow> fetch_failure + (nat \<times> json)) \<Rightarrow> string list \<Rightarrow> gecko_client \<Rightarrow>
     gecko_client \<times> (thrown + (string, gecko_price) jmap)" where
  "fetch_prices now fetch ids c =
     (let unique = distinct_of ids
      in if unique = [] then (c, Inr [])
         else case fetch unique of
                Inl failure \<Rightarrow> (c, Inl (gecko_failure failure))
              | Inr (status, data) \<Rightarrow>
                  if \<not> status_ok status then (c, Inl (gecko_error status))
                  else let out = fold (gecko_row data) unique []
                       in (c\<lparr> gc_priceCache := Some (now + gc_priceCacheMs c, out) \<rparr>, Inr out))"

definition getPrices ::
  "ms \<Rightarrow> (string list \<Rightarrow> fetch_failure + (nat \<times> json)) \<Rightarrow> string list \<Rightarrow> gecko_client \<Rightarrow>
     gecko_client \<times> (thrown + (string, gecko_price) jmap)" where
  "getPrices now fetch ids c =
     (case gc_priceCache c of
        Some (expiresAt, cached) \<Rightarrow> if expiresAt > now then (c, Inr cached) else fetch_prices now fetch ids c
      | None \<Rightarrow> fetch_prices now fetch ids c)"

text \<open>An entry of the list whose symbol is no text makes \<open>toLowerCase\<close> throw.\<close>

fun list_entries :: "json list \<Rightarrow> thrown + (json \<times> string) list" where
  "list_entries [] = Inr []"
| "list_entries (e # es) =
     (case get_prop e ''symbol'' of
        JStr s \<Rightarrow> map_sum id (\<lambda>rest. (get_prop e ''id'', to_lower s) # rest) (list_entries es)
      | _ \<Rightarrow> Inl (OtherError ''entry.symbol.toLowerCase is not a function''))"

definition getList ::
  "ms \<Rightarrow> fetch_failure + (nat \<times> json) \<Rightarrow> gecko_client \<Rightarrow> gecko_client \<times> (thrown + (json \<times> string) list)" where
  "getList now answer c =
     (case (case gc_listCache c of Some (expiresAt, d) \<Rightarrow> if expiresAt > now then Some d else None | None \<Rightarrow> None) of
        Some d \<Rightarrow> (c, Inr d)
      | None \<Rightarrow>
          (case answer of
             Inl failure \<Rightarrow> (c, Inl (gecko_failure failure))
           | Inr (status, raw) \<Rightarrow>
               if \<not> status_ok status then (c, Inl (gecko_error status))
               else case raw of
                      JArr es \<Rightarrow> (case list_entries es of
                          Inl err \<Rightarrow> (c, Inl err)
                        | Inr d \<Rightarrow> (c\<lparr> gc_listCache := Some (now + LIST_CACHE_MS, d) \<rparr>, Inr d))
                    | _ \<Rightarrow> (c, Inl (OtherError ''raw.map is not a function''))))"

definition searchSymbol ::
  "ms \<Rightarrow> fetch_failure + (nat \<times> json) \<Rightarrow> string \<Rightarrow> gecko_client \<Rightarrow> gecko_client \<times> (thrown + json)" where
  "searchSymbol now answer symbol c =
     (case getList now answer c of
        (c, Inl err) \<Rightarrow> (c, Inl err)
      | (c, Inr list) \<Rightarrow> (c, Inr (case find (\<lambda>e. snd e = to_lower symbol) list of
            Some e \<Rightarrow> (if nullish (fst e) then JNull else fst e) | None \<Rightarrow> JNull)))"

section \<open>The feed\<close>

datatype price_source = Binance | CoinGecko | Auto

record price_point =
  pp_price :: jsnum
  pp_change24h :: json
  pp_source :: price_source
  pp_timestamp :: ms

record price_feed =
  pf_source :: price_source
  pf_symbols :: "string list"
  pf_coinIds :: "string list option"
  pf_coingecko :: gecko_client

definition new_feed :: "price_source \<Rightarrow> string list \<Rightarrow> string list option \<Rightarrow> gecko_client \<Rightarrow> thrown + price_feed" where
  "new_feed source symbols coinIds gecko =
     (if symbols = []
      then Inl (cerror ''crypto.symbols must contain at least one symbol'' ''INVALID_CONFIG'')
      else if (case coinIds of Some ids \<Rightarrow> length ids \<noteq> length symbols | None \<Rightarrow> False)
      then Inl (cerror ''crypto.coinIds must match crypto.symbols one-to-one'' ''INVALID_CONFIG'')
      else Inr \<lparr> pf_source = source, pf_symbols = distinct_of (map to_upper symbols), pf_coinIds = coinIds,
             pf_coingecko = gecko \<rparr>)"

text \<open>What the outside world answers during a refresh: the tickers of the exchange, and CoinGecko.\<close>

record feed_world =
  fw_now :: ms
  fw_tickers :: "string list \<Rightarrow> thrown + ticker_info list"
  fw_gecko :: "string list \<Rightarrow> fetch_failure + (nat \<times> json)"

definition fromBinance :: "feed_world \<Rightarrow> price_feed \<Rightarrow> thrown + (string, price_point) jmap" where
  "fromBinance fw f =
     map_sum id (\<lambda>ts. fold (\<lambda>t out. jset (ti_symbol t)
         \<lparr> pp_price = ti_price t, pp_change24h = ti_change24h t, pp_source = Binance, pp_timestamp = fw_now fw \<rparr> out) ts [])
       (fw_tickers fw (pf_symbols f))"

fun mapped_ids :: "string list \<Rightarrow> thrown + string list" where
  "mapped_ids [] = Inr []"
| "mapped_ids (symbol # symbols) =
     (case jget COINGECKO_ID_BY_SYMBOL (baseOf symbol) of
        None \<Rightarrow> Inl (cerror (''No CoinGecko id known for '' @ symbol @
                  ''; set crypto.coinIds to map symbols to ids'') ''INVALID_CONFIG'')
      | Some i \<Rightarrow> map_sum id (\<lambda>ids. i # ids) (mapped_ids symbols))"

definition gecko_point :: "ms \<Rightarrow> gecko_price \<Rightarrow> price_point" where
  "gecko_point now p = \<lparr> pp_price = gp_price p, pp_change24h = gp_change24h p, pp_source = CoinGecko, pp_timestamp = now \<rparr>"

text \<open>\<open>ids[index]\<close> of each symbol; past the end of the identifiers there is no price.\<close>

definition points_by_index :: "ms \<Rightarrow> (string, gecko_price) jmap \<Rightarrow> string list \<Rightarrow> string list \<Rightarrow> (string, price_point) jmap" where
  "points_by_index now prices symbols ids =
     fold (\<lambda>(symbol, i) out. case jget prices i of
             None \<Rightarrow> out
           | Some p \<Rightarrow> jset symbol (gecko_point now p) out) (zip symbols ids) []"

definition fromCoinGecko :: "feed_world \<Rightarrow> price_feed \<Rightarrow> price_feed \<times> (thrown + (string, price_point) jmap)" where
  "fromCoinGecko fw f =
     (case (case pf_coinIds f of Some ids \<Rightarrow> Inr ids | None \<Rightarrow> mapped_ids (pf_symbols f)) of
        Inl err \<Rightarrow> (f, Inl err)
      | Inr ids \<Rightarrow>
          (case getPrices (fw_now fw) (fw_gecko fw) ids (pf_coingecko f) of
             (g, Inl err) \<Rightarrow> (f\<lparr> pf_coingecko := g \<rparr>, Inl err)
           | (g, Inr prices) \<Rightarrow> (f\<lparr> pf_coingecko := g \<rparr>, Inr (points_by_index (fw_now fw) prices (pf_symbols f) ids))))"

definition refresh :: "feed_world \<Rightarrow> price_feed \<Rightarrow> price_feed \<times> (thrown + (string, price_point) jmap)" where
  "refresh fw f =
     (case pf_source f of
        Binance \<Rightarrow> (f, fromBinance fw f)
      | CoinGecko \<Rightarrow> fromCoinGecko fw f
      | Auto \<Rightarrow>
          (case fromBinance fw f of
             Inr prices \<Rightarrow> (f, Inr prices)
           | Inl err \<Rightarrow>
               (case fromCoinGecko fw f of
                  (f, Inr prices) \<Rightarrow> (f, Inr prices)
                | (f, Inl err) \<Rightarrow> (f, Inl (cerror ''All crypto price sources failed'' ''NO_PRICE_SOURCE'')))))"

section \<open>Properties\<close>

lemma baseOf_nonempty: "s \<noteq> [] \<Longrightarrow> baseOf s \<noteq> []"
  by (auto simp: baseOf_def Let_def to_upper_def split: option.split simp: find_Some_iff)

lemma baseOf_usdt: "base \<noteq> [] \<Longrightarrow> baseOf (base @ ''USDT'') = to_upper base"
  by (simp add: baseOf_def QUOTE_CURRENCIES_def ends_with_def to_upper_def upper_char_def)

text \<open>With distinct symbols, each gets the price of the coin at its own index.\<close>

lemma fold_points_other:
  "s \<notin> fst ` set zs \<Longrightarrow> map_of (fold (\<lambda>(symbol, i) out. case map_of prices i of None \<Rightarrow> out
     | Some p \<Rightarrow> AList.update symbol (gecko_point now p) out) zs out) s = map_of out s"
  by (induction zs arbitrary: out) (auto split: option.splits)

lemma points_by_index_nth:
  assumes "distinct symbols" and "k < length symbols" and "k < length ids"
  shows "map_of (points_by_index now prices symbols ids) (symbols ! k) =
    map_option (gecko_point now) (map_of prices (ids ! k))"
proof -
  let ?F = "\<lambda>(symbol, i) out. case map_of prices i of None \<Rightarrow> out | Some p \<Rightarrow> AList.update symbol (gecko_point now p) out"
  have "\<lbrakk>distinct ss; k < length ss; k < length js; ss ! k \<notin> fst ` set out\<rbrakk> \<Longrightarrow>
      map_of (fold ?F (zip ss js) out) (ss ! k) = map_option (gecko_point now) (map_of prices (js ! k))" for ss js k out
  proof (induction ss arbitrary: js k out)
    case (Cons s ss)
    obtain i js' where js: "js = i # js'" using Cons.prems by (cases js) auto
    show ?case
    proof (cases k)
      case 0
      have "s \<notin> fst ` set (zip ss js')" using Cons.prems(1) by (auto dest: set_zip_leftD)
      moreover have "map_of out s = None" using Cons.prems(4) 0 by (simp add: map_of_eq_None_iff)
      ultimately show ?thesis
        using 0 js fold_points_other [of s "zip ss js'" now prices] by (auto split: option.split)
    next
      case (Suc j)
      let ?out = "?F (s, i) out"
      have "ss ! j \<noteq> s" using Cons.prems(1,2) Suc by auto
      then have "ss ! j \<notin> fst ` set ?out"
        using Cons.prems(4) Suc by (auto simp: dom_update simp flip: dom_map_of_conv_image_fst split: option.splits)
      with Cons Suc js show ?thesis by auto
    qed
  qed simp
  from this [OF assms, of "[]"] show ?thesis
    by (simp add: points_by_index_def)
qed

text \<open>A refresh with the automatic source only fails when both sources fail.\<close>

lemma auto_falls_back:
  assumes "pf_source f = Auto" and "snd (refresh fw f) = Inl err"
  shows "(\<exists>e. fromBinance fw f = Inl e) \<and> (\<exists>e. snd (fromCoinGecko fw f) = Inl e) \<and>
    err = cerror ''All crypto price sources failed'' ''NO_PRICE_SOURCE''"
  using assms by (auto simp: refresh_def split: sum.splits prod.splits)

lemma refresh_coingecko:
  assumes "pf_source f = CoinGecko" and "pf_coinIds f = Some ids"
    and "getPrices (fw_now fw) (fw_gecko fw) ids (pf_coingecko f) = (g, Inr prices)"
  shows "snd (refresh fw f) = Inr (points_by_index (fw_now fw) prices (pf_symbols f) ids)"
  using assms by (simp add: refresh_def fromCoinGecko_def)

lemma feed_with_duplicate:
  "new_feed CoinGecko [''BTCUSDT'', ''BTCUSDT'', ''ETHUSDT''] (Some [''bitcoin'', ''bitcoin'', ''ethereum'']) g =
     Inr \<lparr> pf_source = CoinGecko, pf_symbols = [''BTCUSDT'', ''ETHUSDT''],
       pf_coinIds = Some [''bitcoin'', ''bitcoin'', ''ethereum''], pf_coingecko = g \<rparr>"
  by (simp add: new_feed_def distinct_of_def to_upper_def upper_char_def)

text \<open>
  With distinct symbols, the price of a symbol is that of the coin at its own index of the
  configured identifiers. A symbol listed twice shifts the coins: the feed drops its second occurrence
  but keeps the identifiers, so that for BTC, BTC, ETH with bitcoin, bitcoin, ethereum the price of
  ETH is that of bitcoin.
\<close>

lemma coins_follow_symbols:
  assumes "getPrices (fw_now fw) (fw_gecko fw) ids g = (g', Inr prices)"
    and "new_feed CoinGecko symbols (Some ids) g = Inr f"
  shows "(distinct (map to_upper symbols) \<longrightarrow> k < length symbols \<longrightarrow>
      (\<exists>points. snd (refresh fw f) = Inr points \<and>
         jget points (to_upper (symbols ! k)) = map_option (gecko_point (fw_now fw)) (jget prices (ids ! k)))) \<and>
    (symbols = [''BTCUSDT'', ''BTCUSDT'', ''ETHUSDT''] \<and> ids = [''bitcoin'', ''bitcoin'', ''ethereum''] \<longrightarrow>
      (\<exists>points. snd (refresh fw f) = Inr points \<and>
         jget points ''ETHUSDT'' = map_option (gecko_point (fw_now fw)) (jget prices ''bitcoin'')))"
proof (intro conjI impI)
  assume "distinct (map to_upper symbols)" and k: "k < length symbols"
  then have f: "f = \<lparr> pf_source = CoinGecko, pf_symbols = map to_upper symbols, pf_coinIds = Some ids, pf_coingecko = g \<rparr>"
      "length ids = length symbols"
    using assms(2) by (auto simp: new_feed_def distinct_of_id split: if_splits)
  with refresh_coingecko [of f ids fw g' prices] assms(1) k
    points_by_index_nth [of "map to_upper symbols" k ids "fw_now fw" prices] \<open>distinct (map to_upper symbols)\<close>
  show "\<exists>points. snd (refresh fw f) = Inr points \<and>
      jget points (to_upper (symbols ! k)) = map_option (gecko_point (fw_now fw)) (jget prices (ids ! k))" by simp
next
  assume "symbols = [''BTCUSDT'', ''BTCUSDT'', ''ETHUSDT''] \<and> ids = [''bitcoin'', ''bitcoin'', ''ethereum'']"
  with assms feed_with_duplicate [of g] refresh_coingecko [of f ids fw g' prices]
    points_by_index_nth [of "[''BTCUSDT'', ''ETHUSDT'']" 1 ids "fw_now fw" prices]
  show "\<exists>points. snd (refresh fw f) = Inr points \<and>
      jget points ''ETHUSDT'' = map_option (gecko_point (fw_now fw)) (jget prices ''bitcoin'')" by auto
qed

definition sample_world :: feed_world where
  "sample_world = \<lparr> fw_now = 5, fw_tickers = (\<lambda>_. Inr []),
     fw_gecko = (\<lambda>_. Inr (200, JObj [(''bitcoin'', JObj [(''usd'', JNum (Num 90000))]), (''ethereum'', JObj [(''usd'', JNum (Num 3000))])])) \<rparr>"

definition sample_gecko :: gecko_client where
  "sample_gecko = \<lparr> gc_priceCacheMs = 10, gc_priceCache = None, gc_listCache = None, gc_proxyUrl = None \<rparr>"

lemma coins_follow_symbols_witness:
  "\<exists>f points. new_feed CoinGecko [''BTCUSDT'', ''BTCUSDT'', ''ETHUSDT''] (Some [''bitcoin'', ''bitcoin'', ''ethereum'']) sample_gecko = Inr f \<and>
     snd (refresh sample_world f) = Inr points \<and> map_option pp_price (jget points ''ETHUSDT'') = Some (Num 90000)"
proof -
  let ?ids = "[''bitcoin'', ''bitcoin'', ''ethereum'']"
  obtain g' prices where g: "getPrices (fw_now sample_world) (fw_gecko sample_world) ?ids sample_gecko = (g', Inr prices)"
      "map_option gp_price (jget prices ''bitcoin'') = Some (Num 90000)"
    by (simp add: getPrices_def fetch_prices_def sample_world_def sample_gecko_def distinct_of_def status_ok_def gecko_row_def Let_def)
  from coins_follow_symbols [OF g(1) feed_with_duplicate] g(2) feed_with_duplicate [of sample_gecko] show ?thesis
    by (auto simp: gecko_point_def)
qed

end
