(* ===== verification/StreamHub.thy ===== *)
theory StreamHub
  imports Json Texts
begin

text \<open>
  The sockets that bots share: packages/workers/src/crypto/stream-hub.ts. One entry per symbol, with
  the listeners that subscribed to it, its socket and its timers. A WebSocket is a number; what the
  sockets and timers do are events, and whether the constructor of a socket succeeds is part of the
  event that opens one. A socket of which the close listener has been removed can still deliver what
  was under way, as in the code. Listeners are numbers.
\<close>

section \<open>State\<close>

definition MAX_RECONNECT_MS :: nat where "MAX_RECONNECT_MS = 30000"
definition STALE_SOCKET_MS :: ms where "STALE_SOCKET_MS = 90000"

record hub_tick =
  ht_symbol :: string
  ht_price :: jsnum
  ht_change24h :: json
  ht_timestamp :: json

text \<open>
  \<open>se_opened\<close> are the sockets whose listeners refer to the entry, \<open>se_closable\<close> those among them that
  still have their close listener. \<open>se_timer\<close> is when the reconnect timer fires.
\<close>

record socket_entry =
  se_ws :: "nat option"
  se_refs :: "nat list"
  se_timer :: "ms option"
  se_heartbeat :: bool
  se_attempts :: nat
  se_lastMessageAt :: ms
  se_opened :: "nat list"
  se_closable :: "nat list"

record hub =
  hb_sockets :: "(string, socket_entry) jmap"
  hb_next :: nat

definition new_hub :: hub where "new_hub = \<lparr> hb_sockets = [], hb_next = 0 \<rparr>"

definition new_socket_entry :: socket_entry where
  "new_socket_entry = \<lparr> se_ws = None, se_refs = [], se_timer = None, se_heartbeat = False, se_attempts = 0,
     se_lastMessageAt = 0, se_opened = [], se_closable = [] \<rparr>"

definition socketCount :: "hub \<Rightarrow> nat" where "socketCount h = length (hb_sockets h)"

section \<open>Sockets\<close>

definition hub_delay :: "nat \<Rightarrow> nat" where
  "hub_delay attempts = min MAX_RECONNECT_MS (1000 * 2 ^ min attempts 5)"

definition hub_reconnect :: "ms \<Rightarrow> socket_entry \<Rightarrow> socket_entry" where
  "hub_reconnect now e =
     (if se_refs e = [] \<or> se_timer e \<noteq> None then e
      else e\<lparr> se_attempts := se_attempts e + 1, se_timer := Some (now + int (hub_delay (se_attempts e))) \<rparr>)"

text \<open>\<open>open\<close>: the new socket has the number \<open>ws\<close>; \<open>ok\<close> says that its constructor succeeds.\<close>

definition open_socket :: "ms \<Rightarrow> nat \<Rightarrow> bool \<Rightarrow> socket_entry \<Rightarrow> socket_entry" where
  "open_socket now ws ok e =
     (if \<not> ok then hub_reconnect now e
      else e\<lparr> se_ws := Some ws, se_lastMessageAt := now, se_opened := ws # se_opened e, se_closable := ws # se_closable e \<rparr>)"

definition createSocket :: "ms \<Rightarrow> nat \<Rightarrow> bool \<Rightarrow> socket_entry" where
  "createSocket now ws ok = (open_socket now ws ok new_socket_entry)\<lparr> se_heartbeat := True \<rparr>"

text \<open>The timer of the heartbeat: a socket that has been silent for too long is replaced.\<close>

definition heartbeat :: "ms \<Rightarrow> socket_entry \<Rightarrow> socket_entry" where
  "heartbeat now e =
     (case se_ws e of
        None \<Rightarrow> e
      | Some ws \<Rightarrow>
          if now - se_lastMessageAt e > STALE_SOCKET_MS
          then hub_reconnect now (e\<lparr> se_ws := None, se_closable := removeAll ws (se_closable e) \<rparr>)
          else e)"

text \<open>\<open>handleMessage\<close>: \<open>None\<close> is a frame that is no JSON; the number of \<open>d.c\<close> is an argument.\<close>

definition tick_of :: "(json \<Rightarrow> jsnum) \<Rightarrow> ms \<Rightarrow> string \<Rightarrow> json option \<Rightarrow> hub_tick option" where
  "tick_of number now symbol frame =
     (case frame of
        None \<Rightarrow> None
      | Some f \<Rightarrow>
          if nullish f then None
          else let d = nullish_or (get_prop f ''data'') f
               in case get_prop d ''s'' of
                    JStr s \<Rightarrow>
                      if s = [] \<or> get_prop d ''c'' = JUndef \<or> to_upper s \<noteq> symbol then None
                      else Some \<lparr> ht_symbol = s, ht_price = number (get_prop d ''c''),
                             ht_change24h = (if get_prop d ''P'' = JUndef then JNull else JNum (number (get_prop d ''P''))),
                             ht_timestamp = nullish_or (get_prop d ''E'') (JNum (jint now)) \<rparr>
                  | _ \<Rightarrow> None)"

section \<open>Operations and events\<close>

definition set_entry :: "string \<Rightarrow> socket_entry \<Rightarrow> hub \<Rightarrow> hub" where
  "set_entry key e h = h\<lparr> hb_sockets := jset key e (hb_sockets h) \<rparr>"

definition hub_subscribe :: "ms \<Rightarrow> string \<Rightarrow> nat \<Rightarrow> bool \<Rightarrow> hub \<Rightarrow> hub" where
  "hub_subscribe now symbol onTick ok h =
     (let key = to_upper symbol
      in case jget (hb_sockets h) key of
           Some e \<Rightarrow> set_entry key (e\<lparr> se_refs := List.insert onTick (se_refs e) \<rparr>) h
         | None \<Rightarrow> set_entry key ((createSocket now (hb_next h) ok)\<lparr> se_refs := [onTick] \<rparr>) (h\<lparr> hb_next := hb_next h + 1 \<rparr>))"

definition closeSocket :: "string \<Rightarrow> hub \<Rightarrow> hub" where
  "closeSocket key h = h\<lparr> hb_sockets := jdel key (hb_sockets h) \<rparr>"

definition hub_unsubscribe :: "string \<Rightarrow> nat \<Rightarrow> hub \<Rightarrow> hub" where
  "hub_unsubscribe symbol onTick h =
     (let key = to_upper symbol
      in case jget (hb_sockets h) key of
           None \<Rightarrow> h
         | Some e \<Rightarrow>
             let refs = removeAll onTick (se_refs e)
             in if refs = [] then closeSocket key h else set_entry key (e\<lparr> se_refs := refs \<rparr>) h)"

datatype hub_event =
    Subscribe string nat bool
  | Unsubscribe string nat
  | SocketOpened string nat
  | SocketMessage string nat "json option"
  | SocketClosed string nat
  | TimerFires string bool
  | HeartbeatTick string

definition on_opened :: "ms \<Rightarrow> nat \<Rightarrow> socket_entry \<Rightarrow> socket_entry" where
  "on_opened now ws e = (if ws \<in> set (se_opened e) then e\<lparr> se_attempts := 0, se_lastMessageAt := now \<rparr> else e)"

definition on_closed :: "ms \<Rightarrow> nat \<Rightarrow> socket_entry \<Rightarrow> socket_entry" where
  "on_closed now ws e =
     (if ws \<in> set (se_closable e)
      then hub_reconnect now (e\<lparr> se_closable := removeAll ws (se_closable e),
             se_ws := (if se_ws e = Some ws then None else se_ws e) \<rparr>)
      else e)"

definition on_timer :: "ms \<Rightarrow> nat \<Rightarrow> bool \<Rightarrow> socket_entry \<Rightarrow> socket_entry" where
  "on_timer now ws ok e =
     (case se_timer e of
        Some due \<Rightarrow> if due \<le> now then open_socket now ws ok (e\<lparr> se_timer := None \<rparr>) else e
      | None \<Rightarrow> e)"

definition on_entry :: "string \<Rightarrow> (socket_entry \<Rightarrow> socket_entry) \<Rightarrow> hub \<Rightarrow> hub" where
  "on_entry key f h = (case jget (hb_sockets h) key of None \<Rightarrow> h | Some e \<Rightarrow> set_entry key (f e) h)"

text \<open>The hub after an event, and the ticks it delivered.\<close>

fun hub_step :: "(json \<Rightarrow> jsnum) \<Rightarrow> ms \<times> hub_event \<Rightarrow> hub \<Rightarrow> hub \<times> (nat \<times> hub_tick) list" where
  "hub_step number (now, Subscribe symbol l ok) h = (hub_subscribe now symbol l ok h, [])"
| "hub_step number (now, Unsubscribe symbol l) h = (hub_unsubscribe symbol l h, [])"
| "hub_step number (now, SocketOpened key ws) h = (on_entry key (on_opened now ws) h, [])"
| "hub_step number (now, SocketMessage key ws frame) h =
     (case jget (hb_sockets h) key of
        None \<Rightarrow> (h, [])
      | Some e \<Rightarrow>
          if ws \<in> set (se_opened e)
          then (set_entry key (e\<lparr> se_lastMessageAt := now \<rparr>) h,
                case tick_of number now key frame of None \<Rightarrow> [] | Some t \<Rightarrow> map (\<lambda>l. (l, t)) (se_refs e))
          else (h, []))"
| "hub_step number (now, SocketClosed key ws) h = (on_entry key (on_closed now ws) h, [])"
| "hub_step number (now, TimerFires key ok) h =
     ((on_entry key (on_timer now (hb_next h) ok) h)\<lparr> hb_next := hb_next h + 1 \<rparr>, [])"
| "hub_step number (now, HeartbeatTick key) h = (on_entry key (heartbeat now) h, [])"

definition hub_run :: "(json \<Rightarrow> jsnum) \<Rightarrow> (ms \<times> hub_event) list \<Rightarrow> hub \<Rightarrow> hub" where
  "hub_run number es h = fold (\<lambda>e h. fst (hub_step number e h)) es h"

section \<open>Sockets follow subscriptions\<close>

text \<open>
  An entry has listeners, and a socket or a timer that opens one. Only the socket in use can still
  close.
\<close>

definition entry_ok :: "socket_entry \<Rightarrow> bool" where
  "entry_ok e \<longleftrightarrow> se_refs e \<noteq> [] \<and> (se_ws e \<noteq> None \<or> se_timer e \<noteq> None) \<and> (se_ws e = None \<or> se_timer e = None) \<and>
     (\<forall>ws \<in> set (se_closable e). se_ws e = Some ws)"

definition hub_ok :: "hub \<Rightarrow> bool" where
  "hub_ok h \<longleftrightarrow> jmap_ok (hb_sockets h) \<and> (\<forall>key e. jget (hb_sockets h) key = Some e \<longrightarrow> entry_ok e)"

text \<open>The constructor of a socket does not throw when a symbol gets its first listener.\<close>

fun opens_at_first :: "ms \<times> hub_event \<Rightarrow> bool" where
  "opens_at_first (now, Subscribe symbol l ok) = ok"
| "opens_at_first _ = True"

lemmas entry_simps = entry_ok_def hub_reconnect_def open_socket_def createSocket_def new_socket_entry_def
  on_opened_def on_closed_def on_timer_def heartbeat_def

lemma hub_ok_set: "hub_ok h \<Longrightarrow> entry_ok e \<Longrightarrow> hub_ok (set_entry key e h)"
  by (auto simp: hub_ok_def set_entry_def split: if_splits)

lemma hub_ok_entry: "hub_ok h \<Longrightarrow> jget (hb_sockets h) key = Some e \<Longrightarrow> entry_ok e"
  by (simp add: hub_ok_def)

lemma hub_ok_next [simp]: "hub_ok (h\<lparr> hb_next := n \<rparr>) = hub_ok h"
  by (simp add: hub_ok_def)

lemma hub_ok_on_entry:
  "hub_ok h \<Longrightarrow> (\<And>e. entry_ok e \<Longrightarrow> entry_ok (f e)) \<Longrightarrow> hub_ok (on_entry key f h)"
  by (auto simp: on_entry_def split: option.split intro: hub_ok_set hub_ok_entry)

lemma hub_ok_unsubscribe: "hub_ok h \<Longrightarrow> hub_ok (hub_unsubscribe symbol l h)"
proof -
  assume h: "hub_ok h"
  have "entry_ok (e\<lparr> se_refs := refs \<rparr>)" if "entry_ok e" "refs \<noteq> []" for e refs
    using that by (simp add: entry_ok_def)
  then show ?thesis
    using h hub_ok_entry [OF h]
    by (auto simp: hub_unsubscribe_def Let_def split: option.split intro!: hub_ok_set)
      (auto simp: hub_ok_def closeSocket_def)
qed

lemma hub_ok_subscribe: "hub_ok h \<Longrightarrow> hub_ok (hub_subscribe now symbol l True h)"
proof -
  assume h: "hub_ok h"
  have "entry_ok (e\<lparr> se_refs := List.insert l (se_refs e) \<rparr>)" if "entry_ok e" for e
    using that by (auto simp: entry_ok_def List.insert_def)
  moreover have "entry_ok ((createSocket now ws True)\<lparr> se_refs := [l] \<rparr>)" for ws by (simp add: entry_simps)
  ultimately show ?thesis
    using h hub_ok_entry [OF h] by (auto simp: hub_subscribe_def Let_def split: option.split intro!: hub_ok_set)
qed

lemma hub_ok_message: "hub_ok h \<Longrightarrow> hub_ok (fst (hub_step number (now, SocketMessage key ws frame) h))"
proof -
  assume h: "hub_ok h"
  have "entry_ok (e\<lparr> se_lastMessageAt := now \<rparr>)" if "entry_ok e" for e
    using that by (simp add: entry_ok_def)
  with h hub_ok_entry [OF h] show ?thesis by (auto split: option.split intro!: hub_ok_set)
qed

lemma removeAll_nil: "removeAll x xs = [] \<longleftrightarrow> (\<forall>y \<in> set xs. y = x)"
  by (auto simp: removeAll_filter_not_eq filter_empty_conv)

lemma entry_ok_closed: "entry_ok e \<Longrightarrow> entry_ok (on_closed now ws e)"
proof (cases "ws \<in> set (se_closable e)")
  case True
  assume e: "entry_ok e"
  then have closable: "\<And>x. x \<in> set (se_closable e) \<Longrightarrow> se_ws e = Some x" and refs: "se_refs e \<noteq> []"
    by (simp_all add: entry_ok_def)
  with True have "se_ws e = Some ws" by blast
  moreover have "x = ws" if "x \<in> set (se_closable e)" for x
    using closable [OF that] closable [OF True] by simp
  then have "removeAll ws (se_closable e) = []" by (simp add: removeAll_nil)
  moreover have "se_timer e = None" using e \<open>se_ws e = Some ws\<close> by (simp add: entry_ok_def)
  ultimately show ?thesis using refs True by (simp add: on_closed_def hub_reconnect_def entry_ok_def)
qed (simp add: on_closed_def)

lemma hub_ok_step: "hub_ok h \<Longrightarrow> opens_at_first e \<Longrightarrow> hub_ok (fst (hub_step number e h))"
proof -
  assume h: "hub_ok h" and first: "opens_at_first e"
  obtain now ev where e: "e = (now, ev)" by (cases e)
  show ?thesis
  proof (cases ev)
    case (SocketMessage key ws frame)
    then show ?thesis using h hub_ok_message by (simp only: e)
  next
    case (SocketOpened key ws)
    then show ?thesis using h by (auto simp: e intro!: hub_ok_on_entry) (auto simp: entry_simps)
  next
    case (SocketClosed key ws)
    then show ?thesis using h by (auto simp: e intro!: hub_ok_on_entry entry_ok_closed)
  next
    case (TimerFires key ok)
    then show ?thesis using h by (auto simp: e intro!: hub_ok_on_entry) (auto simp: entry_simps split: option.split)
  next
    case (HeartbeatTick key)
    then show ?thesis using h by (auto simp: e intro!: hub_ok_on_entry) (auto simp: entry_simps split: option.split)
  qed (use h first in \<open>auto simp: e hub_ok_subscribe hub_ok_unsubscribe\<close>)
qed

lemma hub_ok_run: "hub_ok h \<Longrightarrow> list_all opens_at_first es \<Longrightarrow> hub_ok (hub_run number es h)"
  unfolding hub_run_def by (induction es arbitrary: h) (simp_all add: hub_ok_step)

text \<open>The listeners of each symbol: what the hub promises is a set of pairs.\<close>

definition listening :: "hub \<Rightarrow> (string \<times> nat) set" where
  "listening h = {(key, l). \<exists>e. jget (hb_sockets h) key = Some e \<and> l \<in> set (se_refs e)}"

fun listening_after :: "ms \<times> hub_event \<Rightarrow> (string \<times> nat) set \<Rightarrow> (string \<times> nat) set" where
  "listening_after (now, Subscribe symbol l ok) S = insert (to_upper symbol, l) S"
| "listening_after (now, Unsubscribe symbol l) S = S - {(to_upper symbol, l)}"
| "listening_after _ S = S"

lemma listening_on_entry: "(\<And>e. se_refs (f e) = se_refs e) \<Longrightarrow> listening (on_entry key f h) = listening h"
  by (auto simp: listening_def on_entry_def set_entry_def split: option.split if_splits)

lemma same_refs:
  "se_refs (hub_reconnect now e) = se_refs e" "se_refs (open_socket now ws ok e) = se_refs e"
  "se_refs (on_opened now ws e) = se_refs e" "se_refs (on_closed now ws e) = se_refs e"
  "se_refs (on_timer now ws ok e) = se_refs e" "se_refs (heartbeat now e) = se_refs e"
  by (auto simp: entry_simps split: option.split)

lemma listening_next [simp]: "listening (h\<lparr> hb_next := n \<rparr>) = listening h"
  by (simp add: listening_def)

lemma listening_step: "listening (fst (hub_step number e h)) = listening_after e (listening h)"
proof -
  obtain now ev where e: "e = (now, ev)" by (cases e)
  show ?thesis
  proof (cases ev)
    case (Subscribe symbol l ok)
    then show ?thesis
      by (auto simp: e listening_def hub_subscribe_def set_entry_def Let_def List.insert_def split: option.splits if_splits)
  next
    case (Unsubscribe symbol l)
    then show ?thesis
      by (auto simp: e listening_def hub_unsubscribe_def set_entry_def closeSocket_def Let_def split: option.splits if_splits
          dest: removeAll_nil [THEN iffD1])
  next
    case (SocketMessage key ws frame)
    then show ?thesis
      by (auto simp: e listening_def set_entry_def split: option.splits if_splits)
  qed (auto simp: e listening_on_entry same_refs)
qed

lemma listening_run: "listening (hub_run number es h) = fold listening_after es (listening h)"
  unfolding hub_run_def by (induction es arbitrary: h) (simp_all add: listening_step)

text \<open>A symbol whose first socket could not be made.\<close>

definition stranded :: "string \<Rightarrow> hub \<Rightarrow> bool" where
  "stranded key h \<longleftrightarrow> (\<exists>e. jget (hb_sockets h) key = Some e \<and> se_ws e = None \<and> se_timer e = None \<and> se_closable e = [])"

fun unsubscribes :: "ms \<times> hub_event \<Rightarrow> bool" where
  "unsubscribes (now, Unsubscribe symbol l) = True"
| "unsubscribes _ = False"

lemma stranded_on_entry:
  assumes "stranded key h"
    and "\<And>e. se_ws e = None \<Longrightarrow> se_timer e = None \<Longrightarrow> se_closable e = [] \<Longrightarrow>
      se_ws (f e) = None \<and> se_timer (f e) = None \<and> se_closable (f e) = []"
  shows "stranded key (on_entry k f h)"
  using assms by (auto simp: stranded_def on_entry_def set_entry_def split: option.split if_splits)

lemma stranded_next [simp]: "stranded key (h\<lparr> hb_next := n \<rparr>) = stranded key h"
  by (simp add: stranded_def)

lemma stranded_step: "stranded key h \<Longrightarrow> \<not> unsubscribes e \<Longrightarrow> stranded key (fst (hub_step number e h))"
proof -
  assume h: "stranded key h" and no: "\<not> unsubscribes e"
  obtain now ev where e: "e = (now, ev)" by (cases e)
  show ?thesis
  proof (cases ev)
    case (Subscribe symbol l ok)
    then show ?thesis using h
      by (auto simp: e stranded_def hub_subscribe_def set_entry_def Let_def split: option.splits if_splits)
  next
    case (SocketMessage k ws frame)
    then show ?thesis using h by (auto simp: e stranded_def set_entry_def split: option.splits if_splits)
  next
    case (SocketOpened k ws)
    then show ?thesis using h by (auto simp: e intro!: stranded_on_entry) (auto simp: entry_simps)
  next
    case (SocketClosed k ws)
    then show ?thesis using h by (auto simp: e intro!: stranded_on_entry) (auto simp: entry_simps)
  next
    case (TimerFires k ok)
    then show ?thesis using h by (auto simp: e intro!: stranded_on_entry) (auto simp: entry_simps)
  next
    case (HeartbeatTick k)
    then show ?thesis using h by (auto simp: e intro!: stranded_on_entry) (auto simp: entry_simps)
  qed (use no in \<open>simp add: e\<close>)
qed

lemma stranded_run: "stranded key h \<Longrightarrow> list_all (\<lambda>e. \<not> unsubscribes e) es \<Longrightarrow> stranded key (hub_run number es h)"
  unfolding hub_run_def by (induction es arbitrary: h) (simp_all add: stranded_step)

lemma stranded_first:
  "jget (hb_sockets h) (to_upper symbol) = None \<Longrightarrow> stranded (to_upper symbol) (hub_subscribe now symbol l False h)"
  by (simp add: stranded_def hub_subscribe_def set_entry_def Let_def createSocket_def open_socket_def hub_reconnect_def
      new_socket_entry_def)

text \<open>
  C36. The sockets follow the subscriptions: after any events, the symbols of the hub are those that
  have a listener, so their number does not grow with the bots. As long as the first socket of a symbol
  can be made, each of them has a socket or a timer that opens one, and not both: the stream never stops
  for good. When the constructor throws at the first subscription, the symbol gets no socket, whatever
  happens before its listener leaves: the reconnect is skipped since the listener is added later.
\<close>

theorem sockets_follow_listeners:
  assumes "h = hub_run number es new_hub" and "list_all opens_at_first es"
  shows "set (jkeys (hb_sockets h)) = fst ` fold listening_after es {} \<and> distinct (jkeys (hb_sockets h)) \<and>
    (\<forall>key e. jget (hb_sockets h) key = Some e \<longrightarrow> (se_ws e = None) = (se_timer e \<noteq> None)) \<and>
    (jget (hb_sockets h) (to_upper symbol) = None \<longrightarrow> list_all (\<lambda>e. \<not> unsubscribes e) es' \<longrightarrow>
       stranded (to_upper symbol) (hub_run number es' (hub_subscribe now symbol l False h)))"
proof (intro conjI allI impI)
  have ok: "hub_ok h" using hub_ok_run [of new_hub es number] assms by (simp add: hub_ok_def new_hub_def)
  have "listening h = fold listening_after es {}"
    using listening_run [of number es new_hub] assms(1) by (simp add: listening_def new_hub_def)
  moreover have "set (jkeys (hb_sockets h)) = fst ` listening h"
  proof -
    have "\<exists>l. l \<in> set (se_refs e)" if "jget (hb_sockets h) key = Some e" for key e
      using hub_ok_entry [OF ok that] by (auto simp: entry_ok_def neq_Nil_conv)
    then have "fst ` listening h = dom (jget (hb_sockets h))"
      by (fastforce simp: listening_def image_iff dom_def)
    then show ?thesis by (simp add: dom_map_of_conv_image_fst)
  qed
  ultimately show "set (jkeys (hb_sockets h)) = fst ` fold listening_after es {}" by simp
  show "distinct (jkeys (hb_sockets h))" using ok by (simp add: hub_ok_def)
  show "(se_ws e = None) = (se_timer e \<noteq> None)" if "jget (hb_sockets h) key = Some e" for key e
    using hub_ok_entry [OF ok that] by (auto simp: entry_ok_def)
qed (simp add: stranded_first stranded_run)

lemma sockets_follow_listeners_witness:
  "stranded ''BTCUSDT'' (hub_run (\<lambda>_. NaN) [(9, TimerFires ''BTCUSDT'' True), (99999, HeartbeatTick ''BTCUSDT'')]
     (hub_subscribe 0 ''BTCUSDT'' 1 False (hub_run (\<lambda>_. NaN) [(0, Subscribe ''ETHUSDT'' 1 True)] new_hub)))"
proof -
  let ?h = "hub_run (\<lambda>_. NaN) [(0, Subscribe ''ETHUSDT'' 1 True)] new_hub"
  have upper: "to_upper ''BTCUSDT'' = ''BTCUSDT''" by code_simp
  have none: "jget (hb_sockets ?h) ''BTCUSDT'' = None" by code_simp
  from sockets_follow_listeners [of ?h "\<lambda>_. NaN" "[(0, Subscribe ''ETHUSDT'' 1 True)]" "''BTCUSDT''"
      "[(9, TimerFires ''BTCUSDT'' True), (99999, HeartbeatTick ''BTCUSDT'')]" 0 1] none
  show ?thesis by (simp add: upper)
qed

end
