(* ===== verification/CryptoConfig.thy ===== *)
theory CryptoConfig
  imports PriceSources Strategies Ledger "HOL-Library.Word" "HOL-Library.Multiset"
begin

text \<open>
  The configuration and the stored state of a trading bot, the first part of
  packages/workers/src/crypto/worker.ts: reading the config, the rotation over the key pairs of an
  account, and the simulated positions that survive a restart. JSON texts are handled by arguments
  for \<open>JSON.stringify\<close> and \<open>JSON.parse\<close>. Texts are ASCII.
\<close>

section \<open>Numbers\<close>

definition numberParam :: "json \<Rightarrow> jsnum \<Rightarrow> jsnum \<Rightarrow> jsnum \<Rightarrow> jsnum" where
  "numberParam v fallback lo hi = (if json_finite v then jmin hi (jmax lo (json_num v)) else fallback)"

text \<open>\<open>Object.entries\<close> of an object or an array.\<close>

fun object_entries :: "json \<Rightarrow> (string \<times> json) list" where
  "object_entries (JObj ps) = ps"
| "object_entries (JArr xs) = zip (map nat_text [0..<length xs]) xs"
| "object_entries _ = []"

definition put_positive :: "string \<times> json \<Rightarrow> (string, jsnum) jmap \<Rightarrow> (string, jsnum) jmap" where
  "put_positive e out =
     (if json_finite (snd e) \<and> jgt (json_num (snd e)) (Num 0) then jset (to_upper (fst e)) (json_num (snd e)) out else out)"

definition toPositiveNumberMap :: "json \<Rightarrow> (string, jsnum) jmap" where
  "toPositiveNumberMap v = fold put_positive (object_entries v) []"

section \<open>Configuration\<close>

record crypto_config =
  cc_symbols :: "string list"
  cc_coinIds :: "string list option"
  cc_source :: price_source
  cc_pollIntervalMs :: jsnum
  cc_strategy :: strategy_kind
  cc_strategyParams :: json
  cc_tradeMode :: trade_mode
  cc_maxOrderValueUsdt :: jsnum
  cc_maxDailyOrderValueUsdt :: jsnum
  cc_klineInterval :: string
  cc_priceEventIntervalMs :: jsnum
  cc_autoTrade :: bool
  cc_autoTradeAmountUsdt :: jsnum
  cc_allowedSymbols :: "string list"
  cc_wallet :: "string option"
  cc_orderTtlMs :: jsnum
  cc_stopLossPct :: jsnum
  cc_takeProfitPct :: jsnum
  cc_trailingStopPct :: jsnum

fun nonempty_texts :: "json list \<Rightarrow> string list" where
  "nonempty_texts [] = []"
| "nonempty_texts (JStr s # xs) = (if s = [] then nonempty_texts xs else s # nonempty_texts xs)"
| "nonempty_texts (_ # xs) = nonempty_texts xs"

definition upper_texts :: "json \<Rightarrow> string list" where
  "upper_texts v = (case v of JArr xs \<Rightarrow> map to_upper (nonempty_texts xs) | _ \<Rightarrow> [])"

fun join_by :: "string \<Rightarrow> string list \<Rightarrow> string" where
  "join_by sep [] = []"
| "join_by sep [x] = x"
| "join_by sep (x # xs) = x @ sep @ join_by sep xs"

definition source_of :: "json \<Rightarrow> price_source" where
  "source_of v = (if v = JStr ''binance'' then Binance else if v = JStr ''coingecko'' then CoinGecko else Auto)"

definition strategy_of :: "json \<Rightarrow> strategy_kind" where
  "strategy_of v = (if v = JStr ''sma'' then Sma else if v = JStr ''rsi'' then Rsi else Alert)"

definition strategy_text :: "strategy_kind \<Rightarrow> string" where
  "strategy_text k = (case k of Sma \<Rightarrow> ''sma'' | Rsi \<Rightarrow> ''rsi'' | Alert \<Rightarrow> ''alert'')"

definition object_or_empty :: "json \<Rightarrow> json" where
  "object_or_empty v = (if truthy v \<and> is_object v then v else JObj [])"

definition kline_interval :: "json \<Rightarrow> string" where
  "kline_interval params = (case get_prop params ''klineInterval'' of JStr (c # cs) \<Rightarrow> c # cs | _ \<Rightarrow> ''15m'')"

definition wallet_address :: "json \<Rightarrow> string option" where
  "wallet_address v = (case get_prop v ''address'' of JStr a \<Rightarrow> Some a | _ \<Rightarrow> None)"

text \<open>\<open>envMax\<close> is \<open>Number(process.env.CRYPTO_MAX_ORDER_USDT)\<close>.\<close>

definition max_order_value :: "jsnum \<Rightarrow> json \<Rightarrow> jsnum" where
  "max_order_value envMax raw =
     numberParam (get_prop raw ''maxOrderValueUsdt'') (if is_finite envMax \<and> jgt envMax (Num 0) then envMax else Num 100)
       (Num 1) (Num 1000000)"

definition config_of :: "jsnum \<Rightarrow> json \<Rightarrow> string list \<Rightarrow> json \<Rightarrow> crypto_config" where
  "config_of envMax raw symbols params =
     \<lparr> cc_symbols = symbols,
       cc_coinIds = (case get_prop raw ''coinIds'' of JArr xs \<Rightarrow> Some (nonempty_texts xs) | _ \<Rightarrow> None),
       cc_source = source_of (get_prop raw ''source''),
       cc_pollIntervalMs = numberParam (get_prop raw ''pollInterval'') (Num 60000) (Num 5000) (Num 3600000),
       cc_strategy = strategy_of (get_prop raw ''strategy''),
       cc_strategyParams = params,
       cc_tradeMode = (if get_prop raw ''tradeMode'' = JStr ''live'' then Live else Dry),
       cc_maxOrderValueUsdt = max_order_value envMax raw,
       cc_maxDailyOrderValueUsdt = numberParam (get_prop raw ''maxDailyOrderValueUsdt'') (Num 0) (Num 0) (Num 100000000),
       cc_klineInterval = kline_interval params,
       cc_priceEventIntervalMs = numberParam (get_prop params ''priceEventIntervalMs'') (Num 60000) (Num 1000) (Num 3600000),
       cc_autoTrade = (get_prop params ''autoTrade'' = JBool True),
       cc_autoTradeAmountUsdt = numberParam (get_prop params ''autoTradeAmountUsdt'') (max_order_value envMax raw) (Num 1) (Num 1000000),
       cc_allowedSymbols = distinct_of (upper_texts (get_prop raw ''allowedSymbols'')),
       cc_wallet = wallet_address (get_prop raw ''wallet''),
       cc_orderTtlMs = numberParam (get_prop params ''orderTtlMs'') (Num 86400000) (Num 300000) (Num 2592000000),
       cc_stopLossPct = numberParam (get_prop params ''stopLossPct'') (Num 0) (Num 0) (Num 90),
       cc_takeProfitPct = numberParam (get_prop params ''takeProfitPct'') (Num 0) (Num 0) (Num 1000),
       cc_trailingStopPct = numberParam (get_prop params ''trailingStopPct'') (Num 0) (Num 0) (Num 90) \<rparr>"

definition parseCryptoConfig :: "jsnum \<Rightarrow> json \<Rightarrow> thrown + crypto_config" where
  "parseCryptoConfig envMax raw =
     (let symbols = upper_texts (get_prop raw ''symbols'');
          strategy = strategy_of (get_prop raw ''strategy'');
          params = object_or_empty (get_prop raw ''strategyParams'');
          problems = validateStrategyParams strategy params
      in if symbols = [] then Inl (cerror ''crypto.symbols must contain at least one symbol'' ''INVALID_CONFIG'')
         else if problems \<noteq> []
         then Inl (cerror (''Invalid strategy params for '' @ strategy_text strategy @ '': '' @ join_by ''; '' problems)
                ''INVALID_CONFIG'')
         else if kline_interval params \<notin> set KLINE_INTERVALS
         then Inl (cerror (''Invalid klineInterval: '' @ kline_interval params @ '' (expected one of '' @
                join_by '', '' KLINE_INTERVALS @ '')'') ''INVALID_CONFIG'')
         else Inr (config_of envMax raw symbols params))"

section \<open>Key pairs\<close>

type_synonym key_pair = "string \<times> string"

definition pair_id :: "key_pair \<Rightarrow> string" where "pair_id p = fst p @ '':'' @ snd p"

definition push_pair :: "key_pair \<Rightarrow> key_pair list \<Rightarrow> key_pair list" where
  "push_pair p pairs = (if pair_id p \<in> pair_id ` set pairs then pairs else pairs @ [p])"

definition pool_pair :: "json \<Rightarrow> key_pair list" where
  "pool_pair v =
     (case (get_prop v ''apiKey'', get_prop v ''apiSecret'') of
        (JStr (k # ks), JStr (s # ss)) \<Rightarrow> [(k # ks, s # ss)]
      | _ \<Rightarrow> [])"

record key_credentials =
  kc_apiKeys :: json
  kc_apiKey :: "string option"
  kc_apiSecret :: "string option"
  kc_clientSecret :: "string option"

definition single_pair :: "key_credentials \<Rightarrow> key_pair list" where
  "single_pair c =
     (case (nonempty (kc_apiKey c), nonempty (case kc_apiSecret c of None \<Rightarrow> kc_clientSecret c | Some s \<Rightarrow> Some s)) of
        (Some k, Some s) \<Rightarrow> [(k, s)]
      | _ \<Rightarrow> [])"

definition buildKeyPairs :: "key_credentials \<Rightarrow> key_pair list" where
  "buildKeyPairs c =
     fold push_pair ((case kc_apiKeys c of JArr xs \<Rightarrow> concat (map pool_pair xs) | _ \<Rightarrow> []) @ single_pair c) []"

text \<open>\<open>((hash << 5) + hash + code) >>> 0\<close> on unsigned 32-bit values.\<close>

definition stringHash :: "string \<Rightarrow> 32 word" where
  "stringHash value = foldl (\<lambda>hash c. push_bit 5 hash + hash + of_nat (of_char c)) 5381 value"

definition nextKeypairIndex :: "string \<Rightarrow> nat \<Rightarrow> (string, nat) jmap \<Rightarrow> (string, nat) jmap \<times> nat" where
  "nextKeypairIndex botId cnt indexes =
     (if cnt \<le> 1 then (indexes, 0)
      else let next = jget_or (unat (stringHash botId)) indexes botId mod cnt
           in (jset botId (next + 1) indexes, next))"

text \<open>The cadence of the polls; the random number is an argument.\<close>

definition jitter :: "rat \<Rightarrow> jsnum \<Rightarrow> jsnum" where
  "jitter r v = jround (jmul v (jadd (Num 1) (jmul (jsub (Num r) (Num (1/2))) (mk_num (4/10)))))"

section \<open>Stored state\<close>

record dry_state =
  ds_positions :: "(string, jsnum) jmap"
  ds_avgEntry :: "(string, jsnum) jmap"
  ds_trailingHigh :: "(string, jsnum) jmap"

definition empty_dry_state :: dry_state where
  "empty_dry_state = \<lparr> ds_positions = [], ds_avgEntry = [], ds_trailingHigh = [] \<rparr>"

text \<open>The order of the properties of an object: array indices first, ascending.\<close>

definition index_key :: "string \<Rightarrow> bool" where
  "index_key k \<longleftrightarrow> all_digits k \<and> (k = ''0'' \<or> hd k \<noteq> CHR ''0'') \<and> parse_dec k < 2 ^ 32 - 1"

definition property_order :: "(string \<times> 'v) list \<Rightarrow> (string \<times> 'v) list" where
  "property_order ps = sort_key (\<lambda>p. parse_dec (fst p)) (filter (\<lambda>p. index_key (fst p)) ps) @
     filter (\<lambda>p. \<not> index_key (fst p)) ps"

text \<open>\<open>Object.fromEntries\<close> of a map of numbers.\<close>

definition fromEntries :: "(string, jsnum) jmap \<Rightarrow> json" where
  "fromEntries m = JObj (property_order (map (\<lambda>(k, v). (k, JNum v)) m))"

definition dry_state_json :: "dry_state \<Rightarrow> json" where
  "dry_state_json st =
     JObj [(''positions'', fromEntries (ds_positions st)), (''avgEntry'', fromEntries (ds_avgEntry st)),
       (''trailingHigh'', fromEntries (ds_trailingHigh st))]"

definition positionsKey :: "string \<Rightarrow> string" where "positionsKey botId = ''bothive:crypto:positions:'' @ botId"
definition liveStateKey :: "string \<Rightarrow> string" where "liveStateKey botId = ''bothive:crypto:live:'' @ botId"

definition dailySpendKey :: "string \<Rightarrow> string \<Rightarrow> string" where
  "dailySpendKey botId date = ''bothive:crypto:daily:'' @ botId @ '':'' @ date"

text \<open>The texts that Redis keeps; \<open>up\<close> says that it answers.\<close>

definition saveDryState :: "(json \<Rightarrow> string) \<Rightarrow> bool \<Rightarrow> string \<Rightarrow> dry_state \<Rightarrow> (string, string) jmap \<Rightarrow> (string, string) jmap" where
  "saveDryState stringify up botId st store =
     (if up then jset (positionsKey botId) (stringify (dry_state_json st)) store else store)"

definition dry_state_of :: "json \<Rightarrow> dry_state" where
  "dry_state_of parsed =
     (if truthy parsed \<and> is_object parsed \<and> is_object (get_prop parsed ''positions'') \<and> get_prop parsed ''positions'' \<noteq> JNull
      then \<lparr> ds_positions = toPositiveNumberMap (get_prop parsed ''positions''),
             ds_avgEntry = toPositiveNumberMap (get_prop parsed ''avgEntry''),
             ds_trailingHigh = toPositiveNumberMap (get_prop parsed ''trailingHigh'') \<rparr>
      else empty_dry_state\<lparr> ds_positions := toPositiveNumberMap parsed \<rparr>)"

definition loadDryState :: "(string \<Rightarrow> json option) \<Rightarrow> bool \<Rightarrow> string \<Rightarrow> (string, string) jmap \<Rightarrow> dry_state" where
  "loadDryState parse up botId store =
     (case (if up then nonempty (jget store (positionsKey botId)) else None) of
        None \<Rightarrow> empty_dry_state
      | Some raw \<Rightarrow> (case parse raw of None \<Rightarrow> empty_dry_state | Some parsed \<Rightarrow> dry_state_of parsed))"

text \<open>The ledger of a live bot; the text of a snapshot is made and read by arguments.\<close>

definition saveLedger ::
  "(ledger_snapshot \<Rightarrow> string) \<Rightarrow> bool \<Rightarrow> ms \<Rightarrow> string \<Rightarrow> trade_mode \<Rightarrow> ledger \<Rightarrow> (string, string) jmap \<Rightarrow> (string, string) jmap" where
  "saveLedger stringify up now botId mode l store =
     (if mode = Live \<and> up then jset (liveStateKey botId) (stringify (ledger_snapshot_of now l)) store else store)"

definition loadLedger ::
  "(string \<Rightarrow> ledger_snapshot option option) \<Rightarrow> bool \<Rightarrow> string \<Rightarrow> (string, string) jmap \<Rightarrow> ledger" where
  "loadLedger parse up botId store =
     (case (if up then nonempty (jget store (liveStateKey botId)) else None) of
        None \<Rightarrow> new_ledger
      | Some raw \<Rightarrow> (case parse raw of None \<Rightarrow> new_ledger | Some snapshot \<Rightarrow> ledger_fromSnapshot snapshot))"

section \<open>The range of the settings\<close>

definition num_between :: "rat \<Rightarrow> rat \<Rightarrow> jsnum \<Rightarrow> bool" where
  "num_between lo hi v \<longleftrightarrow> (\<exists>x. v = Num x \<and> lo \<le> x \<and> x \<le> hi)"

lemma num_between_Num [simp]: "num_between lo hi (Num x) \<longleftrightarrow> lo \<le> x \<and> x \<le> hi"
  by (simp add: num_between_def)

lemma numberParam_between:
  "lo \<le> hi \<Longrightarrow> num_between lo hi fallback \<Longrightarrow> num_between lo hi (numberParam v fallback (Num lo) (Num hi))"
  by (cases v rule: json_finite.cases) (auto simp: numberParam_def num_between_def jmin_def jmax_def elim!: is_finite.elims)

text \<open>
  Whatever the user configures, the settings of an accepted config are in range: at least one symbol,
  polls every 5 seconds to an hour, exit percentages from 0 up to their limits, a kline interval of the
  exchange. An order can then be open for 5 minutes to 30 days: a configured 0, documented as never
  cancelling, is 5 minutes.
\<close>

theorem config_in_range:
  assumes "parseCryptoConfig envMax raw = Inr c"
  shows "cc_symbols c \<noteq> [] \<and> cc_klineInterval c \<in> set KLINE_INTERVALS \<and>
    num_between 5000 3600000 (cc_pollIntervalMs c) \<and> num_between 0 100000000 (cc_maxDailyOrderValueUsdt c) \<and>
    num_between 0 90 (cc_stopLossPct c) \<and> num_between 0 1000 (cc_takeProfitPct c) \<and> num_between 0 90 (cc_trailingStopPct c) \<and>
    num_between 300000 2592000000 (cc_orderTtlMs c) \<and>
    (get_prop (cc_strategyParams c) ''orderTtlMs'' = JNum (Num 0) \<longrightarrow> cc_orderTtlMs c = Num 300000)"
proof -
  let ?params = "object_or_empty (get_prop raw ''strategyParams'')"
  have c: "c = config_of envMax raw (upper_texts (get_prop raw ''symbols'')) ?params"
    and ok: "upper_texts (get_prop raw ''symbols'') \<noteq> []" "kline_interval ?params \<in> set KLINE_INTERVALS"
    using assms by (auto simp: parseCryptoConfig_def Let_def split: if_splits)
  have zero: "numberParam (JNum (Num 0)) (Num 86400000) (Num 300000) (Num 2592000000) = Num 300000"
    by (simp add: numberParam_def jmin_def jmax_def)
  show ?thesis using ok zero by (auto simp: c config_of_def intro!: numberParam_between)
qed

lemma config_in_range_witness:
  "\<exists>c. parseCryptoConfig NaN (JObj [(''symbols'', JArr [JStr ''BTCUSDT'']), (''strategyParams'', JObj [(''orderTtlMs'', JNum (Num 0))])]) = Inr c \<and>
     cc_orderTtlMs c = Num 300000"
proof -
  let ?raw = "JObj [(''symbols'', JArr [JStr ''BTCUSDT'']), (''strategyParams'', JObj [(''orderTtlMs'', JNum (Num 0))])]"
  have v: "validateStrategyParams Alert (JObj [(''orderTtlMs'', JNum (Num 0))]) = []"
    by (simp add: validateStrategyParams_def alert_problems_def exit_problems_def problem_if_def)
  obtain c where c: "parseCryptoConfig NaN ?raw = Inr c" "cc_strategyParams c = JObj [(''orderTtlMs'', JNum (Num 0))]"
    by (simp add: parseCryptoConfig_def Let_def upper_texts_def strategy_of_def object_or_empty_def v kline_interval_def
        KLINE_INTERVALS_def config_of_def)
  from config_in_range [OF c(1)] c show ?thesis by auto
qed

section \<open>Rotation over the key pairs\<close>

lemma stringHash_mod:
  "unat (foldl (\<lambda>hash c. push_bit 5 hash + hash + of_nat (of_char c)) (h :: 32 word) s) =
     foldl (\<lambda>n c. (33 * n + of_char c) mod 2 ^ 32) (unat h) s"
proof (induction s arbitrary: h)
  case (Cons c s)
  have "push_bit 5 h + h = 33 * h" by (simp add: push_bit_eq_mult)
  then have "unat (push_bit 5 h + h + of_nat (of_char c)) = (33 * unat h + of_char c) mod 2 ^ 32"
    by (simp add: unat_word_ariths unat_of_nat mod_simps)
  with Cons show ?case by simp
qed simp

lemma push_pair_ids: "distinct (map pair_id pairs) \<Longrightarrow> distinct (map pair_id (push_pair p pairs))"
  by (auto simp: push_pair_def)

lemma buildKeyPairs_distinct: "distinct (map pair_id (buildKeyPairs c))"
proof -
  have "distinct (map pair_id pairs) \<Longrightarrow> distinct (map pair_id (fold push_pair ps pairs))" for ps pairs
    by (induction ps arbitrary: pairs) (simp_all add: push_pair_ids)
  then show ?thesis by (simp add: buildKeyPairs_def)
qed

text \<open>The identifier joins key and secret by a colon, so two different pairs can have the same one.\<close>

lemma different_pairs_same_id: "pair_id (''a:b'', ''c'') = pair_id (''a'', ''b:c'')"
  by (simp add: pair_id_def)

text \<open>The indices of the next connects of a bot.\<close>

fun key_indexes :: "string \<Rightarrow> nat \<Rightarrow> nat \<Rightarrow> (string, nat) jmap \<Rightarrow> nat list" where
  "key_indexes botId cnt 0 m = []"
| "key_indexes botId cnt (Suc n) m =
     (case nextKeypairIndex botId cnt m of (m', i) \<Rightarrow> i # key_indexes botId cnt n m')"

lemma key_indexes_closed:
  "1 < cnt \<Longrightarrow> key_indexes botId cnt n m =
     map (\<lambda>i. (jget_or (unat (stringHash botId)) m botId + i) mod cnt) [0..<n]"
proof (induction n arbitrary: m)
  case (Suc n)
  have "(a mod cnt + 1 + i) mod cnt = (a + Suc i) mod cnt" for a i
    by (metis add.assoc mod_add_left_eq plus_1_eq_Suc)
  with Suc show ?case
    by (simp add: nextKeypairIndex_def Let_def upt_conv_Cons map_Suc_upt [symmetric] del: upt_Suc)
qed simp

lemma shifted_residues:
  assumes "0 < c"
  shows "(\<lambda>i. (s + i) mod c) ` {..<c} = {..<c :: nat}"
proof (intro equalityI subsetI)
  fix j assume j: "j \<in> {..<c}"
  let ?i = "(j + (c - s mod c)) mod c"
  have "(s + ?i) mod c = (s mod c + (j + (c - s mod c))) mod c" by (simp add: mod_simps)
  also have "s mod c + (j + (c - s mod c)) = j + c" using assms mod_less_divisor [of c s] by linarith
  finally have "(s + ?i) mod c = j" using j by simp
  moreover have "?i < c" using assms by simp
  ultimately show "j \<in> (\<lambda>i. (s + i) mod c) ` {..<c}" by (metis imageI lessThan_iff)
qed (use assms in auto)

text \<open>
  The rotation over the key pairs of an account leaves none out: the indices of any number of
  connects in a row are indices of pairs, and as many connects as there are pairs use each pair exactly
  once, wherever the rotation stands. The pairs are pairwise different.
\<close>

theorem keys_rotate:
  assumes "0 < cnt"
  shows "set (key_indexes botId cnt n m) \<subseteq> {..<cnt} \<and>
    set (key_indexes botId cnt cnt m) = {..<cnt} \<and> length (key_indexes botId cnt cnt m) = cnt \<and>
    distinct (buildKeyPairs c)"
proof -
  have one: "key_indexes botId 1 n m = replicate n 0" for n m
    by (induction n) (simp_all add: nextKeypairIndex_def)
  have "set (key_indexes botId cnt n m) \<subseteq> {..<cnt} \<and>
    set (key_indexes botId cnt cnt m) = {..<cnt} \<and> length (key_indexes botId cnt cnt m) = cnt"
  proof (cases "cnt = 1")
    case True
    then show ?thesis by (auto simp: one [unfolded One_nat_def] lessThan_Suc simp del: key_indexes.simps)
  next
    case False
    with assms have "1 < cnt" by simp
    with shifted_residues [OF assms, of "jget_or (unat (stringHash botId)) m botId"] show ?thesis
      by (auto simp: key_indexes_closed atLeast0LessThan)
  qed
  with distinct_map [THEN iffD1, OF buildKeyPairs_distinct] show ?thesis by blast
qed

lemma keys_rotate_witness: "set (key_indexes ''bot-1'' 3 3 []) = {..<3}"
  using keys_rotate [of 3 "''bot-1''" 0 "[]"] by simp

section \<open>A stored state comes back\<close>

text \<open>What a value becomes by \<open>JSON.stringify\<close> and \<open>JSON.parse\<close>.\<close>

fun json_image :: "json \<Rightarrow> json" and image_props :: "(string \<times> json) list \<Rightarrow> (string \<times> json) list"
  and image_elements :: "json list \<Rightarrow> json list" where
  "json_image (JNum n) = (if is_finite n then JNum n else JNull)"
| "json_image (JArr xs) = JArr (image_elements xs)"
| "json_image (JObj ps) = JObj (image_props ps)"
| "json_image v = v"
| "image_props [] = []"
| "image_props (p # ps) = (if snd p = JUndef then image_props ps else (fst p, json_image (snd p)) # image_props ps)"
| "image_elements [] = []"
| "image_elements (x # xs) = (if x = JUndef then JNull else json_image x) # image_elements xs"

lemma set_property_order [simp]: "set (property_order ps) = set ps"
  by (auto simp: property_order_def)

lemma distinct_property_order: "jmap_ok ps \<Longrightarrow> jmap_ok (property_order ps)"
proof -
  assume ps: "jmap_ok ps"
  have "mset (property_order ps) = mset ps"
    by (simp add: property_order_def flip: multiset_partition)
  then have "mset (map fst (property_order ps)) = mset (map fst ps)" by simp
  with ps show ?thesis by (metis mset_eq_imp_distinct_iff)
qed

lemma map_of_property_order: "jmap_ok ps \<Longrightarrow> map_of (property_order ps) = map_of ps"
  by (subst map_of_inject_set) (simp_all add: distinct_property_order)

lemma image_props_numbers:
  "(\<And>p. p \<in> set ps \<Longrightarrow> snd p \<noteq> JUndef) \<Longrightarrow> image_props ps = map (\<lambda>(k, v). (k, json_image v)) ps"
  by (induction ps) auto

lemma map_of_put_positive:
  assumes "jmap_ok es" and "\<And>k. k \<in> fst ` set es \<Longrightarrow> to_upper k = k"
  shows "map_of (fold put_positive es out) s =
    (case map_of es s of
       Some v \<Rightarrow> if json_finite v \<and> jgt (json_num v) (Num 0) then Some (json_num v) else map_of out s
     | None \<Rightarrow> map_of out s)"
  using assms
proof (induction es arbitrary: out)
  case (Cons e es)
  obtain k v where e: "e = (k, v)" by (cases e)
  have "to_upper k = k" using Cons.prems(2) e by simp
  moreover have "map_of es k = None" using Cons.prems(1) e by (simp add: map_of_eq_None_iff)
  ultimately show ?case using Cons e by (auto simp: put_positive_def split: option.split)
qed simp

text \<open>The part of a stored map that is read back: the positive numbers.\<close>

definition kept :: "(string, jsnum) jmap \<Rightarrow> string \<Rightarrow> jsnum option" where
  "kept m s = (case jget m s of Some v \<Rightarrow> if is_finite v \<and> jgt v (Num 0) then Some v else None | None \<Rightarrow> None)"

text \<open>The keys of a map are distinct and in upper case.\<close>

definition symbol_map :: "(string, 'v) jmap \<Rightarrow> bool" where
  "symbol_map m \<longleftrightarrow> jmap_ok m \<and> (\<forall>k \<in> fst ` set m. to_upper k = k)"

definition symbol_maps :: "dry_state \<Rightarrow> bool" where
  "symbol_maps st \<longleftrightarrow> symbol_map (ds_positions st) \<and> symbol_map (ds_avgEntry st) \<and> symbol_map (ds_trailingHigh st)"

lemma stored_map_back: "symbol_map m \<Longrightarrow> jget (toPositiveNumberMap (json_image (fromEntries m))) s = kept m s"
proof -
  assume m: "symbol_map m"
  let ?ps = "map (\<lambda>(k, v). (k, JNum v)) m"
  let ?es = "map (\<lambda>(k, v). (k, json_image v)) (property_order ?ps)"
  have fst_ps: "map fst ?ps = map fst m" by (induction m) auto
  have ok: "jmap_ok ?ps" using m unfolding fst_ps symbol_map_def by simp
  have fst_es: "map fst ?es = map fst (property_order ?ps)" by (simp add: comp_def case_prod_unfold)
  have image: "json_image (fromEntries m) = JObj ?es"
    by (auto simp: fromEntries_def intro!: image_props_numbers)
  have "jmap_ok ?es" using distinct_property_order [OF ok] by (simp only: fst_es)
  moreover have "to_upper k = k" if "k \<in> fst ` set ?es" for k
    using that m by (force simp: symbol_map_def)
  ultimately have "map_of (fold put_positive ?es []) s =
      (case map_of ?es s of Some v \<Rightarrow> if json_finite v \<and> jgt (json_num v) (Num 0) then Some (json_num v) else None | None \<Rightarrow> None)"
    by (subst map_of_put_positive) (auto split: option.split)
  moreover have "map_of ?es s = map_option json_image (map_option JNum (map_of m s))"
    by (simp add: map_of_map map_of_property_order [OF ok])
  ultimately show ?thesis
    by (auto simp: image toPositiveNumberMap_def kept_def split: option.split)
qed

lemma image_entries_object: "is_object (json_image (fromEntries m)) \<and> json_image (fromEntries m) \<noteq> JNull \<and>
    json_image (fromEntries m) \<noteq> JUndef"
  by (simp add: fromEntries_def)

text \<open>
  A simulated portfolio survives a restart of the worker: what is loaded for a bot after its state
  was saved has the same positions, average entries and trailing highs, for every symbol, as far as
  they are positive numbers. The keys are in upper case, and what \<open>JSON.parse\<close> makes of the text of a
  value is its JSON image.
\<close>

lemma dry_state_roundtrip:
  assumes "parse (stringify (dry_state_json st)) = Some (json_image (dry_state_json st))"
    and "stringify (dry_state_json st) \<noteq> []" and "symbol_maps st"
    and "loaded = loadDryState parse True botId (saveDryState stringify True botId st store)"
  shows "jget (ds_positions loaded) s = kept (ds_positions st) s \<and> jget (ds_avgEntry loaded) s = kept (ds_avgEntry st) s \<and>
    jget (ds_trailingHigh loaded) s = kept (ds_trailingHigh st) s"
proof -
  have "nonempty (Some (stringify (dry_state_json st))) = Some (stringify (dry_state_json st))"
    using assms(2) by (cases "stringify (dry_state_json st)") (simp_all add: nonempty_def)
  then have "loaded = dry_state_of (json_image (dry_state_json st))"
    using assms(1,4) by (simp add: loadDryState_def saveDryState_def)
  moreover have "json_image (dry_state_json st) =
      JObj [(''positions'', json_image (fromEntries (ds_positions st))), (''avgEntry'', json_image (fromEntries (ds_avgEntry st))),
        (''trailingHigh'', json_image (fromEntries (ds_trailingHigh st)))]"
    by (auto simp: dry_state_json_def fromEntries_def)
  ultimately show ?thesis
    using assms(3) by (simp add: dry_state_of_def symbol_maps_def stored_map_back image_entries_object)
qed

lemma dry_state_roundtrip_witness:
  "let st = empty_dry_state\<lparr> ds_positions := [(''BTCUSDT'', Num 2), (''ETHUSDT'', Num 0)], ds_avgEntry := [(''BTCUSDT'', Infty)] \<rparr>;
     loaded = loadDryState (\<lambda>_. Some (json_image (dry_state_json st))) True ''b'' (saveDryState (\<lambda>_. ''text'') True ''b'' st [])
   in jget (ds_positions loaded) ''BTCUSDT'' = Some (Num 2) \<and> jget (ds_positions loaded) ''ETHUSDT'' = None \<and>
      jget (ds_avgEntry loaded) ''BTCUSDT'' = None"
proof -
  let ?st = "empty_dry_state\<lparr> ds_positions := [(''BTCUSDT'', Num 2), (''ETHUSDT'', Num 0)], ds_avgEntry := [(''BTCUSDT'', Infty)] \<rparr>"
  have maps: "symbol_maps ?st"
    by (simp add: symbol_maps_def symbol_map_def empty_dry_state_def) code_simp
  note load = dry_state_roundtrip [of "\<lambda>_. Some (json_image (dry_state_json ?st))" "\<lambda>_. ''text''", OF refl _ maps refl,
      of "''b''" "[]", simplified]
  show ?thesis
    using load [of "''BTCUSDT''"] load [of "''ETHUSDT''"] by (simp add: Let_def kept_def empty_dry_state_def)
qed

end
