(* ===== verification/CryptoOrders.thy ===== *)
theory CryptoOrders
  imports CryptoConfig StreamHub WorkerActions
begin

text \<open>
  The orders of a trading bot: packages/workers/src/crypto/worker.ts, the state of the worker and of
  its bots, the daily spending limit, and \<open>placeOrder\<close> in both trade modes. The runtime of a bot is an
  object that a poll keeps although a reconnect has replaced it, so runtimes live in a store under
  numbers. Redis, the exchange and the clock are a record of answers; a method runs with one reading
  of the clock. Of what the worker sends out, the events are kept and the log lines are not.
\<close>

section \<open>State\<close>

record crypto_runtime =
  ct_config :: crypto_config
  ct_feed :: price_feed
  ct_hasKeys :: bool
  ct_guard :: risk_guard
  ct_streamUnsubs :: "(string \<times> nat) list"
  ct_timer :: "jsnum option"
  ct_pollInFlight :: bool
  ct_consecutiveFailures :: nat
  ct_lastSignals :: "(string, Strategies.direction) jmap"
  ct_lastPrices :: "(string, price_point) jmap"
  ct_lastPriceEvents :: "(string, ms) jmap"
  ct_lastTickEvals :: "(string, ms) jmap"
  ct_closes :: "(string, jsnum list) jmap"
  ct_lastKlineRefresh :: ms
  ct_dry :: dry_state
  ct_ledger :: ledger
  ct_lastReconcile :: ms
  ct_exitEnabled :: bool
  ct_exitInFlight :: "string list"
  ct_balanceCache :: "(string, jsnum \<times> ms) jmap"

datatype crypto_event =
    SignalEvent string string Strategies.direction jsnum
  | PriceEvent string string price_point
  | TradeEvent string order_plan trade_mode string json

record crypto =
  cy_worker :: worker
  cy_store :: "nat \<Rightarrow> crypto_runtime"
  cy_next :: nat
  cy_runtimes :: "(string, nat) jmap"
  cy_keypairs :: "(string, nat) jmap"
  cy_hub :: hub
  cy_saved :: "(string, string) jmap"
  cy_spend :: "(string, int) jmap"
  cy_events :: "crypto_event list"

text \<open>Results of the exchange as they come over the wire; quantities are texts there.\<close>

record order_result =
  os_orderId :: json
  os_status :: string
  os_executedQty :: json
  os_cummulativeQuoteQty :: json
  os_price :: json

record crypto_world =
  cw_now :: ms
  cw_date :: string
  cw_redis :: bool
  cw_number :: "json \<Rightarrow> jsnum"
  cw_text :: "json \<Rightarrow> string"
  cw_iso :: "ms \<Rightarrow> string"
  cw_stringify :: "json \<Rightarrow> string"
  cw_snapshot :: "ledger_snapshot \<Rightarrow> string"
  cw_clientOrderId :: string
  cw_order :: "order_request \<Rightarrow> thrown + order_result"
  cw_balance :: "string \<Rightarrow> thrown + balance_info"
  cw_feed :: feed_world
  cw_klines :: "string \<Rightarrow> string \<Rightarrow> jsnum \<Rightarrow> thrown + kline list"

abbreviation runtime :: "nat \<Rightarrow> crypto \<Rightarrow> crypto_runtime" where
  "runtime r s \<equiv> cy_store s r"

definition update_runtime :: "nat \<Rightarrow> (crypto_runtime \<Rightarrow> crypto_runtime) \<Rightarrow> crypto \<Rightarrow> crypto" where
  "update_runtime r f s = s\<lparr> cy_store := (cy_store s)(r := f (cy_store s r)) \<rparr>"

definition update_worker :: "(worker \<Rightarrow> worker) \<Rightarrow> crypto \<Rightarrow> crypto" where
  "update_worker f s = s\<lparr> cy_worker := f (cy_worker s) \<rparr>"

definition emit_crypto :: "crypto_event \<Rightarrow> crypto \<Rightarrow> crypto" where
  "emit_crypto e s = s\<lparr> cy_events := cy_events s @ [e] \<rparr>"

section \<open>The daily spending limit\<close>

text \<open>An argument of INCRBY: an integer of 64 bits, else Redis answers with an error.\<close>

definition redis_integer :: "jsnum \<Rightarrow> int option" where
  "redis_integer v = (case v of Num x \<Rightarrow> if \<bar>x\<bar> < 2 ^ 63 then Some \<lfloor>x\<rfloor> else None | _ \<Rightarrow> None)"

definition spend_cents :: "jsnum \<Rightarrow> jsnum" where
  "spend_cents valueUsdt = jmax (Num 1) (jround (jmul valueUsdt (Num 100)))"

definition daily_cap :: "string \<Rightarrow> crypto \<Rightarrow> jsnum" where
  "daily_cap b s = (case jget (cy_runtimes s) b of None \<Rightarrow> Num 0 | Some r \<Rightarrow> cc_maxDailyOrderValueUsdt (ct_config (runtime r s)))"

text \<open>
  The Lua script adds, compares and takes back in one step. When Redis does not answer, or refuses the
  numbers, the order passes.
\<close>

definition claimDailySpend :: "crypto_world \<Rightarrow> string \<Rightarrow> jsnum \<Rightarrow> crypto \<Rightarrow> crypto \<times> bool" where
  "claimDailySpend w b valueUsdt s =
     (let cap = daily_cap b s; key = dailySpendKey b (cw_date w)
      in if jle cap (Num 0) \<or> \<not> is_finite valueUsdt \<or> jle valueUsdt (Num 0) then (s, True)
         else if \<not> cw_redis w then (s, True)
         else case redis_integer (spend_cents valueUsdt) of
                None \<Rightarrow> (s, True)
              | Some n \<Rightarrow>
                  let c = jget_or 0 (cy_spend s) key + n
                  in if c \<ge> 2 ^ 63 then (s, True)
                     else if jgt (jint c) (jround (jmul cap (Num 100)))
                     then (s\<lparr> cy_spend := jset key (c - n) (cy_spend s) \<rparr>, False)
                     else (s\<lparr> cy_spend := jset key c (cy_spend s) \<rparr>, True))"

definition refundDailySpend :: "crypto_world \<Rightarrow> string \<Rightarrow> jsnum \<Rightarrow> crypto \<Rightarrow> crypto" where
  "refundDailySpend w b valueUsdt s =
     (let key = dailySpendKey b (cw_date w)
      in if \<not> is_finite valueUsdt \<or> jle valueUsdt (Num 0) \<or> \<not> cw_redis w then s
         else case redis_integer (spend_cents valueUsdt) of
                None \<Rightarrow> s
              | Some n \<Rightarrow> s\<lparr> cy_spend := jset key (max 0 (jget_or 0 (cy_spend s) key - n)) (cy_spend s) \<rparr>)"

definition number_or_0 :: "crypto_world \<Rightarrow> json \<Rightarrow> jsnum" where
  "number_or_0 w v = (let n = cw_number w v in if n = NaN then Num 0 else n)"

text \<open>A tracked order is the object that the ledger keeps.\<close>

definition refundUnfilled :: "crypto_world \<Rightarrow> string \<Rightarrow> json \<Rightarrow> jsnum \<Rightarrow> crypto \<Rightarrow> crypto" where
  "refundUnfilled w b order filledQty s =
     (let price = json_num (get_prop order ''price'');
          remainder = jmax (Num 0) (jsub (json_num (get_prop order ''quantity'')) filledQty)
      in if get_prop order ''side'' \<noteq> JStr ''buy'' \<or> \<not> truthy (get_prop order ''price'') then s
         else if jle remainder (Num 0) then s
         else if jlt (jround (jmul (jmul remainder price) (Num 100))) (Num 1) then s
         else refundDailySpend w b (jmul remainder price) s)"

section \<open>Orders\<close>

definition ledger_side :: "plan_side \<Rightarrow> Ledger.side" where
  "ledger_side sd = (case sd of BuySide \<Rightarrow> Ledger.Buy | SellSide \<Rightarrow> Ledger.Sell)"

definition plan_side_text :: "plan_side \<Rightarrow> string" where
  "plan_side_text sd = (case sd of BuySide \<Rightarrow> ''buy'' | SellSide \<Rightarrow> ''sell'')"

definition plan_type_text :: "order_type \<Rightarrow> string" where
  "plan_type_text t = (case t of Market \<Rightarrow> ''market'' | Limit \<Rightarrow> ''limit'')"

text \<open>The request that a plan becomes.\<close>

definition plan_request :: "order_plan \<Rightarrow> string \<Rightarrow> order_request" where
  "plan_request p i =
     \<lparr> or_symbol = op_symbol p, or_side = op_side p, or_type = op_type p, or_quantity = op_quantity p,
       or_quoteOrderQty = op_quoteOrderQty p, or_price = op_price p, or_clientOrderId = Some i \<rparr>"

definition truthy_num :: "jsnum option \<Rightarrow> jsnum option" where
  "truthy_num v = (case v of Some n \<Rightarrow> if n = Num 0 \<or> n = NaN then None else Some n | None \<Rightarrow> None)"

definition or_else :: "'a option \<Rightarrow> 'a \<Rightarrow> 'a" where
  "or_else v d = (case v of Some x \<Rightarrow> x | None \<Rightarrow> d)"

text \<open>\<open>plan.quantity ?? (plan.quoteOrderQty ? plan.quoteOrderQty / price : 0)\<close>\<close>

definition plan_quantity :: "order_plan \<Rightarrow> jsnum \<Rightarrow> jsnum" where
  "plan_quantity p price =
     or_else (op_quantity p) (case truthy_num (op_quoteOrderQty p) of Some q \<Rightarrow> jdiv q price | None \<Rightarrow> Num 0)"

definition tracked_order :: "crypto_world \<Rightarrow> order_plan \<Rightarrow> jsnum \<Rightarrow> json \<Rightarrow> json" where
  "tracked_order w p price orderId =
     JObj [(''clientOrderId'', JStr (cw_clientOrderId w)), (''orderId'', orderId), (''symbol'', JStr (op_symbol p)),
       (''side'', JStr (plan_side_text (op_side p))), (''type'', JStr (plan_type_text (op_type p))),
       (''price'', JNum (or_else (op_price p) price)), (''quantity'', JNum (plan_quantity p price)),
       (''placedAt'', JNum (jint (cw_now w)))]"

definition result_json :: "crypto_world \<Rightarrow> order_result \<Rightarrow> json" where
  "result_json w res =
     JObj [(''orderId'', os_orderId res), (''clientOrderId'', JStr (cw_clientOrderId w)), (''status'', JStr (os_status res)),
       (''executedQty'', os_executedQty res), (''cummulativeQuoteQty'', os_cummulativeQuoteQty res), (''price'', os_price res)]"

definition blocked_json :: json where
  "blocked_json = JObj [(''blocked'', JBool True), (''reason'', JStr ''daily spend limit reached''), (''simulated'', JBool False)]"

definition order_filled :: "crypto_world \<Rightarrow> order_result \<Rightarrow> bool" where
  "order_filled w res \<longleftrightarrow> jgt (cw_number w (os_executedQty res)) (Num 0) \<and>
     (os_status res = ''FILLED'' \<or> os_status res = ''PARTIALLY_FILLED'')"

definition update_ledger :: "(ledger \<Rightarrow> ledger) \<Rightarrow> crypto_runtime \<Rightarrow> crypto_runtime" where
  "update_ledger f t = t\<lparr> ct_ledger := f (ct_ledger t) \<rparr>"

definition save_ledger_of :: "crypto_world \<Rightarrow> string \<Rightarrow> nat \<Rightarrow> crypto \<Rightarrow> crypto" where
  "save_ledger_of w b r s =
     s\<lparr> cy_saved := saveLedger (cw_snapshot w) (cw_redis w) (cw_now w) b (cc_tradeMode (ct_config (runtime r s)))
         (ct_ledger (runtime r s)) (cy_saved s) \<rparr>"

text \<open>What the answer of the exchange changes.\<close>

definition order_placed :: "crypto_world \<Rightarrow> string \<Rightarrow> nat \<Rightarrow> order_plan \<Rightarrow> jsnum \<Rightarrow> order_result \<Rightarrow> crypto \<Rightarrow> crypto" where
  "order_placed w b r p price res s =
     (let s = update_worker (recordCryptoOrder b) s;
          executedQty = cw_number w (os_executedQty res);
          avgPrice = jdiv (cw_number w (os_cummulativeQuoteQty res)) executedQty
      in save_ledger_of w b r
           (if order_filled w res
            then let s = update_runtime r (update_ledger (applyFill (op_symbol p) (ledger_side (op_side p)) executedQty avgPrice)) s;
                     s = update_worker (recordCryptoFill b (json_num (os_cummulativeQuoteQty res))) s
                 in if op_side p = SellSide
                    then update_runtime r (\<lambda>t. t\<lparr> ct_balanceCache := jdel (baseOf (op_symbol p)) (ct_balanceCache t) \<rparr>) s else s
            else update_runtime r (update_ledger (recordOrder (cw_clientOrderId w) (tracked_order w p price (os_orderId res)))) s))"

definition order_failed :: "crypto_world \<Rightarrow> string \<Rightarrow> nat \<Rightarrow> order_plan \<Rightarrow> crypto \<Rightarrow> crypto" where
  "order_failed w b r p s =
     (let s = update_worker (recordCryptoOrderError b) s;
          s = (if op_side p = BuySide then refundDailySpend w b (op_valueUsdt p) s else s)
      in update_runtime r (\<lambda>t. t\<lparr> ct_balanceCache := [] \<rparr>) s)"

text \<open>The simulated portfolio.\<close>

definition DUST :: jsnum where "DUST = mk_num (1 / 10 ^ 8)"

definition dry_buy :: "order_plan \<Rightarrow> jsnum \<Rightarrow> dry_state \<Rightarrow> dry_state" where
  "dry_buy p price st =
     (let sym = op_symbol p; qty = plan_quantity p price;
          current = jget_or (Num 0) (ds_positions st) sym;
          known = jget_or (Num 0) (ds_avgEntry st) sym;
          next = jadd current qty
      in \<lparr> ds_positions = jset sym next (ds_positions st),
           ds_avgEntry = jset sym (if jgt known (Num 0) then jdiv (jadd (jmul current known) (jmul qty price)) next else price)
             (ds_avgEntry st),
           ds_trailingHigh = jdel sym (ds_trailingHigh st) \<rparr>)"

definition dry_sell :: "order_plan \<Rightarrow> dry_state \<Rightarrow> dry_state" where
  "dry_sell p st =
     (case truthy_num (op_quantity p) of
        None \<Rightarrow> st
      | Some quantity \<Rightarrow>
          let sym = op_symbol p; remaining = jsub (jget_or (Num 0) (ds_positions st) sym) quantity
          in if jgt remaining DUST then st\<lparr> ds_positions := jset sym remaining (ds_positions st) \<rparr>
             else \<lparr> ds_positions = jdel sym (ds_positions st), ds_avgEntry = jdel sym (ds_avgEntry st),
                    ds_trailingHigh = jdel sym (ds_trailingHigh st) \<rparr>)"

definition dry_fill :: "order_plan \<Rightarrow> jsnum \<Rightarrow> dry_state \<Rightarrow> dry_state" where
  "dry_fill p price st = (if op_side p = BuySide then dry_buy p price st else dry_sell p st)"

definition simulated_json :: "crypto_world \<Rightarrow> order_plan \<Rightarrow> jsnum \<Rightarrow> json" where
  "simulated_json w p price =
     JObj [(''simulated'', JBool True), (''orderId'', JStr (''dry-'' @ cw_text w (JNum (jint (cw_now w))))),
       (''status'', JStr ''SIMULATED''), (''executedQty'', JNum (or_else (op_quantity p) (Num 0))),
       (''price'', JNum (or_else (op_price p) price))]"

definition order_simulated :: "crypto_world \<Rightarrow> string \<Rightarrow> nat \<Rightarrow> order_plan \<Rightarrow> jsnum \<Rightarrow> crypto \<Rightarrow> crypto" where
  "order_simulated w b r p price s =
     (let s = update_worker (recordCryptoOrder b) s;
          s = update_worker (recordCryptoFill b (op_valueUsdt p)) s;
          s = update_runtime r (\<lambda>t. t\<lparr> ct_dry := dry_fill p price (ct_dry t) \<rparr>) s
      in s\<lparr> cy_saved := saveDryState (cw_stringify w) (cw_redis w) b (ct_dry (runtime r s)) (cy_saved s) \<rparr>)"

definition placeOrder ::
  "crypto_world \<Rightarrow> string \<Rightarrow> nat \<Rightarrow> order_plan \<Rightarrow> jsnum \<Rightarrow> string \<Rightarrow> crypto \<Rightarrow> crypto \<times> (thrown + json)" where
  "placeOrder w b r p price origin s =
     (let trade = (\<lambda>mode executed s. (emit_crypto (TradeEvent b p mode origin executed) s, Inr executed))
      in if cc_tradeMode (ct_config (runtime r s)) = Dry
         then trade Dry (simulated_json w p price) (order_simulated w b r p price s)
         else case (if op_side p = BuySide then claimDailySpend w b (op_valueUsdt p) s else (s, True)) of
                (s, False) \<Rightarrow> (s, Inr blocked_json)
              | (s, True) \<Rightarrow>
                  (case cw_order w (plan_request p (cw_clientOrderId w)) of
                     Inl err \<Rightarrow> (order_failed w b r p s, Inl err)
                   | Inr res \<Rightarrow> trade Live (result_json w res) (order_placed w b r p price res s)))"

section \<open>The limit holds\<close>

datatype spend_op = SpendClaim jsnum | SpendRefund jsnum

definition cents :: "jsnum \<Rightarrow> int" where
  "cents v = (case redis_integer (spend_cents v) of Some n \<Rightarrow> n | None \<Rightarrow> 0)"

text \<open>The scripts that Redis runs for a bot on one day, in any order, with what was granted and given back.\<close>

fun spend_run :: "crypto_world \<Rightarrow> string \<Rightarrow> spend_op list \<Rightarrow> crypto \<Rightarrow> crypto \<times> int \<times> int" where
  "spend_run w b [] s = (s, 0, 0)"
| "spend_run w b (SpendClaim v # ops) s =
     (case claimDailySpend w b v s of (s, ok) \<Rightarrow>
        case spend_run w b ops s of (s, granted, refunded) \<Rightarrow> (s, (if ok then cents v else 0) + granted, refunded))"
| "spend_run w b (SpendRefund v # ops) s =
     (case spend_run w b ops (refundDailySpend w b v s) of (s, granted, refunded) \<Rightarrow> (s, granted, cents v + refunded))"

fun op_value :: "spend_op \<Rightarrow> jsnum" where
  "op_value (SpendClaim v) = v"
| "op_value (SpendRefund v) = v"

text \<open>The value of an order that the guard lets through.\<close>

definition order_value :: "jsnum \<Rightarrow> bool" where
  "order_value v \<longleftrightarrow> num_between 0 1000000 v \<and> v \<noteq> Num 0"

lemma order_value_cents: "order_value v \<Longrightarrow> redis_integer (spend_cents v) = Some (cents v) \<and> 1 \<le> cents v \<and> cents v \<le> 100000000"
proof -
  assume "order_value v"
  then obtain x where v: "v = Num x" "0 \<le> x" "x \<le> 1000000" by (auto simp: order_value_def num_between_def)
  obtain y where y: "jmul v (Num 100) = Num y" "0 \<le> y" "y \<le> 100000000"
    using v mk_num_between [of 0 "x * 100" 100000000] by auto
  define n where "n = \<lfloor>y + 1 / 2\<rfloor>"
  have n: "0 \<le> n" "n \<le> 100000000" using y unfolding n_def by linarith+
  have "jround (Num y) = jint n" by (simp add: n_def jround.simps)
  then have "spend_cents v = jint (max 1 n)" by (auto simp: spend_cents_def y jmax_def max_def)
  with n show ?thesis by (simp add: cents_def redis_integer_def max_def)
qed

lemma refund_counter:
  assumes "order_value v" and "cw_redis w"
  shows "refundDailySpend w b v s = s\<lparr> cy_spend :=
     jset (dailySpendKey b (cw_date w)) (max 0 (jget_or 0 (cy_spend s) (dailySpendKey b (cw_date w)) - cents v)) (cy_spend s) \<rparr>"
  using assms order_value_cents [OF assms(1)]
  by (auto simp: refundDailySpend_def Let_def order_value_def num_between_def)

lemma claim_counter:
  assumes "order_value v" and "cw_redis w" and "daily_cap b s = cap" and "\<not> jle cap (Num 0)"
    and "jround (jmul cap (Num 100)) = jint C" and "C < 2 ^ 53" and "jget_or 0 (cy_spend s) (dailySpendKey b (cw_date w)) = c"
    and "c \<le> C"
  shows "claimDailySpend w b v s =
    (if c + cents v > C then (s\<lparr> cy_spend := jset (dailySpendKey b (cw_date w)) c (cy_spend s) \<rparr>, False)
     else (s\<lparr> cy_spend := jset (dailySpendKey b (cw_date w)) (c + cents v) (cy_spend s) \<rparr>, True))"
  using assms order_value_cents [OF assms(1)]
  by (auto simp: claimDailySpend_def Let_def order_value_def num_between_def)

lemma daily_cap_spend [simp]: "daily_cap b (s\<lparr> cy_spend := m \<rparr>) = daily_cap b s"
  by (simp add: daily_cap_def split: option.split)

lemma spend_run_bound:
  assumes "list_all (\<lambda>op. order_value (op_value op)) ops" and "cw_redis w" and "daily_cap b s = cap" and "\<not> jle cap (Num 0)"
    and "jround (jmul cap (Num 100)) = jint C" and "C < 2 ^ 53" and "0 \<le> jget_or 0 (cy_spend s) (dailySpendKey b (cw_date w))"
    and "jget_or 0 (cy_spend s) (dailySpendKey b (cw_date w)) \<le> C" and "spend_run w b ops s = (s', granted, refunded)"
  shows "granted \<le> C - jget_or 0 (cy_spend s) (dailySpendKey b (cw_date w)) + refunded"
  using assms
proof (induction w b ops s arbitrary: s' granted refunded rule: spend_run.induct)
  case (2 w b v ops s)
  let ?c = "jget_or 0 (cy_spend s) (dailySpendKey b (cw_date w))"
  obtain s1 ok where claim: "claimDailySpend w b v s = (s1, ok)" by (cases "claimDailySpend w b v s")
  obtain g where run: "spend_run w b ops s1 = (s', g, refunded)" and g: "granted = (if ok then cents v else 0) + g"
    using "2.prems"(9) claim by (auto split: prod.splits)
  have v: "order_value v" using "2.prems"(1) by simp
  note counter = claim_counter [OF v "2.prems"(2-6) refl "2.prems"(8), unfolded claim]
  have c: "jget_or 0 (cy_spend s1) (dailySpendKey b (cw_date w)) = ?c + (if ok then cents v else 0)"
    "daily_cap b s1 = cap" "ok \<Longrightarrow> ?c + cents v \<le> C"
    using counter "2.prems"(3) by (auto split: if_splits)
  have "g \<le> C - jget_or 0 (cy_spend s1) (dailySpendKey b (cw_date w)) + refunded"
    using "2.IH" [OF claim [symmetric], of s' g refunded] "2.prems" c order_value_cents [OF v] run by (cases ok) auto
  with c(1) g show ?case by simp
next
  case (3 w b v ops s)
  have v: "order_value v" using "3.prems"(1) by simp
  obtain r where run: "spend_run w b ops (refundDailySpend w b v s) = (s', granted, r)" and r: "refunded = cents v + r"
    using "3.prems"(9) by (auto split: prod.splits)
  have "granted \<le> C - max 0 (jget_or 0 (cy_spend s) (dailySpendKey b (cw_date w)) - cents v) + r"
    using "3.IH" [of s' granted r] "3.prems" run order_value_cents [OF v] by (simp add: refund_counter [OF v])
  with r show ?case by linarith
qed simp


definition sample_world :: crypto_world where
  "sample_world = \<lparr> cw_now = 0, cw_date = ''2026-01-01'', cw_redis = True, cw_number = json_num, cw_text = (\<lambda>_. []), cw_iso = (\<lambda>_. []),
     cw_stringify = (\<lambda>_. ''{}''), cw_snapshot = (\<lambda>_. ''{}''), cw_clientOrderId = ''bh1'', cw_order = (\<lambda>_. Inl (OtherError [])),
     cw_balance = (\<lambda>asset. Inr (balance_of asset [])), cw_feed = PriceSources.sample_world, cw_klines = (\<lambda>_ _ _. Inr []) \<rparr>"

definition sample_config :: crypto_config where
  "sample_config = config_of NaN (JObj [(''maxDailyOrderValueUsdt'', JNum (Num 100))]) [''BTCUSDT''] (JObj [])"

definition sample_feed :: price_feed where
  "sample_feed = \<lparr> pf_source = Binance, pf_symbols = [''BTCUSDT''], pf_coinIds = None, pf_coingecko = sample_gecko \<rparr>"

definition new_runtime :: "crypto_config \<Rightarrow> price_feed \<Rightarrow> bool \<Rightarrow> risk_guard \<Rightarrow> (string, price_point) jmap \<Rightarrow> dry_state \<Rightarrow> ledger \<Rightarrow> crypto_runtime" where
  "new_runtime config feed keys guard prices dry led =
     \<lparr> ct_config = config, ct_feed = feed, ct_hasKeys = keys, ct_guard = guard, ct_streamUnsubs = [], ct_timer = None,
       ct_pollInFlight = False, ct_consecutiveFailures = 0, ct_lastSignals = [], ct_lastPrices = prices, ct_lastPriceEvents = [],
       ct_lastTickEvals = [], ct_closes = [], ct_lastKlineRefresh = 0, ct_dry = dry, ct_ledger = led, ct_lastReconcile = 0,
       ct_exitEnabled = (cc_autoTrade config \<and> (jgt (cc_stopLossPct config) (Num 0) \<or> jgt (cc_takeProfitPct config) (Num 0) \<or>
         jgt (cc_trailingStopPct config) (Num 0))),
       ct_exitInFlight = [], ct_balanceCache = [] \<rparr>"

definition sample_crypto :: crypto where
  "sample_crypto = \<lparr> cy_worker = new_worker,
     cy_store = (\<lambda>_. new_runtime sample_config sample_feed True (new_guard ''dry'' (Num 100) True JUndef) [] empty_dry_state new_ledger),
     cy_next = 1, cy_runtimes = [(''b'', 0)], cy_keypairs = [], cy_hub = new_hub, cy_saved = [], cy_spend = [], cy_events = [] \<rparr>"


end
