(* ===== verification/CryptoTrading.thy ===== *)
theory CryptoTrading
  imports CryptoOrders
begin

text \<open>
  What a trading bot does with a price: packages/workers/src/crypto/worker.ts, the protective exits, the
  signals of the strategy with their automatic orders, the ticks of the stream, and the actions of
  scripts. An operation that throws yields the error with the state it left.
\<close>

section \<open>Balances and klines\<close>

text \<open>The free balance of an asset: from the cache for two poll intervals, and from a stale entry when the call fails.\<close>

definition liveFreeBalance :: "crypto_world \<Rightarrow> nat \<Rightarrow> string \<Rightarrow> crypto \<Rightarrow> crypto \<times> (thrown + jsnum)" where
  "liveFreeBalance w r base s =
     (let cached = jget (ct_balanceCache (runtime r s)) base;
          ttl = jmax (jmul (cc_pollIntervalMs (ct_config (runtime r s))) (Num 2)) (Num 10000);
          call = (case cw_balance w base of
              Inr b \<Rightarrow> (update_runtime r (\<lambda>t. t\<lparr> ct_balanceCache := jset base (bi_free b, cw_now w) (ct_balanceCache t) \<rparr>) s, Inr (bi_free b))
            | Inl err \<Rightarrow> (s, case cached of Some (free, fetched) \<Rightarrow> Inr free | None \<Rightarrow> Inl err))
      in case cached of
           Some (free, fetched) \<Rightarrow> if jlt (jint (cw_now w - fetched)) ttl then (s, Inr free) else call
         | None \<Rightarrow> call)"

definition put_closes :: "crypto_world \<Rightarrow> nat \<Rightarrow> string \<Rightarrow> crypto \<Rightarrow> crypto" where
  "put_closes w r symbol s =
     (case cw_klines w symbol (cc_klineInterval (ct_config (runtime r s))) (Num 100) of
        Inl err \<Rightarrow> s
      | Inr ks \<Rightarrow> update_runtime r (\<lambda>t. t\<lparr> ct_closes := jset symbol (map kl_close ks) (ct_closes t) \<rparr>) s)"

definition refreshKlines :: "crypto_world \<Rightarrow> nat \<Rightarrow> crypto \<Rightarrow> crypto" where
  "refreshKlines w r s =
     (let t = runtime r s; throttleMs = jmax (cc_pollIntervalMs (ct_config t)) (Num 60000)
      in if jlt (jint (cw_now w - ct_lastKlineRefresh t)) throttleMs then s
         else fold (put_closes w r) (cc_symbols (ct_config t)) (update_runtime r (\<lambda>t. t\<lparr> ct_lastKlineRefresh := cw_now w \<rparr>) s))"

section \<open>Protective exits\<close>

datatype exit_reason = StopLoss | TakeProfit | TrailingStop

definition exit_text :: "exit_reason \<Rightarrow> string" where
  "exit_text e = (case e of StopLoss \<Rightarrow> ''stop_loss'' | TakeProfit \<Rightarrow> ''take_profit'' | TrailingStop \<Rightarrow> ''trailing_stop'')"

definition take_profit_level :: "crypto_config \<Rightarrow> jsnum \<Rightarrow> jsnum" where
  "take_profit_level c entry = jmul entry (jadd (Num 1) (jdiv (cc_takeProfitPct c) (Num 100)))"

definition stop_level :: "jsnum \<Rightarrow> jsnum \<Rightarrow> jsnum" where
  "stop_level from pct = jmul from (jsub (Num 1) (jdiv pct (Num 100)))"

definition takes_profit :: "crypto_config \<Rightarrow> jsnum \<Rightarrow> jsnum \<Rightarrow> bool" where
  "takes_profit c entry price \<longleftrightarrow> jgt (cc_takeProfitPct c) (Num 0) \<and> jge price (take_profit_level c entry)"

text \<open>The high that the trailing stop hangs on, when it is armed.\<close>

definition trail_high :: "crypto_config \<Rightarrow> jsnum \<Rightarrow> jsnum \<Rightarrow> jsnum option \<Rightarrow> jsnum option" where
  "trail_high c entry price known =
     (if jgt (cc_trailingStopPct c) (Num 0) then Some (jmax (or_else known entry) price) else None)"

definition exit_stop :: "crypto_config \<Rightarrow> jsnum \<Rightarrow> jsnum option \<Rightarrow> jsnum option" where
  "exit_stop c entry high =
     (let trailStop = map_option (\<lambda>h. stop_level h (cc_trailingStopPct c)) high;
          fixedStop = (if jgt (cc_stopLossPct c) (Num 0) then Some (stop_level entry (cc_stopLossPct c)) else None)
      in case (fixedStop, trailStop) of
           (Some f, Some t) \<Rightarrow> Some (jmax f t)
         | (Some f, None) \<Rightarrow> Some f
         | (None, t) \<Rightarrow> t)"

text \<open>The exit at a price, and the high to store.\<close>

definition exit_decision :: "crypto_config \<Rightarrow> jsnum \<Rightarrow> jsnum \<Rightarrow> jsnum option \<Rightarrow> exit_reason option \<times> jsnum option" where
  "exit_decision c entry price known =
     (if takes_profit c entry price then (Some TakeProfit, None)
      else let high = trail_high c entry price known;
               store = (case (high, known) of
                   (Some h, None) \<Rightarrow> Some h
                 | (Some h, Some k) \<Rightarrow> if jgt h k then Some h else None
                 | (None, _) \<Rightarrow> None)
           in (case exit_stop c entry high of
                 Some stop \<Rightarrow>
                   if jle price stop
                   then Some (case (high, known) of
                       (Some h, Some k) \<Rightarrow> if jgt k entry then TrailingStop else StopLoss
                     | _ \<Rightarrow> StopLoss)
                   else None
               | None \<Rightarrow> None, store))"

definition held_quantity :: "nat \<Rightarrow> string \<Rightarrow> crypto \<Rightarrow> jsnum" where
  "held_quantity r symbol s =
     (let t = runtime r s
      in if cc_tradeMode (ct_config t) = Live then position symbol (ct_ledger t) else jget_or (Num 0) (ds_positions (ct_dry t)) symbol)"

definition held_entry :: "nat \<Rightarrow> string \<Rightarrow> crypto \<Rightarrow> jsnum" where
  "held_entry r symbol s =
     (let t = runtime r s
      in if cc_tradeMode (ct_config t) = Live then avgEntryFor symbol (ct_ledger t) else jget_or (Num 0) (ds_avgEntry (ct_dry t)) symbol)"

definition held_high :: "nat \<Rightarrow> string \<Rightarrow> crypto \<Rightarrow> jsnum option" where
  "held_high r symbol s =
     (let t = runtime r s
      in if cc_tradeMode (ct_config t) = Live then trailingHighFor symbol (ct_ledger t) else jget (ds_trailingHigh (ct_dry t)) symbol)"

definition store_high :: "nat \<Rightarrow> string \<Rightarrow> jsnum \<Rightarrow> crypto \<Rightarrow> crypto" where
  "store_high r symbol high s =
     update_runtime r (\<lambda>t. if cc_tradeMode (ct_config t) = Live then update_ledger (setTrailingHigh symbol high) t
       else t\<lparr> ct_dry := (ct_dry t)\<lparr> ds_trailingHigh := jset symbol high (ds_trailingHigh (ct_dry t)) \<rparr> \<rparr>) s"

definition set_signal :: "nat \<Rightarrow> string \<Rightarrow> Strategies.direction \<Rightarrow> crypto \<Rightarrow> crypto" where
  "set_signal r symbol d s = update_runtime r (\<lambda>t. t\<lparr> ct_lastSignals := jset symbol d (ct_lastSignals t) \<rparr>) s"

text \<open>The quantity that an exit may sell: live, not more than the exchange holds.\<close>

definition exit_quantity :: "crypto_world \<Rightarrow> nat \<Rightarrow> string \<Rightarrow> crypto \<Rightarrow> crypto \<times> jsnum option" where
  "exit_quantity w r symbol s =
     (let quantity = held_quantity r symbol s
      in if jle quantity (Num 0) then (s, None)
         else if cc_tradeMode (ct_config (runtime r s)) = Live
         then (case liveFreeBalance w r (baseOf symbol) s of
                 (s, Inl err) \<Rightarrow> (s, None)
               | (s, Inr free) \<Rightarrow> (s, let q = jmin quantity free in if jle q (Num 0) then None else Some q))
         else (s, Some quantity))"

definition sell_for_exit ::
  "crypto_world \<Rightarrow> string \<Rightarrow> nat \<Rightarrow> string \<Rightarrow> jsnum \<Rightarrow> jsnum \<Rightarrow> exit_reason \<Rightarrow> crypto \<Rightarrow> crypto \<times> (thrown + bool)" where
  "sell_for_exit w b r symbol price quantity why s =
     (case planMarketSell (ct_guard (runtime r s)) symbol price quantity True of
        Inl refused \<Rightarrow> (s, Inr False)
      | Inr p \<Rightarrow>
          (case placeOrder w b r p price (exit_text why) s of
             (s, Inl err) \<Rightarrow> (s, Inl err)
           | (s, Inr executed) \<Rightarrow> (set_signal r symbol Strategies.Sell s, Inr True)))"

definition checkExitsInner :: "crypto_world \<Rightarrow> string \<Rightarrow> nat \<Rightarrow> string \<Rightarrow> jsnum \<Rightarrow> crypto \<Rightarrow> crypto \<times> (thrown + bool)" where
  "checkExitsInner w b r symbol price s =
     (case exit_quantity w r symbol s of
        (s, None) \<Rightarrow> (s, Inr False)
      | (s, Some quantity) \<Rightarrow>
          let entry = held_entry r symbol s
          in if \<not> is_finite entry \<or> jle entry (Num 0) then (s, Inr False)
             else (case exit_decision (ct_config (runtime r s)) entry price (held_high r symbol s) of
                     (why, high) \<Rightarrow>
                       let s = (case high of Some h \<Rightarrow> store_high r symbol h s | None \<Rightarrow> s)
                       in case why of
                            None \<Rightarrow> (s, Inr False)
                          | Some e \<Rightarrow> sell_for_exit w b r symbol price quantity e s))"

definition set_in_flight :: "nat \<Rightarrow> (string list \<Rightarrow> string list) \<Rightarrow> crypto \<Rightarrow> crypto" where
  "set_in_flight r f s = update_runtime r (\<lambda>t. t\<lparr> ct_exitInFlight := f (ct_exitInFlight t) \<rparr>) s"

definition checkExits :: "crypto_world \<Rightarrow> string \<Rightarrow> nat \<Rightarrow> string \<Rightarrow> jsnum \<Rightarrow> crypto \<Rightarrow> crypto \<times> (thrown + bool)" where
  "checkExits w b r symbol price s =
     (if \<not> ct_exitEnabled (runtime r s) then (s, Inr False)
      else if symbol \<in> set (ct_exitInFlight (runtime r s)) then (s, Inr False)
      else case checkExitsInner w b r symbol price (set_in_flight r (\<lambda>xs. xs @ [symbol]) s) of
             (s, res) \<Rightarrow> (set_in_flight r (removeAll symbol) s, res))"

section \<open>Signals\<close>

definition auto_sell_quantity :: "crypto_world \<Rightarrow> nat \<Rightarrow> string \<Rightarrow> crypto \<Rightarrow> crypto \<times> jsnum option" where
  "auto_sell_quantity w r symbol s =
     (if cc_tradeMode (ct_config (runtime r s)) = Live
      then (case liveFreeBalance w r (baseOf symbol) s of
              (s, Inl err) \<Rightarrow> (s, None)
            | (s, Inr free) \<Rightarrow> (s, Some free))
      else (s, Some (jget_or (Num 0) (ds_positions (ct_dry (runtime r s))) (to_upper symbol))))"

text \<open>A refusal of the guard ends the trade, an error of the exchange is thrown.\<close>

definition auto_order :: "crypto_world \<Rightarrow> string \<Rightarrow> nat \<Rightarrow> jsnum \<Rightarrow> refusal + order_plan \<Rightarrow> crypto \<Rightarrow> crypto \<times> thrown option" where
  "auto_order w b r price planned s =
     (case planned of
        Inl refused \<Rightarrow> (s, None)
      | Inr p \<Rightarrow> (case placeOrder w b r p price ''auto-signal'' s of
            (s, Inl err) \<Rightarrow> (s, Some err)
          | (s, Inr executed) \<Rightarrow> (s, None)))"

definition autoTrade :: "crypto_world \<Rightarrow> string \<Rightarrow> nat \<Rightarrow> string \<Rightarrow> Strategies.direction \<Rightarrow> jsnum \<Rightarrow> crypto \<Rightarrow> crypto \<times> thrown option" where
  "autoTrade w b r symbol d price s =
     (if d = Strategies.Buy
      then auto_order w b r price
             (planMarketBuy (ct_guard (runtime r s)) symbol (cc_autoTradeAmountUsdt (ct_config (runtime r s)))) s
      else case auto_sell_quantity w r symbol s of
             (s, None) \<Rightarrow> (s, None)
           | (s, Some quantity) \<Rightarrow>
               if jle quantity (Num 0) then (s, None)
               else auto_order w b r price (planMarketSell (ct_guard (runtime r s)) symbol price quantity False) s)"

definition set_price :: "nat \<Rightarrow> string \<Rightarrow> price_point \<Rightarrow> crypto \<Rightarrow> crypto" where
  "set_price r symbol p s = update_runtime r (\<lambda>t. t\<lparr> ct_lastPrices := jset symbol p (ct_lastPrices t) \<rparr>) s"

definition current_signal :: "nat \<Rightarrow> string \<Rightarrow> price_point \<Rightarrow> crypto \<Rightarrow> strategy_signal option" where
  "current_signal r symbol point s =
     (let t = runtime r s; c = ct_config t
      in evaluateStrategy (cc_strategy c) (cc_strategyParams c) (jget_or [] (ct_closes t) symbol) (pp_price point)
           (case jget (ct_lastPrices t) symbol of Some previous \<Rightarrow> pp_price previous | None \<Rightarrow> pp_price point))"

text \<open>A signal counts when its direction is a new one; then it is reported and traded.\<close>

definition on_signal :: "crypto_world \<Rightarrow> string \<Rightarrow> nat \<Rightarrow> string \<Rightarrow> price_point \<Rightarrow> crypto \<Rightarrow> crypto \<times> thrown option" where
  "on_signal w b r symbol point s =
     (case current_signal r symbol point s of
        None \<Rightarrow> (s, None)
      | Some sig \<Rightarrow>
          if jget (ct_lastSignals (runtime r s)) symbol = Some (sg_direction sig) then (s, None)
          else let s = emit_crypto (SignalEvent b symbol (sg_direction sig) (sg_price sig)) (set_signal r symbol (sg_direction sig) s)
               in if cc_autoTrade (ct_config (runtime r s)) then autoTrade w b r symbol (sg_direction sig) (pp_price point) s
                  else (s, None))"

definition on_price :: "crypto_world \<Rightarrow> string \<Rightarrow> nat \<Rightarrow> string \<Rightarrow> price_point \<Rightarrow> crypto \<Rightarrow> crypto" where
  "on_price w b r symbol point s =
     (let t = runtime r s; lastEmit = jget_or 0 (ct_lastPriceEvents t) symbol;
          s = (if jge (jint (cw_now w - lastEmit)) (cc_priceEventIntervalMs (ct_config t))
               then emit_crypto (PriceEvent b symbol point)
                      (update_runtime r (\<lambda>t. t\<lparr> ct_lastPriceEvents := jset symbol (cw_now w) (ct_lastPriceEvents t) \<rparr>) s)
               else s)
      in set_price r symbol point s)"

definition evaluateSymbol :: "crypto_world \<Rightarrow> string \<Rightarrow> nat \<Rightarrow> string \<Rightarrow> price_point \<Rightarrow> crypto \<Rightarrow> crypto \<times> thrown option" where
  "evaluateSymbol w b r symbol point s =
     (if symbol \<in> set (ct_exitInFlight (runtime r s)) then (s, None)
      else case (if ct_exitEnabled (runtime r s) then checkExits w b r symbol (pp_price point) s else (s, Inr False)) of
             (s, Inl err) \<Rightarrow> (s, Some err)
           | (s, Inr True) \<Rightarrow> (set_price r symbol point s, None)
           | (s, Inr False) \<Rightarrow>
               (case on_signal w b r symbol point s of
                  (s, Some err) \<Rightarrow> (s, Some err)
                | (s, None) \<Rightarrow> (on_price w b r symbol point s, None)))"

text \<open>A tick of the stream: at most one evaluation every two seconds, otherwise only the price is kept.\<close>

definition TICK_EVAL_MIN_MS :: ms where "TICK_EVAL_MIN_MS = 2000"

definition tick_point :: "hub_tick \<Rightarrow> ms \<Rightarrow> price_point \<Rightarrow> price_point" where
  "tick_point tick time current =
     current\<lparr> pp_price := ht_price tick,
       pp_change24h := (if ht_change24h tick = JNull then pp_change24h current else ht_change24h tick), pp_timestamp := time \<rparr>"

definition onStreamTick :: "crypto_world \<Rightarrow> string \<Rightarrow> hub_tick \<Rightarrow> ms \<Rightarrow> crypto \<Rightarrow> crypto" where
  "onStreamTick w b tick time s =
     (case jget (cy_runtimes s) b of
        None \<Rightarrow> s
      | Some r \<Rightarrow>
          let symbol = to_upper (ht_symbol tick)
          in case jget (ct_lastPrices (runtime r s)) symbol of
               None \<Rightarrow> s
             | Some current \<Rightarrow>
                 let point = tick_point tick time current
                 in if cw_now w - jget_or 0 (ct_lastTickEvals (runtime r s)) symbol \<ge> TICK_EVAL_MIN_MS
                    then fst (evaluateSymbol w b r symbol point
                           (update_runtime r (\<lambda>t. t\<lparr> ct_lastTickEvals := jset symbol (cw_now w) (ct_lastTickEvals t) \<rparr>) s))
                    else set_price r symbol point s)"

section \<open>Actions of scripts\<close>

definition PRICE_STALE_MS :: ms where "PRICE_STALE_MS = 30000"

definition refresh_feed :: "crypto_world \<Rightarrow> nat \<Rightarrow> crypto \<Rightarrow> crypto \<times> (thrown + (string, price_point) jmap)" where
  "refresh_feed w r s =
     (case refresh (cw_feed w) (ct_feed (runtime r s)) of
        (f, res) \<Rightarrow> (update_runtime r (\<lambda>t. t\<lparr> ct_feed := f \<rparr>) s, res))"

definition fetchPrice :: "crypto_world \<Rightarrow> nat \<Rightarrow> string \<Rightarrow> crypto \<Rightarrow> crypto \<times> (thrown + price_point option)" where
  "fetchPrice w r symbol s =
     (case refresh_feed w r s of
        (s, Inl err) \<Rightarrow> (s, Inl err)
      | (s, Inr prices) \<Rightarrow>
          (case jget prices symbol of
             Some point \<Rightarrow> (set_price r symbol point s, Inr (Some point))
           | None \<Rightarrow> (s, Inr None)))"

text \<open>A cached price counts for thirty seconds.\<close>

definition current_point :: "crypto_world \<Rightarrow> nat \<Rightarrow> string \<Rightarrow> crypto \<Rightarrow> crypto \<times> (thrown + price_point)" where
  "current_point w r symbol s =
     (let fetched = (case fetchPrice w r symbol s of
              (s, Inl err) \<Rightarrow> (s, Inl err)
            | (s, Inr None) \<Rightarrow> (s, Inl (OtherError (''No price available for '' @ symbol)))
            | (s, Inr (Some point)) \<Rightarrow> (s, Inr point))
      in case jget (ct_lastPrices (runtime r s)) symbol of
           Some p \<Rightarrow> if cw_now w - pp_timestamp p \<le> PRICE_STALE_MS then (s, Inr p) else fetched
         | None \<Rightarrow> fetched)"

definition currentPrice :: "crypto_world \<Rightarrow> nat \<Rightarrow> string \<Rightarrow> crypto \<Rightarrow> crypto \<times> (thrown + jsnum)" where
  "currentPrice w r symbol s = (case current_point w r symbol s of (s, res) \<Rightarrow> (s, map_sum id pp_price res))"

definition upper_param :: "crypto_world \<Rightarrow> json \<Rightarrow> string \<Rightarrow> string" where
  "upper_param w payload name = to_upper (cw_text w (nullish_or (get_prop payload name) (JStr [])))"

definition positive_num :: "jsnum \<Rightarrow> bool" where
  "positive_num v \<longleftrightarrow> is_finite v \<and> \<not> jle v (Num 0)"

text \<open>The amount of a market buy: an explicit quantity at the price, else an amount in USDT.\<close>

definition buy_amount :: "crypto_world \<Rightarrow> crypto_config \<Rightarrow> json \<Rightarrow> jsnum \<Rightarrow> jsnum" where
  "buy_amount w c payload price =
     (let quantity = cw_number w (get_prop payload ''quantity'')
      in if is_finite quantity \<and> jgt quantity (Num 0) then jmul quantity price
         else cw_number w (nullish_or (get_prop payload ''amountUsdt'') (JNum (cc_maxOrderValueUsdt c))))"

definition action_plan ::
  "crypto_world \<Rightarrow> crypto_runtime \<Rightarrow> plan_side \<Rightarrow> order_type \<Rightarrow> string \<Rightarrow> json \<Rightarrow> jsnum \<Rightarrow> string + (refusal + order_plan)" where
  "action_plan w t sd ty symbol payload price =
     (let quantity = cw_number w (get_prop payload ''quantity'')
      in case ty of
           Limit \<Rightarrow>
             if \<not> positive_num quantity then Inl ''limit order requires a positive quantity''
             else Inr (planLimit (ct_guard t) symbol sd (cw_number w (get_prop payload ''price'')) quantity)
         | Market \<Rightarrow>
             (case sd of
                BuySide \<Rightarrow>
                  let amount = buy_amount w (ct_config t) payload price
                  in if \<not> positive_num amount then Inl ''marketBuy requires a positive quantity or amountUsdt''
                     else Inr (planMarketBuy (ct_guard t) symbol amount)
              | SellSide \<Rightarrow>
                  if \<not> positive_num quantity then Inl ''marketSell requires a positive quantity''
                  else Inr (planMarketSell (ct_guard t) symbol price quantity False)))"

text \<open>The texts of the guard's refusals are its own; an error keeps that it was the guard.\<close>

definition orderFromAction ::
  "crypto_world \<Rightarrow> string \<Rightarrow> nat \<Rightarrow> plan_side \<Rightarrow> order_type \<Rightarrow> json \<Rightarrow> crypto \<Rightarrow> crypto \<times> ((thrown + refusal) + json)" where
  "orderFromAction w b r sd ty payload s =
     (let symbol = upper_param w payload ''symbol''
      in if symbol = [] then (s, Inl (Inl (OtherError (plan_type_text ty @ (case sd of BuySide \<Rightarrow> ''Buy'' | SellSide \<Rightarrow> ''Sell'') @ '' requires symbol''))))
         else if \<not> isAllowed (ct_guard (runtime r s)) symbol
         then (s, Inl (Inl (OtherError (''Symbol '' @ symbol @ '' is not in the bot's allowed list''))))
         else case currentPrice w r symbol s of
                (s, Inl err) \<Rightarrow> (s, Inl (Inl err))
              | (s, Inr price) \<Rightarrow>
                  (case action_plan w (runtime r s) sd ty symbol payload price of
                     Inl message \<Rightarrow> (s, Inl (Inl (OtherError message)))
                   | Inr (Inl refused) \<Rightarrow> (s, Inl (Inr refused))
                   | Inr (Inr p) \<Rightarrow> (case placeOrder w b r p price ''script'' s of (s, res) \<Rightarrow> (s, map_sum Inl id res))))"

definition point_json :: "crypto_world \<Rightarrow> string \<Rightarrow> price_point \<Rightarrow> json" where
  "point_json w symbol p =
     JObj [(''symbol'', JStr symbol), (''price'', JNum (pp_price p)), (''change24h'', pp_change24h p),
       (''source'', JStr (case pp_source p of CoinGecko \<Rightarrow> ''coingecko'' | _ \<Rightarrow> ''binance'')),
       (''timestamp'', JStr (cw_iso w (pp_timestamp p)))]"

definition get_price :: "crypto_world \<Rightarrow> nat \<Rightarrow> json \<Rightarrow> crypto \<Rightarrow> crypto \<times> (thrown + json)" where
  "get_price w r payload s =
     (let symbol = upper_param w payload ''symbol''
      in if symbol = [] then (s, Inl (OtherError ''getPrice requires symbol''))
         else case current_point w r symbol s of (s, res) \<Rightarrow> (s, map_sum id (point_json w symbol) res))"

definition candle_limit :: "json \<Rightarrow> jsnum" where
  "candle_limit v =
     (if json_finite v
      then jmin (Num 1000) (jmax (Num 1) (let n = json_num v in if jlt n (Num 0) then jceil n else jfloor n))
      else Num 100)"

definition candle_json :: "kline \<Rightarrow> json" where
  "candle_json k = JObj [(''time'', JNum (kl_openTime k)), (''open'', JNum (kl_open k)), (''high'', JNum (kl_high k)),
     (''low'', JNum (kl_low k)), (''close'', JNum (kl_close k)), (''volume'', JNum (kl_volume k))]"

definition get_candles :: "crypto_world \<Rightarrow> nat \<Rightarrow> json \<Rightarrow> crypto \<Rightarrow> thrown + json" where
  "get_candles w r payload s =
     (let symbol = upper_param w payload ''symbol'';
          interval = (case get_prop payload ''interval'' of JStr (c # cs) \<Rightarrow> c # cs | _ \<Rightarrow> cc_klineInterval (ct_config (runtime r s)))
      in if symbol = [] then Inl (OtherError ''getCandles requires symbol'')
         else if interval \<notin> set KLINE_INTERVALS then Inl (OtherError (''Invalid interval: '' @ interval))
         else map_sum id (\<lambda>ks. JObj [(''symbol'', JStr symbol), (''interval'', JStr interval), (''klines'', JArr (map candle_json ks))])
                (cw_klines w symbol interval (candle_limit (get_prop payload ''limit''))))"

definition get_balance :: "crypto_world \<Rightarrow> nat \<Rightarrow> json \<Rightarrow> crypto \<Rightarrow> thrown + json" where
  "get_balance w r payload s =
     (let asset = upper_param w payload ''asset''; positions = ds_positions (ct_dry (runtime r s))
      in if cc_tradeMode (ct_config (runtime r s)) = Live
         then if asset = [] then Inl (OtherError ''getBalance requires asset'')
              else map_sum id (\<lambda>i. JObj [(''asset'', bi_asset i), (''free'', JNum (bi_free i)), (''locked'', JNum (bi_locked i))])
                     (cw_balance w asset)
         else Inr (JObj [(''asset'', JStr (if asset = [] then ''USDT'' else asset)),
                (''free'', JNum (case find (\<lambda>x. baseOf x = asset) (jkeys positions) of
                    Some found \<Rightarrow> if found = [] then Num 0 else jget_or (Num 0) positions found | None \<Rightarrow> Num 0)),
                (''locked'', JNum (Num 0)), (''simulated'', JBool True),
                (''note'', JStr ''dry-run: balances are simulated from the paper ledger'')]))"

definition get_wallet :: "nat \<Rightarrow> crypto \<Rightarrow> thrown + json" where
  "get_wallet r s =
     (case cc_wallet (ct_config (runtime r s)) of
        None \<Rightarrow> Inl (OtherError ''No EVM wallet configured for this bot'')
      | Some address \<Rightarrow> Inr (JObj [(''address'', JStr address), (''privateKey'', JNull)]))"

definition executeAction :: "crypto_world \<Rightarrow> string \<Rightarrow> string \<Rightarrow> json \<Rightarrow> crypto \<Rightarrow> crypto \<times> ((thrown + refusal) + json)" where
  "executeAction w b type payload s =
     (case jget (cy_runtimes s) b of
        None \<Rightarrow> (s, Inl (Inl (OtherError (''Bot '' @ b @ '' not connected''))))
      | Some r \<Rightarrow>
          if type = ''getPrice'' then (case get_price w r payload s of (s, res) \<Rightarrow> (s, map_sum Inl id res))
          else if type = ''getCandles'' then (s, map_sum Inl id (get_candles w r payload s))
          else if type = ''getBalance'' then (s, map_sum Inl id (get_balance w r payload s))
          else if type = ''getWallet'' then (s, map_sum Inl id (get_wallet r s))
          else if type = ''marketBuy'' then orderFromAction w b r BuySide Market payload s
          else if type = ''marketSell'' then orderFromAction w b r SellSide Market payload s
          else if type = ''limitBuy'' then orderFromAction w b r BuySide Limit payload s
          else if type = ''limitSell'' then orderFromAction w b r SellSide Limit payload s
          else (s, Inl (Inl (OtherError (''Unknown action: '' @ type)))))"

section \<open>The stop only rises\<close>

lemma jle_mk_num: "x \<le> y \<Longrightarrow> jle (mk_num x) (mk_num y)"
  using round64_mono [of x y] by (auto simp: mk_num_def Let_def)

lemma jle_refl: "v \<noteq> NaN \<Longrightarrow> jle v v"
  by (cases v) auto

lemma mk_num_not_NaN [simp]: "mk_num x \<noteq> NaN"
  by (simp add: mk_num_def Let_def)

lemma jle_jmax: "x \<noteq> NaN \<Longrightarrow> y \<noteq> NaN \<Longrightarrow> z \<noteq> NaN \<Longrightarrow> jle y z \<Longrightarrow> jle (jmax x y) (jmax x z)"
  by (cases x; cases y; cases z) (auto simp: jmax_def)

lemma jle_trans: "jle x y \<Longrightarrow> jle y z \<Longrightarrow> jle x z"
  by (cases x; cases y; cases z) auto

text \<open>A percentage from 0 to 90 leaves a factor from 0 to 1.\<close>

lemma pct_factor: "num_between 0 90 pct \<Longrightarrow> \<exists>f. jsub (Num 1) (jdiv pct (Num 100)) = Num f \<and> 0 \<le> f \<and> f \<le> 1"
proof -
  assume "num_between 0 90 pct"
  then obtain x where x: "pct = Num x" "0 \<le> x" "x \<le> 90" by (auto simp: num_between_def)
  obtain d where d: "jdiv pct (Num 100) = Num d" "0 \<le> d" "d \<le> 1"
    using x mk_num_between [of 0 "x / 100" 1] by auto
  then show ?thesis using mk_num_between [of 0 "1 - d" 1] by (auto simp: jsub_def)
qed

lemma stop_level_mono:
  "num_between 0 90 pct \<Longrightarrow> x \<le> y \<Longrightarrow> jle (stop_level (Num x) pct) (stop_level (Num y) pct) \<and> stop_level (Num x) pct \<noteq> NaN"
  using pct_factor [of pct] by (auto simp: stop_level_def intro!: jle_mk_num mult_right_mono)

text \<open>The stops of the ticks of a run, and the high that is stored after them.\<close>

fun exit_stops :: "crypto_config \<Rightarrow> jsnum \<Rightarrow> jsnum option \<Rightarrow> jsnum list \<Rightarrow> jsnum option list" where
  "exit_stops c entry known [] = []"
| "exit_stops c entry known (p # ps) =
     exit_stop c entry (trail_high c entry p known) #
     exit_stops c entry (case snd (exit_decision c entry p known) of Some h \<Rightarrow> Some h | None \<Rightarrow> known) ps"

lemma stored_high:
  assumes "jgt (cc_trailingStopPct c) (Num 0)" and "\<not> takes_profit c (Num e) (Num p)"
  shows "(case snd (exit_decision c (Num e) (Num p) (map_option Num known)) of Some h \<Rightarrow> Some h | None \<Rightarrow> map_option Num known) =
    Some (Num (max (case known of Some k \<Rightarrow> k | None \<Rightarrow> e) p))"
  using assms by (cases known) (auto simp: exit_decision_def trail_high_def or_else_def jmax_def Let_def)

lemma stop_at_high:
  assumes "jgt (cc_trailingStopPct c) (Num 0)" and "num_between 0 90 (cc_trailingStopPct c)" and "num_between 0 90 (cc_stopLossPct c)"
  shows "\<exists>v. exit_stop c (Num e) (Some (Num h)) = Some v \<and> v \<noteq> NaN \<and>
    (\<forall>h' \<ge> h. \<exists>v'. exit_stop c (Num e) (Some (Num h')) = Some v' \<and> jle v v')"
proof -
  let ?t = "\<lambda>h. stop_level (Num h) (cc_trailingStopPct c)" and ?f = "stop_level (Num e) (cc_stopLossPct c)"
  have t: "h \<le> h' \<Longrightarrow> jle (?t h) (?t h')" "?t h \<noteq> NaN" for h h'
    using stop_level_mono [OF assms(2)] by auto
  have f: "?f \<noteq> NaN" using stop_level_mono [OF assms(3)] by auto
  have "jmax ?f (?t h) \<noteq> NaN" for h using t f by (simp add: jmax_def)
  then show ?thesis using t f by (auto simp: exit_stop_def jle_jmax)
qed

lemma stops_from_high:
  assumes "jgt (cc_trailingStopPct c) (Num 0)" and "num_between 0 90 (cc_trailingStopPct c)" and "num_between 0 90 (cc_stopLossPct c)"
    and "list_all (\<lambda>p. \<not> takes_profit c (Num e) (Num p)) ps"
  shows "\<exists>vs. exit_stops c (Num e) (map_option Num known) (map Num ps) = map Some vs \<and> sorted_wrt jle vs \<and>
    (\<forall>x \<in> set vs. \<exists>h \<ge> (case known of Some k \<Rightarrow> k | None \<Rightarrow> e). exit_stop c (Num e) (Some (Num h)) = Some x)"
  using assms(4)
proof (induction ps arbitrary: known)
  case (Cons p ps)
  define base where "base = (case known of Some k \<Rightarrow> k | None \<Rightarrow> e)"
  define h where "h = max base p"
  have high: "trail_high c (Num e) (Num p) (map_option Num known) = Some (Num h)"
    using assms(1) by (cases known) (auto simp: trail_high_def or_else_def jmax_def h_def base_def)
  have stored: "(case snd (exit_decision c (Num e) (Num p) (map_option Num known)) of Some h \<Rightarrow> Some h
      | None \<Rightarrow> map_option Num known) = map_option Num (Some h)"
    using stored_high [OF assms(1), of e p known] Cons.prems by (simp add: h_def base_def)
  obtain vs where vs: "exit_stops c (Num e) (map_option Num (Some h)) (map Num ps) = map Some vs" "sorted_wrt jle vs"
    "\<forall>x \<in> set vs. \<exists>h' \<ge> h. exit_stop c (Num e) (Some (Num h')) = Some x"
    using Cons.IH [of "Some h"] Cons.prems by auto
  obtain v where v: "exit_stop c (Num e) (Some (Num h)) = Some v"
    "\<forall>h' \<ge> h. \<exists>v'. exit_stop c (Num e) (Some (Num h')) = Some v' \<and> jle v v'"
    using stop_at_high [OF assms(1-3)] by blast
  have "\<forall>x \<in> set vs. jle v x" using vs(3) v(2) by fastforce
  moreover have "\<forall>x \<in> set (v # vs). \<exists>h' \<ge> base. exit_stop c (Num e) (Some (Num h')) = Some x"
  proof
    fix x assume x: "x \<in> set (v # vs)"
    have "\<exists>h' \<ge> h. exit_stop c (Num e) (Some (Num h')) = Some x"
    proof (cases "x = v")
      case True
      then show ?thesis using v(1) by blast
    qed (use x vs(3) in auto)
    moreover have "base \<le> h" by (simp add: h_def)
    ultimately show "\<exists>h' \<ge> base. exit_stop c (Num e) (Some (Num h')) = Some x" by (meson order_trans)
  qed
  moreover have "exit_stops c (Num e) (map_option Num known) (map Num (p # ps)) = map Some (v # vs)"
    using vs(1) v(1) by (simp only: list.map exit_stops.simps high stored)
  ultimately show ?case using vs(2) unfolding base_def by (metis sorted_wrt.simps(2))
qed simp



section \<open>The simulated portfolio\<close>

text \<open>Symbols in upper case, no negative holding, no negative entry price.\<close>

definition dry_ok :: "dry_state \<Rightarrow> bool" where
  "dry_ok st \<longleftrightarrow> symbol_maps st \<and> (\<forall>x v. jget (ds_positions st) x = Some v \<longrightarrow> held v) \<and>
     (\<forall>x v. jget (ds_avgEntry st) x = Some v \<longrightarrow> \<not> jlt v (Num 0))"

lemma symbol_map_jset: "symbol_map m \<Longrightarrow> to_upper k = k \<Longrightarrow> symbol_map (AList.update k v m)"
  by (auto simp: symbol_map_def dom_update simp flip: dom_map_of_conv_image_fst)

lemma symbol_map_jdel: "symbol_map m \<Longrightarrow> symbol_map (AList.delete k m)"
  by (auto simp: symbol_map_def AList.delete_eq distinct_map_filter)

lemma held_jadd: "held a \<Longrightarrow> held b \<Longrightarrow> held (jadd a b)"
proof -
  assume ab: "held a" "held b"
  have "held (mk_num (x + y))" if "0 \<le> x" "0 \<le> y" for x y
    using mk_num_nonneg [of "x + y"] that by (auto simp: held_def)
  then show ?thesis using ab by (cases a; cases b) (auto simp: held_def)
qed

lemma held_or_0: "(\<And>v. jget m x = Some v \<Longrightarrow> held v) \<Longrightarrow> held (jget_or (Num 0) m x)"
  by (cases "map_of m x") (auto simp: jget_or_def held_def)

lemma mk_num_not_negative: "0 \<le> x \<Longrightarrow> \<not> jlt (mk_num x) (Num 0)"
  using mk_num_nonneg [of x] by auto

lemma not_negative_mul: "\<not> jlt a (Num 0) \<Longrightarrow> \<not> jlt b (Num 0) \<Longrightarrow> \<not> jlt (jmul a b) (Num 0)"
  by (cases a; cases b) (auto simp: signed_inf_def mk_num_not_negative)

lemma not_negative_add: "\<not> jlt a (Num 0) \<Longrightarrow> \<not> jlt b (Num 0) \<Longrightarrow> \<not> jlt (jadd a b) (Num 0)"
  by (cases a; cases b) (auto simp: mk_num_not_negative)

lemma not_negative_div: "\<not> jlt a (Num 0) \<Longrightarrow> \<not> jlt b (Num 0) \<Longrightarrow> \<not> jlt (jdiv a b) (Num 0)"
  by (cases a; cases b) (auto simp: signed_inf_def mk_num_not_negative)

lemma held_not_negative: "held v \<Longrightarrow> \<not> jlt v (Num 0)"
  by (cases v) (auto simp: held_def)

lemma held_mk_num: "0 \<le> x \<Longrightarrow> held (mk_num x)"
  using mk_num_nonneg [of x] by (auto simp: held_def)

lemma held_round_div:
  assumes "held v" and "0 < f" and "0 < g"
  shows "held (jdiv (jround (jmul v (Num f))) (Num g))"
proof (cases v)
  case (Num x)
  then have "0 \<le> x" using assms(1) by (simp add: held_def)
  then have "mk_num (x * f) = Infty \<or> (\<exists>y \<ge> 0. mk_num (x * f) = Num y)" using mk_num_nonneg [of "x * f"] assms(2) by simp
  then show ?thesis
    using Num assms(3) by (auto simp: jround.simps intro!: held_mk_num) (simp add: held_def)
qed (use assms in \<open>auto simp: held_def signed_inf_def jround.simps\<close>)

lemma positive_held: "positive v \<Longrightarrow> held v"
  by (cases v) (auto simp: positive_def held_def)

lemma positive_round_div: "positive v \<Longrightarrow> 0 < f \<Longrightarrow> 0 < g \<Longrightarrow> held (jdiv (jround (jmul v (Num f))) (Num g))"
  by (intro held_round_div positive_held)

text \<open>What the guard plans has an upper-case symbol and quantities that are not negative.\<close>

lemma plan_parts:
  assumes "plan g req = Inr p"
  shows "to_upper (op_symbol p) = op_symbol p \<and> (\<forall>q. op_quantity p = Some q \<longrightarrow> held q) \<and>
    (\<forall>q. op_quoteOrderQty p = Some q \<longrightarrow> held q)"
  using assms
  by (cases req) (auto simp: planMarketBuy_def planMarketSell_def planLimit_def Let_def trim8_def
      intro!: positive_round_div split: if_splits)

lemma held_plan_quantity: "plan g req = Inr p \<Longrightarrow> positive price \<Longrightarrow> held (plan_quantity p price)"
proof -
  assume p: "plan g req = Inr p" and "positive price"
  then obtain x where x: "price = Num x" "0 < x" using positive_Num by blast
  have "held (jdiv q (Num x))" if "held q" for q
    using that x(2) by (cases q) (auto simp: held_def intro!: held_mk_num [unfolded held_def])
  with plan_parts [OF p] x(1) show ?thesis
    by (auto simp: plan_quantity_def or_else_def truthy_num_def held_def split: option.splits if_splits)
qed

lemma dry_fill_ok:
  assumes "dry_ok st" and "plan g req = Inr p" and "positive price"
  shows "dry_ok (dry_fill p price st)"
proof -
  note parts = plan_parts [OF assms(2)]
  have maps: "symbol_map (ds_positions st)" "symbol_map (ds_avgEntry st)" "symbol_map (ds_trailingHigh st)"
    using assms(1) by (simp_all add: dry_ok_def symbol_maps_def)
  have current: "held (jget_or (Num 0) (ds_positions st) x)" for x
    using assms(1) by (auto simp: dry_ok_def intro: held_or_0)
  have qty: "held (plan_quantity p price)" using held_plan_quantity assms(2,3) by blast
  have next_held: "held (jadd (jget_or (Num 0) (ds_positions st) x) (plan_quantity p price))" for x
    using held_jadd current qty by blast
  have avg: "\<not> jlt (jdiv (jadd (jmul (jget_or (Num 0) (ds_positions st) x) k) (jmul (plan_quantity p price) price))
      (jadd (jget_or (Num 0) (ds_positions st) x) (plan_quantity p price))) (Num 0)" if "jgt k (Num 0)" for x k
  proof -
    have "held k" using that by (cases k) (auto simp: held_def)
    then show ?thesis
      using current qty next_held positive_held [OF assms(3)]
      by (intro not_negative_div not_negative_add not_negative_mul held_not_negative)
  qed
  have keep: "held v" if "jgt v DUST" for v
  proof -
    obtain d where d: "DUST = Num d" "0 \<le> d" using mk_num_between [of 0 "1 / 10 ^ 8" 1] by (auto simp: DUST_def)
    have "jlt (Num d) v" using that unfolding d(1) .
    with d(2) show ?thesis by (cases v) (auto simp: held_def)
  qed
  show ?thesis
  proof (cases "op_side p")
    case BuySide
    then show ?thesis
      using assms(1) maps parts next_held avg held_not_negative [OF positive_held [OF assms(3)]]
      by (auto simp: dry_fill_def dry_buy_def Let_def dry_ok_def symbol_maps_def symbol_map_jset symbol_map_jdel split: if_splits)
  next
    case SellSide
    then show ?thesis
      using assms(1) maps parts keep
      by (auto simp: dry_fill_def dry_sell_def Let_def dry_ok_def symbol_maps_def symbol_map_jset symbol_map_jdel
          split: if_splits option.splits)
  qed
qed

text \<open>
  The simulated portfolio stays sound: a simulated order that the guard let through, at a positive
  price, keeps the symbols in upper case, no holding and no entry price becomes negative, even when
  more is sold than is held, and it always succeeds. It touches neither the ledger of live orders nor
  the spending counter nor any other bot.
\<close>

theorem simulated_order_ok:
  assumes "cc_tradeMode (ct_config (runtime r s)) = Dry" and "dry_ok (ct_dry (runtime r s))"
    and "plan (ct_guard (runtime r s)) req = Inr p" and "positive price" and "placeOrder w b r p price origin s = (s', res)"
  shows "dry_ok (ct_dry (runtime r s')) \<and> (\<exists>executed. res = Inr executed) \<and> ct_ledger (runtime r s') = ct_ledger (runtime r s) \<and>
    cy_spend s' = cy_spend s \<and> (\<forall>r'. r' \<noteq> r \<longrightarrow> runtime r' s' = runtime r' s)"
  using assms(1,5) dry_fill_ok [OF assms(2-4)]
  by (auto simp: placeOrder_def order_simulated_def update_runtime_def update_worker_def emit_crypto_def Let_def)

lemma simulated_order_ok_witness:
  "let req = MarketBuy ''btcusdt'' (Num 50);
     p = \<lparr> op_symbol = ''BTCUSDT'', op_side = BuySide, op_type = Market, op_quantity = None, op_quoteOrderQty = Some (Num 50),
           op_price = None, op_valueUsdt = Num 50 \<rparr>
   in dry_ok (ct_dry (runtime 0 (fst (placeOrder sample_world ''b'' 0 p (Num 25) ''script'' sample_crypto))))"
proof -
  let ?p = "\<lparr> op_symbol = ''BTCUSDT'', op_side = BuySide, op_type = Market, op_quantity = None, op_quoteOrderQty = Some (Num 50),
           op_price = None, op_valueUsdt = Num 50 \<rparr>"
  have dry: "cc_tradeMode (ct_config (runtime 0 sample_crypto)) = Dry" "dry_ok (ct_dry (runtime 0 sample_crypto))"
    by (simp_all add: sample_crypto_def new_runtime_def sample_config_def config_of_def dry_ok_def symbol_maps_def symbol_map_def
        empty_dry_state_def)
  have upper: "to_upper ''btcusdt'' = ''BTCUSDT''" by code_simp
  have p: "plan (ct_guard (runtime 0 sample_crypto)) (MarketBuy ''btcusdt'' (Num 50)) = Inr ?p"
    by (simp add: sample_crypto_def new_runtime_def new_guard_def planMarketBuy_def allowed_def positive_def needs_keys_def upper)
  obtain s' res where "placeOrder sample_world ''b'' 0 ?p (Num 25) ''script'' sample_crypto = (s', res)" by fastforce
  with simulated_order_ok [OF dry p _ this] show ?thesis by (simp add: positive_def Let_def)
qed

section \<open>A signal is acted on once\<close>

lemma signals_of_update [simp]:
  "ct_lastSignals (runtime r (update_worker f s)) = ct_lastSignals (runtime r s)"
  "ct_lastSignals (runtime r (emit_crypto e s)) = ct_lastSignals (runtime r s)"
  "ct_lastSignals (runtime r (save_ledger_of w b r s)) = ct_lastSignals (runtime r s)"
  by (simp_all add: update_worker_def emit_crypto_def save_ledger_of_def)

lemma signals_update_runtime:
  "(\<And>t. ct_lastSignals (f t) = ct_lastSignals t) \<Longrightarrow> ct_lastSignals (runtime r (update_runtime r' f s)) = ct_lastSignals (runtime r s)"
  by (simp add: update_runtime_def)

lemma signals_spend:
  "ct_lastSignals (runtime r (fst (claimDailySpend w b v s))) = ct_lastSignals (runtime r s)"
  "ct_lastSignals (runtime r (refundDailySpend w b v s)) = ct_lastSignals (runtime r s)"
  by (auto simp: claimDailySpend_def refundDailySpend_def Let_def split: option.split)

lemma signals_placeOrder: "ct_lastSignals (runtime r (fst (placeOrder w b r p price origin s))) = ct_lastSignals (runtime r s)"
proof -
  have sim: "ct_lastSignals (runtime r (order_simulated w b r p price s)) = ct_lastSignals (runtime r s)" for s
    by (simp add: order_simulated_def Let_def signals_update_runtime)
  have placed: "ct_lastSignals (runtime r (order_placed w b r p price res s)) = ct_lastSignals (runtime r s)" for res s
    by (simp add: order_placed_def Let_def signals_update_runtime update_ledger_def)
  have failed: "ct_lastSignals (runtime r (order_failed w b r p s)) = ct_lastSignals (runtime r s)" for s
    by (simp add: order_failed_def Let_def signals_update_runtime signals_spend)
  obtain s1 ok where claim: "(if op_side p = BuySide then claimDailySpend w b (op_valueUsdt p) s else (s, True)) = (s1, ok)"
    by fastforce
  then have "ct_lastSignals (runtime r s1) = ct_lastSignals (runtime r s)"
    using signals_spend(1) [of w b "op_valueUsdt p" s r] by (auto split: if_splits)
  then show ?thesis
    using claim by (auto simp: placeOrder_def sim placed failed split: bool.split sum.split)
qed

lemma signals_balance: "ct_lastSignals (runtime r (fst (liveFreeBalance w r base s))) = ct_lastSignals (runtime r s)"
  by (auto simp: liveFreeBalance_def Let_def signals_update_runtime split: option.split sum.split prod.split)

lemma signals_autoTrade: "ct_lastSignals (runtime r (fst (autoTrade w b r symbol d price s))) = ct_lastSignals (runtime r s)"
proof -
  have order: "ct_lastSignals (runtime r (fst (auto_order w b r price planned s))) = ct_lastSignals (runtime r s)" for planned s
    using signals_placeOrder [of w b r _ price "''auto-signal''" s]
    by (auto simp: auto_order_def split: sum.split prod.split) (metis fst_conv)+
  have quantity: "ct_lastSignals (runtime r (fst (auto_sell_quantity w r symbol s))) = ct_lastSignals (runtime r s)"
    using signals_balance [of w r "baseOf symbol" s] by (auto simp: auto_sell_quantity_def split: sum.split prod.split)
  obtain s1 q where "auto_sell_quantity w r symbol s = (s1, q)" by fastforce
  with order quantity show ?thesis by (auto simp: autoTrade_def split: option.split)
qed


definition sample_point :: "rat \<Rightarrow> price_point" where
  "sample_point x = \<lparr> pp_price = Num x, pp_change24h = JNull, pp_source = Binance, pp_timestamp = 0 \<rparr>"

definition alert_crypto :: crypto where
  "alert_crypto = sample_crypto\<lparr> cy_store := (\<lambda>_. new_runtime
     (config_of NaN JNull [''BTCUSDT''] (JObj [(''upThreshold'', JNum (Num 100)), (''autoTrade'', JBool True)])) sample_feed True
     (new_guard ''dry'' (Num 1) True JUndef) [(''BTCUSDT'', sample_point 90)] empty_dry_state new_ledger) \<rparr>"


end
