(* ===== verification/WorkerJobs.thy ===== *)
theory WorkerJobs
  imports WorkerActions Reconnects "HOL-Library.Multiset"
begin

text \<open>
  The control jobs of a worker and the start of its bots: packages/workers/src/base-worker.ts, \<open>mapLimit\<close>
  as the machine of its runners, \<open>processJob\<close>, \<open>autoStartBots\<close> and \<open>disconnectAll\<close>. What the database
  and the platform answer are arguments. A replay is \<open>EventFunnel\<close>.
\<close>

section \<open>mapLimit\<close>

text \<open>
  A runner is between two items, works on one, has ended because no item was left, or has been stopped
  by an item whose function rejected.
\<close>

datatype runner = Ready | Busy nat | Finished | Stopped nat

record 'r map_limit =
  ml_next :: nat
  ml_runners :: "runner list"
  ml_results :: "(nat \<times> 'r) list"

datatype 'r ml_event = Proceeds nat | Resolves nat 'r | Rejects nat

definition ml_start :: "nat \<Rightarrow> nat \<Rightarrow> 'r map_limit" where
  "ml_start limit n = \<lparr> ml_next = 0, ml_runners = replicate (min limit n) Ready, ml_results = [] \<rparr>"

definition set_runner :: "nat \<Rightarrow> runner \<Rightarrow> 'r map_limit \<Rightarrow> 'r map_limit" where
  "set_runner k r s = s\<lparr> ml_runners := (ml_runners s)[k := r] \<rparr>"

definition runner_at :: "'r map_limit \<Rightarrow> nat \<Rightarrow> runner option" where
  "runner_at s k = (if k < length (ml_runners s) then Some (ml_runners s ! k) else None)"

text \<open>Events of runners that are not in the state for them do not happen.\<close>

fun ml_step :: "nat \<Rightarrow> 'r ml_event \<Rightarrow> 'r map_limit \<Rightarrow> 'r map_limit" where
  "ml_step n (Proceeds k) s =
     (if runner_at s k = Some Ready
      then if ml_next s < n then (set_runner k (Busy (ml_next s)) s)\<lparr> ml_next := ml_next s + 1 \<rparr>
           else set_runner k Finished s
      else s)"
| "ml_step n (Resolves k r) s =
     (case runner_at s k of
        Some (Busy i) \<Rightarrow> (set_runner k Ready s)\<lparr> ml_results := (i, r) # ml_results s \<rparr>
      | _ \<Rightarrow> s)"
| "ml_step n (Rejects k) s =
     (case runner_at s k of
        Some (Busy i) \<Rightarrow> set_runner k (Stopped i) s
      | _ \<Rightarrow> s)"

definition ml_run :: "nat \<Rightarrow> 'r ml_event list \<Rightarrow> 'r map_limit \<Rightarrow> 'r map_limit" where
  "ml_run n es s = fold (ml_step n) es s"

section \<open>Jobs\<close>

definition RUN_STATUSES :: "string list" where
  "RUN_STATUSES = [''running'', ''connecting'', ''reconnecting'']"

text \<open>The bot of a job: on the job, else in its data.\<close>

definition job_bot :: "json \<Rightarrow> string option" where
  "job_bot job =
     (case get_prop job ''botId'' of
        JStr (c # cs) \<Rightarrow> Some (c # cs)
      | JStr [] \<Rightarrow> None
      | _ \<Rightarrow> (case get_prop (get_prop job ''data'') ''botId'' of JStr (c # cs) \<Rightarrow> Some (c # cs) | _ \<Rightarrow> None))"

text \<open>\<open>db\<close> is the status that the database has for the bot, if it has the bot.\<close>

definition should_run :: "string option \<Rightarrow> bool" where
  "should_run db \<longleftrightarrow> (case db of None \<Rightarrow> True | Some st \<Rightarrow> st = [] \<or> st \<in> set RUN_STATUSES)"

definition connect_or_retry :: "services \<Rightarrow> chance \<Rightarrow> ms \<Rightarrow> string \<Rightarrow> db_read \<Rightarrow> worker \<Rightarrow> worker" where
  "connect_or_retry sv c now b row w =
     (case connect_bot sv now b row w of
        (w, None) \<Rightarrow> w
      | (w, Some e) \<Rightarrow> fst (scheduleReconnect c now b None (ensureBot b w)))"

definition connect_job :: "services \<Rightarrow> chance \<Rightarrow> ms \<Rightarrow> bool \<Rightarrow> string option \<Rightarrow> string \<Rightarrow> db_read \<Rightarrow> worker \<Rightarrow> worker" where
  "connect_job sv c now live db b row w =
     (if map_option be_status (jget (wk_bots w) b) = Some ''connecting'' then w
      else if \<not> should_run db then w
      else if db = Some ''reconnecting'' then connect_or_retry sv c now b row (drop_timer b w)
      else if live \<or> jget (wk_timers w) b \<noteq> None then w
      else connect_or_retry sv c now b row w)"

text \<open>The platform's \<open>disconnect\<close> works on the worker and may throw.\<close>

type_synonym disconnects = "string \<Rightarrow> worker \<Rightarrow> worker \<times> string option"

definition disconnect_job :: "disconnects \<Rightarrow> string option \<Rightarrow> string \<Rightarrow> worker \<Rightarrow> worker \<times> string option" where
  "disconnect_job disconnect db b w =
     (case db of
        Some st \<Rightarrow> if st \<in> set RUN_STATUSES then (w, None) else disconnect b w
      | None \<Rightarrow> disconnect b w)"

text \<open>What a job meets outside.\<close>

record job_world =
  jw_services :: services
  jw_chance :: chance
  jw_now :: ms
  jw_live :: "string \<Rightarrow> bool"
  jw_status :: "string \<Rightarrow> string option"
  jw_row :: "string \<Rightarrow> db_read"
  jw_disconnect :: disconnects
  jw_texts :: texts
  jw_action :: action_run
  jw_update :: "string \<Rightarrow> json \<Rightarrow> worker \<Rightarrow> worker \<times> string option"
  jw_replay :: "json \<Rightarrow> worker \<Rightarrow> worker \<times> string option"

definition failure :: "string + 'a \<Rightarrow> string option" where
  "failure r = (case r of Inl m \<Rightarrow> Some m | Inr _ \<Rightarrow> None)"

text \<open>The text of an error that a job ends with, if it throws; the names of the queue are left out of it.\<close>

definition processJob :: "job_world \<Rightarrow> json \<Rightarrow> worker \<Rightarrow> worker \<times> string option" where
  "processJob jw job w =
     (let type = get_prop job ''type''; data = get_prop job ''data''
      in if \<not> wk_isLeader w then (w, Some ''Not the leader; requeuing job'')
         else if type = JStr ''connect''
         then (case job_bot job of
                 None \<Rightarrow> (w, Some ''Connect job missing botId'')
               | Some b \<Rightarrow> (connect_job (jw_services jw) (jw_chance jw) (jw_now jw) (jw_live jw b) (jw_status jw b) b (jw_row jw b) w, None))
         else if type = JStr ''disconnect''
         then (case get_prop job ''botId'' of
                 JStr b \<Rightarrow> disconnect_job (jw_disconnect jw) (jw_status jw b) b w
               | _ \<Rightarrow> (w, Some ''Disconnect job without botId''))
         else if type = JStr ''execute''
         then (case job_bot job of
                 None \<Rightarrow> (w, Some ''Execute job missing botId'')
               | Some b \<Rightarrow>
                   (case get_prop data ''type'' of
                      JStr a \<Rightarrow> (case executeRateLimited (jw_texts jw) (jw_action jw) b a w of (w, res) \<Rightarrow> (w, failure res))
                    | _ \<Rightarrow> (w, Some ''Execute job without type'')))
         else if type = JStr ''update''
         then (case job_bot job of
                 None \<Rightarrow> (w, Some ''Update job missing botId'')
               | Some b \<Rightarrow> jw_update jw b data w)
         else if type = JStr ''event'' then jw_replay jw data w
         else (w, None))"

text \<open>A job that failed for good, without its credentials.\<close>

definition moveToDlq :: "string \<Rightarrow> json \<Rightarrow> string \<Rightarrow> json \<Rightarrow> string \<times> json" where
  "moveToDlq platform job failedReason queue =
     (let data = nullish_or (get_prop job ''data'') (JObj [])
      in (''dlq-'' @ platform @ ''-'' @ (case get_prop job ''id'' of JStr i \<Rightarrow> i | _ \<Rightarrow> ''undefined''),
          JObj [(''originalQueue'', queue), (''jobId'', get_prop job ''id''), (''name'', get_prop job ''name''),
            (''type'', nullish_or (get_prop data ''type'') JNull), (''botId'', nullish_or (get_prop data ''botId'') JNull),
            (''payload'', nullish_or (get_prop data ''data'') JNull), (''failedReason'', JStr failedReason),
            (''attemptsMade'', nullish_or (get_prop job ''attemptsMade'') (JNum (Num 0))), (''timestamp'', get_prop job ''timestamp'')]))"

section \<open>Starting and stopping all bots\<close>

definition AUTO_START_CONCURRENCY :: nat where "AUTO_START_CONCURRENCY = 5"

record stored_bot =
  sb_id :: string
  sb_rateLimitPerMinute :: "int option"
  sb_rateLimitBudgets :: json

definition start_entry :: "stored_bot \<Rightarrow> bot_entry \<Rightarrow> bot_entry" where
  "start_entry sb e =
     (let e = e\<lparr> be_status := ''connecting'',
              be_rateLimitPerMinute := sb_rateLimitPerMinute sb \<rparr>
      in if is_object (sb_rateLimitBudgets sb) \<and> sb_rateLimitBudgets sb \<noteq> JNull
         then e\<lparr> be_rateLimitBudgets := Some (sb_rateLimitBudgets sb) \<rparr> else e)"

text \<open>One bot: the worker, and whether the function rejects.\<close>

definition auto_start_one :: "job_world \<Rightarrow> (connect_error \<Rightarrow> string) \<Rightarrow> stored_bot \<Rightarrow> worker \<Rightarrow> worker \<times> bool" where
  "auto_start_one jw show sb w =
     (let b = sb_id sb; sv = jw_services jw; now = jw_now jw
      in if jw_live jw b then (w, False)
         else if jget (wk_timers w) b \<noteq> None then (w, False)
         else case canAttempt CIRCUIT_OPTIONS now now (getCircuitBreaker b w) of
                (br, ok) \<Rightarrow>
                  let w = set_breaker b br w
                  in if \<not> ok then (w, False)
                     else case buildCredentials (sv_decrypt sv) (sv_sanitize sv) (sv_day sv) now b (jw_row jw b) w of
                            (w, Inl e) \<Rightarrow> (w, True)
                          | (w, Inr cr) \<Rightarrow>
                              (case applyProxy now b cr w of
                                 (w, cr) \<Rightarrow>
                                   (case sv_connect sv now cr (map_entry b (start_entry sb) (ensureBot b w)) of
                                      (w, None) \<Rightarrow> (w, False)
                                    | (w, Some e) \<Rightarrow>
                                        (case scheduleReconnect (jw_chance jw) now b (cr_behavior cr)
                                            (markDisconnected b (Some (''Auto-start failed: '' @ show e)) w) of
                                           (w, out) \<Rightarrow> (w, out = ClockThrows)))))"

definition auto_stop_one :: "job_world \<Rightarrow> string \<Rightarrow> worker \<Rightarrow> worker \<times> bool" where
  "auto_stop_one jw b w = (if jw_live jw b then (fst (jw_disconnect jw b w), False) else (w, False))"

text \<open>The runners of \<open>mapLimit\<close> when each bot is done before the next one begins: a rejection ends a runner.\<close>

fun with_runners :: "nat \<Rightarrow> ('x \<Rightarrow> worker \<Rightarrow> worker \<times> bool) \<Rightarrow> 'x list \<Rightarrow> worker \<Rightarrow> worker \<times> bool" where
  "with_runners n f [] w = (w, False)"
| "with_runners n f (x # xs) w =
     (if n = 0 then (w, False)
      else case f x w of
             (w, True) \<Rightarrow> (fst (with_runners (n - 1) f xs w), True)
           | (w, False) \<Rightarrow> with_runners n f xs w)"

definition autoStartBots :: "job_world \<Rightarrow> (connect_error \<Rightarrow> string) \<Rightarrow> stored_bot list \<Rightarrow> string list \<Rightarrow> worker \<Rightarrow> worker" where
  "autoStartBots jw show toStart toStop w =
     (let (w, rejected) = with_runners (min AUTO_START_CONCURRENCY (length toStop)) (auto_stop_one jw) toStop w
      in if rejected then w
         else fst (with_runners (min AUTO_START_CONCURRENCY (length toStart)) (auto_start_one jw show) toStart w))"

text \<open>
  The part of a platform's \<open>disconnect\<close> that is the worker's: the session platforms only mark the bot, the
  Telegram and crypto workers forget it before.
\<close>

definition marking_disconnect :: disconnects where
  "marking_disconnect b w = (markDisconnected b None w, None)"

definition forgetting_disconnect :: disconnects where
  "forgetting_disconnect b w = (markDisconnected b None ((drop_timer b w)\<lparr> wk_bots := jdel b (wk_bots w) \<rparr>), None)"

definition clearReconnectTimers :: "worker \<Rightarrow> worker" where
  "clearReconnectTimers w = w\<lparr> wk_timers := [] \<rparr>"

definition disconnectAll :: "disconnects \<Rightarrow> worker \<Rightarrow> worker" where
  "disconnectAll disconnect w =
     (fold (\<lambda>b w. fst (disconnect b w)) (jkeys (wk_bots w)) w)\<lparr> wk_breakers := [], wk_health := [] \<rparr>"

text \<open>Losing the lead: no timers, and every bot is handed over.\<close>

definition lose_leadership :: "disconnects \<Rightarrow> worker \<Rightarrow> worker" where
  "lose_leadership disconnect w =
     (disconnectAll disconnect ((clearReconnectTimers (w\<lparr> wk_isLeader := False \<rparr>))\<lparr> wk_isLosing := True \<rparr>))\<lparr> wk_isLosing := False \<rparr>"

section \<open>Health scores\<close>

text \<open>The numbers that are published for a bot; the text of the score's clock is left out.\<close>

record health_payload =
  hp_score :: jsnum
  hp_status :: string
  hp_uptimeSeconds :: int
  hp_counts :: "nat list"
  hp_volume :: jsnum

definition health_payload_of :: "ms \<Rightarrow> tracker \<Rightarrow> bot_entry \<Rightarrow> tracker \<times> health_payload" where
  "health_payload_of now h e =
     (case getScore now h of
        (h, score) \<Rightarrow>
          (h, \<lparr> hp_score = jround score, hp_status = be_status e,
                hp_uptimeSeconds = (case be_connectedAt e of None \<Rightarrow> 0 | Some t \<Rightarrow> max 0 ((now - t) div 1000)),
                hp_counts = [be_actionsSuccess e, be_actionsFailed e, be_reconnectAttempts e, be_scriptExecutions e,
                  be_scriptErrors e, be_cryptoOrders e, be_cryptoFills e, be_cryptoOrderErrors e],
                hp_volume = be_cryptoVolumeUsdt e \<rparr>))"

definition publish_one :: "ms \<Rightarrow> string \<times> bot_entry \<Rightarrow> worker \<times> (string \<times> health_payload) list \<Rightarrow> worker \<times> (string \<times> health_payload) list" where
  "publish_one now be st =
     (case (be, st) of ((b, e), (w, out)) \<Rightarrow>
        (case health_payload_of now (getHealth b w) e of (h, p) \<Rightarrow> (set_health b h w, out @ [(b, p)])))"

definition publishHealthScores :: "ms \<Rightarrow> worker \<Rightarrow> worker \<times> (string \<times> health_payload) list" where
  "publishHealthScores now w = fold (publish_one now) (wk_bots w) (w, [])"

section \<open>mapLimit covers its items\<close>

fun runner_items :: "runner \<Rightarrow> nat multiset" where
  "runner_items (Busy i) = {#i#}"
| "runner_items (Stopped i) = {#i#}"
| "runner_items _ = {#}"

fun stopped :: "runner \<Rightarrow> bool" where
  "stopped (Stopped i) = True"
| "stopped _ = False"

fun ended :: "runner \<Rightarrow> bool" where
  "ended (Stopped i) = True"
| "ended Finished = True"
| "ended _ = False"

definition ml_items :: "'r map_limit \<Rightarrow> nat multiset" where
  "ml_items s = mset (map fst (ml_results s)) + sum_list (map runner_items (ml_runners s))"

definition ml_ok :: "nat \<Rightarrow> nat \<Rightarrow> 'r map_limit \<Rightarrow> bool" where
  "ml_ok limit n s \<longleftrightarrow> ml_items s = mset [0..<ml_next s] \<and> ml_next s \<le> n \<and> length (ml_runners s) = min limit n \<and>
     (Finished \<in> set (ml_runners s) \<longrightarrow> ml_next s = n)"

lemma sum_list_set_nth:
  "k < length xs \<Longrightarrow> sum_list (map f (xs[k := x])) + f (xs ! k) = sum_list (map f xs) + (f x :: 'a :: comm_monoid_add)"
proof (induction xs arbitrary: k)
  case (Cons y xs)
  then show ?case by (cases k) (simp_all add: ac_simps)
qed simp

lemma items_set_runner:
  "runner_at s k = Some r \<Longrightarrow> ml_items (set_runner k r' s) + runner_items r = ml_items s + runner_items r'"
  using sum_list_set_nth [of k "ml_runners s" runner_items r']
  by (auto simp: runner_at_def ml_items_def set_runner_def ac_simps split: if_splits)

lemma items_update [simp]:
  "ml_items (s\<lparr> ml_next := m \<rparr>) = ml_items s" "ml_items (s\<lparr> ml_results := p # ml_results s' \<rparr>) =
     add_mset (fst p) (ml_items (s\<lparr> ml_results := ml_results s' \<rparr>))"
  by (simp_all add: ml_items_def)

lemma ml_ok_start: "ml_ok limit n (ml_start limit n)"
proof -
  have "sum_list (map runner_items (replicate m Ready)) = {#}" for m by (induction m) simp_all
  then show ?thesis by (simp add: ml_ok_def ml_start_def ml_items_def)
qed

lemma finished_set_runner: "Finished \<in> set (ml_runners (set_runner k r s)) \<Longrightarrow> r \<noteq> Finished \<Longrightarrow> Finished \<in> set (ml_runners s)"
  using set_update_subset_insert [of "ml_runners s" k r] by (auto simp: set_runner_def)

lemma ml_ok_step: "ml_ok limit n s \<Longrightarrow> ml_ok limit n (ml_step n e s)"
proof (cases e)
  case (Proceeds k)
  assume s: "ml_ok limit n s"
  show ?thesis
  proof (cases "runner_at s k = Some Ready")
    case True
    have next_set: "ml_next (set_runner k r s) = ml_next s" "length (ml_runners (set_runner k r s)) = length (ml_runners s)" for r
      by (simp_all add: set_runner_def)
    from items_set_runner [OF True] s Proceeds finished_set_runner [of k _ s] show ?thesis
      by (auto simp: True ml_ok_def next_set upt_Suc simp del: mset_upt)
  qed (use s Proceeds in simp)
next
  case (Resolves k r)
  assume s: "ml_ok limit n s"
  show ?thesis
  proof (cases "\<exists>i. runner_at s k = Some (Busy i)")
    case True
    then obtain i where i: "runner_at s k = Some (Busy i)" ..
    have "ml_results (set_runner k Ready s) = ml_results s" by (simp add: set_runner_def)
    then have "ml_items ((set_runner k Ready s)\<lparr> ml_results := (i, r) # ml_results s \<rparr>) = add_mset i (ml_items (set_runner k Ready s))"
      by (simp add: ml_items_def)
    with items_set_runner [OF i, of Ready] s Resolves finished_set_runner [of k Ready s] show ?thesis
      by (auto simp: i ml_ok_def) (simp_all add: set_runner_def)
  qed (use s Resolves in \<open>auto split: option.split runner.split\<close>)
next
  case (Rejects k)
  assume s: "ml_ok limit n s"
  show ?thesis
  proof (cases "\<exists>i. runner_at s k = Some (Busy i)")
    case True
    then obtain i where i: "runner_at s k = Some (Busy i)" ..
    from items_set_runner [OF i, of "Stopped i"] s Rejects finished_set_runner [of k "Stopped i" s] show ?thesis
      by (auto simp: i ml_ok_def) (simp_all add: set_runner_def)
  qed (use s Rejects in \<open>auto split: option.split runner.split\<close>)
qed

lemma ml_ok_run: "ml_ok limit n s \<Longrightarrow> ml_ok limit n (ml_run n es s)"
  unfolding ml_run_def by (induction es arbitrary: s) (simp_all add: ml_ok_step)

definition busy :: "'r map_limit \<Rightarrow> nat" where
  "busy s = length (filter (\<lambda>r. case r of Busy i \<Rightarrow> True | _ \<Rightarrow> False) (ml_runners s))"

lemma ended_items:
  "list_all ended rs \<Longrightarrow> \<not> list_ex stopped rs \<Longrightarrow> sum_list (map runner_items rs) = {#}"
proof (induction rs)
  case (Cons r rs)
  then show ?case by (cases r) simp_all
qed simp

lemma ended_unfinished:
  "list_all ended rs \<Longrightarrow> Finished \<notin> set rs \<Longrightarrow> list_all stopped rs"
proof (induction rs)
  case (Cons r rs)
  then show ?case by (cases r) simp_all
qed simp

text \<open>
  Whatever the order in which the functions settle, \<open>mapLimit\<close> has at most the limit of items under
  way, has taken every item in turn and each exactly once, and ends with a result for every item exactly
  once when no function rejects. When it ends with items left, every runner was stopped by a rejection.
\<close>

lemma map_limit_covers:
  assumes "s = ml_run n es (ml_start limit n)"
  shows "busy s \<le> limit \<and> mset (map fst (ml_results s)) + sum_list (map runner_items (ml_runners s)) = mset [0..<ml_next s] \<and>
    (0 < limit \<and> list_all ended (ml_runners s) \<and> \<not> list_ex stopped (ml_runners s) \<longrightarrow>
       mset (map fst (ml_results s)) = mset [0..<n]) \<and>
    (list_all ended (ml_runners s) \<and> ml_next s < n \<longrightarrow>
       list_all stopped (ml_runners s) \<and> length (ml_runners s) = min limit n)"
proof -
  have ok: "ml_ok limit n s" using ml_ok_run [OF ml_ok_start] assms by simp
  have "busy s \<le> length (ml_runners s)" by (simp add: busy_def)
  with ok have "busy s \<le> limit" by (simp add: ml_ok_def)
  moreover have items: "mset (map fst (ml_results s)) + sum_list (map runner_items (ml_runners s)) = mset [0..<ml_next s]"
    using ok by (simp add: ml_ok_def ml_items_def)
  moreover have "mset (map fst (ml_results s)) = mset [0..<n]"
    if "0 < limit" "list_all ended (ml_runners s)" "\<not> list_ex stopped (ml_runners s)"
  proof -
    have "ml_next s = n"
    proof (cases "n = 0")
      case False
      with ok that(1) have "ml_runners s \<noteq> []" by (auto simp: ml_ok_def)
      then have "Finished \<in> set (ml_runners s)"
        using ended_unfinished [OF that(2)] that(3) by (cases "ml_runners s") (auto simp: list_ex_iff list_all_iff)
      with ok show ?thesis by (simp add: ml_ok_def)
    qed (use ok in \<open>simp add: ml_ok_def\<close>)
    with items ended_items [OF that(2,3)] show ?thesis by simp
  qed
  moreover have "list_all stopped (ml_runners s)" if "list_all ended (ml_runners s)" "ml_next s < n"
    using ended_unfinished [OF that(1)] that(2) ok by (auto simp: ml_ok_def)
  ultimately show ?thesis using ok by (simp add: ml_ok_def)
qed

lemma map_limit_covers_witness:
  "\<exists>s. s = ml_run 3 [Proceeds 0, Proceeds 1, Resolves 1 ''b'', Proceeds 1, Resolves 0 ''a'', Resolves 1 ''c'', Proceeds 0, Proceeds 1]
       (ml_start 2 3) \<and> mset (map fst (ml_results s)) = mset [0..<3]"
  using map_limit_covers [of _ 3 "[Proceeds 0, Proceeds 1, Resolves 1 ''b'', Proceeds 1, Resolves 0 ''a'', Resolves 1 ''c'', Proceeds 0, Proceeds 1]" 2]
  by (simp add: ml_run_def ml_start_def runner_at_def set_runner_def numeral_2_eq_2)

text \<open>Five items that reject keep the items after them from being begun.\<close>

lemma rejections_end_runners:
  "length xs = n \<Longrightarrow> \<forall>x\<in>set xs. \<forall>w. snd (f x w) \<Longrightarrow> with_runners n f (xs @ ys) w = with_runners n f xs w"
proof (induction xs arbitrary: n w)
  case (Cons x xs)
  obtain w' where "f x w = (w', True)" using Cons.prems(2) by (metis (full_types) list.set_intros(1) prod.collapse)
  moreover obtain m where "n = Suc m" using Cons.prems(1) by auto
  ultimately show ?case using Cons by simp
qed (cases ys; simp)

lemma no_rejection_all:
  "0 < n \<Longrightarrow> (\<And>x w. x \<in> set xs \<Longrightarrow> \<not> snd (f x w)) \<Longrightarrow> with_runners n f xs w = (fold (\<lambda>x w. fst (f x w)) xs w, False)"
proof (induction xs arbitrary: w)
  case (Cons x xs)
  obtain w' where "f x w = (w', False)" using Cons.prems(2) [of x w] by (metis (full_types) list.set_intros(1) prod.collapse)
  then show ?case using Cons by simp
qed simp

section \<open>Restarts\<close>

lemma schedule_status:
  assumes "map_of (wk_bots w) b = Some e" and "be_reconnectAttempts e < 10"
  shows "\<exists>e'. map_of (wk_bots (fst (scheduleReconnect c now b bh w))) b = Some e' \<and> be_status e' = be_status e"
  using assms by (auto simp: scheduleReconnect_def Let_def MAX_RECONNECT_ATTEMPTS_def split: option.split prod.split)

text \<open>
  A restart does not override a pending reconnect: when a connect job has failed, its timer is set and the
  bot stays \<open>connecting\<close>, and every connect job, also the one of a restart, leaves the worker as it is until then.
\<close>

lemma restart_ignored:
  assumes "connect_bot sv now b row w = (w1, Some e)"
    and "case jget (wk_bots w1) b of None \<Rightarrow> True | Some x \<Rightarrow> be_status x = ''connecting'' \<and> be_reconnectAttempts x < 10"
    and "cb_state (getCircuitBreaker b w1) = Open \<longrightarrow> openedAt (getCircuitBreaker b w1) \<le> now"
    and "w2 = connect_or_retry sv c now b row w"
  shows "(\<exists>due>now. jget (wk_timers w2) b = Some \<lparr> rt_due = due, rt_live = True \<rparr>) \<and>
    connect_job sv' c' now' live db b row' w2 = w2"
proof -
  let ?w = "ensureBot b w1"
  have entry: "map_of (wk_bots ?w) b = Some (entry_of b w1)" by (rule ensureBot_bots)
  have e: "be_status (entry_of b w1) = ''connecting''" "be_reconnectAttempts (entry_of b w1) < 10"
    using assms(2) by (auto simp: entry_of_def jget_or_def new_entry_def split: option.splits)
  obtain out where w2: "scheduleReconnect c now b None ?w = (w2, out)" "out \<noteq> ClockThrows"
    using assms(1,4) schedule_no_clock [of c now b ?w] by (cases "scheduleReconnect c now b None ?w") (auto simp: connect_or_retry_def)
  have breaker: "getCircuitBreaker b ?w = getCircuitBreaker b w1" by (simp add: getCircuitBreaker_def)
  have "\<exists>due. now < due \<and> due \<le> now + 2147483647 \<and> waiting b (be_reconnectAttempts (entry_of b w1) + 1) due w2"
    using schedule_waits [OF entry e(2) _ w2] assms(3) by (simp add: breaker)
  moreover have "map_option be_status (jget (wk_bots w2) b) = Some ''connecting''"
    using schedule_status [OF entry e(2), of c now None] w2(1) e(1) by auto
  ultimately show ?thesis by (auto simp: waiting_def connect_job_def)
qed

section \<open>Handing the bots over\<close>

text \<open>What the worker relies on of the platform's \<open>disconnect\<close>, when it works: the bot is marked, no other is touched.\<close>

locale platform_disconnect =
  fixes disconnect :: disconnects
  assumes marks: "wk_out (fst (disconnect b w)) =
      wk_out w @ [DbStatus b (if wk_isLosing w then ''reconnecting'' else ''idle'') None,
        StatusWebhook b (if wk_isLosing w then ''reconnecting'' else ''idle'') None]"
    and losing_kept: "wk_isLosing (fst (disconnect b w)) = wk_isLosing w"
    and leader_kept: "wk_isLeader (fst (disconnect b w)) = wk_isLeader w"
    and no_timer: "wk_timers w = [] \<Longrightarrow> wk_timers (fst (disconnect b w)) = []"
    and entry_down: "map_option be_status (jget (wk_bots (fst (disconnect b w))) b)
        \<in> {None, Some (if wk_isLosing w then ''reconnecting'' else ''idle'')}"
    and others: "b' \<noteq> b \<Longrightarrow> jget (wk_bots (fst (disconnect b w))) b' = jget (wk_bots w) b'"
begin

abbreviation all_down :: "string list \<Rightarrow> worker \<Rightarrow> worker" where
  "all_down bs w \<equiv> fold (\<lambda>b w. fst (disconnect b w)) bs w"

lemma all_down_flags:
  "wk_isLosing (all_down bs w) = wk_isLosing w" "wk_isLeader (all_down bs w) = wk_isLeader w"
  "wk_timers w = [] \<Longrightarrow> wk_timers (all_down bs w) = []"
  by (induction bs arbitrary: w) (simp_all add: losing_kept leader_kept no_timer)

lemma all_down_out:
  "wk_out (all_down bs w) = wk_out w @ concat (map (\<lambda>b.
     [DbStatus b (if wk_isLosing w then ''reconnecting'' else ''idle'') None,
      StatusWebhook b (if wk_isLosing w then ''reconnecting'' else ''idle'') None]) bs)"
  by (induction bs arbitrary: w) (simp_all add: marks losing_kept)

lemma all_down_others: "b \<notin> set bs \<Longrightarrow> jget (wk_bots (all_down bs w)) b = jget (wk_bots w) b"
  by (induction bs arbitrary: w) (simp_all add: others)

lemma all_down_entries:
  "b \<in> set bs \<Longrightarrow> map_option be_status (jget (wk_bots (all_down bs w)) b) \<in>
     {None, Some (if wk_isLosing w then ''reconnecting'' else ''idle'')}"
proof (induction bs rule: rev_induct)
  case (snoc x bs)
  show ?case
  proof (cases "b = x")
    case True
    then show ?thesis using entry_down [of x "all_down bs w"] by (simp add: all_down_flags)
  next
    case False
    with snoc show ?thesis by (simp add: others)
  qed
qed simp

lemma handed_over:
  "wk_out (lose_leadership disconnect w) = wk_out w @ concat (map (\<lambda>b.
     [DbStatus b ''reconnecting'' None, StatusWebhook b ''reconnecting'' None]) (jkeys (wk_bots w))) \<and>
   wk_timers (lose_leadership disconnect w) = [] \<and> \<not> wk_isLeader (lose_leadership disconnect w) \<and>
   \<not> wk_isLosing (lose_leadership disconnect w) \<and>
   (\<forall>b e. jget (wk_bots (lose_leadership disconnect w)) b = Some e \<longrightarrow> be_status e = ''reconnecting'')"
proof -
  let ?w = "(clearReconnectTimers (w\<lparr> wk_isLeader := False \<rparr>))\<lparr> wk_isLosing := True \<rparr>"
  let ?s = "all_down (jkeys (wk_bots w)) ?w"
  have lose: "lose_leadership disconnect w = ?s\<lparr> wk_breakers := [], wk_health := [], wk_isLosing := False \<rparr>"
    by (simp add: lose_leadership_def disconnectAll_def clearReconnectTimers_def)
  have "be_status e = ''reconnecting''" if e: "jget (wk_bots ?s) b = Some e" for b e
  proof (cases "b \<in> set (jkeys (wk_bots w))")
    case True
    from all_down_entries [OF this, of ?w] e show ?thesis by simp
  next
    case False
    from all_down_others [OF this, of ?w] e have "jget (wk_bots w) b = Some e" by (simp add: clearReconnectTimers_def)
    with False show ?thesis by (metis map_of_eq_None_iff option.distinct(1) set_map)
  qed
  then show ?thesis unfolding lose by (simp add: all_down_out all_down_flags clearReconnectTimers_def)
qed

end

interpretation marking: platform_disconnect marking_disconnect
  by unfold_locales (auto simp: marking_disconnect_def markDisconnected_def Let_def emits_def map_entry_def split: option.split)

interpretation forgetting: platform_disconnect forgetting_disconnect
  by unfold_locales (auto simp: forgetting_disconnect_def markDisconnected_def Let_def emits_def map_entry_def drop_timer_def split: option.split)

text \<open>
  A worker that loses the lead leaves no timer and no bot in another status than \<open>reconnecting\<close>, and reports
  exactly this status to the database, once for every bot it had, so that the next leader starts all of them.
\<close>

theorem bots_handed_over:
  "\<forall>disconnect \<in> {marking_disconnect, forgetting_disconnect}.
     wk_out (lose_leadership disconnect w) = wk_out w @ concat (map (\<lambda>b.
       [DbStatus b ''reconnecting'' None, StatusWebhook b ''reconnecting'' None]) (jkeys (wk_bots w))) \<and>
     wk_timers (lose_leadership disconnect w) = [] \<and> \<not> wk_isLeader (lose_leadership disconnect w) \<and>
     (\<forall>b e. jget (wk_bots (lose_leadership disconnect w)) b = Some e \<longrightarrow> be_status e = ''reconnecting'') \<and>
     ''reconnecting'' \<in> set RUN_STATUSES"
  using marking.handed_over [of w] forgetting.handed_over [of w] by (simp add: RUN_STATUSES_def)

lemma restart_ignored_witness:
  "\<forall>sv c. \<exists>w. (\<exists>due>0. jget (wk_timers w) ''b'' = Some \<lparr> rt_due = due, rt_live = True \<rparr>) \<and>
     connect_job sv c 5000 False (Some ''reconnecting'') ''b'' (DbRow None) w = w"
proof (intro allI)
  fix sv c
  have "jget (wk_bots new_worker) ''b'' = None" "cb_state (getCircuitBreaker ''b'' new_worker) = Closed"
    by (simp_all add: new_worker_def getCircuitBreaker_def new_breaker_def jget_or_def)
  moreover have "connect_bot sv 0 ''b'' DbRejects new_worker = (new_worker, Some DbFailed)"
    by (simp add: connect_bot_def buildCredentials_def)
  ultimately show "\<exists>w. (\<exists>due>0. jget (wk_timers w) ''b'' = Some \<lparr> rt_due = due, rt_live = True \<rparr>) \<and>
      connect_job sv c 5000 False (Some ''reconnecting'') ''b'' (DbRow None) w = w"
    using restart_ignored [of sv 0 "''b''" DbRejects new_worker new_worker DbFailed
        "connect_or_retry sv c 0 ''b'' DbRejects new_worker" c sv c 5000 False "Some ''reconnecting''" "DbRow None"]
    by auto
qed

lemma bots_handed_over_witness:
  "\<exists>e. jget (wk_bots (lose_leadership marking_disconnect (ensureBot ''b'' new_worker))) ''b'' = Some e \<and> be_status e = ''reconnecting''"
proof -
  have "jget (wk_bots (lose_leadership marking_disconnect (ensureBot ''b'' new_worker))) ''b'' \<noteq> None"
    by (simp add: lose_leadership_def disconnectAll_def clearReconnectTimers_def marking_disconnect_def markDisconnected_def
        Let_def emits_def map_entry_def ensureBot_def new_worker_def)
  with bots_handed_over [of "ensureBot ''b'' new_worker"] show ?thesis by auto
qed

end
