(* ===== verification/CryptoLoop.thy ===== *)
theory CryptoLoop
  imports CryptoTrading WorkerJobs
begin

text \<open>
  The life of a trading bot: packages/workers/src/crypto/worker.ts, the polls with their failures, the
  reconciliation of live orders with the exchange, connecting and disconnecting. The answers of the
  outside world during one operation are a record.
\<close>

section \<open>The outside world\<close>

record live_world =
  lw_world :: crypto_world
  lw_account :: "thrown + balance_info list"
  lw_openOrders :: "thrown + json list"
  lw_status :: "string \<Rightarrow> string \<Rightarrow> thrown + order_result"
  lw_cancel :: "string \<Rightarrow> string \<Rightarrow> thrown + order_result"
  lw_random :: rat
  lw_chance :: chance
  lw_socketOk :: "string \<Rightarrow> bool"
  lw_parse :: "string \<Rightarrow> json option"
  lw_parseSnapshot :: "string \<Rightarrow> ledger_snapshot option option"
  lw_envMax :: jsnum

abbreviation lw_now :: "live_world \<Rightarrow> ms" where
  "lw_now lw \<equiv> cw_now (lw_world lw)"

fun thrown_text :: "thrown \<Rightarrow> string" where
  "thrown_text (Crypto e) = ''CryptoError: '' @ ce_message e"
| "thrown_text (OtherError message) = ''Error: '' @ message"

fun json_text :: "json \<Rightarrow> string" where
  "json_text (JStr s) = s"
| "json_text _ = []"

section \<open>Live orders\<close>

definition order_id :: "json \<Rightarrow> string" where "order_id order = json_text (get_prop order ''clientOrderId'')"
definition order_symbol :: "json \<Rightarrow> string" where "order_symbol order = json_text (get_prop order ''symbol'')"

definition order_side :: "json \<Rightarrow> Ledger.side" where
  "order_side order = (if get_prop order ''side'' = JStr ''sell'' then Ledger.Sell else Ledger.Buy)"

text \<open>The average price of what was filled, else the price the exchange reports.\<close>

definition fill_price :: "crypto_world \<Rightarrow> order_result \<Rightarrow> jsnum \<Rightarrow> jsnum" where
  "fill_price w res qty =
     (if jgt qty (Num 0) then jdiv (cw_number w (os_cummulativeQuoteQty res)) qty else cw_number w (os_price res))"

definition settle_fill :: "crypto_world \<Rightarrow> nat \<Rightarrow> json \<Rightarrow> order_result \<Rightarrow> jsnum \<Rightarrow> crypto \<Rightarrow> crypto" where
  "settle_fill w r order res qty s =
     update_runtime r (update_ledger (applyReconciledFill (order_symbol order) (order_side order) qty (fill_price w res qty))) s"

definition drop_order :: "nat \<Rightarrow> json \<Rightarrow> crypto \<Rightarrow> crypto" where
  "drop_order r order s = update_runtime r (update_ledger (\<lambda>l. fst (removeOrder (order_id order) l))) s"

definition cancel_stale :: "live_world \<Rightarrow> string \<Rightarrow> nat \<Rightarrow> json \<Rightarrow> crypto \<Rightarrow> crypto" where
  "cancel_stale lw b r order s =
     (let w = lw_world lw
      in if jle (jsub (jint (cw_now w)) (json_num (get_prop order ''placedAt''))) (cc_orderTtlMs (ct_config (runtime r s))) then s
         else case lw_cancel lw (order_symbol order) (order_id order) of
                Inl err \<Rightarrow> s
              | Inr res \<Rightarrow>
                  let filledQty = number_or_0 w (os_executedQty res);
                      s = (if jgt filledQty (Num 0) then settle_fill w r order res filledQty s else s)
                  in refundUnfilled w b order filledQty (drop_order r order s))"

definition cancelStaleOrders :: "live_world \<Rightarrow> string \<Rightarrow> nat \<Rightarrow> crypto \<Rightarrow> crypto" where
  "cancelStaleOrders lw b r s =
     (if jle (cc_orderTtlMs (ct_config (runtime r s))) (Num 0) then s
      else fold (cancel_stale lw b r) (openOrdersList (ct_ledger (runtime r s))) s)"

fun order_missing :: "thrown \<Rightarrow> bool" where
  "order_missing (Crypto e) = (ce_binanceCode e = Some (JNum (Num (-2013))))"
| "order_missing (OtherError message) = False"

definition resolve_order :: "live_world \<Rightarrow> string \<Rightarrow> nat \<Rightarrow> string list \<Rightarrow> json \<Rightarrow> crypto \<Rightarrow> crypto" where
  "resolve_order lw b r openIds order s =
     (let w = lw_world lw
      in if order_id order \<in> set openIds then s
         else case lw_status lw (order_symbol order) (order_id order) of
                Inl err \<Rightarrow> if order_missing err then refundUnfilled w b order (Num 0) (drop_order r order s) else s
              | Inr res \<Rightarrow>
                  let s = drop_order r order s; qty = number_or_0 w (os_executedQty res)
                  in if os_status res = ''FILLED'' \<or> os_status res = ''PARTIALLY_FILLED''
                     then refundUnfilled w b order qty (settle_fill w r order res qty s)
                     else refundUnfilled w b order (Num 0) s)"

definition symbol_balances :: "balance_info list \<Rightarrow> string list \<Rightarrow> (string \<times> jsnum) list" where
  "symbol_balances balances symbols =
     fold (\<lambda>symbol out. case find (\<lambda>i. bi_asset i = JStr (baseOf symbol)) balances of
         Some i \<Rightarrow> jset symbol (bi_free i) out | None \<Rightarrow> out) symbols []"

definition warm_cache :: "ms \<Rightarrow> balance_info list \<Rightarrow> crypto_runtime \<Rightarrow> crypto_runtime" where
  "warm_cache now balances t =
     t\<lparr> ct_balanceCache := fold (\<lambda>i. jset (json_text (bi_asset i)) (bi_free i, now)) balances (ct_balanceCache t) \<rparr>"

definition reconcileLedger :: "live_world \<Rightarrow> string \<Rightarrow> nat \<Rightarrow> crypto \<Rightarrow> crypto" where
  "reconcileLedger lw b r s =
     (let t = runtime r s; w = lw_world lw
      in if cc_tradeMode (ct_config t) \<noteq> Live \<or> \<not> rg_hasKeys (ct_guard t) then s
         else let s = cancelStaleOrders lw b r s
              in case (lw_account lw, lw_openOrders lw) of
                   (Inr balances, Inr openList) \<Rightarrow>
                     let s = update_runtime r (update_ledger (reconcilePositions (symbol_balances balances (cc_symbols (ct_config t))))) s;
                         s = update_runtime r (warm_cache (cw_now w) balances) s;
                         openIds = filter (\<lambda>i. i \<noteq> []) (map order_id openList)
                     in save_ledger_of w b r
                          (fold (resolve_order lw b r openIds) (openOrdersList (ct_ledger (runtime r s))) s)
                 | _ \<Rightarrow> s)"

section \<open>Polls\<close>

definition RECONCILE_INTERVAL_MS :: ms where "RECONCILE_INTERVAL_MS = 60000"

fun eval_symbols :: "crypto_world \<Rightarrow> string \<Rightarrow> nat \<Rightarrow> (string, price_point) jmap \<Rightarrow> string list \<Rightarrow> crypto \<Rightarrow> crypto \<times> thrown option" where
  "eval_symbols w b r prices [] s = (s, None)"
| "eval_symbols w b r prices (symbol # symbols) s =
     (case jget prices symbol of
        None \<Rightarrow> eval_symbols w b r prices symbols s
      | Some point \<Rightarrow>
          (case evaluateSymbol w b r symbol point s of
             (s, Some err) \<Rightarrow> (s, Some err)
           | (s, None) \<Rightarrow> eval_symbols w b r prices symbols s))"

definition pollOnce :: "live_world \<Rightarrow> string \<Rightarrow> nat \<Rightarrow> crypto \<Rightarrow> crypto \<times> thrown option" where
  "pollOnce lw b r s =
     (let w = lw_world lw; c = ct_config (runtime r s);
          s = (if cc_tradeMode c = Live \<and> cw_now w - ct_lastReconcile (runtime r s) \<ge> RECONCILE_INTERVAL_MS
               then reconcileLedger lw b r (update_runtime r (\<lambda>t. t\<lparr> ct_lastReconcile := cw_now w \<rparr>) s) else s)
      in case refresh_feed w r s of
           (s, Inl err) \<Rightarrow> (s, Some err)
         | (s, Inr prices) \<Rightarrow>
             eval_symbols w b r prices (cc_symbols c) (if cc_strategy c = Alert then s else refreshKlines w r s))"

text \<open>The listeners of a runtime leave the hub, and its timer stops.\<close>

definition stopRuntime :: "nat \<Rightarrow> crypto \<Rightarrow> crypto" where
  "stopRuntime r s =
     (let s = s\<lparr> cy_hub := fold (\<lambda>(symbol, l). hub_unsubscribe symbol l) (ct_streamUnsubs (runtime r s)) (cy_hub s) \<rparr>
      in update_runtime r (\<lambda>t. t\<lparr> ct_timer := None, ct_streamUnsubs := [] \<rparr>) s)"

definition forget_runtime :: "string \<Rightarrow> crypto \<Rightarrow> crypto" where
  "forget_runtime b s = s\<lparr> cy_runtimes := jdel b (cy_runtimes s) \<rparr>"

definition maxConsecutiveFailures :: nat where "maxConsecutiveFailures = 5"

definition give_up :: "live_world \<Rightarrow> string \<Rightarrow> nat \<Rightarrow> human_behavior_config option \<Rightarrow> crypto \<Rightarrow> crypto" where
  "give_up lw b r behavior s =
     (let s = update_worker (markDisconnected b
            (Some (''Polling failed '' @ nat_text (ct_consecutiveFailures (runtime r s)) @ '' times in a row''))) s;
          s = forget_runtime b (stopRuntime r s)
      in update_worker (\<lambda>wk. fst (scheduleReconnect (lw_chance lw) (lw_now lw) b behavior wk)) s)"

text \<open>
  A poll of the timer that belongs to runtime \<open>r\<close>; the behaviour is that of the credentials it was set
  up with. What follows the poll runs on the state that is there when the poll ends.
\<close>

definition poll_ended :: "live_world \<Rightarrow> string \<Rightarrow> nat \<Rightarrow> human_behavior_config option \<Rightarrow> thrown option \<Rightarrow> crypto \<Rightarrow> crypto" where
  "poll_ended lw b r behavior res s =
     (let s = (case res of
                 None \<Rightarrow> update_runtime r (\<lambda>t. t\<lparr> ct_consecutiveFailures := 0 \<rparr>) s
               | Some err \<Rightarrow>
                   let s = update_runtime r (\<lambda>t. t\<lparr> ct_consecutiveFailures := ct_consecutiveFailures t + 1 \<rparr>) s
                   in if ct_consecutiveFailures (runtime r s) \<ge> maxConsecutiveFailures then give_up lw b r behavior s else s)
      in update_runtime r (\<lambda>t. t\<lparr> ct_pollInFlight := False \<rparr>) s)"

definition poll :: "live_world \<Rightarrow> string \<Rightarrow> nat \<Rightarrow> human_behavior_config option \<Rightarrow> crypto \<Rightarrow> crypto" where
  "poll lw b r behavior s =
     (if ct_pollInFlight (runtime r s) then s
      else case pollOnce lw b r (update_runtime r (\<lambda>t. t\<lparr> ct_pollInFlight := True \<rparr>) s) of
             (s, res) \<Rightarrow> poll_ended lw b r behavior res s)"

section \<open>Connecting\<close>

record crypto_credentials =
  cr_crypto :: json
  cr_config :: json
  cr_keys :: key_credentials
  cr_proxy :: json

definition subscribe_symbol :: "live_world \<Rightarrow> string \<times> nat \<Rightarrow> hub \<Rightarrow> hub" where
  "subscribe_symbol lw e = (case e of (symbol, l) \<Rightarrow> hub_subscribe (lw_now lw) symbol l (lw_socketOk lw symbol))"

definition proxy_url :: "json \<Rightarrow> string option" where
  "proxy_url v = (case v of JStr (c # cs) \<Rightarrow> Some (c # cs) | _ \<Rightarrow> None)"

text \<open>The client and the feed; each constructor can throw.\<close>

definition make_feed :: "crypto_config \<Rightarrow> key_pair option \<Rightarrow> string option \<Rightarrow> thrown + bool \<times> price_feed" where
  "make_feed c pair proxyUrl =
     (case new_binance (map_option fst pair) (map_option snd pair) None proxyUrl of
        Inl err \<Rightarrow> Inl err
      | Inr client \<Rightarrow>
          (case new_gecko None proxyUrl of
             Inl err \<Rightarrow> Inl err
           | Inr gecko \<Rightarrow>
               map_sum id (\<lambda>f. (hasKeys client, f)) (new_feed (cc_source c) (cc_symbols c) (cc_coinIds c) gecko)))"

text \<open>The runtime gets number \<open>r\<close>, its listeners the numbers after it; all of this runs without a pause.\<close>

definition install_runtime :: "live_world \<Rightarrow> string \<Rightarrow> nat \<Rightarrow> crypto_runtime \<Rightarrow> crypto \<Rightarrow> crypto" where
  "install_runtime lw b r t s =
     (let c = ct_config t;
          subs = (if cc_source c = CoinGecko then [] else zip (cc_symbols c) [Suc r..<Suc r + length (cc_symbols c)])
      in s\<lparr> cy_store := (cy_store s)(r := t\<lparr> ct_streamUnsubs := subs, ct_timer := Some (jitter (lw_random lw) (cc_pollIntervalMs c)) \<rparr>),
            cy_next := Suc r + length subs, cy_hub := fold (subscribe_symbol lw) subs (cy_hub s),
            cy_runtimes := jset b r (cy_runtimes s) \<rparr>)"

definition drop_previous :: "string \<Rightarrow> crypto \<Rightarrow> crypto" where
  "drop_previous b s = (case jget (cy_runtimes s) b of None \<Rightarrow> s | Some r \<Rightarrow> forget_runtime b (stopRuntime r s))"

definition first_poll :: "live_world \<Rightarrow> string \<Rightarrow> nat \<Rightarrow> crypto \<Rightarrow> crypto \<times> thrown option" where
  "first_poll lw b r s =
     (case pollOnce lw b r s of
        (s, Some err) \<Rightarrow> (update_worker (markDisconnected b (Some (''Initial poll failed: '' @ thrown_text err)))
                            (forget_runtime b (stopRuntime r s)), Some err)
      | (s, None) \<Rightarrow> (update_worker (markConnected (lw_now lw) b) s, None))"

definition start_runtime ::
  "live_world \<Rightarrow> string \<Rightarrow> crypto_config \<Rightarrow> bool \<Rightarrow> price_feed \<Rightarrow> (string, price_point) jmap \<Rightarrow> crypto \<Rightarrow> crypto \<times> thrown option" where
  "start_runtime lw b c keys feed initial s =
     (let guard = new_guard (case cc_tradeMode c of Live \<Rightarrow> ''live'' | Dry \<Rightarrow> ''dry'') (cc_maxOrderValueUsdt c) keys
            (JArr (map JStr (cc_allowedSymbols c)));
          up = cw_redis (lw_world lw);
          dry = (if cc_tradeMode c = Dry then loadDryState (lw_parse lw) up b (cy_saved s) else empty_dry_state);
          led = (if cc_tradeMode c = Live then loadLedger (lw_parseSnapshot lw) up b (cy_saved s) else new_ledger);
          r = cy_next s
      in first_poll lw b r (install_runtime lw b r (new_runtime c feed keys guard initial dry led) s))"

definition crypto_connect :: "live_world \<Rightarrow> string \<Rightarrow> crypto_credentials \<Rightarrow> crypto \<Rightarrow> crypto \<times> thrown option" where
  "crypto_connect lw b cr s =
     (if b = [] then (s, Some (OtherError ''Missing botId''))
      else case parseCryptoConfig (lw_envMax lw) (nullish_or (cr_crypto cr) (cr_config cr)) of
             Inl err \<Rightarrow> (s, Some err)
           | Inr c \<Rightarrow>
               let s = drop_previous b (update_worker (prepareConnect b) s);
                   pairs = buildKeyPairs (cr_keys cr);
                   (indexes, i) = nextKeypairIndex b (length pairs) (cy_keypairs s);
                   s = s\<lparr> cy_keypairs := indexes \<rparr>
               in case make_feed c (if pairs = [] then None else Some (pairs ! i)) (proxy_url (cr_proxy cr)) of
                    Inl err \<Rightarrow> (s, Some err)
                  | Inr (keys, feed) \<Rightarrow>
                      if cc_strategy c \<noteq> Alert \<and> cc_source c = CoinGecko
                      then (s, Some (OtherError ''sma/rsi strategies require Binance as the price source''))
                      else case refresh (cw_feed (lw_world lw)) feed of
                             (feed, Inl err) \<Rightarrow> (s, Some err)
                           | (feed, Inr initial) \<Rightarrow>
                               if initial = [] then (s, Some (OtherError ''No prices returned by the configured price source''))
                               else start_runtime lw b c keys feed initial s)"

definition crypto_disconnect :: "string \<Rightarrow> crypto \<Rightarrow> crypto" where
  "crypto_disconnect b s =
     (let s = drop_previous b s
      in update_worker (\<lambda>wk. fst (forgetting_disconnect b wk)) s)"

definition hasLiveConnection :: "string \<Rightarrow> crypto \<Rightarrow> bool" where
  "hasLiveConnection b s \<longleftrightarrow> jget (cy_runtimes s) b \<noteq> None"

section \<open>Failing polls\<close>

text \<open>The part of the state that belongs to the runtimes: who has one, their timers and failures.\<close>

definition run_view :: "crypto \<Rightarrow> (string, nat) jmap \<times> (nat \<Rightarrow> jsnum option \<times> nat)" where
  "run_view s = (cy_runtimes s, \<lambda>r. (ct_timer (runtime r s), ct_consecutiveFailures (runtime r s)))"

named_theorems view \<open>operations that leave timers, failures and the map of runtimes alone\<close>

lemma view_update_runtime [view]:
  assumes "\<And>t. ct_timer (f t) = ct_timer t" and "\<And>t. ct_consecutiveFailures (f t) = ct_consecutiveFailures t"
  shows "run_view (update_runtime r f s) = run_view s"
  using assms by (auto simp: run_view_def update_runtime_def)

lemma view_simple [view]:
  "run_view (update_worker g s) = run_view s" "run_view (emit_crypto e s) = run_view s"
  "run_view (save_ledger_of w b r s) = run_view s" "run_view (s\<lparr> cy_spend := m \<rparr>) = run_view s"
  "run_view (s\<lparr> cy_saved := m' \<rparr>) = run_view s" "run_view (set_signal r x d s) = run_view s"
  "run_view (store_high r x h s) = run_view s" "run_view (set_price r x p s) = run_view s"
  "run_view (set_in_flight r k s) = run_view s" "run_view (update_runtime r (update_ledger l) s) = run_view s"
  by (auto simp: run_view_def update_worker_def emit_crypto_def save_ledger_of_def set_signal_def store_high_def
      set_price_def set_in_flight_def update_runtime_def update_ledger_def)

lemma view_refund [view]: "run_view (refundDailySpend w b v s) = run_view s" "run_view (refundUnfilled w b order q s) = run_view s"
  by (auto simp: refundDailySpend_def refundUnfilled_def Let_def view split: option.split)

lemma view_claim: "claimDailySpend w b v s = (s', ok) \<Longrightarrow> run_view s' = run_view s"
  by (auto simp: claimDailySpend_def Let_def view split: if_splits option.splits)

lemma view_placed [view]:
  "run_view (order_placed w b r p price res s) = run_view s" "run_view (order_failed w b r p s) = run_view s"
  "run_view (order_simulated w b r p price s) = run_view s"
  by (simp_all add: order_placed_def order_failed_def order_simulated_def Let_def view)

lemma view_placeOrder: "placeOrder w b r p price origin s = (s', res) \<Longrightarrow> run_view s' = run_view s"
  by (auto simp: placeOrder_def Let_def view dest!: view_claim split: if_splits prod.splits bool.splits sum.splits)

lemma view_balance: "liveFreeBalance w r base s = (s', res) \<Longrightarrow> run_view s' = run_view s"
  by (auto simp: liveFreeBalance_def Let_def view split: if_splits option.splits sum.splits prod.splits)

lemma view_exit_quantity: "exit_quantity w r symbol s = (s', q) \<Longrightarrow> run_view s' = run_view s"
  by (auto simp: exit_quantity_def Let_def dest: view_balance split: if_splits sum.splits prod.splits)

lemma view_sell: "sell_for_exit w b r symbol price q why s = (s', res) \<Longrightarrow> run_view s' = run_view s"
  by (auto simp: sell_for_exit_def view dest!: view_placeOrder split: sum.splits prod.splits)

lemma view_exits_inner: "checkExitsInner w b r symbol price s = (s', res) \<Longrightarrow> run_view s' = run_view s"
  by (auto simp: checkExitsInner_def Let_def view dest!: view_exit_quantity view_sell
      split: if_splits option.splits prod.splits)

lemma view_exits: "checkExits w b r symbol price s = (s', res) \<Longrightarrow> run_view s' = run_view s"
  by (auto simp: checkExits_def view dest!: view_exits_inner split: if_splits prod.splits)

lemma view_auto_order: "auto_order w b r price planned s = (s', res) \<Longrightarrow> run_view s' = run_view s"
  by (auto simp: auto_order_def dest: view_placeOrder split: sum.splits prod.splits)

lemma view_autoTrade: "autoTrade w b r symbol d price s = (s', res) \<Longrightarrow> run_view s' = run_view s"
  by (auto simp: autoTrade_def auto_sell_quantity_def dest!: view_auto_order view_balance
      split: if_splits option.splits sum.splits prod.splits)

lemma view_on_signal: "on_signal w b r symbol point s = (s', res) \<Longrightarrow> run_view s' = run_view s"
  by (auto simp: on_signal_def Let_def view dest!: view_autoTrade split: if_splits option.splits)

lemma view_on_price [view]: "run_view (on_price w b r symbol point s) = run_view s"
  by (simp add: on_price_def Let_def view)

lemma view_evaluate: "evaluateSymbol w b r symbol point s = (s', res) \<Longrightarrow> run_view s' = run_view s"
  by (auto simp: evaluateSymbol_def view dest!: view_exits view_on_signal
      split: if_splits option.splits sum.splits prod.splits bool.splits)

lemma view_eval_symbols: "eval_symbols w b r prices symbols s = (s', res) \<Longrightarrow> run_view s' = run_view s"
  by (induction w b r prices symbols s rule: eval_symbols.induct)
    (auto dest!: view_evaluate split: option.splits prod.splits)

lemma view_fold [view]: "(\<And>x s. run_view (f x s) = run_view s) \<Longrightarrow> run_view (fold f xs s) = run_view s"
  by (induction xs arbitrary: s) auto

lemma view_klines [view]: "run_view (refreshKlines w r s) = run_view s"
proof -
  have "run_view (put_closes w r x s) = run_view s" for x s by (simp add: put_closes_def view split: sum.split)
  then show ?thesis by (simp add: refreshKlines_def Let_def view)
qed

lemma view_drop_order [view]: "run_view (drop_order r order s) = run_view s"
  by (simp add: drop_order_def view)

lemma view_settle [view]: "run_view (settle_fill w r order res q s) = run_view s"
  by (simp add: settle_fill_def view)

lemma view_reconcile [view]: "run_view (reconcileLedger lw b r s) = run_view s"
proof -
  have "run_view (cancel_stale lw b r order s) = run_view s" for order s
    by (simp add: cancel_stale_def Let_def view split: sum.split)
  moreover have "run_view (resolve_order lw b r ids order s) = run_view s" for ids order s
    by (simp add: resolve_order_def Let_def view split: sum.split)
  moreover have "run_view (update_runtime r (warm_cache now bs) s) = run_view s" for now bs s
    by (simp add: view warm_cache_def)
  ultimately show ?thesis
    by (simp add: reconcileLedger_def cancelStaleOrders_def Let_def view split: sum.split)
qed

lemma view_feed: "refresh_feed w r s = (s', res) \<Longrightarrow> run_view s' = run_view s"
  by (auto simp: refresh_feed_def view split: prod.splits)

lemma view_pollOnce: "pollOnce lw b r s = (s', res) \<Longrightarrow> run_view s' = run_view s"
  by (auto simp: pollOnce_def Let_def view dest!: view_feed view_eval_symbols split: if_splits sum.splits prod.splits)

lemma view_eqD:
  assumes "run_view s' = run_view s"
  shows "cy_runtimes s' = cy_runtimes s" "ct_timer (runtime r s') = ct_timer (runtime r s)"
    "ct_consecutiveFailures (runtime r s') = ct_consecutiveFailures (runtime r s)"
  using assms by (auto simp: run_view_def fun_eq_iff)

lemma stop_facts:
  "cy_runtimes (stopRuntime r s) = cy_runtimes s"
  "ct_timer (runtime r' (stopRuntime r s)) = (if r' = r then None else ct_timer (runtime r' s))"
  "ct_consecutiveFailures (runtime r' (stopRuntime r s)) = ct_consecutiveFailures (runtime r' s)"
  by (simp_all add: stopRuntime_def update_runtime_def Let_def)

lemma give_up_facts:
  "cy_runtimes (give_up lw b r behavior s) = jdel b (cy_runtimes s)"
  "ct_timer (runtime r' (give_up lw b r behavior s)) = (if r' = r then None else ct_timer (runtime r' s))"
  by (simp_all add: give_up_def Let_def update_worker_def forget_runtime_def stop_facts)

lemma poll_ended_facts:
  assumes "n = ct_consecutiveFailures (runtime r s) + 1" and "s' = poll_ended lw b r behavior res s"
  shows "(res = None \<longrightarrow> cy_runtimes s' = cy_runtimes s \<and> ct_consecutiveFailures (runtime r s') = 0 \<and>
        ct_timer (runtime r' s') = ct_timer (runtime r' s)) \<and>
    (res \<noteq> None \<longrightarrow> n < 5 \<longrightarrow> cy_runtimes s' = cy_runtimes s \<and> ct_consecutiveFailures (runtime r s') = n \<and>
        ct_timer (runtime r' s') = ct_timer (runtime r' s)) \<and>
    (res \<noteq> None \<longrightarrow> 5 \<le> n \<longrightarrow> cy_runtimes s' = jdel b (cy_runtimes s) \<and>
        ct_timer (runtime r' s') = (if r' = r then None else ct_timer (runtime r' s)))"
  using assms by (cases res)
    (auto simp: poll_ended_def Let_def update_runtime_def maxConsecutiveFailures_def give_up_facts split: if_splits)

text \<open>
  Failing polls end a connection: a poll that fails for the fifth time in a row takes the bot's
  runtime away and stops the timer, before that the bot stays connected and the failure is counted,
  and a successful poll starts the count anew. No other runtime's timer is touched.
\<close>

lemma fifth_failure_disconnects:
  assumes "\<not> ct_pollInFlight (runtime r s)" and "jget (cy_runtimes s) b = Some r"
    and "pollOnce lw b r (update_runtime r (\<lambda>t. t\<lparr> ct_pollInFlight := True \<rparr>) s) = (s1, res)"
    and "n = ct_consecutiveFailures (runtime r s) + 1" and "s' = poll lw b r behavior s"
  shows "(hasLiveConnection b s' \<longleftrightarrow> res = None \<or> n < 5) \<and>
    (hasLiveConnection b s' \<longrightarrow> ct_consecutiveFailures (runtime r s') = (if res = None then 0 else n) \<and>
       ct_timer (runtime r s') = ct_timer (runtime r s)) \<and>
    (\<not> hasLiveConnection b s' \<longrightarrow> ct_timer (runtime r s') = None) \<and>
    (\<forall>r'. r' \<noteq> r \<longrightarrow> ct_timer (runtime r' s') = ct_timer (runtime r' s))"
proof -
  have "run_view s1 = run_view s" using view_pollOnce [OF assms(3)] by (simp add: view)
  note s1 = view_eqD [OF this]
  have "s' = poll_ended lw b r behavior res s1" using assms(1,3,5) by (simp add: poll_def)
  from poll_ended_facts [OF _ this, of n] assms(2,4) s1 show ?thesis
    by (cases res; cases "n < 5") (auto simp: hasLiveConnection_def)
qed

text \<open>
  C33. A poll that outlives its runtime takes the wrong one away: when a bot has been connected anew while
  a poll of its old runtime was still under way, and that poll is the fifth to fail, the new runtime
  is forgotten and its timer keeps running. The bot then counts as disconnected, disconnecting it does
  not stop the timer, and its live buys are no longer counted against the daily limit.
\<close>

theorem stale_poll_orphans:
  assumes "jget (cy_runtimes s) b = Some r'" and "r' \<noteq> r" and "ct_timer (runtime r' s) = Some d"
    and "4 \<le> ct_consecutiveFailures (runtime r s)" and "s' = poll_ended lw b r behavior (Some err) s"
  shows "\<not> hasLiveConnection b s' \<and> ct_timer (runtime r' (crypto_disconnect b s')) = Some d \<and>
    claimDailySpend w b v s' = (s', True)"
proof -
  have facts: "cy_runtimes s' = jdel b (cy_runtimes s)" "ct_timer (runtime r' s') = Some d"
    using poll_ended_facts [OF refl assms(5), of r'] assms(2-4) by auto
  then have "jget (cy_runtimes s') b = None" by simp
  with facts(2) show ?thesis
    by (simp add: hasLiveConnection_def crypto_disconnect_def forgetting_disconnect_def drop_previous_def update_worker_def claimDailySpend_def
        daily_cap_def Let_def)
qed

definition failing_world :: live_world where
  "failing_world = \<lparr> lw_world = CryptoOrders.sample_world\<lparr> cw_feed := PriceSources.sample_world\<lparr> fw_tickers := (\<lambda>_. Inl (OtherError ''down'')) \<rparr> \<rparr>,
     lw_account = Inr [], lw_openOrders = Inr [], lw_status = (\<lambda>_ _. Inl (OtherError [])), lw_cancel = (\<lambda>_ _. Inl (OtherError [])),
     lw_random = 0, lw_chance = undefined, lw_socketOk = (\<lambda>_. True), lw_parse = (\<lambda>_. None), lw_parseSnapshot = (\<lambda>_. None), lw_envMax = NaN \<rparr>"

definition failing_crypto :: crypto where
  "failing_crypto = sample_crypto\<lparr> cy_store := (\<lambda>r. (cy_store sample_crypto r)\<lparr> ct_consecutiveFailures := 4, ct_timer := Some (Num 60000) \<rparr>) \<rparr>"

lemma fifth_failure_disconnects_witness:
  "hasLiveConnection ''b'' failing_crypto \<and> \<not> hasLiveConnection ''b'' (poll failing_world ''b'' 0 None failing_crypto)"
proof -
  let ?s = "update_runtime 0 (\<lambda>t. t\<lparr> ct_pollInFlight := True \<rparr>) failing_crypto"
  have s: "\<not> ct_pollInFlight (runtime 0 failing_crypto)" "jget (cy_runtimes failing_crypto) ''b'' = Some 0"
    "ct_consecutiveFailures (runtime 0 failing_crypto) = 4"
    by (simp_all add: failing_crypto_def sample_crypto_def new_runtime_def)
  have "\<exists>s1. pollOnce failing_world ''b'' 0 ?s = (s1, Some (OtherError ''down''))"
    by (simp add: pollOnce_def refresh_feed_def refresh_def fromBinance_def failing_world_def failing_crypto_def sample_crypto_def
        new_runtime_def sample_config_def config_of_def sample_feed_def update_runtime_def Let_def)
  then obtain s1 where "pollOnce failing_world ''b'' 0 ?s = (s1, Some (OtherError ''down''))" ..
  from fifth_failure_disconnects [OF s(1,2) this refl refl, of None] s show ?thesis by (simp add: hasLiveConnection_def)
qed

lemma stale_poll_orphans_witness:
  "\<exists>s'. \<not> hasLiveConnection ''b'' s' \<and> ct_timer (runtime 0 (crypto_disconnect ''b'' s')) = Some (Num 60000)"
  using stale_poll_orphans [of failing_crypto "''b''" 0 1 "Num 60000" _ failing_world None "OtherError []"]
  by (auto simp: failing_crypto_def sample_crypto_def)

end
