(* ===== verification/CryptoHelpers.thy ===== *)
theory CryptoHelpers
  imports CryptoConfig "HOL-Library.State_Monad" "HOL-Library.Multiset"
begin

text \<open>
  Helpers of the trading bots: packages/core/src/crypto/random-config.ts, the random config of a new bot,
  sanitize.ts, what of a config goes to a worker, and wallet.ts. The random numbers are the state of a
  state monad, in the order in which the code draws them. Curve, hash and hexadecimal printing are
  arguments.
\<close>

section \<open>Random numbers\<close>

type_synonym 'a drawing = "(nat \<Rightarrow> rat, 'a) state"

definition draw :: "rat drawing" where
  "draw = State (\<lambda>r. (r 0, \<lambda>i. r (Suc i)))"

definition draw_index :: "nat \<Rightarrow> nat drawing" where
  "draw_index n = do { r \<leftarrow> draw; State_Monad.return (random_index r n) }"

definition pick :: "'a list \<Rightarrow> 'a drawing" where
  "pick items = do { i \<leftarrow> draw_index (length items); State_Monad.return (items ! i) }"

definition swap_at :: "nat \<Rightarrow> nat \<Rightarrow> 'a list \<Rightarrow> 'a list" where
  "swap_at i j xs = xs[i := xs ! j, j := xs ! i]"

fun shuffle_from :: "nat \<Rightarrow> 'a list \<Rightarrow> 'a list drawing" where
  "shuffle_from 0 xs = State_Monad.return xs"
| "shuffle_from (Suc i) xs = do { j \<leftarrow> draw_index (Suc i + 1); shuffle_from i (swap_at (Suc i) j xs) }"

definition pickMany :: "'a list \<Rightarrow> nat \<Rightarrow> 'a list drawing" where
  "pickMany items n = do { copy \<leftarrow> shuffle_from (length items - 1) items; State_Monad.return (take n copy) }"

definition randInt :: "int \<Rightarrow> int \<Rightarrow> int drawing" where
  "randInt lo hi = do { i \<leftarrow> draw_index (nat (hi - lo + 1)); State_Monad.return (int i + lo) }"

section \<open>The config of a new bot\<close>

definition SYMBOL_POOL :: "string list" where
  "SYMBOL_POOL = map (\<lambda>base. base @ ''USDT'') (jkeys COINGECKO_ID_BY_SYMBOL)"

definition KLINE_POOL :: "string list" where "KLINE_POOL = [''5m'', ''15m'', ''1h'']"

definition coin_of :: "string \<Rightarrow> json" where
  "coin_of symbol =
     (case jget COINGECKO_ID_BY_SYMBOL (take (length symbol - 4) symbol) of None \<Rightarrow> JUndef | Some i \<Rightarrow> JStr i)"

definition strategy_numbers :: "string \<Rightarrow> (string \<times> json) list drawing" where
  "strategy_numbers strategy =
     (if strategy = ''sma''
      then do {
        fast \<leftarrow> randInt 5 20;
        slow \<leftarrow> randInt (fast * 3) (min (fast * 6) 200);
        State_Monad.return [(''fastPeriod'', JNum (jint fast)), (''slowPeriod'', JNum (jint slow))] }
      else if strategy = ''rsi''
      then do {
        period \<leftarrow> randInt 7 21;
        overbought \<leftarrow> randInt 65 80;
        oversold \<leftarrow> randInt 20 35;
        State_Monad.return [(''period'', JNum (jint period)), (''overbought'', JNum (jint overbought)),
          (''oversold'', JNum (jint oversold))] }
      else do {
        r \<leftarrow> draw;
        if r < 1/2
        then do {
          up \<leftarrow> randInt 60000 150000;
          down \<leftarrow> randInt 10000 40000;
          State_Monad.return [(''upThreshold'', JNum (jint up)), (''downThreshold'', JNum (jint down))] }
        else State_Monad.return [] })"

definition exit_guard :: "rat \<Rightarrow> string \<Rightarrow> int \<Rightarrow> int \<Rightarrow> (string \<times> json) list drawing" where
  "exit_guard chance key lo hi =
     do {
       r \<leftarrow> draw;
       if r < chance then do { v \<leftarrow> randInt lo hi; State_Monad.return [(key, JNum (jint v))] }
       else State_Monad.return [] }"

definition generateCryptoConfig :: "json drawing" where
  "generateCryptoConfig =
     do {
       n \<leftarrow> randInt 1 3;
       symbols \<leftarrow> pickMany SYMBOL_POOL (nat n);
       strategy \<leftarrow> pick [''sma'', ''sma'', ''rsi'', ''rsi'', ''alert''];
       source \<leftarrow> pick (if strategy = ''alert'' then [''binance'', ''auto'', ''coingecko''] else [''binance'', ''auto'']);
       klineInterval \<leftarrow> pick KLINE_POOL;
       pollInterval \<leftarrow> randInt 15000 120000;
       maxOrderValueUsdt \<leftarrow> randInt 50 500;
       autoTradeAmountUsdt \<leftarrow> randInt 10 maxOrderValueUsdt;
       priceEventIntervalMs \<leftarrow> randInt 30000 120000;
       numbers \<leftarrow> strategy_numbers strategy;
       stopLoss \<leftarrow> exit_guard (1/2) ''stopLossPct'' 2 10;
       takeProfit \<leftarrow> exit_guard (1/2) ''takeProfitPct'' 5 20;
       trailingStop \<leftarrow> exit_guard (1/4) ''trailingStopPct'' 1 5;
       State_Monad.return (JObj [
         (''symbols'', JArr (map JStr symbols)),
         (''coinIds'', JArr (map coin_of symbols)),
         (''source'', JStr source),
         (''strategy'', JStr strategy),
         (''strategyParams'', JObj ([(''klineInterval'', JStr klineInterval), (''priceEventIntervalMs'', JNum (jint priceEventIntervalMs)),
            (''autoTrade'', JBool False), (''autoTradeAmountUsdt'', JNum (jint autoTradeAmountUsdt))] @ numbers @
            stopLoss @ takeProfit @ trailingStop)),
         (''tradeMode'', JStr ''dry''),
         (''pollInterval'', JNum (jint pollInterval)),
         (''maxOrderValueUsdt'', JNum (jint maxOrderValueUsdt))]) }"

section \<open>What goes to a worker\<close>

text \<open>Nothing for what is no object; of the wallet only a nonempty address, after all other properties.\<close>

definition sanitizeCryptoConfig :: "json \<Rightarrow> json option" where
  "sanitizeCryptoConfig config =
     (if \<not> truthy config \<or> \<not> is_object config then None
      else let others = filter (\<lambda>(k, v). k \<noteq> ''wallet'') (object_entries config);
               wallet = get_prop config ''wallet'';
               shown = (if truthy wallet \<and> is_object wallet
                 then (case get_prop wallet ''address'' of
                         JStr (c # cs) \<Rightarrow> [(''wallet'', JObj [(''address'', JStr (c # cs))])]
                       | _ \<Rightarrow> [])
                 else [])
           in Some (JObj (others @ shown)))"

section \<open>Wallets\<close>

text \<open>The bytes of a key, the public key of the curve, the hash and the hexadecimal text are arguments.\<close>

definition addressFromPublicKey :: "(nat list \<Rightarrow> nat list) \<Rightarrow> (nat list \<Rightarrow> string) \<Rightarrow> nat list \<Rightarrow> string" where
  "addressFromPublicKey keccak hex publicKey =
     (let digits = hex (keccak (drop 1 publicKey)) in ''0x'' @ drop (length digits - 40) digits)"

record evm_wallet =
  ew_address :: string
  ew_privateKey :: string

definition generateEVMWallet ::
  "nat list \<Rightarrow> (nat list \<Rightarrow> nat list) \<Rightarrow> (nat list \<Rightarrow> nat list) \<Rightarrow> (nat list \<Rightarrow> string) \<Rightarrow> evm_wallet" where
  "generateEVMWallet privateKey getPublicKey keccak hex =
     \<lparr> ew_address = addressFromPublicKey keccak hex (getPublicKey privateKey), ew_privateKey = hex privateKey \<rparr>"

definition hex_digit :: "char \<Rightarrow> bool" where
  "hex_digit c \<longleftrightarrow> c \<in> set ''0123456789abcdefABCDEF''"

definition isValidEVMAddress :: "string \<Rightarrow> bool" where
  "isValidEVMAddress v \<longleftrightarrow> length v = 42 \<and> take 2 v = ''0x'' \<and> list_all hex_digit (drop 2 v)"

section \<open>What a drawing yields\<close>

definition rng_ok :: "(nat \<Rightarrow> rat) \<Rightarrow> bool" where
  "rng_ok r \<longleftrightarrow> (\<forall>i. math_random (r i))"

definition yields :: "('a \<Rightarrow> bool) \<Rightarrow> 'a drawing \<Rightarrow> bool" where
  "yields P m \<longleftrightarrow> (\<forall>r. rng_ok r \<longrightarrow> P (fst (run_state m r)) \<and> rng_ok (snd (run_state m r)))"

named_theorems drawing_rules

lemma yields_bind: "yields P m \<Longrightarrow> (\<And>x. P x \<Longrightarrow> yields Q (f x)) \<Longrightarrow> yields Q (m \<bind> f)"
  by (auto simp: yields_def split: prod.split)

lemma yields_return: "P x \<Longrightarrow> yields P (State_Monad.return x)"
  by (simp add: yields_def)

lemma yields_draw: "yields math_random draw"
  by (simp add: yields_def draw_def rng_ok_def)

lemma yields_mono: "yields P m \<Longrightarrow> (\<And>x. P x \<Longrightarrow> Q x) \<Longrightarrow> yields Q m"
  by (simp add: yields_def)

lemma yields_index: "0 < n \<Longrightarrow> int n < 2 ^ 53 \<Longrightarrow> yields (\<lambda>i. i < n) (draw_index n)"
  unfolding draw_index_def by (rule yields_bind [OF yields_draw]) (simp add: yields_return random_index_lt)

lemma yields_pick [drawing_rules]: "xs \<noteq> [] \<Longrightarrow> int (length xs) < 2 ^ 53 \<Longrightarrow> yields (\<lambda>x. x \<in> set xs) (pick xs)"
  unfolding pick_def by (rule yields_bind [OF yields_index]) (simp_all add: yields_return)

lemma yields_randInt [drawing_rules]:
  assumes "lo \<le> hi" "hi - lo < 2 ^ 52"
  shows "yields (\<lambda>v. lo \<le> v \<and> v \<le> hi) (randInt lo hi)"
  unfolding randInt_def by (rule yields_bind [OF yields_index]) (use assms in \<open>auto intro!: yields_return\<close>)

lemma swap_at_mset: "i < length xs \<Longrightarrow> j < length xs \<Longrightarrow> mset (swap_at i j xs) = mset xs"
  unfolding swap_at_def by (rule mset_swap)

lemma yields_shuffle:
  "i < length xs \<Longrightarrow> int (length xs) < 2 ^ 53 \<Longrightarrow> yields (\<lambda>ys. mset ys = mset xs) (shuffle_from i xs)"
proof (induction i arbitrary: xs)
  case (Suc i)
  show ?case
    unfolding shuffle_from.simps
  proof (rule yields_bind [OF yields_index])
    fix j assume j: "j < Suc i + 1"
    have m: "mset (swap_at (Suc i) j xs) = mset xs" using Suc.prems(1) j by (intro swap_at_mset) simp_all
    then have "length (swap_at (Suc i) j xs) = length xs" by (metis size_mset)
    with Suc.IH [of "swap_at (Suc i) j xs"] Suc.prems m show "yields (\<lambda>ys. mset ys = mset xs) (shuffle_from i (swap_at (Suc i) j xs))"
      by simp
  qed (use Suc.prems in simp_all)
qed (simp add: yields_return)

lemma yields_pickMany [drawing_rules]:
  assumes "xs \<noteq> []" "int (length xs) < 2 ^ 53" "distinct xs" "n \<le> length xs"
  shows "yields (\<lambda>ys. distinct ys \<and> set ys \<subseteq> set xs \<and> length ys = n) (pickMany xs n)"
  unfolding pickMany_def
proof (rule yields_bind [OF yields_shuffle])
  fix copy assume m: "mset copy = mset xs"
  then have "distinct copy" "set copy = set xs" "length copy = length xs"
    using assms(3) by (metis mset_eq_imp_distinct_iff, metis set_mset_mset, metis size_mset)
  with assms(4) set_take_subset [of n copy]
  show "yields (\<lambda>ys. distinct ys \<and> set ys \<subseteq> set xs \<and> length ys = n) (State_Monad.return (take n copy))"
    by (intro yields_return) auto
qed (use assms in simp_all)

section \<open>Generated configs\<close>

lemma symbol_pool: "SYMBOL_POOL \<noteq> []" "length SYMBOL_POOL = 20" "distinct SYMBOL_POOL"
  by (simp_all add: SYMBOL_POOL_def COINGECKO_ID_BY_SYMBOL_def)

lemma kline_pool: "KLINE_POOL \<noteq> []" "length KLINE_POOL = 3"
  by (simp_all add: KLINE_POOL_def)

lemma pool_symbol:
  "list_all (\<lambda>s. to_upper s = s \<and> s \<noteq> [] \<and> 
     (case coin_of s of JStr i \<Rightarrow> i \<noteq> [] \<and> jget COINGECKO_ID_BY_SYMBOL (baseOf s) = Some i | _ \<Rightarrow> False)) SYMBOL_POOL"
  by code_simp

definition numbers_ok :: "string \<Rightarrow> (string \<times> json) list \<Rightarrow> bool" where
  "numbers_ok strategy ps \<longleftrightarrow>
     (if strategy = ''sma''
      then \<exists>f s. ps = [(''fastPeriod'', JNum (jint f)), (''slowPeriod'', JNum (jint s))] \<and> 5 \<le> f \<and> f * 3 \<le> s
      else if strategy = ''rsi''
      then \<exists>p b s. ps = [(''period'', JNum (jint p)), (''overbought'', JNum (jint b)), (''oversold'', JNum (jint s))] \<and>
        7 \<le> p \<and> 65 \<le> b \<and> b \<le> 80 \<and> 20 \<le> s \<and> s \<le> 35
      else ps = [] \<or> (\<exists>u d. ps = [(''upThreshold'', JNum (jint u)), (''downThreshold'', JNum (jint d))] \<and>
        60000 \<le> u \<and> 10000 \<le> d \<and> d \<le> 40000))"

lemma yields_strategy_numbers [drawing_rules]: "yields (numbers_ok strategy) (strategy_numbers strategy)"
proof -
  have "yields (numbers_ok ''sma'') (strategy_numbers ''sma'')"
    unfolding strategy_numbers_def
    by (auto simp: numbers_ok_def intro!: yields_bind [OF yields_randInt] yields_return)
  moreover have "yields (numbers_ok ''rsi'') (strategy_numbers ''rsi'')"
    unfolding strategy_numbers_def
    by (auto simp: numbers_ok_def intro!: yields_bind [OF yields_randInt] yields_return)
  moreover have "yields (numbers_ok strategy) (strategy_numbers strategy)" if "strategy \<noteq> ''sma''" "strategy \<noteq> ''rsi''"
    unfolding strategy_numbers_def using that
    by (auto simp: numbers_ok_def intro!: yields_bind [OF yields_draw] yields_bind [OF yields_randInt] yields_return)
  ultimately show ?thesis by (cases "strategy = ''sma''"; cases "strategy = ''rsi''") auto
qed

definition guard_ok :: "string \<Rightarrow> int \<Rightarrow> int \<Rightarrow> (string \<times> json) list \<Rightarrow> bool" where
  "guard_ok key lo hi ps \<longleftrightarrow> ps = [] \<or> (\<exists>v. ps = [(key, JNum (jint v))] \<and> lo \<le> v \<and> v \<le> hi)"

lemma yields_exit_guard [drawing_rules]: "lo \<le> hi \<Longrightarrow> hi - lo < 2 ^ 52 \<Longrightarrow> yields (guard_ok key lo hi) (exit_guard chance key lo hi)"
  unfolding exit_guard_def
  by (auto simp: guard_ok_def intro!: yields_bind [OF yields_draw] yields_bind [OF yields_randInt] yields_return)

lemma guard_lookup:
  assumes "guard_ok key lo hi ps"
  shows "k \<noteq> key \<Longrightarrow> map_of ps k = None" and "map_of ps key = Some v \<Longrightarrow> \<exists>i. v = JNum (jint i) \<and> lo \<le> i \<and> i \<le> hi"
  using assms by (auto simp: guard_ok_def split: if_splits)

abbreviation exit_keys :: "string list" where "exit_keys \<equiv> [''stopLossPct'', ''takeProfitPct'', ''trailingStopPct'']"

lemma numbers_lookup: "numbers_ok strategy ps \<Longrightarrow> k \<in> set exit_keys \<Longrightarrow> map_of ps k = None"
  by (auto simp: numbers_ok_def split: if_splits)

definition generated_params :: "string \<Rightarrow> int \<Rightarrow> int \<Rightarrow> (string \<times> json) list \<Rightarrow> (string \<times> json) list \<Rightarrow> (string \<times> json) list \<Rightarrow>
    (string \<times> json) list \<Rightarrow> json" where
  "generated_params k e a ps sl tp ts =
     JObj ([(''klineInterval'', JStr k), (''priceEventIntervalMs'', JNum (jint e)), (''autoTrade'', JBool False),
       (''autoTradeAmountUsdt'', JNum (jint a))] @ ps @ sl @ tp @ ts)"

definition exits_ok :: "(string \<times> json) list \<Rightarrow> (string \<times> json) list \<Rightarrow> (string \<times> json) list \<Rightarrow> bool" where
  "exits_ok sl tp ts \<longleftrightarrow> guard_ok ''stopLossPct'' 2 10 sl \<and> guard_ok ''takeProfitPct'' 5 20 tp \<and> guard_ok ''trailingStopPct'' 1 5 ts"

lemma exits_lookup:
  assumes "exits_ok sl tp ts"
  shows "k \<notin> set exit_keys \<Longrightarrow> map_of (sl @ tp @ ts) k = None"
    and "map_of (sl @ tp @ ts) ''stopLossPct'' = map_of sl ''stopLossPct''"
    and "map_of (sl @ tp @ ts) ''takeProfitPct'' = map_of tp ''takeProfitPct''"
    and "map_of (sl @ tp @ ts) ''trailingStopPct'' = map_of ts ''trailingStopPct''"
proof -
  from assms have g: "guard_ok ''stopLossPct'' 2 10 sl" "guard_ok ''takeProfitPct'' 5 20 tp" "guard_ok ''trailingStopPct'' 1 5 ts"
    by (simp_all add: exits_ok_def)
  show "k \<notin> set exit_keys \<Longrightarrow> map_of (sl @ tp @ ts) k = None"
    and "map_of (sl @ tp @ ts) ''stopLossPct'' = map_of sl ''stopLossPct''"
    and "map_of (sl @ tp @ ts) ''takeProfitPct'' = map_of tp ''takeProfitPct''"
    and "map_of (sl @ tp @ ts) ''trailingStopPct'' = map_of ts ''trailingStopPct''"
    by (simp_all add: map_add_def guard_lookup(1) [OF g(1)] guard_lookup(1) [OF g(2)] guard_lookup(1) [OF g(3)] split: option.split)
qed

lemma generated_lookup:
  assumes "numbers_ok strategy ps" and "exits_ok sl tp ts"
  shows "get_prop (generated_params k e a ps sl tp ts) ''klineInterval'' = JStr k"
    and "get_prop (generated_params k e a ps sl tp ts) ''priceEventIntervalMs'' = JNum (jint e)"
    and "get_prop (generated_params k e a ps sl tp ts) ''autoTrade'' = JBool False"
    and "get_prop (generated_params k e a ps sl tp ts) ''autoTradeAmountUsdt'' = JNum (jint a)"
    and "key \<notin> {''klineInterval'', ''priceEventIntervalMs'', ''autoTrade'', ''autoTradeAmountUsdt''} \<Longrightarrow> key \<notin> set exit_keys \<Longrightarrow>
      get_prop (generated_params k e a ps sl tp ts) key = get_prop (JObj ps) key"
    and "get_prop (generated_params k e a ps sl tp ts) ''stopLossPct'' = get_prop (JObj sl) ''stopLossPct''"
    and "get_prop (generated_params k e a ps sl tp ts) ''takeProfitPct'' = get_prop (JObj tp) ''takeProfitPct''"
    and "get_prop (generated_params k e a ps sl tp ts) ''trailingStopPct'' = get_prop (JObj ts) ''trailingStopPct''"
proof -
  obtain es where es: "es = sl @ tp @ ts" by blast
  note exits = exits_lookup [OF assms(2), folded es]
  show "get_prop (generated_params k e a ps sl tp ts) ''klineInterval'' = JStr k"
    and "get_prop (generated_params k e a ps sl tp ts) ''priceEventIntervalMs'' = JNum (jint e)"
    and "get_prop (generated_params k e a ps sl tp ts) ''autoTrade'' = JBool False"
    and "get_prop (generated_params k e a ps sl tp ts) ''autoTradeAmountUsdt'' = JNum (jint a)"
    and "key \<notin> {''klineInterval'', ''priceEventIntervalMs'', ''autoTrade'', ''autoTradeAmountUsdt''} \<Longrightarrow> key \<notin> set exit_keys \<Longrightarrow>
      get_prop (generated_params k e a ps sl tp ts) key = get_prop (JObj ps) key"
    and "get_prop (generated_params k e a ps sl tp ts) ''stopLossPct'' = get_prop (JObj sl) ''stopLossPct''"
    and "get_prop (generated_params k e a ps sl tp ts) ''takeProfitPct'' = get_prop (JObj tp) ''takeProfitPct''"
    and "get_prop (generated_params k e a ps sl tp ts) ''trailingStopPct'' = get_prop (JObj ts) ''trailingStopPct''"
    using exits numbers_lookup [OF assms(1)]
    by (simp_all add: generated_params_def map_add_def flip: es split: option.split)
qed

lemma guard_number:
  assumes "guard_ok key lo hi ps" and "0 \<le> lo"
  shows "get_prop (JObj ps) key = JUndef \<or> (\<exists>i. get_prop (JObj ps) key = JNum (jint i) \<and> lo \<le> i \<and> i \<le> hi)"
  using guard_lookup(2) [OF assms(1)] by (auto split: option.split)

lemma generated_exits_ok:
  assumes "numbers_ok strategy ps" and "exits_ok sl tp ts"
  shows "exit_problems (generated_params k e a ps sl tp ts) = []"
proof -
  let ?p = "generated_params k e a ps sl tp ts"
  have fine: "problem_if (v \<noteq> JUndef \<and> (\<not> json_finite v \<or> jlt (json_num v) (Num 0))) msg = []"
    if "v = JUndef \<or> (\<exists>i. v = JNum (jint i) \<and> lo \<le> i \<and> i \<le> hi)" "0 \<le> lo" for v msg lo hi
    using that by (auto simp: problem_if_def)
  have g: "guard_ok ''stopLossPct'' 2 10 sl" "guard_ok ''takeProfitPct'' 5 20 tp" "guard_ok ''trailingStopPct'' 1 5 ts"
    using assms(2) by (simp_all add: exits_ok_def)
  show ?thesis
    unfolding exit_problems_def
    using fine [OF guard_number [OF g(1)]] fine [OF guard_number [OF g(2)]] fine [OF guard_number [OF g(3)]]
    by (simp only: list.map concat.simps generated_lookup(6-8) [OF assms]) simp
qed

lemma generated_params_ok:
  assumes "numbers_ok strategy ps" and "exits_ok sl tp ts" and "strategy \<in> {''sma'', ''rsi'', ''alert''}"
  shows "validateStrategyParams (strategy_of (JStr strategy)) (generated_params k e a ps sl tp ts) = []"
proof -
  note look = generated_lookup(5) [OF assms(1,2)]
  consider "strategy = ''sma''" | "strategy = ''rsi''" | "strategy = ''alert''" using assms(3) by auto
  then show ?thesis
  proof cases
    case 1
    with assms(1) have "sma_problems (generated_params k e a ps sl tp ts) = []"
      by (auto simp: numbers_ok_def sma_problems_def problem_if_def look)
    with 1 show ?thesis by (simp add: validateStrategyParams_def strategy_of_def generated_exits_ok [OF assms(1,2)])
  next
    case 2
    with assms(1) have "rsi_problems (generated_params k e a ps sl tp ts) = []"
      by (auto simp: numbers_ok_def rsi_problems_def problem_if_def look)
    with 2 show ?thesis by (simp add: validateStrategyParams_def strategy_of_def generated_exits_ok [OF assms(1,2)])
  next
    case 3
    with assms(1) have "alert_problems (generated_params k e a ps sl tp ts) = []"
      by (auto simp: numbers_ok_def alert_problems_def problem_if_def look)
    with 3 show ?thesis by (simp add: validateStrategyParams_def strategy_of_def generated_exits_ok [OF assms(1,2)])
  qed
qed

lemma pool_symbolD:
  assumes "s \<in> set SYMBOL_POOL"
  shows "to_upper s = s" "s \<noteq> []" "\<exists>i. coin_of s = JStr i \<and> i \<noteq> [] \<and> jget COINGECKO_ID_BY_SYMBOL (baseOf s) = Some i"
  using pool_symbol assms by (cases "coin_of s"; fastforce simp: list_all_iff)+

lemma pool_symbols:
  assumes "set symbols \<subseteq> set SYMBOL_POOL"
  shows "upper_texts (JArr (map JStr symbols)) = symbols"
    and "mapped_ids symbols = Inr (nonempty_texts (map coin_of symbols))"
  using assms
proof (induction symbols)
  case (Cons s symbols)
  {
    case 1
    with Cons(1) pool_symbolD [of s] show ?case by (simp add: upper_texts_def)
  next
    case 2
    with Cons(2) pool_symbolD [of s] show ?case by auto
  }
qed (simp_all add: upper_texts_def)

text \<open>What holds of a config that the worker reads as it was generated.\<close>

definition safe_config :: "crypto_config \<Rightarrow> bool" where
  "safe_config c \<longleftrightarrow> cc_tradeMode c = Dry \<and> \<not> cc_autoTrade c \<and>
     distinct (cc_symbols c) \<and> length (cc_symbols c) \<in> {1..3} \<and> set (cc_symbols c) \<subseteq> set SYMBOL_POOL \<and>
     map_option Inr (cc_coinIds c) = Some (mapped_ids (cc_symbols c)) \<and>
     (\<exists>a m. cc_autoTradeAmountUsdt c = jint a \<and> cc_maxOrderValueUsdt c = jint m \<and> 10 \<le> a \<and> a \<le> m \<and> m \<le> 500) \<and>
     num_between 15000 120000 (cc_pollIntervalMs c) \<and> (cc_strategy c \<noteq> Alert \<longrightarrow> cc_source c \<noteq> CoinGecko)"

definition accepted :: "jsnum \<Rightarrow> json \<Rightarrow> bool" where
  "accepted envMax raw \<longleftrightarrow> (case parseCryptoConfig envMax raw of Inl e \<Rightarrow> False | Inr c \<Rightarrow> safe_config c)"

lemma numberParam_keeps: "lo \<le> i \<Longrightarrow> i \<le> hi \<Longrightarrow> numberParam (JNum (Num i)) d (Num lo) (Num hi) = Num i"
  by (simp add: numberParam_def jmin_def jmax_def)

lemma config_accepted:
  assumes n: "1 \<le> n" "n \<le> 3" and symbols: "distinct symbols \<and> set symbols \<subseteq> set SYMBOL_POOL \<and> length symbols = nat n"
    and strategy: "strategy \<in> set [''sma'', ''sma'', ''rsi'', ''rsi'', ''alert'']"
    and source: "source \<in> set (if strategy = ''alert'' then [''binance'', ''auto'', ''coingecko''] else [''binance'', ''auto''])"
    and k: "k \<in> set KLINE_POOL" and poll: "15000 \<le> p" "p \<le> 120000"
    and m: "50 \<le> m" "m \<le> 500" and a: "10 \<le> a" "a \<le> m"
    and params: "numbers_ok strategy ps" "exits_ok sl tp ts"
  shows "accepted envMax (JObj [
         (''symbols'', JArr (map JStr symbols)), (''coinIds'', JArr (map coin_of symbols)), (''source'', JStr source),
         (''strategy'', JStr strategy), (''strategyParams'', generated_params k e a ps sl tp ts), (''tradeMode'', JStr ''dry''),
         (''pollInterval'', JNum (jint p)), (''maxOrderValueUsdt'', JNum (jint m))])" (is "accepted envMax ?raw")
proof -
  let ?params = "generated_params k e a ps sl tp ts"
  have "symbols \<noteq> []" using n symbols by auto
  moreover have "validateStrategyParams (strategy_of (JStr strategy)) ?params = []"
    using generated_params_ok [OF params] strategy by simp
  moreover have "kline_interval ?params \<in> set KLINE_INTERVALS"
    using k by (auto simp: kline_interval_def generated_lookup [OF params] KLINE_POOL_def KLINE_INTERVALS_def)
  moreover have "object_or_empty ?params = ?params" by (simp add: object_or_empty_def generated_params_def)
  ultimately have parsed: "parseCryptoConfig envMax ?raw = Inr (config_of envMax ?raw symbols ?params)"
    using symbols by (simp add: parseCryptoConfig_def Let_def pool_symbols(1))
  have keep: "numberParam (JNum (jint i)) d (Num (of_int lo)) (Num (of_int hi)) = jint i" if "lo \<le> i" "i \<le> hi" for i lo hi d
    using that by (intro numberParam_keeps) simp_all
  have max: "max_order_value envMax ?raw = jint m"
    using keep [of 1 m 1000000] m by (simp add: max_order_value_def)
  have amount: "numberParam (JNum (jint a)) d (Num 1) (Num 1000000) = jint a" for d
    using keep [of 1 a 1000000] a m by simp
  have interval: "numberParam (JNum (jint p)) d (Num 5000) (Num 3600000) = jint p" for d
    using keep [of 5000 p 3600000] poll by simp
  have "length symbols \<in> {1..3}" using n symbols by auto
  moreover have "strategy_of (JStr strategy) \<noteq> Alert \<longrightarrow> source_of (JStr source) \<noteq> CoinGecko"
    using strategy source by (auto simp: strategy_of_def source_of_def)
  ultimately have "safe_config (config_of envMax ?raw symbols ?params)"
    using symbols m a poll by (auto simp: safe_config_def config_of_def max amount interval generated_lookup [OF params] pool_symbols(2))
  then show ?thesis by (simp add: accepted_def parsed)
qed

text \<open>
  Whatever the random numbers, the config that a new bot gets is accepted by the worker and read with
  the values it was generated with: simulated trading without automatic orders, one to three different
  symbols with their own coins, amounts within the order limit, and a price source that has candles for
  the strategies that need them.
\<close>

lemma generated_config_accepted:
  assumes "rng_ok r"
  shows "accepted envMax (fst (run_state generateCryptoConfig r))"
proof -
  have "yields (accepted envMax) generateCryptoConfig"
    unfolding generateCryptoConfig_def
    by (intro yields_bind [OF yields_randInt] yields_bind [OF yields_pickMany] yields_bind [OF yields_pick]
        yields_bind [OF yields_strategy_numbers] yields_bind [OF yields_exit_guard] yields_return
        config_accepted [unfolded generated_params_def])
      (simp_all add: symbol_pool kline_pool exits_ok_def nat_le_iff)
  with assms show ?thesis by (simp add: yields_def)
qed

lemma generated_config_accepted_witness:
  "accepted (Num 100) (fst (run_state generateCryptoConfig (\<lambda>i. 1 / 2)))"
  using generated_config_accepted [of "\<lambda>i. 1 / 2" "Num 100"] by (simp add: rng_ok_def math_random_def)

section \<open>Nothing secret leaves\<close>

lemma map_of_others: "map_of (filter (\<lambda>(k, v). k \<noteq> x) ps) k = (if k = x then None else map_of ps k)"
  by (induction ps) auto

text \<open>The worker reads the same config from what it is sent, and of the wallet nothing but the address.\<close>

lemma sanitized_props:
  assumes "sanitizeCryptoConfig (JObj ps) = Some out"
  shows "k \<noteq> ''wallet'' \<Longrightarrow> get_prop out k = get_prop (JObj ps) k"
    and "get_prop out ''wallet'' = JUndef \<or> (\<exists>a. get_prop out ''wallet'' = JObj [(''address'', JStr a)] \<and> a \<noteq> [])"
  using assms
  by (auto simp: sanitizeCryptoConfig_def Let_def map_add_def map_of_others split: if_splits json.splits list.splits option.split)

lemma sanitized_config_same:
  assumes "sanitizeCryptoConfig (JObj ps) = Some out"
  shows "map_sum id (cc_wallet_update Map.empty) (parseCryptoConfig envMax out) =
    map_sum id (cc_wallet_update Map.empty) (parseCryptoConfig envMax (JObj ps))"
  using sanitized_props(1) [OF assms]
  by (simp add: parseCryptoConfig_def Let_def config_of_def max_order_value_def)

text \<open>A generated wallet has an address that the checks accept, and a key of 64 digits.\<close>

lemma generated_wallet_valid:
  assumes hex: "\<And>bytes. length (hex bytes) = 2 * length bytes \<and> list_all hex_digit (hex bytes)"
    and hash: "\<And>bytes. length (keccak bytes) = 32" and key: "length privateKey = 32"
  shows "isValidEVMAddress (ew_address (generateEVMWallet privateKey getPublicKey keccak hex)) \<and>
    length (ew_privateKey (generateEVMWallet privateKey getPublicKey keccak hex)) = 64"
proof -
  let ?d = "hex (keccak (drop 1 (getPublicKey privateKey)))"
  have "length ?d = 64" "list_all hex_digit ?d" using hex hash by simp_all
  then have "length (drop (length ?d - 40) ?d) = 40" "list_all hex_digit (drop (length ?d - 40) ?d)"
    by (simp, meson in_set_dropD list_all_iff)
  then show ?thesis using hex key by (simp add: isValidEVMAddress_def generateEVMWallet_def addressFromPublicKey_def Let_def)
qed

end
