(* ===== verification/Credentials.thy ===== *)
theory Credentials
  imports Json BinanceApi
begin

text \<open>
  Credentials at rest: packages/core/src/utils/credential-cipher.ts and crypto.ts (versioned encryption),
  secrets.ts (the checks at start-up), and the rotation of packages/api/src/routes/backup.ts. SHA-256
  and AES-256-GCM are arguments, as are the random vectors; hexadecimal texts are modelled. Texts of
  the environment are ASCII.
\<close>

section \<open>Hexadecimal texts\<close>

definition hex_char :: "nat \<Rightarrow> char" where
  "hex_char n = (if n < 10 then char_of (48 + n) else char_of (87 + n))"

definition toHex :: "nat list \<Rightarrow> string" where
  "toHex bs = concat (map (\<lambda>b. [hex_char (b div 16), hex_char (b mod 16)]) bs)"

text \<open>\<open>Buffer.from(s, 'hex')\<close> reads pairs of digits up to the first that is none.\<close>

definition hex_digit_of :: "char \<Rightarrow> nat option" where
  "hex_digit_of c = (if is_hex (lower_char c) then Some (hex_value (lower_char c)) else None)"

fun fromHex :: "string \<Rightarrow> nat list" where
  "fromHex (a # b # cs) =
     (case (hex_digit_of a, hex_digit_of b) of (Some x, Some y) \<Rightarrow> (16 * x + y) # fromHex cs | _ \<Rightarrow> [])"
| "fromHex _ = []"

section \<open>Encryption\<close>

record primitives =
  pr_sha256 :: "string \<Rightarrow> nat list"
  pr_seal :: "nat list \<Rightarrow> nat list \<Rightarrow> string \<Rightarrow> (nat list \<times> nat list) option"
  pr_open :: "nat list \<Rightarrow> nat list \<Rightarrow> nat list \<Rightarrow> nat list \<Rightarrow> string option"

definition IV_LENGTH :: nat where "IV_LENGTH = 16"
definition TAG_LENGTH :: nat where "TAG_LENGTH = 16"

definition encrypt :: "primitives \<Rightarrow> nat list \<Rightarrow> string \<Rightarrow> string \<Rightarrow> string option" where
  "encrypt c iv plain key =
     (case pr_seal c (fromHex key) iv plain of
        None \<Rightarrow> None
      | Some (data, tag) \<Rightarrow> Some (toHex iv @ '':'' @ toHex tag @ '':'' @ toHex data))"

definition decrypt :: "primitives \<Rightarrow> string \<Rightarrow> string \<Rightarrow> string + string" where
  "decrypt c encryptedText key =
     (case split_on CHR '':'' encryptedText of
        [ivHex, tagHex, data] \<Rightarrow>
          (let iv = fromHex ivHex; tag = fromHex tagHex
           in if length iv \<noteq> IV_LENGTH then Inl ''Invalid IV''
              else if length tag \<noteq> TAG_LENGTH then Inl ''Invalid auth tag''
              else (case pr_open c (fromHex key) iv tag (fromHex data) of
                      None \<Rightarrow> Inl ''Unsupported state or unable to authenticate data''
                    | Some plain \<Rightarrow> Inr plain))
      | _ \<Rightarrow> Inl ''Invalid encrypted payload'')"

section \<open>Keys\<close>

record key_registry =
  kr_version :: string
  kr_key :: string
  kr_legacy :: "(string, string) jmap"

record environment =
  en_keys :: "string option"
  en_key :: "string option"
  en_production :: bool

definition ENC_PREFIX :: string where "ENC_PREFIX = ''enc:''"
definition DEFAULT_VERSION :: string where "DEFAULT_VERSION = ''v1''"

text \<open>\<open>const [version, raw] = entry.split(':')\<close> with \<open>raw\<close> checked for being there.\<close>

definition parse_entry :: "string \<Rightarrow> (string \<times> string) option" where
  "parse_entry entry =
     (case split_on CHR '':'' entry of
        v # r # _ \<Rightarrow> if r = [] then None else Some (v, r)
      | _ \<Rightarrow> None)"

definition hash_key :: "primitives \<Rightarrow> string \<Rightarrow> string" where
  "hash_key c raw = toHex (pr_sha256 c raw)"

fun add_legacy :: "primitives \<Rightarrow> string list \<Rightarrow> (string, string) jmap \<Rightarrow> string + (string, string) jmap" where
  "add_legacy c [] legacy = Inr legacy"
| "add_legacy c (e # es) legacy =
     (case parse_entry e of
        None \<Rightarrow> Inl (''[credential-cipher] ENCRYPTION_KEYS entry \"'' @ e @ ''\" missing version:key format'')
      | Some (v, raw) \<Rightarrow> add_legacy c es (jset v (hash_key c raw) legacy))"

definition buildKeyRegistry :: "primitives \<Rightarrow> environment \<Rightarrow> string + key_registry" where
  "buildKeyRegistry c env =
     (case en_keys env of
        Some (k # ks) \<Rightarrow>
          (let entries = filter (\<lambda>e. e \<noteq> []) (map trim_text (split_on CHR '','' (k # ks)))
           in if entries = [] then Inl ''[credential-cipher] ENCRYPTION_KEYS is set but empty''
              else case parse_entry (last entries) of
                     None \<Rightarrow> Inl ''[credential-cipher] ENCRYPTION_KEYS format must be version:key,...''
                   | Some (v, raw) \<Rightarrow>
                       map_sum id (\<lambda>legacy. \<lparr> kr_version = v, kr_key = hash_key c raw, kr_legacy = legacy \<rparr>)
                         (add_legacy c (butlast entries) []))
      | _ \<Rightarrow>
          (case en_key env of
             Some (k # ks) \<Rightarrow> Inr \<lparr> kr_version = DEFAULT_VERSION, kr_key = hash_key c (k # ks), kr_legacy = [] \<rparr>
           | _ \<Rightarrow> Inr \<lparr> kr_version = DEFAULT_VERSION, kr_key = [], kr_legacy = [] \<rparr>))"

text \<open>The registry is built at its first use and kept until it is reset.\<close>

definition getRegistry :: "primitives \<Rightarrow> environment \<Rightarrow> key_registry option \<Rightarrow> (string + key_registry) \<times> key_registry option" where
  "getRegistry c env cached =
     (case cached of
        Some r \<Rightarrow> (Inr r, cached)
      | None \<Rightarrow> (case buildKeyRegistry c env of Inl e \<Rightarrow> (Inl e, None) | Inr r \<Rightarrow> (Inr r, Some r)))"

definition resetKeyRegistry :: "key_registry option \<Rightarrow> key_registry option" where
  "resetKeyRegistry cached = None"

section \<open>Stored credentials\<close>

text \<open>In production there is no storing without a key.\<close>

definition encryptCredential :: "primitives \<Rightarrow> bool \<Rightarrow> key_registry \<Rightarrow> nat list \<Rightarrow> string \<Rightarrow> string + string" where
  "encryptCredential c production reg iv v =
     (if kr_key reg = []
      then if production
           then Inl ''[credential-cipher] ENCRYPTION_KEY is required in production''
           else Inr v
      else case encrypt c iv v (kr_key reg) of
             None \<Rightarrow> Inl ''[credential-cipher] encryption failed''
           | Some p \<Rightarrow> Inr (ENC_PREFIX @ kr_version reg @ '':'' @ p))"

text \<open>Version and encrypted part of a payload with four parts, or of one with three from before there were versions.\<close>

definition payload_parts :: "string \<Rightarrow> (string \<times> string) option" where
  "payload_parts payload =
     (let parts = split_on CHR '':'' payload
      in if length parts = 4 then Some (hd parts, join_with CHR '':'' (tl parts))
         else if length parts = 3 then Some (DEFAULT_VERSION, payload)
         else None)"

definition key_of_version :: "key_registry \<Rightarrow> string \<Rightarrow> string option" where
  "key_of_version reg version =
     (let key = (if version = kr_version reg then Some (kr_key reg) else jget (kr_legacy reg) version)
      in if key = Some [] then None else key)"

definition decryptCredential :: "primitives \<Rightarrow> key_registry \<Rightarrow> string option \<Rightarrow> string option" where
  "decryptCredential c reg v =
     (case v of
        None \<Rightarrow> None
      | Some [] \<Rightarrow> None
      | Some s \<Rightarrow>
          (case strip_prefix ENC_PREFIX s of
             None \<Rightarrow> Some s
           | Some payload \<Rightarrow>
               (case payload_parts payload of
                  None \<Rightarrow> None
                | Some (version, part) \<Rightarrow>
                    (case key_of_version reg version of
                       None \<Rightarrow> None
                     | Some key \<Rightarrow> (case decrypt c part key of Inl e \<Rightarrow> None | Inr p \<Rightarrow> Some p)))))"

definition ensureEncrypted :: "primitives \<Rightarrow> bool \<Rightarrow> key_registry \<Rightarrow> nat list \<Rightarrow> string option \<Rightarrow> string + string option" where
  "ensureEncrypted c production reg iv v =
     (case v of
        None \<Rightarrow> Inr None
      | Some s \<Rightarrow> if s = [] then Inr None
                  else if starts_with ENC_PREFIX s then Inr (Some s)
                  else map_sum id Some (encryptCredential c production reg iv s))"

definition reencryptCredential :: "primitives \<Rightarrow> bool \<Rightarrow> key_registry \<Rightarrow> nat list \<Rightarrow> string option \<Rightarrow> string + string option" where
  "reencryptCredential c production reg iv v =
     (case v of
        None \<Rightarrow> Inr None
      | Some s \<Rightarrow>
          if s = [] then Inr None
          else (case strip_prefix ENC_PREFIX s of
                  None \<Rightarrow> map_sum id Some (encryptCredential c production reg iv s)
                | Some payload \<Rightarrow>
                    (case payload_parts payload of
                       None \<Rightarrow> Inr None
                     | Some (version, part) \<Rightarrow>
                         if version = kr_version reg then Inr (Some s)
                         else (case decryptCredential c reg (Some s) of
                                 None \<Rightarrow> Inr None
                               | Some p \<Rightarrow> if p = [] then Inr None
                                           else map_sum id Some (encryptCredential c production reg iv p)))))"

section \<open>Re-encrypting everything\<close>

record secret_account =
  rs_id :: string
  rs_owner :: string
  rs_fields :: "(string \<times> string option) list"
  rs_apiKeys :: "(string \<times> string) list option"

record secret_webhook =
  rw_id :: string
  rw_bot :: "string option"
  rw_secret :: "string option"

record secret_bot =
  rb_id :: string
  rb_owner :: string
  rb_config :: json

record secret_store =
  ss_accounts :: "secret_account list"
  ss_proxies :: "(string \<times> string) list"
  ss_webhooks :: "secret_webhook list"
  ss_bots :: "secret_bot list"

text \<open>\<open>re row field v\<close> is what \<open>reencryptCredential\<close> returns for a value; an error of it aborts the transaction.\<close>

type_synonym reencryption = "string \<Rightarrow> string \<Rightarrow> string \<Rightarrow> string option"

definition rotate_field :: "reencryption \<Rightarrow> string \<Rightarrow> string \<times> string option \<Rightarrow> string \<times> string option" where
  "rotate_field re row fv =
     (case fv of (f, v) \<Rightarrow>
        (f, case v of
              Some (x # xs) \<Rightarrow> (case re row f (x # xs) of Some (y # ys) \<Rightarrow> Some (y # ys) | _ \<Rightarrow> v)
            | _ \<Rightarrow> v))"

definition rotate_pair :: "reencryption \<Rightarrow> string \<Rightarrow> string \<times> string \<Rightarrow> string \<times> string" where
  "rotate_pair re row p =
     ((case re row (''key:'' @ fst p) (fst p) of Some k \<Rightarrow> k | None \<Rightarrow> fst p),
      (case re row (''secret:'' @ snd p) (snd p) of Some k \<Rightarrow> k | None \<Rightarrow> snd p))"

definition rotate_account :: "reencryption \<Rightarrow> secret_account \<Rightarrow> secret_account" where
  "rotate_account re a =
     a\<lparr> rs_fields := map (rotate_field re (rs_id a)) (rs_fields a),
        rs_apiKeys := map_option (map (rotate_pair re (rs_id a))) (rs_apiKeys a) \<rparr>"

definition rotate_proxy :: "reencryption \<Rightarrow> string \<times> string \<Rightarrow> string \<times> string" where
  "rotate_proxy re p =
     (fst p, case re (fst p) ''url'' (snd p) of Some (y # ys) \<Rightarrow> y # ys | _ \<Rightarrow> snd p)"

definition rotate_webhook :: "reencryption \<Rightarrow> secret_webhook \<Rightarrow> secret_webhook" where
  "rotate_webhook re w =
     (case rw_secret w of
        Some (x # xs) \<Rightarrow> w\<lparr> rw_secret := re (rw_id w) ''secret'' (x # xs) \<rparr>
      | _ \<Rightarrow> w)"

fun set_path :: "string list \<Rightarrow> json \<Rightarrow> json \<Rightarrow> json" where
  "set_path [] v j = v"
| "set_path (k # ks) v (JObj ps) = JObj (jset k (set_path ks v (get_prop (JObj ps) k)) ps)"
| "set_path (k # ks) v j = j"

definition wallet_key :: "json \<Rightarrow> string option" where
  "wallet_key config =
     (case get_prop (get_prop (get_prop config ''crypto'') ''wallet'') ''privateKey'' of
        JStr (x # xs) \<Rightarrow> Some (x # xs)
      | _ \<Rightarrow> None)"

definition rotate_bot :: "reencryption \<Rightarrow> secret_bot \<Rightarrow> secret_bot" where
  "rotate_bot re b =
     (case wallet_key (rb_config b) of
        None \<Rightarrow> b
      | Some k \<Rightarrow>
          (case re (rb_id b) ''privateKey'' k of
             Some (y # ys) \<Rightarrow> b\<lparr> rb_config := set_path [''crypto'', ''wallet'', ''privateKey''] (JStr (y # ys)) (rb_config b) \<rparr>
           | _ \<Rightarrow> b))"

text \<open>Accounts, webhooks with a bot and bots of the caller, and all proxies; the number of rows that change.\<close>

definition rotate_rows :: "('x \<Rightarrow> bool) \<Rightarrow> ('x \<Rightarrow> 'x) \<Rightarrow> 'x list \<Rightarrow> 'x list \<times> nat" where
  "rotate_rows mine f rows =
     (map (\<lambda>x. if mine x then f x else x) rows, length (filter (\<lambda>x. mine x \<and> f x \<noteq> x) rows))"

definition rotateEncryption :: "reencryption \<Rightarrow> string \<Rightarrow> secret_store \<Rightarrow> secret_store \<times> nat list" where
  "rotateEncryption re owner db =
     (let own_bot = (\<lambda>b. b \<in> rb_id ` set (filter (\<lambda>x. rb_owner x = owner) (ss_bots db)));
          (accounts, n1) = rotate_rows (\<lambda>a. rs_owner a = owner) (rotate_account re) (ss_accounts db);
          (proxies, n2) = rotate_rows (\<lambda>_. True) (rotate_proxy re) (ss_proxies db);
          (webhooks, n3) = rotate_rows (\<lambda>w. case rw_bot w of None \<Rightarrow> False | Some b \<Rightarrow> own_bot b) (rotate_webhook re) (ss_webhooks db);
          (bots, n4) = rotate_rows (\<lambda>b. rb_owner b = owner) (rotate_bot re) (ss_bots db)
      in (\<lparr> ss_accounts = accounts, ss_proxies = proxies, ss_webhooks = webhooks, ss_bots = bots \<rparr>, [n1, n2, n3, n4]))"

section \<open>Secrets at start-up\<close>

definition WEAK_SECRETS :: "string list" where
  "WEAK_SECRETS = [''change-me'', ''change-me-to-a-random-secret'', ''change-me-in-production'', ''your-32-char-key-here-change-it'',
     ''your-pepper-here-change-it'', ''0123456789abcdef0123456789abcdef'', ''bothive-default-pepper'']"

definition isStrongSecret :: "string option \<Rightarrow> bool" where
  "isStrongSecret v =
     (case v of
        None \<Rightarrow> False
      | Some s \<Rightarrow> 16 \<le> length s \<and> to_lower (trim_text s) \<notin> set WEAK_SECRETS \<and> 4 \<le> length (remdups s))"

record secret_settings =
  se_jwt :: "string option"
  se_encryptionKey :: "string option"
  se_pepper :: "string option"
  se_production :: bool

definition validateApiSecrets :: "secret_settings \<Rightarrow> string option" where
  "validateApiSecrets se =
     (if \<not> isStrongSecret (se_jwt se) then Some ''JWT_SECRET must be set to a strong random value''
      else if \<not> isStrongSecret (se_encryptionKey se) then Some ''ENCRYPTION_KEY must be set to a strong random value''
      else if se_pepper se \<noteq> None \<and> se_pepper se \<noteq> Some [] \<and> \<not> isStrongSecret (se_pepper se)
      then Some ''PASSWORD_PEPPER must not use a known default value''
      else if (se_pepper se = None \<or> se_pepper se = Some []) \<and> se_production se
      then Some ''PASSWORD_PEPPER must be set in production''
      else None)"

definition validateWorkerSecrets :: "secret_settings \<Rightarrow> string option" where
  "validateWorkerSecrets se =
     (if se_production se \<and> \<not> isStrongSecret (se_encryptionKey se)
      then Some ''ENCRYPTION_KEY must be set to a strong random value in production'' else None)"

section \<open>What is stored is read back\<close>

definition bytes :: "nat list \<Rightarrow> bool" where
  "bytes bs \<longleftrightarrow> list_all (\<lambda>b. b < 256) bs"

lemma bytes_replicate [simp]: "b < 256 \<Longrightarrow> bytes (replicate n b)"
  by (induction n) (simp_all add: bytes_def)

text \<open>The documented behaviour of AES-256-GCM: it opens what it sealed, and the tag has 16 bytes.\<close>

definition gcm_ok :: "primitives \<Rightarrow> bool" where
  "gcm_ok c \<longleftrightarrow> (\<forall>k iv x d t. pr_seal c k iv x = Some (d, t) \<longrightarrow>
     pr_open c k iv t d = Some x \<and> length t = 16 \<and> bytes d \<and> bytes t)"

text \<open>It seals whenever key and vector have their lengths; a SHA-256 digest is such a key.\<close>

definition seals :: "primitives \<Rightarrow> bool" where
  "seals c \<longleftrightarrow> (\<forall>k iv x. length k = 32 \<and> length iv = 16 \<longrightarrow> pr_seal c k iv x \<noteq> None) \<and>
     (\<forall>x. length (pr_sha256 c x) = 32 \<and> bytes (pr_sha256 c x))"

lemma hex_char_props:
  assumes "n < 16"
  shows "hex_digit_of (hex_char n) = Some n \<and> hex_char n \<noteq> CHR '':''"
proof (cases "n < 10")
  case True
  then have "is_digit (char_of (48 + n))" "digit_value (char_of (48 + n)) = n" using digit_char by simp_all
  with digit_not lower_digit show ?thesis
    using True by (auto simp: hex_char_def hex_digit_of_def is_hex_def hex_value_def digit_value_def)
next
  case False
  with assms have code: "of_char (char_of (87 + n)) = 87 + n" by simp
  with False assms have h: "is_hex (char_of (87 + n))" "\<not> is_digit (char_of (87 + n))" by (auto simp: is_hex_def is_digit_def)
  have "char_of (87 + n) \<noteq> CHR '':''"
  proof
    assume "char_of (87 + n) = CHR '':''"
    with code have "of_char CHR '':'' = 87 + n" by simp
    then show False by simp
  qed
  with h code False lower_hex [OF h(1)] show ?thesis by (simp add: hex_char_def hex_digit_of_def hex_value_def)
qed

lemma fromHex_toHex: "bytes bs \<Longrightarrow> fromHex (toHex bs) = bs"
proof (induction bs)
  case (Cons b bs)
  then have "b div 16 < 16" "b mod 16 < 16" by (auto simp: bytes_def)
  with Cons hex_char_props show ?case by (simp add: toHex_def bytes_def)
qed (simp add: toHex_def)

lemma no_colon: "bytes bs \<Longrightarrow> CHR '':'' \<notin> set (toHex bs)"
proof (induction bs)
  case (Cons b bs)
  then have "b div 16 < 16" "b mod 16 < 16" by (auto simp: bytes_def)
  with Cons hex_char_props [of "b div 16"] hex_char_props [of "b mod 16"] show ?case
    by (simp add: toHex_def bytes_def not_sym)
qed (simp add: toHex_def)

lemma decrypt_encrypt:
  assumes "gcm_ok c" and "bytes iv" "length iv = 16" and "encrypt c iv x key = Some s"
  shows "decrypt c s key = Inr x"
    and "payload_parts (v @ '':'' @ s) = (if CHR '':'' \<in> set v then payload_parts (v @ '':'' @ s) else Some (v, s))"
proof -
  obtain d t where dt: "pr_seal c (fromHex key) iv x = Some (d, t)" and s: "s = toHex iv @ '':'' @ toHex t @ '':'' @ toHex d"
    using assms(4) by (auto simp: encrypt_def split: option.splits)
  have ok: "pr_open c (fromHex key) iv t d = Some x" "length t = 16" "bytes d" "bytes t"
    using assms(1) dt unfolding gcm_ok_def by blast+
  have parts: "split_on CHR '':'' s = [toHex iv, toHex t, toHex d]"
    using no_colon assms(2) ok(3,4) by (simp add: s split_on_append split_on_none)
  then show "decrypt c s key = Inr x"
    by (simp add: decrypt_def fromHex_toHex assms(2,3) ok IV_LENGTH_def TAG_LENGTH_def)
  have "join_with CHR '':'' [toHex iv, toHex t, toHex d] = s" by (simp add: s)
  with parts show "payload_parts (v @ '':'' @ s) = (if CHR '':'' \<in> set v then payload_parts (v @ '':'' @ s) else Some (v, s))"
    by (simp add: payload_parts_def split_on_append)
qed

lemma encrypted_form:
  assumes "encryptCredential c production reg iv x = Inr s" and "kr_key reg \<noteq> []"
  shows "\<exists>p. encrypt c iv x (kr_key reg) = Some p \<and> s = ENC_PREFIX @ kr_version reg @ '':'' @ p"
  using assms by (auto simp: encryptCredential_def split: option.splits)

lemma decrypt_payload:
  assumes "strip_prefix ENC_PREFIX s = Some payload"
  shows "decryptCredential c reg (Some s) =
    (case payload_parts payload of
       None \<Rightarrow> None
     | Some (version, part) \<Rightarrow>
         (case key_of_version reg version of
            None \<Rightarrow> None
          | Some key \<Rightarrow> (case decrypt c part key of Inl e \<Rightarrow> None | Inr p \<Rightarrow> Some p)))"
  using assms by (cases s) (simp_all add: decryptCredential_def ENC_PREFIX_def strip_prefix_def)

text \<open>A value is read back by every registry that has its key under its version.\<close>

lemma decrypt_with:
  assumes "gcm_ok c" and "bytes iv" "length iv = 16" and "CHR '':'' \<notin> set v"
    and "encrypt c iv x key = Some p" and "key_of_version reg v = Some key"
  shows "decryptCredential c reg (Some (ENC_PREFIX @ v @ '':'' @ p)) = Some x"
proof -
  have "strip_prefix ENC_PREFIX (ENC_PREFIX @ v @ '':'' @ p) = Some (v @ '':'' @ p)" by (rule strip_prefix_append)
  from decrypt_payload [OF this, of c reg] show ?thesis
    using decrypt_encrypt [OF assms(1-3,5)] assms(4,6) by simp
qed

text \<open>
  A credential that was encrypted is read back as it was, by the registry that encrypted it and by
  every registry that still has its key under its version, whatever other keys there are.
\<close>

lemma credential_roundtrip:
  assumes "gcm_ok c" and "bytes iv" "length iv = 16" and "CHR '':'' \<notin> set (kr_version reg)" "kr_key reg \<noteq> []"
    and "encryptCredential c production reg iv x = Inr s"
  shows "decryptCredential c reg (Some s) = Some x \<and>
    (key_of_version reg' (kr_version reg) = Some (kr_key reg) \<longrightarrow> decryptCredential c reg' (Some s) = Some x)"
proof -
  obtain p where p: "encrypt c iv x (kr_key reg) = Some p" "s = ENC_PREFIX @ kr_version reg @ '':'' @ p"
    using encrypted_form [OF assms(6,5)] by blast
  have "key_of_version reg (kr_version reg) = Some (kr_key reg)" using assms(5) by (simp add: key_of_version_def)
  with decrypt_with [OF assms(1-4) p(1)] p(2) show ?thesis by simp
qed

section \<open>Changing the key\<close>

definition plain_key :: "string \<Rightarrow> bool" where
  "plain_key k \<longleftrightarrow> k \<noteq> [] \<and> list_all (\<lambda>ch. \<not> space_char ch \<and> ch \<noteq> CHR '','' \<and> ch \<noteq> CHR '':'') k"

lemma trim_no_space: "list_all (\<lambda>ch. \<not> space_char ch) s \<Longrightarrow> trim_text s = s"
proof -
  have "list_all (\<lambda>ch. \<not> space_char ch) u \<Longrightarrow> dropWhile space_char u = u" for u by (cases u) simp_all
  then show "list_all (\<lambda>ch. \<not> space_char ch) s \<Longrightarrow> trim_text s = s" by (simp add: trim_text_def list_all_rev)
qed

lemma registries:
  assumes "plain_key old" "plain_key new"
  shows "buildKeyRegistry c \<lparr> en_keys = None, en_key = Some old, en_production = b \<rparr> =
      Inr \<lparr> kr_version = ''v1'', kr_key = hash_key c old, kr_legacy = [] \<rparr>"
    and "buildKeyRegistry c \<lparr> en_keys = Some (''v1:'' @ old @ '',v2:'' @ new), en_key = k, en_production = b \<rparr> =
      Inr \<lparr> kr_version = ''v2'', kr_key = hash_key c new, kr_legacy = [(''v1'', hash_key c old)] \<rparr>"
    and "buildKeyRegistry c \<lparr> en_keys = Some (''v2:'' @ new), en_key = k, en_production = b \<rparr> =
      Inr \<lparr> kr_version = ''v2'', kr_key = hash_key c new, kr_legacy = [] \<rparr>"
proof -
  have ok: "CHR '','' \<notin> set x" "CHR '':'' \<notin> set x" "x \<noteq> []" "list_all (\<lambda>ch. \<not> space_char ch) x" if "plain_key x" for x
    using that by (auto simp: plain_key_def list_all_iff)
  have trim: "trim_text (''v1:'' @ old) = ''v1:'' @ old" "trim_text (''v2:'' @ new) = ''v2:'' @ new"
    using ok(4) [OF assms(1)] ok(4) [OF assms(2)] by (simp_all add: trim_no_space space_char_def)
  have entry: "parse_entry (''v1:'' @ old) = Some (''v1'', old)" "parse_entry (''v2:'' @ new) = Some (''v2'', new)"
    using ok(2,3) [OF assms(1)] ok(2,3) [OF assms(2)]
      split_on_append [of "CHR '':''" "''v1''" old] split_on_append [of "CHR '':''" "''v2''" new]
    by (simp_all add: parse_entry_def split_on_none)
  have split2: "split_on CHR '','' (''v1:'' @ old @ '',v2:'' @ new) = [''v1:'' @ old, ''v2:'' @ new]"
    using split_on_append [of "CHR '',''" "''v1:'' @ old" "''v2:'' @ new"] ok(1) [OF assms(1)] ok(1) [OF assms(2)]
      split_on_none [of "CHR '',''" "''v2:'' @ new"] by simp
  have split1: "split_on CHR '','' (''v2:'' @ new) = [''v2:'' @ new]"
    using ok(1) [OF assms(2)] by (intro split_on_none) simp
  show "buildKeyRegistry c \<lparr> en_keys = None, en_key = Some old, en_production = b \<rparr> =
      Inr \<lparr> kr_version = ''v1'', kr_key = hash_key c old, kr_legacy = [] \<rparr>"
    using ok(3) [OF assms(1)] by (auto simp: buildKeyRegistry_def DEFAULT_VERSION_def neq_Nil_conv)
  have ne: "''v1:'' @ old @ '',v2:'' @ new = CHR ''v'' # ''1:'' @ old @ '',v2:'' @ new" "''v2:'' @ new = CHR ''v'' # ''2:'' @ new"
    by simp_all
  show "buildKeyRegistry c \<lparr> en_keys = Some (''v1:'' @ old @ '',v2:'' @ new), en_key = k, en_production = b \<rparr> =
      Inr \<lparr> kr_version = ''v2'', kr_key = hash_key c new, kr_legacy = [(''v1'', hash_key c old)] \<rparr>"
    using split2 trim entry by (simp add: buildKeyRegistry_def Let_def)
  show "buildKeyRegistry c \<lparr> en_keys = Some (''v2:'' @ new), en_key = k, en_production = b \<rparr> =
      Inr \<lparr> kr_version = ''v2'', kr_key = hash_key c new, kr_legacy = [] \<rparr>"
    using split1 trim entry by (simp add: buildKeyRegistry_def Let_def)
qed

lemma hash_key_32: "seals c \<Longrightarrow> length (fromHex (hash_key c x)) = 32 \<and> hash_key c x \<noteq> []"
proof -
  assume "seals c"
  then have h: "length (pr_sha256 c x) = 32" "bytes (pr_sha256 c x)" by (simp_all add: seals_def)
  then have "fromHex (hash_key c x) = pr_sha256 c x" by (simp add: hash_key_def fromHex_toHex)
  with h show ?thesis by (metis fromHex.simps(2) length_0_conv zero_neq_numeral)
qed

lemma encryptCredential_works:
  assumes "seals c" and "length iv = 16" and "kr_key reg = hash_key c raw"
  shows "\<exists>p. encrypt c iv x (kr_key reg) = Some p \<and>
    encryptCredential c production reg iv x = Inr (ENC_PREFIX @ kr_version reg @ '':'' @ p)"
proof -
  have "pr_seal c (fromHex (kr_key reg)) iv x \<noteq> None"
    using assms hash_key_32 [OF assms(1)] by (simp add: seals_def)
  moreover have "kr_key reg \<noteq> []" using assms(3) hash_key_32 [OF assms(1)] by simp
  ultimately show ?thesis by (auto simp: encrypt_def encryptCredential_def)
qed

lemma no_key_for_version:
  assumes "gcm_ok c" and "bytes iv" "length iv = 16" and "CHR '':'' \<notin> set v"
    and "encrypt c iv x key = Some p" and "key_of_version reg v = None"
  shows "decryptCredential c reg (Some (ENC_PREFIX @ v @ '':'' @ p)) = None"
proof -
  have "strip_prefix ENC_PREFIX (ENC_PREFIX @ v @ '':'' @ p) = Some (v @ '':'' @ p)" by (rule strip_prefix_append)
  from decrypt_payload [OF this, of c reg] show ?thesis
    using decrypt_encrypt(2) [OF assms(1-3,5)] assms(4,6) by simp
qed

text \<open>
  C38. The documented procedure to change the key keeps every credential up to its last step: what was
  stored under the single old key is read with both keys, re-encryption moves it to the new key, and it
  is read with the new key alone as \<open>v2\<close>. The other way that the procedure names for the last step, the
  new key as the single one, reads nothing any more, since a single key is always \<open>v1\<close>.
\<close>

theorem rotation_procedure:
  assumes c: "gcm_ok c" "seals c" and keys: "plain_key old" "plain_key new"
    and iv: "bytes iv" "length iv = 16" "bytes iv'" "length iv' = 16" and x: "x \<noteq> []"
    and single: "buildKeyRegistry c \<lparr> en_keys = None, en_key = Some old, en_production = b \<rparr> = Inr r1"
    and both: "buildKeyRegistry c \<lparr> en_keys = Some (''v1:'' @ old @ '',v2:'' @ new), en_key = k, en_production = b \<rparr> = Inr r2"
    and new_only: "buildKeyRegistry c \<lparr> en_keys = Some (''v2:'' @ new), en_key = k, en_production = b \<rparr> = Inr r3"
    and reverted: "buildKeyRegistry c \<lparr> en_keys = None, en_key = Some new, en_production = b \<rparr> = Inr r4"
    and stored: "encryptCredential c b r1 iv x = Inr s"
  shows "decryptCredential c r2 (Some s) = Some x \<and>
    (\<exists>s'. reencryptCredential c b r2 iv' (Some s) = Inr (Some s') \<and> decryptCredential c r2 (Some s') = Some x \<and>
       decryptCredential c r3 (Some s') = Some x \<and> decryptCredential c r4 (Some s') = None)"
proof -
  have r1: "r1 = \<lparr> kr_version = ''v1'', kr_key = hash_key c old, kr_legacy = [] \<rparr>"
    and r2: "r2 = \<lparr> kr_version = ''v2'', kr_key = hash_key c new, kr_legacy = [(''v1'', hash_key c old)] \<rparr>"
    and r3: "r3 = \<lparr> kr_version = ''v2'', kr_key = hash_key c new, kr_legacy = [] \<rparr>"
    and r4: "r4 = \<lparr> kr_version = ''v1'', kr_key = hash_key c new, kr_legacy = [] \<rparr>"
    using single both new_only reverted registries [OF keys] registries(1) [OF keys(2,1)] by simp_all
  have ne: "hash_key c y \<noteq> []" for y using hash_key_32 [OF c(2)] by simp
  obtain p where p: "encrypt c iv x (hash_key c old) = Some p" "s = ENC_PREFIX @ ''v1'' @ '':'' @ p"
    using encrypted_form [OF stored] ne by (auto simp: r1)
  obtain p' where p': "encrypt c iv' x (hash_key c new) = Some p'"
    "encryptCredential c b r2 iv' x = Inr (ENC_PREFIX @ ''v2'' @ '':'' @ p')"
    using encryptCredential_works [OF c(2) iv(4), of r2 new x b] by (auto simp: r2)
  let ?s' = "ENC_PREFIX @ ''v2'' @ '':'' @ p'"
  have reads: "decryptCredential c r2 (Some s) = Some x"
    unfolding p(2) using ne by (intro decrypt_with [OF c(1) iv(1,2) _ p(1)]) (simp_all add: key_of_version_def r2)
  have "strip_prefix ENC_PREFIX s = Some (''v1'' @ '':'' @ p)" unfolding p(2) by (rule strip_prefix_append)
  moreover have "payload_parts (''v1'' @ '':'' @ p) = Some (''v1'', p)"
    using decrypt_encrypt(2) [OF c(1) iv(1,2) p(1), of "''v1''"] by simp
  moreover have "s \<noteq> []" by (simp add: p(2) ENC_PREFIX_def)
  ultimately have "reencryptCredential c b r2 iv' (Some s) = Inr (Some ?s')"
    using reads x p'(2) by (simp add: reencryptCredential_def r2)
  moreover have "decryptCredential c r2 (Some ?s') = Some x" "decryptCredential c r3 (Some ?s') = Some x"
    using ne by (intro decrypt_with [OF c(1) iv(3,4) _ p'(1)]; simp add: key_of_version_def r2 r3)+
  moreover have "decryptCredential c r4 (Some ?s') = None"
    by (intro no_key_for_version [OF c(1) iv(3,4) _ p'(1)]) (simp_all add: key_of_version_def r4)
  ultimately show ?thesis using reads by blast
qed

text \<open>A server with the keys of the rotation alone does not start, though the procedure ends like that.\<close>

lemma keys_only_refused: "se_encryptionKey se = None \<Longrightarrow> validateApiSecrets se \<noteq> None"
  by (simp add: validateApiSecrets_def isStrongSecret_def)

section \<open>Rotation keeps what can be read\<close>

definition account_reads :: "primitives \<Rightarrow> key_registry \<Rightarrow> secret_account \<Rightarrow>
    string option list \<times> (string option \<times> string option) list option" where
  "account_reads c reg a =
     (map (decryptCredential c reg \<circ> snd) (rs_fields a),
      map_option (map (\<lambda>p. (decryptCredential c reg (Some (fst p)), decryptCredential c reg (Some (snd p))))) (rs_apiKeys a))"

lemma reencrypt_reads:
  assumes c: "gcm_ok c" and iv: "bytes iv" "length iv = 16" and reg: "CHR '':'' \<notin> set (kr_version reg)" "kr_key reg \<noteq> []"
    and re: "reencryptCredential c b reg iv (Some v) = Inr r"
  shows "case r of Some s \<Rightarrow> decryptCredential c reg (Some s) = decryptCredential c reg (Some v)
    | None \<Rightarrow> decryptCredential c reg (Some v) \<in> {None, Some []}"
proof (cases "v = []")
  case True
  with re show ?thesis by (simp add: reencryptCredential_def decryptCredential_def)
next
  case v: False
  have fresh: "decryptCredential c reg (Some s) = Some x" if e: "encryptCredential c b reg iv x = Inr s" for x s
  proof -
    obtain p where p: "encrypt c iv x (kr_key reg) = Some p" "s = ENC_PREFIX @ kr_version reg @ '':'' @ p"
      using encrypted_form [OF e reg(2)] by blast
    with reg(2) show ?thesis by (simp only: p(2)) (rule decrypt_with [OF c iv reg(1) p(1)], simp add: key_of_version_def)
  qed
  show ?thesis
  proof (cases "strip_prefix ENC_PREFIX v")
    case None
    then have "decryptCredential c reg (Some v) = Some v" using v by (cases v) (simp_all add: decryptCredential_def)
    with None v re fresh [of v] show ?thesis
      by (cases "encryptCredential c b reg iv v") (auto simp: reencryptCredential_def)
  next
    case payload: (Some payload)
    show ?thesis
    proof (cases "payload_parts payload")
      case None
      with payload v re decrypt_payload [OF payload, of c reg] show ?thesis by (auto simp: reencryptCredential_def)
    next
      case (Some vp)
      obtain version part where vp: "vp = (version, part)" by fastforce
      show ?thesis
      proof (cases "version = kr_version reg")
        case True
        with payload v re Some vp show ?thesis by (auto simp: reencryptCredential_def)
      next
        case False
        show ?thesis
        proof (cases "decryptCredential c reg (Some v)")
          case None
          with False payload v re Some vp show ?thesis by (auto simp: reencryptCredential_def)
        next
          case (Some x)
          with False payload v re \<open>payload_parts payload = Some vp\<close> vp fresh [of x] show ?thesis
            by (cases "x = []"; cases "encryptCredential c b reg iv x") (auto simp: reencryptCredential_def)
        qed
      qed
    qed
  qed
qed

definition or_empty :: "string option \<Rightarrow> string" where
  "or_empty v = (case v of None \<Rightarrow> [] | Some s \<Rightarrow> s)"

text \<open>A rotation that succeeds for every value of the store.\<close>

definition rotation_by :: "primitives \<Rightarrow> bool \<Rightarrow> key_registry \<Rightarrow> (string \<Rightarrow> string \<Rightarrow> nat list) \<Rightarrow> reencryption \<Rightarrow> bool" where
  "rotation_by c b reg ivs re \<longleftrightarrow> (\<forall>row f. bytes (ivs row f) \<and> length (ivs row f) = 16) \<and>
     (\<forall>row f v. reencryptCredential c b reg (ivs row f) (Some v) = Inr (re row f v))"

lemma reads_kept:
  assumes "gcm_ok c" "CHR '':'' \<notin> set (kr_version reg)" "kr_key reg \<noteq> []" "rotation_by c b reg ivs re"
  shows "case re row f v of Some s \<Rightarrow> decryptCredential c reg (Some s) = decryptCredential c reg (Some v)
    | None \<Rightarrow> decryptCredential c reg (Some v) \<in> {None, Some []}"
  using reencrypt_reads [OF assms(1) _ _ assms(2,3), of "ivs row f" b v "re row f v"] assms(4)
  by (simp add: rotation_by_def)

lemma set_path_wallet_key:
  assumes "wallet_key config = Some k" and "v \<noteq> []"
  shows "wallet_key (set_path [''crypto'', ''wallet'', ''privateKey''] (JStr v) config) = Some v"
proof -
  have obj: "\<exists>ps. j = JObj ps" if "get_prop j key \<noteq> JUndef" for j key
    using that by (cases j) simp_all
  let ?c = "get_prop config ''crypto''" and ?w = "get_prop (get_prop config ''crypto'') ''wallet''"
  have "get_prop ?w ''privateKey'' \<noteq> JUndef" using assms(1) by (auto simp: wallet_key_def)
  then obtain ws where ws: "?w = JObj ws" using obj by blast
  then obtain cs where cs: "?c = JObj cs" using obj [of ?c "''wallet''"] by auto
  then obtain ps where ps: "config = JObj ps" using obj [of config "''crypto''"] by auto
  have "set_path [''crypto'', ''wallet'', ''privateKey''] (JStr v) config =
      JObj (jset ''crypto'' (JObj (jset ''wallet'' (JObj (jset ''privateKey'' (JStr v) ws)) cs)) ps)"
    using ws cs by (simp add: ps)
  then show ?thesis using assms(2) by (cases v) (simp_all add: wallet_key_def)
qed

text \<open>
  C39. A rotation never changes what can be read: every credential of every account, the address of every
  proxy, the secret of every webhook and the key of every wallet is decrypted after it as before, for the
  rows of the caller and for all others.
\<close>

theorem rotation_reads_same:
  assumes "gcm_ok c" "CHR '':'' \<notin> set (kr_version reg)" "kr_key reg \<noteq> []" "rotation_by c b reg ivs re"
    and "rotateEncryption re owner db = (db', counts)"
  shows "map (account_reads c reg) (ss_accounts db') = map (account_reads c reg) (ss_accounts db) \<and>
    map (decryptCredential c reg \<circ> Some \<circ> snd) (ss_proxies db') = map (decryptCredential c reg \<circ> Some \<circ> snd) (ss_proxies db) \<and>
    map (\<lambda>w. or_empty (decryptCredential c reg (rw_secret w))) (ss_webhooks db') =
      map (\<lambda>w. or_empty (decryptCredential c reg (rw_secret w))) (ss_webhooks db) \<and>
    map (decryptCredential c reg \<circ> wallet_key \<circ> rb_config) (ss_bots db') =
      map (decryptCredential c reg \<circ> wallet_key \<circ> rb_config) (ss_bots db)"
proof -
  note kept = reads_kept [OF assms(1-4)]
  have field: "decryptCredential c reg (snd (rotate_field re row fv)) = decryptCredential c reg (snd fv)" for row fv
    using kept [where row = row and f = "fst fv"]
    by (cases fv) (force simp: rotate_field_def split: option.splits list.splits)
  have or_old: "decryptCredential c reg (Some (case re row f v of Some k \<Rightarrow> k | None \<Rightarrow> v)) = decryptCredential c reg (Some v)" for row f v
    using kept [where row = row and f = f and v = v] by (auto split: option.splits)
  have account: "account_reads c reg (rotate_account re a) = account_reads c reg a" for a
    by (simp add: account_reads_def rotate_account_def field or_old rotate_pair_def option.map_comp comp_def)
  have proxy: "decryptCredential c reg (Some (snd (rotate_proxy re p))) = decryptCredential c reg (Some (snd p))" for p
    using kept [where row = "fst p" and f = "''url''" and v = "snd p"] by (auto simp: rotate_proxy_def split: option.splits list.splits)
  have webhook: "or_empty (decryptCredential c reg (rw_secret (rotate_webhook re w))) =
      or_empty (decryptCredential c reg (rw_secret w))" for w
  proof (cases "rw_secret w")
    case (Some s)
    with kept [where row = "rw_id w" and f = "''secret''" and v = s] show ?thesis
      by (cases s) (auto simp: rotate_webhook_def or_empty_def decryptCredential_def split: option.splits)
  qed (simp add: rotate_webhook_def)
  have bot: "decryptCredential c reg (wallet_key (rb_config (rotate_bot re x))) = decryptCredential c reg (wallet_key (rb_config x))" for x
  proof (cases "wallet_key (rb_config x)")
    case (Some k)
    with kept [where row = "rb_id x" and f = "''privateKey''" and v = k] set_path_wallet_key [OF Some] show ?thesis
      by (auto simp: rotate_bot_def split: option.splits list.splits)
  qed (simp add: rotate_bot_def)
  show ?thesis
    using assms(5) by (auto simp: rotateEncryption_def rotate_rows_def Let_def comp_def account proxy webhook bot)
qed

text \<open>A webhook secret that cannot be re-encrypted is overwritten, one of a webhook without a bot is left on the old key.\<close>

lemma webhook_secret_destroyed:
  assumes "rw_secret w = Some (x # xs)" and "re (rw_id w) ''secret'' (x # xs) = None"
  shows "rw_secret (rotate_webhook re w) = None"
  using assms by (simp add: rotate_webhook_def)

lemma account_secret_kept:
  assumes "re row f (x # xs) = None"
  shows "rotate_field re row (f, Some (x # xs)) = (f, Some (x # xs))"
  using assms by (simp add: rotate_field_def)

lemma global_webhook_left:
  assumes "rw_bot w = None" and "ss_webhooks db = [w]"
  shows "ss_webhooks (fst (rotateEncryption re owner db)) = [w]"
  using assms by (simp add: rotateEncryption_def rotate_rows_def Let_def)

section \<open>The properties on a concrete cipher\<close>

definition demo_primitives :: primitives where
  "demo_primitives = \<lparr> pr_sha256 = (\<lambda>s. replicate 32 (length s mod 256)),
     pr_seal = (\<lambda>k iv x. Some (map of_char x, replicate 16 0)), pr_open = (\<lambda>k iv t d. Some (map char_of d)) \<rparr>"

lemma demo_ok: "gcm_ok demo_primitives" "seals demo_primitives"
proof -
  have "bytes (map of_char x)" for x :: string by (induction x) (simp_all add: bytes_def)
  then show "gcm_ok demo_primitives"
    by (simp add: gcm_ok_def demo_primitives_def comp_def)
  show "seals demo_primitives" by (simp add: seals_def demo_primitives_def)
qed

definition demo_iv :: "nat list" where "demo_iv = replicate 16 7"

lemma demo_iv_ok: "bytes demo_iv" "length demo_iv = 16"
  by (simp_all add: demo_iv_def)

definition demo_registry :: key_registry where
  "demo_registry = \<lparr> kr_version = ''v2'', kr_key = hash_key demo_primitives ''new'', kr_legacy = [] \<rparr>"

lemma demo_registry_ok: "CHR '':'' \<notin> set (kr_version demo_registry)" "kr_key demo_registry \<noteq> []"
  using hash_key_32 [OF demo_ok(2)] by (simp_all add: demo_registry_def)

lemma credential_roundtrip_witness:
  "\<exists>s. encryptCredential demo_primitives True demo_registry demo_iv ''token'' = Inr s \<and>
     decryptCredential demo_primitives demo_registry (Some s) = Some ''token''"
proof -
  obtain s where s: "encryptCredential demo_primitives True demo_registry demo_iv ''token'' = Inr s"
    using encryptCredential_works [OF demo_ok(2) demo_iv_ok(2), of demo_registry "''new''" "''token''" True]
    by (auto simp: demo_registry_def)
  from credential_roundtrip [OF demo_ok(1) demo_iv_ok demo_registry_ok s, of demo_registry] s show ?thesis by blast
qed

lemma rotation_procedure_witness:
  "\<exists>s. decryptCredential demo_primitives \<lparr> kr_version = ''v1'', kr_key = hash_key demo_primitives ''new'', kr_legacy = [] \<rparr> (Some s) = None \<and>
     decryptCredential demo_primitives demo_registry (Some s) = Some ''token''"
proof -
  have keys: "plain_key ''old''" "plain_key ''new''" by (simp_all add: plain_key_def space_char_def)
  let ?r1 = "\<lparr> kr_version = ''v1'', kr_key = hash_key demo_primitives ''old'', kr_legacy = [] \<rparr>"
  obtain s where s: "encryptCredential demo_primitives True ?r1 demo_iv ''token'' = Inr s"
    using encryptCredential_works [OF demo_ok(2) demo_iv_ok(2), of ?r1 "''old''" "''token''" True] by auto
  from rotation_procedure [OF demo_ok keys demo_iv_ok demo_iv_ok _ registries(1) [OF keys] registries(2) [OF keys]
      registries(3) [OF keys] registries(1) [OF keys(2,1)] s] show ?thesis
    by (auto simp: demo_registry_def)
qed

lemma rotation_exists:
  assumes "seals c" and "kr_key reg = hash_key c raw" and "bytes iv" "length iv = 16"
  shows "rotation_by c b reg (\<lambda>_ _. iv) (\<lambda>row f v. case reencryptCredential c b reg iv (Some v) of Inr r \<Rightarrow> r | Inl e \<Rightarrow> None)"
proof -
  have "\<forall>x. \<exists>s. encryptCredential c b reg iv x = Inr s"
    using encryptCredential_works [OF assms(1,4,2)] by blast
  then obtain f where f: "\<And>x. encryptCredential c b reg iv x = Inr (f x)" by metis
  have "\<exists>r. reencryptCredential c b reg iv (Some v) = Inr r" for v
    by (simp add: reencryptCredential_def f split: option.split)
  then have "reencryptCredential c b reg iv (Some v) = Inr (case reencryptCredential c b reg iv (Some v) of Inr r \<Rightarrow> r | Inl e \<Rightarrow> None)" for v
    by (metis sum.case(2))
  with assms(3,4) show ?thesis by (simp add: rotation_by_def)
qed

lemma plain_kept: "strip_prefix ENC_PREFIX s = None \<Longrightarrow> s \<noteq> [] \<Longrightarrow> decryptCredential c reg (Some s) = Some s"
  by (cases s) (simp_all add: decryptCredential_def)

definition demo_reencryption :: reencryption where
  "demo_reencryption row f v = (case reencryptCredential demo_primitives True demo_registry demo_iv (Some v) of Inr r \<Rightarrow> r | Inl e \<Rightarrow> None)"

lemma demo_rotation: "rotation_by demo_primitives True demo_registry (\<lambda>_ _. demo_iv) demo_reencryption"
proof -
  have "kr_key demo_registry = hash_key demo_primitives ''new''" by (simp add: demo_registry_def)
  from rotation_exists [OF demo_ok(2) this demo_iv_ok, of True] show ?thesis
    by (simp only: demo_reencryption_def [abs_def])
qed

definition demo_store :: secret_store where
  "demo_store = \<lparr> ss_accounts = [], ss_proxies = [], ss_webhooks = [\<lparr> rw_id = ''w'', rw_bot = Some ''b'', rw_secret = Some ''plain'' \<rparr>],
     ss_bots = [\<lparr> rb_id = ''b'', rb_owner = ''u'', rb_config = JObj [] \<rparr>] \<rparr>"

lemma rotation_reads_same_witness:
  "map (\<lambda>w. or_empty (decryptCredential demo_primitives demo_registry (rw_secret w)))
     (ss_webhooks (fst (rotateEncryption demo_reencryption ''u'' demo_store))) = [''plain'']"
proof -
  have "map (\<lambda>w. or_empty (decryptCredential demo_primitives demo_registry (rw_secret w))) (ss_webhooks demo_store) = [''plain'']"
    using plain_kept [of "''plain''" demo_primitives demo_registry]
    by (simp add: demo_store_def or_empty_def strip_prefix_def ENC_PREFIX_def)
  with rotation_reads_same [OF demo_ok(1) demo_registry_ok demo_rotation, of "''u''" demo_store
      "fst (rotateEncryption demo_reencryption ''u'' demo_store)" "snd (rotateEncryption demo_reencryption ''u'' demo_store)"]
  show ?thesis by simp
qed

end
