(* ===== verification/BotMemory.thy ===== *)
theory BotMemory
  imports CryptoConfig
begin

text \<open>
  The memory of the bots: packages/core/src/memory/redis-store.ts (the store over Redis) and bot-memory.ts
  (what scripts do with it), and packages/api/src/services/memory.ts, by which the API reads, clears and
  deletes what the workers have stored. Redis is a map of texts with their expiry, and a text is represented by
  what \<open>JSON.parse\<close> makes of it, so that \<open>JSON.stringify\<close> followed by \<open>JSON.parse\<close> is \<open>json_image\<close>. The texts
  of dates are an argument. Of the patterns of Redis, the star and the question mark are modelled.
\<close>

section \<open>Redis\<close>

datatype stored = Parses json | Unparsable string

type_synonym redis = "(string, stored \<times> ms option) jmap"

definition redis_get :: "ms \<Rightarrow> string \<Rightarrow> redis \<Rightarrow> stored option" where
  "redis_get now k db =
     (case jget db k of
        None \<Rightarrow> None
      | Some (t, None) \<Rightarrow> Some t
      | Some (t, Some e) \<Rightarrow> if now < e then Some t else None)"

definition redis_set :: "string \<Rightarrow> stored \<Rightarrow> redis \<Rightarrow> redis" where
  "redis_set k t db = jset k (t, None) db"

definition redis_setex :: "ms \<Rightarrow> string \<Rightarrow> nat \<Rightarrow> stored \<Rightarrow> redis \<Rightarrow> redis" where
  "redis_setex now k ttl t db = jset k (t, Some (now + int ttl * 1000)) db"

text \<open>The number of keys that were there.\<close>

definition redis_del :: "ms \<Rightarrow> string list \<Rightarrow> redis \<Rightarrow> redis \<times> nat" where
  "redis_del now ks db = (fold jdel ks db, length (filter (\<lambda>k. redis_get now k db \<noteq> None) (remdups ks)))"

fun glob :: "string \<Rightarrow> string \<Rightarrow> bool" where
  "glob [] s = (s = [])"
| "glob (p # ps) [] = (p = CHR ''*'' \<and> glob ps [])"
| "glob (p # ps) (c # cs) =
     (if p = CHR ''*'' then glob ps (c # cs) \<or> glob (p # ps) cs
      else (p = CHR ''?'' \<or> p = c) \<and> glob ps cs)"

text \<open>The whole iteration of \<open>SCAN ... MATCH pattern\<close> while nobody else writes.\<close>

definition redis_scan :: "ms \<Rightarrow> string \<Rightarrow> redis \<Rightarrow> string list" where
  "redis_scan now pattern db = filter (\<lambda>k. glob pattern k \<and> redis_get now k db \<noteq> None) (jkeys db)"

text \<open>\<open>INCRBY\<close>: the expiry stays; nothing where the value is no integer.\<close>

definition redis_incrby :: "ms \<Rightarrow> string \<Rightarrow> int \<Rightarrow> redis \<Rightarrow> (redis \<times> int) option" where
  "redis_incrby now k by db =
     (case redis_get now k db of
        None \<Rightarrow> Some (jset k (Parses (JNum (jint by)), None) db, by)
      | Some (Parses (JNum (Num x))) \<Rightarrow>
          if x = of_int \<lfloor>x\<rfloor>
          then Some (jset k (Parses (JNum (jint (\<lfloor>x\<rfloor> + by))), case jget db k of None \<Rightarrow> None | Some e \<Rightarrow> snd e) db, \<lfloor>x\<rfloor> + by)
          else None
      | _ \<Rightarrow> None)"

definition redis_expire :: "ms \<Rightarrow> string \<Rightarrow> nat \<Rightarrow> redis \<Rightarrow> redis" where
  "redis_expire now k ttl db = (case jget db k of None \<Rightarrow> db | Some (t, e) \<Rightarrow> redis_setex now k ttl t db)"

section \<open>The store\<close>

definition memKey :: "string \<Rightarrow> string \<Rightarrow> string \<Rightarrow> string" where
  "memKey prefix botId key = prefix @ '':'' @ nat_text (length botId) @ '':'' @ botId @ '':'' @ key"

definition scanPattern :: "string \<Rightarrow> string \<Rightarrow> string" where
  "scanPattern prefix botId = prefix @ '':'' @ nat_text (length botId) @ '':'' @ botId @ '':*''"

definition memory_entry :: "(ms \<Rightarrow> string) \<Rightarrow> ms \<Rightarrow> string \<Rightarrow> json \<Rightarrow> nat option \<Rightarrow> json" where
  "memory_entry date now key v ttl =
     JObj [(''key'', JStr key), (''value'', v), (''ttl'', case ttl of None \<Rightarrow> JUndef | Some n \<Rightarrow> JNum (jint (int n))),
       (''createdAt'', JStr (date now)),
       (''expiresAt'', case ttl of None \<Rightarrow> JUndef | Some n \<Rightarrow> JStr (date (now + int n * 1000)))]"

text \<open>A text that is no JSON counts as missing; a value that is no object is a counter.\<close>

definition read_entry :: "(ms \<Rightarrow> string) \<Rightarrow> ms \<Rightarrow> string \<Rightarrow> stored \<Rightarrow> json option" where
  "read_entry date now key raw =
     (case raw of
        Unparsable t \<Rightarrow> None
      | Parses parsed \<Rightarrow>
          if parsed \<noteq> JNull \<and> is_object parsed then Some parsed
          else Some (JObj [(''key'', JStr key), (''value'', parsed), (''ttl'', JUndef), (''createdAt'', JStr (date now))]))"

definition store_get :: "(ms \<Rightarrow> string) \<Rightarrow> string \<Rightarrow> ms \<Rightarrow> string \<Rightarrow> string \<Rightarrow> redis \<Rightarrow> json option" where
  "store_get date prefix now botId key db =
     (case redis_get now (memKey prefix botId key) db of
        None \<Rightarrow> None
      | Some raw \<Rightarrow> read_entry date now key raw)"

definition store_set :: "(ms \<Rightarrow> string) \<Rightarrow> string \<Rightarrow> ms \<Rightarrow> string \<Rightarrow> string \<Rightarrow> json \<Rightarrow> nat option \<Rightarrow> redis \<Rightarrow> redis" where
  "store_set date prefix now botId key v ttl db =
     (let ttl = (case ttl of Some n \<Rightarrow> if 0 < n then Some n else None | None \<Rightarrow> None);
          t = Parses (json_image (memory_entry date now key v ttl))
      in case ttl of
           Some n \<Rightarrow> redis_setex now (memKey prefix botId key) n t db
         | None \<Rightarrow> redis_set (memKey prefix botId key) t db)"

definition store_delete :: "string \<Rightarrow> ms \<Rightarrow> string \<Rightarrow> string \<Rightarrow> redis \<Rightarrow> redis" where
  "store_delete prefix now botId key db = fst (redis_del now [memKey prefix botId key] db)"

definition store_clear :: "string \<Rightarrow> ms \<Rightarrow> string \<Rightarrow> redis \<Rightarrow> redis" where
  "store_clear prefix now botId db = fst (redis_del now (redis_scan now (scanPattern prefix botId) db) db)"

definition store_getAll :: "(ms \<Rightarrow> string) \<Rightarrow> string \<Rightarrow> ms \<Rightarrow> string \<Rightarrow> redis \<Rightarrow> json list" where
  "store_getAll date prefix now botId db =
     List.map_filter (\<lambda>k. case redis_get now k db of
         None \<Rightarrow> None
       | Some raw \<Rightarrow> read_entry date now (drop (length prefix + 1) k) raw) (redis_scan now (scanPattern prefix botId) db)"

text \<open>The script that Redis runs in one piece.\<close>

definition store_increment :: "string \<Rightarrow> ms \<Rightarrow> string \<Rightarrow> string \<Rightarrow> int \<Rightarrow> nat option \<Rightarrow> redis \<Rightarrow> redis \<times> int option" where
  "store_increment prefix now botId key by ttl db =
     (let k = memKey prefix botId key; ttl = (case ttl of None \<Rightarrow> 0 | Some n \<Rightarrow> n)
      in case redis_incrby now k by db of
           None \<Rightarrow> (db, None)
         | Some (db, c) \<Rightarrow> (if c = by \<and> 0 < ttl then redis_expire now k ttl db else db, Some c))"

section \<open>What bots remember\<close>

definition DEFAULT_MEM_TTL_S :: nat where "DEFAULT_MEM_TTL_S = 2592000"

definition entry_value :: "json option \<Rightarrow> json" where
  "entry_value e = (case e of None \<Rightarrow> JUndef | Some e \<Rightarrow> get_prop e ''value'')"

definition props_of :: "json \<Rightarrow> (string \<times> json) list" where
  "props_of v = (case v of JObj ps \<Rightarrow> ps | _ \<Rightarrow> [])"

text \<open>The store of a bot memory: what \<open>BotMemoryStore\<close> declares.\<close>

record 's memory_store =
  ms_get :: "ms \<Rightarrow> string \<Rightarrow> string \<Rightarrow> 's \<Rightarrow> json option"
  ms_set :: "ms \<Rightarrow> string \<Rightarrow> string \<Rightarrow> json \<Rightarrow> nat option \<Rightarrow> 's \<Rightarrow> 's"
  ms_delete :: "ms \<Rightarrow> string \<Rightarrow> string \<Rightarrow> 's \<Rightarrow> 's"
  ms_clear :: "ms \<Rightarrow> string \<Rightarrow> 's \<Rightarrow> 's"
  ms_increment :: "ms \<Rightarrow> string \<Rightarrow> string \<Rightarrow> int \<Rightarrow> nat option \<Rightarrow> 's \<Rightarrow> 's \<times> int option"

definition remember :: "'s memory_store \<Rightarrow> ms \<Rightarrow> string \<Rightarrow> string \<Rightarrow> json \<Rightarrow> nat option \<Rightarrow> 's \<Rightarrow> 's" where
  "remember st now b key v ttl s =
     ms_set st now b (''mem:'' @ key) v (case ttl of None \<Rightarrow> Some DEFAULT_MEM_TTL_S | Some n \<Rightarrow> Some n) s"

definition recall :: "'s memory_store \<Rightarrow> ms \<Rightarrow> string \<Rightarrow> string \<Rightarrow> 's \<Rightarrow> json" where
  "recall st now b key s = entry_value (ms_get st now b (''mem:'' @ key) s)"

definition forget :: "'s memory_store \<Rightarrow> ms \<Rightarrow> string \<Rightarrow> string \<Rightarrow> 's \<Rightarrow> 's" where
  "forget st now b key s = ms_delete st now b (''mem:'' @ key) s"

definition count_up :: "'s memory_store \<Rightarrow> ms \<Rightarrow> string \<Rightarrow> string \<Rightarrow> int \<Rightarrow> 's \<Rightarrow> 's \<times> int option" where
  "count_up st now b counter by s = ms_increment st now b (''cnt:'' @ counter) by (Some 2592000) s"

definition getCount :: "'s memory_store \<Rightarrow> ms \<Rightarrow> string \<Rightarrow> string \<Rightarrow> 's \<Rightarrow> json" where
  "getCount st now b counter s = nullish_or (entry_value (ms_get st now b (''cnt:'' @ counter) s)) (JNum (Num 0))"

definition setConversationContext :: "'s memory_store \<Rightarrow> ms \<Rightarrow> json \<Rightarrow> string \<Rightarrow> string \<Rightarrow> json \<Rightarrow> 's \<Rightarrow> 's" where
  "setConversationContext st now date b chatId ctx s =
     (let key = ''conv:'' @ chatId; existing = entry_value (ms_get st now b key s);
          merged = spread (props_of ctx) [(''chatId'', JStr chatId),
            (''state'', nullish_or (get_prop ctx ''state'') (nullish_or (get_prop existing ''state'') (JStr ''start''))),
            (''data'', JObj (spread (props_of (get_prop existing ''data'')) (props_of (get_prop ctx ''data'')))),
            (''history'', nullish_or (get_prop existing ''history'') (JArr [])), (''updatedAt'', date)]
      in ms_set st now b key (JObj merged) (Some 86400) s)"

definition getConversationContext :: "'s memory_store \<Rightarrow> ms \<Rightarrow> string \<Rightarrow> string \<Rightarrow> 's \<Rightarrow> json" where
  "getConversationContext st now b chatId s = entry_value (ms_get st now b (''conv:'' @ chatId) s)"

text \<open>Nothing where the stored context has no list of messages and \<open>push\<close> throws.\<close>

definition addConversationMessage :: "'s memory_store \<Rightarrow> ms \<Rightarrow> json \<Rightarrow> string \<Rightarrow> string \<Rightarrow> string \<Rightarrow> json \<Rightarrow> 's \<Rightarrow> 's option" where
  "addConversationMessage st now date b chatId role message s =
     (let key = ''conv:'' @ chatId;
          ctx = nullish_or (entry_value (ms_get st now b key s))
            (JObj [(''chatId'', JStr chatId), (''state'', JStr ''start''), (''data'', JObj []), (''history'', JArr []), (''updatedAt'', date)])
      in case get_prop ctx ''history'' of
           JArr h \<Rightarrow>
             let h = h @ [JObj [(''role'', JStr role), (''message'', message), (''timestamp'', date)]];
                 h = (if length h > 50 then drop (length h - 50) h else h)
             in Some (ms_set st now b key (JObj (spread (props_of ctx) [(''history'', JArr h), (''updatedAt'', date)])) (Some 86400) s)
         | _ \<Rightarrow> None)"

text \<open>\<open>plus_one n\<close> is \<open>(n ?? 0) + 1\<close>.\<close>

definition trackUser :: "'s memory_store \<Rightarrow> (json \<Rightarrow> json) \<Rightarrow> ms \<Rightarrow> json \<Rightarrow> string \<Rightarrow> string \<Rightarrow> json \<Rightarrow> 's \<Rightarrow> 's" where
  "trackUser st plus_one now date b userId user s =
     (let key = ''user:'' @ userId; existing = entry_value (ms_get st now b key s);
          base = spread (props_of (nullish_or existing user)) (props_of user);
          merged = spread base [(''firstSeen'', nullish_or (get_prop existing ''firstSeen'') (get_prop user ''firstSeen'')),
            (''lastSeen'', date),
            (''interactionCount'', plus_one (get_prop existing ''interactionCount'')),
            (''metadata'', JObj (spread (props_of (get_prop existing ''metadata'')) (props_of (get_prop user ''metadata''))))]
      in ms_set st now b key (JObj merged) (Some 604800) s)"

definition getUser :: "'s memory_store \<Rightarrow> ms \<Rightarrow> string \<Rightarrow> string \<Rightarrow> 's \<Rightarrow> json" where
  "getUser st now b userId s = entry_value (ms_get st now b (''user:'' @ userId) s)"

definition clearAll :: "'s memory_store \<Rightarrow> ms \<Rightarrow> string \<Rightarrow> 's \<Rightarrow> 's" where
  "clearAll st now b s = ms_clear st now b s"

text \<open>The store over Redis as such a store.\<close>

definition RedisMemoryStore :: "(ms \<Rightarrow> string) \<Rightarrow> string \<Rightarrow> redis memory_store" where
  "RedisMemoryStore date prefix =
     \<lparr> ms_get = store_get date prefix, ms_set = store_set date prefix, ms_delete = store_delete prefix,
       ms_clear = store_clear prefix, ms_increment = store_increment prefix \<rparr>"

section \<open>What the API does with the memory\<close>

fun insert_by :: "('a \<Rightarrow> 'a \<Rightarrow> bool) \<Rightarrow> 'a \<Rightarrow> 'a list \<Rightarrow> 'a list" where
  "insert_by le x [] = [x]"
| "insert_by le x (y # ys) = (if le x y then x # y # ys else y # insert_by le x ys)"

text \<open>The stable sort of JavaScript.\<close>

definition sort_by :: "('a \<Rightarrow> 'a \<Rightarrow> bool) \<Rightarrow> 'a list \<Rightarrow> 'a list" where
  "sort_by le xs = foldr (insert_by le) xs []"

definition API_PREFIX :: string where "API_PREFIX = ''bothive:mem''"

definition scanKeys :: "ms \<Rightarrow> string \<Rightarrow> redis \<Rightarrow> string list" where
  "scanKeys now botId db = redis_scan now (API_PREFIX @ '':'' @ botId @ '':*'') db"

text \<open>\<open>collate\<close> is the order of \<open>localeCompare\<close>.\<close>

definition getBotMemory :: "(string \<Rightarrow> string \<Rightarrow> bool) \<Rightarrow> (ms \<Rightarrow> string) \<Rightarrow> nat \<Rightarrow> ms \<Rightarrow> string \<Rightarrow> redis \<Rightarrow> (string \<times> json) list" where
  "getBotMemory collate date maxKeys now botId db =
     sort_by (\<lambda>a b. collate (fst a) (fst b))
       (List.map_filter (\<lambda>k. case redis_get now k db of
            None \<Rightarrow> None
          | Some (Parses parsed) \<Rightarrow> (case get_prop parsed ''key'' of JStr key \<Rightarrow> Some (key, parsed) | _ \<Rightarrow> None)
          | Some (Unparsable t) \<Rightarrow>
              (let key = drop (length API_PREFIX + 1) k
               in Some (key, JObj [(''key'', JStr key), (''value'', JStr t), (''createdAt'', JStr (date now))])))
         (take maxKeys (scanKeys now botId db)))"

definition deleteBotMemoryKey :: "ms \<Rightarrow> string \<Rightarrow> string \<Rightarrow> redis \<Rightarrow> redis \<times> bool" where
  "deleteBotMemoryKey now botId key db =
     (case redis_del now [API_PREFIX @ '':'' @ botId @ '':'' @ key] db of (db, n) \<Rightarrow> (db, 0 < n))"

definition scanAndDelete :: "ms \<Rightarrow> string \<Rightarrow> redis \<Rightarrow> redis \<times> nat" where
  "scanAndDelete now pattern db =
     (let keys = redis_scan now pattern db in if keys = [] then (db, 0) else redis_del now keys db)"

definition clearBotMemory :: "ms \<Rightarrow> string \<Rightarrow> redis \<Rightarrow> redis \<times> nat" where
  "clearBotMemory now botId db =
     (let keys = scanKeys now botId db in if keys = [] then (db, 0) else redis_del now keys db)"

definition deleteBotRuntimeState :: "ms \<Rightarrow> string \<Rightarrow> redis \<Rightarrow> redis \<times> nat" where
  "deleteBotRuntimeState now botId db =
     (let (db, n1) = clearBotMemory now botId db;
          (db, n2) = scanAndDelete now (''bothive:crypto:daily:'' @ botId @ '':*'') db;
          (db, n3) = redis_del now [positionsKey botId] db;
          (db, n4) = redis_del now [liveStateKey botId] db
      in (db, n1 + n2 + n3 + n4))"

section \<open>The trading state that the API shows\<close>

record crypto_position =
  cp_symbol :: string
  cp_quantity :: jsnum
  cp_avgEntry :: "jsnum option"

record crypto_open_order =
  co_clientOrderId :: string
  co_symbol :: string
  co_sell :: bool
  co_limit :: bool
  co_price :: "jsnum option"
  co_quantity :: jsnum
  co_placedAt :: jsnum

datatype shown_mode = ShowsLive | ShowsDry | ShowsNone

record crypto_state =
  cs_tradeMode :: shown_mode
  cs_positions :: "crypto_position list"
  cs_realizedPnl :: "jsnum option"
  cs_openOrders :: "crypto_open_order list"
  cs_dailySpendUsdt :: jsnum
  cs_updatedAt :: "string option"

definition empty_state :: crypto_state where
  "empty_state = \<lparr> cs_tradeMode = ShowsNone, cs_positions = [], cs_realizedPnl = None, cs_openOrders = [],
     cs_dailySpendUsdt = Num 0, cs_updatedAt = None \<rparr>"

definition positive :: "json \<Rightarrow> bool" where
  "positive v \<longleftrightarrow> json_finite v \<and> jgt (json_num v) (Num 0)"

definition finite_or :: "json \<Rightarrow> jsnum \<Rightarrow> jsnum" where
  "finite_or v d = (if json_finite v then json_num v else d)"

definition shown_position :: "json \<Rightarrow> string \<times> json \<Rightarrow> crypto_position option" where
  "shown_position avgEntry e =
     (if positive (snd e)
      then Some \<lparr> cp_symbol = to_upper (fst e), cp_quantity = json_num (snd e),
             cp_avgEntry = (if positive (get_prop avgEntry (fst e)) then Some (json_num (get_prop avgEntry (fst e))) else None) \<rparr>
      else None)"

text \<open>\<open>show\<close> is \<open>String\<close> of a value.\<close>

definition shown_order :: "(json \<Rightarrow> string) \<Rightarrow> json \<Rightarrow> crypto_open_order option" where
  "shown_order show v =
     (if \<not> truthy v \<or> \<not> is_object v then None
      else case get_prop v ''clientOrderId'' of
             JStr (c # cs) \<Rightarrow>
               Some \<lparr> co_clientOrderId = c # cs, co_symbol = to_upper (show (nullish_or (get_prop v ''symbol'') (JStr []))),
                 co_sell = (get_prop v ''side'' = JStr ''sell''), co_limit = (get_prop v ''type'' = JStr ''limit''),
                 co_price = (if positive (get_prop v ''price'') then Some (json_num (get_prop v ''price'')) else None),
                 co_quantity = (if positive (get_prop v ''quantity'') then json_num (get_prop v ''quantity'') else Num 0),
                 co_placedAt = finite_or (get_prop v ''placedAt'') (Num 0) \<rparr>
           | _ \<Rightarrow> None)"

text \<open>\<open>number\<close> is \<open>Number\<close> of a stored text.\<close>

definition daily_spend :: "(stored \<Rightarrow> jsnum) \<Rightarrow> ms \<Rightarrow> string list \<Rightarrow> redis \<Rightarrow> jsnum" where
  "daily_spend number now keys db =
     fold (\<lambda>k total. let v = (case redis_get now k db of None \<Rightarrow> Num 0 | Some t \<Rightarrow> number t)
            in if is_finite v \<and> jgt v (Num 0) then jadd total (jdiv v (Num 100)) else total) keys (Num 0)"

text \<open>The functions of the standard library: \<open>String\<close>, \<open>Number\<close>, \<open>localeCompare\<close>, and the date of a number or an error.\<close>

record state_reader =
  sr_show :: "json \<Rightarrow> string"
  sr_number :: "stored \<Rightarrow> jsnum"
  sr_collate :: "string \<Rightarrow> string \<Rightarrow> bool"
  sr_date :: "jsnum \<Rightarrow> string option"

definition sorted_positions :: "state_reader \<Rightarrow> json \<Rightarrow> (string \<times> json) list \<Rightarrow> crypto_position list" where
  "sorted_positions sr avgEntry es =
     sort_by (\<lambda>a b. sr_collate sr (cp_symbol a) (cp_symbol b)) (List.map_filter (shown_position avgEntry) es)"

definition live_state :: "state_reader \<Rightarrow> jsnum \<Rightarrow> json \<Rightarrow> crypto_state" where
  "live_state sr spend snapshot =
     (let entries = get_prop snapshot ''avgEntry'';
          avgEntry = (if truthy entries \<and> is_object entries then entries else JObj []);
          held = get_prop snapshot ''positions'';
          orders = get_prop snapshot ''openOrders'';
          shown = \<lparr> cs_tradeMode = ShowsLive,
            cs_positions = sorted_positions sr avgEntry (if truthy held \<and> is_object held then object_entries held else []),
            cs_realizedPnl = Some (finite_or (get_prop snapshot ''realizedPnl'') (Num 0)),
            cs_openOrders = sort_by (\<lambda>a b. jle (co_placedAt a) (co_placedAt b))
              (List.map_filter (shown_order (sr_show sr)) (if truthy orders \<and> is_object orders then object_values orders else [])),
            cs_dailySpendUsdt = spend, cs_updatedAt = None \<rparr>
      in if json_finite (get_prop snapshot ''updatedAt'')
         then (case sr_date sr (json_num (get_prop snapshot ''updatedAt'')) of
                 None \<Rightarrow> empty_state
               | Some d \<Rightarrow> shown\<lparr> cs_updatedAt := Some d \<rparr>)
         else shown)"

definition getCryptoState :: "state_reader \<Rightarrow> ms \<Rightarrow> string \<Rightarrow> redis option \<Rightarrow> crypto_state" where
  "getCryptoState sr now botId up =
     (case up of
        None \<Rightarrow> empty_state
      | Some db \<Rightarrow>
          let spend = daily_spend (sr_number sr) now (redis_scan now (''bothive:crypto:daily:'' @ botId @ '':*'') db) db
          in case (redis_get now (liveStateKey botId) db, redis_get now (positionsKey botId) db) of
               (Some (Parses snapshot), _) \<Rightarrow> if nullish snapshot then empty_state else live_state sr spend snapshot
             | (Some (Unparsable (t # ts)), _) \<Rightarrow> empty_state
             | (_, Some (Parses parsed)) \<Rightarrow>
                 if nullish parsed then empty_state
                 else empty_state\<lparr> cs_tradeMode := ShowsDry, cs_positions := sorted_positions sr JUndef (object_entries parsed),
                        cs_dailySpendUsdt := spend \<rparr>
             | (_, Some (Unparsable (t # ts))) \<Rightarrow> empty_state
             | _ \<Rightarrow> empty_state\<lparr> cs_dailySpendUsdt := spend \<rparr>)"

section \<open>Keys\<close>

lemma digits_split:
  assumes "nat_text m @ CHR '':'' # x = nat_text n @ CHR '':'' # y"
  shows "m = n \<and> x = y"
proof -
  have none: "CHR '':'' \<notin> set (nat_text k)" for k
    using nat_text_digits [of k] digit_not by (auto simp: all_digits_def list_all_iff)
  from assms have "split_on CHR '':'' (nat_text m @ CHR '':'' # x) = split_on CHR '':'' (nat_text n @ CHR '':'' # y)" by simp
  then have "nat_text m = nat_text n" by (simp add: split_on_append none)
  with assms show ?thesis by simp
qed

text \<open>No two bots share a key, whatever colons their identifiers and keys have.\<close>

lemma memKey_inj [simp]: "memKey p b k = memKey p b' k' \<longleftrightarrow> b = b' \<and> k = k'"
proof
  assume "memKey p b k = memKey p b' k'"
  then have "length b = length b' \<and> b @ CHR '':'' # k = b' @ CHR '':'' # k'"
    using digits_split [of "length b" "b @ CHR '':'' # k" "length b'" "b' @ CHR '':'' # k'"] by (simp add: memKey_def)
  then show "b = b' \<and> k = k'" by (metis append_eq_append_conv list.inject)
qed simp

definition plain_id :: "string \<Rightarrow> bool" where
  "plain_id s \<longleftrightarrow> CHR ''*'' \<notin> set s \<and> CHR ''?'' \<notin> set s"

lemma glob_star: "glob ''*'' s"
  by (induction s) simp_all

lemma glob_prefix: "plain_id p \<Longrightarrow> glob (p @ ''*'') s \<longleftrightarrow> (\<exists>r. s = p @ r)"
proof (induction p arbitrary: s)
  case Nil
  show ?case using glob_star by simp
next
  case (Cons c p)
  then have "c \<noteq> CHR ''*''" "c \<noteq> CHR ''?''" "plain_id p" by (auto simp: plain_id_def)
  with Cons show ?case by (cases s) auto
qed

lemma plain_digits [simp]: "plain_id (nat_text n)"
  using nat_text_digits [of n] by (auto simp: plain_id_def all_digits_def list_all_iff is_digit_def)

lemma plain_append [simp]: "plain_id (a @ b) \<longleftrightarrow> plain_id a \<and> plain_id b" "plain_id (c # b) \<longleftrightarrow> c \<noteq> CHR ''*'' \<and> c \<noteq> CHR ''?'' \<and> plain_id b"
  "plain_id []"
  by (auto simp: plain_id_def)

lemma glob_scanPattern:
  assumes "plain_id prefix" "plain_id b"
  shows "glob (scanPattern prefix b) k \<longleftrightarrow> (\<exists>key. k = memKey prefix b key)"
proof -
  have "scanPattern prefix b = (prefix @ '':'' @ nat_text (length b) @ '':'' @ b @ '':'') @ ''*''" by (simp add: scanPattern_def)
  with assms glob_prefix [of "prefix @ '':'' @ nat_text (length b) @ '':'' @ b @ '':''" k] show ?thesis
    by (simp add: memKey_def)
qed

section \<open>What a store promises\<close>

lemma map_of_fold_jdel: "map_of (fold jdel ks db) k = (if k \<in> set ks then None else map_of db k)"
  by (induction ks arbitrary: db) auto

lemma redis_get_update:
  "redis_get now k (jset k (t, None) db) = Some t"
  "redis_get now k (jset k (t, Some e) db) = (if now < e then Some t else None)"
  "k' \<noteq> k \<Longrightarrow> redis_get now k' (jset k te db) = redis_get now k' db"
  by (simp_all add: redis_get_def)

lemma redis_get_del: "redis_get now k (fst (redis_del t ks db)) = (if k \<in> set ks then None else redis_get now k db)"
  by (simp add: redis_get_def redis_del_def map_of_fold_jdel)

lemma redis_get_key: "redis_get now k db \<noteq> None \<Longrightarrow> k \<in> set (jkeys db)"
  using map_of_eq_None_iff [of db k] by (auto simp: redis_get_def split: option.splits)

text \<open>Between two times there is no key that is missing first and there later.\<close>

lemma redis_get_later: "redis_get t k db = None \<Longrightarrow> t \<le> now \<Longrightarrow> redis_get now k db = None"
  by (auto simp: redis_get_def split: option.splits prod.splits if_splits)

text \<open>The messages of a conversation, one after the other.\<close>

fun converse :: "'s memory_store \<Rightarrow> (ms \<Rightarrow> string) \<Rightarrow> string \<Rightarrow> string \<Rightarrow> (ms \<times> string \<times> string) list \<Rightarrow> 's \<Rightarrow> 's option" where
  "converse st date b chat [] s = Some s"
| "converse st date b chat ((t, role, m) # xs) s =
     (case addConversationMessage st t (JStr (date t)) b chat role (JStr m) s of
        None \<Rightarrow> None
      | Some s \<Rightarrow> converse st date b chat xs s)"

definition message_json :: "(ms \<Rightarrow> string) \<Rightarrow> ms \<times> string \<times> string \<Rightarrow> json" where
  "message_json date x = (case x of (t, role, m) \<Rightarrow>
     JObj [(''role'', JStr role), (''message'', JStr m), (''timestamp'', JStr (date t))])"

definition last50 :: "'a list \<Rightarrow> 'a list" where
  "last50 xs = drop (length xs - 50) xs"

lemma last50_append: "last50 (last50 xs @ ys) = last50 (xs @ ys)"
  by (cases "length xs \<le> 50") (simp_all add: last50_def add.commute)

fun within_day :: "(ms \<times> 'a) list \<Rightarrow> bool" where
  "within_day (x # y # xs) = (fst x \<le> fst y \<and> fst y < fst x + 86400000 \<and> within_day (y # xs))"
| "within_day _ = True"

lemma image_messages [simp]: "image_elements (map (message_json date) xs) = map (message_json date) xs"
  by (induction xs) (auto simp: message_json_def)

lemma map_of_image_props:
  "jmap_ok ps \<Longrightarrow> map_of (image_props ps) k = (case map_of ps k of None \<Rightarrow> None | Some v \<Rightarrow> if v = JUndef then None else Some (json_image v))"
proof (induction ps)
  case (Cons p ps)
  have "map_of ps (fst p) = None" using Cons.prems by (simp add: map_of_eq_None_iff)
  with Cons show ?case by (cases p) (auto split: option.split)
qed simp

lemma fst_image_props: "set (jkeys (image_props ps)) \<subseteq> set (jkeys ps)"
  by (induction ps) auto

lemma image_props_ok: "jmap_ok ps \<Longrightarrow> jmap_ok (image_props ps)"
proof (induction ps)
  case (Cons p ps)
  with fst_image_props [of ps] show ?case by (cases p) auto
qed simp

lemma spread_ok: "jmap_ok a \<Longrightarrow> jmap_ok (spread a b)"
  by (induction b arbitrary: a) (auto simp: spread_def)

definition has_history :: "'s memory_store \<Rightarrow> (ms \<Rightarrow> string) \<Rightarrow> string \<Rightarrow> string \<Rightarrow> ms \<Rightarrow> (ms \<times> string \<times> string) list \<Rightarrow> 's \<Rightarrow> bool" where
  "has_history st date b chat now xs s \<longleftrightarrow>
     (\<exists>ps. entry_value (ms_get st now b (''conv:'' @ chat) s) = JObj ps \<and> jmap_ok ps \<and>
        map_of ps ''history'' = Some (JArr (map (message_json date) xs)))"

text \<open>
  The interface of a store. A value that is no \<open>undefined\<close> is read back as its JSON image until it expires; what is
  done to one key is not seen at another, and clearing a bot clears no other.
\<close>

locale bot_store =
  fixes st :: "'s memory_store" and ok_bot :: "string \<Rightarrow> bool"
  assumes get_set: "\<lbrakk>t \<le> now; now < t + int n * 1000; v \<noteq> JUndef\<rbrakk> \<Longrightarrow>
      entry_value (ms_get st now b k (ms_set st t b k v (Some n) s)) = json_image v"
    and get_other: "(b', k') \<noteq> (b, k) \<Longrightarrow> ms_get st now b' k' (ms_set st t b k v ttl s) = ms_get st now b' k' s"
    and delete_same: "ms_get st now b k (ms_delete st t b k s) = None"
    and delete_other: "(b', k') \<noteq> (b, k) \<Longrightarrow> ms_get st now b' k' (ms_delete st t b k s) = ms_get st now b' k' s"
    and clear_same: "\<lbrakk>ok_bot b; t \<le> now\<rbrakk> \<Longrightarrow> ms_get st now b k (ms_clear st t b s) = None"
    and clear_other: "\<lbrakk>ok_bot b; b' \<noteq> b\<rbrakk> \<Longrightarrow> ms_get st now b' k' (ms_clear st t b s) = ms_get st now b' k' s"
begin

lemma recall_remember:
  assumes "t \<le> now" "now < t + int (case ttl of None \<Rightarrow> DEFAULT_MEM_TTL_S | Some n \<Rightarrow> n) * 1000" "v \<noteq> JUndef"
  shows "recall st now b key (remember st t b key v ttl s) = json_image v"
  using assms by (simp add: recall_def remember_def get_set split: option.splits)

lemma recall_other:
  "(b', key') \<noteq> (b, key) \<Longrightarrow> recall st now b' key' (remember st t b key v ttl s) = recall st now b' key' s"
  by (simp add: recall_def remember_def get_other)

lemma recall_forget: "recall st now b key (forget st t b key s) = JUndef"
  by (simp add: recall_def forget_def delete_same entry_value_def)

lemma message_added:
  assumes "has_history st date b chat t xs s \<or> xs = [] \<and> ms_get st t b (''conv:'' @ chat) s = None"
  shows "\<exists>s'. addConversationMessage st t (JStr (date t)) b chat role (JStr m) s = Some s' \<and>
    (\<forall>now. t \<le> now \<and> now < t + 86400000 \<longrightarrow> has_history st date b chat now (last50 (xs @ [(t, role, m)])) s')"
proof -
  let ?key = "''conv:'' @ chat"
  let ?ctx = "nullish_or (entry_value (ms_get st t b ?key s))
      (JObj [(''chatId'', JStr chat), (''state'', JStr ''start''), (''data'', JObj []), (''history'', JArr []), (''updatedAt'', JStr (date t))])"
  obtain ps where ps: "?ctx = JObj ps" "jmap_ok ps" "map_of ps ''history'' = Some (JArr (map (message_json date) xs))"
    using assms by (auto simp: has_history_def nullish_or_def nullish_def entry_value_def)
  let ?h = "map (message_json date) (last50 (xs @ [(t, role, m)]))"
  let ?new = "spread ps [(''history'', JArr ?h), (''updatedAt'', JStr (date t))]"
  have "addConversationMessage st t (JStr (date t)) b chat role (JStr m) s = Some (ms_set st t b ?key (JObj ?new) (Some 86400) s)"
    using ps by (auto simp: addConversationMessage_def Let_def props_of_def last50_def message_json_def drop_map)
  moreover have "has_history st date b chat now (last50 (xs @ [(t, role, m)])) (ms_set st t b ?key (JObj ?new) (Some 86400) s)"
    if "t \<le> now" "now < t + 86400000" for now
  proof -
    have "entry_value (ms_get st now b ?key (ms_set st t b ?key (JObj ?new) (Some 86400) s)) = JObj (image_props ?new)"
      using that get_set [of t now 86400 "JObj ?new" b ?key s] by simp
    moreover have "jmap_ok ?new" by (rule spread_ok) (rule ps(2))
    ultimately show ?thesis
      by (simp add: has_history_def image_props_ok map_of_image_props map_of_spread)
  qed
  ultimately show ?thesis by blast
qed

lemma conversation_kept:
  assumes "has_history st date b chat (fst x) ys s \<or> ys = [] \<and> ms_get st (fst x) b (''conv:'' @ chat) s = None"
    and "within_day (x # xs)"
  shows "\<exists>s'. converse st date b chat (x # xs) s = Some s' \<and>
    (\<forall>now. fst (last (x # xs)) \<le> now \<and> now < fst (last (x # xs)) + 86400000 \<longrightarrow>
       has_history st date b chat now (last50 (ys @ x # xs)) s')"
  using assms
proof (induction xs arbitrary: x ys s)
  case Nil
  obtain t role m where x: "x = (t, role, m)" by (cases x)
  with message_added [of date b chat t ys s role m] Nil show ?case by auto
next
  case (Cons y xs)
  obtain t role m where x: "x = (t, role, m)" by (cases x)
  with message_added [of date b chat t ys s role m] Cons.prems(1) obtain s' where
    s': "addConversationMessage st t (JStr (date t)) b chat role (JStr m) s = Some s'"
      "\<forall>now. t \<le> now \<and> now < t + 86400000 \<longrightarrow> has_history st date b chat now (last50 (ys @ [x])) s'" by auto
  have "has_history st date b chat (fst y) (last50 (ys @ [x])) s'" using s'(2) Cons.prems(2) x by simp
  with Cons.IH [of y "last50 (ys @ [x])" s'] Cons.prems(2) show ?case
    by (auto simp: x s'(1) last50_append)
qed

end

lemma date_image: "json_image (JStr s) = JStr s" by simp

interpretation redis_store: bot_store "RedisMemoryStore dt ''bothive:mem''" plain_id
proof unfold_locales
  have prefix: "plain_id ''bothive:mem''" by (simp add: plain_id_def)
  note defs = RedisMemoryStore_def store_set_def store_get_def store_delete_def store_clear_def redis_setex_def redis_set_def
  {
    fix t now :: ms and n :: nat and v :: json and b k :: string and s :: redis
    assume t: "t \<le> now" "now < t + int n * 1000" "v \<noteq> JUndef"
    then have "0 < n" by (cases n) simp_all
    with t show "entry_value (ms_get (RedisMemoryStore dt ''bothive:mem'') now b k
        (ms_set (RedisMemoryStore dt ''bothive:mem'') t b k v (Some n) s)) = json_image v"
      by (simp add: defs Let_def redis_get_update read_entry_def memory_entry_def entry_value_def)
  }
  show "ms_get (RedisMemoryStore dt ''bothive:mem'') now b' k' (ms_set (RedisMemoryStore dt ''bothive:mem'') t b k v ttl s) =
      ms_get (RedisMemoryStore dt ''bothive:mem'') now b' k' s" if "(b', k') \<noteq> (b, k)" for now t b b' k k' v ttl s
    using that by (simp add: defs Let_def redis_get_update split: option.split)
  show "ms_get (RedisMemoryStore dt ''bothive:mem'') now b k (ms_delete (RedisMemoryStore dt ''bothive:mem'') t b k s) = None" for now t b k s
    by (simp add: defs redis_get_del)
  show "ms_get (RedisMemoryStore dt ''bothive:mem'') now b' k' (ms_delete (RedisMemoryStore dt ''bothive:mem'') t b k s) =
      ms_get (RedisMemoryStore dt ''bothive:mem'') now b' k' s" if "(b', k') \<noteq> (b, k)" for now t b b' k k' s
    using that by (auto simp: defs redis_get_del)
  show "ms_get (RedisMemoryStore dt ''bothive:mem'') now b k (ms_clear (RedisMemoryStore dt ''bothive:mem'') t b s) = None"
    if b: "plain_id b" "t \<le> now" for now t b k s
  proof -
    obtain K where K: "K = memKey ''bothive:mem'' b k" by blast
    have "K \<in> set (redis_scan t (scanPattern ''bothive:mem'' b) s)" if there: "redis_get now K s \<noteq> None"
    proof -
      have "redis_get t K s \<noteq> None"
      proof
        assume "redis_get t K s = None"
        from redis_get_later [OF this b(2)] there show False by simp
      qed
      moreover have "glob (scanPattern ''bothive:mem'' b) K" unfolding glob_scanPattern [OF prefix b(1)] K by blast
      ultimately show ?thesis
        using redis_get_key [OF there] unfolding redis_scan_def set_filter mem_Collect_eq by (intro conjI)
    qed
    then have "redis_get now K (fst (redis_del t (redis_scan t (scanPattern ''bothive:mem'' b) s) s)) = None"
      by (cases "redis_get now K s") (simp_all add: redis_get_del)
    then show ?thesis by (simp add: defs K)
  qed
  show "ms_get (RedisMemoryStore dt ''bothive:mem'') now b' k' (ms_clear (RedisMemoryStore dt ''bothive:mem'') t b s) =
      ms_get (RedisMemoryStore dt ''bothive:mem'') now b' k' s" if "plain_id b" "b' \<noteq> b" for now t b b' k' s
    using that glob_scanPattern [OF prefix that(1)] by (auto simp: defs redis_get_del redis_scan_def)
qed

text \<open>
  A conversation keeps the last fifty messages in their order, each as it was said, however many are
  added, as long as no day passes between two of them: this is what every store that keeps its promises
  yields, and so what a bot recalls from Redis.
\<close>

lemma conversation_keeps_last:
  assumes "redis_get (fst x) (memKey ''bothive:mem'' b (''conv:'' @ chat)) db = None"
    and "within_day (x # xs)" and "fst (last (x # xs)) \<le> now" "now < fst (last (x # xs)) + 86400000"
  shows "\<exists>db'. converse (RedisMemoryStore date ''bothive:mem'') date b chat (x # xs) db = Some db' \<and>
    get_prop (getConversationContext (RedisMemoryStore date ''bothive:mem'') now b chat db') ''history'' =
      JArr (map (message_json date) (last50 (x # xs)))"
proof -
  have "ms_get (RedisMemoryStore date ''bothive:mem'') (fst x) b (''conv:'' @ chat) db = None"
    using assms(1) by (simp add: RedisMemoryStore_def store_get_def)
  then obtain db' where db': "converse (RedisMemoryStore date ''bothive:mem'') date b chat (x # xs) db = Some db'"
    "has_history (RedisMemoryStore date ''bothive:mem'') date b chat now (last50 (x # xs)) db'"
    using redis_store.conversation_kept [where dt = date and date = date and b = b and chat = chat and x = x and ys = "[]" and s = db and xs = xs] assms(2-4) by fastforce
  from db'(2) show ?thesis
    unfolding has_history_def using db'(1) by (auto simp: getConversationContext_def)
qed

section \<open>Counters\<close>

text \<open>A counter is never without an expiry, so none is left behind.\<close>

definition counters_expire :: "redis \<Rightarrow> bool" where
  "counters_expire db \<longleftrightarrow> (\<forall>b c t e. jget db (memKey ''bothive:mem'' b (''cnt:'' @ c)) = Some (t, e) \<longrightarrow> e \<noteq> None)"

lemma counter_keeps_expiry:
  "counters_expire db \<Longrightarrow> counters_expire (fst (count_up (RedisMemoryStore date ''bothive:mem'') now b c by db))"
  unfolding counters_expire_def
  by (auto simp: count_up_def RedisMemoryStore_def store_increment_def Let_def redis_incrby_def redis_expire_def
      redis_setex_def redis_get_def split: option.splits prod.splits stored.splits json.splits jsnum.splits if_splits)
    (metis option.distinct(1))

section \<open>The API and the workers\<close>

lemma scanAndDelete_get: "\<not> glob pattern k \<Longrightarrow> redis_get now k (fst (scanAndDelete t pattern db)) = redis_get now k db"
  by (simp add: scanAndDelete_def Let_def redis_get_del redis_scan_def)

text \<open>All keys under the prefix are those of bots.\<close>

definition worker_keys :: "redis \<Rightarrow> bool" where
  "worker_keys db \<longleftrightarrow> (\<forall>k \<in> set (jkeys db). \<forall>r. k = ''bothive:mem:'' @ r \<longrightarrow> (\<exists>b key. k = memKey ''bothive:mem'' b key))"

lemma worker_keys_single: "worker_keys [(memKey ''bothive:mem'' b k, v)]"
  unfolding worker_keys_def
proof (intro ballI allI impI)
  fix k' r
  assume "k' \<in> set (jkeys [(memKey ''bothive:mem'' b k, v)])"
  then have "k' = memKey ''bothive:mem'' b k" by (simp only: list.map fst_conv list.set singleton_iff)
  then show "\<exists>b key. k' = memKey ''bothive:mem'' b key" by blast
qed

lemma api_scan_empty:
  assumes "worker_keys db" and "plain_id b" and "CHR '':'' \<notin> set b" and "\<not> all_digits b"
  shows "scanKeys now b db = []"
proof -
  have "\<not> glob (API_PREFIX @ '':'' @ b @ '':*'') k" if k: "k \<in> set (jkeys db)" for k
  proof
    have plain: "plain_id (''bothive:mem:'' @ b @ '':'')" using assms(2) by simp
    assume "glob (API_PREFIX @ '':'' @ b @ '':*'') k"
    then obtain r where r: "k = ''bothive:mem:'' @ b @ CHR '':'' # r"
      using glob_prefix [OF plain, of k] by (auto simp: API_PREFIX_def)
    with assms(1) k obtain b' key where "k = memKey ''bothive:mem'' b' key" unfolding worker_keys_def by blast
    with r have "b @ CHR '':'' # r = nat_text (length b') @ CHR '':'' # (b' @ CHR '':'' # key)" by (simp add: memKey_def)
    then have "hd (split_on CHR '':'' (b @ CHR '':'' # r)) = hd (split_on CHR '':'' (nat_text (length b') @ CHR '':'' # (b' @ CHR '':'' # key)))"
      by simp
    moreover have "CHR '':'' \<notin> set (nat_text (length b'))"
      using nat_text_digits [of "length b'"] digit_not by (auto simp: all_digits_def list_all_iff)
    ultimately have "b = nat_text (length b')" using assms(3) by (simp add: split_on_append)
    then show False using assms(4) nat_text_digits by metis
  qed
  then show ?thesis by (auto simp: scanKeys_def redis_scan_def filter_empty_conv)
qed

text \<open>
  The API never sees the memory of a bot: the workers put the length of the identifier into their keys,
  the API looks for keys without it. It shows no entry, deletes none, and when a bot is deleted its
  memory stays.
\<close>

lemma api_misses_memory:
  assumes "worker_keys db" and "plain_id b" and "CHR '':'' \<notin> set b" and "\<not> all_digits b"
  shows "getBotMemory collate date maxKeys now b db = [] \<and> clearBotMemory now b db = (db, 0) \<and>
    snd (deleteBotMemoryKey now b key db) = False \<and>
    (\<forall>b' k. redis_get now (memKey ''bothive:mem'' b' k) (fst (deleteBotRuntimeState now b db)) =
       redis_get now (memKey ''bothive:mem'' b' k) db)"
proof -
  note none = api_scan_empty [OF assms]
  obtain k where k: "k = ''bothive:mem:'' @ b @ '':'' @ key" by blast
  have "redis_get now k db = None"
  proof (rule ccontr)
    assume r: "redis_get now k db \<noteq> None"
    then have "k \<in> set (jkeys db)" by (rule redis_get_key)
    moreover have "glob (API_PREFIX @ '':'' @ b @ '':*'') k"
      using glob_prefix [of "''bothive:mem:'' @ b @ '':''" k] assms(2) by (simp add: API_PREFIX_def k)
    ultimately have "k \<in> set (scanKeys now b db)" using r unfolding scanKeys_def redis_scan_def set_filter mem_Collect_eq by blast
    with none show False by simp
  qed
  then have "snd (deleteBotMemoryKey now b key db) = False"
    by (simp add: deleteBotMemoryKey_def redis_del_def API_PREFIX_def k split: prod.split)
  moreover have "redis_get now (memKey ''bothive:mem'' b' k) (fst (deleteBotRuntimeState now b db)) =
      redis_get now (memKey ''bothive:mem'' b' k) db" for b' k
  proof -
    have "plain_id (''bothive:crypto:daily:'' @ b @ '':'')" using assms(2) by simp
    from glob_prefix [OF this] have daily: "\<not> glob (''bothive:crypto:daily:'' @ b @ '':*'') (memKey ''bothive:mem'' b' k)"
      by (simp add: memKey_def)
    have other: "memKey ''bothive:mem'' b' k \<noteq> positionsKey b" "memKey ''bothive:mem'' b' k \<noteq> liveStateKey b"
      by (simp_all add: memKey_def positionsKey_def liveStateKey_def)
    show ?thesis
      using scanAndDelete_get [OF daily, of now now db]
      by (simp add: deleteBotRuntimeState_def clearBotMemory_def none Let_def case_prod_unfold redis_get_del other)
  qed
  ultimately show ?thesis
    using none by (simp add: getBotMemory_def clearBotMemory_def sort_by_def List.map_filter_def)
qed

text \<open>
  A simulated portfolio is never shown: the worker stores its positions below a property, the API reads the
  properties of the whole. Whatever a bot holds, the list of its positions is empty.
\<close>

lemma dry_positions_hidden:
  assumes "redis_get now (positionsKey b) db = Some (Parses (json_image (dry_state_json st)))"
    and "redis_get now (liveStateKey b) db = None"
  shows "cs_positions (getCryptoState sr now b (Some db)) = [] \<and> cs_tradeMode (getCryptoState sr now b (Some db)) = ShowsDry"
proof -
  obtain p a t where image: "json_image (dry_state_json st) = JObj [(''positions'', JObj p), (''avgEntry'', JObj a), (''trailingHigh'', JObj t)]"
    by (auto simp: dry_state_json_def fromEntries_def)
  have "List.map_filter (shown_position JUndef) [(''positions'', JObj p), (''avgEntry'', JObj a), (''trailingHigh'', JObj t)] = []"
    by (simp add: List.map_filter_def shown_position_def positive_def)
  then show ?thesis
    using assms by (simp add: getCryptoState_def Let_def image nullish_def sorted_positions_def sort_by_def)
qed

definition sample_reader :: state_reader where
  "sample_reader = \<lparr> sr_show = (\<lambda>_. []), sr_number = (\<lambda>_. Num 0), sr_collate = (\<lambda>_ _. True), sr_date = (\<lambda>_. None) \<rparr>"

text \<open>The spend of a day is the sum over all keys that have not expired, those of the day before too.\<close>

lemma spend_of_two_days:
  assumes "redis_get now k1 db = Some (Parses (JNum (Num 1000)))" "redis_get now k2 db = Some (Parses (JNum (Num 500)))"
    and "number (Parses (JNum (Num 1000))) = Num 1000" "number (Parses (JNum (Num 500))) = Num 500"
  shows "daily_spend number now [k1, k2] db = jadd (jadd (Num 0) (jdiv (Num 1000) (Num 100))) (jdiv (Num 500) (Num 100))"
  using assms by (simp add: daily_spend_def)

lemma conversation_keeps_last_witness:
  "\<exists>db'. get_prop (getConversationContext (RedisMemoryStore (\<lambda>_. ''d'') ''bothive:mem'') 2000 ''b'' ''1'' db') ''history'' =
     JArr (map (message_json (\<lambda>_. ''d'')) [(0, ''user'', ''hi''), (1000, ''bot'', ''hello'')])"
  using conversation_keeps_last [of "(0, ''user'', ''hi'')" "''b''" "''1''" "[]" "[(1000, ''bot'', ''hello'')]" 2000 "\<lambda>_. ''d''"]
  by (auto simp: redis_get_def last50_def)

lemma api_misses_memory_witness:
  "getBotMemory (\<lambda>_ _. True) (\<lambda>_. []) 1000 0 ''b'' [(memKey ''bothive:mem'' ''b'' ''mem:x'', Parses (JNum (Num 1)), None)] = []"
proof -
  have "worker_keys [(memKey ''bothive:mem'' ''b'' ''mem:x'', Parses (JNum (Num 1)), None)]"
    by (rule worker_keys_single)
  moreover have "plain_id ''b''" "CHR '':'' \<notin> set ''b''" "\<not> all_digits ''b''" by (simp_all add: all_digits_def is_digit_def)
  ultimately show ?thesis using api_misses_memory [of _ "''b''" "\<lambda>_ _. True" "\<lambda>_. []" 1000 0] by blast
qed

lemma dry_positions_hidden_witness:
  "cs_positions (getCryptoState sample_reader 0 ''b''
     (Some [(positionsKey ''b'', Parses (json_image (dry_state_json (empty_dry_state\<lparr> ds_positions := [(''BTCUSDT'', Num 2)] \<rparr>))), None)])) = []"
proof -
  have "positionsKey ''b'' \<noteq> liveStateKey ''b''" by (simp add: positionsKey_def liveStateKey_def)
  then show ?thesis
    using dry_positions_hidden [of 0 "''b''" "[(positionsKey ''b'', Parses (json_image (dry_state_json (empty_dry_state\<lparr> ds_positions := [(''BTCUSDT'', Num 2)] \<rparr>))), None)]"
        "empty_dry_state\<lparr> ds_positions := [(''BTCUSDT'', Num 2)] \<rparr>" sample_reader]
    by (simp add: redis_get_def)
qed

end
