(* ===== verification/AuthTokens.thy ===== *)
theory AuthTokens
  imports BotMemory Credentials RateLimiter
begin

text \<open>
  Who is asking: password hashes, session cookies, tokens and their revocation, from
  packages/api/src/utils (password.ts, cookies.ts, auth-hook.ts, query.ts, tenancy.ts), the cookie hook of
  app.ts, and the part of routes/auth.ts that issues tokens. scrypt, the signing and the verification of tokens
  and the number that a text stands for are arguments. Texts are ASCII.
\<close>

section \<open>Passwords\<close>

type_synonym scrypt = "string \<Rightarrow> string \<Rightarrow> nat list"

definition hashPassword :: "scrypt \<Rightarrow> string \<Rightarrow> nat list \<Rightarrow> string \<Rightarrow> string" where
  "hashPassword f pepper salt_bytes password =
     (let salt = toHex salt_bytes in salt @ '':'' @ toHex (f (password @ pepper) salt))"

text \<open>\<open>timingSafeEqual\<close> throws on different lengths, which counts as a wrong password.\<close>

definition verifyPassword :: "scrypt \<Rightarrow> string \<Rightarrow> string \<Rightarrow> string \<Rightarrow> bool" where
  "verifyPassword f pepper password hashed =
     (case split_on CHR '':'' hashed of
        salt # h # _ \<Rightarrow> if salt = [] \<or> h = [] then False else f (password @ pepper) salt = fromHex h
      | _ \<Rightarrow> False)"

definition scrypt_ok :: "scrypt \<Rightarrow> bool" where
  "scrypt_ok f \<longleftrightarrow> (\<forall>p s. bytes (f p s) \<and> f p s \<noteq> [])"

lemma toHex_eq_Nil [simp]: "toHex bs = [] \<longleftrightarrow> bs = []"
  by (cases bs) (simp_all add: toHex_def)

lemma verify_hash:
  assumes "scrypt_ok f" "bytes salt" "salt \<noteq> []"
  shows "verifyPassword f pepper q (hashPassword f pepper salt p) \<longleftrightarrow> f (q @ pepper) (toHex salt) = f (p @ pepper) (toHex salt)"
proof -
  have "bytes (f (p @ pepper) (toHex salt))" "f (p @ pepper) (toHex salt) \<noteq> []" using assms(1) by (auto simp: scrypt_ok_def)
  then show ?thesis
    using assms(2,3)
    by (simp add: verifyPassword_def hashPassword_def Let_def split_on_append split_on_none no_colon fromHex_toHex)
qed

section \<open>Cookies\<close>

definition TOKEN_COOKIE :: string where "TOKEN_COOKIE = ''bothive_token''"

text \<open>\<open>indexOf\<close> and the two slices around it.\<close>

fun cut_at :: "char \<Rightarrow> string \<Rightarrow> (string \<times> string) option" where
  "cut_at z [] = None"
| "cut_at z (c # cs) =
     (if c = z then Some ([], cs) else map_option (\<lambda>(a, b). (c # a, b)) (cut_at z cs))"

definition put_cookie :: "string \<Rightarrow> (string, string) jmap \<Rightarrow> (string, string) jmap" where
  "put_cookie part out =
     (case cut_at CHR ''='' part of
        None \<Rightarrow> out
      | Some (k, v) \<Rightarrow> if trim_text k = [] then out else jset (trim_text k) (trim_text v) out)"

definition parseCookieHeader :: "string option \<Rightarrow> (string, string) jmap" where
  "parseCookieHeader header =
     (case header of
        None \<Rightarrow> []
      | Some h \<Rightarrow> if h = [] then [] else fold put_cookie (split_on CHR '';'' h) [])"

definition isSecure :: "bool \<Rightarrow> bool \<Rightarrow> bool" where
  "isSecure production cookie_secure \<longleftrightarrow> production \<or> cookie_secure"

definition sameSite :: "bool \<Rightarrow> string" where
  "sameSite secure = (if secure then ''Strict'' else ''Lax'')"

text \<open>\<open>parts.join('; ')\<close>\<close>

fun join_parts :: "string list \<Rightarrow> string" where
  "join_parts [] = []"
| "join_parts [p] = p"
| "join_parts (p # ps) = p @ ''; '' @ join_parts ps"

definition buildTokenCookie :: "bool \<Rightarrow> string \<Rightarrow> nat \<Rightarrow> string" where
  "buildTokenCookie secure token maxAge =
     join_parts ([TOKEN_COOKIE @ ''='' @ token, ''HttpOnly'', ''Path=/'', ''SameSite='' @ sameSite secure,
       ''Max-Age='' @ nat_text maxAge] @ (if secure then [''Secure''] else []))"

definition clearTokenCookie :: "bool \<Rightarrow> string" where
  "clearTokenCookie secure =
     join_parts ([TOKEN_COOKIE @ ''='', ''HttpOnly'', ''Path=/'', ''SameSite='' @ sameSite secure, ''Max-Age=0'']
       @ (if secure then [''Secure''] else []))"

text \<open>The hook of app.ts: a header that is there wins, else the token of the cookie becomes one.\<close>

definition authorization :: "string option \<Rightarrow> string option \<Rightarrow> string option" where
  "authorization header cookie =
     (case header of
        Some (c # cs) \<Rightarrow> header
      | _ \<Rightarrow> (case jget (parseCookieHeader cookie) TOKEN_COOKIE of
                Some (c # cs) \<Rightarrow> Some (''Bearer '' @ c # cs)
              | _ \<Rightarrow> header))"

text \<open>
  What a browser sends back is the first part of what it was given. A token without separators that does not
  begin or end with a space, as every token does not, comes back as it was.
\<close>

definition token_text :: "string \<Rightarrow> bool" where
  "token_text t \<longleftrightarrow> t \<noteq> [] \<and> CHR '';'' \<notin> set t \<and> trim_text t = t"

lemma first_part: "CHR '';'' \<notin> set p \<Longrightarrow> hd (split_on CHR '';'' (join_parts ((p # q # ps) @ r))) = p"
  by (simp add: split_on_append)

lemma cookie_roundtrip:
  assumes "token_text t"
  shows "hd (split_on CHR '';'' (buildTokenCookie secure t n)) = TOKEN_COOKIE @ ''='' @ t"
    and "authorization None (Some (TOKEN_COOKIE @ ''='' @ t)) = Some (''Bearer '' @ t)"
proof -
  define p where "p = TOKEN_COOKIE @ ''='' @ t"
  have semi: "CHR '';'' \<notin> set p" using assms by (simp add: p_def token_text_def TOKEN_COOKIE_def)
  show "hd (split_on CHR '';'' (buildTokenCookie secure t n)) = TOKEN_COOKIE @ ''='' @ t"
    unfolding buildTokenCookie_def p_def [symmetric] by (rule first_part [OF semi])
  have cut: "cut_at CHR ''='' p = Some (TOKEN_COOKIE, t)" by (simp add: p_def TOKEN_COOKIE_def)
  have trim: "trim_text TOKEN_COOKIE = TOKEN_COOKIE" "TOKEN_COOKIE \<noteq> []" by (simp_all add: TOKEN_COOKIE_def trim_text_def space_char_def)
  have "p \<noteq> []" by (simp add: p_def)
  then have "parseCookieHeader (Some p) = [(TOKEN_COOKIE, t)]"
    using assms trim by (simp add: parseCookieHeader_def split_on_none [OF semi] put_cookie_def cut token_text_def)
  then show "authorization None (Some (TOKEN_COOKIE @ ''='' @ t)) = Some (''Bearer '' @ t)"
    unfolding p_def [symmetric] using assms by (simp add: authorization_def token_text_def split: list.split)
qed

section \<open>Tokens\<close>

text \<open>The payload of a token; \<open>ver\<close> is the revocation epoch of the user when it was issued.\<close>

record claims =
  cl_id :: string
  cl_email :: string
  cl_role :: string
  cl_ver :: "jsnum option"
  cl_jti :: "string option"
  cl_exp :: "int option"

record auth_env =
  ae_scrypt :: scrypt
  ae_pepper :: string
  ae_sign :: "claims \<Rightarrow> string"
  ae_verify :: "ms \<Rightarrow> string option \<Rightarrow> claims option"
  ae_number :: "string \<Rightarrow> jsnum"
  ae_is_email :: "string \<Rightarrow> bool"
  ae_secure :: bool
  ae_registration :: bool

text \<open>
  What the signing library promises of a payload: the header with the signed token gives it back until it expires.
  Verification reads the header of a request and the clock.
\<close>

definition tokens_ok :: "auth_env \<Rightarrow> claims \<Rightarrow> bool" where
  "tokens_ok env c \<longleftrightarrow> (\<forall>now. ae_verify env now (Some (''Bearer '' @ ae_sign env c)) =
     (case cl_exp c of Some e \<Rightarrow> if now < e * 1000 then Some c else None | None \<Rightarrow> Some c))"

section \<open>Revocation\<close>

text \<open>Redis answers \<open>None\<close> while it cannot be reached.\<close>

definition revokedKey :: "string \<Rightarrow> string" where
  "revokedKey userId = ''revoked:'' @ userId"

definition sessionKey :: "string \<Rightarrow> string \<Rightarrow> string" where
  "sessionKey userId jti = ''revoked:'' @ userId @ '':'' @ jti"

text \<open>\<open>Number(raw)\<close> for a text: only those JSON texts that are numbers stand for one.\<close>

definition stored_number :: "(string \<Rightarrow> jsnum) \<Rightarrow> stored \<Rightarrow> jsnum" where
  "stored_number number t = (case t of Parses (JNum x) \<Rightarrow> x | Parses _ \<Rightarrow> NaN | Unparsable s \<Rightarrow> number s)"

definition finite_else_0 :: "jsnum \<Rightarrow> jsnum" where
  "finite_else_0 x = (case x of Num r \<Rightarrow> Num r | _ \<Rightarrow> Num 0)"

definition epoch_value :: "(string \<Rightarrow> jsnum) \<Rightarrow> stored option \<Rightarrow> jsnum" where
  "epoch_value number raw =
     (case raw of None \<Rightarrow> Num 0 | Some t \<Rightarrow> if t = Unparsable [] then Num 0 else finite_else_0 (stored_number number t))"

definition currentRevocationEpoch :: "auth_env \<Rightarrow> ms \<Rightarrow> redis option \<Rightarrow> string \<Rightarrow> jsnum" where
  "currentRevocationEpoch env now db userId =
     (case db of
        None \<Rightarrow> Num 0
      | Some db \<Rightarrow> epoch_value (ae_number env) (redis_get now (revokedKey userId) db))"

text \<open>\<open>isTokenRevoked\<close>: nothing is revoked while Redis is away.\<close>

definition isTokenRevoked :: "auth_env \<Rightarrow> ms \<Rightarrow> redis option \<Rightarrow> claims \<Rightarrow> bool" where
  "isTokenRevoked env now db token =
     (case db of
        None \<Rightarrow> False
      | Some db \<Rightarrow>
          let currentEpoch = (case redis_get now (revokedKey (cl_id token)) db of
                None \<Rightarrow> Num 0
              | Some t \<Rightarrow> finite_else_0 (stored_number (ae_number env) t));
              jtiRevoked = (case cl_jti token of
                Some (c # cs) \<Rightarrow>
                  (case redis_get now (sessionKey (cl_id token) (c # cs)) db of
                     None \<Rightarrow> False
                   | Some t \<Rightarrow> t \<noteq> Unparsable [])
              | _ \<Rightarrow> False);
              staleVersion = jlt (case cl_ver token of None \<Rightarrow> Num 0 | Some v \<Rightarrow> v) currentEpoch
          in jtiRevoked \<or> staleVersion)"

text \<open>\<open>expiresIn: '24h'\<close> counts from the second in which the token is signed.\<close>

definition issueUserToken :: "auth_env \<Rightarrow> ms \<Rightarrow> redis option \<Rightarrow> string \<Rightarrow> string \<times> string \<times> string \<Rightarrow> claims \<times> string" where
  "issueUserToken env now db jti user =
     (case user of (userId, email, role) \<Rightarrow>
        let c = \<lparr> cl_id = userId, cl_email = email, cl_role = role, cl_ver = Some (currentRevocationEpoch env now db userId),
                  cl_jti = Some jti, cl_exp = Some (now div 1000 + 86400) \<rparr>
        in (c, ae_sign env c))"

section \<open>Queries\<close>

text \<open>\<open>Number.parseInt\<close> of a text: the digits after white space and a sign.\<close>

definition leading_digits :: "string \<Rightarrow> string" where
  "leading_digits s = takeWhile is_digit s"

definition parse_int :: "string \<Rightarrow> int option" where
  "parse_int s =
     (case dropWhile space_char s of
        c # cs \<Rightarrow>
          (if c = CHR ''-'' then (if leading_digits cs = [] then None else Some (- int (parse_dec (leading_digits cs))))
           else if c = CHR ''+'' then (if leading_digits cs = [] then None else Some (int (parse_dec (leading_digits cs))))
           else if leading_digits (c # cs) = [] then None else Some (int (parse_dec (leading_digits (c # cs)))))
      | [] \<Rightarrow> None)"

definition parsePositiveInt :: "string option \<Rightarrow> int \<Rightarrow> int option \<Rightarrow> int" where
  "parsePositiveInt v fallback mx =
     (case parse_int (case v of None \<Rightarrow> [] | Some s \<Rightarrow> s) of
        None \<Rightarrow> fallback
      | Some n \<Rightarrow> if n < 0 then fallback else (case mx of Some m \<Rightarrow> min n m | None \<Rightarrow> n))"

definition MAX_SKIP :: int where "MAX_SKIP = 100000"

definition text_or_none :: "json \<Rightarrow> string option" where
  "text_or_none v = (case v of JStr s \<Rightarrow> Some s | _ \<Rightarrow> None)"

definition parsePage :: "json \<Rightarrow> int \<Rightarrow> int \<Rightarrow> int \<times> int" where
  "parsePage query limit maxLimit =
     (parsePositiveInt (text_or_none (get_prop query ''limit'')) limit (Some maxLimit),
      min (parsePositiveInt (text_or_none (get_prop query ''offset'')) 0 None) MAX_SKIP)"

lemma page_bounded:
  assumes "0 \<le> limit" "limit \<le> maxLimit"
  shows "fst (parsePage q limit maxLimit) \<in> {0..maxLimit} \<and> snd (parsePage q limit maxLimit) \<in> {0..MAX_SKIP}"
  using assms by (auto simp: parsePage_def parsePositiveInt_def MAX_SKIP_def split: option.split)

text \<open>Rows are looked up by id and owner together, so a row of somebody else counts as missing.\<close>

definition ownerScopedUnique :: "('row \<Rightarrow> string) \<Rightarrow> ('row \<Rightarrow> string) \<Rightarrow> string \<Rightarrow> string \<Rightarrow> 'row list \<Rightarrow> 'row option" where
  "ownerScopedUnique row_id row_owner ownerId i rows = find (\<lambda>r. row_id r = i \<and> row_owner r = ownerId) rows"

lemma foreign_is_missing:
  "ownerScopedUnique row_id row_owner o1 i rows = Some r \<Longrightarrow> r \<in> set rows \<and> row_id r = i \<and> row_owner r = o1"
  by (auto simp: ownerScopedUnique_def find_Some_iff)

end
