(* ===== verification/AuthRoutes.thy ===== *)
theory AuthRoutes
  imports AuthTokens
begin

text \<open>
  Accounts of people and their sessions: packages/api/src/routes/auth.ts over the guards of
  utils/auth-hook.ts. A handler is a function on the world of tables, Redis and rate limiters that gives a reply
  and the new world; the raw SQL statements are functions on the table of users, which the database runs one at
  a time. Handlers that read before they write are split at the awaits between, so that several of them can be
  interleaved. Random values and the clock come with the request.
\<close>

section \<open>Tables and requests\<close>

record user_row =
  us_id :: string
  us_email :: string
  us_hash :: string
  us_name :: "string option"
  us_role :: string

record invite_row =
  nv_id :: string
  nv_email :: string
  nv_token :: string
  nv_role :: string
  nv_createdById :: string
  nv_usedAt :: "ms option"
  nv_expiresAt :: ms

text \<open>The limiters have keys of their own in Redis.\<close>

record 'r auth_world =
  aw_users :: "user_row list"
  aw_invites :: "invite_row list"
  aw_redis :: redis
  aw_redisUp :: bool
  aw_limits :: 'r
  aw_login :: "'r redis_limiter"
  aw_register :: "'r redis_limiter"
  aw_password :: "'r redis_limiter"

record auth_request =
  rq_authorization :: "string option"
  rq_ip :: string
  rq_now :: ms
  rq_later :: ms
  rq_salt :: "nat list"
  rq_uuid :: string
  rq_newId :: string

datatype 'a reply = Rejects nat string | Answers 'a

definition redis_of :: "'r auth_world \<Rightarrow> redis option" where
  "redis_of w = (if aw_redisUp w then Some (aw_redis w) else None)"

definition find_user :: "string \<Rightarrow> user_row list \<Rightarrow> user_row option" where
  "find_user i us = find (\<lambda>u. us_id u = i) us"

definition user_by_email :: "string \<Rightarrow> user_row list \<Rightarrow> user_row option" where
  "user_by_email e us = find (\<lambda>u. us_email u = e) us"

text \<open>Ids and addresses are unique; the database refuses a second one.\<close>

definition insert_user :: "user_row \<Rightarrow> user_row list \<Rightarrow> user_row list option" where
  "insert_user u us =
     (if us_id u \<in> us_id ` set us \<or> us_email u \<in> us_email ` set us then None else Some (us @ [u]))"

section \<open>Guards\<close>

definition WRITE_METHODS :: "string list" where
  "WRITE_METHODS = [''POST'', ''PATCH'', ''PUT'', ''DELETE'']"

definition verifyUser :: "auth_env \<Rightarrow> auth_request \<Rightarrow> 'r auth_world \<Rightarrow> user_row reply" where
  "verifyUser env rq w =
     (case ae_verify env (rq_now rq) (rq_authorization rq) of
        None \<Rightarrow> Rejects 401 ''UNAUTHORIZED''
      | Some token \<Rightarrow>
          if isTokenRevoked env (rq_now rq) (redis_of w) token then Rejects 401 ''UNAUTHORIZED''
          else (case find_user (cl_id token) (aw_users w) of
                  None \<Rightarrow> Rejects 401 ''UNAUTHORIZED''
                | Some u \<Rightarrow> Answers u))"

definition requireAuth :: "auth_env \<Rightarrow> string \<Rightarrow> auth_request \<Rightarrow> 'r auth_world \<Rightarrow> user_row reply" where
  "requireAuth env http_method rq w =
     (case verifyUser env rq w of
        Rejects s c \<Rightarrow> Rejects s c
      | Answers u \<Rightarrow>
          if us_role u = ''admin'' then Answers u
          else if us_role u = ''viewer'' \<and> http_method \<notin> set WRITE_METHODS then Answers u
          else Rejects 403 ''FORBIDDEN'')"

definition requireAdmin :: "auth_env \<Rightarrow> auth_request \<Rightarrow> 'r auth_world \<Rightarrow> user_row reply" where
  "requireAdmin env rq w =
     (case verifyUser env rq w of
        Rejects s c \<Rightarrow> Rejects s c
      | Answers u \<Rightarrow> if us_role u = ''admin'' then Answers u else Rejects 403 ''FORBIDDEN'')"

definition rateLimited ::
  "('r auth_world \<Rightarrow> 'r redis_limiter) \<Rightarrow> (('r redis_limiter \<Rightarrow> 'r redis_limiter) \<Rightarrow> 'r auth_world \<Rightarrow> 'r auth_world) \<Rightarrow>
   auth_request \<Rightarrow> 'r auth_world \<Rightarrow> 'r auth_world \<times> bool" where
  "rateLimited limiter_of set_limiter rq w =
     (case redis_check (rq_ip rq) (rq_now rq) (rq_later rq) (limiter_of w) (aw_limits w) of
        (l, r, ok) \<Rightarrow> ((set_limiter (\<lambda>_. l) w)\<lparr> aw_limits := r \<rparr>, \<not> ok))"

section \<open>Inputs\<close>

definition text_between :: "nat \<Rightarrow> nat \<Rightarrow> json \<Rightarrow> bool" where
  "text_between lo hi v = (case v of JStr s \<Rightarrow> lo \<le> length s \<and> length s \<le> hi | _ \<Rightarrow> False)"

definition email_text :: "auth_env \<Rightarrow> json \<Rightarrow> bool" where
  "email_text env v = (case v of JStr s \<Rightarrow> ae_is_email env s | _ \<Rightarrow> False)"

fun the_text :: "json \<Rightarrow> string" where
  "the_text (JStr s) = s"
| "the_text _ = []"

definition LoginSchema :: "auth_env \<Rightarrow> json \<Rightarrow> (string \<times> string) option" where
  "LoginSchema env body =
     (let e = get_prop body ''email''; p = get_prop body ''password''
      in if is_plain_object body \<and> email_text env e \<and> is_string p \<and> p \<noteq> JStr [] then Some (the_text e, the_text p) else None)"

definition RegisterSchema :: "auth_env \<Rightarrow> json \<Rightarrow> (string \<times> string \<times> string option) option" where
  "RegisterSchema env body =
     (let e = get_prop body ''email''; p = get_prop body ''password''; n = get_prop body ''name''
      in if is_plain_object body \<and> email_text env e \<and> text_between 8 100 p \<and> (n = JUndef \<or> text_between 1 100 n)
         then Some (the_text e, the_text p, text_or_none n) else None)"

definition ChangePasswordSchema :: "json \<Rightarrow> (string \<times> string) option" where
  "ChangePasswordSchema body =
     (let c = get_prop body ''currentPassword''; n = get_prop body ''newPassword''
      in if is_plain_object body \<and> text_between 1 200 c \<and> text_between 8 100 n then Some (the_text c, the_text n) else None)"

section \<open>Signing in and out\<close>

record public_user =
  pu_id :: string
  pu_email :: string
  pu_name :: "string option"
  pu_role :: string

definition publicUser :: "user_row \<Rightarrow> public_user" where
  "publicUser u = \<lparr> pu_id = us_id u, pu_email = us_email u, pu_name = us_name u, pu_role = us_role u \<rparr>"

record signed_in =
  si_token :: string
  si_user :: public_user
  si_cookie :: string

definition sign_in :: "auth_env \<Rightarrow> auth_request \<Rightarrow> 'r auth_world \<Rightarrow> user_row \<Rightarrow> signed_in" where
  "sign_in env rq w u =
     (case issueUserToken env (rq_now rq) (redis_of w) (rq_uuid rq) (us_id u, us_email u, us_role u) of
        (c, t) \<Rightarrow> \<lparr> si_token = t, si_user = publicUser u, si_cookie = buildTokenCookie (ae_secure env) t 86400 \<rparr>)"

definition authenticate :: "auth_env \<Rightarrow> string \<Rightarrow> string option \<Rightarrow> bool" where
  "authenticate env password hashed =
     (case hashed of
        Some (c # cs) \<Rightarrow> verifyPassword (ae_scrypt env) (ae_pepper env) password (c # cs)
      | _ \<Rightarrow> False)"

text \<open>Up to the check of the password; the token is issued after another await.\<close>

definition login_check :: "auth_env \<Rightarrow> auth_request \<Rightarrow> json \<Rightarrow> 'r auth_world \<Rightarrow> 'r auth_world \<times> user_row reply" where
  "login_check env rq body w =
     (case rateLimited aw_login aw_login_update rq w of
        (w, limited) \<Rightarrow>
          (w, if limited then Rejects 429 ''RATE_LIMITED''
              else case LoginSchema env body of
                     None \<Rightarrow> Rejects 422 ''VALIDATION_ERROR''
                   | Some (email, password) \<Rightarrow>
                       (case user_by_email email (aw_users w) of
                          None \<Rightarrow> Rejects 401 ''UNAUTHORIZED''
                        | Some u \<Rightarrow> if authenticate env password (Some (us_hash u)) then Answers u
                                    else Rejects 401 ''UNAUTHORIZED'')))"

definition login :: "auth_env \<Rightarrow> auth_request \<Rightarrow> json \<Rightarrow> 'r auth_world \<Rightarrow> 'r auth_world \<times> signed_in reply" where
  "login env rq body w =
     (case login_check env rq body w of
        (w, Rejects s c) \<Rightarrow> (w, Rejects s c)
      | (w, Answers u) \<Rightarrow> (w, Answers (sign_in env rq w u)))"

definition email_name :: "string \<Rightarrow> string" where
  "email_name e = hd (split_on CHR ''@'' e)"

definition new_user :: "auth_env \<Rightarrow> auth_request \<Rightarrow> string \<Rightarrow> string \<Rightarrow> string option \<Rightarrow> string \<Rightarrow> user_row" where
  "new_user env rq email password name role =
     \<lparr> us_id = rq_newId rq, us_email = email,
       us_hash = hashPassword (ae_scrypt env) (ae_pepper env) (rq_salt rq) password,
       us_name = Some (case name of Some n \<Rightarrow> n | None \<Rightarrow> email_name email), us_role = role \<rparr>"

text \<open>The serializable transaction: count and create.\<close>

definition register_tx :: "user_row \<Rightarrow> user_row list \<Rightarrow> user_row list reply" where
  "register_tx u us =
     (if us \<noteq> [] then Rejects 403 ''FORBIDDEN''
      else case insert_user u us of None \<Rightarrow> Rejects 409 ''CONFLICT'' | Some us' \<Rightarrow> Answers us')"

definition register_user :: "auth_env \<Rightarrow> auth_request \<Rightarrow> json \<Rightarrow> 'r auth_world \<Rightarrow> 'r auth_world \<times> signed_in reply" where
  "register_user env rq body w =
     (if \<not> ae_registration env then (w, Rejects 403 ''FORBIDDEN'')
      else case rateLimited aw_register aw_register_update rq w of
        (w, limited) \<Rightarrow>
          if limited then (w, Rejects 429 ''RATE_LIMITED'')
          else case RegisterSchema env body of
            None \<Rightarrow> (w, Rejects 422 ''VALIDATION_ERROR'')
          | Some (email, password, name) \<Rightarrow>
              (let u = new_user env rq email password name ''admin''
               in case register_tx u (aw_users w) of
                    Rejects s c \<Rightarrow> (w, Rejects s c)
                  | Answers us \<Rightarrow> (let w = w\<lparr> aw_users := us \<rparr> in (w, Answers (sign_in env rq w u)))))"

text \<open>\<open>Math.floor(exp - Date.now() / 1000)\<close> is a division of integers.\<close>

definition logout_ttl :: "ms \<Rightarrow> int option \<Rightarrow> nat" where
  "logout_ttl now e =
     (case e of
        Some x \<Rightarrow> if x = 0 then 86400 else nat (max 1 (min 86400 ((x * 1000 - now) div 1000)))
      | None \<Rightarrow> 86400)"

definition logout :: "auth_env \<Rightarrow> auth_request \<Rightarrow> 'r auth_world \<Rightarrow> 'r auth_world \<times> string" where
  "logout env rq w =
     ((case ae_verify env (rq_now rq) (rq_authorization rq) of
         None \<Rightarrow> w
       | Some token \<Rightarrow>
           (case (cl_id token, cl_jti token) of
              (i # is', Some (j # js)) \<Rightarrow>
                if aw_redisUp w
                then w\<lparr> aw_redis := redis_setex (rq_now rq) (sessionKey (i # is') (j # js))
                         (logout_ttl (rq_now rq) (cl_exp token)) (Parses (JNum (Num 1))) (aw_redis w) \<rparr>
                else w
            | _ \<Rightarrow> w)),
      clearTokenCookie (ae_secure env))"

definition me :: "auth_env \<Rightarrow> auth_request \<Rightarrow> 'r auth_world \<Rightarrow> public_user reply" where
  "me env rq w =
     (case requireAuth env ''GET'' rq w of
        Rejects s c \<Rightarrow> Rejects s c
      | Answers u \<Rightarrow> (case find_user (us_id u) (aw_users w) of
            None \<Rightarrow> Rejects 404 ''NOT_FOUND'' | Some u \<Rightarrow> Answers (publicUser u)))"

definition list_users :: "auth_env \<Rightarrow> auth_request \<Rightarrow> 'r auth_world \<Rightarrow> public_user list reply" where
  "list_users env rq w =
     (case requireAdmin env rq w of Rejects s c \<Rightarrow> Rejects s c | Answers u \<Rightarrow> Answers (map publicUser (aw_users w)))"

text \<open>The epoch is bumped when Redis answers; otherwise the change stands and old tokens live on.\<close>

definition changePassword :: "auth_env \<Rightarrow> auth_request \<Rightarrow> json \<Rightarrow> 'r auth_world \<Rightarrow> 'r auth_world \<times> unit reply" where
  "changePassword env rq body w =
     (case requireAuth env ''PATCH'' rq w of
        Rejects s c \<Rightarrow> (w, Rejects s c)
      | Answers caller \<Rightarrow>
      case rateLimited aw_password aw_password_update rq w of
        (w, limited) \<Rightarrow>
          if limited then (w, Rejects 429 ''RATE_LIMITED'')
          else case ChangePasswordSchema body of
            None \<Rightarrow> (w, Rejects 422 ''VALIDATION_ERROR'')
          | Some (current, new) \<Rightarrow>
              (case find_user (us_id caller) (aw_users w) of
                 None \<Rightarrow> (w, Rejects 404 ''NOT_FOUND'')
               | Some u \<Rightarrow>
                   if \<not> verifyPassword (ae_scrypt env) (ae_pepper env) current (us_hash u)
                   then (w, Rejects 401 ''UNAUTHORIZED'')
                   else (let h = hashPassword (ae_scrypt env) (ae_pepper env) (rq_salt rq) new;
                             w = w\<lparr> aw_users := map (\<lambda>x. if us_id x = us_id u then x\<lparr> us_hash := h \<rparr> else x) (aw_users w) \<rparr>
                         in (if aw_redisUp w
                             then (case redis_incrby (rq_now rq) (revokedKey (us_id u)) 1 (aw_redis w) of
                                     None \<Rightarrow> w | Some (db, n) \<Rightarrow> w\<lparr> aw_redis := db \<rparr>)
                             else w, Answers ()))))"

section \<open>Administration of users\<close>

definition admins :: "user_row list \<Rightarrow> user_row list" where
  "admins us = filter (\<lambda>u. us_role u = ''admin'') us"

text \<open>The conditional update and the conditional delete, with the number of rows they touch.\<close>

definition sql_set_role :: "string \<Rightarrow> string \<Rightarrow> user_row list \<Rightarrow> user_row list \<times> nat" where
  "sql_set_role i role us =
     (let hit = (\<lambda>u. us_id u = i \<and> \<not> (us_role u = ''admin'' \<and> role = ''viewer'' \<and> length (admins us) \<le> 1))
      in (map (\<lambda>u. if hit u then u\<lparr> us_role := role \<rparr> else u) us, length (filter hit us)))"

definition sql_delete_admin :: "string \<Rightarrow> user_row list \<Rightarrow> user_row list \<times> nat" where
  "sql_delete_admin i us =
     (let hit = (\<lambda>u. us_id u = i \<and> 0 < length (filter (\<lambda>v. us_id v \<noteq> i) (admins us)))
      in (filter (\<lambda>u. \<not> hit u) us, length (filter hit us)))"

text \<open>
  A handler first reads and decides what statement to run (\<open>role_job\<close>, \<open>create_job\<close>, \<open>delete_job\<close>), then the
  statement is run.
\<close>

datatype user_job = SetRole string string | InsertUser user_row | DeleteDirect string | DeleteGuarded string

definition role_job :: "string \<Rightarrow> json \<Rightarrow> user_row list \<Rightarrow> user_job reply" where
  "role_job i body us =
     (let role = get_prop body ''role''
      in if role \<noteq> JStr ''admin'' \<and> role \<noteq> JStr ''viewer'' then Rejects 422 ''VALIDATION_ERROR''
         else case find_user i us of
                None \<Rightarrow> Rejects 404 ''NOT_FOUND''
              | Some u \<Rightarrow> Answers (SetRole i (the_text role)))"

definition create_job :: "auth_env \<Rightarrow> auth_request \<Rightarrow> json \<Rightarrow> user_row list \<Rightarrow> user_job reply" where
  "create_job env rq body us =
     (case RegisterSchema env body of
        None \<Rightarrow> Rejects 422 ''VALIDATION_ERROR''
      | Some (email, password, name) \<Rightarrow>
          (let role = get_prop body ''role''
           in if role \<noteq> JUndef \<and> role \<noteq> JStr ''admin'' \<and> role \<noteq> JStr ''viewer'' then Rejects 422 ''VALIDATION_ERROR''
              else if user_by_email email us \<noteq> None then Rejects 409 ''CONFLICT''
              else Answers (InsertUser (new_user env rq email password name
                     (if role = JUndef then ''viewer'' else the_text role)))))"

definition delete_job :: "string \<Rightarrow> string \<Rightarrow> user_row list \<Rightarrow> user_job reply" where
  "delete_job caller i us =
     (case find_user i us of
        None \<Rightarrow> Rejects 404 ''NOT_FOUND''
      | Some u \<Rightarrow>
          if us_id u = caller then Rejects 400 ''BAD_REQUEST''
          else if us_role u \<noteq> ''admin'' then Answers (DeleteDirect i)
          else Answers (DeleteGuarded i))"

fun run_job :: "user_job \<Rightarrow> user_row list \<Rightarrow> user_row list \<times> user_row list reply" where
  "run_job (SetRole i role) us =
     (case sql_set_role i role us of
        (us', n) \<Rightarrow> (us', if n = 0 then Rejects 409 ''CONFLICT''
                       else case find_user i us' of None \<Rightarrow> Rejects 404 ''NOT_FOUND'' | Some u \<Rightarrow> Answers [u]))"
| "run_job (InsertUser u) us =
     (case insert_user u us of None \<Rightarrow> (us, Rejects 500 ''ERROR'') | Some us' \<Rightarrow> (us', Answers [u]))"
| "run_job (DeleteDirect i) us =
     (if find_user i us = None then (us, Rejects 500 ''ERROR'')
      else (filter (\<lambda>u. us_id u \<noteq> i) us, Answers []))"
| "run_job (DeleteGuarded i) us =
     (case sql_delete_admin i us of
        (us', n) \<Rightarrow> (us', if n = 0 then Rejects 409 ''CONFLICT'' else Answers []))"

text \<open>A handler by itself: nothing comes between the two.\<close>

definition run_reply :: "user_job reply \<Rightarrow> 'r auth_world \<Rightarrow> 'r auth_world \<times> user_row list reply" where
  "run_reply j w =
     (case j of
        Rejects s c \<Rightarrow> (w, Rejects s c)
      | Answers j \<Rightarrow> (case run_job j (aw_users w) of (us, r) \<Rightarrow> (w\<lparr> aw_users := us \<rparr>, r)))"

definition setRole :: "auth_env \<Rightarrow> auth_request \<Rightarrow> string \<Rightarrow> json \<Rightarrow> 'r auth_world \<Rightarrow> 'r auth_world \<times> user_row list reply" where
  "setRole env rq i body w =
     (case requireAdmin env rq w of
        Rejects s c \<Rightarrow> (w, Rejects s c) | Answers u \<Rightarrow> run_reply (role_job i body (aw_users w)) w)"

definition createUser :: "auth_env \<Rightarrow> auth_request \<Rightarrow> json \<Rightarrow> 'r auth_world \<Rightarrow> 'r auth_world \<times> user_row list reply" where
  "createUser env rq body w =
     (case requireAdmin env rq w of
        Rejects s c \<Rightarrow> (w, Rejects s c) | Answers u \<Rightarrow> run_reply (create_job env rq body (aw_users w)) w)"

definition deleteUser :: "auth_env \<Rightarrow> auth_request \<Rightarrow> string \<Rightarrow> 'r auth_world \<Rightarrow> 'r auth_world \<times> user_row list reply" where
  "deleteUser env rq i w =
     (case requireAdmin env rq w of
        Rejects s c \<Rightarrow> (w, Rejects s c) | Answers u \<Rightarrow> run_reply (delete_job (us_id u) i (aw_users w)) w)"

section \<open>Invitations\<close>

definition INVITE_MS :: ms where "INVITE_MS = 7 * 24 * 60 * 60 * 1000"

definition createInvite :: "auth_env \<Rightarrow> auth_request \<Rightarrow> json \<Rightarrow> 'r auth_world \<Rightarrow> 'r auth_world \<times> invite_row reply" where
  "createInvite env rq body w =
     (case requireAdmin env rq w of
        Rejects s c \<Rightarrow> (w, Rejects s c)
      | Answers u \<Rightarrow>
          (case get_prop body ''email'' of
             JStr email \<Rightarrow>
               if email = [] \<or> CHR ''@'' \<notin> set email then (w, Rejects 422 ''VALIDATION_ERROR'')
               else if find (\<lambda>v. nv_email v = to_lower email \<and> nv_usedAt v = None) (aw_invites w) \<noteq> None
               then (w, Rejects 409 ''CONFLICT'')
               else if user_by_email (to_lower email) (aw_users w) \<noteq> None then (w, Rejects 409 ''CONFLICT'')
               else (let v = \<lparr> nv_id = rq_newId rq, nv_email = to_lower email, nv_token = rq_uuid rq,
                       nv_role = (if get_prop body ''role'' = JStr ''admin'' then ''admin'' else ''viewer''),
                       nv_createdById = us_id u, nv_usedAt = None, nv_expiresAt = rq_now rq + INVITE_MS \<rparr>
                     in (w\<lparr> aw_invites := aw_invites w @ [v] \<rparr>, Answers v))
           | _ \<Rightarrow> (w, Rejects 422 ''VALIDATION_ERROR'')))"

text \<open>Newest first.\<close>

definition list_invites :: "auth_env \<Rightarrow> auth_request \<Rightarrow> 'r auth_world \<Rightarrow> invite_row list reply" where
  "list_invites env rq w =
     (case requireAdmin env rq w of
        Rejects s c \<Rightarrow> Rejects s c
      | Answers u \<Rightarrow> Answers (rev (filter (\<lambda>v. nv_usedAt v = None) (aw_invites w))))"

definition revokeInvite :: "auth_env \<Rightarrow> auth_request \<Rightarrow> string \<Rightarrow> 'r auth_world \<Rightarrow> 'r auth_world \<times> unit reply" where
  "revokeInvite env rq i w =
     (case requireAdmin env rq w of
        Rejects s c \<Rightarrow> (w, Rejects s c)
      | Answers u \<Rightarrow>
          (let hit = (\<lambda>v. nv_id v = i \<and> nv_usedAt v = None)
           in if filter hit (aw_invites w) = [] then (w, Rejects 404 ''NOT_FOUND'')
              else (w\<lparr> aw_invites := filter (\<lambda>v. \<not> hit v) (aw_invites w) \<rparr>, Answers ())))"

text \<open>What is checked before the transaction, and the transaction: both of its writes or none.\<close>

definition redeem_check :: "auth_request \<Rightarrow> json \<Rightarrow> 'r auth_world \<Rightarrow> (invite_row \<times> string \<times> json) reply" where
  "redeem_check rq body w =
     (case (get_prop body ''token'', get_prop body ''password'') of
        (JStr (t # ts), JStr (p # ps)) \<Rightarrow>
          (case find (\<lambda>v. nv_token v = t # ts) (aw_invites w) of
             None \<Rightarrow> Rejects 404 ''NOT_FOUND''
           | Some v \<Rightarrow>
               if nv_usedAt v \<noteq> None then Rejects 410 ''GONE''
               else if nv_expiresAt v < rq_now rq then Rejects 410 ''GONE''
               else Answers (v, p # ps, get_prop body ''name''))
      | _ \<Rightarrow> Rejects 422 ''VALIDATION_ERROR'')"

definition redeem_tx :: "auth_env \<Rightarrow> auth_request \<Rightarrow> invite_row \<times> string \<times> json \<Rightarrow> 'r auth_world \<Rightarrow> 'r auth_world \<times> signed_in reply" where
  "redeem_tx env rq todo w =
     (case todo of (v, password, name) \<Rightarrow>
        let u = new_user env rq (nv_email v) password (text_or_none name) (nv_role v)
        in if \<not> nullish name \<and> \<not> is_string name \<or> nv_id v \<notin> nv_id ` set (aw_invites w) then (w, Rejects 500 ''ERROR'')
           else case insert_user u (aw_users w) of
                  None \<Rightarrow> (w, Rejects 500 ''ERROR'')
                | Some us \<Rightarrow>
                    (let w = w\<lparr> aw_users := us,
                         aw_invites := map (\<lambda>x. if nv_id x = nv_id v then x\<lparr> nv_usedAt := Some (rq_now rq) \<rparr> else x) (aw_invites w) \<rparr>
                     in (w, Answers (sign_in env rq w u))))"

definition redeem :: "auth_env \<Rightarrow> auth_request \<Rightarrow> json \<Rightarrow> 'r auth_world \<Rightarrow> 'r auth_world \<times> signed_in reply" where
  "redeem env rq body w =
     (case redeem_check rq body w of Rejects s c \<Rightarrow> (w, Rejects s c) | Answers todo \<Rightarrow> redeem_tx env rq todo w)"

section \<open>All of them\<close>

datatype auth_route =
    Login json | Register json | Logout | ChangePassword json
  | SetUserRole string json | CreateUser json | DeleteUser string
  | CreateInvite json | RevokeInvite string | Redeem json
  | RedisState bool

fun serve :: "auth_env \<Rightarrow> auth_request \<times> auth_route \<Rightarrow> 'r auth_world \<Rightarrow> 'r auth_world" where
  "serve env (rq, Login b) w = fst (login env rq b w)"
| "serve env (rq, Register b) w = fst (register_user env rq b w)"
| "serve env (rq, Logout) w = fst (logout env rq w)"
| "serve env (rq, ChangePassword b) w = fst (changePassword env rq b w)"
| "serve env (rq, SetUserRole i b) w = fst (setRole env rq i b w)"
| "serve env (rq, CreateUser b) w = fst (createUser env rq b w)"
| "serve env (rq, DeleteUser i) w = fst (deleteUser env rq i w)"
| "serve env (rq, CreateInvite b) w = fst (createInvite env rq b w)"
| "serve env (rq, RevokeInvite i) w = fst (revokeInvite env rq i w)"
| "serve env (rq, Redeem b) w = fst (redeem env rq b w)"
| "serve env (rq, RedisState up) w = w\<lparr> aw_redisUp := up \<rparr>"

end
