(* ===== verification/AuthSafety.thy ===== *)
theory AuthSafety
  imports AuthRoutes
begin

text \<open>
  What the routes of packages/api/src/routes/auth.ts guarantee: there is always an administrator, also when
  requests overlap, and a changed password ends the sessions from before. With each guarantee comes the case
  that it does not cover.
\<close>

section \<open>Overlapping requests\<close>

text \<open>
  The table of users and the statements that are still to be run. Registration is one serializable transaction,
  all other requests read first and run their statement later.
\<close>

type_synonym user_state = "user_row list \<times> user_job list"

inductive user_step :: "auth_env \<Rightarrow> user_state \<Rightarrow> user_state \<Rightarrow> bool" for env :: auth_env where
  begins_role: "role_job i body us = Answers j \<Longrightarrow> user_step env (us, js) (us, js @ [j])"
| begins_create: "us \<noteq> [] \<Longrightarrow> create_job env rq body us = Answers j \<Longrightarrow> user_step env (us, js) (us, js @ [j])"
| begins_redeem: "us \<noteq> [] \<Longrightarrow> nv_role (v :: invite_row) \<in> {''admin'', ''viewer''} \<Longrightarrow>
    user_step env (us, js) (us, js @ [InsertUser (new_user env rq (nv_email v) password name (nv_role v))])"
| begins_delete: "delete_job caller i us = Answers j \<Longrightarrow> user_step env (us, js) (us, js @ [j])"
| registers: "register_tx (new_user env rq email password name ''admin'') us = Answers us' \<Longrightarrow> user_step env (us, js) (us', js)"
| runs: "user_step env (us, js @ j # ks) (fst (run_job j us), js @ ks)"

text \<open>No user whose unguarded deletion is under way is an administrator by now.\<close>

fun job_calm :: "user_row list \<Rightarrow> user_job \<Rightarrow> bool" where
  "job_calm us (DeleteDirect i) = list_all (\<lambda>u. us_id u = i \<longrightarrow> us_role u \<noteq> ''admin'') us"
| "job_calm us _ = True"

definition calm :: "user_state \<Rightarrow> bool" where
  "calm s \<longleftrightarrow> list_all (job_calm (fst s)) (snd s)"

definition users_ok :: "user_state \<Rightarrow> bool" where
  "users_ok s \<longleftrightarrow> distinct (map us_id (fst s)) \<and> (fst s = [] \<longrightarrow> snd s = []) \<and> (fst s \<noteq> [] \<longrightarrow> admins (fst s) \<noteq> [])"

lemma admins_iff: "admins us \<noteq> [] \<longleftrightarrow> (\<exists>u \<in> set us. us_role u = ''admin'')"
  by (auto simp: admins_def filter_empty_conv)

lemma other_admin:
  assumes "distinct (map us_id us)" "u \<in> set us" "us_role u = ''admin''" "2 \<le> length (admins us)"
  shows "\<exists>v \<in> set us. us_role v = ''admin'' \<and> us_id v \<noteq> us_id u"
proof (rule ccontr)
  assume "\<not> ?thesis"
  then have same: "us_id v = us_id u" if "v \<in> set (admins us)" for v using that by (auto simp: admins_def)
  have "distinct (map us_id (admins us))" using assms(1) by (simp add: admins_def distinct_map_filter)
  moreover obtain a b vs where ab: "admins us = a # b # vs"
    using assms(4) by (metis Suc_le_length_iff numeral_2_eq_2)
  ultimately have "us_id a \<noteq> us_id b" by simp
  moreover have "us_id a = us_id u" "us_id b = us_id u" by (rule same, simp add: ab)+
  ultimately show False by simp
qed

lemma set_role_keeps_ids: "map us_id (fst (sql_set_role i role us)) = map us_id us"
  by (simp add: sql_set_role_def Let_def comp_def if_distrib [of us_id] cong: if_cong)

lemma set_role_keeps_admin:
  assumes "distinct (map us_id us)" "admins us \<noteq> []" "role = ''admin'' \<or> role = ''viewer''"
  shows "admins (fst (sql_set_role i role us)) \<noteq> []"
proof -
  from assms(2) obtain u where u: "u \<in> set us" "us_role u = ''admin''" by (auto simp: admins_iff)
  let ?hit = "\<lambda>u. us_id u = i \<and> \<not> (us_role u = ''admin'' \<and> role = ''viewer'' \<and> length (admins us) \<le> 1)"
  let ?f = "\<lambda>u. if ?hit u then u\<lparr> us_role := role \<rparr> else u"
  have fst: "fst (sql_set_role i role us) = map ?f us" by (simp add: sql_set_role_def Let_def)
  consider "role = ''admin''" | "\<not> ?hit u" | "role = ''viewer''" "us_id u = i" "2 \<le> length (admins us)"
    using assms(3) u(2) by linarith
  then have "\<exists>v \<in> set us. us_role (?f v) = ''admin''"
  proof cases
    case 1
    with u show ?thesis by (intro bexI [of _ u]) auto
  next
    case 2
    with u show ?thesis by (intro bexI [of _ u]) auto
  next
    case 3
    with other_admin [OF assms(1) u(1,2)] obtain v where "v \<in> set us" "us_role v = ''admin''" "us_id v \<noteq> i" by auto
    then show ?thesis by (intro bexI [of _ v]) auto
  qed
  then show ?thesis unfolding fst admins_iff set_map bex_simps(7) .
qed

lemma delete_admin_keeps_admin:
  assumes "admins us \<noteq> []"
  shows "admins (fst (sql_delete_admin i us)) \<noteq> []"
proof (cases "filter (\<lambda>v. us_id v \<noteq> i) (admins us) = []")
  case True
  then show ?thesis using assms by (simp add: sql_delete_admin_def Let_def)
next
  case False
  then obtain v where "v \<in> set us" "us_role v = ''admin''" "us_id v \<noteq> i"
    by (auto simp: admins_def filter_empty_conv)
  then show ?thesis by (auto simp: sql_delete_admin_def Let_def admins_iff)
qed

fun job_role_ok :: "user_job \<Rightarrow> bool" where
  "job_role_ok (SetRole i role) \<longleftrightarrow> role = ''admin'' \<or> role = ''viewer''"
| "job_role_ok _ \<longleftrightarrow> True"

lemma run_job_keeps:
  assumes "distinct (map us_id us)" "admins us \<noteq> []" "job_calm us j" "job_role_ok j"
  shows "distinct (map us_id (fst (run_job j us))) \<and> admins (fst (run_job j us)) \<noteq> []"
proof (cases j)
  case (SetRole i role)
  then have "fst (run_job j us) = fst (sql_set_role i role us)" by (simp split: prod.split)
  with set_role_keeps_ids [of i role us] set_role_keeps_admin [OF assms(1,2)] assms(1,4) SetRole show ?thesis by simp
next
  case (InsertUser u)
  then show ?thesis using assms(1,2) by (auto simp: insert_user_def admins_iff split: option.split)
next
  case (DeleteDirect i)
  then have "\<forall>u \<in> set us. us_id u = i \<longrightarrow> us_role u \<noteq> ''admin''" using assms(3) by (simp add: list_all_iff)
  then show ?thesis using assms(1,2) DeleteDirect by (auto simp: admins_iff distinct_map_filter)
next
  case (DeleteGuarded i)
  then have "fst (run_job j us) = fst (sql_delete_admin i us)" by (simp split: prod.split)
  moreover have "distinct (map us_id (fst (sql_delete_admin i us)))"
    using assms(1) by (simp add: sql_delete_admin_def Let_def distinct_map_filter)
  ultimately show ?thesis using delete_admin_keeps_admin [OF assms(2)] by simp
qed

definition overlap_ok :: "user_state \<Rightarrow> bool" where
  "overlap_ok s \<longleftrightarrow> users_ok s \<and> list_all job_role_ok (snd s) \<and> calm s"

lemma job_found: "find_user i us = Some u \<Longrightarrow> us \<noteq> []" by (auto simp: find_user_def)

lemma step_keeps:
  assumes "user_step env s s'" "overlap_ok s" "calm s'"
  shows "overlap_ok s'"
  using assms(1)
proof cases
  case (begins_role i body us j js)
  then show ?thesis using assms(2,3)
    by (auto simp: overlap_ok_def users_ok_def role_job_def Let_def split: if_splits option.splits dest: job_found)
next
  case (begins_create us rq body j js)
  then show ?thesis using assms(2,3)
    by (auto simp: overlap_ok_def users_ok_def create_job_def Let_def split: if_splits option.splits prod.splits)
next
  case (begins_redeem us v js rq password name)
  then show ?thesis using assms(2,3) by (auto simp: overlap_ok_def users_ok_def)
next
  case (begins_delete caller i us j js)
  then show ?thesis using assms(2,3)
    by (auto simp: overlap_ok_def users_ok_def delete_job_def split: if_splits option.splits dest: job_found)
next
  case (registers rq email password name us us' js)
  then have "us = []" "us' = [new_user env rq email password name ''admin'']"
    by (auto simp: register_tx_def insert_user_def split: if_splits)
  then show ?thesis using assms(2,3) registers(1,2)
    by (auto simp: overlap_ok_def users_ok_def admins_def new_user_def)
next
  case (runs us js j ks)
  then have "us \<noteq> []" using assms(2) by (auto simp: overlap_ok_def users_ok_def)
  moreover have "job_calm us j" "job_role_ok j" using runs assms(2) by (auto simp: overlap_ok_def calm_def)
  ultimately show ?thesis
    using run_job_keeps [of us j] assms(2,3) runs by (auto simp: overlap_ok_def users_ok_def admins_def)
qed


text \<open>
  The exception is real: a viewer is deleted while being promoted, and the one who promoted is demoted in
  between. Each statement by itself was within its rules.
\<close>

definition demo_request :: "string \<Rightarrow> auth_request" where
  "demo_request i = \<lparr> rq_authorization = None, rq_ip = [], rq_now = 0, rq_later = 0, rq_salt = [], rq_uuid = [], rq_newId = i \<rparr>"

definition demo_invite :: "string \<Rightarrow> string \<Rightarrow> invite_row" where
  "demo_invite e role = \<lparr> nv_id = [], nv_email = e, nv_token = [], nv_role = role, nv_createdById = [], nv_usedAt = None, nv_expiresAt = 0 \<rparr>"

definition demo_user :: "auth_env \<Rightarrow> string \<Rightarrow> string \<Rightarrow> user_row" where
  "demo_user env i role = new_user env (demo_request i) i [] None role"

lemma demo_user_simps [simp]:
  "us_id (demo_user env i role) = i" "us_email (demo_user env i role) = i" "us_role (demo_user env i role) = role"
  "(demo_user env i role)\<lparr> us_role := role' \<rparr> = demo_user env i role'"
  by (simp_all add: demo_user_def new_user_def demo_request_def)

lemma first_registers: "user_step env ([], js) ([demo_user env i ''admin''], js)"
  unfolding demo_user_def by (rule registers) (simp add: register_tx_def insert_user_def)

lemma second_redeems:
  assumes "i \<noteq> k" and "role \<in> {''admin'', ''viewer''}"
  shows "(user_step env)\<^sup>*\<^sup>* ([demo_user env i r], []) ([demo_user env i r, demo_user env k role], [])"
proof -
  have e: "InsertUser (new_user env (demo_request k) (nv_email (demo_invite k role)) [] None (nv_role (demo_invite k role)))
      = InsertUser (demo_user env k role)"
    by (simp add: demo_user_def demo_invite_def)
  have "user_step env ([demo_user env i r], []) ([demo_user env i r], [] @ [InsertUser (demo_user env k role)])"
    using begins_redeem [of "[demo_user env i r]" "demo_invite k role" env "[]" "demo_request k" "[]" None] assms(2)
    unfolding e by (simp add: demo_invite_def)
  moreover have "user_step env ([demo_user env i r], [] @ InsertUser (demo_user env k role) # [])
      (fst (run_job (InsertUser (demo_user env k role)) [demo_user env i r]), [] @ [])"
    by (rule runs)
  moreover have "fst (run_job (InsertUser (demo_user env k role)) [demo_user env i r]) = [demo_user env i r, demo_user env k role]"
    using assms(1) by (simp add: insert_user_def)
  ultimately show ?thesis by (simp add: converse_rtranclp_into_rtranclp)
qed

lemma ends_job: "fst (run_job j us) = us' \<Longrightarrow> user_step env (us, js @ j # ks) (us', js @ ks)"
  using runs [of env us js j ks] by simp

lemma starts_role:
  "find_user i us \<noteq> None \<Longrightarrow> r = ''admin'' \<or> r = ''viewer'' \<Longrightarrow> user_step env (us, js) (us, js @ [SetRole i r])"
  using begins_role [of i "JObj [(''role'', JStr r)]" us "SetRole i r" env js] by (auto simp: role_job_def)

lemma one_more: "(user_step env)\<^sup>*\<^sup>* s t \<Longrightarrow> user_step env t u \<Longrightarrow> (user_step env)\<^sup>*\<^sup>* s u"
  by (rule rtranclp.rtrancl_into_rtrancl)

lemma promotion_overtaken:
  "\<exists>us js. (user_step env)\<^sup>*\<^sup>* ([], []) (us, js) \<and> us \<noteq> [] \<and> admins us = []"
proof -
  let ?a = "demo_user env ''a''" and ?b = "demo_user env ''b''" and ?d = "DeleteDirect ''b''"
  have s0: "(user_step env)\<^sup>*\<^sup>* ([], []) ([?a ''admin'', ?b ''viewer''], [])"
    using first_registers [of env "[]" "''a''"] second_redeems [of "''a''" "''b''" "''viewer''" env "''admin''"]
    by (simp add: converse_rtranclp_into_rtranclp)
  have s1: "user_step env ([?a ''admin'', ?b ''viewer''], []) ([?a ''admin'', ?b ''viewer''], [?d])"
    using begins_delete [of "''a''" "''b''" "[?a ''admin'', ?b ''viewer'']" ?d env "[]"]
    by (simp add: delete_job_def find_user_def)
  have s2: "user_step env ([?a ''admin'', ?b ''viewer''], [?d]) ([?a ''admin'', ?b ''viewer''], [?d, SetRole ''b'' ''admin''])"
    using starts_role [of "''b''" "[?a ''admin'', ?b ''viewer'']" "''admin''" env "[?d]"] by (simp add: find_user_def)
  have s3: "user_step env ([?a ''admin'', ?b ''viewer''], [?d, SetRole ''b'' ''admin'']) ([?a ''admin'', ?b ''admin''], [?d])"
    using ends_job [of "SetRole ''b'' ''admin''" "[?a ''admin'', ?b ''viewer'']" "[?a ''admin'', ?b ''admin'']" env "[?d]" "[]"]
    by (simp add: sql_set_role_def admins_def find_user_def)
  have s4: "user_step env ([?a ''admin'', ?b ''admin''], [?d]) ([?a ''admin'', ?b ''admin''], [?d, SetRole ''a'' ''viewer''])"
    using starts_role [of "''a''" "[?a ''admin'', ?b ''admin'']" "''viewer''" env "[?d]"] by (simp add: find_user_def)
  have s5: "user_step env ([?a ''admin'', ?b ''admin''], [?d, SetRole ''a'' ''viewer'']) ([?a ''viewer'', ?b ''admin''], [?d])"
    using ends_job [of "SetRole ''a'' ''viewer''" "[?a ''admin'', ?b ''admin'']" "[?a ''viewer'', ?b ''admin'']" env "[?d]" "[]"]
    by (simp add: sql_set_role_def admins_def find_user_def)
  have s6: "user_step env ([?a ''viewer'', ?b ''admin''], [?d]) ([?a ''viewer''], [])"
    using ends_job [of ?d "[?a ''viewer'', ?b ''admin'']" "[?a ''viewer'']" env "[]" "[]"] by (simp add: find_user_def)
  have "(user_step env)\<^sup>*\<^sup>* ([], []) ([?a ''viewer''], [])"
    by (rule one_more [OF one_more [OF one_more [OF one_more [OF one_more [OF one_more [OF s0 s1] s2] s3] s4] s5] s6])
  then show ?thesis by (intro exI [of _ "[?a ''viewer'']"] exI [of _ "[]"]) (simp add: admins_def)
qed

text \<open>
  The statement counts the administrators in the state that it sees. The default isolation of PostgreSQL lets
  two statements on different rows both count before either is committed; then the last two demote each other.
\<close>

definition set_role_seeing :: "nat \<Rightarrow> string \<Rightarrow> string \<Rightarrow> user_row list \<Rightarrow> user_row list" where
  "set_role_seeing n i role us =
     map (\<lambda>u. if us_id u = i \<and> \<not> (us_role u = ''admin'' \<and> role = ''viewer'' \<and> n \<le> 1) then u\<lparr> us_role := role \<rparr> else u) us"

lemma set_role_sees_all: "fst (sql_set_role i role us) = set_role_seeing (length (admins us)) i role us"
  by (simp add: sql_set_role_def set_role_seeing_def Let_def)

lemma counted_too_early:
  assumes "us = [demo_user env ''a'' ''admin'', demo_user env ''b'' ''admin'']" and "n = length (admins us)"
  shows "admins (set_role_seeing n ''b'' ''viewer'' (set_role_seeing n ''a'' ''viewer'' us)) = []"
  using assms by (simp add: set_role_seeing_def admins_def)


section \<open>Sessions\<close>

text \<open>
  The epoch of a user is a counter without an expiry. Ids have no colon, so no key of a single session is one of
  an epoch.
\<close>

definition epoch_of :: "redis \<Rightarrow> string \<Rightarrow> int option" where
  "epoch_of db i =
     (case jget db (revokedKey i) of
        None \<Rightarrow> Some 0
      | Some (Parses (JNum (Num x)), None) \<Rightarrow> if x = of_int \<lfloor>x\<rfloor> \<and> 0 \<le> x then Some \<lfloor>x\<rfloor> else None
      | _ \<Rightarrow> None)"

definition plain_user :: "string \<Rightarrow> bool" where
  "plain_user i \<longleftrightarrow> CHR '':'' \<notin> set i"

definition epochs_ok :: "'r auth_world \<Rightarrow> bool" where
  "epochs_ok w \<longleftrightarrow> (\<forall>i. plain_user i \<longrightarrow> epoch_of (aw_redis w) i \<noteq> None)"

lemma revokedKey_inj [simp]: "revokedKey i = revokedKey j \<longleftrightarrow> i = j" by (simp add: revokedKey_def)

lemma session_no_epoch: "plain_user i \<Longrightarrow> sessionKey u j \<noteq> revokedKey i"
  by (auto simp: sessionKey_def revokedKey_def plain_user_def)

lemma epoch_read:
  assumes "epoch_of db i = Some n"
  shows "currentRevocationEpoch env now (Some db) i = jint n" "0 \<le> n"
    and "redis_incrby now (revokedKey i) 1 db = Some (jset (revokedKey i) (Parses (JNum (jint (n + 1))), None) db, n + 1)"
proof -
  show "currentRevocationEpoch env now (Some db) i = jint n" "0 \<le> n"
    "redis_incrby now (revokedKey i) 1 db = Some (jset (revokedKey i) (Parses (JNum (jint (n + 1))), None) db, n + 1)"
    using assms
    by (auto simp: epoch_of_def currentRevocationEpoch_def redis_get_def epoch_value_def finite_else_0_def stored_number_def
        redis_incrby_def split: option.splits stored.splits json.splits jsnum.splits if_splits prod.splits)
qed

text \<open>A token is stale exactly when its epoch is behind.\<close>

lemma stale_iff:
  assumes "epoch_of db i = Some n" "cl_id c = i" "cl_ver c = Some (jint v)"
  shows "v < n \<Longrightarrow> isTokenRevoked env now (Some db) c"
    and "\<not> v < n \<Longrightarrow> isTokenRevoked env now (Some db) c \<longleftrightarrow>
      (\<exists>j t. cl_jti c = Some j \<and> j \<noteq> [] \<and> redis_get now (sessionKey i j) db = Some t \<and> t \<noteq> Unparsable [])"
proof -
  have read: "(case redis_get now (revokedKey (cl_id c)) db of None \<Rightarrow> Num 0
      | Some t \<Rightarrow> finite_else_0 (stored_number (ae_number env) t)) = jint n"
    using assms(1,2)
    by (auto simp: epoch_of_def redis_get_def finite_else_0_def stored_number_def
        split: option.splits stored.splits json.splits jsnum.splits if_splits prod.splits)
  have "isTokenRevoked env now (Some db) c \<longleftrightarrow>
      (case cl_jti c of
         Some (j # js) \<Rightarrow> (case redis_get now (sessionKey i (j # js)) db of None \<Rightarrow> False | Some t \<Rightarrow> t \<noteq> Unparsable [])
       | _ \<Rightarrow> False) \<or> v < n"
    unfolding isTokenRevoked_def option.case Let_def read assms(3) unfolding assms(2) by simp
  then show "v < n \<Longrightarrow> isTokenRevoked env now (Some db) c"
    and "\<not> v < n \<Longrightarrow> isTokenRevoked env now (Some db) c \<longleftrightarrow>
      (\<exists>j t. cl_jti c = Some j \<and> j \<noteq> [] \<and> redis_get now (sessionKey i j) db = Some t \<and> t \<noteq> Unparsable [])"
    by (auto split: option.splits list.splits)
qed

subsection \<open>Epochs only grow\<close>

definition grows :: "redis \<Rightarrow> redis \<Rightarrow> bool" where
  "grows db db' \<longleftrightarrow> (\<forall>i n. plain_user i \<longrightarrow> epoch_of db i = Some n \<longrightarrow> (\<exists>n' \<ge> n. epoch_of db' i = Some n'))"

lemma grows_refl [simp]: "grows db db" by (auto simp: grows_def)

lemma grows_trans: "grows a b \<Longrightarrow> grows b c \<Longrightarrow> grows a c" by (fastforce simp: grows_def)

lemma grows_ok: "epochs_ok w \<Longrightarrow> grows (aw_redis w) (aw_redis w') \<Longrightarrow> epochs_ok w'"
  by (fastforce simp: epochs_ok_def grows_def)

lemma epoch_of_jset: "epoch_of (jset k v db) i = (if k = revokedKey i then epoch_of [(k, v)] i else epoch_of db i)"
  by (simp add: epoch_of_def)

lemma grows_session: "grows db (redis_setex now (sessionKey u j) ttl t db)"
  using session_no_epoch by (auto simp: grows_def redis_setex_def epoch_of_jset)

lemma grows_incr:
  assumes "redis_incrby now (revokedKey u) 1 db = Some (db', m)"
  shows "grows db db'"
  unfolding grows_def
proof (intro allI impI)
  fix i n
  assume "plain_user i" and e: "epoch_of db i = Some n"
  show "\<exists>n' \<ge> n. epoch_of db' i = Some n'"
  proof (cases "u = i")
    case True
    have "db' = jset (revokedKey i) (Parses (JNum (jint (n + 1))), None) db"
      using assms epoch_read(3) [OF e, of now] unfolding True by (metis Pair_inject option.inject)
    moreover have "0 \<le> n" using epoch_read(2) [OF e] .
    ultimately show ?thesis by (intro exI [of _ "n + 1"]) (simp add: epoch_of_def)
  next
    case False
    then have "epoch_of db' i = epoch_of db i"
      using assms by (auto simp: redis_incrby_def epoch_of_jset split: option.splits stored.splits json.splits jsnum.splits if_splits)
    with e show ?thesis by auto
  qed
qed

lemma changePassword_grows: "grows (aw_redis w) (aw_redis (fst (changePassword env rq body w)))"
  by (auto simp: changePassword_def Let_def rateLimited_def split: reply.splits prod.splits option.splits intro: grows_incr)

lemma logout_grows: "grows (aw_redis w) (aw_redis (fst (logout env rq w)))"
  by (auto simp: logout_def grows_session split: option.splits list.splits)

lemma run_reply_redis [simp]: "aw_redis (fst (run_reply j w)) = aw_redis w"
  by (auto simp: run_reply_def split: reply.splits prod.splits)

lemma serve_grows: "grows (aw_redis w) (aw_redis (serve env e w))"
proof (cases e)
  case (Pair rq r)
  then show ?thesis
  proof (cases r)
    case (Login b)
    then show ?thesis using Pair by (auto simp: login_def login_check_def rateLimited_def split: prod.splits reply.splits option.splits)
  next
    case (Register b)
    then show ?thesis using Pair
      by (auto simp: register_user_def rateLimited_def Let_def split: prod.splits reply.splits option.splits)
  next
    case (Redeem b)
    then show ?thesis using Pair
      by (auto simp: redeem_def redeem_tx_def Let_def split: prod.splits reply.splits option.splits)
  next
    case (CreateInvite b)
    then show ?thesis using Pair by (auto simp: createInvite_def Let_def split: reply.splits json.splits)
  next
    case (RevokeInvite i)
    then show ?thesis using Pair by (auto simp: revokeInvite_def Let_def split: reply.splits)
  qed (use Pair in \<open>simp_all add: changePassword_grows logout_grows setRole_def createUser_def deleteUser_def split: reply.split\<close>)
qed

interpretation epochs: guarded_machine "serve env" "\<lambda>_. True" "\<lambda>w. epochs_ok w \<and> grows db (aw_redis w)"
  by unfold_locales (metis grows_ok grows_trans serve_grows)

lemma served_grows:
  assumes "epochs_ok w"
  shows "epochs_ok (fold (serve env) es w)" "grows (aw_redis w) (aw_redis (fold (serve env) es w))"
  using epochs.run_inv [of w "aw_redis w" es env] assms by (simp_all add: list_all_iff)

subsection \<open>A changed password\<close>

lemma changed_epoch:
  assumes "changePassword env rq body w = (w', Answers ())" "requireAuth env ''PATCH'' rq w = Answers u"
    and "aw_redisUp w" "epoch_of (aw_redis w) (us_id u) = Some n"
  shows "epoch_of (aw_redis w') (us_id u) = Some (n + 1)"
proof -
  have "aw_redis w' = jset (revokedKey (us_id u)) (Parses (JNum (jint (n + 1))), None) (aw_redis w)"
    using assms(1-3) epoch_read(3) [OF assms(4), of "rq_now rq"]
    by (auto simp: changePassword_def Let_def rateLimited_def find_user_def find_Some_iff
        split: prod.splits option.splits if_splits)
  moreover have "0 \<le> n" using epoch_read(2) [OF assms(4)] .
  ultimately show ?thesis by (simp add: epoch_of_def)
qed

lemma issued_epoch:
  assumes "epochs_ok w" "plain_user i" "c = fst (issueUserToken env now (redis_of w) jti (i, e, r))"
  obtains v n where "cl_ver c = Some (jint v)" "cl_id c = i" "epoch_of (aw_redis w) i = Some n" "v \<le> n" "0 \<le> n"
proof -
  obtain n where n: "epoch_of (aw_redis w) i = Some n" using assms(1,2) by (auto simp: epochs_ok_def)
  show ?thesis
  proof (cases "aw_redisUp w")
    case True
    then show ?thesis
      using that [of n n] assms(3) n epoch_read [OF n] by (simp add: issueUserToken_def Let_def redis_of_def)
  next
    case False
    then show ?thesis
      using that [of 0 n] assms(3) n epoch_read(2) [OF n]
      by (simp add: issueUserToken_def Let_def redis_of_def currentRevocationEpoch_def)
  qed
qed

text \<open>
  C9. After a password was changed, no token from before the change is accepted for any request, whatever else
  happened between, as long as Redis answered the change and answers now.
\<close>

theorem password_change_revokes:
  assumes "epochs_ok w0" "plain_user i"
    and issued: "c = fst (issueUserToken env t (redis_of w0) jti (i, email, role))"
    and between: "w1 = fold (serve env) es w0"
    and changed: "changePassword env rq body w1 = (w2, Answers ())" "requireAuth env ''PATCH'' rq w1 = Answers u" "us_id u = i" "aw_redisUp w1"
    and later: "w3 = fold (serve env) es' w2" "aw_redisUp w3"
    and "tokens_ok env c" "rq_authorization rq' = Some (''Bearer '' @ ae_sign env c)"
  shows "verifyUser env rq' w3 = Rejects 401 ''UNAUTHORIZED''"
proof -
  obtain v n where c: "cl_ver c = Some (jint v)" "cl_id c = i" "epoch_of (aw_redis w0) i = Some n" "v \<le> n"
    using issued_epoch [OF assms(1,2) issued] by metis
  obtain n1 where n1: "epoch_of (aw_redis w1) i = Some n1" "n \<le> n1"
    using served_grows(2) [OF assms(1), of env es] c(3) assms(2) between unfolding grows_def by blast
  have n2: "epoch_of (aw_redis w2) i = Some (n1 + 1)"
    using changed_epoch [OF changed(1,2,4)] n1(1) changed(3) by simp
  have "epochs_ok w2"
    using grows_ok [OF served_grows(1) [OF assms(1)]] changePassword_grows [of w1 env rq body] changed(1) between by (metis fst_conv)
  from served_grows(2) [OF this, of env es'] n2 assms(2) later(1)
  obtain n3 where n3: "epoch_of (aw_redis w3) i = Some n3" "n1 + 1 \<le> n3" unfolding grows_def by blast
  have "isTokenRevoked env (rq_now rq') (redis_of w3) c"
    using stale_iff(1) [OF n3(1) c(2,1), of env "rq_now rq'"] c(4) n1(2) n3(2) later(2) by (simp add: redis_of_def)
  then show ?thesis
    using assms(11,12) by (auto simp: verifyUser_def tokens_ok_def split: option.splits if_splits)
qed

text \<open>
  A token that is signed after the change is current, whenever its owner's password was checked: a login that
  verified the old password just before the change and signs just after it survives.
\<close>

lemma fresh_token_valid:
  assumes "epochs_ok w" "plain_user i" "aw_redisUp w"
    and "c = fst (issueUserToken env t (redis_of w) jti (i, email, role))"
    and "\<And>j. redis_get now (sessionKey i j) (aw_redis w) = None"
  shows "\<not> isTokenRevoked env now (redis_of w) c"
proof -
  obtain n where n: "epoch_of (aw_redis w) i = Some n" using assms(1,2) by (auto simp: epochs_ok_def)
  then have "cl_ver c = Some (jint n)" "cl_id c = i"
    using assms(3,4) epoch_read(1) [OF n] by (simp_all add: issueUserToken_def Let_def redis_of_def)
  from stale_iff(2) [OF n this(2,1)] assms(3,5) show ?thesis by (simp add: redis_of_def)
qed

text \<open>A token that is issued while Redis is away has epoch 0: it is refused later if there was ever a change.\<close>

lemma outage_token_dies:
  assumes "aw_redisUp w = False" "c = fst (issueUserToken env t (redis_of w) jti (i, email, role))"
    and "epoch_of db i = Some n" "0 < n"
  shows "isTokenRevoked env now (Some db) c"
proof -
  have "cl_ver c = Some (jint 0)" "cl_id c = i"
    using assms(1,2) by (simp_all add: issueUserToken_def Let_def redis_of_def currentRevocationEpoch_def)
  from stale_iff(1) [OF assms(3) this(2,1) assms(4)] show ?thesis .
qed

text \<open>Viewers are kept from every request that writes, the change of their own password too.\<close>

lemma viewer_keeps_password:
  assumes "requireAuth env ''GET'' rq w = Answers u" "us_role u = ''viewer''"
  shows "changePassword env rq body w = (w, Rejects 403 ''FORBIDDEN'')"
  using assms by (auto simp: changePassword_def requireAuth_def WRITE_METHODS_def split: reply.splits if_splits)

text \<open>An unknown role is refused even to read.\<close>

lemma unknown_role_refused:
  "verifyUser env rq w = Answers u \<Longrightarrow> us_role u \<noteq> ''admin'' \<Longrightarrow> us_role u \<noteq> ''viewer'' \<Longrightarrow>
     requireAuth env m rq w = Rejects 403 ''FORBIDDEN''"
  by (simp add: requireAuth_def)

subsection \<open>A session that is ended\<close>

text \<open>
  A token that was logged out is refused until less than a second before it expires; the marker in Redis lives for
  whole seconds and may go first.
\<close>

lemma logout_ends_session:
  assumes "tokens_ok env c" "cl_id c \<noteq> []" "cl_jti c = Some j" "j \<noteq> []" "cl_exp c = Some e" "e \<noteq> 0"
    and "rq_authorization rq = Some (''Bearer '' @ ae_sign env c)" "aw_redisUp w"
    and "rq_now rq < e * 1000" "e * 1000 \<le> rq_now rq + 86400000" "rq_now rq \<le> now" "now \<le> e * 1000 - 1000"
  shows "isTokenRevoked env now (redis_of (fst (logout env rq w))) c"
proof -
  obtain a as where a: "cl_id c = a # as" using assms(2) by (cases "cl_id c") auto
  obtain b bs where b: "j = b # bs" using assms(4) by (cases j) auto
  have v: "ae_verify env (rq_now rq) (rq_authorization rq) = Some c" using assms(1,5,7,9) by (simp add: tokens_ok_def)
  define ttl where "ttl = logout_ttl (rq_now rq) (Some e)"
  have db: "aw_redis (fst (logout env rq w)) = redis_setex (rq_now rq) (sessionKey (cl_id c) j) ttl (Parses (JNum (Num 1))) (aw_redis w)"
    "aw_redisUp (fst (logout env rq w))"
    unfolding ttl_def using assms(3,5,8) v a b by (simp_all add: logout_def)
  have "e * 1000 - rq_now rq - 1000 < (e * 1000 - rq_now rq) div 1000 * 1000" by linarith
  moreover have "int ttl \<ge> (e * 1000 - rq_now rq) div 1000"
    using assms(6,10) by (auto simp: ttl_def logout_ttl_def)
  ultimately have "now < rq_now rq + int ttl * 1000" using assms(12) by linarith
  then have "redis_get now (sessionKey (cl_id c) j) (aw_redis (fst (logout env rq w))) = Some (Parses (JNum (Num 1)))"
    by (simp add: db(1) redis_get_def redis_setex_def)
  then show ?thesis using assms(3) b db(2) by (simp add: isTokenRevoked_def redis_of_def Let_def)
qed

lemma logout_marker_goes_first:
  "logout_ttl 500 (Some 100) = 99" "int (logout_ttl 500 (Some 100)) * 1000 + 500 < 100 * 1000"
  by (simp_all add: logout_ttl_def)

subsection \<open>Invitations\<close>

lemma redeemed_is_gone:
  assumes "redeem env rq body w = (w', Answers s)" "get_prop body' ''token'' = get_prop body ''token''"
  shows "\<exists>st code. redeem_check rq' body' w' = Rejects st code"
proof -
  obtain v p n where ck: "redeem_check rq body w = Answers (v, p, n)"
    using assms(1) by (auto simp: redeem_def split: reply.splits)
  then obtain t ts where t: "get_prop body ''token'' = JStr (t # ts)" "find (\<lambda>v. nv_token v = t # ts) (aw_invites w) = Some v"
    by (auto simp: redeem_check_def split: json.splits list.splits option.splits if_splits)
  have inv: "aw_invites w' = map (\<lambda>x. if nv_id x = nv_id v then x\<lparr> nv_usedAt := Some (rq_now rq) \<rparr> else x) (aw_invites w)"
    using assms(1) ck by (auto simp: redeem_def redeem_tx_def Let_def split: option.splits if_splits)
  have "find (\<lambda>v. nv_token v = t # ts) (map (\<lambda>x. if nv_id x = nv_id v then x\<lparr> nv_usedAt := Some (rq_now rq) \<rparr> else x) vs) =
      map_option (\<lambda>x. if nv_id x = nv_id v then x\<lparr> nv_usedAt := Some (rq_now rq) \<rparr> else x) (find (\<lambda>v. nv_token v = t # ts) vs)" for vs :: "invite_row list"
    by (induction vs) auto
  then have "find (\<lambda>v. nv_token v = t # ts) (aw_invites w') = Some (v\<lparr> nv_usedAt := Some (rq_now rq) \<rparr>)"
    using t(2) by (simp add: inv)
  then show ?thesis using assms(2) t(1) by (auto simp: redeem_check_def split: json.splits list.splits)
qed

text \<open>The rule on the length of passwords is not applied to invitations.\<close>

lemma short_password_redeemed:
  assumes "find (\<lambda>v. nv_token v = t # ts) (aw_invites w) = Some v" "nv_usedAt v = None" "rq_now rq \<le> nv_expiresAt v"
    and "body = JObj [(''token'', JStr (t # ts)), (''password'', JStr ''x'')]"
  shows "redeem_check rq body w = Answers (v, ''x'', JUndef)" "RegisterSchema env body = None"
  using assms by (simp_all add: redeem_check_def RegisterSchema_def Let_def email_text_def)

text \<open>An invitation that has expired without being used still counts as active.\<close>

lemma expired_invite_blocks:
  assumes "requireAdmin env rq w = Answers u" "v \<in> set (aw_invites w)" "nv_usedAt v = None" "nv_email v = to_lower email"
    and "email \<noteq> []" "CHR ''@'' \<in> set email" "get_prop body ''email'' = JStr email"
  shows "snd (createInvite env rq body w) = Rejects 409 ''CONFLICT''"
proof -
  have "find (\<lambda>v. nv_email v = to_lower email \<and> nv_usedAt v = None) (aw_invites w) \<noteq> None"
    using assms(2-4) by (auto simp: find_None_iff)
  then show ?thesis using assms by (auto simp: createInvite_def)
qed

text \<open>
  Invitations use the address in lower case, registration and login as it is typed: an account under a mixed
  spelling does not stop an invitation, and the invited person cannot log in with that spelling.
\<close>

lemma spelling_matters:
  assumes "requireAdmin env rq w = Answers u" "aw_invites w = []" "aw_users w = [x]" "us_email x = ''A@b.c''"
  shows "\<exists>v. snd (createInvite env rq (JObj [(''email'', JStr ''A@b.c'')]) w) = Answers v \<and> nv_email v = ''a@b.c''"
proof -
  have "to_lower ''A@b.c'' = ''a@b.c''" by code_simp
  then show ?thesis using assms by (simp add: createInvite_def user_by_email_def Let_def)
qed

text \<open>Somebody changes the password with a token and comes back with the same.\<close>

definition demo_claims :: claims where
  "demo_claims = \<lparr> cl_id = ''a'', cl_email = ''a'', cl_role = ''admin'', cl_ver = Some (Num 0), cl_jti = Some ''j'', cl_exp = Some 86400 \<rparr>"

definition demo_env :: auth_env where
  "demo_env = \<lparr> ae_scrypt = (\<lambda>p s. map of_char p), ae_pepper = ''p'', ae_sign = (\<lambda>c. ''t''),
     ae_verify = (\<lambda>now h. if h = Some ''Bearer t'' \<and> now < 86400000 then Some demo_claims else None),
     ae_number = (\<lambda>_. NaN), ae_is_email = (\<lambda>_. True), ae_secure = True, ae_registration = True \<rparr>"

definition demo_call :: auth_request where
  "demo_call = \<lparr> rq_authorization = Some ''Bearer t'', rq_ip = ''ip'', rq_now = 0, rq_later = 0, rq_salt = [1], rq_uuid = ''j'', rq_newId = ''b'' \<rparr>"

definition demo_world :: "unit auth_world" where
  "demo_world = \<lparr> aw_users = [\<lparr> us_id = ''a'', us_email = ''a'', us_hash = hashPassword (\<lambda>p s. map of_char p) ''p'' [1] ''old'',
       us_name = None, us_role = ''admin'' \<rparr>], aw_invites = [], aw_redis = [], aw_redisUp = True, aw_limits = (),
     aw_login = new_redis_limiter None ''rl:login'' 10 60000, aw_register = new_redis_limiter None ''rl:register'' 5 3600000,
     aw_password = new_redis_limiter None ''rl:password'' 5 60000 \<rparr>"

definition demo_change :: json where
  "demo_change = JObj [(''currentPassword'', JStr ''old''), (''newPassword'', JStr ''newsecret'')]"

lemma password_change_revokes_witness:
  "verifyUser demo_env demo_call (fst (changePassword demo_env demo_call demo_change demo_world)) = Rejects 401 ''UNAUTHORIZED''"
proof (rule password_change_revokes [of demo_world "''a''" demo_claims demo_env 0 "''j''" "''a''" "''admin''" demo_world "[]"
      demo_call demo_change _ "hd (aw_users demo_world)" _ "[]"])
  show "epochs_ok demo_world" by (simp add: epochs_ok_def epoch_of_def demo_world_def)
  show "demo_claims = fst (issueUserToken demo_env 0 (redis_of demo_world) ''j'' (''a'', ''a'', ''admin''))" by code_simp
  show "changePassword demo_env demo_call demo_change demo_world = (fst (changePassword demo_env demo_call demo_change demo_world), Answers ())"
  proof (rule prod_eqI)
    show "snd (changePassword demo_env demo_call demo_change demo_world) =
      snd (fst (changePassword demo_env demo_call demo_change demo_world), Answers ())" by code_simp
  qed simp
  show "requireAuth demo_env ''PATCH'' demo_call demo_world = Answers (hd (aw_users demo_world))" by code_simp
  show "aw_redisUp (fst (changePassword demo_env demo_call demo_change demo_world))" by code_simp
  show "tokens_ok demo_env demo_claims" by (simp add: tokens_ok_def demo_env_def demo_claims_def)
  show "rq_authorization demo_call = Some (''Bearer '' @ ae_sign demo_env demo_claims)" by (simp add: demo_call_def demo_env_def)
qed (simp_all add: demo_world_def plain_user_def)

end
