(* ===== verification/ProxyChecks.thy ===== *)
theory ProxyChecks
  imports WebhookGuard Credentials ProxyPool BinanceApi
begin

text \<open>
  Proxy addresses: packages/core/src/proxy/proxy-validator.ts (parsing, masking, the reachability probe),
  proxy-health.ts (the report on an exit address) and the routes of packages/api/src/routes/proxies.ts on a
  stored proxy. The regular expression is a parser with its one choice, \<open>decodeURIComponent\<close> and what the
  network answers are arguments. Texts are ASCII.
\<close>

section \<open>Parsing\<close>

datatype proxy_protocol = PHttp | PHttps | PSocks5

record parsed_proxy =
  pp_protocol :: proxy_protocol
  pp_hostname :: string
  pp_port :: nat
  pp_username :: "string option"
  pp_password :: "string option"

text \<open>\<open>(https?|socks5|socks5h)://\<close>, in any case; the longer alternative is tried when the shorter does not go on.\<close>

definition scheme_of :: "string \<Rightarrow> (proxy_protocol \<times> string) option" where
  "scheme_of s =
     (let try = (\<lambda>p proto. if to_lower (take (length p) s) = p then Some (proto, drop (length p) s) else None)
      in case try ''https://'' PHttps of Some r \<Rightarrow> Some r
         | None \<Rightarrow> (case try ''http://'' PHttp of Some r \<Rightarrow> Some r
         | None \<Rightarrow> (case try ''socks5://'' PSocks5 of Some r \<Rightarrow> Some r
         | None \<Rightarrow> try ''socks5h://'' PSocks5)))"

text \<open>\<open>([^@/]+)@\<close>\<close>

definition userinfo_of :: "string \<Rightarrow> (string \<times> string) option" where
  "userinfo_of s =
     (let u = takeWhile (\<lambda>c. c \<noteq> CHR ''@'' \<and> c \<noteq> CHR ''/'') s
      in case drop (length u) s of
           c # rest \<Rightarrow> if u \<noteq> [] \<and> c = CHR ''@'' then Some (u, rest) else None
         | [] \<Rightarrow> None)"

text \<open>\<open>:(\d{1,5})$\<close>\<close>

definition port_text :: "string \<Rightarrow> string option" where
  "port_text s = (case s of c # ds \<Rightarrow> if c = CHR '':'' \<and> all_digits ds \<and> length ds \<le> 5 then Some ds else None | [] \<Rightarrow> None)"

text \<open>\<open>(\[[^\]]+\]|[^:/]+):(\d{1,5})$\<close>\<close>

definition bracketed :: "string \<Rightarrow> (string \<times> string) option" where
  "bracketed s =
     (case s of
        c # cs \<Rightarrow>
          if c \<noteq> CHR ''['' then None
          else let h = takeWhile (\<lambda>x. x \<noteq> CHR '']'') cs
               in (case drop (length h) cs of
                     d # rest \<Rightarrow> (case port_text rest of
                         Some p \<Rightarrow> if h = [] then None else Some (c # h @ [d], p) | None \<Rightarrow> None)
                   | [] \<Rightarrow> None)
      | [] \<Rightarrow> None)"

definition host_port :: "string \<Rightarrow> (string \<times> string) option" where
  "host_port s =
     (case bracketed s of
        Some r \<Rightarrow> Some r
      | None \<Rightarrow>
          let h = takeWhile (\<lambda>x. x \<noteq> CHR '':'' \<and> x \<noteq> CHR ''/'') s
          in case port_text (drop (length h) s) of Some p \<Rightarrow> if h = [] then None else Some (h, p) | None \<Rightarrow> None)"

text \<open>With the user information if the rest then matches, else without it.\<close>

definition URL_RE :: "string \<Rightarrow> (proxy_protocol \<times> string option \<times> string \<times> string) option" where
  "URL_RE s =
     (case scheme_of s of
        None \<Rightarrow> None
      | Some (proto, rest) \<Rightarrow>
          (let without = (case host_port rest of None \<Rightarrow> None | Some (h, p) \<Rightarrow> Some (proto, None, h, p))
           in case userinfo_of rest of
                None \<Rightarrow> without
              | Some (u, rest') \<Rightarrow>
                  (case host_port rest' of Some (h, p) \<Rightarrow> Some (proto, Some u, h, p) | None \<Rightarrow> without)))"

definition decodeSafe :: "(string \<Rightarrow> string option) \<Rightarrow> string \<Rightarrow> string" where
  "decodeSafe decode v = (case decode v of Some d \<Rightarrow> d | None \<Rightarrow> v)"

text \<open>\<open>hostname.replace(/^\[|\]$/g, '')\<close>\<close>

definition strip_brackets :: "string \<Rightarrow> string" where
  "strip_brackets h =
     (let h = (case h of c # cs \<Rightarrow> if c = CHR ''['' then cs else c # cs | [] \<Rightarrow> [])
      in if h \<noteq> [] \<and> last h = CHR '']'' then butlast h else h)"

definition parseProxyUrl :: "(string \<Rightarrow> string option) \<Rightarrow> string \<Rightarrow> parsed_proxy option" where
  "parseProxyUrl decode url =
     (case URL_RE (trim_text url) of
        None \<Rightarrow> None
      | Some (proto, userinfo, hostnameRaw, portRaw) \<Rightarrow>
          (let port = parse_dec portRaw; hostname = strip_brackets hostnameRaw
           in if port < 1 \<or> 65535 < port \<or> hostname = [] then None
              else Some \<lparr> pp_protocol = proto, pp_hostname = hostname, pp_port = port,
                     pp_username = (case userinfo of None \<Rightarrow> None
                        | Some u \<Rightarrow> Some (decodeSafe decode (takeWhile (\<lambda>c. c \<noteq> CHR '':'') u))),
                     pp_password = (case userinfo of None \<Rightarrow> None
                        | Some u \<Rightarrow> if CHR '':'' \<in> set u
                                    then Some (decodeSafe decode (tl (dropWhile (\<lambda>c. c \<noteq> CHR '':'') u))) else None) \<rparr>))"

definition isValidProxyUrl :: "(string \<Rightarrow> string option) \<Rightarrow> string \<Rightarrow> bool" where
  "isValidProxyUrl decode url =
     (case parseProxyUrl decode url of None \<Rightarrow> False | Some p \<Rightarrow> pp_protocol p = PHttp \<or> pp_protocol p = PSocks5)"

definition protocol_text :: "proxy_protocol \<Rightarrow> string" where
  "protocol_text p = (case p of PHttp \<Rightarrow> ''http'' | PHttps \<Rightarrow> ''https'' | PSocks5 \<Rightarrow> ''socks5'')"

definition proxy_text :: "proxy_protocol \<Rightarrow> string \<Rightarrow> nat \<Rightarrow> string" where
  "proxy_text proto h port = protocol_text proto @ ''://'' @ h @ '':'' @ nat_text port"

definition maskProxyUrl :: "(string \<Rightarrow> string option) \<Rightarrow> string \<Rightarrow> string" where
  "maskProxyUrl decode url =
     (case parseProxyUrl decode url of
        None \<Rightarrow> url
      | Some p \<Rightarrow> proxy_text (pp_protocol p) (pp_hostname p) (pp_port p))"

section \<open>The probe\<close>

text \<open>What is tried, if anything: a connection, or a plain request that the proxy answers.\<close>

datatype probe = TcpConnect string nat | HttpProbe string nat

definition testProxy :: "(string \<Rightarrow> string option) \<Rightarrow> (probe \<Rightarrow> bool) \<Rightarrow> string \<Rightarrow> bool \<times> probe option" where
  "testProxy decode answers url =
     (case parseProxyUrl decode url of
        None \<Rightarrow> (False, None)
      | Some p \<Rightarrow>
          (let pr = (if pp_protocol p = PSocks5 then TcpConnect (pp_hostname p) (pp_port p)
                     else HttpProbe (pp_hostname p) (pp_port p))
           in (answers pr, Some pr)))"

section \<open>The health report\<close>

record proxy_geo =
  pg_country :: string
  pg_city :: "string option"
  pg_isp :: "string option"

record health_report =
  hr_proxyId :: string
  hr_ip :: string
  hr_clean :: bool
  hr_blacklists :: "string list"
  hr_geo :: "proxy_geo option"

text \<open>
  The answers of three services: the address that a request comes from, the text of a blacklist for an
  address, and its location; \<open>None\<close> where the request or its JSON fails. The text is there when the status is.
\<close>

record health_net =
  hn_parses :: "string \<Rightarrow> bool"
  hn_ip :: "string option"
  hn_listing :: "string \<Rightarrow> string option"
  hn_geo :: "string \<Rightarrow> (string option \<times> string option \<times> string option) option"

text \<open>The request for the address is made directly; the proxy only has to be a URL.\<close>

definition resolveProxyIP :: "health_net \<Rightarrow> string \<Rightarrow> string option" where
  "resolveProxyIP n url = (if hn_parses n url then hn_ip n else None)"

definition checkBlacklists :: "health_net \<Rightarrow> string \<Rightarrow> bool \<times> string list" where
  "checkBlacklists n ip =
     (let bs = (case hn_listing n ip of Some t \<Rightarrow> if trim_text t \<noteq> [] then [''spamhaus-drop''] else [] | None \<Rightarrow> [])
      in (bs = [], bs))"

definition getGeoLocation :: "health_net \<Rightarrow> string \<Rightarrow> proxy_geo option" where
  "getGeoLocation n ip =
     (case hn_geo n ip of
        None \<Rightarrow> None
      | Some (country, city, org) \<Rightarrow>
          Some \<lparr> pg_country = (case country of Some c \<Rightarrow> c | None \<Rightarrow> ''Unknown''), pg_city = city, pg_isp = org \<rparr>)"

definition validateProxy :: "health_net \<Rightarrow> string \<Rightarrow> string \<Rightarrow> health_report" where
  "validateProxy n proxyId url =
     (case resolveProxyIP n url of
        Some (c # cs) \<Rightarrow>
          (case checkBlacklists n (c # cs) of
             (clean, bs) \<Rightarrow> \<lparr> hr_proxyId = proxyId, hr_ip = c # cs, hr_clean = clean, hr_blacklists = bs, hr_geo = getGeoLocation n (c # cs) \<rparr>)
      | _ \<Rightarrow> \<lparr> hr_proxyId = proxyId, hr_ip = ''unknown'', hr_clean = False, hr_blacklists = [''unreachable''], hr_geo = None \<rparr>)"

text \<open>The report does not depend on the proxy at all.\<close>

lemma report_ignores_proxy:
  "hn_parses n url1 \<Longrightarrow> hn_parses n url2 \<Longrightarrow> validateProxy n i url1 = validateProxy n i url2"
  by (simp add: validateProxy_def resolveProxyIP_def)

section \<open>Stored proxies\<close>

text \<open>What a client sees of a row: the address without credentials.\<close>

definition publicProxy :: "(string \<Rightarrow> string option) \<Rightarrow> primitives \<Rightarrow> key_registry \<Rightarrow> proxy_instance \<Rightarrow> proxy_instance" where
  "publicProxy decode c reg px =
     px\<lparr> px_url := maskProxyUrl decode (case decryptCredential c reg (Some (px_url px)) of Some u \<Rightarrow> u | None \<Rightarrow> px_url px) \<rparr>"

datatype probe_reply = NoSuchProxy | NotDecrypted | NotAllowed | Probed bool

text \<open>The route that tests a proxy and stores the outcome.\<close>

definition test_route ::
  "(string \<Rightarrow> string option) \<Rightarrow> primitives \<Rightarrow> key_registry \<Rightarrow> net \<Rightarrow> (probe \<Rightarrow> bool) \<Rightarrow> ms \<Rightarrow> string \<Rightarrow> proxy_instance list \<Rightarrow>
   proxy_instance list \<times> probe_reply" where
  "test_route decode c reg n answers now i rows =
     (case find (\<lambda>px. px_id px = i) rows of
        None \<Rightarrow> (rows, NoSuchProxy)
      | Some px \<Rightarrow>
          (case decryptCredential c reg (Some (px_url px)) of
             None \<Rightarrow> (rows, NotDecrypted)
           | Some url \<Rightarrow>
               if url = [] then (rows, NotDecrypted)
               else case assertWebhookUrlAllowed n 0 url of
                 Inl e \<Rightarrow> (rows, NotAllowed)
               | Inr _ \<Rightarrow>
                   (let reachable = fst (testProxy decode answers url)
                    in (map (\<lambda>x. if px_id x = i
                               then (if reachable then x\<lparr> px_healthScore := 100, px_lastFailedAt := NotFailed \<rparr>
                                     else x\<lparr> px_healthScore := 0, px_lastFailedAt := FailedAt now \<rparr>) else x) rows,
                        Probed reachable))))"

text \<open>
  The guard is the one of webhooks, which lets only \<open>http\<close> and \<open>https\<close> pass: a SOCKS proxy is refused as
  if its address were private, and its health is never measured.
\<close>

lemma socks_never_tested:
  assumes "find (\<lambda>px. px_id px = i) rows = Some px" "decryptCredential c reg (Some (px_url px)) = Some url" "url \<noteq> []"
    and "url_parse n url = Some (''socks5:'', h)" "\<not> allow_private n"
  shows "test_route decode c reg n answers now i rows = (rows, NotAllowed)"
  using assms by (simp add: test_route_def assertWebhookUrlAllowed_def isWebhookUrlAllowed_def)

section \<open>Masking\<close>

definition plain_host :: "string \<Rightarrow> bool" where
  "plain_host h \<longleftrightarrow> h \<noteq> [] \<and> set h \<inter> {CHR '':'', CHR ''/'', CHR ''@'', CHR ''['', CHR '']''} = {}"

lemma five_digits: "n \<le> 65535 \<Longrightarrow> length (nat_text n) \<le> 5"
  by (simp add: nat_text.simps [of n] nat_text.simps [of "n div 10"] nat_text.simps [of "n div 10 div 10"]
      nat_text.simps [of "n div 10 div 10 div 10"] nat_text.simps [of "n div 10 div 10 div 10 div 10"])

lemma port_of_nat: "n \<le> 65535 \<Longrightarrow> port_text (CHR '':'' # nat_text n) = Some (nat_text n)"
  using nat_text_digits [of n] five_digits [of n] by (simp add: port_text_def)

lemma host_port_plain:
  assumes "plain_host h" "n \<le> 65535"
  shows "host_port (h @ CHR '':'' # nat_text n) = Some (h, nat_text n)"
proof -
  obtain c cs where h: "h = c # cs" "c \<noteq> CHR ''[''" using assms(1) by (cases h) (auto simp: plain_host_def)
  then have "bracketed (h @ CHR '':'' # nat_text n) = None" by (simp add: bracketed_def)
  moreover have "takeWhile (\<lambda>x. x \<noteq> CHR '':'' \<and> x \<noteq> CHR ''/'') (h @ CHR '':'' # nat_text n) = h"
    using assms(1) by (subst takeWhile_append2) (auto simp: plain_host_def)
  ultimately show ?thesis
    using port_of_nat [OF assms(2)] h by (simp add: host_port_def Let_def)
qed

lemma digit_no_delim [simp]: "CHR ''@'' \<notin> set (nat_text n)" "CHR ''/'' \<notin> set (nat_text n)"
  using nat_text_digits [of n] by (auto simp: all_digits_def list_all_iff is_digit_def)

lemma no_userinfo: "plain_host h \<Longrightarrow> userinfo_of (h @ CHR '':'' # nat_text n) = None"
proof -
  assume "plain_host h"
  then have "takeWhile (\<lambda>c. c \<noteq> CHR ''@'' \<and> c \<noteq> CHR ''/'') (h @ CHR '':'' # nat_text n) = h @ CHR '':'' # nat_text n"
    by (subst takeWhile_eq_all_conv) (auto simp: plain_host_def dest: digit_no_delim [THEN notE])
  then show ?thesis unfolding userinfo_of_def Let_def by (simp only: drop_all order_refl list.case)
qed

lemma scheme_text: "scheme_of (protocol_text proto @ ''://'' @ s) = Some (proto, s)"
  by (cases proto) (simp_all add: scheme_of_def protocol_text_def to_lower_def lower_char_def Let_def)

lemma trim_proxy_text: "trim_text (proxy_text proto h n) = proxy_text proto h n"
proof -
  have "\<not> space_char (hd (proxy_text proto h n))" "proxy_text proto h n \<noteq> []"
    by (cases proto; simp add: proxy_text_def protocol_text_def space_char_def)+
  moreover have "last (proxy_text proto h n) = last (nat_text n)" by (simp add: proxy_text_def)
  moreover have "\<not> space_char (last (nat_text n))"
  proof -
    have "is_digit (last (nat_text n))"
      using nat_text_digits [of n] last_in_set [OF nat_text_not_Nil, of n] unfolding all_digits_def list_all_iff by blast
    then show ?thesis by (auto simp: is_digit_def space_char_def)
  qed
  ultimately show ?thesis
    unfolding trim_text_def by (metis append_butlast_last_id dropWhile_eq_self_iff hd_rev rev_is_Nil_conv rev_rev_ident)
qed

text \<open>
  A masked address is that of the same proxy without its credentials, if the host is a name or an IPv4 address.
\<close>

lemma mask_hides:
  assumes "parseProxyUrl decode url = Some p" "plain_host (pp_hostname p)"
  shows "parseProxyUrl decode (maskProxyUrl decode url) = Some (p\<lparr> pp_username := None, pp_password := None \<rparr>)"
proof -
  have port: "1 \<le> pp_port p" "pp_port p \<le> 65535"
    using assms(1) by (auto simp: parseProxyUrl_def Let_def split: option.splits prod.splits if_splits)
  have "strip_brackets (pp_hostname p) = pp_hostname p"
    using assms(2) by (auto simp: strip_brackets_def plain_host_def Let_def split: list.split) (metis last_in_set list.set_intros(1) set_ConsD last_ConsL last_ConsR)
  moreover have "URL_RE (proxy_text (pp_protocol p) (pp_hostname p) (pp_port p)) = Some (pp_protocol p, None, pp_hostname p, nat_text (pp_port p))"
    using host_port_plain [OF assms(2) port(2)] no_userinfo [OF assms(2)]
    by (simp add: URL_RE_def proxy_text_def scheme_text [simplified])
  ultimately show ?thesis
    using assms port by (simp add: maskProxyUrl_def parseProxyUrl_def trim_proxy_text Let_def plain_host_def)
qed

text \<open>The brackets of an IPv6 address are not put back, and what does not parse is shown as it is.\<close>

lemma mask_breaks_ipv6:
  "maskProxyUrl decode ''http://[::1]:80'' = ''http://::1:80'' \<and> parseProxyUrl decode ''http://::1:80'' = None"
proof -
  have "nat_text 80 = ''80''" by code_simp
  then show ?thesis
  by (simp add: maskProxyUrl_def parseProxyUrl_def URL_RE_def scheme_of_def userinfo_of_def host_port_def bracketed_def port_text_def
      trim_text_def space_char_def to_lower_def lower_char_def all_digits_def is_digit_def parse_dec_def digit_value_def strip_brackets_def
      proxy_text_def protocol_text_def Let_def)
qed

lemma unparsed_is_shown: "parseProxyUrl decode url = None \<Longrightarrow> maskProxyUrl decode url = url"
  by (simp add: maskProxyUrl_def)

end
