(* ===== verification/Schemas.thy ===== *)
theory Schemas
  imports ProxyChecks ScriptConfig CryptoHelpers
begin

text \<open>
  The input schemas of packages/core/src/validation/bot-schema.ts and proxy-schema.ts. A schema is a value of the
  datatype \<open>schema\<close> with the constructors of the schema library that the files use; \<open>parse_schema\<close> is what the
  library documents of them: an object keeps the keys of its shape, and the others only when it is declared to
  pass them through. URL and e-mail patterns, the URL parser and \<open>decodeURIComponent\<close> are arguments. Texts are
  ASCII; values come from JSON, so there is no undefined property.
\<close>

section \<open>Schemas\<close>

datatype schema =
    ZString nat "nat option" "string \<Rightarrow> bool"
  | ZNumber "jsnum \<Rightarrow> bool"
  | ZBoolean
  | ZUnknown
  | ZEnum "string list"
  | ZArray nat "nat option" schema
  | ZRecord schema
  | ZObject bool "(string \<times> schema) list" "json \<Rightarrow> bool"
  | ZOptional schema
  | ZDefault json schema
  | ZUnion "schema list"

type_synonym parser = "json \<Rightarrow> json option"

definition up_to :: "nat option \<Rightarrow> nat \<Rightarrow> bool" where
  "up_to hi n \<longleftrightarrow> (case hi of None \<Rightarrow> True | Some h \<Rightarrow> n \<le> h)"

definition parse_string :: "nat \<Rightarrow> nat option \<Rightarrow> (string \<Rightarrow> bool) \<Rightarrow> parser" where
  "parse_string lo hi ok v = (case v of JStr s \<Rightarrow> if lo \<le> length s \<and> up_to hi (length s) \<and> ok s then Some v else None | _ \<Rightarrow> None)"

definition parse_number :: "(jsnum \<Rightarrow> bool) \<Rightarrow> parser" where
  "parse_number ok v = (case v of JNum (Num r) \<Rightarrow> if ok (Num r) then Some v else None | _ \<Rightarrow> None)"

definition parse_boolean :: parser where
  "parse_boolean v = (case v of JBool b \<Rightarrow> Some v | _ \<Rightarrow> None)"

definition parse_enum :: "string list \<Rightarrow> parser" where
  "parse_enum names v = (case v of JStr s \<Rightarrow> if s \<in> set names then Some v else None | _ \<Rightarrow> None)"

definition parse_array :: "nat \<Rightarrow> nat option \<Rightarrow> parser \<Rightarrow> parser" where
  "parse_array lo hi p v =
     (case v of
        JArr xs \<Rightarrow> if lo \<le> length xs \<and> up_to hi (length xs) then map_option JArr (those (map p xs)) else None
      | _ \<Rightarrow> None)"

definition parse_record :: "parser \<Rightarrow> parser" where
  "parse_record p v =
     (case v of
        JObj m \<Rightarrow> map_option (\<lambda>vs. JObj (zip (map fst m) vs)) (those (map (p \<circ> snd) m))
      | _ \<Rightarrow> None)"

definition parse_object :: "bool \<Rightarrow> (string \<times> parser) list \<Rightarrow> (json \<Rightarrow> bool) \<Rightarrow> parser" where
  "parse_object passthrough shape ok v =
     (case v of
        JObj m \<Rightarrow>
          (case those (map (\<lambda>(k, p). p (get_prop v k)) shape) of
             None \<Rightarrow> None
           | Some vs \<Rightarrow>
               (let out = JObj (filter (\<lambda>(k, x). x \<noteq> JUndef) (zip (map fst shape) vs) @
                     (if passthrough then filter (\<lambda>(k, x). k \<notin> fst ` set shape) m else []))
                in if ok out then Some out else None))
      | _ \<Rightarrow> None)"

definition parse_optional :: "parser \<Rightarrow> parser" where
  "parse_optional p v = (if v = JUndef then Some JUndef else p v)"

definition parse_default :: "json \<Rightarrow> parser \<Rightarrow> parser" where
  "parse_default d p v = (if v = JUndef then Some d else p v)"

fun parse_union :: "parser list \<Rightarrow> parser" where
  "parse_union [] v = None"
| "parse_union (p # ps) v = (case p v of Some v' \<Rightarrow> Some v' | None \<Rightarrow> parse_union ps v)"

primrec parse_schema :: "schema \<Rightarrow> parser" where
  "parse_schema (ZString lo hi ok) = parse_string lo hi ok"
| "parse_schema (ZNumber ok) = parse_number ok"
| "parse_schema ZBoolean = parse_boolean"
| "parse_schema ZUnknown = Some"
| "parse_schema (ZEnum names) = parse_enum names"
| "parse_schema (ZArray lo hi s) = parse_array lo hi (parse_schema s)"
| "parse_schema (ZRecord s) = parse_record (parse_schema s)"
| "parse_schema (ZObject passthrough shape ok) = parse_object passthrough (map (map_prod id parse_schema) shape) ok"
| "parse_schema (ZOptional s) = parse_optional (parse_schema s)"
| "parse_schema (ZDefault d s) = parse_default d (parse_schema s)"
| "parse_schema (ZUnion ss) = parse_union (map parse_schema ss)"

text \<open>\<open>z.number().int()\<close> takes safe integers only.\<close>

definition z_int :: "int \<Rightarrow> int \<Rightarrow> schema" where
  "z_int lo hi = ZNumber (\<lambda>x. case x of Num r \<Rightarrow> r = of_int \<lfloor>r\<rfloor> \<and> lo \<le> \<lfloor>r\<rfloor> \<and> \<lfloor>r\<rfloor> \<le> hi \<and> \<bar>r\<bar> < 2 ^ 53 | _ \<Rightarrow> False)"

definition z_between :: "rat \<Rightarrow> rat \<Rightarrow> schema" where
  "z_between lo hi = ZNumber (\<lambda>x. case x of Num r \<Rightarrow> lo \<le> r \<and> r \<le> hi | _ \<Rightarrow> False)"

definition z_text :: "nat \<Rightarrow> nat \<Rightarrow> schema" where
  "z_text lo hi = ZString lo (Some hi) (\<lambda>_. True)"

definition z_any_text :: schema where
  "z_any_text = ZString 0 None (\<lambda>_. True)"

definition z_object :: "(string \<times> schema) list \<Rightarrow> schema" where
  "z_object shape = ZObject False shape (\<lambda>_. True)"

definition safe_max :: int where "safe_max = 2 ^ 53 - 1"

section \<open>Bots\<close>

record validators =
  va_email :: "string \<Rightarrow> bool"
  va_url :: "string \<Rightarrow> bool"
  va_net :: net
  va_decode :: "string \<Rightarrow> string option"

definition PlatformSchema :: schema where
  "PlatformSchema = ZEnum [''telegram'', ''twitch'', ''youtube'', ''twitter'', ''crypto'', ''discord'', ''slack'', ''bluesky'']"

text \<open>For texts that match \<open>^\d{2}:\d{2}$\<close>.\<close>

definition clock_text :: "string \<Rightarrow> bool" where
  "clock_text s \<longleftrightarrow>
     (case s of [a, b, c, d, e] \<Rightarrow> is_digit a \<and> is_digit b \<and> c = CHR '':'' \<and> is_digit d \<and> is_digit e | _ \<Rightarrow> False)"

definition isValidTime :: "string \<Rightarrow> bool" where
  "isValidTime s =
     (case split_on CHR '':'' s of
        h # m # _ \<Rightarrow> parse_dec h \<le> 23 \<and> parse_dec m \<le> 59
      | _ \<Rightarrow> False)"

definition BotCredentialsSchema :: schema where
  "BotCredentialsSchema = z_object
     [(''token'', ZOptional z_any_text), (''clientId'', ZOptional z_any_text), (''clientSecret'', ZOptional z_any_text),
      (''refreshToken'', ZOptional z_any_text), (''accessToken'', ZOptional z_any_text), (''apiKey'', ZOptional z_any_text),
      (''apiSecret'', ZOptional z_any_text),
      (''apiKeys'', ZOptional (ZArray 0 None (z_object
         [(''apiKey'', ZString 1 None (\<lambda>_. True)), (''apiSecret'', ZString 1 None (\<lambda>_. True))]))),
      (''username'', ZOptional z_any_text), (''channel'', ZOptional z_any_text), (''channelId'', ZOptional z_any_text)]"

definition RateLimitBudgetSchema :: schema where
  "RateLimitBudgetSchema = z_object [(''maxRequests'', z_int 1 1000000), (''windowMs'', z_int 100 86400000)]"

definition RateLimitBudgetsSchema :: schema where
  "RateLimitBudgetsSchema = z_object
     [(''default'', RateLimitBudgetSchema), (''overrides'', ZOptional (ZRecord RateLimitBudgetSchema))]"

definition ActiveWindowSchema :: schema where
  "ActiveWindowSchema = z_object
     [(''startHour'', z_int 0 23), (''startMinute'', z_int 0 59), (''endHour'', z_int 0 23), (''endMinute'', z_int 0 59)]"

definition LifecycleScheduleSchema :: schema where
  "LifecycleScheduleSchema = z_object
     [(''activeWindows'', ZOptional (ZRecord (ZArray 0 None ActiveWindowSchema))),
      (''timezone'', ZOptional (z_text 0 64)), (''jitterMs'', ZOptional (z_int 0 3600000))]"

definition HumanDelayConfigSchema :: schema where
  "HumanDelayConfigSchema = z_object
     [(''messageGap'', ZOptional ZBoolean), (''thinkingPause'', ZOptional ZBoolean),
      (''reactionDelay'', ZOptional ZBoolean), (''scale'', ZOptional (z_between 0 100))]"

definition HumanBehaviorSchema :: schema where
  "HumanBehaviorSchema = z_object
     [(''enabled'', ZBoolean), (''schedule'', ZOptional LifecycleScheduleSchema), (''timezone'', ZOptional (z_text 0 64)),
      (''humanDelay'', ZOptional (ZUnion [ZBoolean, HumanDelayConfigSchema]))]"

definition WarmingConfigSchema :: schema where
  "WarmingConfigSchema = z_object
     [(''durationDays'', z_int 1 365), (''maxDailyActions'', z_int 0 100000), (''maxDailyPosts'', z_int 0 100000),
      (''firstPostDay'', z_int 1 365)]"

definition upper_alnum :: "char \<Rightarrow> bool" where
  "upper_alnum c \<longleftrightarrow> is_digit c \<or> (65 \<le> (of_char c :: nat) \<and> (of_char c :: nat) \<le> 90)"

definition lower_alpha :: "char \<Rightarrow> bool" where
  "lower_alpha c \<longleftrightarrow> 97 \<le> (of_char c :: nat) \<and> (of_char c :: nat) \<le> 122"

text \<open>\<open>^[A-Z0-9]{2,20}$\<close>, \<open>^[a-z0-9-]{1,64}$\<close> and \<open>^[A-Za-z0-9]{2,20}$\<close>\<close>

definition symbol_text :: "string \<Rightarrow> bool" where
  "symbol_text s \<longleftrightarrow> 2 \<le> length s \<and> length s \<le> 20 \<and> list_all upper_alnum s"

definition coin_text :: "string \<Rightarrow> bool" where
  "coin_text s \<longleftrightarrow> 1 \<le> length s \<and> length s \<le> 64 \<and> list_all (\<lambda>c. is_digit c \<or> lower_alpha c \<or> c = CHR ''-'') s"

definition allowed_symbol_text :: "string \<Rightarrow> bool" where
  "allowed_symbol_text s \<longleftrightarrow> 2 \<le> length s \<and> length s \<le> 20 \<and> list_all (\<lambda>c. upper_alnum c \<or> lower_alpha c) s"

definition public_http_url :: "validators \<Rightarrow> string \<Rightarrow> bool" where
  "public_http_url va u =
     (case url_parse (va_net va) u of
        None \<Rightarrow> False
      | Some (proto, h) \<Rightarrow> (proto = ''http:'' \<or> proto = ''https:'') \<and> isWebhookUrlAllowed (va_net va) u)"

definition WorkHoursSchema :: schema where
  "WorkHoursSchema = ZObject False [(''start'', ZString 0 None clock_text), (''end'', ZString 0 None clock_text)]
     (\<lambda>w. isValidTime (text_or_empty (get_prop w ''start'')) \<and> isValidTime (text_or_empty (get_prop w ''end'')))"

definition WalletSchema :: schema where
  "WalletSchema = z_object
     [(''address'', ZString 0 None isValidEVMAddress), (''privateKey'', ZOptional (ZString 1 None (\<lambda>_. True)))]"

definition CryptoSchema :: schema where
  "CryptoSchema = z_object
     [(''symbols'', ZOptional (ZArray 1 (Some 50) (ZString 1 (Some 24) symbol_text))),
      (''coinIds'', ZOptional (ZArray 1 (Some 50) (ZString 1 (Some 64) coin_text))),
      (''source'', ZOptional (ZEnum [''binance'', ''coingecko'', ''auto''])),
      (''pollInterval'', ZOptional (z_int 5000 3600000)),
      (''strategy'', ZOptional (ZEnum [''sma'', ''rsi'', ''alert''])),
      (''strategyParams'', ZOptional (ZRecord ZUnknown)),
      (''tradeMode'', ZOptional (ZEnum [''dry'', ''live''])),
      (''maxOrderValueUsdt'', ZOptional (ZNumber (\<lambda>x. case x of Num r \<Rightarrow> 0 < r \<and> r \<le> 1000000 | _ \<Rightarrow> False))),
      (''maxDailyOrderValueUsdt'', ZOptional (z_between 0 100000000)),
      (''allowedSymbols'', ZOptional (ZArray 0 (Some 50) (ZString 2 (Some 20) allowed_symbol_text))),
      (''wallet'', ZOptional WalletSchema)]"

definition BotConfigSchema :: "validators \<Rightarrow> schema" where
  "BotConfigSchema va = ZObject True
     [(''pollingInterval'', ZOptional (z_int 1000 3600000)),
      (''dailyLimit'', ZOptional (z_int 0 safe_max)),
      (''workHours'', ZOptional WorkHoursSchema),
      (''webhookUrl'', ZOptional (ZString 0 None (\<lambda>u. va_url va u \<and> public_http_url va u))),
      (''rateLimitPerMinute'', ZOptional (z_int 1 1000)),
      (''rateLimitBudgets'', ZOptional RateLimitBudgetsSchema),
      (''behavior'', ZOptional HumanBehaviorSchema),
      (''warming'', ZOptional WarmingConfigSchema),
      (''channelId'', ZOptional (z_text 0 200)), (''channel'', ZOptional (z_text 0 200)), (''username'', ZOptional (z_text 0 200)),
      (''aiEnabled'', ZOptional ZBoolean), (''aiModel'', ZOptional (z_text 0 200)), (''aiSystemPrompt'', ZOptional (z_text 0 4000)),
      (''telegramWebhook'', ZOptional ZBoolean),
      (''crypto'', ZOptional CryptoSchema)]
     (\<lambda>_. True)"

definition CreateBotSchema :: "validators \<Rightarrow> schema" where
  "CreateBotSchema va = z_object
     [(''name'', z_text 1 100), (''platform'', PlatformSchema), (''accountId'', ZString 1 None (\<lambda>_. True)),
      (''config'', ZOptional (BotConfigSchema va))]"

definition UpdateBotSchema :: "validators \<Rightarrow> schema" where
  "UpdateBotSchema va = z_object [(''name'', ZOptional (z_text 1 100)), (''config'', ZOptional (BotConfigSchema va))]"

section \<open>Scripts, accounts and proxies\<close>

definition ScriptTriggerSchema :: schema where
  "ScriptTriggerSchema = ZEnum [''message'', ''follow'', ''subscribe'', ''donation'', ''comment'', ''interval'', ''raid'', ''host'',
     ''price'', ''signal'', ''trade'']"

text \<open>One of the four kinds of filters; only a regular expression is checked as one.\<close>

definition filter_schema :: "string \<Rightarrow> (string \<Rightarrow> bool) \<Rightarrow> schema" where
  "filter_schema kind ok = z_object
     [(''type'', ZEnum [kind]), (''value'', ZString 0 (Some 500) ok), (''field'', ZOptional (z_text 0 200))]"

definition CreateScriptSchema :: schema where
  "CreateScriptSchema = z_object
     [(''botId'', ZString 1 None (\<lambda>_. True)), (''name'', z_text 1 100), (''trigger'', ScriptTriggerSchema),
      (''config'', z_object
         [(''filters'', ZOptional (ZArray 0 None (ZUnion
             [filter_schema ''regex'' (\<lambda>s. isRegexSafe s MAX_REGEX_LENGTH), filter_schema ''keyword'' (\<lambda>_. True),
              filter_schema ''role'' (\<lambda>_. True), filter_schema ''custom'' (\<lambda>_. True)]))),
          (''actions'', ZArray 0 None (z_object
             [(''type'', z_text 0 50), (''payload'', ZOptional (ZRecord ZUnknown)), (''condition'', ZOptional ZUnknown),
              (''actions'', ZOptional (ZArray 0 None ZUnknown))])),
          (''variables'', ZOptional (ZRecord ZUnknown)),
          (''cooldown'', ZOptional (z_int 0 86400)), (''interval'', ZOptional (z_int 1 86400)),
          (''maxExecutionMs'', ZOptional (z_int 100 600000))]),
      (''enabled'', ZOptional ZBoolean)]"

definition CreateAccountSchema :: schema where
  "CreateAccountSchema = z_object
     [(''name'', z_text 1 100), (''platform'', PlatformSchema), (''credentials'', ZOptional BotCredentialsSchema)]"

definition ProxyTypeSchema :: schema where
  "ProxyTypeSchema = ZEnum [''http'', ''socks5'']"

definition CreateProxySchema :: "validators \<Rightarrow> schema" where
  "CreateProxySchema va = z_object
     [(''url'', ZString 1 (Some 500) (isValidProxyUrl (va_decode va))), (''type'', ProxyTypeSchema),
      (''priority'', ZDefault (JNum (Num 0)) (z_int 0 100))]"

definition UpdateProxySchema :: "validators \<Rightarrow> schema" where
  "UpdateProxySchema va = z_object
     [(''url'', ZOptional (ZString 1 (Some 500) (isValidProxyUrl (va_decode va)))), (''type'', ZOptional ProxyTypeSchema),
      (''priority'', ZOptional (z_int 0 100)), (''enabled'', ZOptional ZBoolean)]"

section \<open>What was accepted is accepted again\<close>

definition stable :: "parser \<Rightarrow> bool" where
  "stable p \<longleftrightarrow> (\<forall>v v'. p v = Some v' \<longrightarrow> p v' = Some v')"

named_theorems stable_rules

lemma those_Some: "those xs = Some ys \<longleftrightarrow> xs = map Some ys"
proof (induction xs arbitrary: ys)
  case (Cons x xs)
  then show ?case by (cases x; cases ys) (auto split: option.splits)
qed auto

lemma those_map_Some [simp]: "those (map Some ys) = Some ys"
  by (simp add: those_Some)

lemma stable_same: "(\<And>v v'. p v = Some v' \<Longrightarrow> v' = v) \<Longrightarrow> stable p"
  by (metis stable_def)

lemma stable_string [stable_rules]: "stable (parse_string lo hi ok)"
  by (rule stable_same) (auto simp: parse_string_def split: json.splits if_splits)

lemma stable_number [stable_rules]: "stable (parse_number ok)"
  by (rule stable_same) (auto simp: parse_number_def split: json.splits jsnum.splits if_splits)

lemma stable_boolean [stable_rules]: "stable parse_boolean"
  by (rule stable_same) (auto simp: parse_boolean_def split: json.splits)

lemma stable_enum [stable_rules]: "stable (parse_enum names)"
  by (rule stable_same) (auto simp: parse_enum_def split: json.splits if_splits)

lemma stable_unknown [stable_rules]: "stable Some"
  by (rule stable_same) simp

lemma stable_optional [stable_rules]: "stable p \<Longrightarrow> stable (parse_optional p)"
  by (auto simp: stable_def parse_optional_def)

lemma stable_default [stable_rules]:
  "stable p \<Longrightarrow> p d = Some d \<Longrightarrow> (\<And>v. p v \<noteq> Some JUndef) \<Longrightarrow> stable (parse_default d p)"
  by (auto simp: stable_def parse_default_def)

lemma stable_array [stable_rules]:
  assumes "stable p"
  shows "stable (parse_array lo hi p)"
proof -
  have "map p ys = map Some ys" if "map p xs = map Some ys" for xs ys
    using that assms unfolding stable_def by (induction xs arbitrary: ys) (auto simp: Cons_eq_map_conv)
  moreover have "length xs = length ys" if "map p xs = map Some ys" for xs ys
    using that map_eq_imp_length_eq by blast
  ultimately show ?thesis
    unfolding stable_def
    by (auto simp: parse_array_def those_Some split: json.splits if_splits)
qed

lemma stable_record [stable_rules]:
  assumes "stable p"
  shows "stable (parse_record p)"
  unfolding stable_def
proof (intro allI impI)
  fix v v'
  assume "parse_record p v = Some v'"
  then obtain m vs where m: "map (p \<circ> snd) m = map Some vs" "v' = JObj (zip (map fst m) vs)"
    by (auto simp: parse_record_def those_Some split: json.splits)
  then have l: "length vs = length m" by (metis length_map)
  have "map p vs = map Some vs"
    using m(1) assms unfolding stable_def by (auto simp: list_eq_iff_nth_eq)
  moreover have "map (p \<circ> snd) (zip (map fst m) vs) = map p vs" using l by (simp flip: map_map)
  ultimately show "parse_record p v' = Some v'" using l by (auto simp: parse_record_def m(2) those_Some intro!: exI [of _ vs])
qed

text \<open>The value of a key of the shape in what an object schema gives.\<close>

lemma object_lookup:
  assumes "distinct (map fst shape)" "length vs = length shape" "i < length shape"
    and "\<And>k x. (k, x) \<in> set rest \<Longrightarrow> k \<notin> fst ` set shape"
  shows "get_prop (JObj (filter (\<lambda>(k, x). x \<noteq> JUndef) (zip (map fst shape) vs) @ rest)) (fst (shape ! i)) = vs ! i"
proof -
  let ?z = "zip (map fst shape) vs"
  have "map_of ?z (fst (shape ! i)) = Some (vs ! i)"
    using assms(1-3) map_of_zip_nth [of "map fst shape" vs i] by simp
  moreover have "jmap_ok ?z" using assms(1,2) by (simp add: map_fst_zip_take)
  ultimately have "map_of (filter (\<lambda>(k, x). x \<noteq> JUndef) ?z) (fst (shape ! i)) = (if vs ! i = JUndef then None else Some (vs ! i))"
    by (simp add: map_of_filter [where P = "\<lambda>k x. x \<noteq> JUndef"])
  moreover have "map_of rest (fst (shape ! i)) = None"
    using assms(4) nth_mem [OF assms(3)] by (force simp: map_of_eq_None_iff)
  ultimately show ?thesis by (auto simp: map_add_def)
qed

lemma parse_object_SomeD:
  assumes "parse_object pass shape ok v = Some v'"
  obtains m vs rest where "v = JObj m" "map (\<lambda>(k, p). p (get_prop v k)) shape = map Some vs"
    "rest = (if pass then filter (\<lambda>(k, x). k \<notin> fst ` set shape) m else [])"
    "v' = JObj (filter (\<lambda>(k, x). x \<noteq> JUndef) (zip (map fst shape) vs) @ rest)" "ok v'" "length vs = length shape"
proof -
  from assms obtain m where m: "v = JObj m" by (cases v) (auto simp: parse_object_def)
  with assms obtain vs where vs: "those (map (\<lambda>(k, p). p (get_prop v k)) shape) = Some vs"
    by (auto simp: parse_object_def split: option.splits)
  then have "length vs = length shape" by (metis those_Some length_map)
  moreover have "map (\<lambda>(k, p). p (get_prop v k)) shape = map Some vs" using vs by (simp only: those_Some)
  moreover have "v' = JObj (filter (\<lambda>(k, x). x \<noteq> JUndef) (zip (map fst shape) vs) @
      (if pass then filter (\<lambda>(k, x). k \<notin> fst ` set shape) m else []))" "ok v'"
    using assms [unfolded parse_object_def m json.case vs [unfolded m] option.case Let_def] by (auto split: if_splits)
  ultimately show ?thesis using that [OF m _ refl] by blast
qed

lemma stable_object [stable_rules]:
  assumes d: "distinct (map fst shape)" and st: "\<And>k p. (k, p) \<in> set shape \<Longrightarrow> stable p"
  shows "stable (parse_object pass shape ok)"
  unfolding stable_def
proof (intro allI impI)
  fix v v'
  assume "parse_object pass shape ok v = Some v'"
  then obtain m vs rest where v: "v = JObj m" and vs: "map (\<lambda>(k, p). p (get_prop v k)) shape = map Some vs"
    and rest: "rest = (if pass then filter (\<lambda>(k, x). k \<notin> fst ` set shape) m else [])"
    and v': "v' = JObj (filter (\<lambda>(k, x). x \<noteq> JUndef) (zip (map fst shape) vs) @ rest)" and ok: "ok v'"
    and l: "length vs = length shape" by (rule parse_object_SomeD)
  have "map (\<lambda>(k, p). p (get_prop v' k)) shape = map Some vs"
  proof (rule nth_equalityI)
    fix i
    assume "i < length (map (\<lambda>(k, p). p (get_prop v' k)) shape)"
    then have i: "i < length shape" by simp
    obtain k p where kp: "shape ! i = (k, p)" by (cases "shape ! i")
    have "p (get_prop v k) = Some (vs ! i)" using vs i l kp by (auto simp: list_eq_iff_nth_eq)
    then have "p (vs ! i) = Some (vs ! i)" using st [of k p] nth_mem [OF i] kp unfolding stable_def by metis
    moreover have "get_prop v' k = vs ! i"
      using object_lookup [OF d l i, of rest] kp rest by (auto simp: v' split: if_splits)
    ultimately show "map (\<lambda>(k, p). p (get_prop v' k)) shape ! i = map Some vs ! i" using i l kp by simp
  qed (simp add: l)
  moreover have "filter (\<lambda>(k, x). k \<notin> fst ` set shape) (filter (\<lambda>(k, x). x \<noteq> JUndef) (zip (map fst shape) vs)) = []"
    by (auto simp: filter_empty_conv dest!: set_zip_leftD)
  ultimately show "parse_object pass shape ok v' = Some v'"
    using ok rest by (cases pass) (simp_all add: parse_object_def v' Let_def)
qed

text \<open>In a union the first option that accepts decides; what it gives must not suit an earlier option.\<close>

lemma stable_union:
  assumes "\<And>p. p \<in> set ps \<Longrightarrow> stable p"
    and "sorted_wrt (\<lambda>p q. \<forall>v v'. p v = None \<longrightarrow> q v = Some v' \<longrightarrow> p v' = None) ps"
  shows "stable (parse_union ps)"
  using assms
proof (induction ps)
  case (Cons p ps)
  have later: "\<exists>q \<in> set ps. q v = Some v'" if "parse_union ps v = Some v'" for v v'
    using that by (induction ps) (auto split: option.splits)
  show ?case
    unfolding stable_def
  proof (intro allI impI)
    fix v v'
    assume a: "parse_union (p # ps) v = Some v'"
    show "parse_union (p # ps) v' = Some v'"
    proof (cases "p v")
      case (Some x)
      then show ?thesis using a Cons.prems(1) [of p] by (auto simp: stable_def)
    next
      case None
      then have u: "parse_union ps v = Some v'" using a by simp
      then obtain q where "q \<in> set ps" "q v = Some v'" using later by blast
      then have "p v' = None" using Cons.prems(2) None by auto
      moreover have "stable (parse_union ps)" using Cons by simp
      ultimately show ?thesis using u by (simp add: stable_def)
    qed
  qed
qed (simp add: stable_def)

text \<open>The options of the filters are told apart by their type.\<close>

lemma object_fields:
  assumes "parse_object pass shape ok v = Some v'" "map_of shape k = Some p" "distinct (map fst shape)"
  shows "\<exists>x. p (get_prop v k) = Some x \<and> get_prop v' k = x"
proof -
  from assms(1) obtain m vs rest where v: "v = JObj m" and vs: "map (\<lambda>(k, p). p (get_prop v k)) shape = map Some vs"
    and rest: "rest = (if pass then filter (\<lambda>(k, x). k \<notin> fst ` set shape) m else [])"
    and v': "v' = JObj (filter (\<lambda>(k, x). x \<noteq> JUndef) (zip (map fst shape) vs) @ rest)"
    and l: "length vs = length shape" by (rule parse_object_SomeD)
  from map_of_SomeD [OF assms(2)] obtain i where i: "i < length shape" "shape ! i = (k, p)" by (auto simp: in_set_conv_nth)
  have "p (get_prop v k) = Some (vs ! i)" using vs i l by (auto simp: list_eq_iff_nth_eq)
  moreover have "get_prop v' k = vs ! i" using object_lookup [OF assms(3) l i(1), of rest] i(2) rest by (auto simp: v' split: if_splits)
  ultimately show ?thesis by blast
qed

lemma object_rest:
  assumes "parse_object pass shape ok (JObj m) = Some v'" "k \<notin> fst ` set shape"
  shows "get_prop v' k = (if pass then get_prop (JObj m) k else JUndef)"
proof -
  from assms(1) obtain vs rest where rest: "rest = (if pass then filter (\<lambda>(k, x). k \<notin> fst ` set shape) m else [])"
    and v': "v' = JObj (filter (\<lambda>(k, x). x \<noteq> JUndef) (zip (map fst shape) vs) @ rest)"
    by (rule parse_object_SomeD) simp
  have "map_of (filter (\<lambda>(k, x). x \<noteq> JUndef) (zip (map fst shape) vs)) k = None"
    using assms(2) by (force simp: map_of_eq_None_iff dest: set_zip_leftD)
  moreover have "map_of (filter (\<lambda>(k, x). k \<notin> fst ` set shape) m) k = map_of m k"
    using assms(2) by (induction m) (auto intro: rev_image_eqI)
  ultimately show ?thesis by (simp add: v' rest map_add_def)
qed

lemma stable_filters:
  "stable (parse_union (map parse_schema [filter_schema ''regex'' ok1, filter_schema ''keyword'' ok2, filter_schema ''role'' ok3, filter_schema ''custom'' ok4]))"
proof -
  have tag: "get_prop v ''type'' = JStr kind \<and> get_prop v' ''type'' = JStr kind"
    if "parse_schema (filter_schema kind ok) v = Some v'" for kind ok v v'
  proof -
    let ?shape = "map (map_prod id parse_schema) [(''type'', ZEnum [kind]), (''value'', ZString 0 (Some 500) ok), (''field'', ZOptional (z_text 0 200))]"
    have "map_of ?shape ''type'' = Some (parse_enum [kind])" "distinct (map fst ?shape)" by simp_all
    from object_fields [OF _ this, of False "\<lambda>_. True" v v'] that show ?thesis
      by (auto simp: filter_schema_def z_object_def parse_enum_def split: json.splits if_splits)
  qed
  have apart: "parse_schema (filter_schema k1 o1) v' = None"
    if "parse_schema (filter_schema k2 o2) v = Some v'" "k1 \<noteq> k2" for k1 k2 o1 o2 v v'
    using tag [OF that(1)] that(2) tag [of k1 o1 v'] by (cases "parse_schema (filter_schema k1 o1) v'") auto
  have "stable (parse_schema (filter_schema kind ok))" for kind ok
    by (auto simp: filter_schema_def z_object_def z_text_def intro!: stable_rules)
  then show ?thesis by (intro stable_union) (auto intro: apart)
qed

lemma stable_delays: "stable (parse_union (map parse_schema [ZBoolean, HumanDelayConfigSchema]))"
proof (rule stable_union)
  fix p
  assume "p \<in> set (map parse_schema [ZBoolean, HumanDelayConfigSchema])"
  then show "stable p" by (auto simp: HumanDelayConfigSchema_def z_object_def z_between_def intro!: stable_rules)
next
  have "\<not> (\<exists>b. v' = JBool b)" if "parse_schema HumanDelayConfigSchema v = Some v'" for v v'
    using that parse_object_SomeD by (force simp: HumanDelayConfigSchema_def z_object_def)
  then show "sorted_wrt (\<lambda>p q. \<forall>v v'. p v = None \<longrightarrow> q v = Some v' \<longrightarrow> p v' = None) (map parse_schema [ZBoolean, HumanDelayConfigSchema])"
    by (auto simp: parse_boolean_def split: json.splits)
qed

lemma stable_delay_union [stable_rules]: "stable (parse_union [parse_boolean, parse_schema HumanDelayConfigSchema])"
  using stable_delays by simp

lemmas schema_defs = z_object_def z_int_def z_between_def z_text_def z_any_text_def PlatformSchema_def BotCredentialsSchema_def
  RateLimitBudgetSchema_def RateLimitBudgetsSchema_def ActiveWindowSchema_def LifecycleScheduleSchema_def HumanBehaviorSchema_def
  WarmingConfigSchema_def WorkHoursSchema_def WalletSchema_def ScriptTriggerSchema_def ProxyTypeSchema_def

lemma stable_crypto: "stable (parse_schema CryptoSchema)"
  by (auto simp: CryptoSchema_def schema_defs intro!: stable_rules)

lemma stable_behavior: "stable (parse_schema HumanBehaviorSchema)"
  unfolding HumanBehaviorSchema_def z_object_def parse_schema.simps
  by (intro stable_rules)
    (auto simp: schema_defs intro!: stable_rules)

lemma stable_config: "stable (parse_schema (BotConfigSchema va))"
  unfolding BotConfigSchema_def parse_schema.simps
  by (intro stable_rules)
    (auto simp: schema_defs stable_crypto stable_behavior [unfolded HumanBehaviorSchema_def z_object_def, simplified] intro!: stable_rules)

lemma stable_script: "stable (parse_schema CreateScriptSchema)"
  unfolding CreateScriptSchema_def z_object_def parse_schema.simps
  by (intro stable_rules)
    (auto simp: schema_defs stable_filters [simplified] intro!: stable_rules)


section \<open>Keys that a schema does not know\<close>

text \<open>At the top of a config they are kept, in the objects below they are dropped.\<close>

lemma config_known_keys:
  "map fst (map (map_prod id parse_schema) shape) = map fst shape"
  by simp

lemma unknown_key_kept:
  assumes "parse_schema (BotConfigSchema va) (JObj m) = Some v'"
    and "k \<notin> {''pollingInterval'', ''dailyLimit'', ''workHours'', ''webhookUrl'', ''rateLimitPerMinute'', ''rateLimitBudgets'', ''behavior'',
       ''warming'', ''channelId'', ''channel'', ''username'', ''aiEnabled'', ''aiModel'', ''aiSystemPrompt'', ''telegramWebhook'', ''crypto''}"
  shows "get_prop v' k = get_prop (JObj m) k"
  using object_rest [OF assms(1) [unfolded BotConfigSchema_def parse_schema.simps], of k] assms(2) by simp

lemma nested_key_lost:
  assumes "parse_schema CryptoSchema v = Some v'"
    and "k \<notin> {''symbols'', ''coinIds'', ''source'', ''pollInterval'', ''strategy'', ''strategyParams'', ''tradeMode'', ''maxOrderValueUsdt'',
       ''maxDailyOrderValueUsdt'', ''allowedSymbols'', ''wallet''}"
  shows "get_prop v' k = JUndef"
proof -
  obtain m where v: "v = JObj m" using assms(1) by (cases v) (auto simp: CryptoSchema_def z_object_def parse_object_def)
  show ?thesis
    using object_rest [OF assms(1) [unfolded CryptoSchema_def z_object_def parse_schema.simps v], of k] assms(2) by simp
qed

section \<open>Generated configs\<close>

lemma pool_texts:
  "list_all (\<lambda>s. symbol_text s \<and> (case coin_of s of JStr i \<Rightarrow> coin_text i | _ \<Rightarrow> False)) SYMBOL_POOL"
  by code_simp

lemma array_same: "map p xs = map Some xs \<Longrightarrow> lo \<le> length xs \<Longrightarrow> up_to hi (length xs) \<Longrightarrow> parse_array lo hi p (JArr xs) = Some (JArr xs)"
  by (simp add: parse_array_def those_Some)

definition fits :: "validators \<Rightarrow> json \<Rightarrow> bool" where
  "fits va c \<longleftrightarrow> (\<exists>v'. parse_schema (BotConfigSchema va) (JObj [(''crypto'', c)]) = Some v' \<and>
     (\<forall>k. get_prop (get_prop v' ''crypto'') k = get_prop c k))"

lemma generated_fits:
  assumes n: "1 \<le> n" "n \<le> 3" and symbols: "distinct symbols \<and> set symbols \<subseteq> set SYMBOL_POOL \<and> length symbols = nat n"
    and strategy: "strategy \<in> set [''sma'', ''sma'', ''rsi'', ''rsi'', ''alert'']"
    and source: "source \<in> set (if strategy = ''alert'' then [''binance'', ''auto'', ''coingecko''] else [''binance'', ''auto''])"
    and poll: "15000 \<le> p" "p \<le> 120000" and m: "50 \<le> m" "m \<le> 500"
  shows "fits va (JObj [
         (''symbols'', JArr (map JStr symbols)), (''coinIds'', JArr (map coin_of symbols)), (''source'', JStr source),
         (''strategy'', JStr strategy), (''strategyParams'', JObj ps), (''tradeMode'', JStr ''dry''),
         (''pollInterval'', JNum (jint p)), (''maxOrderValueUsdt'', JNum (jint m))])" (is "fits va ?c")
proof -
  have len: "1 \<le> length symbols" "length symbols \<le> 50" using n symbols by auto
  have "map (parse_string 1 (Some 24) symbol_text) (map JStr symbols) = map Some (map JStr symbols)"
    using symbols pool_texts by (auto simp: parse_string_def up_to_def list_all_iff symbol_text_def)
  then have s: "parse_array 1 (Some 50) (parse_string 1 (Some 24) symbol_text) (JArr (map JStr symbols)) = Some (JArr (map JStr symbols))"
    using len by (intro array_same) (simp_all add: up_to_def)
  have "parse_string 1 (Some 64) coin_text (coin_of x) = Some (coin_of x)" if "x \<in> set symbols" for x
  proof -
    have "case coin_of x of JStr i \<Rightarrow> coin_text i | _ \<Rightarrow> False"
      using that symbols pool_texts unfolding list_all_iff by blast
    then show ?thesis by (auto simp: parse_string_def up_to_def coin_text_def split: json.splits)
  qed
  then have "map (parse_string 1 (Some 64) coin_text) (map coin_of symbols) = map Some (map coin_of symbols)" by simp
  then have c: "parse_array 1 (Some 50) (parse_string 1 (Some 64) coin_text) (JArr (map coin_of symbols)) = Some (JArr (map coin_of symbols))"
    using len by (intro array_same) (simp_all add: up_to_def)
  have "those (map (Some \<circ> snd) ps) = Some (map snd ps)" by (simp only: those_Some map_map)
  then have r: "parse_record Some (JObj ps) = Some (JObj ps)"
    by (simp add: parse_record_def zip_map_fst_snd)
  show ?thesis
    unfolding fits_def BotConfigSchema_def CryptoSchema_def schema_defs parse_schema.simps
    using strategy source poll m s c r
    by (auto simp: parse_object_def parse_optional_def parse_enum_def parse_number_def)
qed

text \<open>
  C26. Whatever the random numbers, the config of a new trading bot is one that the input schema accepts with all
  its values, so that it can be saved again through the API, and one that the worker accepts: simulated trading,
  no automatic orders, distinct symbols with their own coins, amounts within the limit.
\<close>

theorem generated_config_fits:
  assumes "rng_ok r"
  shows "fits va (fst (run_state generateCryptoConfig r)) \<and> accepted envMax (fst (run_state generateCryptoConfig r))"
proof -
  have "yields (fits va) generateCryptoConfig"
    unfolding generateCryptoConfig_def
    by (intro yields_bind [OF yields_randInt] yields_bind [OF yields_pickMany] yields_bind [OF yields_pick]
        yields_bind [OF yields_strategy_numbers] yields_bind [OF yields_exit_guard] yields_return generated_fits)
      (simp_all add: symbol_pool kline_pool nat_le_iff)
  with assms show ?thesis using generated_config_accepted [OF assms] by (simp add: yields_def)
qed

lemma generated_config_fits_witness:
  "\<forall>va. fits va (fst (run_state generateCryptoConfig (\<lambda>i. 1 / 2))) \<and> accepted (Num 100) (fst (run_state generateCryptoConfig (\<lambda>i. 1 / 2)))"
  using generated_config_fits [of "\<lambda>i. 1 / 2" _ "Num 100"] by (auto simp: rng_ok_def math_random_def)

end
