(* ===== verification/JobQueues.thy ===== *)
theory JobQueues
  imports WorkerJobs Schemas
begin

text \<open>
  The queues between the API and the workers, packages/api/src/services/queue.ts: what the API puts in, the
  queues of dead letters, and their replay. Of the queue library the model has that a job with an id that a queue
  already holds is not added again; while Redis is away every call fails. Which jobs of a queue a range covers,
  random suffixes and the clock are arguments. The counts of the metrics are left out.
\<close>

section \<open>Queues\<close>

record queue_job =
  qj_id :: string
  qj_name :: string
  qj_data :: json
  qj_attempts :: nat
  qj_backoff :: "nat option"
  qj_delay :: nat
  qj_transient :: bool
  qj_attemptsMade :: nat
  qj_timestamp :: ms

record job_queues =
  jq_jobs :: "(string, queue_job list) jmap"
  jq_up :: bool

definition jobs_in :: "string \<Rightarrow> job_queues \<Rightarrow> queue_job list" where
  "jobs_in q qs = jget_or [] (jq_jobs qs) q"

definition add_job :: "string \<Rightarrow> queue_job \<Rightarrow> job_queues \<Rightarrow> job_queues option" where
  "add_job q j qs =
     (if \<not> jq_up qs then None
      else Some (if qj_id j \<in> qj_id ` set (jobs_in q qs) then qs
                 else qs\<lparr> jq_jobs := jset q (jobs_in q qs @ [j]) (jq_jobs qs) \<rparr>))"

definition remove_job :: "string \<Rightarrow> string \<Rightarrow> job_queues \<Rightarrow> job_queues" where
  "remove_job q i qs =
     (if jq_up qs then qs\<lparr> jq_jobs := jset q (filter (\<lambda>j. qj_id j \<noteq> i) (jobs_in q qs)) (jq_jobs qs) \<rparr> else qs)"

definition PLATFORM_QUEUES :: "string list" where
  "PLATFORM_QUEUES = [''telegram'', ''twitch'', ''youtube'', ''twitter'', ''crypto'']"

definition getQueue :: "string \<Rightarrow> string option" where
  "getQueue platform = (if platform \<in> set PLATFORM_QUEUES then Some (platform @ ''-queue'') else None)"

section \<open>Control jobs and actions\<close>

definition job_body :: "string \<Rightarrow> string \<Rightarrow> string \<Rightarrow> json \<Rightarrow> json" where
  "job_body i kind botId data = JObj [(''id'', JStr i), (''type'', JStr kind), (''botId'', JStr botId), (''data'', data)]"

definition new_job :: "ms \<Rightarrow> string \<Rightarrow> string \<Rightarrow> json \<Rightarrow> nat \<Rightarrow> bool \<Rightarrow> queue_job" where
  "new_job now i name body attempts transient =
     \<lparr> qj_id = i, qj_name = name, qj_data = body, qj_attempts = attempts, qj_backoff = None, qj_delay = 0,
       qj_transient = transient, qj_attemptsMade = 0, qj_timestamp = now \<rparr>"

text \<open>\<open>None\<close> where the call throws: an unknown platform, or no connection.\<close>

definition enqueue :: "string \<Rightarrow> queue_job \<Rightarrow> job_queues \<Rightarrow> job_queues option" where
  "enqueue platform j qs = (case getQueue platform of None \<Rightarrow> None | Some q \<Rightarrow> add_job q j qs)"

definition enqueueConnect :: "ms \<Rightarrow> string \<Rightarrow> string \<Rightarrow> job_queues \<Rightarrow> job_queues option" where
  "enqueueConnect now botId platform =
     enqueue platform (new_job now (''connect-'' @ botId) ''connect'' (job_body botId ''connect'' botId (JObj [])) 1 True)"

definition enqueueDisconnect :: "ms \<Rightarrow> string \<Rightarrow> string \<Rightarrow> job_queues \<Rightarrow> job_queues option" where
  "enqueueDisconnect now botId platform =
     enqueue platform (new_job now (''disconnect-'' @ botId) ''disconnect'' (job_body botId ''disconnect'' botId (JObj [])) 3 True)"

text \<open>The text of a clock reading.\<close>

definition ms_text :: "ms \<Rightarrow> string" where
  "ms_text t = nat_text (nat t)"

definition enqueueAction :: "ms \<Rightarrow> string \<Rightarrow> string \<Rightarrow> string \<Rightarrow> string \<Rightarrow> json \<Rightarrow> job_queues \<Rightarrow> job_queues option" where
  "enqueueAction now nonce botId platform kind payload =
     enqueue platform (new_job now (''execute-'' @ botId @ ''-'' @ ms_text now @ ''-'' @ nonce) ''execute''
       (job_body (botId @ ''-'' @ ms_text now) ''execute'' botId (JObj [(''type'', JStr kind), (''payload'', payload)])) 1 False)"

definition enqueueTelegramUpdate :: "(jsnum \<Rightarrow> string) \<Rightarrow> ms \<Rightarrow> string \<Rightarrow> json \<Rightarrow> job_queues \<Rightarrow> job_queues option" where
  "enqueueTelegramUpdate show_num now botId upd =
     (let i = (case get_prop upd ''update_id'' of JNum x \<Rightarrow> show_num x | _ \<Rightarrow> ms_text now)
      in enqueue ''telegram'' (new_job now (''tg-update-'' @ botId @ ''-'' @ i) ''update''
           (job_body (botId @ ''-'' @ i) ''update'' botId upd) 1 True))"

definition enqueueEventReplay :: "ms \<Rightarrow> string \<Rightarrow> string \<Rightarrow> string \<Rightarrow> string \<Rightarrow> json \<Rightarrow> job_queues \<Rightarrow> job_queues option" where
  "enqueueEventReplay now nonce platform botId eventId event =
     enqueue platform ((new_job now (''event-replay-'' @ eventId @ ''-'' @ nonce) ''event''
       (job_body (''replay-'' @ eventId @ ''-'' @ nonce) ''event'' botId (JObj [(''event'', event)])) 3 False)
       \<lparr> qj_backoff := Some 2000 \<rparr>)"

section \<open>Dead letters\<close>

definition DLQ_NAMES :: "(string \<times> string) list" where
  "DLQ_NAMES = map (\<lambda>p. (p, p @ ''-queue-dlq'')) (PLATFORM_QUEUES @ [''webhook''])"

record dlq_view =
  dv_id :: string
  dv_platform :: string
  dv_name :: "string option"
  dv_type :: "string option"
  dv_botId :: "string option"
  dv_failedReason :: "string option"
  dv_attemptsMade :: jsnum
  dv_timestamp :: ms

definition text_of :: "json \<Rightarrow> string option" where
  "text_of v = (case v of JStr s \<Rightarrow> Some s | _ \<Rightarrow> None)"

text \<open>\<open>number\<close> is \<open>Number\<close> of a value.\<close>

definition toDlqView :: "(json \<Rightarrow> jsnum) \<Rightarrow> string \<Rightarrow> queue_job \<Rightarrow> dlq_view" where
  "toDlqView number platform j =
     (let d = qj_data j
      in \<lparr> dv_id = qj_id j, dv_platform = platform, dv_name = text_of (get_prop d ''name''), dv_type = text_of (get_prop d ''type''),
           dv_botId = text_of (get_prop d ''botId''), dv_failedReason = text_of (get_prop d ''failedReason''),
           dv_attemptsMade = number_or_0 (number (get_prop d ''attemptsMade'')), dv_timestamp = qj_timestamp j \<rparr>)"

text \<open>What a range of a queue up to an index gives is up to the library.\<close>

type_synonym ranges = "nat \<Rightarrow> queue_job list \<Rightarrow> queue_job list"

definition getDeadLetterJobs :: "(json \<Rightarrow> jsnum) \<Rightarrow> ranges \<Rightarrow> nat \<Rightarrow> job_queues \<Rightarrow> dlq_view list option" where
  "getDeadLetterJobs number ranged limit qs =
     (if jq_up qs
      then Some (concat (map (\<lambda>(p, q). map (toDlqView number p) (ranged limit (jobs_in q qs))) DLQ_NAMES))
      else None)"

definition prune_queue :: "ranges \<Rightarrow> ms \<Rightarrow> nat \<Rightarrow> string \<Rightarrow> job_queues \<times> nat \<Rightarrow> job_queues \<times> nat" where
  "prune_queue ranged cutoff maxPerPlatform q s =
     fold (\<lambda>j (qs, n). if qj_timestamp j < cutoff then (remove_job q (qj_id j) qs, n + 1) else (qs, n))
       (ranged maxPerPlatform (jobs_in q (fst s))) s"

definition pruneDeadLetterJobs :: "ranges \<Rightarrow> ms \<Rightarrow> nat \<Rightarrow> job_queues \<Rightarrow> (job_queues \<times> nat) option" where
  "pruneDeadLetterJobs ranged cutoff maxPerPlatform qs =
     (if jq_up qs then Some (fold (prune_queue ranged cutoff maxPerPlatform) (map snd DLQ_NAMES) (qs, 0)) else None)"

datatype replay_outcome = Replayed | UnknownDlq | NoSuchJob | NoTarget

text \<open>The payload is spread into a new object; an array gives its indices as keys.\<close>

definition replay_payload :: "json \<Rightarrow> json \<Rightarrow> json" where
  "replay_payload payload botId =
     (if truthy payload \<and> is_object payload then JObj (jset ''botId'' botId (object_entries payload))
      else JObj [(''botId'', botId)])"

definition replay_job :: "ms \<Rightarrow> string \<Rightarrow> queue_job \<Rightarrow> queue_job" where
  "replay_job now platform j =
     (let d = nullish_or (qj_data j) (JObj []);
          name = (case get_prop d ''name'' of JStr (c # cs) \<Rightarrow> c # cs | _ \<Rightarrow> ''default'');
          kind = (case get_prop d ''type'' of JStr s \<Rightarrow> s | _ \<Rightarrow> ''default'');
          botId = text_of (get_prop d ''botId'');
          bot = (case botId of Some b \<Rightarrow> JStr b | None \<Rightarrow> JNull)
      in \<lparr> qj_id = ''replay-'' @ platform @ ''-'' @ qj_id j @ ''-'' @ ms_text now, qj_name = name,
           qj_data = JObj [(''id'', JStr (case botId of Some (c # cs) \<Rightarrow> (c # cs) @ ''-'' @ ms_text now | _ \<Rightarrow> ''replay-'' @ ms_text now)),
             (''type'', JStr kind), (''botId'', bot), (''data'', replay_payload (get_prop d ''payload'') bot)],
           qj_attempts = 3, qj_backoff = Some 2000, qj_delay = 0, qj_transient = False, qj_attemptsMade = 0, qj_timestamp = now \<rparr>)"

definition replay_target :: "string \<Rightarrow> string option" where
  "replay_target platform = (if platform = ''webhook'' then Some ''webhook-queue'' else getQueue platform)"

definition replayDeadLetterJob :: "ms \<Rightarrow> string \<Rightarrow> string \<Rightarrow> job_queues \<Rightarrow> (job_queues \<times> replay_outcome) option" where
  "replayDeadLetterJob now platform i qs =
     (case map_of DLQ_NAMES platform of
        None \<Rightarrow> Some (qs, UnknownDlq)
      | Some dlq \<Rightarrow>
          if \<not> jq_up qs then None
          else case find (\<lambda>j. qj_id j = i) (jobs_in dlq qs) of
            None \<Rightarrow> Some (qs, NoSuchJob)
          | Some j \<Rightarrow>
              (case replay_target platform of
                 None \<Rightarrow> Some (qs, NoTarget)
               | Some target \<Rightarrow>
                   map_option (\<lambda>qs. (remove_job dlq i qs, Replayed)) (add_job target (replay_job now platform j) qs)))"

text \<open>One after another; the list of a queue is read before its first job is replayed.\<close>

fun replay_each :: "ms \<Rightarrow> string \<Rightarrow> queue_job list \<Rightarrow> job_queues \<times> nat \<times> nat \<Rightarrow> (job_queues \<times> nat \<times> nat) option" where
  "replay_each now p [] s = Some s"
| "replay_each now p (j # js) (qs, ok, failed) =
     (case replayDeadLetterJob now p (qj_id j) qs of
        None \<Rightarrow> None
      | Some (qs, r) \<Rightarrow> replay_each now p js (if r = Replayed then (qs, ok + 1, failed) else (qs, ok, failed + 1)))"

fun replay_queues :: "ranges \<Rightarrow> ms \<Rightarrow> (string \<times> string) list \<Rightarrow> job_queues \<times> nat \<times> nat \<Rightarrow> (job_queues \<times> nat \<times> nat) option" where
  "replay_queues ranged now [] s = Some s"
| "replay_queues ranged now ((p, q) # ps) s =
     (if \<not> jq_up (fst s) then None
      else case replay_each now p (ranged 500 (jobs_in q (fst s))) s of
             None \<Rightarrow> None | Some s \<Rightarrow> replay_queues ranged now ps s)"

definition replayAllDeadLetterJobs :: "ranges \<Rightarrow> ms \<Rightarrow> job_queues \<Rightarrow> (job_queues \<times> nat \<times> nat) option" where
  "replayAllDeadLetterJobs ranged now qs = replay_queues ranged now DLQ_NAMES (qs, 0, 0)"

section \<open>A dead letter comes back to life\<close>

text \<open>What the failed handler of a worker is given of a job, and where it puts it.\<close>

definition job_json :: "queue_job \<Rightarrow> json" where
  "job_json j = JObj [(''id'', JStr (qj_id j)), (''name'', JStr (qj_name j)), (''data'', qj_data j),
     (''attemptsMade'', JNum (jint (int (qj_attemptsMade j)))), (''timestamp'', JNum (jint (qj_timestamp j)))]"

definition dead_letter :: "ms \<Rightarrow> string \<Rightarrow> string \<Rightarrow> queue_job \<Rightarrow> queue_job" where
  "dead_letter now platform failedReason j =
     (case moveToDlq platform (job_json j) failedReason (JStr (platform @ ''-queue'')) of
        (i, data) \<Rightarrow> new_job now i ''dlq'' data 1 False)"

lemma jobs_in_jset [simp]:
  "jobs_in q (qs\<lparr> jq_jobs := jset q' js (jq_jobs qs) \<rparr>) = (if q = q' then js else jobs_in q qs)"
  by (simp add: jobs_in_def)

lemma replayed_data:
  assumes "qj_data j = job_body i kind b data" "b \<noteq> []"
  shows "get_prop (qj_data (replay_job now p (dead_letter t p r j))) ''type'' = JStr kind"
    and "get_prop (qj_data (replay_job now p (dead_letter t p r j))) ''botId'' = JStr b"
    and "get_prop (qj_data (replay_job now p (dead_letter t p r j))) ''data'' = replay_payload (nullish_or data JNull) (JStr b)"
  using assms
  by (simp_all add: replay_job_def dead_letter_def moveToDlq_def job_json_def new_job_def job_body_def nullish_or_def nullish_def
      text_of_def Let_def)

lemma replay_payload_prop:
  "k \<noteq> ''botId'' \<Longrightarrow> \<not> is_array v \<Longrightarrow> get_prop (replay_payload (nullish_or v JNull) b) k = get_prop v k"
  by (cases v) (auto simp: replay_payload_def nullish_or_def nullish_def)



text \<open>A replayed action may be tried three times, where the API allows a single attempt.\<close>

lemma replayed_action_retries:
  assumes "enqueueAction now nonce b p kind payload qs = Some qs'"
  shows "(\<exists>j. jobs_in (p @ ''-queue'') qs' = jobs_in (p @ ''-queue'') qs @ [j] \<and> qj_attempts j = 1) \<or> qs' = qs"
    and "qj_attempts (replay_job later p d) = 3"
  using assms by (auto simp: replay_job_def Let_def enqueueAction_def enqueue_def getQueue_def add_job_def new_job_def split: if_splits)

text \<open>Three of the platforms have no queue: nothing can be sent to their bots.\<close>

lemma no_queue:
  "p \<in> {''discord'', ''slack'', ''bluesky''} \<Longrightarrow> enqueueConnect now b p qs = None \<and> enqueueDisconnect now b p qs = None \<and>
     enqueueAction now nonce b p kind payload qs = None"
  by (auto simp: enqueueConnect_def enqueueDisconnect_def enqueueAction_def enqueue_def getQueue_def PLATFORM_QUEUES_def)

end
