(* ===== verification/ApiTables.thy ===== *)
theory ApiTables
  imports Sanitize Schemas JobQueues AuthRoutes
begin

text \<open>
  The tables that the routes of the API work on, as packages/api/prisma/schema.prisma declares them, and what is
  common to the routes: the request of an authenticated owner, the world of a handler, the owner scope of
  utils/tenancy.ts and the notices of services/script-events.ts. A table is the list of its rows in the order
  of their creation. A handler is atomic. The database refuses an id that is taken; deleting a row
  deletes what belongs to it. Ids of new bots (\<open>cuid\<close>) are not empty. \<open>tenant\<close> is what one owner has, and \<open>confined\<close> a change that is nothing to the
  other owners.
\<close>

section \<open>Rows\<close>

record account_row =
  ac_id :: string
  ac_owner :: string
  ac_name :: string
  ac_platform :: string
  ac_secrets :: "(string, string) jmap"
  ac_apiKeys :: "(string \<times> string) list option"

record bot_row =
  bt_id :: string
  bt_owner :: string
  bt_account :: string
  bt_name :: string
  bt_platform :: string
  bt_status :: string
  bt_config :: json
  bt_updatedAt :: ms

record script_row =
  sc_id :: string
  sc_bot :: string
  sc_name :: string
  sc_trigger :: string
  sc_config :: json
  sc_enabled :: bool

record webhook_row =
  wh_id :: string
  wh_owner :: string
  wh_name :: string
  wh_url :: string
  wh_events :: "string list"
  wh_bot :: "string option"
  wh_secret :: "string option"
  wh_enabled :: bool
  wh_deliveryCount :: nat
  wh_lastStatus :: "string option"
  wh_lastError :: "ustring option"
  wh_lastDeliveredAt :: "ms option"

record delivery_row =
  dl_webhook :: string
  dl_eventType :: string
  dl_bot :: "string option"
  dl_status :: string
  dl_statusCode :: "nat option"
  dl_attempt :: nat
  dl_error :: "ustring option"
  dl_latencyMs :: ms
  dl_createdAt :: ms

record log_row =
  lg_id :: string
  lg_bot :: string
  lg_level :: string
  lg_message :: ustring
  lg_meta :: json
  lg_createdAt :: ms

record event_row =
  er_id :: string
  er_bot :: string
  er_platform :: string
  er_type :: string
  er_version :: int
  er_eventId :: string
  er_payload :: json
  er_replayCount :: nat
  er_lastReplayedAt :: "ms option"
  er_createdAt :: ms

record api_db =
  db_accounts :: "account_row list"
  db_bots :: "bot_row list"
  db_scripts :: "script_row list"
  db_webhooks :: "webhook_row list"
  db_deliveries :: "delivery_row list"
  db_logs :: "log_row list"
  db_events :: "event_row list"

section \<open>Requests\<close>

record api_env =
  ev_primitives :: primitives
  ev_production :: bool
  ev_registry :: key_registry
  ev_validators :: validators
  ev_limits :: quota_limits
  ev_number :: "json \<Rightarrow> jsnum"
  ev_text :: "json \<Rightarrow> string"
  ev_reader :: state_reader
  ev_date :: "ms \<Rightarrow> string"
  ev_publicKey :: "nat list \<Rightarrow> nat list"
  ev_keccak :: "nat list \<Rightarrow> nat list"
  ev_hex :: "nat list \<Rightarrow> string"

record api_request =
  ar_owner :: string
  ar_now :: ms
  ar_id :: string
  ar_iv :: "nat \<Rightarrow> nat list"
  ar_random :: "nat \<Rightarrow> rat"
  ar_privateKey :: "nat list"
  ar_nonce :: string

record api_world =
  ap_db :: api_db
  ap_queues :: job_queues
  ap_redis :: redis
  ap_notices :: "string list list"

definition on_db :: "(api_db \<Rightarrow> api_db) \<Rightarrow> api_world \<Rightarrow> api_world" where
  "on_db f w = w\<lparr> ap_db := f (ap_db w) \<rparr>"

definition notFound :: "'a reply" where
  "notFound = Rejects 404 ''NOT_FOUND''"

definition invalid :: "'a reply" where
  "invalid = Rejects 422 ''VALIDATION_ERROR''"

definition crashed :: "'a reply" where
  "crashed = Rejects 500 ''ERROR''"

definition seal :: "api_env \<Rightarrow> nat list \<Rightarrow> string \<Rightarrow> string + string" where
  "seal env iv v = encryptCredential (ev_primitives env) (ev_production env) (ev_registry env) iv v"

definition sealed :: "api_env \<Rightarrow> nat list \<Rightarrow> string option \<Rightarrow> string + string option" where
  "sealed env iv v = ensureEncrypted (ev_primitives env) (ev_production env) (ev_registry env) iv v"

text \<open>An empty list of bots is left out of the notice, and then the workers reload everything.\<close>

definition notifyScriptsChanged :: "string list \<Rightarrow> api_world \<Rightarrow> api_world" where
  "notifyScriptsChanged bots w =
     (if jq_up (ap_queues w) then w\<lparr> ap_notices := ap_notices w @ [bots] \<rparr> else w)"

text \<open>The part of a list that a page shows, newest first.\<close>

definition page_of :: "json \<Rightarrow> int \<Rightarrow> int \<Rightarrow> 'a list \<Rightarrow> 'a list" where
  "page_of query limit maxLimit rows =
     (case parsePage query limit maxLimit of (n, skipped) \<Rightarrow> take (nat n) (drop (nat skipped) (rev rows)))"

definition usage :: "string \<Rightarrow> api_db \<Rightarrow> quota_usage" where
  "usage u db =
     \<lparr> us_accounts = jint (int (length (filter (\<lambda>a. ac_owner a = u) (db_accounts db)))),
       us_bots = jint (int (length (filter (\<lambda>b. bt_owner b = u) (db_bots db)))),
       us_webhooks = jint (int (length (filter (\<lambda>h. wh_owner h = u) (db_webhooks db)))) \<rparr>"

text \<open>A call of a queue; \<open>None\<close> where it throws.\<close>

definition queued :: "(job_queues \<Rightarrow> job_queues option) \<Rightarrow> api_world \<Rightarrow> api_world option" where
  "queued f w = map_option (\<lambda>qs. w\<lparr> ap_queues := qs \<rparr>) (f (ap_queues w))"

definition best_effort :: "(api_world \<Rightarrow> api_world option) \<Rightarrow> api_world \<Rightarrow> api_world" where
  "best_effort f w = (case f w of None \<Rightarrow> w | Some w \<Rightarrow> w)"

section \<open>Queries and writes\<close>

definition own_bot :: "string \<Rightarrow> string \<Rightarrow> api_db \<Rightarrow> bot_row option" where
  "own_bot u i db = ownerScopedUnique bt_id bt_owner u i (db_bots db)"

definition own_account :: "string \<Rightarrow> string \<Rightarrow> api_db \<Rightarrow> account_row option" where
  "own_account u i db = ownerScopedUnique ac_id ac_owner u i (db_accounts db)"

definition own_webhook :: "string \<Rightarrow> string \<Rightarrow> api_db \<Rightarrow> webhook_row option" where
  "own_webhook u i db = ownerScopedUnique wh_id wh_owner u i (db_webhooks db)"

definition bot_ids :: "string \<Rightarrow> api_db \<Rightarrow> string set" where
  "bot_ids u db = bt_id ` set (filter (\<lambda>b. bt_owner b = u) (db_bots db))"

definition hook_ids :: "string \<Rightarrow> api_db \<Rightarrow> string set" where
  "hook_ids u db = wh_id ` set (filter (\<lambda>h. wh_owner h = u) (db_webhooks db))"

text \<open>Rows that belong to an owner through their bot.\<close>

definition own_script :: "string \<Rightarrow> string \<Rightarrow> api_db \<Rightarrow> script_row option" where
  "own_script u i db = find (\<lambda>s. sc_id s = i \<and> sc_bot s \<in> bot_ids u db) (db_scripts db)"

definition own_event :: "string \<Rightarrow> string \<Rightarrow> api_db \<Rightarrow> event_row option" where
  "own_event u i db = find (\<lambda>e. er_id e = i \<and> er_bot e \<in> bot_ids u db) (db_events db)"

definition change :: "('a \<Rightarrow> bool) \<Rightarrow> ('a \<Rightarrow> 'a) \<Rightarrow> 'a list \<Rightarrow> 'a list" where
  "change P f xs = map (\<lambda>x. if P x then f x else x) xs"

definition add_account :: "account_row \<Rightarrow> api_db \<Rightarrow> api_db option" where
  "add_account a db =
     (if ac_id a \<in> ac_id ` set (db_accounts db) then None else Some (db\<lparr> db_accounts := db_accounts db @ [a] \<rparr>))"

definition add_bot :: "bot_row \<Rightarrow> api_db \<Rightarrow> api_db option" where
  "add_bot b db =
     (if bt_id b = [] \<or> bt_id b \<in> bt_id ` set (db_bots db) \<or> bt_account b \<notin> ac_id ` set (db_accounts db) then None
      else Some (db\<lparr> db_bots := db_bots db @ [b] \<rparr>))"

definition add_script :: "script_row \<Rightarrow> api_db \<Rightarrow> api_db option" where
  "add_script s db =
     (if sc_id s \<in> sc_id ` set (db_scripts db) \<or> sc_bot s \<notin> bt_id ` set (db_bots db) then None
      else Some (db\<lparr> db_scripts := db_scripts db @ [s] \<rparr>))"

definition bot_known :: "string option \<Rightarrow> api_db \<Rightarrow> bool" where
  "bot_known b db \<longleftrightarrow> (case b of None \<Rightarrow> True | Some i \<Rightarrow> i \<in> bt_id ` set (db_bots db))"

definition add_webhook :: "webhook_row \<Rightarrow> api_db \<Rightarrow> api_db option" where
  "add_webhook h db =
     (if wh_id h \<in> wh_id ` set (db_webhooks db) \<or> \<not> bot_known (wh_bot h) db then None else Some (db\<lparr> db_webhooks := db_webhooks db @ [h] \<rparr>))"

text \<open>Updates of the rows with an id. \<open>@updatedAt\<close> is set by every update of a bot.\<close>

definition update_bot :: "ms \<Rightarrow> string \<Rightarrow> (bot_row \<Rightarrow> bot_row) \<Rightarrow> api_db \<Rightarrow> api_db" where
  "update_bot now i f db = db\<lparr> db_bots := change (\<lambda>b. bt_id b = i) (\<lambda>b. (f b)\<lparr> bt_updatedAt := now \<rparr>) (db_bots db) \<rparr>"

definition update_account :: "string \<Rightarrow> (account_row \<Rightarrow> account_row) \<Rightarrow> api_db \<Rightarrow> api_db" where
  "update_account i f db = db\<lparr> db_accounts := change (\<lambda>a. ac_id a = i) f (db_accounts db) \<rparr>"

definition update_script :: "string \<Rightarrow> (script_row \<Rightarrow> script_row) \<Rightarrow> api_db \<Rightarrow> api_db" where
  "update_script i f db = db\<lparr> db_scripts := change (\<lambda>s. sc_id s = i) f (db_scripts db) \<rparr>"

definition update_webhook :: "string \<Rightarrow> (webhook_row \<Rightarrow> webhook_row) \<Rightarrow> api_db \<Rightarrow> api_db" where
  "update_webhook i f db = db\<lparr> db_webhooks := change (\<lambda>h. wh_id h = i) f (db_webhooks db) \<rparr>"

definition update_event :: "string \<Rightarrow> (event_row \<Rightarrow> event_row) \<Rightarrow> api_db \<Rightarrow> api_db" where
  "update_event i f db = db\<lparr> db_events := change (\<lambda>e. er_id e = i) f (db_events db) \<rparr>"

text \<open>
  The row of a bot takes its logs, scripts and events along, and a webhook for it becomes one for all bots; an
  account takes its bots along, a webhook its deliveries.
\<close>

definition drop_bot :: "string \<Rightarrow> api_db \<Rightarrow> api_db" where
  "drop_bot i db = db\<lparr>
     db_bots := filter (\<lambda>b. bt_id b \<noteq> i) (db_bots db),
     db_scripts := filter (\<lambda>s. sc_bot s \<noteq> i) (db_scripts db),
     db_logs := filter (\<lambda>l. lg_bot l \<noteq> i) (db_logs db),
     db_events := filter (\<lambda>e. er_bot e \<noteq> i) (db_events db),
     db_webhooks := change (\<lambda>h. wh_bot h = Some i) (\<lambda>h. h\<lparr> wh_bot := None \<rparr>) (db_webhooks db) \<rparr>"

definition drop_account :: "string \<Rightarrow> api_db \<Rightarrow> api_db" where
  "drop_account i db = (fold drop_bot (map bt_id (filter (\<lambda>b. bt_account b = i) (db_bots db))) db)
     \<lparr> db_accounts := filter (\<lambda>a. ac_id a \<noteq> i) (db_accounts db) \<rparr>"

definition drop_webhook :: "string \<Rightarrow> api_db \<Rightarrow> api_db" where
  "drop_webhook i db = db\<lparr>
     db_webhooks := filter (\<lambda>h. wh_id h \<noteq> i) (db_webhooks db),
     db_deliveries := filter (\<lambda>d. dl_webhook d \<noteq> i) (db_deliveries db) \<rparr>"

definition drop_script :: "string \<Rightarrow> api_db \<Rightarrow> api_db" where
  "drop_script i db = db\<lparr> db_scripts := filter (\<lambda>s. sc_id s \<noteq> i) (db_scripts db) \<rparr>"

definition drop_event :: "string \<Rightarrow> api_db \<Rightarrow> api_db" where
  "drop_event i db = db\<lparr> db_events := filter (\<lambda>e. er_id e \<noteq> i) (db_events db) \<rparr>"

definition add_delivery :: "delivery_row \<Rightarrow> api_db \<Rightarrow> api_db" where
  "add_delivery d db = db\<lparr> db_deliveries := db_deliveries db @ [d] \<rparr>"

section \<open>Tenants\<close>

definition tenant :: "string \<Rightarrow> api_db \<Rightarrow> api_db" where
  "tenant u db = \<lparr>
     db_accounts = filter (\<lambda>a. ac_owner a = u) (db_accounts db),
     db_bots = filter (\<lambda>b. bt_owner b = u) (db_bots db),
     db_scripts = filter (\<lambda>s. sc_bot s \<in> bot_ids u db) (db_scripts db),
     db_webhooks = filter (\<lambda>h. wh_owner h = u) (db_webhooks db),
     db_deliveries = filter (\<lambda>d. dl_webhook d \<in> hook_ids u db) (db_deliveries db),
     db_logs = filter (\<lambda>l. lg_bot l \<in> bot_ids u db) (db_logs db),
     db_events = filter (\<lambda>e. er_bot e \<in> bot_ids u db) (db_events db) \<rparr>"

text \<open>
  Ids are taken once, what belongs to a bot names a bot, and accounts and webhooks are of the same owner as the
  bots they have to do with.
\<close>

definition account_keys :: "api_db \<Rightarrow> (string \<times> string) set" where
  "account_keys db = (\<lambda>a. (ac_id a, ac_owner a)) ` set (db_accounts db)"

definition bot_keys :: "api_db \<Rightarrow> (string \<times> string) set" where
  "bot_keys db = (\<lambda>b. (bt_id b, bt_owner b)) ` set (db_bots db)"

definition db_ok :: "api_db \<Rightarrow> bool" where
  "db_ok db \<longleftrightarrow>
     distinct (map ac_id (db_accounts db)) \<and> distinct (map bt_id (db_bots db)) \<and>
     distinct (map sc_id (db_scripts db)) \<and> distinct (map wh_id (db_webhooks db)) \<and> distinct (map er_id (db_events db)) \<and>
     [] \<notin> bt_id ` set (db_bots db) \<and>
     (\<lambda>b. (bt_account b, bt_owner b)) ` set (db_bots db) \<subseteq> account_keys db \<and>
     sc_bot ` set (db_scripts db) \<subseteq> bt_id ` set (db_bots db) \<and>
     lg_bot ` set (db_logs db) \<subseteq> bt_id ` set (db_bots db) \<and>
     er_bot ` set (db_events db) \<subseteq> bt_id ` set (db_bots db) \<and>
     dl_webhook ` set (db_deliveries db) \<subseteq> wh_id ` set (db_webhooks db) \<and>
     (\<forall>h \<in> set (db_webhooks db). \<forall>b. wh_bot h = Some b \<longrightarrow> (b, wh_owner h) \<in> bot_keys db)"

definition confined :: "string \<Rightarrow> api_db \<Rightarrow> api_db \<Rightarrow> bool" where
  "confined u db db' \<longleftrightarrow> (db_ok db \<longrightarrow> db_ok db' \<and> (\<forall>v. v \<noteq> u \<longrightarrow> tenant v db' = tenant v db))"

lemma confined_refl [simp, intro]: "confined u db db"
  by (simp add: confined_def)

lemma confined_trans: "confined u a b \<Longrightarrow> confined u b c \<Longrightarrow> confined u a c"
  by (simp add: confined_def)

lemma own_bot_SomeD:
  "own_bot u i db = Some b \<Longrightarrow> b \<in> set (db_bots db) \<and> bt_id b = i \<and> bt_owner b = u"
  by (auto simp: own_bot_def ownerScopedUnique_def find_Some_iff)

lemma own_account_SomeD:
  "own_account u i db = Some a \<Longrightarrow> a \<in> set (db_accounts db) \<and> ac_id a = i \<and> ac_owner a = u"
  by (auto simp: own_account_def ownerScopedUnique_def find_Some_iff)

lemma own_webhook_SomeD:
  "own_webhook u i db = Some h \<Longrightarrow> h \<in> set (db_webhooks db) \<and> wh_id h = i \<and> wh_owner h = u"
  by (auto simp: own_webhook_def ownerScopedUnique_def find_Some_iff)

lemma own_script_SomeD:
  "own_script u i db = Some s \<Longrightarrow> s \<in> set (db_scripts db) \<and> sc_id s = i \<and> sc_bot s \<in> bot_ids u db"
  by (auto simp: own_script_def find_Some_iff)

lemma own_event_SomeD:
  "own_event u i db = Some e \<Longrightarrow> e \<in> set (db_events db) \<and> er_id e = i \<and> er_bot e \<in> bot_ids u db"
  by (auto simp: own_event_def find_Some_iff)

lemma filter_change: "(\<And>x. x \<in> set xs \<Longrightarrow> P x \<Longrightarrow> \<not> Q x \<and> \<not> Q (f x)) \<Longrightarrow> filter Q (change P f xs) = filter Q xs"
  by (induction xs) (auto simp: change_def)

lemma map_change [simp]: "(\<And>x. g (f x) = g x) \<Longrightarrow> map g (change P f xs) = map g xs"
  by (induction xs) (auto simp: change_def)

lemma image_change [simp]: "(\<And>x. g (f x) = g x) \<Longrightarrow> g ` set (change P f xs) = g ` set xs"
  using map_change [of g f P xs] by (simp flip: set_map)

lemma image_filter: "(\<And>x. Q (f x) \<longleftrightarrow> P x) \<Longrightarrow> f ` set (filter P xs) = {k \<in> f ` set xs. Q k}"
  by auto

lemma in_change: "x \<in> set (change P f xs) \<longleftrightarrow> (\<exists>y \<in> set xs. x = (if P y then f y else y))"
  by (auto simp: change_def)

lemma bot_ids_keys: "bot_ids u db = {i. (i, u) \<in> bot_keys db}"
  by (auto simp: bot_ids_def bot_keys_def)

lemma hook_ids_keys: "hook_ids u db = {i. (i, u) \<in> (\<lambda>h. (wh_id h, wh_owner h)) ` set (db_webhooks db)}"
  by (auto simp: hook_ids_def)

lemma in_bot_ids: "i \<in> bot_ids u db \<longleftrightarrow> (\<exists>b \<in> set (db_bots db). bt_id b = i \<and> bt_owner b = u)"
  by (auto simp: bot_ids_def)

lemma in_hook_ids: "i \<in> hook_ids u db \<longleftrightarrow> (\<exists>h \<in> set (db_webhooks db). wh_id h = i \<and> wh_owner h = u)"
  by (auto simp: hook_ids_def)

lemma unique_row: "distinct (map f xs) \<Longrightarrow> x \<in> set xs \<Longrightarrow> y \<in> set xs \<Longrightarrow> f x = f y \<Longrightarrow> x = y"
  by (simp add: distinct_map inj_on_def)

lemma db_okD:
  assumes "db_ok db"
  shows "distinct (map ac_id (db_accounts db))" "distinct (map bt_id (db_bots db))" "distinct (map sc_id (db_scripts db))"
    "distinct (map wh_id (db_webhooks db))" "distinct (map er_id (db_events db))"
  using assms by (simp_all add: db_ok_def)

lemma bot_owner_unique: "db_ok db \<Longrightarrow> i \<in> bot_ids u db \<Longrightarrow> i \<in> bot_ids v db \<Longrightarrow> u = v"
  unfolding in_bot_ids using unique_row [OF db_okD(2)] by metis

lemma hook_owner_unique: "db_ok db \<Longrightarrow> i \<in> hook_ids u db \<Longrightarrow> i \<in> hook_ids v db \<Longrightarrow> u = v"
  unfolding in_hook_ids using unique_row [OF db_okD(4)] by metis

section \<open>Writes of one owner\<close>

lemma confinedI:
  assumes "db_ok db \<Longrightarrow> db_ok db'" "\<And>v. db_ok db \<Longrightarrow> v \<noteq> u \<Longrightarrow> tenant v db' = tenant v db"
  shows "confined u db db'"
  using assms by (simp add: confined_def)

text \<open>A row of another owner is not the one that an owner's query found.\<close>

lemma account_of_other: "db_ok db \<Longrightarrow> own_account u i db \<noteq> None \<Longrightarrow> a \<in> set (db_accounts db) \<Longrightarrow> ac_id a = i \<Longrightarrow> ac_owner a = u"
  using own_account_SomeD unique_row [OF db_okD(1)] by blast

lemma bot_of_other: "db_ok db \<Longrightarrow> i \<in> bot_ids u db \<Longrightarrow> b \<in> set (db_bots db) \<Longrightarrow> bt_id b = i \<Longrightarrow> bt_owner b = u"
  unfolding in_bot_ids using unique_row [OF db_okD(2)] by blast

lemma webhook_of_other: "db_ok db \<Longrightarrow> own_webhook u i db \<noteq> None \<Longrightarrow> h \<in> set (db_webhooks db) \<Longrightarrow> wh_id h = i \<Longrightarrow> wh_owner h = u"
  using own_webhook_SomeD unique_row [OF db_okD(4)] by blast

lemma script_of_other:
  assumes "db_ok db" "own_script u i db \<noteq> None" "v \<noteq> u" "s \<in> set (db_scripts db)" "sc_id s = i"
  shows "sc_bot s \<notin> bot_ids v db"
proof -
  obtain t where t: "t \<in> set (db_scripts db)" "sc_id t = i" "sc_bot t \<in> bot_ids u db"
    using assms(2) own_script_SomeD by blast
  then have "s = t" using assms unique_row [OF db_okD(3) [OF assms(1)], of s t] by simp
  then show ?thesis using assms t bot_owner_unique by blast
qed

lemma event_of_other:
  assumes "db_ok db" "own_event u i db \<noteq> None" "v \<noteq> u" "e \<in> set (db_events db)" "er_id e = i"
  shows "er_bot e \<notin> bot_ids v db"
proof -
  obtain t where t: "t \<in> set (db_events db)" "er_id t = i" "er_bot t \<in> bot_ids u db"
    using assms(2) own_event_SomeD by blast
  then have "e = t" using assms unique_row [OF db_okD(5) [OF assms(1)], of e t] by simp
  then show ?thesis using assms t bot_owner_unique by blast
qed

lemma confined_update_bot:
  assumes "i \<in> bot_ids u db" and f: "\<And>b. bt_id (f b) = bt_id b \<and> bt_owner (f b) = bt_owner b \<and> bt_account (f b) = bt_account b"
  shows "confined u db (update_bot now i f db)"
proof (rule confinedI)
  have keys: "bot_keys (update_bot now i f db) = bot_keys db" "account_keys (update_bot now i f db) = account_keys db"
    by (simp_all add: bot_keys_def account_keys_def update_bot_def f)
  assume ok: "db_ok db"
  then show "db_ok (update_bot now i f db)"
    unfolding db_ok_def keys by (simp add: update_bot_def f)
  fix v
  assume "v \<noteq> u"
  then have "filter (\<lambda>b. bt_owner b = v) (db_bots (update_bot now i f db)) = filter (\<lambda>b. bt_owner b = v) (db_bots db)"
    using bot_of_other [OF ok assms(1)] by (simp add: update_bot_def f filter_change)
  then show "tenant v (update_bot now i f db) = tenant v db"
    by (simp add: tenant_def bot_ids_keys keys) (simp add: update_bot_def hook_ids_def)
qed

lemma confined_add_bot:
  assumes "add_bot b db = Some db'" "bt_owner b = u" "own_account u (bt_account b) db \<noteq> None"
  shows "confined u db db'"
proof (rule confinedI)
  from assms(1) have db': "db' = db\<lparr> db_bots := db_bots db @ [b] \<rparr>" and new: "bt_id b \<notin> bt_id ` set (db_bots db)" "bt_id b \<noteq> []"
    by (auto simp: add_bot_def split: if_splits)
  have a: "(bt_account b, u) \<in> account_keys db"
    using assms(3) own_account_SomeD by (force simp: account_keys_def)
  have keys: "bot_keys db' = insert (bt_id b, u) (bot_keys db)" "account_keys db' = account_keys db"
    using assms(2) by (auto simp: db' bot_keys_def account_keys_def)
  show "db_ok db'" if "db_ok db"
    using that new a assms(2) unfolding db_ok_def keys by (simp add: db' subset_insertI2)
  show "tenant v db' = tenant v db" if "v \<noteq> u" for v
    using that assms(2) by (simp add: tenant_def bot_ids_keys keys) (simp add: db' hook_ids_def)
qed

lemma confined_drop_bot:
  assumes "i \<in> bot_ids u db"
  shows "confined u db (drop_bot i db)"
proof (rule confinedI)
  let ?db = "drop_bot i db"
  have "bt_id ` set (db_bots ?db) = {k \<in> bt_id ` set (db_bots db). k \<noteq> i}"
    unfolding drop_bot_def by (simp add: image_filter del: set_filter)
  then have keys: "bot_keys ?db = {k \<in> bot_keys db. fst k \<noteq> i}" "account_keys ?db = account_keys db"
    "hook_ids v ?db = hook_ids v db" "wh_id ` set (db_webhooks ?db) = wh_id ` set (db_webhooks db)"
    "bt_id ` set (db_bots ?db) = bt_id ` set (db_bots db) - {i}" for v
    by (auto simp: drop_bot_def bot_keys_def account_keys_def hook_ids_keys image_filter [of "\<lambda>k. fst k \<noteq> i"] simp del: set_filter)
  assume ok: "db_ok db"
  have hooks: "\<forall>h \<in> set (db_webhooks ?db). \<forall>b. wh_bot h = Some b \<longrightarrow> (b, wh_owner h) \<in> bot_keys ?db"
  proof -
    have "(b, wh_owner h) \<in> bot_keys db \<and> b \<noteq> i" if h: "h \<in> set (db_webhooks ?db)" "wh_bot h = Some b" for h b
    proof -
      obtain h' where "h' \<in> set (db_webhooks db)" "h = (if wh_bot h' = Some i then h'\<lparr> wh_bot := None \<rparr> else h')"
        using h(1) by (auto simp: drop_bot_def in_change)
      then show ?thesis using h(2) ok by (auto simp: db_ok_def split: if_splits)
    qed
    then show ?thesis by (simp add: keys)
  qed
  have rows: "sc_bot ` set (db_scripts ?db) \<subseteq> bt_id ` set (db_bots ?db)" "lg_bot ` set (db_logs ?db) \<subseteq> bt_id ` set (db_bots ?db)"
    "er_bot ` set (db_events ?db) \<subseteq> bt_id ` set (db_bots ?db)"
    using ok unfolding db_ok_def keys by (auto simp: drop_bot_def)
  have bots: "(\<lambda>b. (bt_account b, bt_owner b)) ` set (db_bots ?db) \<subseteq> account_keys ?db" "[] \<notin> bt_id ` set (db_bots ?db)"
    using ok unfolding db_ok_def keys by (auto simp: drop_bot_def)
  have "distinct (map bt_id (db_bots ?db))" "distinct (map sc_id (db_scripts ?db))" "distinct (map er_id (db_events ?db))"
    "map wh_id (db_webhooks ?db) = map wh_id (db_webhooks db)" "db_accounts ?db = db_accounts db" "db_deliveries ?db = db_deliveries db"
    using ok by (simp_all add: db_ok_def drop_bot_def distinct_map_filter)
  then show "db_ok ?db"
    using ok hooks rows bots unfolding db_ok_def keys(4) by simp
  fix v
  assume v: "v \<noteq> u"
  have other: "b \<in> set (db_bots db) \<Longrightarrow> bt_owner b = v \<Longrightarrow> bt_id b \<noteq> i" for b using bot_of_other [OF ok assms] v by blast
  then have ids: "bot_ids v ?db = bot_ids v db" and not: "i \<notin> bot_ids v db" by (auto simp: drop_bot_def bot_ids_def)
  have "wh_owner h \<noteq> v" if "h \<in> set (db_webhooks db)" "wh_bot h = Some i" for h
    using that ok not unfolding db_ok_def bot_ids_keys by auto
  then have "filter (\<lambda>h. wh_owner h = v) (db_webhooks ?db) = filter (\<lambda>h. wh_owner h = v) (db_webhooks db)"
    unfolding drop_bot_def by (simp add: filter_change)
  moreover have "filter (\<lambda>b. bt_owner b = v) (db_bots ?db) = filter (\<lambda>b. bt_owner b = v) (db_bots db)"
    using other by (auto simp: drop_bot_def intro!: filter_cong)
  moreover have "filter (\<lambda>s. sc_bot s \<in> bot_ids v db) (db_scripts ?db) = filter (\<lambda>s. sc_bot s \<in> bot_ids v db) (db_scripts db)"
    "filter (\<lambda>l. lg_bot l \<in> bot_ids v db) (db_logs ?db) = filter (\<lambda>l. lg_bot l \<in> bot_ids v db) (db_logs db)"
    "filter (\<lambda>e. er_bot e \<in> bot_ids v db) (db_events ?db) = filter (\<lambda>e. er_bot e \<in> bot_ids v db) (db_events db)"
    using not by (auto simp: drop_bot_def intro!: filter_cong)
  ultimately show "tenant v ?db = tenant v db"
    by (simp add: tenant_def ids keys) (simp add: drop_bot_def)
qed

lemma confined_add_account:
  assumes "add_account a db = Some db'" "ac_owner a = u"
  shows "confined u db db'"
proof (rule confinedI)
  from assms(1) have db': "db' = db\<lparr> db_accounts := db_accounts db @ [a] \<rparr>" and new: "ac_id a \<notin> ac_id ` set (db_accounts db)"
    by (auto simp: add_account_def split: if_splits)
  have keys: "bot_keys db' = bot_keys db" "account_keys db' = insert (ac_id a, u) (account_keys db)"
    using assms(2) by (auto simp: db' bot_keys_def account_keys_def)
  show "db_ok db'" if "db_ok db"
    using that new unfolding db_ok_def keys by (simp add: db' subset_insertI2)
  show "tenant v db' = tenant v db" if "v \<noteq> u" for v
    using that assms(2) by (simp add: tenant_def bot_ids_keys keys) (simp add: db' hook_ids_def)
qed

lemma confined_update_account:
  assumes "own_account u i db \<noteq> None" and f: "\<And>a. ac_id (f a) = ac_id a \<and> ac_owner (f a) = ac_owner a"
  shows "confined u db (update_account i f db)"
proof (rule confinedI)
  have keys: "bot_keys (update_account i f db) = bot_keys db" "account_keys (update_account i f db) = account_keys db"
    by (simp_all add: bot_keys_def account_keys_def update_account_def f)
  assume ok: "db_ok db"
  then show "db_ok (update_account i f db)"
    unfolding db_ok_def keys by (simp add: update_account_def f)
  fix v
  assume "v \<noteq> u"
  then have "filter (\<lambda>a. ac_owner a = v) (db_accounts (update_account i f db)) = filter (\<lambda>a. ac_owner a = v) (db_accounts db)"
    using account_of_other [OF ok assms(1)] by (simp add: update_account_def f filter_change)
  then show "tenant v (update_account i f db) = tenant v db"
    by (simp add: tenant_def bot_ids_keys keys) (simp add: update_account_def hook_ids_def)
qed

lemma confined_drop_account:
  assumes "own_account u i db \<noteq> None" "filter (\<lambda>b. bt_account b = i) (db_bots db) = []"
  shows "confined u db (drop_account i db)"
proof (rule confinedI)
  have drop: "drop_account i db = db\<lparr> db_accounts := filter (\<lambda>a. ac_id a \<noteq> i) (db_accounts db) \<rparr>"
    using assms(2) by (simp add: drop_account_def)
  have keys: "bot_keys (drop_account i db) = bot_keys db" "account_keys (drop_account i db) = {k \<in> account_keys db. fst k \<noteq> i}"
    by (simp_all add: bot_keys_def account_keys_def drop image_filter [of "\<lambda>k. fst k \<noteq> i"] del: set_filter)
  assume ok: "db_ok db"
  moreover have "(\<lambda>b. (bt_account b, bt_owner b)) ` set (db_bots db) \<subseteq> {k \<in> account_keys db. fst k \<noteq> i}"
    using ok assms(2) by (auto simp: db_ok_def filter_empty_conv)
  ultimately show "db_ok (drop_account i db)"
    unfolding db_ok_def keys by (simp add: drop distinct_map_filter)
  fix v
  assume "v \<noteq> u"
  then have "filter (\<lambda>a. ac_owner a = v) (db_accounts (drop_account i db)) = filter (\<lambda>a. ac_owner a = v) (db_accounts db)"
    using account_of_other [OF ok assms(1)] by (auto simp: drop intro!: filter_cong)
  then show "tenant v (drop_account i db) = tenant v db"
    by (simp add: tenant_def bot_ids_keys keys) (simp add: drop hook_ids_def)
qed

text \<open>Scripts and events hang on a bot; nothing hangs on them.\<close>

lemma confined_add_script:
  assumes "add_script s db = Some db'" "sc_bot s \<in> bot_ids u db"
  shows "confined u db db'"
proof (rule confinedI)
  from assms(1) have db': "db' = db\<lparr> db_scripts := db_scripts db @ [s] \<rparr>" and new: "sc_id s \<notin> sc_id ` set (db_scripts db)"
    "sc_bot s \<in> bt_id ` set (db_bots db)"
    by (auto simp: add_script_def split: if_splits)
  assume ok: "db_ok db"
  then show "db_ok db'" using new by (simp add: db' db_ok_def bot_keys_def account_keys_def)
  show "tenant v db' = tenant v db" if "v \<noteq> u" for v
    using that bot_owner_unique [OF ok assms(2), of v] by (auto simp: db' tenant_def bot_ids_def hook_ids_def)
qed

lemma confined_update_script:
  assumes "own_script u i db \<noteq> None" and f: "\<And>s. sc_id (f s) = sc_id s \<and> sc_bot (f s) = sc_bot s"
  shows "confined u db (update_script i f db)"
proof (rule confinedI)
  assume ok: "db_ok db"
  then show "db_ok (update_script i f db)"
    by (simp add: update_script_def db_ok_def f bot_keys_def account_keys_def)
  show "tenant v (update_script i f db) = tenant v db" if "v \<noteq> u" for v
    using script_of_other [OF ok assms(1) that] filter_change [of "db_scripts db" "\<lambda>s. sc_id s = i" "\<lambda>s. sc_bot s \<in> bot_ids v db" f]
    by (simp add: update_script_def tenant_def bot_ids_def hook_ids_def f)
qed

lemma confined_drop_script:
  assumes "own_script u i db \<noteq> None"
  shows "confined u db (drop_script i db)"
proof (rule confinedI)
  assume ok: "db_ok db"
  then show "db_ok (drop_script i db)"
    by (auto simp: drop_script_def db_ok_def distinct_map_filter bot_keys_def account_keys_def)
  show "tenant v (drop_script i db) = tenant v db" if "v \<noteq> u" for v
    using script_of_other [OF ok assms that]
    by (auto simp: drop_script_def tenant_def bot_ids_def hook_ids_def intro!: filter_cong)
qed

lemma confined_update_event:
  assumes "own_event u i db \<noteq> None" and f: "\<And>e. er_id (f e) = er_id e \<and> er_bot (f e) = er_bot e"
  shows "confined u db (update_event i f db)"
proof (rule confinedI)
  assume ok: "db_ok db"
  then show "db_ok (update_event i f db)"
    by (simp add: update_event_def db_ok_def f bot_keys_def account_keys_def)
  show "tenant v (update_event i f db) = tenant v db" if "v \<noteq> u" for v
    using event_of_other [OF ok assms(1) that] filter_change [of "db_events db" "\<lambda>e. er_id e = i" "\<lambda>e. er_bot e \<in> bot_ids v db" f]
    by (simp add: update_event_def tenant_def bot_ids_def hook_ids_def f)
qed

lemma confined_drop_event:
  assumes "own_event u i db \<noteq> None"
  shows "confined u db (drop_event i db)"
proof (rule confinedI)
  assume ok: "db_ok db"
  then show "db_ok (drop_event i db)"
    by (auto simp: drop_event_def db_ok_def distinct_map_filter bot_keys_def account_keys_def)
  show "tenant v (drop_event i db) = tenant v db" if "v \<noteq> u" for v
    using event_of_other [OF ok assms that]
    by (auto simp: drop_event_def tenant_def bot_ids_def hook_ids_def intro!: filter_cong)
qed

lemma confined_add_webhook:
  assumes "add_webhook h db = Some db'" "wh_owner h = u" "\<And>b. db_ok db \<Longrightarrow> wh_bot h = Some b \<Longrightarrow> b \<in> bot_ids u db"
  shows "confined u db db'"
proof (rule confinedI)
  from assms(1) have db': "db' = db\<lparr> db_webhooks := db_webhooks db @ [h] \<rparr>" and new: "wh_id h \<notin> wh_id ` set (db_webhooks db)"
    by (auto simp: add_webhook_def split: if_splits)
  have keys: "bot_keys db' = bot_keys db" "account_keys db' = account_keys db"
    by (simp_all add: db' bot_keys_def account_keys_def)
  have b: "db_ok db \<Longrightarrow> wh_bot h = Some b \<Longrightarrow> (b, wh_owner h) \<in> bot_keys db" for b
    using assms(2,3) by (simp add: bot_ids_keys)
  show "db_ok db'" if "db_ok db"
    using that new b unfolding db_ok_def keys by (simp add: db') blast
  have "hook_ids v db' = hook_ids v db" if "v \<noteq> u" for v using that assms(2) by (auto simp: db' hook_ids_def)
  then show "tenant v db' = tenant v db" if "v \<noteq> u" for v
    using that assms(2) by (simp add: tenant_def bot_ids_keys keys) (simp add: db')
qed

lemma confined_update_webhook:
  assumes "own_webhook u i db \<noteq> None" and f: "\<And>h. wh_id (f h) = wh_id h \<and> wh_owner (f h) = wh_owner h"
    and b: "\<And>h b. db_ok db \<Longrightarrow> h \<in> set (db_webhooks db) \<Longrightarrow> wh_id h = i \<Longrightarrow> wh_bot (f h) = Some b \<Longrightarrow> wh_bot h = Some b \<or> b \<in> bot_ids u db"
  shows "confined u db (update_webhook i f db)"
proof (rule confinedI)
  let ?db = "update_webhook i f db"
  assume ok: "db_ok db"
  have keys: "bot_keys ?db = bot_keys db" "account_keys ?db = account_keys db" "hook_ids v ?db = hook_ids v db"
    "wh_id ` set (db_webhooks ?db) = wh_id ` set (db_webhooks db)" for v
    by (simp_all add: update_webhook_def bot_keys_def account_keys_def hook_ids_keys f)
  have "(b, wh_owner (f h)) \<in> bot_keys db" if "h \<in> set (db_webhooks db)" "wh_id h = i" "wh_bot (f h) = Some b" for h b
    using b [OF ok that] webhook_of_other [OF ok assms(1) that(1,2)] that ok f unfolding db_ok_def bot_ids_keys by auto
  then have "\<forall>h \<in> set (db_webhooks ?db). \<forall>b. wh_bot h = Some b \<longrightarrow> (b, wh_owner h) \<in> bot_keys db"
    using ok by (auto simp: update_webhook_def in_change db_ok_def)
  then show "db_ok ?db"
    using ok unfolding db_ok_def keys by (simp add: update_webhook_def f)
  fix v
  assume v: "v \<noteq> u"
  have "filter (\<lambda>h. wh_owner h = v) (db_webhooks ?db) = filter (\<lambda>h. wh_owner h = v) (db_webhooks db)"
    using webhook_of_other [OF ok assms(1)] v by (simp add: update_webhook_def f filter_change)
  then show "tenant v ?db = tenant v db"
    by (simp add: tenant_def keys bot_ids_keys) (simp add: update_webhook_def)
qed

lemma confined_drop_webhook:
  assumes "own_webhook u i db \<noteq> None"
  shows "confined u db (drop_webhook i db)"
proof (rule confinedI)
  let ?db = "drop_webhook i db"
  assume ok: "db_ok db"
  have keys: "bot_keys ?db = bot_keys db" "account_keys ?db = account_keys db"
    by (simp_all add: drop_webhook_def bot_keys_def account_keys_def)
  show "db_ok ?db"
    using ok unfolding db_ok_def keys by (auto simp: drop_webhook_def distinct_map_filter)
  fix v
  assume v: "v \<noteq> u"
  have other: "h \<in> set (db_webhooks db) \<Longrightarrow> wh_owner h = v \<Longrightarrow> wh_id h \<noteq> i" for h
    using webhook_of_other [OF ok assms] v by blast
  then have hooks: "hook_ids v ?db = hook_ids v db" "i \<notin> hook_ids v db"
    by (auto simp: drop_webhook_def hook_ids_def)
  have "filter (\<lambda>h. wh_owner h = v) (db_webhooks ?db) = filter (\<lambda>h. wh_owner h = v) (db_webhooks db)"
    "filter (\<lambda>d. dl_webhook d \<in> hook_ids v db) (db_deliveries ?db) = filter (\<lambda>d. dl_webhook d \<in> hook_ids v db) (db_deliveries db)"
    using other hooks(2) by (auto simp: drop_webhook_def intro!: filter_cong)
  then show "tenant v ?db = tenant v db"
    by (simp add: tenant_def bot_ids_keys keys hooks) (simp add: drop_webhook_def)
qed

lemma confined_add_delivery:
  assumes "dl_webhook d \<in> hook_ids u db"
  shows "confined u db (add_delivery d db)"
proof (rule confinedI)
  assume ok: "db_ok db"
  then show "db_ok (add_delivery d db)"
    using assms by (simp add: add_delivery_def db_ok_def bot_keys_def account_keys_def) (auto simp: hook_ids_def)
  show "tenant v (add_delivery d db) = tenant v db" if "v \<noteq> u" for v
    using that hook_owner_unique [OF ok assms, of v] by (auto simp: add_delivery_def tenant_def bot_ids_def hook_ids_def)
qed

lemmas confined_writes = confined_refl confined_update_bot confined_add_bot confined_drop_bot confined_add_account confined_update_account
  confined_drop_account confined_add_script confined_update_script confined_drop_script confined_update_event confined_drop_event
  confined_add_webhook confined_update_webhook confined_drop_webhook confined_add_delivery

section \<open>What a handler of one owner does\<close>

text \<open>It changes no rows of others, and the jobs that it adds are for bots of its owner.\<close>

definition own_jobs :: "string \<Rightarrow> api_db \<Rightarrow> job_queues \<Rightarrow> job_queues \<Rightarrow> bool" where
  "own_jobs u db qs qs' \<longleftrightarrow> (\<forall>q. \<exists>js. jobs_in q qs' = jobs_in q qs @ js \<and>
     (\<forall>j \<in> set js. \<exists>i \<in> bot_ids u db. get_prop (qj_data j) ''botId'' = JStr i))"

definition isolated :: "string \<Rightarrow> api_world \<Rightarrow> api_world \<times> 'a \<Rightarrow> bool" where
  "isolated u w r \<longleftrightarrow> confined u (ap_db w) (ap_db (fst r)) \<and> own_jobs u (ap_db w) (ap_queues w) (ap_queues (fst r))"

lemma own_jobs_refl [simp]: "own_jobs u db qs qs"
  by (auto simp: own_jobs_def)

lemma isolated_same [simp]: "isolated u w (w, r)"
  by (simp add: isolated_def)

lemma ap_on_db [simp]: "ap_db (on_db f w) = f (ap_db w)" "ap_queues (on_db f w) = ap_queues w" "ap_redis (on_db f w) = ap_redis w"
  by (simp_all add: on_db_def)

lemma ap_notify [simp]: "ap_db (notifyScriptsChanged is w) = ap_db w" "ap_queues (notifyScriptsChanged is w) = ap_queues w"
  by (simp_all add: notifyScriptsChanged_def)

lemma own_jobs_add:
  assumes "add_job q j qs = Some qs'" "get_prop (qj_data j) ''botId'' = JStr i" "i \<in> bot_ids u db"
  shows "own_jobs u db qs qs'"
  using assms by (auto simp: add_job_def own_jobs_def split: if_splits)

lemma own_jobs_enqueue:
  assumes "i \<in> bot_ids u db"
  shows "enqueueConnect now i p qs = Some qs' \<Longrightarrow> own_jobs u db qs qs'"
    and "enqueueDisconnect now i p qs = Some qs' \<Longrightarrow> own_jobs u db qs qs'"
    and "enqueueAction now nonce i p kind payload qs = Some qs' \<Longrightarrow> own_jobs u db qs qs'"
    and "enqueueEventReplay now nonce p i e event qs = Some qs' \<Longrightarrow> own_jobs u db qs qs'"
  using assms own_jobs_add [of _ _ qs qs' i u db]
  by (auto simp: enqueueConnect_def enqueueDisconnect_def enqueueAction_def enqueueEventReplay_def enqueue_def new_job_def job_body_def
      split: option.splits)

lemma queued_SomeD: "queued f w = Some w' \<Longrightarrow> \<exists>qs. f (ap_queues w) = Some qs \<and> w' = w\<lparr> ap_queues := qs \<rparr>"
  by (auto simp: queued_def)

lemma ap_queued: "queued f w = Some w' \<Longrightarrow> ap_db w' = ap_db w \<and> ap_redis w' = ap_redis w"
  by (auto simp: queued_def)

lemma ap_best_effort [simp]: "ap_db (best_effort (queued f) w) = ap_db w"
  by (auto simp: best_effort_def queued_def split: option.split)

lemma own_jobs_best_effort:
  "(\<And>qs. f (ap_queues w) = Some qs \<Longrightarrow> own_jobs u db (ap_queues w) qs) \<Longrightarrow>
     own_jobs u db (ap_queues w) (ap_queues (best_effort (queued f) w))"
  by (auto simp: best_effort_def queued_def split: option.split)

section \<open>Secrets at rest\<close>

text \<open>Of the bots, those that trade: see \<open>BotRoutes\<close> for the others.\<close>

definition sealed_text :: "string \<Rightarrow> bool" where
  "sealed_text s \<longleftrightarrow> starts_with ENC_PREFIX s"

definition sealed_account :: "account_row \<Rightarrow> bool" where
  "sealed_account a \<longleftrightarrow> list_all (\<lambda>(f, s). sealed_text s) (ac_secrets a) \<and>
     (case ac_apiKeys a of None \<Rightarrow> True | Some ps \<Rightarrow> list_all (\<lambda>(k, s). sealed_text k \<and> sealed_text s) ps)"

definition sealed_config :: "json \<Rightarrow> bool" where
  "sealed_config c \<longleftrightarrow> (case wallet_key c of None \<Rightarrow> True | Some k \<Rightarrow> sealed_text k)"

definition sealed_hook :: "webhook_row \<Rightarrow> bool" where
  "sealed_hook h \<longleftrightarrow> (case wh_secret h of None \<Rightarrow> True | Some s \<Rightarrow> sealed_text s)"

definition secrets_sealed :: "api_db \<Rightarrow> bool" where
  "secrets_sealed db \<longleftrightarrow> list_all sealed_account (db_accounts db) \<and>
     list_all (\<lambda>b. bt_platform b = ''crypto'' \<longrightarrow> sealed_config (bt_config b)) (db_bots db) \<and>
     list_all sealed_hook (db_webhooks db)"

lemma list_all_change: "list_all P xs \<Longrightarrow> (\<And>x. x \<in> set xs \<Longrightarrow> P x \<Longrightarrow> Q x \<Longrightarrow> P (f x)) \<Longrightarrow> list_all P (change Q f xs)"
  by (auto simp: list_all_iff in_change)

lemma list_all_filter: "list_all P xs \<Longrightarrow> list_all P (filter Q xs)"
  by (simp add: list_all_iff)

lemma seal_sealed: "seal env iv v = Inr s \<Longrightarrow> kr_key (ev_registry env) \<noteq> [] \<Longrightarrow> sealed_text s"
  by (auto simp: seal_def sealed_text_def encryptCredential_def starts_with_def split: option.splits)

lemma sealed_sealed: "sealed env iv v = Inr (Some s) \<Longrightarrow> kr_key (ev_registry env) \<noteq> [] \<Longrightarrow> sealed_text s"
  by (auto simp: sealed_def ensureEncrypted_def seal_sealed [unfolded seal_def] sealed_text_def encryptCredential_def starts_with_def
      split: option.splits if_splits)

lemma secrets_drop_bot: "secrets_sealed db \<Longrightarrow> secrets_sealed (drop_bot i db)"
  by (auto simp: secrets_sealed_def drop_bot_def sealed_hook_def intro!: list_all_change list_all_filter)

end
