(* ===== verification/BotRoutes.thy ===== *)
theory BotRoutes
  imports ApiTables
begin

text \<open>
  The bots of the API: packages/api/src/routes/bots.ts with the handlers of
  packages/api/src/commands/handlers/bot-handlers.ts that it dispatches to, the watchdog of
  packages/api/src/app.ts and the figures of routes/stats.ts. A handler gives the new world and a reply. The
  command bus gives a command to the handler of its type (\<open>EventBus\<close>). Texts are ASCII.
\<close>

section \<open>Configs and wallets\<close>

text \<open>The wallet key is left out of what the API shows.\<close>

definition publicBot :: "bot_row \<Rightarrow> bot_row" where
  "publicBot b =
     (case get_prop (get_prop (bt_config b) ''crypto'') ''wallet'' of
        JObj m \<Rightarrow> b\<lparr> bt_config := set_path [''crypto'', ''wallet''] (JObj (jdel ''privateKey'' m)) (bt_config b) \<rparr>
      | _ \<Rightarrow> b)"

definition attach_key :: "string option \<Rightarrow> json \<Rightarrow> json" where
  "attach_key k config =
     set_path [''crypto'', ''wallet'', ''privateKey''] (case k of Some s \<Rightarrow> JStr s | None \<Rightarrow> JNull) config"

definition preserveWalletKey :: "api_env \<Rightarrow> nat list \<Rightarrow> json \<Rightarrow> json \<Rightarrow> string + json" where
  "preserveWalletKey env iv stored incoming =
     (let crypto = get_prop incoming ''crypto''; wallet = get_prop crypto ''wallet''
      in if \<not> truthy crypto \<or> \<not> truthy wallet then Inr incoming
         else case get_prop wallet ''privateKey'' of
           JStr k \<Rightarrow> if starts_with ENC_PREFIX k then Inr incoming
                     else map_sum id (\<lambda>s. attach_key (Some s) incoming) (seal env iv k)
         | _ \<Rightarrow> (case get_prop (get_prop (get_prop stored ''crypto'') ''wallet'') ''privateKey'' of
                   JStr k \<Rightarrow> map_sum id (\<lambda>s. attach_key s incoming) (sealed env iv (Some k))
                 | _ \<Rightarrow> Inr incoming))"

text \<open>The config of a new trading bot.\<close>

definition with_trading :: "api_env \<Rightarrow> api_request \<Rightarrow> json \<Rightarrow> string + json" where
  "with_trading env rq config =
     (let crypto = (let c = get_prop config ''crypto'' in if truthy c \<and> is_object c then c else JObj []);
          crypto = (if truthy (get_prop crypto ''symbols'') then crypto
                    else JObj (spread (props_of crypto) (props_of (fst (run_state generateCryptoConfig (ar_random rq))))));
          wallet = get_prop crypto ''wallet'';
          put = (\<lambda>c. JObj (jset ''crypto'' c (props_of config)))
      in if \<not> truthy wallet
         then (let new = generateEVMWallet (ar_privateKey rq) (ev_publicKey env) (ev_keccak env) (ev_hex env)
               in map_sum id (\<lambda>k. put (JObj (jset ''wallet'' (JObj [(''address'', JStr (ew_address new)), (''privateKey'', JStr k)]) (props_of crypto))))
                    (seal env (ar_iv rq 0) (ew_privateKey new)))
         else case get_prop wallet ''privateKey'' of
           JStr k \<Rightarrow> map_sum id (\<lambda>s. attach_key s (put crypto)) (sealed env (ar_iv rq 0) (Some k))
         | _ \<Rightarrow> Inr (put crypto))"

section \<open>Commands\<close>

definition internal :: "'a reply" where
  "internal = Rejects 500 ''INTERNAL_ERROR''"

definition find_bot :: "string \<Rightarrow> api_db \<Rightarrow> bot_row option" where
  "find_bot i db = find (\<lambda>b. bt_id b = i) (db_bots db)"

definition set_status :: "ms \<Rightarrow> string \<Rightarrow> string \<Rightarrow> api_world \<Rightarrow> api_world" where
  "set_status now i st = on_db (update_bot now i (\<lambda>b. b\<lparr> bt_status := st \<rparr>))"

definition StartBotHandler :: "ms \<Rightarrow> string \<Rightarrow> string \<Rightarrow> api_world \<Rightarrow> api_world \<times> unit reply" where
  "StartBotHandler now i platform w =
     (case find_bot i (ap_db w) of
        None \<Rightarrow> (w, notFound)
      | Some b \<Rightarrow>
          (let w = set_status now i ''connecting'' w
           in case queued (enqueueConnect now i platform) w of
                Some w \<Rightarrow> (w, Answers ())
              | None \<Rightarrow> (set_status now i ''idle'' w, internal)))"

definition StopBotHandler :: "ms \<Rightarrow> string \<Rightarrow> string \<Rightarrow> api_world \<Rightarrow> api_world \<times> unit reply" where
  "StopBotHandler now i platform w =
     (case find_bot i (ap_db w) of
        None \<Rightarrow> (w, internal)
      | Some b \<Rightarrow> (best_effort (queued (enqueueDisconnect now i platform)) (set_status now i ''idle'' w), Answers ()))"

definition restart_job :: "ms \<Rightarrow> string \<Rightarrow> queue_job" where
  "restart_job now i =
     (new_job now (''connect-'' @ i) ''connect'' (job_body i ''connect'' i (JObj [])) 1 True)\<lparr> qj_delay := 1000 \<rparr>"

text \<open>The queue of the platform is looked up before the part that takes the status back.\<close>

definition RestartBotHandler :: "ms \<Rightarrow> string \<Rightarrow> string \<Rightarrow> api_world \<Rightarrow> api_world \<times> unit reply" where
  "RestartBotHandler now i platform w =
     (case find_bot i (ap_db w) of
        None \<Rightarrow> (w, notFound)
      | Some b \<Rightarrow>
          (let w = set_status now i ''reconnecting'' w
           in case getQueue platform of
                None \<Rightarrow> (w, internal)
              | Some q \<Rightarrow>
                  (case queued (add_job q (restart_job now i)) w of
                     Some w \<Rightarrow> (w, Answers ())
                   | None \<Rightarrow> (set_status now i ''idle'' w, internal))))"

definition ExecuteBotActionHandler ::
  "ms \<Rightarrow> string \<Rightarrow> string \<Rightarrow> string \<Rightarrow> string \<Rightarrow> json \<Rightarrow> api_world \<Rightarrow> api_world \<times> unit reply" where
  "ExecuteBotActionHandler now nonce i platform kind payload w =
     (case find_bot i (ap_db w) of
        None \<Rightarrow> (w, notFound)
      | Some b \<Rightarrow>
          (case queued (enqueueAction now nonce i platform kind payload) w of
             None \<Rightarrow> (w, internal) | Some w \<Rightarrow> (w, Answers ())))"

definition DeleteBotHandler :: "ms \<Rightarrow> string \<Rightarrow> api_world \<Rightarrow> api_world \<times> unit reply" where
  "DeleteBotHandler now i w =
     (case find_bot i (ap_db w) of
        None \<Rightarrow> (w, notFound)
      | Some b \<Rightarrow>
          (notifyScriptsChanged [i] (best_effort (queued (enqueueDisconnect now i (bt_platform b))) (on_db (drop_bot i) w)), Answers ()))"

definition UpdateBotHandler :: "api_env \<Rightarrow> ms \<Rightarrow> nat list \<Rightarrow> string \<Rightarrow> json \<Rightarrow> api_world \<Rightarrow> api_world \<times> bot_row reply" where
  "UpdateBotHandler env now iv i data w =
     (case find_bot i (ap_db w) of
        None \<Rightarrow> (w, notFound)
      | Some b \<Rightarrow>
          (case (if get_prop data ''config'' = JUndef then Inr (bt_config b)
                 else preserveWalletKey env iv (bt_config b) (get_prop data ''config'')) of
             Inl e \<Rightarrow> (w, internal)
           | Inr config \<Rightarrow>
               (let name = (case get_prop data ''name'' of JStr s \<Rightarrow> s | _ \<Rightarrow> bt_name b);
                    w = on_db (update_bot now i (\<lambda>b. b\<lparr> bt_name := name, bt_config := config \<rparr>)) w
                in (w, case find_bot i (ap_db w) of None \<Rightarrow> internal | Some b \<Rightarrow> Answers b))))"

section \<open>Queries\<close>

definition newest :: "nat \<Rightarrow> 'a list \<Rightarrow> 'a list" where
  "newest n xs = take n (rev xs)"

definition bot_page :: "bot_row \<Rightarrow> api_db \<Rightarrow> bot_row \<times> log_row list \<times> script_row list" where
  "bot_page b db = (b, newest 50 (filter (\<lambda>l. lg_bot l = bt_id b) (db_logs db)), filter (\<lambda>s. sc_bot s = bt_id b) (db_scripts db))"

definition GetBotHandler :: "string \<Rightarrow> api_db \<Rightarrow> (bot_row \<times> log_row list \<times> script_row list) reply" where
  "GetBotHandler i db = (case find_bot i db of None \<Rightarrow> notFound | Some b \<Rightarrow> Answers (bot_page b db))"

definition ListBotsHandler :: "string option \<Rightarrow> string option \<Rightarrow> api_db \<Rightarrow> bot_row list" where
  "ListBotsHandler platform status db =
     rev (filter (\<lambda>b. (case platform of Some (c # cs) \<Rightarrow> bt_platform b = c # cs | _ \<Rightarrow> True) \<and>
       (case status of Some (c # cs) \<Rightarrow> bt_status b = c # cs | _ \<Rightarrow> True)) (db_bots db))"

definition group_count :: "('a \<Rightarrow> string) \<Rightarrow> 'a list \<Rightarrow> (string \<times> nat) list" where
  "group_count f xs = map (\<lambda>k. (k, length (filter (\<lambda>x. f x = k) xs))) (remdups (map f xs))"

definition amount :: "('a \<Rightarrow> bool) \<Rightarrow> 'a list \<Rightarrow> nat" where
  "amount P xs = length (filter P xs)"

definition DAY_MS :: ms where "DAY_MS = 86400000"

definition BotStatsHandler :: "ms \<Rightarrow> api_db \<Rightarrow> nat list \<times> (string \<times> nat) list \<times> (string \<times> nat) list" where
  "BotStatsHandler now db =
     ([length (db_bots db), amount (\<lambda>b. bt_status b = ''running'') (db_bots db), length (db_accounts db),
       amount (\<lambda>l. now - DAY_MS \<le> lg_createdAt l) (db_logs db)],
      group_count bt_platform (db_bots db), group_count bt_status (db_bots db))"

text \<open>The figures of one owner.\<close>

definition stats_route :: "string \<Rightarrow> ms \<Rightarrow> api_db \<Rightarrow> nat list \<times> (string \<times> nat) list \<times> (string \<times> nat) list" where
  "stats_route u now db =
     (let mine = tenant u db; since = now - DAY_MS
      in ([length (db_bots mine), amount (\<lambda>b. bt_status b = ''running'') (db_bots mine), length (db_accounts mine),
           amount (\<lambda>l. since \<le> lg_createdAt l) (db_logs mine),
           amount (\<lambda>l. lg_level l = ''error'' \<and> since \<le> lg_createdAt l) (db_logs mine),
           length (db_scripts mine), amount sc_enabled (db_scripts mine),
           length (db_webhooks mine), amount wh_enabled (db_webhooks mine),
           length (db_events mine), amount (\<lambda>e. 0 < er_replayCount e) (db_events mine)],
          group_count bt_platform (db_bots mine), group_count bt_status (db_bots mine)))"

text \<open>A part of a name in any case.\<close>

definition contains_ci :: "string \<Rightarrow> string \<Rightarrow> bool" where
  "contains_ci part s = somewhere (\<lambda>_ r. starts_with (to_lower part) r) None (to_lower s)"

definition chosen_text :: "json \<Rightarrow> (string \<Rightarrow> bool) \<Rightarrow> bool" where
  "chosen_text v P = (case v of JStr (c # cs) \<Rightarrow> P (c # cs) | _ \<Rightarrow> True)"

definition listBots :: "api_request \<Rightarrow> json \<Rightarrow> api_db \<Rightarrow> bot_row list reply" where
  "listBots rq query db =
     (if \<not> chosen_text (get_prop query ''platform'') (\<lambda>p. parse_schema PlatformSchema (JStr p) \<noteq> None) then invalid
      else Answers (map publicBot (page_of query 100 1000 (filter (\<lambda>b. bt_owner b = ar_owner rq \<and>
        chosen_text (get_prop query ''platform'') (\<lambda>p. bt_platform b = p) \<and>
        chosen_text (get_prop query ''status'') (\<lambda>s. bt_status b = s) \<and>
        chosen_text (get_prop query ''q'') (\<lambda>q. trim_text q = [] \<or> contains_ci (trim_text q) (bt_name b))) (db_bots db)))))"

definition getBot :: "api_request \<Rightarrow> string \<Rightarrow> api_db \<Rightarrow> (bot_row \<times> log_row list \<times> script_row list) reply" where
  "getBot rq i db = (case own_bot (ar_owner rq) i db of None \<Rightarrow> notFound | Some b \<Rightarrow> Answers (bot_page (publicBot b) db))"

definition redis_up :: "api_world \<Rightarrow> redis option" where
  "redis_up w = (if jq_up (ap_queues w) then Some (ap_redis w) else None)"

definition memory_limit :: "api_env \<Rightarrow> json \<Rightarrow> nat" where
  "memory_limit env query =
     (case ev_number env (nullish_or (get_prop query ''limit'') (JNum (Num 1000))) of
        Num r \<Rightarrow> nat (max 1 (min 5000 \<lfloor>r\<rfloor>)) | _ \<Rightarrow> 1000)"

definition memory_route :: "api_env \<Rightarrow> api_request \<Rightarrow> string \<Rightarrow> json \<Rightarrow> api_world \<Rightarrow> (string \<times> json) list reply" where
  "memory_route env rq i query w =
     (case own_bot (ar_owner rq) i (ap_db w) of
        None \<Rightarrow> notFound
      | Some b \<Rightarrow> (case redis_up w of
            None \<Rightarrow> crashed
          | Some db \<Rightarrow> Answers (getBotMemory (sr_collate (ev_reader env)) (ev_date env) (memory_limit env query) (ar_now rq) i db)))"

definition crypto_state_route :: "api_env \<Rightarrow> api_request \<Rightarrow> string \<Rightarrow> api_world \<Rightarrow> crypto_state reply" where
  "crypto_state_route env rq i w =
     (case own_bot (ar_owner rq) i (ap_db w) of
        None \<Rightarrow> notFound
      | Some b \<Rightarrow> if bt_platform b \<noteq> ''crypto'' then invalid
                  else Answers (getCryptoState (ev_reader env) (ar_now rq) i (redis_up w)))"

section \<open>Routes that write\<close>

definition deleteMemoryKey :: "api_request \<Rightarrow> string \<Rightarrow> string \<Rightarrow> api_world \<Rightarrow> api_world \<times> bool reply" where
  "deleteMemoryKey rq i key w =
     (case own_bot (ar_owner rq) i (ap_db w) of
        None \<Rightarrow> (w, notFound)
      | Some b \<Rightarrow>
          if list_ex (\<lambda>c. c \<in> set ''*?['') key then (w, invalid)
          else (case redis_up w of
                  None \<Rightarrow> (w, crashed)
                | Some db \<Rightarrow> (case deleteBotMemoryKey (ar_now rq) i key db of (db, hit) \<Rightarrow> (w\<lparr> ap_redis := db \<rparr>, Answers hit))))"

definition clearMemory :: "api_request \<Rightarrow> string \<Rightarrow> api_world \<Rightarrow> api_world \<times> nat reply" where
  "clearMemory rq i w =
     (case own_bot (ar_owner rq) i (ap_db w) of
        None \<Rightarrow> (w, notFound)
      | Some b \<Rightarrow> (case redis_up w of
            None \<Rightarrow> (w, crashed)
          | Some db \<Rightarrow> (case clearBotMemory (ar_now rq) i db of (db, n) \<Rightarrow> (w\<lparr> ap_redis := db \<rparr>, Answers n))))"

text \<open>What is checked and prepared, and the insertion.\<close>

definition create_bot_row :: "api_env \<Rightarrow> api_request \<Rightarrow> json \<Rightarrow> api_db \<Rightarrow> bot_row reply" where
  "create_bot_row env rq body db =
     (case parse_schema (CreateBotSchema (ev_validators env)) body of
        None \<Rightarrow> invalid
      | Some v \<Rightarrow>
          (let accountId = the_text (get_prop v ''accountId''); platform = the_text (get_prop v ''platform'')
           in case own_account (ar_owner rq) accountId db of
                None \<Rightarrow> invalid
              | Some a \<Rightarrow>
                  if ac_platform a \<noteq> platform then invalid
                  else if checkQuota (usage (ar_owner rq) db) Bots (ev_limits env) \<noteq> Inr () then Rejects 429 ''QUOTA_EXCEEDED''
                  else (let config = nullish_or (get_prop v ''config'') (JObj [])
                        in case (if platform = ''crypto'' then with_trading env rq config else Inr config) of
                             Inl e \<Rightarrow> crashed
                           | Inr config \<Rightarrow> Answers \<lparr> bt_id = ar_id rq, bt_owner = ar_owner rq, bt_account = accountId,
                               bt_name = the_text (get_prop v ''name''), bt_platform = platform, bt_status = ''idle'',
                               bt_config = config, bt_updatedAt = ar_now rq \<rparr>)))"

definition insert_bot :: "bot_row reply \<Rightarrow> api_world \<Rightarrow> api_world \<times> bot_row reply" where
  "insert_bot r w =
     (case r of
        Rejects s c \<Rightarrow> (w, Rejects s c)
      | Answers b \<Rightarrow> (case add_bot b (ap_db w) of None \<Rightarrow> (w, crashed) | Some db \<Rightarrow> (w\<lparr> ap_db := db \<rparr>, Answers b)))"

definition createBot :: "api_env \<Rightarrow> api_request \<Rightarrow> json \<Rightarrow> api_world \<Rightarrow> api_world \<times> bot_row reply" where
  "createBot env rq body w = insert_bot (create_bot_row env rq body (ap_db w)) w"

definition updateBot :: "api_env \<Rightarrow> api_request \<Rightarrow> string \<Rightarrow> json \<Rightarrow> api_world \<Rightarrow> api_world \<times> bot_row reply" where
  "updateBot env rq i body w =
     (case parse_schema (UpdateBotSchema (ev_validators env)) body of
        None \<Rightarrow> (w, invalid)
      | Some v \<Rightarrow> (case own_bot (ar_owner rq) i (ap_db w) of
            None \<Rightarrow> (w, notFound) | Some b \<Rightarrow> UpdateBotHandler env (ar_now rq) (ar_iv rq 0) i v w))"

definition deleteBot :: "api_request \<Rightarrow> string \<Rightarrow> api_world \<Rightarrow> api_world \<times> unit reply" where
  "deleteBot rq i w =
     (case own_bot (ar_owner rq) i (ap_db w) of
        None \<Rightarrow> (w, notFound)
      | Some b \<Rightarrow>
          (let w = on_db (drop_bot i) w
           in case queued (enqueueDisconnect (ar_now rq) i (bt_platform b)) w of
                None \<Rightarrow> (w, crashed)
              | Some w \<Rightarrow>
                  (notifyScriptsChanged [i] (w\<lparr> ap_redis := fst (deleteBotRuntimeState (ar_now rq) i (ap_redis w)) \<rparr>), Answers ())))"

definition startBot :: "api_request \<Rightarrow> string \<Rightarrow> api_world \<Rightarrow> api_world \<times> unit reply" where
  "startBot rq i w =
     (case own_bot (ar_owner rq) i (ap_db w) of
        None \<Rightarrow> (w, notFound)
      | Some b \<Rightarrow>
          (let w = set_status (ar_now rq) i ''connecting'' w
           in case queued (enqueueConnect (ar_now rq) i (bt_platform b)) w of
                None \<Rightarrow> (w, crashed) | Some w \<Rightarrow> (w, Answers ())))"

definition stopBot :: "api_request \<Rightarrow> string \<Rightarrow> api_world \<Rightarrow> api_world \<times> unit reply" where
  "stopBot rq i w =
     (case own_bot (ar_owner rq) i (ap_db w) of
        None \<Rightarrow> (w, notFound)
      | Some b \<Rightarrow>
          (let w = set_status (ar_now rq) i ''idle'' w
           in case queued (enqueueDisconnect (ar_now rq) i (bt_platform b)) w of
                None \<Rightarrow> (w, crashed) | Some w \<Rightarrow> (w, Answers ())))"

definition restartBot :: "api_request \<Rightarrow> string \<Rightarrow> api_world \<Rightarrow> api_world \<times> unit reply" where
  "restartBot rq i w =
     (case own_bot (ar_owner rq) i (ap_db w) of
        None \<Rightarrow> (w, notFound) | Some b \<Rightarrow> RestartBotHandler (ar_now rq) i (bt_platform b) w)"

definition actionBot :: "api_request \<Rightarrow> string \<Rightarrow> json \<Rightarrow> api_world \<Rightarrow> api_world \<times> unit reply" where
  "actionBot rq i body w =
     (case own_bot (ar_owner rq) i (ap_db w) of
        None \<Rightarrow> (w, notFound)
      | Some b \<Rightarrow>
          (case get_prop body ''type'' of
             JStr (c # cs) \<Rightarrow>
               (let payload = get_prop body ''payload''
                in if payload \<noteq> JUndef \<and> \<not> is_plain_object payload then (w, invalid)
                   else ExecuteBotActionHandler (ar_now rq) (ar_nonce rq) i (bt_platform b) (c # cs) (nullish_or payload (JObj [])) w)
           | _ \<Rightarrow> (w, invalid)))"

section \<open>Watchdog\<close>

definition STALE_TRANSITION_MS :: ms where "STALE_TRANSITION_MS = 120000"

definition stale :: "ms \<Rightarrow> bot_row \<Rightarrow> bool" where
  "stale now b \<longleftrightarrow> bt_status b \<in> {''connecting'', ''reconnecting''} \<and> bt_updatedAt b < now - STALE_TRANSITION_MS"

definition stateWatchdog :: "ms \<Rightarrow> api_db \<Rightarrow> api_db \<times> nat" where
  "stateWatchdog now db =
     (db\<lparr> db_bots := change (stale now) (\<lambda>b. b\<lparr> bt_status := ''idle'', bt_updatedAt := now \<rparr>) (db_bots db) \<rparr>,
      amount (stale now) (db_bots db))"

section \<open>Every route keeps to the bots of its owner\<close>

lemma own_bot_id: "own_bot u i db = Some b \<Longrightarrow> i \<in> bot_ids u db"
  using own_bot_SomeD by (fastforce simp: in_bot_ids)

lemma ap_set_status [simp]: "ap_queues (set_status now i st w) = ap_queues w" "ap_redis (set_status now i st w) = ap_redis w"
  by (simp_all add: set_status_def)

lemma set_status_ids [simp]: "bot_ids u (ap_db (set_status now i st w)) = bot_ids u (ap_db w)"
  by (simp add: set_status_def bot_ids_keys bot_keys_def update_bot_def)

lemma set_status_confined: "i \<in> bot_ids u (ap_db w) \<Longrightarrow> confined u (ap_db w) (ap_db (set_status now i st w))"
  by (simp add: set_status_def confined_update_bot)

lemma set_status_twice: "i \<in> bot_ids u (ap_db w) \<Longrightarrow> confined u (ap_db w) (ap_db (set_status now i st (set_status now' i st' w)))"
  by (rule confined_trans [OF set_status_confined set_status_confined]) simp_all

lemma isolated_start: "isolated (ar_owner rq) w (startBot rq i w)"
  by (auto simp: startBot_def isolated_def Let_def dest!: own_bot_id queued_SomeD intro: set_status_confined own_jobs_enqueue split: option.split)

lemma isolated_stop: "isolated (ar_owner rq) w (stopBot rq i w)"
  by (auto simp: stopBot_def isolated_def Let_def dest!: own_bot_id queued_SomeD intro: set_status_confined own_jobs_enqueue split: option.split)

lemma isolated_restart: "isolated (ar_owner rq) w (restartBot rq i w)"
  by (auto simp: restartBot_def RestartBotHandler_def isolated_def Let_def restart_job_def new_job_def job_body_def
      dest!: own_bot_id queued_SomeD intro: set_status_confined set_status_twice own_jobs_add split: option.split)

lemma isolated_action: "isolated (ar_owner rq) w (actionBot rq i body w)"
  by (auto simp: actionBot_def ExecuteBotActionHandler_def isolated_def Let_def
      dest!: own_bot_id queued_SomeD intro: own_jobs_enqueue split: option.split json.split list.split)

lemma isolated_memory: "isolated (ar_owner rq) w (deleteMemoryKey rq i key w)" "isolated (ar_owner rq) w (clearMemory rq i w)"
  by (auto simp: deleteMemoryKey_def clearMemory_def isolated_def split: option.split prod.split)

lemma created_row:
  assumes "create_bot_row env rq body db = Answers b"
  shows "bt_owner b = ar_owner rq" "own_account (ar_owner rq) (bt_account b) db \<noteq> None"
  using assms by (auto simp: create_bot_row_def invalid_def crashed_def Let_def split: option.splits if_splits sum.splits)

lemma isolated_create: "isolated (ar_owner rq) w (createBot env rq body w)"
  using created_row by (fastforce simp: createBot_def insert_bot_def isolated_def intro: confined_add_bot split: reply.split option.split)

lemma isolated_update: "isolated (ar_owner rq) w (updateBot env rq i body w)"
  by (auto simp: updateBot_def UpdateBotHandler_def isolated_def Let_def
      dest!: own_bot_id intro!: confined_update_bot split: option.split sum.split)

lemma isolated_delete: "isolated (ar_owner rq) w (deleteBot rq i w)"
  by (auto simp: deleteBot_def isolated_def Let_def dest!: own_bot_id queued_SomeD intro: confined_drop_bot own_jobs_enqueue split: option.split)

section \<open>Wallet keys\<close>

definition shown_key :: "json \<Rightarrow> string option" where
  "shown_key v = (case v of JStr (x # xs) \<Rightarrow> Some (x # xs) | _ \<Rightarrow> None)"

definition wallet_of :: "json \<Rightarrow> json" where
  "wallet_of config = get_prop (get_prop config ''crypto'') ''wallet''"

lemma wallet_key_of: "wallet_key config = shown_key (get_prop (wallet_of config) ''privateKey'')"
  by (simp add: wallet_key_def shown_key_def wallet_of_def)

lemma falsy_prop: "\<not> truthy v \<Longrightarrow> get_prop v k = JUndef"
  by (cases v) auto

lemma set_path_crypto:
  assumes "is_plain_object (wallet_of config)"
  shows "wallet_of (set_path [''crypto'', ''wallet''] v config) = v"
proof -
  from assms obtain ps cs ws where "config = JObj ps" "map_of ps ''crypto'' = Some (JObj cs)" "map_of cs ''wallet'' = Some (JObj ws)"
    unfolding wallet_of_def by (cases config; cases "get_prop config ''crypto''"; cases "get_prop (get_prop config ''crypto'') ''wallet''")
      (auto split: option.splits)
  then show ?thesis by (simp add: wallet_of_def)
qed

lemma wallet_of_attach:
  assumes "wallet_of config = JObj ws"
  shows "wallet_of (attach_key k config) = JObj (jset ''privateKey'' (case k of Some s \<Rightarrow> JStr s | None \<Rightarrow> JNull) ws)"
proof -
  obtain ps cs where "config = JObj ps" "map_of ps ''crypto'' = Some (JObj cs)" "map_of cs ''wallet'' = Some (JObj ws)"
    using assms unfolding wallet_of_def by (cases config; cases "get_prop config ''crypto''") (auto split: option.splits)
  then show ?thesis by (simp add: wallet_of_def attach_key_def)
qed

lemma wallet_of_attach_not:
  assumes "\<not> is_plain_object (wallet_of config)"
  shows "\<not> is_plain_object (wallet_of (attach_key k config))"
  using assms unfolding wallet_of_def attach_key_def
  by (cases config; cases "get_prop config ''crypto''"; cases "get_prop (get_prop config ''crypto'') ''wallet''") (auto split: option.splits)

lemma wallet_key_attach:
  "is_plain_object (wallet_of config) \<Longrightarrow> wallet_key (attach_key (Some s) config) = (if s = [] then None else Some s)"
  "\<not> is_plain_object (wallet_of config) \<Longrightarrow> wallet_key (attach_key k config) = None"
  "wallet_key (attach_key None config) = None"
proof -
  show "is_plain_object (wallet_of config) \<Longrightarrow> wallet_key (attach_key (Some s) config) = (if s = [] then None else Some s)"
    by (cases "wallet_of config") (auto simp: wallet_key_of wallet_of_attach shown_key_def split: list.split)
  show not: "\<not> is_plain_object (wallet_of config) \<Longrightarrow> wallet_key (attach_key k config) = None" for k
    by (simp add: wallet_key_of get_prop_not_object wallet_of_attach_not shown_key_def)
  show "wallet_key (attach_key None config) = None"
    by (cases "is_plain_object (wallet_of config)"; cases "wallet_of config")
      (simp_all add: not, simp add: wallet_key_of wallet_of_attach shown_key_def)
qed

lemma sealed_attach: "(\<And>s. k = Some s \<Longrightarrow> sealed_text s) \<Longrightarrow> sealed_config (attach_key k config)"
  by (cases k; cases "is_plain_object (wallet_of config)") (auto simp: sealed_config_def wallet_key_attach)

lemma map_sum_Inr: "map_sum id f x = Inr y \<longleftrightarrow> (\<exists>z. x = Inr z \<and> y = f z)"
  by (cases x) auto

text \<open>What is stored of a trading bot has its key encrypted, whatever the request says.\<close>

lemma no_text_sealed: "\<not> is_string (get_prop (wallet_of config) ''privateKey'') \<Longrightarrow> sealed_config config"
  by (cases "get_prop (wallet_of config) ''privateKey''") (auto simp: sealed_config_def wallet_key_of shown_key_def)

lemma preserve_sealed:
  assumes "preserveWalletKey env iv stored incoming = Inr config" "kr_key (ev_registry env) \<noteq> []"
  shows "sealed_config config"
proof (cases "truthy (get_prop incoming ''crypto'') \<and> truthy (wallet_of incoming)")
  case True
  show ?thesis
  proof (cases "is_string (get_prop (wallet_of incoming) ''privateKey'')")
    case True
    then obtain k where k: "get_prop (wallet_of incoming) ''privateKey'' = JStr k" by (cases "get_prop (wallet_of incoming) ''privateKey''") auto
    show ?thesis
    proof (cases "starts_with ENC_PREFIX k")
      case True
      then have "config = incoming" using assms(1) k \<open>truthy _ \<and> truthy _\<close> by (simp add: preserveWalletKey_def Let_def wallet_of_def)
      with True k show ?thesis by (auto simp: sealed_config_def wallet_key_of shown_key_def sealed_text_def split: list.split)
    next
      case False
      then obtain s where "seal env iv k = Inr s" "config = attach_key (Some s) incoming"
        using assms(1) k \<open>truthy _ \<and> truthy _\<close> by (auto simp: preserveWalletKey_def Let_def wallet_of_def map_sum_Inr)
      then show ?thesis using seal_sealed assms(2) by (auto intro!: sealed_attach)
    qed
  next
    case False
    with assms(1) \<open>truthy _ \<and> truthy _\<close> have "config = incoming \<or> (\<exists>k s. sealed env iv (Some k) = Inr s \<and> config = attach_key s incoming)"
      by (auto simp: preserveWalletKey_def Let_def wallet_of_def map_sum_Inr split: json.splits)
    then show ?thesis using no_text_sealed [OF False] sealed_sealed assms(2) by (auto intro!: sealed_attach)
  qed
next
  case False
  then have "config = incoming" using assms(1) by (auto simp: preserveWalletKey_def Let_def wallet_of_def)
  moreover have "wallet_key incoming = None" using False by (auto simp: wallet_key_def wallet_of_def falsy_prop)
  ultimately show ?thesis by (simp add: sealed_config_def)
qed

lemma trading_sealed:
  assumes "with_trading env rq config = Inr config'" "kr_key (ev_registry env) \<noteq> []"
  shows "sealed_config config'"
proof -
  obtain crypto where c: "with_trading env rq config =
     (let wallet = get_prop crypto ''wallet''; put = (\<lambda>c. JObj (jset ''crypto'' c (props_of config)))
      in if \<not> truthy wallet
         then (let new = generateEVMWallet (ar_privateKey rq) (ev_publicKey env) (ev_keccak env) (ev_hex env)
               in map_sum id (\<lambda>k. put (JObj (jset ''wallet'' (JObj [(''address'', JStr (ew_address new)), (''privateKey'', JStr k)]) (props_of crypto))))
                    (seal env (ar_iv rq 0) (ew_privateKey new)))
         else case get_prop wallet ''privateKey'' of
           JStr k \<Rightarrow> map_sum id (\<lambda>s. attach_key s (put crypto)) (sealed env (ar_iv rq 0) (Some k))
         | _ \<Rightarrow> Inr (put crypto))"
    unfolding with_trading_def Let_def by blast
  let ?put = "\<lambda>c. JObj (jset ''crypto'' c (props_of config))"
  consider (new) a k where "seal env (ar_iv rq 0) a = Inr k"
      "wallet_of config' = JObj [(''address'', JStr (ew_address (generateEVMWallet (ar_privateKey rq) (ev_publicKey env) (ev_keccak env) (ev_hex env)))), (''privateKey'', JStr k)]"
    | (own) k s where "sealed env (ar_iv rq 0) (Some k) = Inr s" "config' = attach_key s (?put crypto)"
    | (none) "config' = ?put crypto" "\<not> is_string (get_prop (get_prop crypto ''wallet'') ''privateKey'')"
    using assms(1) unfolding c Let_def wallet_of_def by (auto simp: map_sum_Inr split: if_splits json.splits)
  then show ?thesis
  proof cases
    case new
    then show ?thesis using seal_sealed assms(2) by (auto simp: sealed_config_def wallet_key_of shown_key_def split: list.split)
  next
    case own
    then show ?thesis using sealed_sealed assms(2) by (auto intro!: sealed_attach)
  next
    case none
    then show ?thesis by (intro no_text_sealed) (simp add: wallet_of_def)
  qed
qed

text \<open>A config for a bot of another platform is stored as it comes when the bot is made.\<close>

lemma other_platform_plain:
  assumes "create_bot_row env rq body db = Answers b" "bt_platform b \<noteq> ''crypto''"
    and "parse_schema (CreateBotSchema (ev_validators env)) body = Some v" "\<not> nullish (get_prop v ''config'')"
  shows "bt_config b = get_prop v ''config''"
  using assms by (auto simp: create_bot_row_def invalid_def crashed_def Let_def nullish_or_def split: option.splits if_splits sum.splits)

section \<open>Saving what was fetched\<close>

lemma preserve_keeps_key:
  assumes "wallet_of incoming = JObj ws" "get_prop (JObj ws) ''privateKey'' = JUndef" "wallet_key stored = Some k" "sealed_text k"
  shows "preserveWalletKey env iv stored incoming = Inr (attach_key (Some k) incoming)"
proof -
  have "truthy (get_prop incoming ''crypto'')"
    using assms(1) falsy_prop [of "get_prop incoming ''crypto''" "''wallet''"] by (auto simp: wallet_of_def)
  moreover have "get_prop (get_prop (get_prop stored ''crypto'') ''wallet'') ''privateKey'' = JStr k" "k \<noteq> []"
    using assms(3) by (auto simp: wallet_key_def split: json.splits list.splits)
  moreover have "sealed env iv (Some k) = Inr (Some k)"
    using assms(4) \<open>k \<noteq> []\<close> by (simp add: sealed_def ensureEncrypted_def sealed_text_def)
  ultimately show ?thesis
    using assms(1,2) by (simp add: preserveWalletKey_def Let_def wallet_of_def)
qed

lemma optional_SomeD: "parse_optional p v = Some x \<Longrightarrow> v \<noteq> JUndef \<Longrightarrow> p v = Some x"
  by (simp add: parse_optional_def)

lemma schema_wallet:
  assumes "parse_schema (BotConfigSchema va) c = Some c'" "wallet_of c = JObj ws" "get_prop (JObj ws) ''privateKey'' = JUndef"
  shows "\<exists>ws'. wallet_of c' = JObj ws' \<and> get_prop (JObj ws') ''privateKey'' = JUndef \<and>
    get_prop (JObj ws') ''address'' = get_prop (JObj ws) ''address''"
proof -
  have defined: "get_prop c ''crypto'' \<noteq> JUndef" "get_prop (get_prop c ''crypto'') ''wallet'' \<noteq> JUndef"
    using assms(2) by (auto simp: wallet_of_def)
  have "parse_optional (parse_schema CryptoSchema) (get_prop c ''crypto'') = Some (get_prop c' ''crypto'')"
    using object_fields [OF assms(1) [unfolded BotConfigSchema_def parse_schema.simps], of "''crypto''"] by simp
  from optional_SomeD [OF this defined(1)]
  have "parse_optional (parse_schema WalletSchema) (wallet_of c) = Some (wallet_of c')"
    using object_fields [of False _ _ "get_prop c ''crypto''" "get_prop c' ''crypto''" "''wallet''"]
    unfolding CryptoSchema_def z_object_def parse_schema.simps wallet_of_def by simp
  then have w: "parse_schema WalletSchema (wallet_of c) = Some (wallet_of c')"
    using optional_SomeD defined(2) by (simp add: wallet_of_def)
  then obtain ws' where ws': "wallet_of c' = JObj ws'"
    by (auto simp: WalletSchema_def z_object_def assms(2) elim: parse_object_SomeD)
  have "get_prop (wallet_of c') ''privateKey'' = JUndef"
    using object_fields [OF w [unfolded WalletSchema_def z_object_def parse_schema.simps], of "''privateKey''"] assms(2,3)
    by (simp add: parse_optional_def del: get_prop.simps)
  moreover have "get_prop (wallet_of c') ''address'' = get_prop (wallet_of c) ''address''"
    using object_fields [OF w [unfolded WalletSchema_def z_object_def parse_schema.simps], of "''address''"] assms(2)
    by (auto simp: parse_string_def simp del: get_prop.simps split: json.splits if_splits)
  ultimately show ?thesis using ws' assms(2) by simp
qed

lemma find_bot_update:
  "find_bot i db = Some b \<Longrightarrow> (\<And>x. bt_id (f x) = bt_id x) \<Longrightarrow> find_bot i (update_bot now i f db) = Some ((f b)\<lparr> bt_updatedAt := now \<rparr>)"
proof -
  assume f: "\<And>x. bt_id (f x) = bt_id x"
  have "find (\<lambda>b. bt_id b = i) xs = Some b \<Longrightarrow>
      find (\<lambda>b. bt_id b = i) (change (\<lambda>b. bt_id b = i) (\<lambda>b. (f b)\<lparr> bt_updatedAt := now \<rparr>) xs) = Some ((f b)\<lparr> bt_updatedAt := now \<rparr>)" for xs
    by (induction xs) (auto simp: change_def f split: if_splits)
  then show "find_bot i db = Some b \<Longrightarrow> find_bot i (update_bot now i f db) = Some ((f b)\<lparr> bt_updatedAt := now \<rparr>)"
    by (simp add: find_bot_def update_bot_def)
qed

lemma find_own_bot: "db_ok db \<Longrightarrow> own_bot u i db = Some b \<Longrightarrow> find_bot i db = Some b"
proof -
  assume ok: "db_ok db" and "own_bot u i db = Some b"
  then have b: "b \<in> set (db_bots db)" "bt_id b = i" using own_bot_SomeD by auto
  then obtain b' where "find_bot i db = Some b'" by (cases "find_bot i db") (auto simp: find_bot_def find_None_iff)
  moreover from this have "b' \<in> set (db_bots db)" "bt_id b' = i" by (auto simp: find_bot_def find_Some_iff)
  ultimately show "find_bot i db = Some b" using unique_row [OF db_okD(2) [OF ok], of b' b] b by simp
qed

lemma public_wallet:
  assumes "wallet_key (bt_config b) = Some k"
  shows "\<exists>ws. wallet_of (bt_config b) = JObj ws \<and> wallet_of (bt_config (publicBot b)) = JObj (jdel ''privateKey'' ws)"
proof -
  have "is_plain_object (wallet_of (bt_config b))"
    using assms by (rule_tac ccontr) (simp add: wallet_key_of shown_key_def get_prop_not_object)
  then obtain ws where "wallet_of (bt_config b) = JObj ws" by (cases "wallet_of (bt_config b)") auto
  then show ?thesis using set_path_crypto [of "bt_config b"] by (simp add: publicBot_def wallet_of_def)
qed

lemma public_no_key: "wallet_key (bt_config (publicBot b)) = None"
proof (cases "is_plain_object (wallet_of (bt_config b))")
  case True
  then obtain ws where ws: "wallet_of (bt_config b) = JObj ws" by (cases "wallet_of (bt_config b)") auto
  with set_path_crypto [of "bt_config b"] show ?thesis
    by (simp add: publicBot_def wallet_key_of shown_key_def) (simp add: wallet_of_def)
next
  case False
  then have "publicBot b = b" by (cases "wallet_of (bt_config b)") (simp_all add: publicBot_def wallet_of_def)
  with False show ?thesis by (simp add: wallet_key_of get_prop_not_object shown_key_def)
qed

text \<open>
  C24. A client that fetches a bot and saves the config that it was shown changes nothing about its wallet: the
  private key, which it never saw, is still stored, with the same address.
\<close>

theorem fetched_config_keeps_key:
  assumes "db_ok (ap_db w)" "own_bot (ar_owner rq) i (ap_db w) = Some b" "wallet_key (bt_config b) = Some k" "sealed_text k"
    and "parse_schema (UpdateBotSchema (ev_validators env)) (JObj [(''config'', bt_config (publicBot b))]) \<noteq> None"
  shows "wallet_key (bt_config (publicBot b)) = None \<and>
    (\<exists>w' b'. updateBot env rq i (JObj [(''config'', bt_config (publicBot b))]) w = (w', Answers b') \<and>
      find_bot i (ap_db w') = Some b' \<and> bt_name b' = bt_name b \<and> wallet_key (bt_config b') = Some k \<and>
      get_prop (wallet_of (bt_config b')) ''address'' = get_prop (wallet_of (bt_config b)) ''address'')"
proof -
  let ?c = "bt_config (publicBot b)" and ?body = "JObj [(''config'', bt_config (publicBot b))]"
  obtain v where v: "parse_schema (UpdateBotSchema (ev_validators env)) ?body = Some v" using assms(5) by blast
  obtain ws where ws: "wallet_of (bt_config b) = JObj ws" "wallet_of ?c = JObj (jdel ''privateKey'' ws)"
    using public_wallet [OF assms(3)] by blast
  have fields: "parse_optional (parse_schema (BotConfigSchema (ev_validators env))) ?c = Some (get_prop v ''config'')"
    "parse_optional (parse_schema (z_text 1 100)) JUndef = Some (get_prop v ''name'')"
    using object_fields [OF v [unfolded UpdateBotSchema_def z_object_def parse_schema.simps], of "''config''"]
      object_fields [OF v [unfolded UpdateBotSchema_def z_object_def parse_schema.simps], of "''name''"] by simp_all
  have "?c \<noteq> JUndef" using ws(2) by (auto simp: wallet_of_def)
  from optional_SomeD [OF fields(1) this] obtain ws' where
    ws': "wallet_of (get_prop v ''config'') = JObj ws'" "get_prop (JObj ws') ''privateKey'' = JUndef"
      "get_prop (JObj ws') ''address'' = get_prop (JObj ws) ''address''"
    using schema_wallet [OF _ ws(2)] by auto
  let ?new = "b\<lparr> bt_config := attach_key (Some k) (get_prop v ''config''), bt_updatedAt := ar_now rq \<rparr>"
  have find: "find_bot i (ap_db w) = Some b" by (rule find_own_bot [OF assms(1,2)])
  have "get_prop v ''config'' \<noteq> JUndef" using ws'(1) by (auto simp: wallet_of_def)
  moreover have "get_prop v ''name'' = JUndef" using fields(2) by (simp add: parse_optional_def)
  moreover define f :: "bot_row \<Rightarrow> bot_row" where "f = (\<lambda>x. x\<lparr> bt_name := bt_name b, bt_config := attach_key (Some k) (get_prop v ''config'') \<rparr>)"
  ultimately have upd: "updateBot env rq i ?body w = (on_db (update_bot (ar_now rq) i f) w, Answers ?new)"
    using v assms(2) find find_bot_update [OF find, of f "ar_now rq"] preserve_keeps_key [OF ws'(1,2) assms(3,4), of env "ar_iv rq 0"]
    by (simp add: updateBot_def UpdateBotHandler_def f_def)
  have stored: "find_bot i (ap_db (on_db (update_bot (ar_now rq) i f) w)) = Some ?new"
    using find_bot_update [OF find, of f "ar_now rq"] by (simp add: f_def)
  have "k \<noteq> []" using assms(3) by (auto simp: wallet_key_def split: json.splits list.splits)
  then have "wallet_key (bt_config ?new) = Some k" using ws'(1) by (simp add: wallet_key_attach)
  moreover have "get_prop (wallet_of (bt_config ?new)) ''address'' = get_prop (wallet_of (bt_config b)) ''address''"
    using ws' ws(1) by (simp add: wallet_of_attach)
  ultimately show ?thesis using upd stored public_no_key by auto
qed

definition demo_bot :: bot_row where
  "demo_bot = \<lparr> bt_id = ''b'', bt_owner = ''u'', bt_account = ''a'', bt_name = ''n'', bt_platform = ''crypto'', bt_status = ''idle'',
     bt_config = JObj [(''crypto'', JObj [(''wallet'', JObj [(''address'', JStr (''0x'' @ replicate 40 CHR ''a'')), (''privateKey'', JStr ''enc:k'')])])],
     bt_updatedAt = 0 \<rparr>"

definition demo_api :: api_world where
  "demo_api = \<lparr> ap_db = \<lparr> db_accounts = [\<lparr> ac_id = ''a'', ac_owner = ''u'', ac_name = ''n'', ac_platform = ''crypto'', ac_secrets = [], ac_apiKeys = None \<rparr>],
       db_bots = [demo_bot], db_scripts = [], db_webhooks = [], db_deliveries = [], db_logs = [], db_events = [] \<rparr>,
     ap_queues = \<lparr> jq_jobs = [], jq_up = True \<rparr>, ap_redis = [], ap_notices = [] \<rparr>"

definition demo_asked :: api_request where
  "demo_asked = \<lparr> ar_owner = ''u'', ar_now = 1, ar_id = ''new'', ar_iv = (\<lambda>_. []), ar_random = (\<lambda>_. 0), ar_privateKey = [], ar_nonce = ''x'' \<rparr>"

lemma demo_key: "wallet_key (bt_config demo_bot) = Some ''enc:k''" "sealed_text ''enc:k''"
  by (simp_all add: demo_bot_def wallet_key_def sealed_text_def ENC_PREFIX_def starts_with_def)

lemma demo_public: "bt_config (publicBot demo_bot) =
    JObj [(''crypto'', JObj [(''wallet'', JObj [(''address'', JStr (''0x'' @ replicate 40 CHR ''a''))])])]"
  by (simp add: demo_bot_def publicBot_def)

lemma demo_schema: "parse_schema (UpdateBotSchema va) (JObj [(''config'', bt_config (publicBot demo_bot))]) \<noteq> None"
proof -
  have "isValidEVMAddress (''0x'' @ replicate 40 CHR ''a'')" by code_simp
  then show ?thesis
    unfolding demo_public UpdateBotSchema_def BotConfigSchema_def CryptoSchema_def schema_defs parse_schema.simps
    by (simp add: parse_object_def parse_optional_def parse_string_def up_to_def)
qed

lemma fetched_config_keeps_key_witness:
  "\<forall>env. \<exists>w' b'. updateBot env demo_asked ''b'' (JObj [(''config'', bt_config (publicBot demo_bot))]) demo_api = (w', Answers b') \<and>
     find_bot ''b'' (ap_db w') = Some b' \<and> wallet_key (bt_config b') = Some ''enc:k''"
proof
  fix env
  have "db_ok (ap_db demo_api)" by (simp add: db_ok_def demo_api_def demo_bot_def account_keys_def bot_keys_def)
  moreover have "own_bot (ar_owner demo_asked) ''b'' (ap_db demo_api) = Some demo_bot"
    by (simp add: own_bot_def ownerScopedUnique_def demo_api_def demo_asked_def demo_bot_def)
  ultimately show "\<exists>w' b'. updateBot env demo_asked ''b'' (JObj [(''config'', bt_config (publicBot demo_bot))]) demo_api = (w', Answers b') \<and>
     find_bot ''b'' (ap_db w') = Some b' \<and> wallet_key (bt_config b') = Some ''enc:k''"
    using fetched_config_keeps_key [of demo_api demo_asked "''b''" demo_bot "''enc:k''" env] demo_key demo_schema by blast
qed

section \<open>Where the routes fall short\<close>

text \<open>A config without a wallet takes the stored key away, and a wallet with another address gets it.\<close>

lemma key_dropped:
  "wallet_of incoming = JUndef \<Longrightarrow> preserveWalletKey env iv stored incoming = Inr incoming \<and> wallet_key incoming = None"
  by (simp add: preserveWalletKey_def Let_def wallet_of_def wallet_key_def)

lemma key_of_other_address:
  assumes "wallet_of incoming = JObj ws" "get_prop (JObj ws) ''privateKey'' = JUndef" "wallet_key stored = Some k" "sealed_text k"
  shows "\<exists>c. preserveWalletKey env iv stored incoming = Inr c \<and> wallet_key c = Some k \<and>
    get_prop (wallet_of c) ''address'' = get_prop (JObj ws) ''address''"
proof -
  have "k \<noteq> []" using assms(3) by (auto simp: wallet_key_def split: json.splits list.splits)
  then show ?thesis
    using preserve_keeps_key [OF assms, of env iv] assms(1) by (simp add: wallet_key_attach wallet_of_attach)
qed

text \<open>The replies to a creation and to an update are the stored row, with the encrypted key.\<close>

lemma created_reply_is_row: "createBot env rq body w = (w', Answers b) \<Longrightarrow> b \<in> set (db_bots (ap_db w'))"
  by (auto simp: createBot_def insert_bot_def add_bot_def crashed_def split: reply.splits option.splits if_splits)

lemma updated_reply_is_row: "updateBot env rq i body w = (w', Answers b) \<Longrightarrow> find_bot i (ap_db w') = Some b"
  by (auto simp: updateBot_def UpdateBotHandler_def Let_def notFound_def invalid_def internal_def split: option.splits sum.splits)

text \<open>With the queues away, the handler of the command takes the status back and the route does not.\<close>

lemma start_while_down:
  assumes "own_bot (ar_owner rq) i (ap_db w) = Some b" "find_bot i (ap_db w) = Some b" "\<not> jq_up (ap_queues w)"
  shows "\<exists>w'. startBot rq i w = (w', crashed) \<and> map_option bt_status (find_bot i (ap_db w')) = Some ''connecting''"
    and "\<exists>w'. StartBotHandler (ar_now rq) i (bt_platform b) w = (w', internal) \<and>
      map_option bt_status (find_bot i (ap_db w')) = Some ''idle''"
proof -
  have none: "enqueueConnect (ar_now rq) i (bt_platform b) (ap_queues w) = None"
    using assms(3) by (auto simp: enqueueConnect_def enqueue_def add_job_def split: option.split)
  have first: "find_bot i (ap_db (set_status (ar_now rq) i ''connecting'' w)) = Some (b\<lparr> bt_status := ''connecting'', bt_updatedAt := ar_now rq \<rparr>)"
    using find_bot_update [OF assms(2), of "\<lambda>b. b\<lparr> bt_status := ''connecting'' \<rparr>" "ar_now rq"] by (simp add: set_status_def)
  then show "\<exists>w'. startBot rq i w = (w', crashed) \<and> map_option bt_status (find_bot i (ap_db w')) = Some ''connecting''"
    using assms none by (simp add: startBot_def queued_def)
  have "find_bot i (ap_db (set_status (ar_now rq) i ''idle'' (set_status (ar_now rq) i ''connecting'' w))) =
      Some (b\<lparr> bt_status := ''idle'', bt_updatedAt := ar_now rq \<rparr>)"
    using find_bot_update [OF first, of "\<lambda>b. b\<lparr> bt_status := ''idle'' \<rparr>" "ar_now rq"] by (simp add: set_status_def)
  then show "\<exists>w'. StartBotHandler (ar_now rq) i (bt_platform b) w = (w', internal) \<and>
      map_option bt_status (find_bot i (ap_db w')) = Some ''idle''"
    using assms none by (simp add: StartBotHandler_def queued_def)
qed

text \<open>A restart on a platform without a queue stays in its status, and a deletion without Redis is half done.\<close>

lemma restart_without_queue:
  "find_bot i (ap_db w) \<noteq> None \<Longrightarrow> getQueue platform = None \<Longrightarrow>
     RestartBotHandler now i platform w = (set_status now i ''reconnecting'' w, internal)"
  by (auto simp: RestartBotHandler_def)

lemma delete_while_down:
  assumes "own_bot (ar_owner rq) i (ap_db w) = Some b" "\<not> jq_up (ap_queues w)"
  shows "deleteBot rq i w = (on_db (drop_bot i) w, crashed)"
  using assms by (auto simp: deleteBot_def queued_def enqueueDisconnect_def enqueue_def add_job_def Let_def split: option.split)

text \<open>Two creations that both check before either inserts go over the quota.\<close>

lemma quota_overrun:
  assumes "create_bot_row env rq1 body1 (ap_db w) = Answers b1" "create_bot_row env rq2 body2 (ap_db w) = Answers b2"
    and "ar_owner rq1 = u" "ar_owner rq2 = u" "bt_id b1 \<noteq> bt_id b2" "bt_id b1 \<noteq> []" "bt_id b2 \<noteq> []"
    and "bt_id b1 \<notin> bt_id ` set (db_bots (ap_db w))" "bt_id b2 \<notin> bt_id ` set (db_bots (ap_db w))"
    and "maxBots (ev_limits env) = jint (int (length (filter (\<lambda>b. bt_owner b = u) (db_bots (ap_db w)))) + 1)"
  shows "jlt (maxBots (ev_limits env)) (us_bots (usage u (ap_db (fst (insert_bot (Answers b2) (fst (insert_bot (Answers b1) w)))))))"
proof -
  have row: "bt_owner b = ar_owner rq \<and> bt_account b \<in> ac_id ` set (db_accounts (ap_db w))"
    if "create_bot_row env rq body (ap_db w) = Answers b" for rq body b
    using created_row [OF that] own_account_SomeD [of "ar_owner rq" "bt_account b" "ap_db w"] by (auto simp: image_iff) metis
  show ?thesis
    using assms(3-10) row [OF assms(1)] row [OF assms(2)]
    by (simp add: insert_bot_def add_bot_def usage_def)
qed

text \<open>The watchdog leaves no bot in between for more than two minutes, and touches no other.\<close>

lemma watchdog_frees:
  assumes "b \<in> set (db_bots (fst (stateWatchdog now db)))"
  shows "\<not> stale now b"
proof -
  obtain b' where "b = (if stale now b' then b'\<lparr> bt_status := ''idle'', bt_updatedAt := now \<rparr> else b')"
    using assms by (auto simp: stateWatchdog_def in_change)
  then show ?thesis by (cases "stale now b'") (simp_all add: stale_def)
qed

lemma watchdog_spares: "b \<in> set (db_bots db) \<Longrightarrow> \<not> stale now b \<Longrightarrow> b \<in> set (db_bots (fst (stateWatchdog now db)))"
  by (auto simp: stateWatchdog_def in_change intro!: bexI [of _ b])

text \<open>
  So a running bot that is started again is stopped: the worker does nothing with the job while the connection is
  live, the status stays, and the watchdog makes it idle.
\<close>

lemma start_of_live_bot: "connect_job sv c now True (Some ''connecting'') b row w = w"
  by (simp add: connect_job_def)

end
