(* ===== verification/AccountRoutes.thy ===== *)
theory AccountRoutes
  imports BotRoutes
begin

text \<open>
  The platform accounts of the API, packages/api/src/routes/accounts.ts: their credentials are encrypted on the
  way in and only named on the way out. The columns of the credentials are a map of those that are not null.
\<close>

section \<open>Credentials\<close>

definition CREDENTIAL_FIELDS :: "string list" where
  "CREDENTIAL_FIELDS = [''token'', ''clientId'', ''secret'', ''refreshToken'', ''apiKey'', ''apiSecret'']"

text \<open>All of them, or the first error.\<close>

fun all_right :: "('e + 'a) list \<Rightarrow> 'e + 'a list" where
  "all_right [] = Inr []"
| "all_right (r # rs) = (case r of Inl e \<Rightarrow> Inl e | Inr x \<Rightarrow> map_sum id ((#) x) (all_right rs))"

definition filled :: "json \<Rightarrow> string option" where
  "filled v = (case v of JStr (c # cs) \<Rightarrow> Some (c # cs) | _ \<Rightarrow> None)"

definition key_pair :: "json \<Rightarrow> (string \<times> string) option" where
  "key_pair v =
     (case (filled (get_prop v ''apiKey''), filled (get_prop v ''apiSecret'')) of
        (Some k, Some s) \<Rightarrow> Some (k, s) | _ \<Rightarrow> None)"

definition seal_pair :: "api_env \<Rightarrow> api_request \<Rightarrow> nat \<times> string \<times> string \<Rightarrow> string + string \<times> string" where
  "seal_pair env rq x =
     (case x of (n, k, s) \<Rightarrow>
        (case (seal env (ar_iv rq (6 + 2 * n)) k, seal env (ar_iv rq (7 + 2 * n)) s) of
           (Inr k, Inr s) \<Rightarrow> Inr (k, s) | (Inl e, _) \<Rightarrow> Inl e | (_, Inl e) \<Rightarrow> Inl e))"

text \<open>No pairs where the result is empty.\<close>

definition encryptApiKeys :: "api_env \<Rightarrow> api_request \<Rightarrow> json \<Rightarrow> string + (string \<times> string) list" where
  "encryptApiKeys env rq credentials =
     (case get_prop credentials ''apiKeys'' of
        JArr ps \<Rightarrow> all_right (map (seal_pair env rq) (enumerate 0 (List.map_filter key_pair ps)))
      | _ \<Rightarrow> Inr [])"

definition seal_field :: "api_env \<Rightarrow> api_request \<Rightarrow> json \<Rightarrow> nat \<times> string \<Rightarrow> string + (string \<times> string option) list" where
  "seal_field env rq credentials x =
     (case x of (n, f) \<Rightarrow>
        let v = get_prop credentials f
        in case filled v of
             Some s \<Rightarrow> map_sum id (\<lambda>t. [(f, Some t)]) (seal env (ar_iv rq n) s)
           | None \<Rightarrow> if v = JNull then Inr [(f, None)] else Inr [])"

text \<open>The columns to set, to null or to a text, and the pairs where they change.\<close>

type_synonym column_changes = "(string \<times> string option) list \<times> (string \<times> string) list option"

definition flattenCredentials :: "api_env \<Rightarrow> api_request \<Rightarrow> json \<Rightarrow> string + column_changes" where
  "flattenCredentials env rq credentials =
     (if \<not> truthy credentials then Inr ([], None)
      else case all_right (map (seal_field env rq credentials) (enumerate 0 CREDENTIAL_FIELDS)) of
        Inl e \<Rightarrow> Inl e
      | Inr cols \<Rightarrow>
          if get_prop credentials ''apiKeys'' = JArr [] then Inr (concat cols, Some [])
          else map_sum id (\<lambda>ps. (concat cols, if ps = [] then None else Some ps)) (encryptApiKeys env rq credentials))"

definition set_column :: "string \<times> string option \<Rightarrow> (string, string) jmap \<Rightarrow> (string, string) jmap" where
  "set_column c m = (case c of (f, None) \<Rightarrow> jdel f m | (f, Some s) \<Rightarrow> jset f s m)"

definition set_columns :: "column_changes \<Rightarrow> account_row \<Rightarrow> account_row" where
  "set_columns ch a = a\<lparr> ac_secrets := fold set_column (fst ch) (ac_secrets a),
     ac_apiKeys := (case snd ch of None \<Rightarrow> ac_apiKeys a | Some ps \<Rightarrow> Some ps) \<rparr>"

text \<open>What a client sees: the row without credentials, and which of them there are.\<close>

record public_account =
  pa_id :: string
  pa_owner :: string
  pa_name :: string
  pa_platform :: string
  pa_credentials :: "string list"

definition collectCredentials :: "account_row \<Rightarrow> string list" where
  "collectCredentials a =
     filter (\<lambda>f. case jget (ac_secrets a) f of Some (c # cs) \<Rightarrow> True | _ \<Rightarrow> False) CREDENTIAL_FIELDS @
     (case ac_apiKeys a of Some (p # ps) \<Rightarrow> [''apiKeys''] | _ \<Rightarrow> [])"

definition stripSecretFields :: "account_row \<Rightarrow> public_account" where
  "stripSecretFields a = \<lparr> pa_id = ac_id a, pa_owner = ac_owner a, pa_name = ac_name a, pa_platform = ac_platform a,
     pa_credentials = collectCredentials a \<rparr>"

section \<open>Routes\<close>

definition bots_of_account :: "string \<Rightarrow> api_db \<Rightarrow> bot_row list" where
  "bots_of_account i db = filter (\<lambda>b. bt_account b = i) (db_bots db)"

definition listAccounts :: "api_request \<Rightarrow> json \<Rightarrow> api_db \<Rightarrow> (public_account \<times> nat) list" where
  "listAccounts rq query db =
     map (\<lambda>a. (stripSecretFields a, length (bots_of_account (ac_id a) db)))
       (page_of query 100 1000 (filter (\<lambda>a. ac_owner a = ar_owner rq) (db_accounts db)))"

definition getAccount :: "api_request \<Rightarrow> string \<Rightarrow> api_db \<Rightarrow> (public_account \<times> string list) reply" where
  "getAccount rq i db =
     (case own_account (ar_owner rq) i db of
        None \<Rightarrow> notFound | Some a \<Rightarrow> Answers (stripSecretFields a, map bt_id (bots_of_account i db)))"

definition createAccount :: "api_env \<Rightarrow> api_request \<Rightarrow> json \<Rightarrow> api_world \<Rightarrow> api_world \<times> public_account reply" where
  "createAccount env rq body w =
     (case parse_schema CreateAccountSchema body of
        None \<Rightarrow> (w, invalid)
      | Some v \<Rightarrow>
          if checkQuota (usage (ar_owner rq) (ap_db w)) Accounts (ev_limits env) \<noteq> Inr () then (w, Rejects 429 ''QUOTA_EXCEEDED'')
          else (case flattenCredentials env rq (get_prop v ''credentials'') of
                  Inl e \<Rightarrow> (w, crashed)
                | Inr ch \<Rightarrow>
                    (let a = set_columns ch \<lparr> ac_id = ar_id rq, ac_owner = ar_owner rq, ac_name = the_text (get_prop v ''name''),
                           ac_platform = the_text (get_prop v ''platform''), ac_secrets = [], ac_apiKeys = None \<rparr>
                     in case add_account a (ap_db w) of
                          None \<Rightarrow> (w, crashed)
                        | Some db \<Rightarrow> (w\<lparr> ap_db := db \<rparr>, Answers (stripSecretFields a)))))"

text \<open>The checks of an update in the order of the code; \<open>None\<close> when there is nothing against it.\<close>

definition account_conflict :: "account_row \<Rightarrow> json \<Rightarrow> api_db \<Rightarrow> (nat \<times> string) option" where
  "account_conflict a body db =
     (let platform = get_prop body ''platform''; name = get_prop body ''name''
      in if platform \<noteq> JUndef \<and> parse_schema PlatformSchema platform = None then Some (422, ''VALIDATION_ERROR'')
         else if platform \<noteq> JUndef \<and> platform \<noteq> JStr (ac_platform a) \<and> bots_of_account (ac_id a) db \<noteq> [] then Some (409, ''CONFLICT'')
         else if name \<noteq> JUndef \<and> \<not> (case name of JStr s \<Rightarrow> trim_text s \<noteq> [] \<and> length s \<le> 100 | _ \<Rightarrow> False)
         then Some (422, ''VALIDATION_ERROR'') else None)"

definition updateAccount :: "api_env \<Rightarrow> api_request \<Rightarrow> string \<Rightarrow> json \<Rightarrow> api_world \<Rightarrow> api_world \<times> public_account reply" where
  "updateAccount env rq i body w =
     (case own_account (ar_owner rq) i (ap_db w) of
        None \<Rightarrow> (w, notFound)
      | Some a \<Rightarrow>
          if nullish body then (w, crashed)
          else case account_conflict a body (ap_db w) of
            Some (s, c) \<Rightarrow> (w, Rejects s c)
          | None \<Rightarrow>
              (case flattenCredentials env rq (get_prop body ''credentials'') of
                 Inl e \<Rightarrow> (w, crashed)
               | Inr ch \<Rightarrow>
                   (let f = (\<lambda>a. set_columns ch (a\<lparr>
                          ac_name := (case get_prop body ''name'' of JStr s \<Rightarrow> trim_text s | _ \<Rightarrow> ac_name a),
                          ac_platform := (case get_prop body ''platform'' of JStr s \<Rightarrow> s | _ \<Rightarrow> ac_platform a) \<rparr>))
                    in (on_db (update_account i f) w, Answers (stripSecretFields (f a))))))"

definition deleteAccount :: "api_request \<Rightarrow> string \<Rightarrow> api_world \<Rightarrow> api_world \<times> unit reply" where
  "deleteAccount rq i w =
     (case own_account (ar_owner rq) i (ap_db w) of
        None \<Rightarrow> (w, notFound)
      | Some a \<Rightarrow>
          if bots_of_account i (ap_db w) \<noteq> [] then (w, Rejects 409 ''CONFLICT'')
          else (on_db (drop_account i) w, Answers ()))"

section \<open>Isolation and secrets\<close>

lemma set_columns_fields [simp]:
  "ac_id (set_columns ch a) = ac_id a" "ac_owner (set_columns ch a) = ac_owner a" "ac_platform (set_columns ch a) = ac_platform a"
  "ac_name (set_columns ch a) = ac_name a"
  by (simp_all add: set_columns_def)

lemma isolated_create_account: "isolated (ar_owner rq) w (createAccount env rq body w)"
  by (auto simp: createAccount_def isolated_def Let_def intro!: confined_add_account split: option.split sum.split)

lemma isolated_update_account: "isolated (ar_owner rq) w (updateAccount env rq i body w)"
  by (auto simp: updateAccount_def isolated_def Let_def intro!: confined_update_account split: option.split sum.split)

lemma isolated_delete_account: "isolated (ar_owner rq) w (deleteAccount rq i w)"
  by (auto simp: deleteAccount_def isolated_def bots_of_account_def intro!: confined_drop_account split: option.split)

definition sealed_changes :: "column_changes \<Rightarrow> bool" where
  "sealed_changes ch \<longleftrightarrow> (\<forall>(f, v) \<in> set (fst ch). \<forall>s. v = Some s \<longrightarrow> sealed_text s) \<and>
     (\<forall>ps. snd ch = Some ps \<longrightarrow> list_all (\<lambda>(k, s). sealed_text k \<and> sealed_text s) ps)"

lemma all_right_set: "all_right rs = Inr xs \<Longrightarrow> x \<in> set xs \<Longrightarrow> Inr x \<in> set rs"
  by (induction rs arbitrary: xs) (auto simp: map_sum_Inr split: sum.splits)

lemma flatten_sealed:
  assumes "flattenCredentials env rq credentials = Inr ch" "kr_key (ev_registry env) \<noteq> []"
  shows "sealed_changes ch"
proof -
  have field: "sealed_text s"
    if r: "all_right (map (seal_field env rq credentials) (enumerate 0 CREDENTIAL_FIELDS)) = Inr cols" and m: "(f, Some s) \<in> set (concat cols)" for cols f s
  proof -
    obtain col where col: "col \<in> set cols" "(f, Some s) \<in> set col" using m by auto
    then obtain x where "seal_field env rq credentials x = Inr col" using all_right_set [OF r] by force
    then show ?thesis using col(2) seal_sealed assms(2)
      by (auto simp: seal_field_def Let_def map_sum_Inr split: prod.splits option.splits if_splits)
  qed
  have pairs: "list_all (\<lambda>(k, s). sealed_text k \<and> sealed_text s) ps" if "encryptApiKeys env rq credentials = Inr ps" for ps
    unfolding list_all_iff
  proof
    fix p
    assume p: "p \<in> set ps"
    from that p obtain ks where "all_right (map (seal_pair env rq) ks) = Inr ps" by (auto simp: encryptApiKeys_def split: json.splits)
    then obtain x where "seal_pair env rq x = Inr p" using all_right_set p by force
    then show "case p of (k, s) \<Rightarrow> sealed_text k \<and> sealed_text s"
      using seal_sealed assms(2) by (auto simp: seal_pair_def split: prod.splits sum.splits)
  qed
  show ?thesis
    using assms(1) field pairs
    by (auto simp: flattenCredentials_def sealed_changes_def map_sum_Inr split: if_splits sum.splits)
qed

lemma sealed_set_columns:
  assumes "sealed_changes ch" "sealed_account a"
  shows "sealed_account (set_columns ch a)"
proof -
  have step: "list_all (\<lambda>(f, s). sealed_text s) (set_column c m)"
    if "list_all (\<lambda>(f, s). sealed_text s) m" "\<And>s. snd c = Some s \<Longrightarrow> sealed_text s" for c m
  proof (cases c)
    case (Pair f v)
    have "set (AList.update f s m) \<subseteq> insert (f, s) (set m)" for s by (induction m) auto
    moreover have "set (AList.delete f m) \<subseteq> set m" by (auto simp: AList.delete_eq)
    ultimately have "set (set_column c m) \<subseteq> set m \<union> {(f, s) |s. v = Some s}"
      using Pair by (cases v) (force simp: set_column_def)+
    then show ?thesis using that Pair by (auto simp: list_all_iff)
  qed
  have "list_all (\<lambda>(f, s). sealed_text s) (fold set_column cs m)"
    if "list_all (\<lambda>(f, s). sealed_text s) m" "\<forall>(f, v) \<in> set cs. \<forall>s. v = Some s \<longrightarrow> sealed_text s" for cs m
    using that
  proof (induction cs arbitrary: m)
    case (Cons c cs)
    have "list_all (\<lambda>(f, s). sealed_text s) (set_column c m)" using Cons.prems by (intro step) auto
    then show ?case using Cons by auto
  qed simp
  then show ?thesis
    using assms by (auto simp: sealed_account_def set_columns_def sealed_changes_def split: option.splits)
qed

text \<open>
  The form for a new account has \<open>clientSecret\<close> and \<open>accessToken\<close>, the columns have \<open>secret\<close>: what
  a client sends under the one name or the other is not stored.
\<close>

lemma client_secret_lost:
  assumes "createAccount env rq body w = (w', Answers a)"
  shows "''secret'' \<notin> set (pa_credentials a)"
proof -
  from assms obtain v ch where v: "parse_schema CreateAccountSchema body = Some v"
    and ch: "flattenCredentials env rq (get_prop v ''credentials'') = Inr ch"
    and a: "a = stripSecretFields (set_columns ch \<lparr> ac_id = ar_id rq, ac_owner = ar_owner rq, ac_name = the_text (get_prop v ''name''),
       ac_platform = the_text (get_prop v ''platform''), ac_secrets = [], ac_apiKeys = None \<rparr>)"
    by (auto simp: createAccount_def invalid_def crashed_def Let_def split: option.splits if_splits sum.splits)
  have c: "parse_optional (parse_schema BotCredentialsSchema) (get_prop body ''credentials'') = Some (get_prop v ''credentials'')"
    using object_fields [OF v [unfolded CreateAccountSchema_def z_object_def parse_schema.simps], of "''credentials''"] by simp
  have none: "get_prop (get_prop v ''credentials'') ''secret'' = JUndef"
  proof (cases "get_prop body ''credentials'' = JUndef")
    case True
    with c show ?thesis by (simp add: parse_optional_def)
  next
    case False
    with c have p: "parse_schema BotCredentialsSchema (get_prop body ''credentials'') = Some (get_prop v ''credentials'')"
      by (simp add: parse_optional_def)
    then obtain m where m: "get_prop body ''credentials'' = JObj m"
      by (auto simp: BotCredentialsSchema_def z_object_def parse_object_def split: json.splits)
    show ?thesis
      using object_rest [OF p [unfolded BotCredentialsSchema_def z_object_def parse_schema.simps m], of "''secret''"] by simp
  qed
  have cols: "jget (fold set_column cs m) ''secret'' = None" if "jget m ''secret'' = None" "\<forall>(f, s) \<in> set cs. f \<noteq> ''secret'' \<or> s = None" for cs m
    using that
  proof (induction cs arbitrary: m)
    case (Cons c cs)
    have "jget (set_column c m) ''secret'' = None" using Cons.prems by (cases c; cases "snd c") (auto simp: set_column_def)
    then show ?case using Cons by auto
  qed simp
  have "f \<noteq> ''secret'' \<or> s = None" if "(f, s) \<in> set (fst ch)" for f s
  proof -
    have "\<exists>cols. all_right (map (seal_field env rq (get_prop v ''credentials'')) (enumerate 0 CREDENTIAL_FIELDS)) = Inr cols \<and> (f, s) \<in> set (concat cols)"
      using ch that by (auto simp: flattenCredentials_def map_sum_Inr split: if_splits sum.splits)
    then obtain cols col where cols: "all_right (map (seal_field env rq (get_prop v ''credentials'')) (enumerate 0 CREDENTIAL_FIELDS)) = Inr cols"
      and col: "col \<in> set cols" "(f, s) \<in> set col" by auto
    then obtain x where "seal_field env rq (get_prop v ''credentials'') x = Inr col" using all_right_set [OF cols col(1)] by force
    then show ?thesis using none col(2) by (auto simp: seal_field_def Let_def filled_def map_sum_Inr split: prod.splits option.splits if_splits)
  qed
  then have "jget (ac_secrets (set_columns ch \<lparr> ac_id = ar_id rq, ac_owner = ar_owner rq, ac_name = the_text (get_prop v ''name''),
       ac_platform = the_text (get_prop v ''platform''), ac_secrets = [], ac_apiKeys = None \<rparr>)) ''secret'' = None"
    unfolding set_columns_def using cols [of "[]" "fst ch"] by auto
  then show ?thesis
    by (auto simp: a stripSecretFields_def collectCredentials_def split: option.splits list.splits)
qed

end
