(* ===== verification/ScriptRoutes.thy ===== *)
theory ScriptRoutes
  imports PatternLibrary BotRoutes
begin

text \<open>
  The scripts of the API, packages/api/src/routes/scripts.ts. The trigger that a test publishes to the workers is a
  part of the reply. Texts are ASCII.
\<close>

definition config_errors :: "api_env \<Rightarrow> json \<Rightarrow> string list" where
  "config_errors env = validateScriptConfig (va_net (ev_validators env)) (ev_text env) (ev_number env)"

definition is_trigger :: "json \<Rightarrow> bool" where
  "is_trigger v \<longleftrightarrow> parse_schema ScriptTriggerSchema v \<noteq> None"

definition listScripts :: "api_request \<Rightarrow> json \<Rightarrow> api_db \<Rightarrow> script_row list" where
  "listScripts rq query db = page_of query 100 1000 (filter (\<lambda>s. sc_bot s \<in> bot_ids (ar_owner rq) db) (db_scripts db))"

text \<open>A script with its bot, the whole row.\<close>

definition getScript :: "api_request \<Rightarrow> string \<Rightarrow> api_db \<Rightarrow> (script_row \<times> bot_row option) reply" where
  "getScript rq i db =
     (case own_script (ar_owner rq) i db of
        None \<Rightarrow> notFound | Some s \<Rightarrow> Answers (s, find (\<lambda>b. bt_id b = sc_bot s) (db_bots db)))"

definition testScript :: "api_request \<Rightarrow> string \<Rightarrow> json \<Rightarrow> api_world \<Rightarrow> json reply" where
  "testScript rq i body w =
     (case own_script (ar_owner rq) i (ap_db w) of
        None \<Rightarrow> notFound
      | Some s \<Rightarrow>
          (let sample = nullish_or (get_prop body ''sample'') (JObj [])
           in if \<not> is_plain_object sample then invalid
              else if \<not> jq_up (ap_queues w) then crashed
              else Answers (JObj [(''botId'', JStr (sc_bot s)), (''scriptId'', JStr (sc_id s)), (''sample'', sample)])))"

definition insert_script :: "script_row \<Rightarrow> api_world \<Rightarrow> api_world \<times> script_row reply" where
  "insert_script s w =
     (case add_script s (ap_db w) of
        None \<Rightarrow> (w, crashed)
      | Some db \<Rightarrow> (notifyScriptsChanged [sc_bot s] (w\<lparr> ap_db := db \<rparr>), Answers s))"

definition cloneScript :: "api_request \<Rightarrow> string \<Rightarrow> api_world \<Rightarrow> api_world \<times> script_row reply" where
  "cloneScript rq i w =
     (case own_script (ar_owner rq) i (ap_db w) of
        None \<Rightarrow> (w, notFound)
      | Some s \<Rightarrow> insert_script (s\<lparr> sc_id := ar_id rq, sc_name := take 100 (sc_name s @ '' (copy)''), sc_enabled := False \<rparr>) w)"

definition missing_params :: "pattern \<Rightarrow> json \<Rightarrow> string list" where
  "missing_params p params =
     map ps_key (filter (\<lambda>sp. ps_required sp \<and> get_prop params (ps_key sp) \<in> {JUndef, JNull, JStr []}) (pt_params p))"

text \<open>A value of \<open>enabled\<close> that is no boolean is refused by the database.\<close>

definition generateScript :: "api_env \<Rightarrow> api_request \<Rightarrow> json \<Rightarrow> api_world \<Rightarrow> api_world \<times> script_row reply" where
  "generateScript env rq body w =
     (case (get_prop body ''botId'', get_prop body ''name'', get_prop body ''pattern'') of
        (JStr (b # bs), JStr (n # ns), JStr (p # ps)) \<Rightarrow>
          if 100 < length (n # ns) then (w, invalid)
          else (case getPattern (p # ps) of
                  None \<Rightarrow> (w, notFound)
                | Some pat \<Rightarrow>
                    (case own_bot (ar_owner rq) (b # bs) (ap_db w) of
                       None \<Rightarrow> (w, notFound)
                     | Some bt \<Rightarrow>
                         (let params = nullish_or (get_prop body ''params'') (JObj []);
                              generated = pt_generate pat params
                          in if missing_params pat params \<noteq> [] \<or> config_errors env generated \<noteq> [] \<or>
                                \<not> is_trigger (get_prop generated ''trigger'') then (w, invalid)
                             else (case nullish_or (get_prop body ''enabled'') (JBool True) of
                                     JBool e \<Rightarrow> insert_script \<lparr> sc_id = ar_id rq, sc_bot = b # bs, sc_name = n # ns,
                                       sc_trigger = the_text (get_prop generated ''trigger''), sc_config = generated, sc_enabled = e \<rparr> w
                                   | _ \<Rightarrow> (w, crashed)))))
      | _ \<Rightarrow> (w, invalid))"

definition createScript :: "api_env \<Rightarrow> api_request \<Rightarrow> json \<Rightarrow> api_world \<Rightarrow> api_world \<times> script_row reply" where
  "createScript env rq body w =
     (case parse_schema CreateScriptSchema body of
        None \<Rightarrow> (w, invalid)
      | Some v \<Rightarrow>
          (case own_bot (ar_owner rq) (the_text (get_prop v ''botId'')) (ap_db w) of
             None \<Rightarrow> (w, notFound)
           | Some bt \<Rightarrow>
               if config_errors env (get_prop v ''config'') \<noteq> [] then (w, invalid)
               else insert_script \<lparr> sc_id = ar_id rq, sc_bot = bt_id bt, sc_name = the_text (get_prop v ''name''),
                 sc_trigger = the_text (get_prop v ''trigger''), sc_config = get_prop v ''config'',
                 sc_enabled = (get_prop v ''enabled'' \<noteq> JBool False) \<rparr> w))"

text \<open>\<open>null\<close> is a value like others here: only absent fields are left alone.\<close>

definition script_update_ok :: "api_env \<Rightarrow> json \<Rightarrow> bool" where
  "script_update_ok env body \<longleftrightarrow>
     (let config = get_prop body ''config''; name = get_prop body ''name''; enabled = get_prop body ''enabled''; trigger = get_prop body ''trigger''
      in (config \<noteq> JUndef \<longrightarrow> is_plain_object config \<and> config_errors env config = []) \<and>
         (name \<noteq> JUndef \<longrightarrow> text_between 1 100 name) \<and>
         (case enabled of JUndef \<Rightarrow> True | JBool b \<Rightarrow> True | _ \<Rightarrow> False) \<and> (trigger \<noteq> JUndef \<longrightarrow> is_trigger trigger))"

definition script_update :: "json \<Rightarrow> script_row \<Rightarrow> script_row" where
  "script_update body s = s\<lparr>
     sc_name := (case get_prop body ''name'' of JStr n \<Rightarrow> n | _ \<Rightarrow> sc_name s),
     sc_trigger := (case get_prop body ''trigger'' of JStr t \<Rightarrow> t | _ \<Rightarrow> sc_trigger s),
     sc_config := (if get_prop body ''config'' = JUndef then sc_config s else get_prop body ''config''),
     sc_enabled := (case get_prop body ''enabled'' of JBool e \<Rightarrow> e | _ \<Rightarrow> sc_enabled s) \<rparr>"

definition updateScript :: "api_env \<Rightarrow> api_request \<Rightarrow> string \<Rightarrow> json \<Rightarrow> api_world \<Rightarrow> api_world \<times> script_row reply" where
  "updateScript env rq i body w =
     (case own_script (ar_owner rq) i (ap_db w) of
        None \<Rightarrow> (w, notFound)
      | Some s \<Rightarrow>
          if \<not> script_update_ok env body then (w, invalid)
          else (notifyScriptsChanged [sc_bot s] (on_db (update_script i (script_update body)) w), Answers (script_update body s)))"

definition deleteScript :: "api_request \<Rightarrow> string \<Rightarrow> api_world \<Rightarrow> api_world \<times> unit reply" where
  "deleteScript rq i w =
     (case own_script (ar_owner rq) i (ap_db w) of
        None \<Rightarrow> (w, notFound)
      | Some s \<Rightarrow> (notifyScriptsChanged [sc_bot s] (on_db (drop_script i) w), Answers ()))"

section \<open>Stored scripts have been checked\<close>

definition script_checked :: "api_env \<Rightarrow> script_row \<Rightarrow> bool" where
  "script_checked env s \<longleftrightarrow> config_errors env (sc_config s) = [] \<and> is_trigger (JStr (sc_trigger s)) \<and> length (sc_name s) \<le> 100"

definition scripts_checked :: "api_env \<Rightarrow> api_db \<Rightarrow> bool" where
  "scripts_checked env db \<longleftrightarrow> list_all (script_checked env) (db_scripts db)"

lemma own_script_bot: "own_script u i db = Some s \<Longrightarrow> sc_bot s \<in> bot_ids u db"
  using own_script_SomeD by blast

lemma own_bot_bt_id: "own_bot u i db = Some b \<Longrightarrow> bt_id b \<in> bot_ids u db"
  using own_bot_id own_bot_SomeD by fastforce

lemma isolated_insert: "sc_bot s \<in> bot_ids u (ap_db w) \<Longrightarrow> isolated u w (insert_script s w)"
  by (auto simp: insert_script_def isolated_def intro: confined_add_script split: option.split)

lemma isolated_clone: "isolated (ar_owner rq) w (cloneScript rq i w)"
  by (auto simp: cloneScript_def intro!: isolated_insert dest: own_script_bot split: option.split)

lemma isolated_generate: "isolated (ar_owner rq) w (generateScript env rq body w)"
  by (auto simp: generateScript_def Let_def intro!: isolated_insert own_bot_id split: json.split list.split option.split)

lemma isolated_create_script: "isolated (ar_owner rq) w (createScript env rq body w)"
  by (auto simp: createScript_def intro!: isolated_insert dest: own_bot_bt_id split: option.split)

lemma isolated_update_script: "isolated (ar_owner rq) w (updateScript env rq i body w)"
  by (auto simp: updateScript_def isolated_def script_update_def intro!: confined_update_script split: option.split)

lemma isolated_delete_script: "isolated (ar_owner rq) w (deleteScript rq i w)"
  by (auto simp: deleteScript_def isolated_def intro!: confined_drop_script split: option.split)

lemma schema_field:
  assumes "parse_schema (ZObject pass shape ok) v = Some v'" "map_of shape k = Some s" "distinct (map fst shape)"
  shows "parse_schema s (get_prop v k) = Some (get_prop v' k)"
proof -
  have "map_of (map (map_prod id parse_schema) shape) k = Some (parse_schema s)"
    using assms(2) by (induction shape) auto
  moreover have "map fst (map (map_prod id parse_schema) shape) = map fst shape" by simp
  ultimately show ?thesis using object_fields [OF assms(1) [unfolded parse_schema.simps]] assms(3) by force
qed

lemma checked_insert:
  "scripts_checked env (ap_db w) \<Longrightarrow> script_checked env s \<Longrightarrow> scripts_checked env (ap_db (fst (insert_script s w)))"
  by (auto simp: insert_script_def scripts_checked_def add_script_def split: option.split)

lemma trigger_text: "is_trigger v \<Longrightarrow> \<exists>s. v = JStr s"
  by (cases v) (auto simp: is_trigger_def ScriptTriggerSchema_def parse_enum_def)

lemma own_script_checked: "scripts_checked env db \<Longrightarrow> own_script u i db = Some s \<Longrightarrow> script_checked env s"
  using own_script_SomeD by (fastforce simp: scripts_checked_def list_all_iff)

lemma trigger_the_text: "is_trigger v \<Longrightarrow> is_trigger (JStr (the_text v))"
  using trigger_text by force

lemma checked_clone:
  assumes "scripts_checked env (ap_db w)"
  shows "scripts_checked env (ap_db (fst (cloneScript rq i w)))"
proof (cases "own_script (ar_owner rq) i (ap_db w)")
  case (Some s)
  have "script_checked env (s\<lparr> sc_id := ar_id rq, sc_name := take 100 (sc_name s @ '' (copy)''), sc_enabled := False \<rparr>)"
    using own_script_checked [OF assms Some] by (simp add: script_checked_def del: take_append)
  from checked_insert [OF assms this] Some show ?thesis by (simp add: cloneScript_def)
qed (simp add: cloneScript_def assms)

lemma checked_generate: "scripts_checked env (ap_db w) \<Longrightarrow> scripts_checked env (ap_db (fst (generateScript env rq body w)))"
  by (auto simp: generateScript_def Let_def intro!: checked_insert simp: script_checked_def trigger_the_text split: json.split list.split option.split)

lemma checked_create: 
  assumes "scripts_checked env (ap_db w)"
  shows "scripts_checked env (ap_db (fst (createScript env rq body w)))"
proof -
  have "is_trigger (JStr (the_text (get_prop v ''trigger''))) \<and> length (the_text (get_prop v ''name'')) \<le> 100"
    if "parse_schema CreateScriptSchema body = Some v" for v
  proof -
    note f = schema_field [OF that [unfolded CreateScriptSchema_def z_object_def]]
    have t: "parse_schema ScriptTriggerSchema (get_prop body ''trigger'') = Some (get_prop v ''trigger'')"
      by (rule f) simp_all
    have n: "parse_schema (z_text 1 100) (get_prop body ''name'') = Some (get_prop v ''name'')"
      by (rule f) simp_all
    have "is_trigger (get_prop v ''trigger'')"
      using t by (auto simp: is_trigger_def ScriptTriggerSchema_def parse_enum_def split: json.splits if_splits)
    moreover have "length (the_text (get_prop v ''name'')) \<le> 100"
      using n by (cases "get_prop body ''name''"; cases "get_prop v ''name''") (auto simp: z_text_def parse_string_def up_to_def split: if_splits)
    ultimately show ?thesis by (simp add: trigger_the_text)
  qed
  then show ?thesis
    using assms by (auto simp: createScript_def intro!: checked_insert simp: script_checked_def split: option.split)
qed

lemma checked_update:
  assumes "scripts_checked env (ap_db w)"
  shows "scripts_checked env (ap_db (fst (updateScript env rq i body w)))"
proof -
  have "script_checked env (script_update body s)" if "script_checked env s" "script_update_ok env body" for s
  proof -
    have "config_errors env (sc_config (script_update body s)) = []"
      using that by (simp add: script_checked_def script_update_def script_update_ok_def Let_def)
    moreover have "is_trigger (JStr (sc_trigger (script_update body s)))"
      using that trigger_text [of "get_prop body ''trigger''"]
      by (cases "get_prop body ''trigger'' = JUndef") (auto simp: script_checked_def script_update_def script_update_ok_def Let_def)
    moreover have "length (sc_name (script_update body s)) \<le> 100"
      using that by (cases "get_prop body ''name''") (auto simp: script_checked_def script_update_def script_update_ok_def Let_def text_between_def)
    ultimately show ?thesis by (simp add: script_checked_def)
  qed
  then have "scripts_checked env (update_script i (script_update body) (ap_db w))" if "script_update_ok env body"
    using assms that by (simp add: scripts_checked_def update_script_def list_all_change)
  then show ?thesis using assms by (auto simp: updateScript_def split: option.split)
qed

lemma checked_delete: "scripts_checked env (ap_db w) \<Longrightarrow> scripts_checked env (ap_db (fst (deleteScript rq i w)))"
  by (auto simp: deleteScript_def drop_script_def scripts_checked_def list_all_filter split: option.split)

text \<open>With its script a client gets the whole row of the bot, config and encrypted wallet key included.\<close>

lemma script_shows_bot:
  assumes "db_ok db" "own_script (ar_owner rq) i db = Some s"
  shows "\<exists>b. getScript rq i db = Answers (s, Some b) \<and> b \<in> set (db_bots db)"
proof -
  have "sc_bot s \<in> bot_ids (ar_owner rq) db" using own_script_bot [OF assms(2)] .
  then obtain b where "find (\<lambda>b. bt_id b = sc_bot s) (db_bots db) = Some b"
    by (cases "find (\<lambda>b. bt_id b = sc_bot s) (db_bots db)") (auto simp: in_bot_ids find_None_iff)
  then show ?thesis using assms(2) by (auto simp: getScript_def find_Some_iff)
qed

end
