(* ===== verification/WebhookRoutes.thy ===== *)
theory WebhookRoutes
  imports WebhookGuard BotRoutes
begin

text \<open>
  The webhooks of the API, packages/api/src/routes/webhooks.ts. The two networks of a test are the network as the
  check and as the delivery find it; the text of an error is an argument. Texts are ASCII, error texts are strings
  of 16 bit units.
\<close>

section \<open>Input\<close>

definition validateEvents :: "json \<Rightarrow> bool" where
  "validateEvents v \<longleftrightarrow> (case v of
      JArr es \<Rightarrow> es \<noteq> [] \<and> list_all (\<lambda>e. case e of JStr s \<Rightarrow> s \<in> set WEBHOOK_EVENT_TYPES | _ \<Rightarrow> False) es
    | _ \<Rightarrow> False)"

definition text_or_null :: "json \<Rightarrow> bool" where
  "text_or_null v \<longleftrightarrow> nullish v \<or> is_string v"

text \<open>The first field that is wrong.\<close>

definition fieldErrors :: "api_env \<Rightarrow> json \<Rightarrow> string option" where
  "fieldErrors env body =
     (if \<not> (case get_prop body ''name'' of JStr s \<Rightarrow> trim_text s \<noteq> [] | _ \<Rightarrow> False) then Some ''name''
      else if \<not> (case get_prop body ''url'' of JStr u \<Rightarrow> isWebhookUrlAllowed (va_net (ev_validators env)) u | _ \<Rightarrow> False) then Some ''url''
      else if \<not> validateEvents (get_prop body ''events'') then Some ''events''
      else if \<not> text_or_null (get_prop body ''botId'') then Some ''botId''
      else if \<not> text_or_null (get_prop body ''secret'') then Some ''secret''
      else if \<not> (case get_prop body ''enabled'' of JUndef \<Rightarrow> True | JBool b \<Rightarrow> True | _ \<Rightarrow> False) then Some ''enabled''
      else None)"

fun event_names :: "json \<Rightarrow> string list" where
  "event_names (JArr es) = map the_text es"
| "event_names _ = []"

definition sanitizeErrorMessage :: "ustring \<Rightarrow> ustring" where
  "sanitizeErrorMessage m = take 300 (js_trim (stripControlChars m))"

definition ascii_units :: "string \<Rightarrow> ustring" where
  "ascii_units s = map (\<lambda>c. of_nat (of_char c)) s"

definition lastErrorSafe :: "ustring \<Rightarrow> ustring" where
  "lastErrorSafe m = (let t = sanitizeErrorMessage m in if t = [] then ascii_units ''delivery failed'' else t)"

text \<open>A row without its secret, and whether there is one.\<close>

definition publicWebhook :: "webhook_row \<Rightarrow> webhook_row \<times> bool" where
  "publicWebhook h = (h\<lparr> wh_secret := None \<rparr>, wh_secret h \<noteq> None \<and> wh_secret h \<noteq> Some [])"

definition text_json :: "string option \<Rightarrow> json" where
  "text_json v = (case v of None \<Rightarrow> JNull | Some s \<Rightarrow> JStr s)"

definition webhook_json :: "webhook_row \<Rightarrow> (string \<times> json) list" where
  "webhook_json h = [(''id'', JStr (wh_id h)), (''ownerId'', JStr (wh_owner h)), (''name'', JStr (wh_name h)), (''url'', JStr (wh_url h)),
     (''events'', JArr (map JStr (wh_events h))), (''botId'', text_json (wh_bot h)), (''secret'', text_json (wh_secret h)),
     (''enabled'', JBool (wh_enabled h))]"

section \<open>Routes\<close>

definition listWebhooks :: "api_request \<Rightarrow> json \<Rightarrow> api_db \<Rightarrow> (webhook_row \<times> bool) list" where
  "listWebhooks rq query db = map publicWebhook (page_of query 100 1000 (filter (\<lambda>h. wh_owner h = ar_owner rq) (db_webhooks db)))"

definition foreign_bot :: "api_request \<Rightarrow> json \<Rightarrow> api_db \<Rightarrow> bool" where
  "foreign_bot rq v db \<longleftrightarrow> (case v of JStr (c # cs) \<Rightarrow> own_bot (ar_owner rq) (c # cs) db = None | _ \<Rightarrow> False)"

definition createWebhook :: "api_env \<Rightarrow> api_request \<Rightarrow> json \<Rightarrow> api_world \<Rightarrow> api_world \<times> (webhook_row \<times> bool) reply" where
  "createWebhook env rq body w =
     (if nullish body then (w, crashed)
      else if fieldErrors env body \<noteq> None then (w, invalid)
      else if foreign_bot rq (get_prop body ''botId'') (ap_db w) then (w, invalid)
      else if checkQuota (usage (ar_owner rq) (ap_db w)) Webhooks (ev_limits env) \<noteq> Inr () then (w, Rejects 429 ''QUOTA_EXCEEDED'')
      else case sealed env (ar_iv rq 0) (text_or_none (get_prop body ''secret'')) of
             Inl e \<Rightarrow> (w, crashed)
           | Inr secret \<Rightarrow>
               (let h = \<lparr> wh_id = ar_id rq, wh_owner = ar_owner rq, wh_name = trim_text (the_text (get_prop body ''name'')),
                      wh_url = the_text (get_prop body ''url''), wh_events = event_names (get_prop body ''events''),
                      wh_bot = text_or_none (get_prop body ''botId''), wh_secret = secret,
                      wh_enabled = (get_prop body ''enabled'' \<noteq> JBool False), wh_deliveryCount = 0,
                      wh_lastStatus = None, wh_lastError = None, wh_lastDeliveredAt = None \<rparr>
                in case add_webhook h (ap_db w) of
                     None \<Rightarrow> (w, crashed)
                   | Some db \<Rightarrow> (w\<lparr> ap_db := db \<rparr>, Answers (publicWebhook h))))"

definition webhook_update :: "json \<Rightarrow> string option \<Rightarrow> webhook_row \<Rightarrow> webhook_row" where
  "webhook_update body secret h = h\<lparr>
     wh_name := (case get_prop body ''name'' of JStr s \<Rightarrow> s | _ \<Rightarrow> wh_name h),
     wh_url := (case get_prop body ''url'' of JStr s \<Rightarrow> s | _ \<Rightarrow> wh_url h),
     wh_events := (if get_prop body ''events'' = JUndef then wh_events h else event_names (get_prop body ''events'')),
     wh_bot := (if get_prop body ''botId'' = JUndef then wh_bot h else text_or_none (get_prop body ''botId'')),
     wh_secret := (if get_prop body ''secret'' = JUndef then wh_secret h else secret),
     wh_enabled := (case get_prop body ''enabled'' of JBool e \<Rightarrow> e | _ \<Rightarrow> wh_enabled h) \<rparr>"

definition updateWebhook :: "api_env \<Rightarrow> api_request \<Rightarrow> string \<Rightarrow> json \<Rightarrow> api_world \<Rightarrow> api_world \<times> (webhook_row \<times> bool) reply" where
  "updateWebhook env rq i body w =
     (case own_webhook (ar_owner rq) i (ap_db w) of
        None \<Rightarrow> (w, notFound)
      | Some h \<Rightarrow>
          if fieldErrors env (JObj (spread (webhook_json h) (object_entries body))) \<noteq> None then (w, invalid)
          else if nullish body then (w, crashed)
          else if foreign_bot rq (get_prop body ''botId'') (ap_db w) then (w, invalid)
          else case sealed env (ar_iv rq 0) (text_or_none (get_prop body ''secret'')) of
                 Inl e \<Rightarrow> (w, crashed)
               | Inr secret \<Rightarrow>
                   if \<not> bot_known (wh_bot (webhook_update body secret h)) (ap_db w) then (w, crashed)
                   else (on_db (update_webhook i (webhook_update body secret)) w, Answers (publicWebhook (webhook_update body secret h))))"

definition deleteWebhook :: "api_request \<Rightarrow> string \<Rightarrow> api_world \<Rightarrow> api_world \<times> unit reply" where
  "deleteWebhook rq i w =
     (case own_webhook (ar_owner rq) i (ap_db w) of
        None \<Rightarrow> (w, notFound) | Some h \<Rightarrow> (on_db (drop_webhook i) w, Answers ()))"

definition listDeliveries :: "api_request \<Rightarrow> string \<Rightarrow> json \<Rightarrow> api_db \<Rightarrow> delivery_row list reply" where
  "listDeliveries rq i query db =
     (case own_webhook (ar_owner rq) i db of
        None \<Rightarrow> notFound
      | Some h \<Rightarrow> Answers (page_of query 50 200 (filter (\<lambda>d. dl_webhook d = i) (db_deliveries db))))"

section \<open>Test deliveries\<close>

text \<open>What one attempt leaves in the row of the webhook and in its history.\<close>

definition delivered :: "ms \<Rightarrow> webhook_row \<Rightarrow> webhook_row" where
  "delivered now h = h\<lparr> wh_lastStatus := Some ''ok'', wh_lastError := None, wh_lastDeliveredAt := Some now,
     wh_deliveryCount := wh_deliveryCount h + 1 \<rparr>"

definition undelivered :: "ms \<Rightarrow> ustring \<Rightarrow> webhook_row \<Rightarrow> webhook_row" where
  "undelivered now m h = h\<lparr> wh_lastStatus := Some ''failed'', wh_lastError := Some m, wh_lastDeliveredAt := Some now \<rparr>"

definition history_row :: "string \<Rightarrow> string \<Rightarrow> string option \<Rightarrow> nat \<Rightarrow> ms \<Rightarrow> ms \<Rightarrow> string \<Rightarrow> nat option \<Rightarrow> ustring option \<Rightarrow> delivery_row" where
  "history_row i eventType b attempt began now status code err =
     \<lparr> dl_webhook = i, dl_eventType = eventType, dl_bot = b, dl_status = status, dl_statusCode = code, dl_attempt = attempt,
       dl_error = err, dl_latencyMs = now - began, dl_createdAt = now \<rparr>"

fun error_status :: "guard_error \<Rightarrow> nat option" where
  "error_status (BadStatus n) = Some n"
| "error_status _ = None"

definition test_event :: "json \<Rightarrow> string" where
  "test_event body = (case get_prop body ''eventType'' of JStr s \<Rightarrow> if trim_text s = [] then ''test'' else trim_text s | _ \<Rightarrow> ''test'')"

definition test_outcome :: "net \<Rightarrow> net \<Rightarrow> string \<Rightarrow> guard_error + unit" where
  "test_outcome checked sent url =
     (case assertWebhookUrlAllowed checked 0 url of Inl e \<Rightarrow> Inl e | Inr _ \<Rightarrow> snd (deliverWebhook sent url))"

definition testWebhook ::
  "(guard_error \<Rightarrow> ustring) \<Rightarrow> net \<Rightarrow> net \<Rightarrow> api_request \<Rightarrow> ms \<Rightarrow> string \<Rightarrow> json \<Rightarrow> api_world \<Rightarrow> api_world \<times> unit reply" where
  "testWebhook show_err checked sent rq later i body w =
     (case own_webhook (ar_owner rq) i (ap_db w) of
        None \<Rightarrow> (w, notFound)
      | Some h \<Rightarrow>
          if \<not> is_plain_object (nullish_or (get_prop body ''sample'') (JObj [])) then (w, invalid)
          else (let row = history_row i (test_event body) (wh_bot h) 1 (ar_now rq) later
                in case test_outcome checked sent (wh_url h) of
                     Inr _ \<Rightarrow> (on_db (add_delivery (row ''ok'' (Some 200) None) \<circ> update_webhook i (delivered later)) w, Answers ())
                   | Inl e \<Rightarrow>
                       (let m = lastErrorSafe (show_err e)
                        in (on_db (add_delivery (row ''failed'' (error_status e) (Some m)) \<circ> update_webhook i (undelivered later m)) w,
                            Rejects 502 ''WEBHOOK_DELIVERY_FAILED''))))"

section \<open>Isolation and secrets\<close>

lemma hook_bot_own:
  assumes "text_or_none v = Some b" "\<not> foreign_bot rq v db" "bot_known (Some b) db" "db_ok db"
  shows "b \<in> bot_ids (ar_owner rq) db"
proof (cases b)
  case Nil
  then show ?thesis using assms(3,4) by (auto simp: bot_known_def db_ok_def)
next
  case (Cons c cs)
  with assms(1) have "v = JStr (c # cs)" by (auto simp: text_or_none_def split: json.splits)
  then show ?thesis using assms(2) Cons own_bot_id by (auto simp: foreign_bot_def)
qed

lemma isolated_create_webhook: "isolated (ar_owner rq) w (createWebhook env rq body w)"
proof -
  have "confined (ar_owner rq) (ap_db w) db"
    if "add_webhook h (ap_db w) = Some db" "wh_owner h = ar_owner rq" "wh_bot h = text_or_none v" "\<not> foreign_bot rq v (ap_db w)" for h db v
    using that hook_bot_own [OF _ that(4)]
    by (intro confined_add_webhook [OF that(1,2)]) (auto simp: add_webhook_def split: if_splits)
  then show ?thesis
    by (auto simp: createWebhook_def isolated_def Let_def split: sum.split option.split)
qed

lemma isolated_update_webhook: "isolated (ar_owner rq) w (updateWebhook env rq i body w)"
proof -
  have "confined (ar_owner rq) (ap_db w) (update_webhook i (webhook_update body secret) (ap_db w))"
    if own: "own_webhook (ar_owner rq) i (ap_db w) = Some h" and f: "\<not> foreign_bot rq (get_prop body ''botId'') (ap_db w)"
      and k: "bot_known (wh_bot (webhook_update body secret h)) (ap_db w)" for h secret
  proof (rule confined_update_webhook)
    show "own_webhook (ar_owner rq) i (ap_db w) \<noteq> None" using own by simp
    show "\<And>h. wh_id (webhook_update body secret h) = wh_id h \<and> wh_owner (webhook_update body secret h) = wh_owner h"
      by (simp add: webhook_update_def)
    fix h' b
    assume ok: "db_ok (ap_db w)" and h': "h' \<in> set (db_webhooks (ap_db w))" "wh_id h' = i" "wh_bot (webhook_update body secret h') = Some b"
    have "h' = h" using own_webhook_SomeD [OF own] unique_row [OF db_okD(4) [OF ok], of h' h] h' by simp
    then show "wh_bot h' = Some b \<or> b \<in> bot_ids (ar_owner rq) (ap_db w)"
      using h' k hook_bot_own [OF _ f _ ok] by (auto simp: webhook_update_def split: if_splits)
  qed
  then show ?thesis
    by (auto simp: updateWebhook_def isolated_def split: option.split sum.split)
qed

lemma isolated_delete_webhook: "isolated (ar_owner rq) w (deleteWebhook rq i w)"
  by (auto simp: deleteWebhook_def isolated_def intro!: confined_drop_webhook split: option.split)

lemma confined_attempt:
  assumes "own_webhook u i db = Some h" "\<And>h. wh_id (f h) = wh_id h \<and> wh_owner (f h) = wh_owner h \<and> wh_bot (f h) = wh_bot h" "dl_webhook d = i"
  shows "confined u db (add_delivery d (update_webhook i f db))"
proof (rule confined_trans)
  show "confined u db (update_webhook i f db)" using assms by (intro confined_update_webhook) auto
  have "i \<in> hook_ids u db" using own_webhook_SomeD [OF assms(1)] by (auto simp: in_hook_ids)
  then have "i \<in> hook_ids u (update_webhook i f db)" by (simp add: hook_ids_keys update_webhook_def assms(2))
  then show "confined u (update_webhook i f db) (add_delivery d (update_webhook i f db))"
    using assms(3) by (intro confined_add_delivery) simp
qed

lemma isolated_test_webhook: "isolated (ar_owner rq) w (testWebhook show_err checked sent rq later i body w)"
  by (auto simp: testWebhook_def isolated_def Let_def history_row_def delivered_def undelivered_def intro!: confined_attempt
      split: option.split sum.split)

text \<open>A name is trimmed when a webhook is made, not when it is changed.\<close>

lemma name_not_trimmed:
  "get_prop body ''name'' = JStr s \<Longrightarrow> wh_name (webhook_update body secret h) = s"
  by (simp add: webhook_update_def)

text \<open>A secret that cannot be decrypted is no secret for the delivery: it goes out without a signature.\<close>

lemma unsigned_delivery:
  "decryptCredential c reg (Some s) = None \<Longrightarrow> webhook_headers hmac (decryptCredential c reg (Some s)) body =
     [(''content-type'', ''application/json''), (''user-agent'', ''BotHive/1.0''), (''accept'', ''application/json'')]"
  by (simp add: webhook_headers_def)

end
