(* ===== verification/EventRoutes.thy ===== *)
theory EventRoutes
  imports Contracts BotRoutes
begin

text \<open>
  The store of events, the bulk operations, the dead letters and the sweeps of the API:
  packages/api/src/routes/events.ts, bulk.ts and queues.ts, and log-cleanup.ts, event-cleanup.ts and dlq-cleanup.ts of
  packages/api/src/services. Replays, deletions of events and all of the bulk operations are for administrators;
  bulk operations are on the bots and scripts of everyone.
\<close>

section \<open>Events\<close>

definition chosen :: "json \<Rightarrow> string \<Rightarrow> bool" where
  "chosen v s \<longleftrightarrow> chosen_text v (\<lambda>t. s = t)"

definition own_events :: "string \<Rightarrow> api_db \<Rightarrow> event_row list" where
  "own_events u db = filter (\<lambda>e. er_bot e \<in> bot_ids u db) (db_events db)"

definition event_stats :: "api_request \<Rightarrow> api_db \<Rightarrow> nat \<times> nat \<times> (string \<times> nat) list \<times> (string \<times> nat) list" where
  "event_stats rq db =
     (let es = own_events (ar_owner rq) db
      in (length es, amount (\<lambda>e. 0 < er_replayCount e) es, group_count er_type es, group_count er_platform es))"

definition listEvents :: "api_request \<Rightarrow> json \<Rightarrow> api_db \<Rightarrow> event_row list \<times> nat" where
  "listEvents rq query db =
     (let es = filter (\<lambda>e. chosen (get_prop query ''botId'') (er_bot e) \<and> chosen (get_prop query ''platform'') (er_platform e) \<and>
            chosen (get_prop query ''type'') (er_type e)) (own_events (ar_owner rq) db)
      in (page_of query 100 1000 es, length es))"

definition getEvent :: "api_request \<Rightarrow> string \<Rightarrow> api_db \<Rightarrow> event_row reply" where
  "getEvent rq i db = (case own_event (ar_owner rq) i db of None \<Rightarrow> notFound | Some e \<Rightarrow> Answers e)"

text \<open>The envelope has the time at which the event was stored.\<close>

definition replay_envelope :: "(ms \<Rightarrow> string) \<Rightarrow> event_row \<Rightarrow> json" where
  "replay_envelope date e = JObj [(''botId'', JStr (er_bot e)), (''platform'', JStr (er_platform e)), (''type'', JStr (er_type e)),
     (''v'', JNum (jint (er_version e))), (''eventId'', JStr (er_eventId e)), (''payload'', nullish_or (er_payload e) (JObj [])),
     (''timestamp'', JStr (date (er_createdAt e)))]"

definition replayed :: "ms \<Rightarrow> event_row \<Rightarrow> event_row" where
  "replayed now e = e\<lparr> er_replayCount := er_replayCount e + 1, er_lastReplayedAt := Some now \<rparr>"

definition replayEvent ::
  "(string \<Rightarrow> string \<Rightarrow> contract option) \<Rightarrow> api_env \<Rightarrow> api_request \<Rightarrow> string \<Rightarrow> api_world \<Rightarrow> api_world \<times> unit reply" where
  "replayEvent inherited env rq i w =
     (case own_event (ar_owner rq) i (ap_db w) of
        None \<Rightarrow> (w, notFound)
      | Some e \<Rightarrow>
          if assertContractSupported inherited (er_platform e) (er_type e) (jint (er_version e)) \<noteq> Inr ()
          then (w, Rejects 422 ''UNSUPPORTED_CONTRACT'')
          else (case queued (enqueueEventReplay (ar_now rq) (ar_nonce rq) (er_platform e) (er_bot e) (er_eventId e)
                       (replay_envelope (ev_date env) e)) w of
                  None \<Rightarrow> (w, crashed)
                | Some w \<Rightarrow> (on_db (update_event i (replayed (ar_now rq))) w, Answers ())))"

definition deleteEvent :: "api_request \<Rightarrow> string \<Rightarrow> api_world \<Rightarrow> api_world \<times> unit reply" where
  "deleteEvent rq i w =
     (case own_event (ar_owner rq) i (ap_db w) of
        None \<Rightarrow> (w, notFound) | Some e \<Rightarrow> (on_db (drop_event i) w, Answers ()))"

lemma isolated_replay_event: "isolated (ar_owner rq) w (replayEvent inherited env rq i w)"
proof -
  have "er_bot e \<in> bot_ids (ar_owner rq) (ap_db w)" if "own_event (ar_owner rq) i (ap_db w) = Some e" for e
    using own_event_SomeD [OF that] by simp
  then show ?thesis
    by (auto simp: replayEvent_def isolated_def replayed_def dest!: queued_SomeD
        intro!: confined_update_event own_jobs_enqueue(4) split: option.split)
qed

lemma isolated_delete_event: "isolated (ar_owner rq) w (deleteEvent rq i w)"
  by (auto simp: deleteEvent_def isolated_def intro!: confined_drop_event split: option.split)

section \<open>Bulk operations\<close>

datatype bot_bulk = BulkStart | BulkStop | BulkRestart | BulkDelete

datatype script_bulk = BulkEnable | BulkDisable | BulkRemove

datatype bulk_status = BulkQueued | BulkDeleted | BulkUpdated | BulkMissing | BulkFailed

definition bulk_ids :: "json \<Rightarrow> json list option" where
  "bulk_ids body =
     (case get_prop body ''ids'' of JArr xs \<Rightarrow> if xs \<noteq> [] \<and> length xs \<le> 100 then Some xs else None | _ \<Rightarrow> None)"

definition bot_action :: "json \<Rightarrow> bot_bulk option" where
  "bot_action body = (case get_prop body ''action'' of JStr s \<Rightarrow>
     map_of [(''start'', BulkStart), (''stop'', BulkStop), (''restart'', BulkRestart), (''delete'', BulkDelete)] s | _ \<Rightarrow> None)"

definition script_action :: "json \<Rightarrow> script_bulk option" where
  "script_action body = (case get_prop body ''action'' of JStr s \<Rightarrow>
     map_of [(''enable'', BulkEnable), (''disable'', BulkDisable), (''delete'', BulkRemove)] s | _ \<Rightarrow> None)"

text \<open>The status is written first; where the queue throws, the item is reported as failed.\<close>

definition or_failed :: "api_world \<Rightarrow> bulk_status \<Rightarrow> api_world option \<Rightarrow> api_world \<times> bulk_status" where
  "or_failed w st r = (case r of None \<Rightarrow> (w, BulkFailed) | Some w \<Rightarrow> (w, st))"

definition bulk_bot :: "ms \<Rightarrow> bot_bulk \<Rightarrow> json \<Rightarrow> api_world \<Rightarrow> api_world \<times> bulk_status" where
  "bulk_bot now action v w =
     (case v of
        JStr i \<Rightarrow>
          (case find_bot i (ap_db w) of
             None \<Rightarrow> (w, BulkMissing)
           | Some b \<Rightarrow>
               (case action of
                  BulkStart \<Rightarrow> (let w = set_status now i ''connecting'' w
                                in or_failed w BulkQueued (queued (enqueueConnect now i (bt_platform b)) w))
                | BulkStop \<Rightarrow> (let w = set_status now i ''idle'' w
                               in or_failed w BulkQueued (queued (enqueueDisconnect now i (bt_platform b)) w))
                | BulkRestart \<Rightarrow> (let w = set_status now i ''reconnecting'' w
                                  in or_failed w BulkQueued (case getQueue (bt_platform b) of
                                       None \<Rightarrow> None | Some q \<Rightarrow> queued (add_job q (restart_job now i)) w))
                | BulkDelete \<Rightarrow>
                    (let w = best_effort (queued (enqueueDisconnect now i (bt_platform b))) (on_db (drop_bot i) w)
                     in (case redis_up w of
                           None \<Rightarrow> w | Some db \<Rightarrow> w\<lparr> ap_redis := fst (deleteBotRuntimeState now i db) \<rparr>, BulkDeleted))))
      | _ \<Rightarrow> (w, BulkFailed))"

fun bulk_each :: "('i \<Rightarrow> api_world \<Rightarrow> api_world \<times> bulk_status) \<Rightarrow> 'i list \<Rightarrow> api_world \<Rightarrow> api_world \<times> ('i \<times> bulk_status) list" where
  "bulk_each f [] w = (w, [])"
| "bulk_each f (v # vs) w = (case f v w of (w, st) \<Rightarrow> (case bulk_each f vs w of (w, rs) \<Rightarrow> (w, (v, st) # rs)))"

definition bulkBots :: "ms \<Rightarrow> json \<Rightarrow> api_world \<Rightarrow> api_world \<times> (json \<times> bulk_status) list reply" where
  "bulkBots now body w =
     (case (bulk_ids body, bot_action body) of
        (Some vs, Some action) \<Rightarrow>
          (case bulk_each (bulk_bot now action) vs w of
             (w, rs) \<Rightarrow>
               (let gone = remdups (map (the_text \<circ> fst) (filter (\<lambda>r. snd r = BulkDeleted) rs))
                in (if gone = [] then w else notifyScriptsChanged gone w, Answers rs)))
      | _ \<Rightarrow> (w, Rejects 400 ''BAD_REQUEST''))"

definition bulk_script :: "script_bulk \<Rightarrow> json \<Rightarrow> api_world \<Rightarrow> api_world \<times> bulk_status" where
  "bulk_script action v w =
     (case v of
        JStr i \<Rightarrow>
          (case find (\<lambda>s. sc_id s = i) (db_scripts (ap_db w)) of
             None \<Rightarrow> (w, BulkMissing)
           | Some s \<Rightarrow>
               if action = BulkRemove then (on_db (drop_script i) w, BulkDeleted)
               else (on_db (update_script i (\<lambda>s. s\<lparr> sc_enabled := (action = BulkEnable) \<rparr>)) w, BulkUpdated))
      | _ \<Rightarrow> (w, BulkFailed))"

text \<open>The bots of the scripts, in the world before.\<close>

definition bot_of_script :: "json \<Rightarrow> api_db \<Rightarrow> string list" where
  "bot_of_script v db = map sc_bot (filter (\<lambda>s. v = JStr (sc_id s)) (db_scripts db))"

definition bulkScripts :: "json \<Rightarrow> api_world \<Rightarrow> api_world \<times> (json \<times> bulk_status) list reply" where
  "bulkScripts body w =
     (case (bulk_ids body, script_action body) of
        (Some vs, Some action) \<Rightarrow>
          (case bulk_each (bulk_script action) vs w of
             (w', rs) \<Rightarrow> (notifyScriptsChanged (remdups (concat (map (\<lambda>(v, st).
                 if st \<in> {BulkDeleted, BulkUpdated} then bot_of_script v (ap_db w) else []) rs))) w', Answers rs))
      | _ \<Rightarrow> (w, Rejects 400 ''BAD_REQUEST''))"

lemma bulk_each_ids: "bulk_each f vs w = (w', rs) \<Longrightarrow> map fst rs = vs"
  by (induction vs arbitrary: w w' rs) (auto split: prod.splits)

lemma bulk_reply: "bulkBots now body w = (w', Answers rs) \<Longrightarrow> bulk_ids body = Some (map fst rs)"
  by (auto simp: bulkBots_def Let_def dest: bulk_each_ids split: option.splits prod.splits)

text \<open>When no script was changed, the workers are still told to load all of them again.\<close>

lemma bulk_reloads_all:
  assumes "bulk_ids body = Some [v]" "script_action body = Some action" "bulk_script action v w = (w, BulkMissing)" "jq_up (ap_queues w)"
  shows "bulkScripts body w = (w\<lparr> ap_notices := ap_notices w @ [[]] \<rparr>, Answers [(v, BulkMissing)])"
  using assms by (simp add: bulkScripts_def notifyScriptsChanged_def)

text \<open>An administrator reaches the bots of other owners.\<close>

lemma bulk_not_scoped:
  assumes "find_bot i (ap_db w) = Some b" "jq_up (ap_queues w)" "getQueue (bt_platform b) = Some q"
  shows "snd (bulk_bot now BulkStop (JStr i) w) = BulkQueued \<and>
    map_option bt_status (find_bot i (ap_db (fst (bulk_bot now BulkStop (JStr i) w)))) = Some ''idle''"
  using assms find_bot_update [OF assms(1), of "\<lambda>b. b\<lparr> bt_status := ''idle'' \<rparr>" now]
  by (simp add: bulk_bot_def Let_def or_failed_def queued_def enqueueDisconnect_def enqueue_def add_job_def set_status_def)

section \<open>Dead letters\<close>

definition dead_letter_limit :: "json \<Rightarrow> nat" where
  "dead_letter_limit query =
     (case get_prop query ''limit'' of
        JStr s \<Rightarrow> (case parse_int s of Some n \<Rightarrow> nat (min (max n 1) 200) | None \<Rightarrow> 20)
      | _ \<Rightarrow> 20)"

definition replay_one_route :: "ms \<Rightarrow> string \<Rightarrow> string \<Rightarrow> api_world \<Rightarrow> api_world \<times> unit reply" where
  "replay_one_route now platform i w =
     (case replayDeadLetterJob now platform i (ap_queues w) of
        None \<Rightarrow> (w, crashed)
      | Some (qs, r) \<Rightarrow> (w\<lparr> ap_queues := qs \<rparr>, if r = Replayed then Answers () else notFound))"

text \<open>A call that throws half way leaves what it did; the model gives the old queues there.\<close>

definition replay_all_route :: "ranges \<Rightarrow> ms \<Rightarrow> api_world \<Rightarrow> api_world \<times> (nat \<times> nat) reply" where
  "replay_all_route ranged now w =
     (case replayAllDeadLetterJobs ranged now (ap_queues w) of
        None \<Rightarrow> (w, crashed)
      | Some (qs, ok, failed) \<Rightarrow> (w\<lparr> ap_queues := qs \<rparr>, if 0 < failed then Rejects 502 ''PARTIAL_REPLAY'' else Answers (ok, failed)))"

section \<open>Sweeps\<close>

definition retention_days :: "string option \<Rightarrow> int" where
  "retention_days v =
     (let n = (case parse_int (case v of None \<Rightarrow> ''30'' | Some s \<Rightarrow> s) of None \<Rightarrow> 30 | Some n \<Rightarrow> if n = 0 then 30 else n)
      in max 1 n)"

definition cutoff :: "ms \<Rightarrow> string option \<Rightarrow> ms" where
  "cutoff now v = now - retention_days v * 24 * 60 * 60 * 1000"

definition sweep_logs :: "ms \<Rightarrow> string option \<Rightarrow> api_db \<Rightarrow> api_db" where
  "sweep_logs now v db = db\<lparr> db_logs := filter (\<lambda>l. \<not> lg_createdAt l < cutoff now v) (db_logs db) \<rparr>"

definition sweep_events :: "ms \<Rightarrow> string option \<Rightarrow> api_db \<Rightarrow> api_db" where
  "sweep_events now v db = db\<lparr> db_events := filter (\<lambda>e. \<not> er_createdAt e < cutoff now v) (db_events db) \<rparr>"

definition sweep_dead_letters :: "ranges \<Rightarrow> ms \<Rightarrow> string option \<Rightarrow> job_queues \<Rightarrow> job_queues" where
  "sweep_dead_letters ranged now v qs =
     (case pruneDeadLetterJobs ranged (cutoff now v) 1000 qs of None \<Rightarrow> qs | Some (qs, n) \<Rightarrow> qs)"

text \<open>At least the last day is kept, whatever the setting.\<close>

lemma retention_at_least_a_day:
  "e \<in> set (db_events db) \<Longrightarrow> now - 86400000 \<le> er_createdAt e \<Longrightarrow> e \<in> set (db_events (sweep_events now v db))"
  by (auto simp: sweep_events_def cutoff_def retention_days_def Let_def)

end
