(* ===== verification/ApiSafety.thy ===== *)
theory ApiSafety
  imports AccountRoutes ScriptRoutes WebhookRoutes EventRoutes AuthSafety
begin

text \<open>
  The routes of an owner together, behind the guard of utils/auth-hook.ts: what a stored row always is, and that
  nobody changes what belongs to somebody else.
\<close>

section \<open>Requests\<close>

datatype api_route =
    CreateBot json | UpdateBot string json | DeleteBot string
  | StartBot string | StopBot string | RestartBot string | ActionBot string json
  | DeleteMemory string string | ClearMemory string
  | CreateAccount json | UpdateAccount string json | DeleteAccount string
  | CloneScript string | GenerateScript json | CreateScript json | UpdateScript string json | DeleteScript string
  | CreateWebhook json | UpdateWebhook string json | DeleteWebhook string | TestWebhook string json net net ms
  | ReplayEvent string | DeleteEvent string

record api_outside =
  ao_inherited :: "string \<Rightarrow> string \<Rightarrow> contract option"
  ao_show_err :: "guard_error \<Rightarrow> ustring"

fun serve_route :: "api_outside \<Rightarrow> api_env \<Rightarrow> api_request \<Rightarrow> api_route \<Rightarrow> api_world \<Rightarrow> api_world" where
  "serve_route out env rq (CreateBot body) w = fst (createBot env rq body w)"
| "serve_route out env rq (UpdateBot i body) w = fst (updateBot env rq i body w)"
| "serve_route out env rq (DeleteBot i) w = fst (deleteBot rq i w)"
| "serve_route out env rq (StartBot i) w = fst (startBot rq i w)"
| "serve_route out env rq (StopBot i) w = fst (stopBot rq i w)"
| "serve_route out env rq (RestartBot i) w = fst (restartBot rq i w)"
| "serve_route out env rq (ActionBot i body) w = fst (actionBot rq i body w)"
| "serve_route out env rq (DeleteMemory i key) w = fst (deleteMemoryKey rq i key w)"
| "serve_route out env rq (ClearMemory i) w = fst (clearMemory rq i w)"
| "serve_route out env rq (CreateAccount body) w = fst (createAccount env rq body w)"
| "serve_route out env rq (UpdateAccount i body) w = fst (updateAccount env rq i body w)"
| "serve_route out env rq (DeleteAccount i) w = fst (deleteAccount rq i w)"
| "serve_route out env rq (CloneScript i) w = fst (cloneScript rq i w)"
| "serve_route out env rq (GenerateScript body) w = fst (generateScript env rq body w)"
| "serve_route out env rq (CreateScript body) w = fst (createScript env rq body w)"
| "serve_route out env rq (UpdateScript i body) w = fst (updateScript env rq i body w)"
| "serve_route out env rq (DeleteScript i) w = fst (deleteScript rq i w)"
| "serve_route out env rq (CreateWebhook body) w = fst (createWebhook env rq body w)"
| "serve_route out env rq (UpdateWebhook i body) w = fst (updateWebhook env rq i body w)"
| "serve_route out env rq (DeleteWebhook i) w = fst (deleteWebhook rq i w)"
| "serve_route out env rq (TestWebhook i body checked sent later) w = fst (testWebhook (ao_show_err out) checked sent rq later i body w)"
| "serve_route out env rq (ReplayEvent i) w = fst (replayEvent (ao_inherited out) env rq i w)"
| "serve_route out env rq (DeleteEvent i) w = fst (deleteEvent rq i w)"

fun method_of :: "api_route \<Rightarrow> string" where
  "method_of (UpdateBot i body) = ''PATCH''"
| "method_of (UpdateAccount i body) = ''PATCH''"
| "method_of (UpdateScript i body) = ''PATCH''"
| "method_of (UpdateWebhook i body) = ''PATCH''"
| "method_of (DeleteBot i) = ''DELETE''"
| "method_of (DeleteMemory i key) = ''DELETE''"
| "method_of (ClearMemory i) = ''DELETE''"
| "method_of (DeleteAccount i) = ''DELETE''"
| "method_of (DeleteScript i) = ''DELETE''"
| "method_of (DeleteWebhook i) = ''DELETE''"
| "method_of (DeleteEvent i) = ''DELETE''"
| "method_of _ = ''POST''"

text \<open>The owner of a request is the user that the guard found.\<close>

definition serve_api ::
  "auth_env \<Rightarrow> 'r auth_world \<Rightarrow> api_outside \<Rightarrow> api_env \<Rightarrow> auth_request \<times> api_request \<times> api_route \<Rightarrow> api_world \<Rightarrow> api_world" where
  "serve_api aenv aw out env x w =
     (case x of (arq, rq, route) \<Rightarrow>
        (case requireAuth aenv (method_of route) arq aw of
           Rejects s c \<Rightarrow> w
         | Answers u \<Rightarrow> serve_route out env (rq\<lparr> ar_owner := us_id u \<rparr>) route w))"

section \<open>Isolation\<close>

lemmas isolated_routes = isolated_create isolated_update isolated_delete isolated_start isolated_stop isolated_restart isolated_action
  isolated_memory isolated_create_account isolated_update_account isolated_delete_account isolated_clone isolated_generate
  isolated_create_script isolated_update_script isolated_delete_script isolated_create_webhook isolated_update_webhook
  isolated_delete_webhook isolated_test_webhook isolated_replay_event isolated_delete_event

lemma route_isolated:
  "confined (ar_owner rq) (ap_db w) (ap_db (serve_route out env rq route w)) \<and>
   own_jobs (ar_owner rq) (ap_db w) (ap_queues w) (ap_queues (serve_route out env rq route w))"
  using isolated_routes [unfolded isolated_def] by (cases route) simp_all

text \<open>A viewer changes nothing: every route that writes asks for an administrator.\<close>

lemma route_writes: "method_of route \<in> set WRITE_METHODS"
  by (cases route) (simp_all add: WRITE_METHODS_def)

lemma viewer_changes_nothing:
  assumes "\<And>u. verifyUser aenv arq aw = Answers u \<Longrightarrow> us_role u \<noteq> ''admin''"
  shows "serve_api aenv aw out env (arq, rq, route) w = w"
  using assms route_writes [of route] by (auto simp: serve_api_def requireAuth_def split: reply.split)

text \<open>
  C6. Whatever users ask for through the routes of bots, accounts, scripts, webhooks and events, in any order and
  any number, what belongs to a user who is not among them stays as it is: rows, and what hangs on the rows.
\<close>

theorem tenant_isolation:
  assumes "db_ok (ap_db w)"
    and "list_all (\<lambda>(arq, rq, route). \<forall>u. requireAuth aenv (method_of route) arq aw = Answers u \<longrightarrow> us_id u \<noteq> v) xs"
  shows "tenant v (ap_db (fold (serve_api aenv aw out env) xs w)) = tenant v (ap_db w)"
proof -
  have "db_ok (ap_db (fold (serve_api aenv aw out env) xs w)) \<and> tenant v (ap_db (fold (serve_api aenv aw out env) xs w)) = tenant v (ap_db w)"
    using assms
  proof (induction xs arbitrary: w)
    case (Cons x xs)
    obtain arq rq route where x: "x = (arq, rq, route)" by (cases x)
    have "db_ok (ap_db (serve_api aenv aw out env x w)) \<and> tenant v (ap_db (serve_api aenv aw out env x w)) = tenant v (ap_db w)"
    proof (cases "requireAuth aenv (method_of route) arq aw")
      case (Answers u)
      then have "us_id u \<noteq> v" using Cons.prems(2) by (auto simp: x)
      with Answers Cons.prems(1) route_isolated [of "rq\<lparr> ar_owner := us_id u \<rparr>" w out env route]
      show ?thesis by (auto simp: serve_api_def x confined_def)
    qed (use Cons.prems(1) in \<open>simp add: serve_api_def x\<close>)
    then show ?case using Cons.IH [of "serve_api aenv aw out env x w"] Cons.prems(2) by simp
  qed simp
  then show ?thesis ..
qed

lemma demo_user_is_a: "requireAuth AuthSafety.demo_env ''DELETE'' AuthSafety.demo_call AuthSafety.demo_world = Answers u \<Longrightarrow> us_id u = ''a''"
proof -
  have "requireAuth AuthSafety.demo_env ''DELETE'' AuthSafety.demo_call AuthSafety.demo_world = Answers (hd (aw_users AuthSafety.demo_world))" by code_simp
  moreover have "us_id (hd (aw_users AuthSafety.demo_world)) = ''a''" by (simp add: AuthSafety.demo_world_def)
  ultimately show "requireAuth AuthSafety.demo_env ''DELETE'' AuthSafety.demo_call AuthSafety.demo_world = Answers u \<Longrightarrow> us_id u = ''a''" by simp
qed

lemma demo_api_ok: "db_ok (ap_db demo_api)"
  by (simp add: db_ok_def demo_api_def demo_bot_def account_keys_def bot_keys_def)

lemma tenant_isolation_witness:
  "\<forall>out env. tenant ''u'' (ap_db (fold (serve_api AuthSafety.demo_env AuthSafety.demo_world out env)
     [(AuthSafety.demo_call, demo_asked, DeleteBot ''b''), (AuthSafety.demo_call, demo_asked, DeleteAccount ''a'')] demo_api)) =
   tenant ''u'' (ap_db demo_api)"
  using tenant_isolation [OF demo_api_ok, of AuthSafety.demo_env AuthSafety.demo_world "''u''"
      "[(AuthSafety.demo_call, demo_asked, DeleteBot ''b''), (AuthSafety.demo_call, demo_asked, DeleteAccount ''a'')]"] demo_user_is_a
  by auto

section \<open>What is stored\<close>

definition stored_ok :: "api_env \<Rightarrow> api_db \<Rightarrow> bool" where
  "stored_ok env db \<longleftrightarrow> db_ok db \<and> secrets_sealed db \<and> scripts_checked env db"

text \<open>Two kinds of changes that have nothing to do with secrets or scripts.\<close>

lemma secrets_status: "secrets_sealed (ap_db w) \<Longrightarrow> secrets_sealed (ap_db (set_status now i st w))"
  by (simp add: secrets_sealed_def set_status_def update_bot_def list_all_change)

lemma checked_status: "scripts_checked env (ap_db w) \<Longrightarrow> scripts_checked env (ap_db (set_status now i st w))"
  by (simp add: scripts_checked_def set_status_def update_bot_def)

lemma checked_drop_bot: "scripts_checked env db \<Longrightarrow> scripts_checked env (drop_bot i db)"
  by (simp add: scripts_checked_def drop_bot_def list_all_filter)

definition harmless :: "api_env \<Rightarrow> api_world \<Rightarrow> api_world \<Rightarrow> bool" where
  "harmless env w w' \<longleftrightarrow> (secrets_sealed (ap_db w) \<longrightarrow> secrets_sealed (ap_db w')) \<and> (scripts_checked env (ap_db w) \<longrightarrow> scripts_checked env (ap_db w'))"

lemma harmless_bots:
  "harmless env w (fst (deleteBot rq i w))" "harmless env w (fst (startBot rq i w))" "harmless env w (fst (stopBot rq i w))"
  "harmless env w (fst (restartBot rq i w))" "harmless env w (fst (actionBot rq i body w))"
  "harmless env w (fst (deleteMemoryKey rq i key w))" "harmless env w (fst (clearMemory rq i w))"
  by (auto simp: harmless_def deleteBot_def startBot_def stopBot_def restartBot_def RestartBotHandler_def actionBot_def
      ExecuteBotActionHandler_def deleteMemoryKey_def clearMemory_def Let_def
      dest!: ap_queued intro!: secrets_status checked_status secrets_drop_bot checked_drop_bot
      split: option.split prod.split json.split list.split)

lemma harmless_hooks:
  "harmless env w (fst (deleteWebhook rq i w))" "harmless env w (fst (testWebhook show_err checked sent rq later i body w))"
  "harmless env w (fst (replayEvent inherited env' rq i w))" "harmless env w (fst (deleteEvent rq i w))"
  by (auto simp: harmless_def deleteWebhook_def testWebhook_def replayEvent_def deleteEvent_def Let_def secrets_sealed_def scripts_checked_def
      drop_webhook_def update_webhook_def add_delivery_def update_event_def drop_event_def delivered_def undelivered_def sealed_hook_def
      dest!: ap_queued intro!: list_all_change list_all_filter
      split: option.split sum.split)

lemma secrets_scripts:
  "secrets_sealed (ap_db w) \<Longrightarrow> secrets_sealed (ap_db (fst (insert_script s w)))"
  "secrets_sealed (ap_db w) \<Longrightarrow> secrets_sealed (ap_db (fst (updateScript env rq i body w)))"
  "secrets_sealed (ap_db w) \<Longrightarrow> secrets_sealed (ap_db (fst (deleteScript rq i w)))"
  by (auto simp: secrets_sealed_def insert_script_def add_script_def updateScript_def update_script_def deleteScript_def drop_script_def
      split: option.split)

lemma harmless_scripts:
  "harmless env w (fst (cloneScript rq i w))" "harmless env w (fst (generateScript env rq body w))"
  "harmless env w (fst (createScript env rq body w))" "harmless env w (fst (updateScript env rq i body w))"
  "harmless env w (fst (deleteScript rq i w))"
  unfolding harmless_def
  using checked_clone checked_generate checked_create checked_update checked_delete secrets_scripts
  by (auto simp: cloneScript_def generateScript_def createScript_def Let_def split: option.split json.split list.split)

text \<open>Secrets that come with a request.\<close>

lemma sealed_new_hook:
  "sealed env iv v = Inr s \<Longrightarrow> kr_key (ev_registry env) \<noteq> [] \<Longrightarrow> case s of None \<Rightarrow> True | Some t \<Rightarrow> sealed_text t"
  using sealed_sealed by (auto split: option.split)

lemma harmless_new_hook: "kr_key (ev_registry env) \<noteq> [] \<Longrightarrow> harmless env w (fst (createWebhook env rq body w))"
  by (auto simp: harmless_def createWebhook_def Let_def secrets_sealed_def scripts_checked_def add_webhook_def sealed_hook_def
      dest: sealed_new_hook split: option.splits sum.split)

lemma harmless_update_hook: "kr_key (ev_registry env) \<noteq> [] \<Longrightarrow> harmless env w (fst (updateWebhook env rq i body w))"
  by (auto simp: harmless_def updateWebhook_def secrets_sealed_def scripts_checked_def update_webhook_def sealed_hook_def webhook_update_def
      dest: sealed_new_hook intro!: list_all_change split: option.split sum.split)

lemma harmless_accounts:
  assumes "kr_key (ev_registry env) \<noteq> []"
  shows "harmless env w (fst (createAccount env rq body w))" "harmless env w (fst (updateAccount env rq i body w))"
    "harmless env w (fst (deleteAccount rq i w))"
proof -
  have new: "sealed_account (set_columns ch a)" if "flattenCredentials env rq c = Inr ch" "ac_secrets a = []" "ac_apiKeys a = None" for ch c a
    using flatten_sealed [OF that(1) assms] that(2,3) by (intro sealed_set_columns) (simp_all add: sealed_account_def)
  show "harmless env w (fst (createAccount env rq body w))"
    by (auto simp: harmless_def createAccount_def Let_def secrets_sealed_def scripts_checked_def add_account_def intro!: new split: option.split sum.split)
  have old: "sealed_account (set_columns ch (a\<lparr> ac_name := n, ac_platform := p \<rparr>))" if "flattenCredentials env rq c = Inr ch" "sealed_account a" for ch c a n p
    using flatten_sealed [OF that(1) assms] that(2) by (intro sealed_set_columns) (simp_all add: sealed_account_def)
  show "harmless env w (fst (updateAccount env rq i body w))"
    by (auto simp: harmless_def updateAccount_def Let_def secrets_sealed_def scripts_checked_def update_account_def
        intro!: old list_all_change split: option.split sum.split)
  show "harmless env w (fst (deleteAccount rq i w))"
    by (auto simp: harmless_def deleteAccount_def drop_account_def bots_of_account_def secrets_sealed_def scripts_checked_def
        intro!: list_all_filter split: option.split)
qed

lemma harmless_create_bot:
  assumes "kr_key (ev_registry env) \<noteq> []"
  shows "harmless env w (fst (createBot env rq body w))"
proof -
  have "bt_platform b = ''crypto'' \<longrightarrow> sealed_config (bt_config b)" if "create_bot_row env rq body db = Answers b" for b db
    using that trading_sealed [OF _ assms]
    by (auto simp: create_bot_row_def invalid_def crashed_def Let_def split: option.splits if_splits sum.splits)
  then show ?thesis
    by (auto simp: harmless_def createBot_def insert_bot_def secrets_sealed_def scripts_checked_def add_bot_def split: reply.split option.split)
qed

lemma harmless_update_bot:
  assumes "kr_key (ev_registry env) \<noteq> []" "db_ok (ap_db w)"
  shows "harmless env w (fst (updateBot env rq i body w))"
proof -
  have "list_all (\<lambda>b. bt_platform b = ''crypto'' \<longrightarrow> sealed_config (bt_config b)) (db_bots (update_bot now i (\<lambda>b. b\<lparr> bt_name := n, bt_config := c \<rparr>) (ap_db w)))"
    if all: "list_all (\<lambda>b. bt_platform b = ''crypto'' \<longrightarrow> sealed_config (bt_config b)) (db_bots (ap_db w))"
      and b: "find_bot i (ap_db w) = Some b" and c: "c = bt_config b \<or> sealed_config c" for now n c b
    unfolding list_all_iff
  proof
    fix x
    assume "x \<in> set (db_bots (update_bot now i (\<lambda>b. b\<lparr> bt_name := n, bt_config := c \<rparr>) (ap_db w)))"
    then obtain y where y: "y \<in> set (db_bots (ap_db w))" "x = (if bt_id y = i then y\<lparr> bt_name := n, bt_config := c, bt_updatedAt := now \<rparr> else y)"
      by (auto simp: update_bot_def in_change)
    have own: "bt_platform y = ''crypto'' \<longrightarrow> sealed_config (bt_config y)" using all y(1) by (simp add: list_all_iff)
    show "bt_platform x = ''crypto'' \<longrightarrow> sealed_config (bt_config x)"
    proof (cases "bt_id y = i")
      case True
      have "b \<in> set (db_bots (ap_db w))" "bt_id b = i" using b by (auto simp: find_bot_def find_Some_iff)
      then have same: "bt_config y = bt_config b" using unique_row [OF db_okD(2) [OF assms(2)] y(1), of b] True by simp
      from True have x: "bt_platform x = bt_platform y" "bt_config x = c" by (simp_all add: y(2))
      show ?thesis unfolding x using own c same by metis
    next
      case False
      then show ?thesis using own y(2) by simp
    qed
  qed
  moreover have "fst (updateBot env rq i body w) = w \<or> (\<exists>b n c. find_bot i (ap_db w) = Some b \<and> (c = bt_config b \<or> sealed_config c) \<and>
      fst (updateBot env rq i body w) = on_db (update_bot (ar_now rq) i (\<lambda>b. b\<lparr> bt_name := n, bt_config := c \<rparr>)) w)"
  proof (cases "parse_schema (UpdateBotSchema (ev_validators env)) body")
    case (Some v)
    show ?thesis
    proof (cases "find_bot i (ap_db w)")
      case (Some b)
      show ?thesis
      proof (cases "(if get_prop v ''config'' = JUndef then Inr (bt_config b) else preserveWalletKey env (ar_iv rq 0) (bt_config b) (get_prop v ''config''))")
        case (Inr c)
        then have "c = bt_config b \<or> sealed_config c" using preserve_sealed [OF _ assms(1)] by (auto split: if_splits)
        then show ?thesis
          using Some Inr \<open>parse_schema _ body = Some v\<close> by (auto simp: updateBot_def UpdateBotHandler_def Let_def split: option.split)
      qed (use Some \<open>parse_schema _ body = Some v\<close> in \<open>simp add: updateBot_def UpdateBotHandler_def split: option.split\<close>)
    qed (use Some in \<open>simp add: updateBot_def UpdateBotHandler_def split: option.split\<close>)
  qed (simp add: updateBot_def)
  ultimately show ?thesis
    unfolding harmless_def secrets_sealed_def scripts_checked_def by (auto simp: update_bot_def)
qed


definition demo_api_env :: api_env where
  "demo_api_env = \<lparr> ev_primitives = demo_primitives, ev_production = True, ev_registry = demo_registry,
     ev_validators = \<lparr> va_email = (\<lambda>_. True), va_url = (\<lambda>_. True), va_net = demo_net, va_decode = Some \<rparr>,
     ev_limits = \<lparr> maxAccounts = Num 5, maxBots = Num 5, maxWebhooks = Num 5 \<rparr>,
     ev_number = (\<lambda>_. NaN), ev_text = (\<lambda>_. []),
     ev_reader = \<lparr> sr_show = (\<lambda>_. []), sr_number = (\<lambda>_. NaN), sr_collate = (\<lambda>_ _. True), sr_date = (\<lambda>_. None) \<rparr>,
     ev_date = (\<lambda>_. []), ev_publicKey = (\<lambda>k. k), ev_keccak = (\<lambda>k. k), ev_hex = toHex \<rparr>"


end
