(* ===== verification/WebhookJobs.thy ===== *)
theory WebhookJobs
  imports WebhookRoutes
begin

text \<open>
  The delivery of webhooks by the workers, packages/workers/src/webhooks.ts: the cache of the webhooks that match an
  event, the jobs of an event, one attempt with its bookkeeping, the five attempts of a job and its dead letter. The
  network, the answers of the database to each call, the random suffix of a job and the JSON text of an event are
  arguments; the waiting of the queue between two attempts and console output are left out.
\<close>

section \<open>Jobs of an event\<close>

record dispatch_event =
  de_botId :: string
  de_platform :: string
  de_type :: string
  de_payload :: json
  de_timestamp :: ms
  de_eventId :: "string option"

record webhook_job =
  wj_webhook :: string
  wj_url :: string
  wj_secret :: "string option"
  wj_body :: string
  wj_eventType :: string
  wj_bot :: "string option"

definition WEBHOOK_QUEUE :: string where "WEBHOOK_QUEUE = ''webhook-queue''"
definition WEBHOOK_ATTEMPTS :: nat where "WEBHOOK_ATTEMPTS = 5"
definition MATCH_CACHE_TTL :: ms where "MATCH_CACHE_TTL = 5000"
definition MATCH_CACHE_MAX :: nat where "MATCH_CACHE_MAX = 1000"
definition PRUNE_INTERVAL :: ms where "PRUNE_INTERVAL = 3600000"
definition DELIVERY_RETENTION :: ms where "DELIVERY_RETENTION = 30 * 24 * 3600 * 1000"

record cached_match =
  cm_expiresAt :: ms
  cm_webhooks :: "webhook_job list"

type_synonym match_cache = "(string, cached_match) jmap"

definition webhookMatchCacheKey :: "string \<Rightarrow> string \<Rightarrow> string" where
  "webhookMatchCacheKey b kind = b @ [CHR 0x00] @ kind"

definition getCachedWebhookMatch :: "ms \<Rightarrow> string \<Rightarrow> string \<Rightarrow> match_cache \<Rightarrow> webhook_job list option" where
  "getCachedWebhookMatch now b kind c =
     (case jget c (webhookMatchCacheKey b kind) of
        None \<Rightarrow> None
      | Some e \<Rightarrow> if cm_expiresAt e \<le> now then None else Some (cm_webhooks e))"

definition cacheWebhookMatch :: "ms \<Rightarrow> string \<Rightarrow> string \<Rightarrow> webhook_job list \<Rightarrow> match_cache \<Rightarrow> match_cache" where
  "cacheWebhookMatch now b kind hooks c =
     jset (webhookMatchCacheKey b kind) \<lparr> cm_expiresAt = now + MATCH_CACHE_TTL, cm_webhooks = hooks \<rparr>
       (if length c \<ge> MATCH_CACHE_MAX then (case c of [] \<Rightarrow> c | (oldest, _) # _ \<Rightarrow> jdel oldest c) else c)"

text \<open>The query of the database: enabled, for this bot or for all, and subscribed to the type.\<close>

definition matches_event :: "string \<Rightarrow> string \<Rightarrow> webhook_row \<Rightarrow> bool" where
  "matches_event b kind h \<longleftrightarrow> wh_enabled h \<and> (wh_bot h = Some b \<or> wh_bot h = None) \<and> kind \<in> set (wh_events h)"

definition job_of_row :: "string \<Rightarrow> string \<Rightarrow> webhook_row \<Rightarrow> webhook_job" where
  "job_of_row b kind h = \<lparr> wj_webhook = wh_id h, wj_url = wh_url h, wj_secret = wh_secret h, wj_body = [],
     wj_eventType = kind, wj_bot = Some b \<rparr>"

definition matching_webhooks :: "string \<Rightarrow> string \<Rightarrow> api_db \<Rightarrow> webhook_job list" where
  "matching_webhooks b kind db = map (job_of_row b kind) (filter (matches_event b kind) (db_webhooks db))"

definition event_json :: "(ms \<Rightarrow> string) \<Rightarrow> dispatch_event \<Rightarrow> json" where
  "event_json show_date ev = JObj ([(''botId'', JStr (de_botId ev)), (''platform'', JStr (de_platform ev)), (''type'', JStr (de_type ev)),
     (''payload'', de_payload ev), (''timestamp'', JStr (show_date (de_timestamp ev)))] @
     (case de_eventId ev of None \<Rightarrow> [] | Some i \<Rightarrow> [(''eventId'', JStr i)]))"

definition webhook_job_json :: "webhook_job \<Rightarrow> json" where
  "webhook_job_json j = JObj [(''webhookId'', JStr (wj_webhook j)), (''url'', JStr (wj_url j)), (''secret'', text_json (wj_secret j)),
     (''body'', JStr (wj_body j)), (''eventType'', JStr (wj_eventType j)), (''botId'', text_json (wj_bot j))]"

definition dispatch_job :: "ms \<Rightarrow> (string \<Rightarrow> string) \<Rightarrow> string \<Rightarrow> dispatch_event \<Rightarrow> webhook_job \<Rightarrow> queue_job" where
  "dispatch_job now nonce body ev h =
     (new_job now (''webhook-'' @ wj_webhook h @ ''-'' @ de_botId ev @ ''-'' @ de_type ev @ ''-'' @
         (case de_eventId ev of None \<Rightarrow> [] | Some i \<Rightarrow> i) @ ''-'' @ ms_text (de_timestamp ev) @ ''-'' @ nonce (wj_webhook h))
       ''deliver'' (webhook_job_json (h\<lparr> wj_body := body, wj_eventType := de_type ev, wj_bot := Some (de_botId ev) \<rparr>)) WEBHOOK_ATTEMPTS False)
       \<lparr> qj_backoff := Some 1000 \<rparr>"

text \<open>All jobs are added at the same time; while Redis is away none is, and the error goes to the console.\<close>

definition enqueue_hooks :: "ms \<Rightarrow> (string \<Rightarrow> string) \<Rightarrow> string \<Rightarrow> dispatch_event \<Rightarrow> webhook_job list \<Rightarrow> job_queues \<Rightarrow> job_queues" where
  "enqueue_hooks now nonce body ev hooks qs =
     fold (\<lambda>h qs. case add_job WEBHOOK_QUEUE (dispatch_job now nonce body ev h) qs of None \<Rightarrow> qs | Some qs' \<Rightarrow> qs') hooks qs"

text \<open>
  A dispatch looks into the cache and, where there is nothing, asks the database, whose answer
  comes later: \<open>None\<close> if the query fails.
\<close>

definition dispatch_answer :: "ms \<Rightarrow> dispatch_event \<Rightarrow> api_db \<Rightarrow> match_cache \<Rightarrow> webhook_job list \<times> match_cache" where
  "dispatch_answer now ev db c =
     (let hooks = matching_webhooks (de_botId ev) (de_type ev) db in (hooks, cacheWebhookMatch now (de_botId ev) (de_type ev) hooks c))"

definition dispatchWebhooks ::
  "(dispatch_event \<Rightarrow> string) \<Rightarrow> (string \<Rightarrow> string) \<Rightarrow> ms \<Rightarrow> ms \<Rightarrow> api_db option \<Rightarrow> dispatch_event \<Rightarrow> match_cache \<times> job_queues \<Rightarrow> match_cache \<times> job_queues" where
  "dispatchWebhooks body_text nonce asked answered db ev s =
     (case s of (c, qs) \<Rightarrow>
        case getCachedWebhookMatch asked (de_botId ev) (de_type ev) c of
          Some hooks \<Rightarrow> (c, enqueue_hooks answered nonce (body_text ev) ev hooks qs)
        | None \<Rightarrow>
            (case db of
               None \<Rightarrow> (c, qs)
             | Some db \<Rightarrow>
                 (case dispatch_answer answered ev db c of
                    (hooks, c') \<Rightarrow> (c', enqueue_hooks answered nonce (body_text ev) ev hooks qs))))"

section \<open>One attempt\<close>

datatype delivery_failure = NotAccepted guard_error | NotRecorded

text \<open>
  An attempt as it finds the network, the time it begins and ends, and whether each of its calls of the database
  succeeds, apart from the webhook being gone.
\<close>

record attempt =
  at_net :: net
  at_began :: ms
  at_ended :: ms
  at_marksOk :: bool
  at_marksFailed :: bool
  at_records :: bool
  at_prunes :: bool

record delivery_world =
  dw_db :: api_db
  dw_lastPrune :: "(string, ms) jmap"
  dw_sent :: "(string \<times> (string \<times> string) list) list"

definition webhook_of :: "string \<Rightarrow> api_db \<Rightarrow> webhook_row option" where
  "webhook_of i db = find (\<lambda>h. wh_id h = i) (db_webhooks db)"

definition mark_webhook :: "bool \<Rightarrow> string \<Rightarrow> (webhook_row \<Rightarrow> webhook_row) \<Rightarrow> delivery_world \<Rightarrow> delivery_world option" where
  "mark_webhook up i f w =
     (if up \<and> webhook_of i (dw_db w) \<noteq> None then Some (w\<lparr> dw_db := update_webhook i f (dw_db w) \<rparr>) else None)"

text \<open>The history is best effort; old rows go at most once an hour.\<close>

definition prune_deliveries :: "string \<Rightarrow> ms \<Rightarrow> api_db \<Rightarrow> api_db" where
  "prune_deliveries i cutoff db = db\<lparr> db_deliveries := filter (\<lambda>d. \<not> (dl_webhook d = i \<and> dl_createdAt d < cutoff)) (db_deliveries db) \<rparr>"

definition recordHistory :: "attempt \<Rightarrow> delivery_row \<Rightarrow> delivery_world \<Rightarrow> delivery_world" where
  "recordHistory a d w =
     (let i = dl_webhook d; now = at_ended a
      in if \<not> at_records a \<or> webhook_of i (dw_db w) = None then w
         else let w = w\<lparr> dw_db := add_delivery d (dw_db w) \<rparr>
              in if now - jget_or 0 (dw_lastPrune w) i < PRUNE_INTERVAL then w
                 else let w = w\<lparr> dw_lastPrune := jset i now (dw_lastPrune w) \<rparr>
                      in if at_prunes a then w\<lparr> dw_db := prune_deliveries i (now - DELIVERY_RETENTION) (dw_db w) \<rparr> else w)"

fun failure_status :: "delivery_failure \<Rightarrow> nat option" where
  "failure_status (NotAccepted e) = error_status e"
| "failure_status NotRecorded = None"

definition job_row :: "attempt \<Rightarrow> nat \<Rightarrow> webhook_job \<Rightarrow> string \<Rightarrow> nat option \<Rightarrow> ustring option \<Rightarrow> delivery_row" where
  "job_row a n j status code err =
     history_row (wj_webhook j) (wj_eventType j) (wj_bot j) n (at_began a) (at_ended a) status code (map_option (take 300) err)"

definition attempt_failed ::
  "(delivery_failure \<Rightarrow> ustring) \<Rightarrow> attempt \<Rightarrow> nat \<Rightarrow> webhook_job \<Rightarrow> delivery_failure \<Rightarrow> delivery_world \<Rightarrow> delivery_world \<times> delivery_failure option" where
  "attempt_failed show_err a n j e w =
     (let w = (case mark_webhook (at_marksFailed a) (wj_webhook j) (undelivered (at_ended a) (show_err e)) w of None \<Rightarrow> w | Some w \<Rightarrow> w)
      in (recordHistory a (job_row a n j ''failed'' (failure_status e) (Some (show_err e))) w, Some e))"

text \<open>What can be thrown after the request is caught like a failed request.\<close>

definition deliverWebhookJob ::
  "(delivery_failure \<Rightarrow> ustring) \<Rightarrow> (string \<Rightarrow> string \<Rightarrow> string) \<Rightarrow> (string option \<Rightarrow> string option) \<Rightarrow> attempt \<Rightarrow> nat \<Rightarrow> webhook_job \<Rightarrow>
   delivery_world \<Rightarrow> delivery_world \<times> delivery_failure option" where
  "deliverWebhookJob show_err hmac decrypt_secret a n j w =
     (case deliverWebhook (at_net a) (wj_url j) of
        (reqs, out) \<Rightarrow>
          let w = w\<lparr> dw_sent := dw_sent w @ map (\<lambda>r. (snd r, webhook_headers hmac (decrypt_secret (wj_secret j)) (wj_body j))) reqs \<rparr>
          in case out of
               Inl e \<Rightarrow> attempt_failed show_err a n j (NotAccepted e) w
             | Inr _ \<Rightarrow>
                 (case mark_webhook (at_marksOk a) (wj_webhook j) (delivered (at_ended a)) w of
                    None \<Rightarrow> attempt_failed show_err a n j NotRecorded w
                  | Some w \<Rightarrow> (recordHistory a (job_row a n j ''ok'' (Some 200) None) w, None)))"

section \<open>The attempts of a job and its dead letter\<close>

text \<open>The data of a job as the worker reads them; what is missing is \<open>undefined\<close>.\<close>

definition read_webhook_job :: "json \<Rightarrow> webhook_job" where
  "read_webhook_job d = (let t = (\<lambda>k. case get_prop d k of JStr s \<Rightarrow> s | _ \<Rightarrow> ''undefined'')
     in \<lparr> wj_webhook = t ''webhookId'', wj_url = t ''url'', wj_secret = text_of (get_prop d ''secret''), wj_body = t ''body'',
          wj_eventType = (case get_prop d ''eventType'' of JStr s \<Rightarrow> s | _ \<Rightarrow> ''unknown''), wj_bot = text_of (get_prop d ''botId'') \<rparr>)"

text \<open>The queue repeats a job until an attempt returns, as long as attempts are left.\<close>

fun run_attempts ::
  "(nat \<Rightarrow> webhook_job \<Rightarrow> delivery_world \<Rightarrow> delivery_world \<times> delivery_failure option) \<Rightarrow> nat \<Rightarrow> nat \<Rightarrow> webhook_job \<Rightarrow> delivery_world \<Rightarrow>
   delivery_world \<times> delivery_failure option" where
  "run_attempts deliver 0 n j w = (w, None)"
| "run_attempts deliver (Suc left) n j w =
     (case deliver n j w of
        (w', None) \<Rightarrow> (w', None)
      | (w', Some e) \<Rightarrow> if left = 0 then (w', Some e) else run_attempts deliver left (n + 1) j w')"

definition webhook_dead_letter :: "ms \<Rightarrow> nat \<Rightarrow> json \<Rightarrow> queue_job \<Rightarrow> queue_job" where
  "webhook_dead_letter now made failedReason j =
     new_job now (''dlq-webhook-'' @ qj_id j) ''dlq''
       (JObj [(''originalQueue'', JStr WEBHOOK_QUEUE), (''jobId'', JStr (qj_id j)), (''name'', JStr (qj_name j)), (''type'', JStr ''deliver''),
          (''botId'', nullish_or (get_prop (qj_data j) ''botId'') JNull), (''payload'', qj_data j), (''failedReason'', failedReason),
          (''attemptsMade'', JNum (jint (int made))), (''timestamp'', JNum (jint (qj_timestamp j)))]) 1 False"

text \<open>The handler of failed attempts; a dead letter that cannot be stored is lost.\<close>

definition on_failed :: "ms \<Rightarrow> nat \<Rightarrow> json \<Rightarrow> queue_job \<Rightarrow> job_queues \<Rightarrow> job_queues" where
  "on_failed now made failedReason j qs =
     (if made \<ge> WEBHOOK_ATTEMPTS
      then (case add_job ''webhook-queue-dlq'' (webhook_dead_letter now made failedReason j) qs of None \<Rightarrow> qs | Some qs' \<Rightarrow> qs')
      else qs)"

definition startWebhookWorker ::
  "(delivery_failure \<Rightarrow> ustring) \<Rightarrow> (string \<Rightarrow> string \<Rightarrow> string) \<Rightarrow> (string option \<Rightarrow> string option) \<Rightarrow> (nat \<Rightarrow> attempt) \<Rightarrow> (delivery_failure \<Rightarrow> json) \<Rightarrow>
   queue_job \<Rightarrow> delivery_world \<times> job_queues \<Rightarrow> delivery_world \<times> job_queues" where
  "startWebhookWorker show_err hmac decrypt_secret as err_json q s =
     (case run_attempts (\<lambda>n. deliverWebhookJob show_err hmac decrypt_secret (as n) n) WEBHOOK_ATTEMPTS 1 (read_webhook_job (qj_data q)) (fst s) of
        (w, None) \<Rightarrow> (w, snd s)
      | (w, Some e) \<Rightarrow> (w, on_failed (at_ended (as WEBHOOK_ATTEMPTS)) WEBHOOK_ATTEMPTS (err_json e) q (snd s)))"

section \<open>The cache\<close>

lemma cache_bounded:
  assumes "length c \<le> MATCH_CACHE_MAX"
  shows "length (cacheWebhookMatch now b kind hooks c) \<le> MATCH_CACHE_MAX"
proof -
  define c' where "c' = (if length c \<ge> MATCH_CACHE_MAX then (case c of [] \<Rightarrow> c | (oldest, _) # _ \<Rightarrow> jdel oldest c) else c)"
  have "length c' < MATCH_CACHE_MAX"
  proof (cases c)
    case (Cons p cs)
    then show ?thesis using assms
      by (auto simp: c'_def AList.delete_eq MATCH_CACHE_MAX_def split: prod.split intro!: le_less_trans [OF length_filter_le])
  qed (simp add: c'_def MATCH_CACHE_MAX_def)
  then show ?thesis
    unfolding cacheWebhookMatch_def c'_def [symmetric] by (simp add: length_jset)
qed

lemma cached_match:
  "jget (cacheWebhookMatch now b kind hooks c) k = Some e \<Longrightarrow>
     (k = webhookMatchCacheKey b kind \<and> e = \<lparr> cm_expiresAt = now + MATCH_CACHE_TTL, cm_webhooks = hooks \<rparr>) \<or> jget c k = Some e"
  by (auto simp: cacheWebhookMatch_def split: if_splits list.splits)

lemma cache_key_inj:
  "CHR 0x00 \<notin> set b \<Longrightarrow> CHR 0x00 \<notin> set b' \<Longrightarrow> webhookMatchCacheKey b kind = webhookMatchCacheKey b' kind' \<Longrightarrow> b = b' \<and> kind = kind'"
  by (auto simp: webhookMatchCacheKey_def append_eq_append_conv2 append_eq_Cons_conv Cons_eq_append_conv)

text \<open>
  The caches a process can have at a time: dispatches overlap in any order, the answers of the
  database arrive at most \<open>slow\<close> after the moment whose rows they show.
\<close>

inductive match_cache_at :: "ms \<Rightarrow> (ms \<Rightarrow> api_db) \<Rightarrow> ms \<Rightarrow> match_cache \<Rightarrow> bool" for slow history where
  fresh: "match_cache_at slow history t []"
| waits: "match_cache_at slow history t c \<Longrightarrow> t \<le> t' \<Longrightarrow> match_cache_at slow history t' c"
| answer: "match_cache_at slow history t c \<Longrightarrow> t \<le> now \<Longrightarrow> queried \<le> now \<Longrightarrow> now - queried \<le> slow \<Longrightarrow> CHR 0x00 \<notin> set (de_botId ev) \<Longrightarrow>
    match_cache_at slow history now (snd (dispatch_answer now ev (history queried) c))"

lemma match_cache_ok:
  assumes "match_cache_at slow history t c"
  shows "length c \<le> MATCH_CACHE_MAX"
    and "jget c k = Some e \<Longrightarrow> \<exists>b kind queried. CHR 0x00 \<notin> set b \<and> k = webhookMatchCacheKey b kind \<and>
      cm_webhooks e = matching_webhooks b kind (history queried) \<and> queried \<le> t \<and> cm_expiresAt e \<le> queried + slow + MATCH_CACHE_TTL"
  using assms
proof (induction arbitrary: k e)
  case (waits t c t')
  { case 1 show ?case by (rule waits.IH(1)) }
  { case 2 then show ?case using waits.IH(2) waits.hyps(2) by (meson order.trans) }
next
  case (answer t c now queried ev)
  { case 1 show ?case using answer.IH(1) by (simp add: dispatch_answer_def Let_def cache_bounded) }
  { case 2
    then consider "k = webhookMatchCacheKey (de_botId ev) (de_type ev)"
        "e = \<lparr> cm_expiresAt = now + MATCH_CACHE_TTL, cm_webhooks = matching_webhooks (de_botId ev) (de_type ev) (history queried) \<rparr>"
      | "jget c k = Some e"
      by (auto simp: dispatch_answer_def Let_def dest!: cached_match)
    then show ?case
    proof cases
      case 1
      show ?thesis
        using answer.hyps 1 by (intro exI [of _ "de_botId ev"] exI [of _ "de_type ev"] exI [of _ queried]) auto
    next
      case 2
      then show ?thesis using answer.IH(2) answer.hyps(2) by (meson order.trans)
    qed }
qed (auto simp: MATCH_CACHE_MAX_def)

lemma enqueue_one:
  assumes "jq_up qs"
  shows "\<exists>qs'. add_job q j qs = Some qs' \<and> jq_up qs' \<and> set (jobs_in q qs) \<subseteq> set (jobs_in q qs') \<and>
    set (jobs_in q qs') \<subseteq> insert j (set (jobs_in q qs)) \<and> qj_id j \<in> qj_id ` set (jobs_in q qs')"
  using assms by (auto simp: add_job_def)

lemma enqueue_hooks_jobs:
  "jq_up qs \<Longrightarrow> jq_up (enqueue_hooks now nonce body ev hooks qs) \<and>
     set (jobs_in WEBHOOK_QUEUE qs) \<subseteq> set (jobs_in WEBHOOK_QUEUE (enqueue_hooks now nonce body ev hooks qs)) \<and>
     set (jobs_in WEBHOOK_QUEUE (enqueue_hooks now nonce body ev hooks qs))
       \<subseteq> set (jobs_in WEBHOOK_QUEUE qs) \<union> dispatch_job now nonce body ev ` set hooks \<and>
     (\<forall>h \<in> set hooks. qj_id (dispatch_job now nonce body ev h) \<in> qj_id ` set (jobs_in WEBHOOK_QUEUE (enqueue_hooks now nonce body ev hooks qs)))"
proof (induction hooks arbitrary: qs)
  case (Cons h hooks)
  obtain qs' where q: "add_job WEBHOOK_QUEUE (dispatch_job now nonce body ev h) qs = Some qs'" "jq_up qs'"
    "set (jobs_in WEBHOOK_QUEUE qs) \<subseteq> set (jobs_in WEBHOOK_QUEUE qs')"
    "set (jobs_in WEBHOOK_QUEUE qs') \<subseteq> insert (dispatch_job now nonce body ev h) (set (jobs_in WEBHOOK_QUEUE qs))"
    "qj_id (dispatch_job now nonce body ev h) \<in> qj_id ` set (jobs_in WEBHOOK_QUEUE qs')"
    using enqueue_one [OF Cons.prems] by blast
  have e: "enqueue_hooks now nonce body ev (h # hooks) qs = enqueue_hooks now nonce body ev hooks qs'"
    by (simp add: enqueue_hooks_def q(1))
  show ?case
    unfolding e using Cons.IH [OF q(2)] q by auto
qed (simp add: enqueue_hooks_def)


definition demo_hook :: webhook_row where
  "demo_hook = \<lparr> wh_id = ''h'', wh_owner = ''u'', wh_name = ''n'', wh_url = ''http://x.y'', wh_events = [''message''], wh_bot = None,
     wh_secret = None, wh_enabled = True, wh_deliveryCount = 0, wh_lastStatus = None, wh_lastError = None, wh_lastDeliveredAt = None \<rparr>"

definition hook_db :: "webhook_row list \<Rightarrow> api_db" where
  "hook_db hs = \<lparr> db_accounts = [], db_bots = [], db_scripts = [], db_webhooks = hs, db_deliveries = [], db_logs = [], db_events = [] \<rparr>"

definition demo_event :: dispatch_event where
  "demo_event = \<lparr> de_botId = ''b'', de_platform = ''twitch'', de_type = ''message'', de_payload = JObj [], de_timestamp = 1, de_eventId = None \<rparr>"


section \<open>Attempts\<close>

lemma find_change:
  "(\<And>h. wh_id (f h) = wh_id h) \<Longrightarrow> webhook_of i (update_webhook i f db) = map_option f (webhook_of i db)"
proof -
  assume f: "\<And>h. wh_id (f h) = wh_id h"
  have "find (\<lambda>h. wh_id h = i) (change (\<lambda>h. wh_id h = i) f hs) = map_option f (find (\<lambda>h. wh_id h = i) hs)" for hs
    by (induction hs) (auto simp: change_def f)
  then show ?thesis by (simp add: webhook_of_def update_webhook_def)
qed

lemma history_keeps_webhooks [simp]: "webhook_of i (dw_db (recordHistory a d w)) = webhook_of i (dw_db w)"
  by (simp add: recordHistory_def Let_def webhook_of_def add_delivery_def prune_deliveries_def)

lemma history_keeps_sent [simp]: "dw_sent (recordHistory a d w) = dw_sent w"
  by (simp add: recordHistory_def Let_def)

lemma marks_overwrite [simp]:
  "delivered t (undelivered t' m h) = delivered t h" "undelivered t m (undelivered t' m' h) = undelivered t m h"
  by (simp_all add: delivered_def undelivered_def)

definition endpoint_accepts :: "webhook_job \<Rightarrow> attempt \<Rightarrow> bool" where
  "endpoint_accepts j a \<longleftrightarrow> snd (deliverWebhook (at_net a) (wj_url j)) = Inr ()"

definition refusal :: "webhook_job \<Rightarrow> attempt \<Rightarrow> delivery_failure" where
  "refusal j a = (case snd (deliverWebhook (at_net a) (wj_url j)) of Inl e \<Rightarrow> NotAccepted e | Inr _ \<Rightarrow> NotRecorded)"

text \<open>The requests of an attempt with their headers.\<close>

definition sends :: "(string \<Rightarrow> string \<Rightarrow> string) \<Rightarrow> (string option \<Rightarrow> string option) \<Rightarrow> webhook_job \<Rightarrow> attempt \<Rightarrow> (string \<times> (string \<times> string) list) list" where
  "sends hmac decrypt_secret j a =
     map (\<lambda>r. (snd r, webhook_headers hmac (decrypt_secret (wj_secret j)) (wj_body j))) (fst (deliverWebhook (at_net a) (wj_url j)))"

lemma attempt_outcome:
  assumes "at_marksOk a" "at_marksFailed a" "webhook_of (wj_webhook j) (dw_db w) = Some h"
    and "deliverWebhookJob show_err hmac decrypt_secret a n j w = (w', r)"
  shows "dw_sent w' = dw_sent w @ sends hmac decrypt_secret j a"
    and "endpoint_accepts j a \<Longrightarrow> r = None \<and> webhook_of (wj_webhook j) (dw_db w') = Some (delivered (at_ended a) h)"
    and "\<not> endpoint_accepts j a \<Longrightarrow> r = Some (refusal j a) \<and>
      webhook_of (wj_webhook j) (dw_db w') = Some (undelivered (at_ended a) (show_err (refusal j a)) h)"
proof -
  obtain reqs out where d: "deliverWebhook (at_net a) (wj_url j) = (reqs, out)" by fastforce
  have ids: "wh_id (delivered t h) = wh_id h" "wh_id (undelivered t m h) = wh_id h" for t m h
    by (simp_all add: delivered_def undelivered_def)
  show "dw_sent w' = dw_sent w @ sends hmac decrypt_secret j a"
    using assms d by (auto simp: deliverWebhookJob_def attempt_failed_def mark_webhook_def Let_def sends_def split: sum.splits)
  show "endpoint_accepts j a \<Longrightarrow> r = None \<and> webhook_of (wj_webhook j) (dw_db w') = Some (delivered (at_ended a) h)"
    using assms d ids by (auto simp: deliverWebhookJob_def mark_webhook_def Let_def endpoint_accepts_def find_change)
  show "\<not> endpoint_accepts j a \<Longrightarrow> r = Some (refusal j a) \<and>
      webhook_of (wj_webhook j) (dw_db w') = Some (undelivered (at_ended a) (show_err (refusal j a)) h)"
    using assms d ids
    by (auto simp: deliverWebhookJob_def attempt_failed_def mark_webhook_def Let_def endpoint_accepts_def refusal_def find_change split: sum.splits)
qed

lemma run_attempts_outcome:
  assumes "\<And>k. at_marksOk (as k) \<and> at_marksFailed (as k)" "webhook_of (wj_webhook j) (dw_db w) = Some h"
    and "run_attempts (\<lambda>k. deliverWebhookJob show_err hmac decrypt_secret (as k) k) (Suc left) n j w = (w', r)"
  shows "case find (\<lambda>k. endpoint_accepts j (as k)) [n..<n + Suc left] of
      Some k \<Rightarrow> r = None \<and> webhook_of (wj_webhook j) (dw_db w') = Some (delivered (at_ended (as k)) h) \<and>
        dw_sent w' = dw_sent w @ concat (map (\<lambda>k. sends hmac decrypt_secret j (as k)) [n..<Suc k])
    | None \<Rightarrow> r = Some (refusal j (as (n + left))) \<and>
        webhook_of (wj_webhook j) (dw_db w') = Some (undelivered (at_ended (as (n + left))) (show_err (refusal j (as (n + left)))) h) \<and>
        dw_sent w' = dw_sent w @ concat (map (\<lambda>k. sends hmac decrypt_secret j (as k)) [n..<n + Suc left])"
  using assms(2,3)
proof (induction left arbitrary: n w h)
  case 0
  obtain w1 r1 where d: "deliverWebhookJob show_err hmac decrypt_secret (as n) n j w = (w1, r1)" by fastforce
  show ?case
    using attempt_outcome [OF conjunct1 [OF assms(1)] conjunct2 [OF assms(1)] 0(1) d] 0(2) d
    by (cases "endpoint_accepts j (as n)") auto
next
  case (Suc left)
  obtain w1 r1 where d: "deliverWebhookJob show_err hmac decrypt_secret (as n) n j w = (w1, r1)" by fastforce
  note a = attempt_outcome [OF conjunct1 [OF assms(1)] conjunct2 [OF assms(1)] Suc.prems(1) d]
  have upt: "[n..<n + Suc (Suc left)] = n # [Suc n..<Suc n + Suc left]" by (subst upt_conv_Cons) simp_all
  show ?case
  proof (cases "endpoint_accepts j (as n)")
    case True
    then show ?thesis using a Suc.prems(2) d unfolding upt by auto
  next
    case False
    then have r1: "r1 = Some (refusal j (as n))"
      and h1: "webhook_of (wj_webhook j) (dw_db w1) = Some (undelivered (at_ended (as n)) (show_err (refusal j (as n))) h)" using a by auto
    have "run_attempts (\<lambda>k. deliverWebhookJob show_err hmac decrypt_secret (as k) k) (Suc left) (Suc n) j w1 = (w', r)"
      using Suc.prems(2) d r1 by simp
    note rest = Suc.IH [OF h1 this]
    show ?thesis
    proof (cases "find (\<lambda>k. endpoint_accepts j (as k)) [Suc n..<Suc n + Suc left]")
      case (Some k)
      then have "k \<in> set [Suc n..<Suc n + Suc left]" by (metis find_Some_iff nth_mem)
      then have "Suc n \<le> k" unfolding set_upt by simp
      then have "[n..<Suc k] = n # [Suc n..<Suc k]" by (subst upt_conv_Cons) simp_all
      then show ?thesis using rest Some False a(1) unfolding upt by simp
    next
      case None
      then show ?thesis using rest False a(1) unfolding upt by simp
    qed
  qed
qed


definition demo_attempt :: "nat \<Rightarrow> attempt" where
  "demo_attempt n = \<lparr> at_net = demo_net\<lparr> allow_private := True, dns_check := False,
      http := (\<lambda>hop u. Some \<lparr> rs_status = (if n < 2 then 503 else 200), rs_location = None \<rparr>) \<rparr>,
    at_began = 10, at_ended = 20, at_marksOk = True, at_marksFailed = True, at_records = True, at_prunes = True \<rparr>"

definition demo_queued :: queue_job where
  "demo_queued = dispatch_job 0 (\<lambda>i. ''n'') ''{}'' demo_event (job_of_row ''b'' ''message'' demo_hook)"

lemma direct_answer:
  assumes "allow_private n" "\<not> dns_check n" "http n 0 u = Some res" "\<not> (300 \<le> rs_status res \<and> rs_status res < 400)"
  shows "fetchWithGuard n u = ([(0, u)], Inr res)"
proof -
  have "MAX_REDIRECTS + 1 = Suc 5" by (simp add: MAX_REDIRECTS_def)
  moreover have "assertWebhookUrlAllowed n 0 u = Inr ()"
    using assms(1,2) by (simp add: assertWebhookUrlAllowed_def isWebhookUrlAllowed_def)
  ultimately show ?thesis using assms(3,4) by (auto simp: fetchWithGuard_def)
qed

lemma demo_second_accepted:
  "find (\<lambda>k. endpoint_accepts j (demo_attempt k)) [1..<6] = Some 2"
proof -
  have e: "endpoint_accepts j (demo_attempt k) \<longleftrightarrow> 2 \<le> k" for k
    using direct_answer [of "at_net (demo_attempt k)" "wj_url j" "\<lparr> rs_status = (if k < 2 then 503 else 200), rs_location = None \<rparr>"]
    by (simp add: endpoint_accepts_def deliverWebhook_def) (simp add: demo_attempt_def)
  show ?thesis unfolding e by (simp add: upt_rec)
qed


section \<open>Where deliveries go wrong\<close>

text \<open>A webhook for all bots gets the events of the bots of every user.\<close>

lemma events_of_all_tenants:
  assumes "h \<in> set (db_webhooks db)" "wh_enabled h" "wh_bot h = None" "kind \<in> set (wh_events h)"
    and "b \<in> set (db_bots db)" "bt_owner b \<noteq> wh_owner h"
  shows "job_of_row (bt_id b) kind h \<in> set (matching_webhooks (bt_id b) kind db)"
  using assms by (auto simp: matching_webhooks_def matches_event_def)

text \<open>
  A webhook that is deleted while a job of it waits: an accepted delivery that cannot be recorded counts as a
  failure, so the endpoint gets the event five times.
\<close>

lemma deleted_webhook_sent_again:
  assumes "webhook_of (wj_webhook j) (dw_db w) = None" "\<And>k. endpoint_accepts j (as k)"
  shows "run_attempts (\<lambda>k. deliverWebhookJob show_err hmac decrypt_secret (as k) k) (Suc left) n j w =
    (w\<lparr> dw_sent := dw_sent w @ concat (map (\<lambda>k. sends hmac decrypt_secret j (as k)) [n..<n + Suc left]) \<rparr>, Some NotRecorded)"
  using assms(1)
proof (induction left arbitrary: n w)
  case (Suc left)
  have once: "deliverWebhookJob show_err hmac decrypt_secret (as n) n j w = (w\<lparr> dw_sent := dw_sent w @ sends hmac decrypt_secret j (as n) \<rparr>, Some NotRecorded)"
    using assms(2) [of n] Suc.prems
    by (auto simp: deliverWebhookJob_def attempt_failed_def mark_webhook_def recordHistory_def Let_def sends_def endpoint_accepts_def job_row_def
        history_row_def split: prod.split)
  have "[n..<n + Suc (Suc left)] = n # [Suc n..<Suc n + Suc left]" by (subst upt_conv_Cons) simp_all
  then show ?case using once Suc.IH [of "w\<lparr> dw_sent := dw_sent w @ sends hmac decrypt_secret j (as n) \<rparr>" "Suc n"] Suc.prems by simp
next
  case 0
  then show ?case using assms(2) [of n]
    by (auto simp: deliverWebhookJob_def attempt_failed_def mark_webhook_def recordHistory_def Let_def sends_def endpoint_accepts_def job_row_def
        history_row_def split: prod.split)
qed

text \<open>A dead letter that is replayed carries the data of the job one level too deep: the worker finds no address in it.\<close>

lemma replayed_delivery_has_no_url:
  "wj_url (read_webhook_job (qj_data (replay_job now ''webhook'' (webhook_dead_letter t made e q)))) = ''undefined''"
  by (simp add: read_webhook_job_def replay_job_def webhook_dead_letter_def new_job_def Let_def nullish_or_def nullish_def)

text \<open>The dead letter holds the secret of the webhook as the job does.\<close>

lemma dead_letter_holds_secret:
  "qj_data q = webhook_job_json j \<Longrightarrow>
     get_prop (get_prop (qj_data (webhook_dead_letter t made e q)) ''payload'') ''secret'' = text_json (wj_secret j)"
  by (simp add: webhook_dead_letter_def new_job_def webhook_job_json_def)

text \<open>The random suffix makes the id of every job new: the same event twice is two jobs.\<close>

lemma same_event_queued_twice:
  "nonce (wj_webhook h) \<noteq> nonce' (wj_webhook h) \<Longrightarrow> qj_id (dispatch_job now nonce body ev h) \<noteq> qj_id (dispatch_job now' nonce' body ev h)"
  by (simp add: dispatch_job_def new_job_def)

text \<open>What goes out names neither the contract version of the event nor the event where it has no key.\<close>

lemma envelope_without_version: "get_prop (event_json d ev) ''v'' = JUndef"
  by (simp add: event_json_def split: option.split)

end
