(* ===== verification/TelegramHook.thy ===== *)
theory TelegramHook
  imports WebhookGuard BotRoutes
begin

text \<open>
  The receiver of Telegram updates, packages/api/src/routes/telegram.ts: the throttle of failed authentications, a
  map in the memory of the process, and the handler. SHA-256 is an argument. A request reads the clock when it comes in
  and again when it fails, for the database answers in between; other requests come and go meanwhile.
\<close>

section \<open>The throttle\<close>

type_synonym auth_failures = "(string, nat \<times> ms) jmap"

definition FAILED_AUTH_MAX :: nat where "FAILED_AUTH_MAX = 20"
definition FAILED_AUTH_WINDOW :: ms where "FAILED_AUTH_WINDOW = 10000"

definition authFlooded :: "ms \<Rightarrow> string \<Rightarrow> auth_failures \<Rightarrow> auth_failures \<times> bool" where
  "authFlooded now ip m =
     (case jget m ip of
        None \<Rightarrow> (jset ip (0, now) m, False)
      | Some (n, windowStart) \<Rightarrow>
          if now - windowStart \<ge> FAILED_AUTH_WINDOW then (jset ip (0, now) m, False) else (m, n \<ge> FAILED_AUTH_MAX))"

definition drop_oldest :: "auth_failures \<Rightarrow> auth_failures" where
  "drop_oldest m = (case m of [] \<Rightarrow> m | (oldest, _) # _ \<Rightarrow> jdel oldest m)"

definition recordAuthFailure :: "ms \<Rightarrow> string \<Rightarrow> auth_failures \<Rightarrow> auth_failures" where
  "recordAuthFailure now ip m =
     (case jget m ip of
        None \<Rightarrow> jset ip (1, now) m
      | Some (n, windowStart) \<Rightarrow>
          if now - windowStart \<ge> FAILED_AUTH_WINDOW then jset ip (1, now) m
          else let m = jset ip (n + 1, windowStart) m
               in if length m > 10000 then drop_oldest m else m)"

section \<open>The handler\<close>

definition safeEqual :: "(string \<Rightarrow> string) \<Rightarrow> string \<Rightarrow> string \<Rightarrow> bool" where
  "safeEqual sha a b \<longleftrightarrow> sha a = sha b"

record hook_request =
  hr_ip :: string
  hr_botId :: string
  hr_slug :: string
  hr_secret :: "string option"
  hr_body :: json

text \<open>The token of the bot if the request names one and knows both secrets.\<close>

definition authentic :: "(string \<Rightarrow> string) \<Rightarrow> (string option \<Rightarrow> string option) \<Rightarrow> hook_request \<Rightarrow> api_db \<Rightarrow> bool" where
  "authentic sha decrypt_token r db \<longleftrightarrow>
     (case find (\<lambda>b. bt_id b = hr_botId r) (db_bots db) of
        None \<Rightarrow> False
      | Some b \<Rightarrow>
          bt_platform b = ''telegram'' \<and>
          (case find (\<lambda>a. ac_id a = bt_account b) (db_accounts db) of
             None \<Rightarrow> False
           | Some a \<Rightarrow>
               (case decrypt_token (jget (ac_secrets a) ''token'') of
                  None \<Rightarrow> False
                | Some token \<Rightarrow>
                    token \<noteq> [] \<and> safeEqual sha (telegramWebhookSlug sha (hr_botId r) token) (hr_slug r) \<and>
                    (case hr_secret r of None \<Rightarrow> False | Some secret \<Rightarrow> secret \<noteq> [] \<and> safeEqual sha secret token))))"

definition valid_update :: "json \<Rightarrow> bool" where
  "valid_update body \<longleftrightarrow> is_plain_object body \<and> (\<exists>x. get_prop body ''update_id'' = JNum x)"

record hook_world =
  hw_failures :: auth_failures
  hw_queues :: job_queues

text \<open>A request that is not throttled, from the lookup on.\<close>

definition receive ::
  "(string \<Rightarrow> string) \<Rightarrow> (string option \<Rightarrow> string option) \<Rightarrow> (jsnum \<Rightarrow> string) \<Rightarrow> ms \<Rightarrow> hook_request \<Rightarrow> api_db \<Rightarrow> hook_world \<Rightarrow> hook_world \<times> unit reply" where
  "receive sha decrypt_token show_num now r db w =
     (if \<not> authentic sha decrypt_token r db
      then (w\<lparr> hw_failures := recordAuthFailure now (hr_ip r) (hw_failures w) \<rparr>, Rejects 404 ''Not found'')
      else if \<not> is_plain_object (hr_body r) \<or> \<not> (case get_prop (hr_body r) ''update_id'' of JNum _ \<Rightarrow> True | _ \<Rightarrow> False)
      then (w, Rejects 400 ''Invalid update payload'')
      else case enqueueTelegramUpdate show_num now (hr_botId r) (hr_body r) (hw_queues w) of
             None \<Rightarrow> (w, Rejects 502 ''Queue unavailable'')
           | Some qs \<Rightarrow> (w\<lparr> hw_queues := qs \<rparr>, Answers ()))"

definition telegram_webhook ::
  "(string \<Rightarrow> string) \<Rightarrow> (string option \<Rightarrow> string option) \<Rightarrow> (jsnum \<Rightarrow> string) \<Rightarrow> ms \<Rightarrow> ms \<Rightarrow> hook_request \<Rightarrow> api_db \<Rightarrow> hook_world \<Rightarrow> hook_world \<times> unit reply" where
  "telegram_webhook sha decrypt_token show_num now later r db w =
     (case authFlooded now (hr_ip r) (hw_failures w) of
        (m, True) \<Rightarrow> (w\<lparr> hw_failures := m \<rparr>, Rejects 404 ''Not found'')
      | (m, False) \<Rightarrow> receive sha decrypt_token show_num later r db (w\<lparr> hw_failures := m \<rparr>))"

text \<open>An update reaches the worker only with both secrets of a Telegram bot that there is.\<close>

lemma only_authentic_updates:
  "hw_queues (fst (telegram_webhook sha decrypt_token show_num now later r db w)) \<noteq> hw_queues w \<Longrightarrow>
     authentic sha decrypt_token r db \<and> hw_queues (fst (telegram_webhook sha decrypt_token show_num now later r db w)) =
       the (enqueueTelegramUpdate show_num later (hr_botId r) (hr_body r) (hw_queues w))"
  by (auto simp: telegram_webhook_def receive_def split: prod.splits bool.splits if_splits option.splits)

text \<open>Which check failed cannot be told from the answer.\<close>

lemma uniform_answer:
  "\<not> authentic sha decrypt_token r db \<Longrightarrow> snd (telegram_webhook sha decrypt_token show_num now later r db w) = Rejects 404 ''Not found''"
  by (simp add: telegram_webhook_def receive_def split: prod.split bool.split)

text \<open>Once an address is throttled, valid updates from it are refused too.\<close>

lemma throttled_alike:
  "snd (authFlooded now (hr_ip r) (hw_failures w)) \<Longrightarrow>
     snd (telegram_webhook sha decrypt_token show_num now later r db w) = Rejects 404 ''Not found''"
  by (cases "authFlooded now (hr_ip r) (hw_failures w)") (simp add: telegram_webhook_def)

text \<open>
  The map is trimmed only when an address fails a second time in its window: any number of addresses
  with a request each stay in it.
\<close>

lemma addresses_pile_up:
  "distinct ips \<Longrightarrow> length (fold (\<lambda>ip m. fst (authFlooded now ip m)) ips []) = length ips"
proof -
  have "fold (\<lambda>ip m. fst (authFlooded now ip m)) ips m = m @ map (\<lambda>ip. (ip, (0, now))) ips"
    if "distinct ips" "set ips \<inter> fst ` set m = {}" for m
    using that
  proof (induction ips arbitrary: m)
    case (Cons ip ips)
    have "jget m ip = None" using Cons.prems(2) by (simp add: map_of_eq_None_iff)
    then have "fst (authFlooded now ip m) = m @ [(ip, (0, now))]"
      using Cons.prems(2) by (simp add: authFlooded_def jset_new)
    then show ?case using Cons.IH [of "m @ [(ip, (0, now))]"] Cons.prems by auto
  qed simp
  then show "distinct ips \<Longrightarrow> length (fold (\<lambda>ip m. fst (authFlooded now ip m)) ips []) = length ips" by simp
qed

section \<open>How many failures get through\<close>

text \<open>
  Requests come in, fail or end otherwise, in any order; those of an address that are under way are counted by
  the occurrences of the address in a list.
\<close>

datatype hook_event = Arrives string ms | Fails string ms | Passes string ms

fun event_ip :: "hook_event \<Rightarrow> string" where
  "event_ip (Arrives ip t) = ip" | "event_ip (Fails ip t) = ip" | "event_ip (Passes ip t) = ip"

fun event_at :: "hook_event \<Rightarrow> ms" where
  "event_at (Arrives ip t) = t" | "event_at (Fails ip t) = t" | "event_at (Passes ip t) = t"

fun hook_step :: "hook_event \<Rightarrow> auth_failures \<times> string list \<Rightarrow> auth_failures \<times> string list" where
  "hook_step (Arrives ip t) (m, fl) = (case authFlooded t ip m of (m, flooded) \<Rightarrow> (m, if flooded then fl else ip # fl))"
| "hook_step (Fails ip t) (m, fl) = (if ip \<in> set fl then (recordAuthFailure t ip m, remove1 ip fl) else (m, fl))"
| "hook_step (Passes ip t) (m, fl) = (m, remove1 ip fl)"

text \<open>When a lookup for an address failed.\<close>

definition failed_at :: "string \<Rightarrow> hook_event \<Rightarrow> string list \<Rightarrow> ms list" where
  "failed_at ip e fl = (case e of Fails i t \<Rightarrow> if i = ip \<and> i \<in> set fl then [t] else [] | _ \<Rightarrow> [])"

fun failures :: "string \<Rightarrow> hook_event list \<Rightarrow> auth_failures \<times> string list \<Rightarrow> ms list" where
  "failures ip [] s = []"
| "failures ip (e # es) s = failed_at ip e (snd s) @ failures ip es (hook_step e s)"

fun never_more :: "nat \<Rightarrow> string \<Rightarrow> hook_event list \<Rightarrow> auth_failures \<times> string list \<Rightarrow> bool" where
  "never_more k ip [] s \<longleftrightarrow> count_list (snd s) ip \<le> k"
| "never_more k ip (e # es) s \<longleftrightarrow> count_list (snd s) ip \<le> k \<and> never_more k ip es (hook_step e s)"

definition in_span :: "ms \<Rightarrow> ms list \<Rightarrow> nat" where
  "in_span s ts = length (filter (\<lambda>t. s \<le> t \<and> t < s + 10000) ts)"

text \<open>
  What holds of an address with the failures up to now: those of its window are counted, and of
  an interval as long as a window the earlier windows have at most one budget, or two once it is over.
\<close>

definition throttle_ok :: "nat \<Rightarrow> ms \<Rightarrow> string \<Rightarrow> ms \<Rightarrow> ms list \<Rightarrow> auth_failures \<times> string list \<Rightarrow> bool" where
  "throttle_ok k s ip now ts st \<longleftrightarrow>
     (case jget (fst st) ip of
        None \<Rightarrow> ts = [] \<and> ip \<notin> set (snd st)
      | Some (n, start) \<Rightarrow> start \<le> now \<and> n + count_list (snd st) ip \<le> 19 + k \<and>
          (\<forall>t \<in> set ts. t \<le> now \<and> t < start + 10000) \<and>
          length (filter (\<lambda>t. start \<le> t) ts) \<le> n \<and>
          in_span s (filter (\<lambda>t. t < start) ts) \<le> (if start < s + 10000 then 19 + k else 2 * (19 + k)))"

lemma span_split: "in_span s ts = in_span s (filter (\<lambda>t. t < u) ts) + in_span s (filter (\<lambda>t. u \<le> t) ts)"
  by (induction ts) (auto simp: in_span_def)

lemma in_span_le: "in_span s ts \<le> length ts"
  by (simp add: in_span_def)

lemma in_span_0: "(\<And>t. t \<in> set ts \<Longrightarrow> t < s \<or> s + 10000 \<le> t) \<Longrightarrow> in_span s ts = 0"
  by (fastforce simp: in_span_def filter_empty_conv)

lemma throttle_total:
  assumes "throttle_ok k s ip now ts st"
  shows "in_span s ts \<le> 2 * (19 + k)"
proof (cases "jget (fst st) ip")
  case (Some p)
  obtain n start where p: "p = (n, start)" by fastforce
  have ok: "n \<le> 19 + k" "length (filter (\<lambda>t. start \<le> t) ts) \<le> n"
    "in_span s (filter (\<lambda>t. t < start) ts) \<le> (if start < s + 10000 then 19 + k else 2 * (19 + k))"
    using assms Some p by (auto simp: throttle_ok_def)
  show ?thesis
  proof (cases "start < s + 10000")
    case True
    then show ?thesis
      using ok span_split [of s ts start] in_span_le [of s "filter (\<lambda>t. start \<le> t) ts"] by simp
  next
    case False
    then have "in_span s (filter (\<lambda>t. start \<le> t) ts) = 0" by (intro in_span_0) auto
    then show ?thesis using ok False span_split [of s ts start] by simp
  qed
qed (use assms in \<open>simp add: throttle_ok_def in_span_def\<close>)

text \<open>A new window.\<close>

lemma new_window:
  assumes "throttle_ok k s ip now ts st" "jget (fst st) ip = Some (n, start)" "start + 10000 \<le> t" "now \<le> t"
  shows "in_span s (filter (\<lambda>u. u < t) ts) \<le> (if t < s + 10000 then 19 + k else 2 * (19 + k))"
    and "\<forall>u \<in> set ts. u < t"
proof -
  have ok: "start \<le> now" "n \<le> 19 + k" "length (filter (\<lambda>t. start \<le> t) ts) \<le> n"
    "\<forall>u \<in> set ts. u < start + 10000"
    using assms(1,2) by (auto simp: throttle_ok_def)
  show before: "\<forall>u \<in> set ts. u < t" using ok(4) assms(3) by fastforce
  then have all: "filter (\<lambda>u. u < t) ts = ts" by (simp add: filter_id_conv)
  show "in_span s (filter (\<lambda>u. u < t) ts) \<le> (if t < s + 10000 then 19 + k else 2 * (19 + k))"
  proof (cases "t < s + 10000")
    case True
    then have "start < s" using assms(3) by simp
    then have "in_span s (filter (\<lambda>t. t < start) ts) = 0" by (intro in_span_0) auto
    then show ?thesis
      unfolding all using True ok(2,3) span_split [of s ts start] in_span_le [of s "filter (\<lambda>t. start \<le> t) ts"] by simp
  next
    case False
    then show ?thesis unfolding all using throttle_total [OF assms(1)] by simp
  qed
qed

lemma count_remove1: "count_list (remove1 x xs) y = (if x = y then count_list xs y - 1 else count_list xs y)"
  by (induction xs) auto

lemma other_entry:
  assumes "event_ip e \<noteq> ip" "length m \<le> 10000"
  shows "jget (fst (hook_step e (m, fl))) ip = jget m ip"
proof -
  have key: "i \<in> fst ` set m" if "jget m i = Some u" for i u
    using map_of_SomeD [OF that] by force
  show ?thesis
    using assms by (cases e) (auto simp: authFlooded_def recordAuthFailure_def Let_def length_jset dest!: key split: option.split)
qed

lemma throttle_other:
  assumes "throttle_ok k s ip now ts st" "now \<le> now'" "jget (fst st') ip = jget (fst st) ip" "count_list (snd st') ip \<le> count_list (snd st) ip"
  shows "throttle_ok k s ip now' ts st'"
  using assms unfolding throttle_ok_def by (auto simp: count_list_0_iff [symmetric] split: option.splits)

lemma throttle_arrives:
  assumes ok: "throttle_ok k s ip now ts (m, fl)" and t: "now \<le> t" and k: "count_list (snd (hook_step (Arrives ip t) (m, fl))) ip \<le> k"
  shows "throttle_ok k s ip t ts (hook_step (Arrives ip t) (m, fl))"
proof (cases "jget m ip")
  case None
  then show ?thesis using ok k by (simp add: throttle_ok_def authFlooded_def in_span_def)
next
  case (Some p)
  obtain n start where p: "p = (n, start)" by fastforce
  show ?thesis
  proof (cases "t - start \<ge> 10000")
    case True
    then have "filter (\<lambda>u. t \<le> u) ts = []"
      using new_window(2) [OF ok _ _ t, of n start] Some p by (auto simp: filter_empty_conv)
    then show ?thesis
      using new_window [OF ok _ _ t, of n start] Some p True k
      by (auto simp: throttle_ok_def authFlooded_def FAILED_AUTH_WINDOW_def intro: less_imp_le)
  next
    case False
    then have "hook_step (Arrives ip t) (m, fl) = (m, if n \<ge> 20 then fl else ip # fl)"
      using Some p by (simp add: authFlooded_def FAILED_AUTH_WINDOW_def FAILED_AUTH_MAX_def)
    then show ?thesis
      using ok k t Some p by (auto simp: throttle_ok_def split: if_splits)
  qed
qed

lemma throttle_fails:
  assumes ok: "throttle_ok k s ip now ts (m, fl)" and t: "now \<le> t" and k: "count_list (snd (hook_step (Fails ip t) (m, fl))) ip \<le> k"
    and "ip \<in> set fl" "length m \<le> 10000"
  shows "throttle_ok k s ip t (ts @ [t]) (hook_step (Fails ip t) (m, fl))"
proof -
  obtain n start where p: "jget m ip = Some (n, start)"
    using ok assms(4) by (auto simp: throttle_ok_def split: option.splits)
  have one: "count_list (remove1 ip fl) ip = count_list fl ip - 1" "0 < count_list fl ip"
    using assms(4) by (auto simp: count_remove1 count_list_0_iff intro: gr0I)
  show ?thesis
  proof (cases "t - start \<ge> 10000")
    case True
    then have "filter (\<lambda>u. t \<le> u) ts = []"
      using new_window(2) [OF ok _ _ t, of n start] p by (auto simp: filter_empty_conv)
    then show ?thesis
      using new_window [OF ok _ _ t, of n start] p True k assms(4)
      by (auto simp: throttle_ok_def recordAuthFailure_def FAILED_AUTH_WINDOW_def intro: less_imp_le)
  next
    case False
    have "length (jset ip (Suc n, start) m) \<le> 10000"
      using assms(5) p by (auto simp: length_jset dest!: map_of_SomeD intro: rev_image_eqI)
    then have "hook_step (Fails ip t) (m, fl) = (jset ip (n + 1, start) m, remove1 ip fl)"
      using False p assms(4) by (simp add: recordAuthFailure_def FAILED_AUTH_WINDOW_def Let_def not_less)
    moreover have "start \<le> t" using ok p t by (auto simp: throttle_ok_def)
    ultimately show ?thesis
      using ok p t False one by (auto simp: throttle_ok_def)
  qed
qed

lemma throttle_step:
  assumes ok: "throttle_ok k s ip now ts (m, fl)" and t: "now \<le> event_at e" and k: "count_list (snd (hook_step e (m, fl))) ip \<le> k"
    and len: "length m \<le> 10000"
  shows "throttle_ok k s ip (event_at e) (ts @ failed_at ip e fl) (hook_step e (m, fl))"
proof (cases "event_ip e = ip")
  case False
  have "count_list (snd (hook_step e (m, fl))) ip \<le> count_list fl ip"
    using False by (cases e) (auto simp: count_remove1 split: prod.split)
  then show ?thesis
    using throttle_other [OF ok t, of "hook_step e (m, fl)"] other_entry [OF False len, of fl] False by (cases e) (auto simp: failed_at_def)
next
  case True
  show ?thesis
  proof (cases e)
    case (Arrives i t)
    with True have e: "e = Arrives ip t" by (simp add: failed_at_def)
    then show ?thesis using throttle_arrives [OF ok, of t] assms(2,3) by (simp add: failed_at_def)
  next
    case (Fails i t)
    show ?thesis
    proof (cases "ip \<in> set fl")
      case True
      then show ?thesis using throttle_fails [OF ok, of t] assms \<open>event_ip e = ip\<close> Fails by (simp add: failed_at_def)
    next
      case False
      then show ?thesis using throttle_other [OF ok t, of "(m, fl)"] \<open>event_ip e = ip\<close> Fails by (simp add: failed_at_def)
    qed
  next
    case (Passes i t)
    have "throttle_ok k s ip t ts (m, remove1 i fl)"
      by (rule throttle_other [OF ok]) (use Passes assms in \<open>auto simp: count_remove1\<close>)
    then show ?thesis using Passes by (simp add: failed_at_def)
  qed
qed

lemma hook_step_keys:
  assumes "fst ` set m \<subseteq> A" "jmap_ok m" "event_ip e \<in> A"
  shows "fst ` set (fst (hook_step e (m, fl))) \<subseteq> A \<and> jmap_ok (fst (hook_step e (m, fl)))"
proof -
  have del: "fst ` set (drop_oldest m) \<subseteq> fst ` set m" "jmap_ok m \<Longrightarrow> jmap_ok (drop_oldest m)" for m
    by (auto simp: drop_oldest_def AList.delete_eq distinct_map_filter split: list.split)
  have "fst ` set (fst (authFlooded t i m)) \<subseteq> insert i (fst ` set m)" for t i
    by (simp add: authFlooded_def dom_update subset_insertI split: option.split)
  moreover have "fst ` set (recordAuthFailure t i m) \<subseteq> insert i (fst ` set m)" for t i
    using del(1) by (simp add: recordAuthFailure_def Let_def dom_update subset_insertI split: option.split)
      (metis dom_update insert_is_Un)
  ultimately have sub: "fst ` set (fst (hook_step e (m, fl))) \<subseteq> insert (event_ip e) (fst ` set m)"
    by (cases e) (simp_all add: case_prod_beta subset_insertI)
  have "jmap_ok (fst (authFlooded t i m))" "jmap_ok (recordAuthFailure t i m)" for t i
    using assms(2) by (simp_all add: authFlooded_def recordAuthFailure_def Let_def del(2) split: option.split)
  then have ok: "jmap_ok (fst (hook_step e (m, fl)))"
    using assms(2) by (cases e) (simp_all add: case_prod_beta)
  have "insert (event_ip e) (fst ` set m) \<subseteq> A" using assms by simp
  with sub show ?thesis by (intro conjI ok) (rule subset_trans)
qed

lemma failures_bounded:
  assumes "throttle_ok k s ip now ts (m, fl)" "sorted (now # map event_at es)" "never_more k ip es (m, fl)"
    and "fst ` set m \<subseteq> A" "jmap_ok m" "event_ip ` set es \<subseteq> A" "finite A" "card A \<le> 10000"
  shows "in_span s (ts @ failures ip es (m, fl)) \<le> 2 * (19 + k)"
  using assms(1-6)
proof (induction es arbitrary: now ts m fl)
  case Nil
  then show ?case using throttle_total by simp
next
  case (Cons e es)
  obtain m' fl' where st: "hook_step e (m, fl) = (m', fl')" by fastforce
  have len: "length m \<le> 10000"
    using card_mono [OF assms(7) Cons.prems(4)] distinct_card [OF Cons.prems(5)] assms(8) by simp
  have k: "count_list (snd (hook_step e (m, fl))) ip \<le> k" using Cons.prems(3) by (cases es) auto
  have t: "now \<le> event_at e" "sorted (event_at e # map event_at es)" using Cons.prems(2) by auto
  have keys: "fst ` set m' \<subseteq> A" "jmap_ok m'"
    using hook_step_keys [OF Cons.prems(4,5), of e fl] Cons.prems(6) st by auto
  show ?case
    using Cons.IH [OF throttle_step [OF Cons.prems(1) t(1) k len, unfolded st] t(2) _ keys] Cons.prems(3,6) st by simp
qed



text \<open>All requests that are under way when the first fails get their lookup: the budget is no bound for them.\<close>

lemma all_arrive:
  "jget m ip = Some (0, t) \<Longrightarrow> failures ip (replicate n (Arrives ip t) @ es) (m, fl) = failures ip es (m, replicate n ip @ fl)"
proof (induction n arbitrary: fl)
  case (Suc n)
  have "hook_step (Arrives ip t) (m, fl) = (m, ip # fl)"
    using Suc.prems by (simp add: authFlooded_def FAILED_AUTH_WINDOW_def FAILED_AUTH_MAX_def)
  then show ?case using Suc by (simp add: failed_at_def replicate_app_Cons_same)
qed simp

lemma all_fail:
  "failures ip (replicate n (Fails ip t)) ([(ip, (c, t))], replicate n ip) = replicate n t"
  by (induction n arbitrary: c) (auto simp: failed_at_def recordAuthFailure_def FAILED_AUTH_WINDOW_def Let_def)

lemma overlapping_requests:
  "in_span t (failures ip (replicate (Suc n) (Arrives ip t) @ replicate (Suc n) (Fails ip t)) ([], [])) = Suc n"
proof -
  have "failures ip (replicate (Suc n) (Arrives ip t) @ replicate (Suc n) (Fails ip t)) ([], []) = replicate (Suc n) t"
    using all_arrive [of "[(ip, (0, t))]" ip t n "replicate (Suc n) (Fails ip t)" "[ip]"] all_fail [of ip "Suc n" t 0]
    by (simp add: failed_at_def authFlooded_def replicate_append_same del: replicate_Suc failures.simps(2))
       (simp add: failed_at_def authFlooded_def replicate_append_same)
  then show ?thesis by (simp add: in_span_def)
qed

end
