(* ===== verification/LogRoutes.thy ===== *)
theory LogRoutes
  imports BotRoutes WebhookRoutes
begin

text \<open>
  The routes over the log, packages/api/src/routes/logs.ts: pages of it and its export as CSV, with a reader of
  CSV as RFC 4180 describes it that the export is measured by. Texts are lists of 16 bit units. The
  JSON text of the details and the text of a date are arguments; the limit of ten seconds on the query is left out.
\<close>

section \<open>CSV\<close>

definition FORMULA_STARTS :: "16 word list" where
  "FORMULA_STARTS = [0x3D, 0x2B, 0x2D, 0x40, 0x09, 0x0D, 0xFF0B, 0xFF1D, 0x2212, 0x2012, 0x2013, 0x2014, 0x2015]"

definition formula_like :: "ustring \<Rightarrow> bool" where
  "formula_like s \<longleftrightarrow> (case s of [] \<Rightarrow> False | c # _ \<Rightarrow> c \<in> set FORMULA_STARTS)"

text \<open>A text that a spreadsheet could take for a formula gets an apostrophe in front.\<close>

definition guarded_cell :: "ustring \<Rightarrow> ustring" where
  "guarded_cell s = (if formula_like s then 0x27 # s else s)"

definition double_quotes :: "ustring \<Rightarrow> ustring" where
  "double_quotes s = concat (map (\<lambda>c. if c = 0x22 then [0x22, 0x22] else [c]) s)"

definition csvEscape :: "ustring \<Rightarrow> ustring" where
  "csvEscape s = [0x22] @ double_quotes (guarded_cell s) @ [0x22]"

fun join_units :: "ustring \<Rightarrow> ustring list \<Rightarrow> ustring" where
  "join_units sep [] = []"
| "join_units sep [s] = s"
| "join_units sep (s # ss) = s @ sep @ join_units sep ss"

definition csv_text :: "ustring list list \<Rightarrow> ustring" where
  "csv_text rows = join_units [0x0D, 0x0A] (map (\<lambda>r. join_units [0x2C] (map csvEscape r)) rows)"

section \<open>Routes\<close>

definition log_where :: "string \<Rightarrow> json \<Rightarrow> api_db \<Rightarrow> log_row list" where
  "log_where u query db =
     filter (\<lambda>l. lg_bot l \<in> bot_ids u db \<and>
         (case get_prop query ''botId'' of JStr (c # cs) \<Rightarrow> lg_bot l = c # cs | _ \<Rightarrow> True) \<and>
         (case get_prop query ''level'' of JStr (c # cs) \<Rightarrow> lg_level l = c # cs | _ \<Rightarrow> True)) (db_logs db)"

definition listLogs :: "api_request \<Rightarrow> json \<Rightarrow> api_db \<Rightarrow> log_row list \<times> nat" where
  "listLogs rq query db = (page_of query 100 500 (log_where (ar_owner rq) query db), length (log_where (ar_owner rq) query db))"

definition botLogs :: "api_request \<Rightarrow> string \<Rightarrow> api_db \<Rightarrow> log_row list" where
  "botLogs rq b db = take 200 (rev (filter (\<lambda>l. lg_bot l = b \<and> lg_bot l \<in> bot_ids (ar_owner rq) db) (db_logs db)))"

definition exported_logs :: "api_request \<Rightarrow> json \<Rightarrow> api_db \<Rightarrow> log_row list" where
  "exported_logs rq query db = take (nat (fst (parsePage query 5000 10000))) (rev (log_where (ar_owner rq) query db))"

definition CSV_HEADER :: "string list" where
  "CSV_HEADER = [''id'', ''botId'', ''level'', ''message'', ''meta'', ''createdAt'']"

definition log_fields :: "(json \<Rightarrow> ustring) \<Rightarrow> (ms \<Rightarrow> string) \<Rightarrow> log_row \<Rightarrow> ustring list" where
  "log_fields stringify show_date l =
     [ascii_units (lg_id l), ascii_units (lg_bot l), ascii_units (lg_level l), lg_message l,
      stringify (nullish_or (lg_meta l) (JObj [])), ascii_units (show_date (lg_createdAt l))]"

definition exportLogs :: "(json \<Rightarrow> ustring) \<Rightarrow> (ms \<Rightarrow> string) \<Rightarrow> api_request \<Rightarrow> json \<Rightarrow> api_db \<Rightarrow> ustring" where
  "exportLogs stringify show_date rq query db =
     csv_text (map ascii_units CSV_HEADER # map (log_fields stringify show_date) (exported_logs rq query db))"

section \<open>Reading CSV\<close>

text \<open>
  A reader of fields in quotes, separated by commas, in lines that end with CR LF. The states: at the start of a field,
  within its quotes, and after a quote within it.
\<close>

datatype csv_state = FieldStart | Quoted ustring | AfterQuote ustring | LineEnd ustring

fun csv_step :: "16 word \<Rightarrow> (csv_state \<times> ustring list \<times> ustring list list) option \<Rightarrow> (csv_state \<times> ustring list \<times> ustring list list) option" where
  "csv_step c None = None"
| "csv_step c (Some (FieldStart, row, rows)) = (if c = 0x22 then Some (Quoted [], row, rows) else None)"
| "csv_step c (Some (Quoted f, row, rows)) = Some (if c = 0x22 then AfterQuote f else Quoted (f @ [c]), row, rows)"
| "csv_step c (Some (AfterQuote f, row, rows)) =
     (if c = 0x22 then Some (Quoted (f @ [c]), row, rows)
      else if c = 0x2C then Some (FieldStart, row @ [f], rows)
      else if c = 0x0D then Some (LineEnd f, row, rows) else None)"
| "csv_step c (Some (LineEnd f, row, rows)) = (if c = 0x0A then Some (FieldStart, [], rows @ [row @ [f]]) else None)"

definition parse_csv :: "ustring \<Rightarrow> ustring list list option" where
  "parse_csv s =
     (case fold csv_step s (Some (FieldStart, [], [])) of
        Some (AfterQuote f, row, rows) \<Rightarrow> Some (rows @ [row @ [f]])
      | _ \<Rightarrow> None)"

lemma read_quoted: "fold csv_step (double_quotes s) (Some (Quoted f, row, rows)) = Some (Quoted (f @ s), row, rows)"
  by (induction s arbitrary: f) (auto simp: double_quotes_def)

lemma read_field: "fold csv_step (csvEscape s) (Some (FieldStart, row, rows)) = Some (AfterQuote (guarded_cell s), row, rows)"
  by (simp add: csvEscape_def read_quoted)

lemma read_line:
  "fold csv_step (join_units [0x2C] (map csvEscape (fs @ [f]))) (Some (FieldStart, row, rows)) =
     Some (AfterQuote (guarded_cell f), row @ map guarded_cell fs, rows)"
proof (induction fs arbitrary: row)
  case (Cons g fs)
  obtain h hs where "map csvEscape (fs @ [f]) = h # hs" by (cases "map csvEscape (fs @ [f])") auto
  then have "join_units [0x2C] (map csvEscape ((g # fs) @ [f])) = csvEscape g @ [0x2C] @ join_units [0x2C] (map csvEscape (fs @ [f]))"
    by simp
  then show ?case using Cons.IH [of "row @ [guarded_cell g]"] by (simp add: read_field)
qed (simp add: read_field)

lemma read_rows:
  "list_all (\<lambda>r. r \<noteq> []) rs \<Longrightarrow> rs \<noteq> [] \<Longrightarrow>
     (case fold csv_step (csv_text rs) (Some (FieldStart, [], rows)) of
        Some (AfterQuote f, row, rows') \<Rightarrow> Some (rows' @ [row @ [f]]) | _ \<Rightarrow> None) = Some (rows @ map (map guarded_cell) rs)"
proof (induction rs arbitrary: rows)
  case (Cons r rs)
  obtain fs f where r: "r = fs @ [f]" using Cons.prems(1) by (cases r rule: rev_cases) auto
  show ?case
  proof (cases rs)
    case Nil
    then show ?thesis
      using read_line [of fs f "[]" rows] by (simp add: csv_text_def r)
  next
    case (Cons r2 rs2)
    then have "csv_text (r # rs) = join_units [0x2C] (map csvEscape (fs @ [f])) @ [0x0D, 0x0A] @ csv_text rs"
      by (simp add: csv_text_def r)
    then show ?thesis
      using Cons.IH [of "rows @ [map guarded_cell r]"] Cons.prems(1) \<open>rs = r2 # rs2\<close> read_line [of fs f "[]" rows]
      by (simp add: fold_append r)
  qed
qed simp

lemma csv_roundtrip:
  assumes "list_all (\<lambda>r. r \<noteq> []) rs" "rs \<noteq> []"
  shows "parse_csv (csv_text rs) = Some (map (map guarded_cell) rs)"
  using read_rows [OF assms, of "[]"] by (simp add: parse_csv_def)

lemma guarded_safe: "\<not> formula_like (guarded_cell s)"
  by (simp add: guarded_cell_def formula_like_def FORMULA_STARTS_def)

text \<open>
  C16. Whatever was logged, a reader of CSV gets from an export the header and one line for each log entry with exactly its
  fields, quotes, commas and line ends included, except for an apostrophe before what could be a formula; no
  cell can be taken for one, there are at most ten thousand entries, and all are of bots of the user who asks.
\<close>

theorem export_reads_back:
  "parse_csv (exportLogs stringify show_date rq query db) =
     Some (map ascii_units CSV_HEADER # map (map guarded_cell \<circ> log_fields stringify show_date) (exported_logs rq query db)) \<and>
   list_all (list_all (\<lambda>c. \<not> formula_like c)) (map (map guarded_cell \<circ> log_fields stringify show_date) (exported_logs rq query db)) \<and>
   list_all (\<lambda>l. lg_bot l \<in> bot_ids (ar_owner rq) db) (exported_logs rq query db) \<and>
   length (exported_logs rq query db) \<le> 10000"
proof -
  have h: "map guarded_cell (map ascii_units CSV_HEADER) = map ascii_units CSV_HEADER" by code_simp
  have "list_all (\<lambda>r. r \<noteq> []) (map ascii_units CSV_HEADER # map (log_fields stringify show_date) (exported_logs rq query db))"
    by (simp add: list_all_iff CSV_HEADER_def log_fields_def)
  then have "parse_csv (exportLogs stringify show_date rq query db) =
      Some (map (map guarded_cell) (map ascii_units CSV_HEADER # map (log_fields stringify show_date) (exported_logs rq query db)))"
    unfolding exportLogs_def by (rule csv_roundtrip) simp
  then have "parse_csv (exportLogs stringify show_date rq query db) =
      Some (map ascii_units CSV_HEADER # map (map guarded_cell \<circ> log_fields stringify show_date) (exported_logs rq query db))"
    unfolding list.map(2) h by simp
  moreover have "list_all (list_all (\<lambda>c. \<not> formula_like c)) (map (map guarded_cell \<circ> log_fields stringify show_date) (exported_logs rq query db))"
    by (auto simp: list_all_iff guarded_safe)
  moreover have "list_all (\<lambda>l. lg_bot l \<in> bot_ids (ar_owner rq) db) (exported_logs rq query db)"
    by (auto simp: list_all_iff exported_logs_def log_where_def dest!: in_set_takeD)
  moreover have "fst (parsePage query 5000 10000) \<le> 10000"
    using page_bounded [of 5000 10000 query] by simp
  then have "length (exported_logs rq query db) \<le> 10000" by (simp add: exported_logs_def)
  ultimately show ?thesis by blast
qed

text \<open>Two texts can look the same in an export: the apostrophe may have been there before.\<close>

lemma apostrophe_ambiguous: "formula_like s \<Longrightarrow> csvEscape s = csvEscape (0x27 # s)"
  by (simp add: csvEscape_def guarded_cell_def formula_like_def FORMULA_STARTS_def)

text \<open>The pages and the log of a bot are of bots of the user too.\<close>

lemma shown_logs_own:
  "set (fst (listLogs rq query db)) \<union> set (botLogs rq b db) \<subseteq> {l. lg_bot l \<in> bot_ids (ar_owner rq) db}"
  by (auto simp: listLogs_def botLogs_def page_of_def log_where_def split: prod.splits dest!: in_set_takeD in_set_dropD)

end
