(* ===== verification/LogStream.thy ===== *)
theory LogStream
  imports BotRoutes
begin

text \<open>
  The live log: the hub of packages/api/src/services/log-stream.ts, which keeps the last 200 entries in a ring and
  passes new ones on to the sockets, and the route /ws/logs of app.ts that lets a user connect. A socket is a number
  with the bots its user owned when it connected; what it still has to send and whether sending
  works are arguments of each operation. Verification of tokens is that of AuthTokens.
\<close>

section \<open>The hub\<close>

type_synonym log_socket = "nat \<times> string list"

datatype hub_message = HubLog json | Listeners nat | TooMany

record socket_net =
  sn_buffered :: "log_socket \<Rightarrow> nat"
  sn_sends :: "log_socket \<Rightarrow> bool"

definition MAX_BUFFERED_BYTES :: nat where "MAX_BUFFERED_BYTES = 2 * 1024 * 1024"
definition MAX_SOCKETS :: nat where "MAX_SOCKETS = 200"
definition MAX_BACKLOG :: nat where "MAX_BACKLOG = 200"

record log_hub =
  lh_sockets :: "log_socket list"
  lh_slots :: "json list"
  lh_head :: nat
  lh_count :: nat
  lh_sent :: "(log_socket \<times> hub_message) list"
  lh_closed :: "log_socket list"

definition new_hub :: log_hub where
  "new_hub = \<lparr> lh_sockets = [], lh_slots = replicate MAX_BACKLOG JUndef, lh_head = 0, lh_count = 0, lh_sent = [], lh_closed = [] \<rparr>"

text \<open>An entry without a text as bot counts as one of a bot that nobody owns.\<close>

definition socket_filter :: "string list \<Rightarrow> json \<Rightarrow> bool" where
  "socket_filter owned e \<longleftrightarrow>
     (case get_prop e ''botId'' of JStr b \<Rightarrow> if is_object e then b else [CHR 0x00] | _ \<Rightarrow> [CHR 0x00]) \<in> set owned"

definition broadcast_to :: "socket_net \<Rightarrow> hub_message \<Rightarrow> log_socket \<Rightarrow> log_hub \<Rightarrow> log_hub" where
  "broadcast_to n m s h =
     (if (case m of HubLog e \<Rightarrow> truthy e \<and> \<not> socket_filter (snd s) e | _ \<Rightarrow> False) then h
      else if sn_buffered n s > MAX_BUFFERED_BYTES
      then h\<lparr> lh_closed := lh_closed h @ [s], lh_sockets := removeAll s (lh_sockets h) \<rparr>
      else if sn_sends n s then h\<lparr> lh_sent := lh_sent h @ [(s, m)] \<rparr>
      else h\<lparr> lh_sockets := removeAll s (lh_sockets h) \<rparr>)"

definition broadcast :: "socket_net \<Rightarrow> hub_message \<Rightarrow> log_hub \<Rightarrow> log_hub" where
  "broadcast n m h = fold (broadcast_to n m) (lh_sockets h) h"

definition backlog_entry :: "log_hub \<Rightarrow> nat \<Rightarrow> json" where
  "backlog_entry h i = lh_slots h ! ((lh_head h + i) mod MAX_BACKLOG)"

definition replay_to :: "socket_net \<Rightarrow> log_socket \<Rightarrow> json \<Rightarrow> log_hub \<Rightarrow> log_hub" where
  "replay_to n s e h = (if socket_filter (snd s) e \<and> sn_sends n s then h\<lparr> lh_sent := lh_sent h @ [(s, HubLog e)] \<rparr> else h)"

definition hub_add :: "socket_net \<Rightarrow> log_socket \<Rightarrow> log_hub \<Rightarrow> log_hub \<times> bool" where
  "hub_add n s h =
     (if length (lh_sockets h) \<ge> MAX_SOCKETS
      then (h\<lparr> lh_sent := lh_sent h @ (if sn_sends n s then [(s, TooMany)] else []), lh_closed := lh_closed h @ [s] \<rparr>, False)
      else let h = h\<lparr> lh_sockets := (if s \<in> set (lh_sockets h) then lh_sockets h else lh_sockets h @ [s]) \<rparr>;
               h = fold (replay_to n s) (map (backlog_entry h) [0..<lh_count h]) h
           in (broadcast n (Listeners (length (lh_sockets h))) h, True))"

definition hub_remove :: "socket_net \<Rightarrow> log_socket \<Rightarrow> log_hub \<Rightarrow> log_hub" where
  "hub_remove n s h =
     (let h = h\<lparr> lh_sockets := removeAll s (lh_sockets h) \<rparr> in broadcast n (Listeners (length (lh_sockets h))) h)"

definition store_entry :: "json \<Rightarrow> log_hub \<Rightarrow> log_hub" where
  "store_entry e h =
     (let h' = h\<lparr> lh_slots := (lh_slots h)[(lh_head h + lh_count h) mod MAX_BACKLOG := e] \<rparr>
      in if lh_count h < MAX_BACKLOG then h'\<lparr> lh_count := lh_count h + 1 \<rparr>
         else h'\<lparr> lh_head := (lh_head h + 1) mod MAX_BACKLOG \<rparr>)"

definition hub_push :: "socket_net \<Rightarrow> json \<Rightarrow> log_hub \<Rightarrow> log_hub" where
  "hub_push n e h = broadcast n (HubLog e) (store_entry e h)"

text \<open>A message of the channel that is no JSON is an entry of its own.\<close>

definition on_message :: "socket_net \<Rightarrow> stored \<Rightarrow> log_hub \<Rightarrow> log_hub" where
  "on_message n message h =
     hub_push n (case message of Parses j \<Rightarrow> j | Unparsable s \<Rightarrow> JObj [(''message'', JStr s)]) h"

section \<open>Connecting\<close>

datatype ws_answer = WsError string | WsStreams "string list"

definition PROTOCOL :: string where "PROTOCOL = ''bothive.''"

definition protocol_token :: "string option \<Rightarrow> string option" where
  "protocol_token header =
     map_option (drop (length PROTOCOL)) (find (starts_with PROTOCOL) (map trim_text (split_on CHR '','' (case header of None \<Rightarrow> [] | Some h \<Rightarrow> h))))"

definition ws_token :: "string option \<Rightarrow> string option \<Rightarrow> string option" where
  "ws_token header cookie =
     (case protocol_token header of
        Some (c # cs) \<Rightarrow> Some (c # cs)
      | _ \<Rightarrow> (case jget (parseCookieHeader cookie) TOKEN_COOKIE of Some (c # cs) \<Rightarrow> Some (c # cs) | _ \<Rightarrow> None))"

definition ws_logs :: "auth_env \<Rightarrow> ms \<Rightarrow> string option \<Rightarrow> string option \<Rightarrow> 'r auth_world \<Rightarrow> api_db \<Rightarrow> ws_answer" where
  "ws_logs env now header cookie w db =
     (case ws_token header cookie of
        None \<Rightarrow> WsError ''Missing token''
      | Some token \<Rightarrow>
          (case ae_verify env now (Some (''Bearer '' @ token)) of
             None \<Rightarrow> WsError ''Invalid token''
           | Some c \<Rightarrow>
               (case find_user (cl_id c) (aw_users w) of
                  None \<Rightarrow> WsError ''Unauthorized''
                | Some u \<Rightarrow>
                    if isTokenRevoked env now (redis_of w) c then WsError ''Unauthorized''
                    else WsStreams (map bt_id (filter (\<lambda>b. bt_owner b = us_id u) (db_bots db))))))"

section \<open>The ring keeps the last entries\<close>

definition backlog :: "log_hub \<Rightarrow> json list" where
  "backlog h = map (backlog_entry h) [0..<lh_count h]"

definition last_entries :: "nat \<Rightarrow> 'a list \<Rightarrow> 'a list" where
  "last_entries n xs = drop (length xs - n) xs"

definition ring_ok :: "log_hub \<Rightarrow> bool" where
  "ring_ok h \<longleftrightarrow> length (lh_slots h) = MAX_BACKLOG \<and> lh_head h < MAX_BACKLOG \<and> lh_count h \<le> MAX_BACKLOG"

lemma slot_eq:
  fixes n :: nat
  assumes "i < n" "j \<le> n" "(a + i) mod n = (a + j) mod n"
  shows "i = j mod n"
proof -
  have "int ((a + i) mod n) = int ((a + j) mod n)" using assms(3) by simp
  then have "int n dvd int i - int j" by (simp add: zmod_int mod_eq_dvd_iff)
  then have "i mod n = j mod n" by (simp flip: mod_eq_dvd_iff of_nat_mod)
  then show ?thesis using assms(1) by simp
qed

lemma store_ring:
  assumes "ring_ok h"
  shows "ring_ok (store_entry e h)" and "backlog (store_entry e h) = last_entries MAX_BACKLOG (backlog h @ [e])"
proof -
  have ok: "length (lh_slots h) = MAX_BACKLOG" "lh_head h < MAX_BACKLOG" "lh_count h \<le> MAX_BACKLOG" "0 < MAX_BACKLOG"
    using assms by (simp_all add: ring_ok_def MAX_BACKLOG_def)
  show "ring_ok (store_entry e h)"
    using ok by (auto simp: ring_ok_def store_entry_def Let_def)
  show "backlog (store_entry e h) = last_entries MAX_BACKLOG (backlog h @ [e])"
  proof (cases "lh_count h < MAX_BACKLOG")
    case True
    have "backlog_entry (store_entry e h) i = (backlog h @ [e]) ! i" if "i < lh_count h + 1" for i
    proof (cases "i = lh_count h")
      case eq: True
      then show ?thesis using True ok by (simp add: backlog_entry_def store_entry_def Let_def backlog_def nth_append)
    next
      case False
      then have "(lh_head h + i) mod MAX_BACKLOG \<noteq> (lh_head h + lh_count h) mod MAX_BACKLOG"
        using slot_eq [of i MAX_BACKLOG "lh_count h" "lh_head h"] that True by auto
      then show ?thesis using False that True by (simp add: backlog_entry_def store_entry_def Let_def backlog_def nth_append)
    qed
    then have "backlog (store_entry e h) = backlog h @ [e]"
      using True by (intro nth_equalityI) (simp_all add: backlog_def store_entry_def Let_def nth_append del: upt_Suc)
    then show ?thesis using True by (simp add: last_entries_def backlog_def)
  next
    case False
    then have full: "lh_count h = MAX_BACKLOG" using ok by simp
    have "backlog_entry (store_entry e h) i = (backlog h @ [e]) ! (i + 1)" if "i < MAX_BACKLOG" for i
    proof -
      have turned: "((lh_head h + 1) mod MAX_BACKLOG + i) mod MAX_BACKLOG = (lh_head h + (i + 1)) mod MAX_BACKLOG"
        by (simp add: mod_simps)
      have new: "(lh_head h + MAX_BACKLOG) mod MAX_BACKLOG = lh_head h" using ok by simp
      show ?thesis
      proof (cases "i + 1 = MAX_BACKLOG")
        case True
        then show ?thesis using full ok turned new
          by (simp add: backlog_entry_def store_entry_def Let_def backlog_def nth_append)
      next
        case neq: False
        then have "(lh_head h + (i + 1)) mod MAX_BACKLOG \<noteq> lh_head h"
          using slot_eq [of "i + 1" MAX_BACKLOG 0 "lh_head h"] that ok by auto
        then show ?thesis using neq that full ok turned new
          by (simp add: backlog_entry_def store_entry_def Let_def backlog_def nth_append)
      qed
    qed
    moreover have "last_entries MAX_BACKLOG (backlog h @ [e]) = drop 1 (backlog h @ [e])"
      using full by (simp add: last_entries_def backlog_def del: drop_append)
    moreover have "backlog (store_entry e h) = map (backlog_entry (store_entry e h)) [0..<MAX_BACKLOG]" "length (backlog h) = MAX_BACKLOG"
      using full by (simp_all add: backlog_def store_entry_def Let_def)
    ultimately show ?thesis
      by (intro nth_equalityI) (simp_all del: drop_append)
  qed
qed

section \<open>Who gets what\<close>

datatype hub_op = Connects log_socket | Closes log_socket | Publishes stored

fun hub_op_step :: "socket_net \<times> hub_op \<Rightarrow> log_hub \<Rightarrow> log_hub" where
  "hub_op_step (n, Connects s) h = fst (hub_add n s h)"
| "hub_op_step (n, Closes s) h = hub_remove n s h"
| "hub_op_step (n, Publishes m) h = on_message n m h"

fun published :: "hub_op \<Rightarrow> json list" where
  "published (Publishes (Parses j)) = [j]"
| "published (Publishes (Unparsable s)) = [JObj [(''message'', JStr s)]]"
| "published _ = []"

definition in_scope :: "log_socket \<times> hub_message \<Rightarrow> bool" where
  "in_scope p = (case p of ((i, owned), HubLog e) \<Rightarrow> \<not> truthy e \<or> socket_filter owned e | _ \<Rightarrow> True)"

definition hub_ok :: "json list \<Rightarrow> log_hub \<Rightarrow> bool" where
  "hub_ok es h \<longleftrightarrow> ring_ok h \<and> backlog h = last_entries MAX_BACKLOG es \<and> length (lh_sockets h) \<le> MAX_SOCKETS \<and>
     list_all in_scope (lh_sent h)"

lemma hub_ok_sockets:
  "hub_ok es h \<Longrightarrow> length ss \<le> MAX_SOCKETS \<Longrightarrow> list_all in_scope out \<Longrightarrow> hub_ok es (h\<lparr> lh_sockets := ss, lh_sent := lh_sent h @ out, lh_closed := cl \<rparr>)"
  by (simp add: hub_ok_def ring_ok_def backlog_def backlog_entry_def [abs_def])

lemma hub_ok_update:
  assumes "hub_ok es h"
  shows "hub_ok es (h\<lparr> lh_closed := cl, lh_sockets := removeAll s (lh_sockets h) \<rparr>)"
    and "hub_ok es (h\<lparr> lh_sockets := removeAll s (lh_sockets h) \<rparr>)"
    and "in_scope p \<Longrightarrow> hub_ok es (h\<lparr> lh_sent := lh_sent h @ [p] \<rparr>)"
  using assms length_removeAll_less_eq [of s "lh_sockets h"]
  by (auto simp: hub_ok_def ring_ok_def backlog_def backlog_entry_def [abs_def] simp del: length_removeAll_less_eq)

lemma hub_ok_broadcast: "hub_ok es h \<Longrightarrow> hub_ok es (broadcast n m h)"
proof -
  have step: "hub_ok es (broadcast_to n m s h)" if "hub_ok es h" for s h
    using that hub_ok_update [OF that] by (cases s) (auto simp: broadcast_to_def in_scope_def split: hub_message.splits)
  have "hub_ok es (fold (broadcast_to n m) ss h)" if "hub_ok es h" for ss h
    using that by (induction ss arbitrary: h) (auto simp: step)
  then show "hub_ok es h \<Longrightarrow> ?thesis" by (simp add: broadcast_def)
qed

lemma hub_ok_replay: "hub_ok es h \<Longrightarrow> hub_ok es (fold (replay_to n s) entries h)"
proof (induction entries arbitrary: h)
  case (Cons e entries)
  have "hub_ok es (replay_to n s e h)"
    using Cons.prems hub_ok_update(3) [OF Cons.prems, of "(s, HubLog e)"] by (cases s) (auto simp: replay_to_def in_scope_def)
  then show ?case using Cons.IH by simp
qed simp

lemma last_entries_snoc: "last_entries n (last_entries n xs @ ys) = last_entries n (xs @ ys)"
  by (cases "n \<le> length xs") (simp_all add: last_entries_def add.commute)

lemma log_hub_step:
  assumes ok: "hub_ok es h"
  shows "hub_ok (es @ published (snd op)) (hub_op_step op h)"
proof (cases "snd op")
  case (Connects s)
  obtain n where "op = (n, Connects s)" using Connects by (cases op) auto
  moreover have "hub_ok es (h\<lparr> lh_sent := lh_sent h @ (if sn_sends n s then [(s, TooMany)] else []), lh_closed := lh_closed h @ [s] \<rparr>)"
    using hub_ok_sockets [OF ok, of "lh_sockets h" "if sn_sends n s then [(s, TooMany)] else []" "lh_closed h @ [s]"] ok
    by (auto simp: in_scope_def hub_ok_def split: prod.split)
  moreover have "hub_ok es (h\<lparr> lh_sockets := (if s \<in> set (lh_sockets h) then lh_sockets h else lh_sockets h @ [s]) \<rparr>)"
    if "length (lh_sockets h) < MAX_SOCKETS"
    using hub_ok_sockets [OF ok, of "if s \<in> set (lh_sockets h) then lh_sockets h else lh_sockets h @ [s]" "[]" "lh_closed h"] that ok
    by (auto simp: hub_ok_def)
  ultimately show ?thesis
    by (simp add: hub_add_def Let_def not_le hub_ok_broadcast hub_ok_replay)
next
  case (Closes s)
  then show ?thesis using hub_ok_broadcast hub_ok_update(2) [OF ok] by (cases op) (simp add: hub_remove_def Let_def)
next
  case (Publishes m)
  define e where "e = (case m of Parses j \<Rightarrow> j | Unparsable s \<Rightarrow> JObj [(''message'', JStr s)])"
  have "hub_ok (es @ [e]) (store_entry e h)"
    using ok store_ring [of h e] last_entries_snoc [of MAX_BACKLOG es "[e]"]
    by (auto simp: hub_ok_def) (auto simp: store_entry_def Let_def)
  moreover have "published (Publishes m) = [e]" by (simp add: e_def split: stored.split)
  ultimately show ?thesis
    using Publishes hub_ok_broadcast by (cases op) (simp add: on_message_def hub_push_def e_def [symmetric])
qed

text \<open>
  C17. Whatever connects, closes and is logged, in any order and with whatever sockets that fail or lag: the ring holds
  the last 200 entries in order, at most 200 sockets are connected, and no socket was ever sent an entry, live or
  from the ring, that is not of a bot its user owned when it connected.
\<close>

theorem log_stream_scoped:
  "backlog (fold hub_op_step ops new_hub) = last_entries 200 (concat (map (published \<circ> snd) ops)) \<and>
   length (lh_sockets (fold hub_op_step ops new_hub)) \<le> 200 \<and>
   list_all in_scope (lh_sent (fold hub_op_step ops new_hub))"
proof -
  have "hub_ok (es @ concat (map (published \<circ> snd) ops)) (fold hub_op_step ops h)" if "hub_ok es h" for es h
    using that
  proof (induction ops arbitrary: es h)
    case (Cons op ops)
    then show ?case using Cons.IH [OF log_hub_step [OF Cons.prems, of op]] by simp
  qed simp
  moreover have "hub_ok [] new_hub"
    by (simp add: hub_ok_def new_hub_def ring_ok_def backlog_def last_entries_def MAX_BACKLOG_def)
  ultimately have "hub_ok (concat (map (published \<circ> snd) ops)) (fold hub_op_step ops new_hub)" by force
  then show ?thesis by (simp add: hub_ok_def MAX_BACKLOG_def MAX_SOCKETS_def)
qed

text \<open>Who connects has a valid token that is not revoked, and sees the bots that are his at that moment.\<close>

lemma streams_own_bots:
  "ws_logs env now header cookie w db = WsStreams owned \<Longrightarrow> \<exists>token c u. ws_token header cookie = Some token \<and>
     ae_verify env now (Some (''Bearer '' @ token)) = Some c \<and> \<not> isTokenRevoked env now (redis_of w) c \<and>
     find_user (cl_id c) (aw_users w) = Some u \<and> set owned = bot_ids (us_id u) db"
  by (auto simp: ws_logs_def bot_ids_def split: option.splits if_splits)

text \<open>An open socket goes on getting the entries of its bots, whatever became of the session or the user since.\<close>

lemma open_socket_gets_entry:
  assumes "s \<in> set (lh_sockets h)" "socket_filter (snd s) e" "\<And>s. sn_buffered n s \<le> MAX_BUFFERED_BYTES" "\<And>s. sn_sends n s"
  shows "(s, HubLog e) \<in> set (lh_sent (hub_push n e h))"
proof -
  have "set (lh_sent h) \<subseteq> set (lh_sent (fold (broadcast_to n (HubLog e)) ss h)) \<and>
      (s \<in> set ss \<longrightarrow> (s, HubLog e) \<in> set (lh_sent (fold (broadcast_to n (HubLog e)) ss h)))" for ss h
  proof (induction ss arbitrary: h)
    case (Cons t ss)
    have "set (lh_sent h) \<subseteq> set (lh_sent (broadcast_to n (HubLog e) t h))"
      by (auto simp: broadcast_to_def)
    moreover have "(s, HubLog e) \<in> set (lh_sent (broadcast_to n (HubLog e) s h))"
      using assms(2) assms(3) [of s] assms(4) [of s] by (simp add: broadcast_to_def)
    ultimately show ?case using Cons.IH [of "broadcast_to n (HubLog e) t h"] by auto
  qed simp
  moreover have "lh_sockets (store_entry e h) = lh_sockets h" by (simp add: store_entry_def Let_def)
  ultimately show ?thesis using assms(1) by (simp add: hub_push_def broadcast_def)
qed

end
