(* ===== verification/ApiServer.thy ===== *)
theory ApiServer
  imports BotRoutes EventBus
begin

text \<open>
  What packages/api/src/app.ts does around the routes: the parser of request bodies with its limit on nesting, allowed
  origins, the headers of answers, the readiness probe and the health of the workers from the heartbeats they publish
  (packages/core/src/utils/heartbeat.ts); and the error handler (middleware/error-handler.ts). JSON parsing, \<open>Number\<close> and
  the answers of the database and Redis are arguments. Registering plugins and routes is left out.
\<close>

section \<open>Bodies\<close>

definition MAX_JSON_DEPTH :: nat where "MAX_JSON_DEPTH = 20"

fun jsonDepth :: "json \<Rightarrow> nat \<Rightarrow> nat" where
  "jsonDepth v depth =
     (if depth \<ge> MAX_JSON_DEPTH then depth + 1
      else case v of
             JArr items \<Rightarrow> fold (\<lambda>item mx. max mx (jsonDepth item (depth + 1))) items (depth + 1)
           | JObj entries \<Rightarrow> fold (\<lambda>entry mx. max mx (jsonDepth (snd entry) (depth + 1))) entries (depth + 1)
           | _ \<Rightarrow> depth)"

declare jsonDepth.simps [simp del]

definition parse_body :: "(string \<Rightarrow> json option) \<Rightarrow> string \<Rightarrow> json reply" where
  "parse_body parse body =
     (case parse body of
        None \<Rightarrow> Rejects 400 ''ERROR''
      | Some v \<Rightarrow> if jsonDepth v 0 > MAX_JSON_DEPTH then Rejects 400 ''ERROR'' else Answers v)"

text \<open>How deep values are nested: what is in no other is at depth 0.\<close>

fun nesting :: "json \<Rightarrow> nat" where
  "nesting (JArr items) = (if items = [] then 0 else Suc (Max (set (map nesting items))))"
| "nesting (JObj entries) = (if entries = [] then 0 else Suc (Max (set (map (nesting \<circ> snd) entries))))"
| "nesting _ = 0"

lemma fold_max_le: "fold (\<lambda>x mx. max mx (f x)) xs a \<le> (b :: nat) \<longleftrightarrow> a \<le> b \<and> (\<forall>x \<in> set xs. f x \<le> b)"
  by (induction xs arbitrary: a) auto

lemma nested_less: "finite S \<Longrightarrow> S \<noteq> {} \<Longrightarrow> Suc (d + Max S) < n \<longleftrightarrow> (\<forall>x \<in> S. Suc (d + x) < n)"
  using Max_in [of S] Max_ge [of S] by (meson add_left_mono Suc_le_mono le_less_trans)

lemma depth_nesting: "d \<le> MAX_JSON_DEPTH \<Longrightarrow> jsonDepth v d \<le> MAX_JSON_DEPTH \<longleftrightarrow> d + nesting v < MAX_JSON_DEPTH"
proof (induction v d rule: jsonDepth.induct)
  case (1 v d)
  show ?case
  proof (cases "d \<ge> MAX_JSON_DEPTH")
    case True
    then show ?thesis using 1 by (subst jsonDepth.simps) auto
  next
    case False
    then have d: "Suc d \<le> MAX_JSON_DEPTH" by simp
    show ?thesis
    proof (cases v)
      case (JArr items)
      have "jsonDepth x (d + 1) \<le> MAX_JSON_DEPTH \<longleftrightarrow> Suc d + nesting x < MAX_JSON_DEPTH" if "x \<in> set items" for x
        using "1.IH"(1) [OF False JArr that] d by simp
      then have "jsonDepth v d \<le> MAX_JSON_DEPTH \<longleftrightarrow> (\<forall>x \<in> set items. Suc d + nesting x < MAX_JSON_DEPTH)"
        using False d JArr by (subst jsonDepth.simps) (simp add: fold_max_le)
      also have "\<dots> \<longleftrightarrow> d + nesting v < MAX_JSON_DEPTH"
        using JArr d nested_less [of "nesting ` set items" d MAX_JSON_DEPTH] by (cases "items = []") (auto simp: image_image)
      finally show ?thesis .
    next
      case (JObj entries)
      have "jsonDepth (snd x) (d + 1) \<le> MAX_JSON_DEPTH \<longleftrightarrow> Suc d + nesting (snd x) < MAX_JSON_DEPTH" if "x \<in> set entries" for x
        using "1.IH"(2) [OF False JObj that] d by simp
      then have "jsonDepth v d \<le> MAX_JSON_DEPTH \<longleftrightarrow> (\<forall>x \<in> set entries. Suc d + nesting (snd x) < MAX_JSON_DEPTH)"
        using False d JObj by (subst jsonDepth.simps) (simp add: fold_max_le)
      also have "\<dots> \<longleftrightarrow> d + nesting v < MAX_JSON_DEPTH"
        using JObj d nested_less [of "(nesting \<circ> snd) ` set entries" d MAX_JSON_DEPTH] by (cases "entries = []") (auto simp: image_image)
      finally show ?thesis .
    qed (use False d in \<open>subst jsonDepth.simps, simp\<close>)+
  qed
qed

text \<open>A body is accepted exactly when nothing in it is nested twenty deep, although the traversal stops there.\<close>

lemma body_accepted_iff: "parse_body parse body = Answers v \<longleftrightarrow> parse body = Some v \<and> nesting v < 20"
  using depth_nesting [of 0 v]
  by (auto simp: parse_body_def MAX_JSON_DEPTH_def not_le [symmetric] split: option.split)

section \<open>Origins, headers, limits\<close>

datatype cors_origin = AnyOrigin | Origins "string list" | NoOrigin

definition resolveCorsOrigin :: "string option \<Rightarrow> cors_origin" where
  "resolveCorsOrigin raw =
     (if raw = Some ''*'' then AnyOrigin
      else let os = filter (\<lambda>s. s \<noteq> []) (map trim_text (split_on CHR '',''
             (case raw of None \<Rightarrow> ''http://localhost:5173,http://127.0.0.1:5173'' | Some r \<Rightarrow> r)))
           in if os = [] then NoOrigin else Origins os)"

definition SECURITY_HEADERS :: "(string \<times> string) list" where
  "SECURITY_HEADERS = [(''X-Content-Type-Options'', ''nosniff''), (''X-Frame-Options'', ''SAMEORIGIN''), (''Referrer-Policy'', ''no-referrer''),
     (''X-XSS-Protection'', ''1; mode=block''), (''Permissions-Policy'', ''camera=(), microphone=(), geolocation=()''),
     (''Content-Security-Policy'', ''default-src 'none'; frame-ancestors 'none'; sandbox''),
     (''Strict-Transport-Security'', ''max-age=63072000; includeSubDomains; preload'')]"

definition on_send :: "string \<Rightarrow> (string, string) jmap \<Rightarrow> (string, string) jmap" where
  "on_send url headers =
     (if starts_with ''/api/docs'' url then headers else fold (\<lambda>(k, v). jset k v) SECURITY_HEADERS headers)"

definition rate_limit_exempt :: "string \<Rightarrow> bool" where
  "rate_limit_exempt url \<longleftrightarrow> starts_with ''/api/telegram/webhook/'' url \<or> url = ''/health/ready'' \<or> url = ''/health/live''"

lemma jget_fold_jset: "jget (fold (\<lambda>(k, v). jset k v) kvs m) k = (case map_of (rev kvs) k of None \<Rightarrow> jget m k | Some v \<Rightarrow> Some v)"
  by (induction kvs arbitrary: m) (auto simp: map_add_def split: option.split)

text \<open>What a browser is told to do is not left to the routes, apart from the documentation.\<close>

lemma headers_on_every_answer:
  assumes "\<not> starts_with ''/api/docs'' url" "(k, v) \<in> set SECURITY_HEADERS"
  shows "jget (on_send url headers) k = Some v"
proof -
  have "distinct (map fst (rev SECURITY_HEADERS))" by code_simp
  then have "map_of (rev SECURITY_HEADERS) k = Some v" using assms(2) by (simp add: map_of_eq_Some_iff)
  then show ?thesis using assms(1) by (simp add: on_send_def jget_fold_jset)
qed

section \<open>Health\<close>

datatype ready_answer = Ready nat bool bool

definition health_ready :: "bool \<Rightarrow> bool \<Rightarrow> ready_answer" where
  "health_ready database redis = Ready (if database \<and> redis then 200 else 503) database redis"

record heartbeat =
  hb_ts :: jsnum
  hb_concurrency :: "jsnum option"
  hb_version :: "string option"
  hb_rss :: "jsnum option"
  hb_heapUsed :: "jsnum option"
  hb_heapTotal :: "jsnum option"
  hb_waitP50 :: "jsnum option"
  hb_waitP95 :: "jsnum option"
  hb_waitP99 :: "jsnum option"
  hb_sandboxWorkers :: "jsnum option"

definition bare_heartbeat :: "jsnum \<Rightarrow> heartbeat" where
  "bare_heartbeat ts = \<lparr> hb_ts = ts, hb_concurrency = None, hb_version = None, hb_rss = None, hb_heapUsed = None, hb_heapTotal = None,
     hb_waitP50 = None, hb_waitP95 = None, hb_waitP99 = None, hb_sandboxWorkers = None \<rparr>"

definition finiteNumber :: "(json \<Rightarrow> jsnum) \<Rightarrow> json \<Rightarrow> jsnum option" where
  "finiteNumber number v =
     (case (case v of JNum x \<Rightarrow> x | _ \<Rightarrow> number v) of Num r \<Rightarrow> Some (Num r) | _ \<Rightarrow> None)"

text \<open>Digits, and perhaps a point and digits.\<close>

definition decimal_text :: "string \<Rightarrow> bool" where
  "decimal_text s \<longleftrightarrow> (case split_on CHR ''.'' s of [a] \<Rightarrow> all_digits a | [a, b] \<Rightarrow> all_digits a \<and> all_digits b | _ \<Rightarrow> False)"

text \<open>A property of \<open>null\<close> throws, and what throws has no time.\<close>

definition heartbeat_json :: "(json \<Rightarrow> jsnum) \<Rightarrow> json option \<Rightarrow> heartbeat" where
  "heartbeat_json number parsed =
     (case parsed of
        None \<Rightarrow> bare_heartbeat (Num 0)
      | Some v \<Rightarrow>
          if nullish v then bare_heartbeat (Num 0)
          else let field = (\<lambda>k. finiteNumber number (get_prop v k))
               in \<lparr> hb_ts = (case field ''ts'' of None \<Rightarrow> Num 0 | Some x \<Rightarrow> x), hb_concurrency = field ''concurrency'',
                    hb_version = text_or_none (get_prop v ''version''), hb_rss = field ''rss'', hb_heapUsed = field ''heapUsed'',
                    hb_heapTotal = field ''heapTotal'', hb_waitP50 = field ''waitP50'', hb_waitP95 = field ''waitP95'',
                    hb_waitP99 = field ''waitP99'', hb_sandboxWorkers = field ''sandboxWorkers'' \<rparr>)"

definition parseWorkerHeartbeat :: "(json \<Rightarrow> jsnum) \<Rightarrow> (string \<Rightarrow> json option) \<Rightarrow> string \<Rightarrow> heartbeat" where
  "parseWorkerHeartbeat number parse raw =
     (case finiteNumber number (JStr raw) of
        Some x \<Rightarrow> if decimal_text (trim_text raw) then bare_heartbeat x else heartbeat_json number (parse raw)
      | None \<Rightarrow> heartbeat_json number (parse raw))"

definition WORKER_PLATFORMS :: "string list" where
  "WORKER_PLATFORMS = [''telegram'', ''twitch'', ''youtube'', ''twitter'', ''crypto'']"

definition HEARTBEAT_PREFIX :: string where "HEARTBEAT_PREFIX = ''worker:heartbeat:''"

record platform_state =
  ps_alive :: bool
  ps_lastSeen :: jsnum
  ps_concurrency :: jsnum
  ps_version :: "string option"

definition fresh_heartbeat :: "ms \<Rightarrow> heartbeat \<Rightarrow> bool" where
  "fresh_heartbeat now hb \<longleftrightarrow> jlt (Num 0) (hb_ts hb) \<and> jlt (jsub (jint now) (hb_ts hb)) (Num 30000)"

definition note_heartbeat :: "ms \<Rightarrow> heartbeat \<Rightarrow> platform_state \<Rightarrow> platform_state" where
  "note_heartbeat now hb st =
     \<lparr> ps_alive = (ps_alive st \<or> fresh_heartbeat now hb),
       ps_lastSeen = (if jlt (ps_lastSeen st) (hb_ts hb) then hb_ts hb else ps_lastSeen st),
       ps_concurrency = jadd (ps_concurrency st) (case hb_concurrency hb of None \<Rightarrow> Num 0 | Some x \<Rightarrow> x),
       ps_version = (case hb_version hb of Some (c # cs) \<Rightarrow> if ps_version st = None then Some (c # cs) else ps_version st | _ \<Rightarrow> ps_version st) \<rparr>"

definition no_instance :: platform_state where
  "no_instance = \<lparr> ps_alive = False, ps_lastSeen = Num 0, ps_concurrency = Num 0, ps_version = None \<rparr>"

definition key_platform :: "string \<Rightarrow> string" where
  "key_platform key = hd (split_on CHR '':'' (drop (length HEARTBEAT_PREFIX) key))"

definition by_platform :: "(string \<Rightarrow> heartbeat) \<Rightarrow> ms \<Rightarrow> (string \<times> string option) list \<Rightarrow> (string, platform_state) jmap" where
  "by_platform parse_hb now entries =
     fold (\<lambda>(key, raw) m.
         if drop (length HEARTBEAT_PREFIX) key = [] then m
         else jset (key_platform key)
           (note_heartbeat now (parse_hb (case raw of None \<Rightarrow> [] | Some r \<Rightarrow> r)) (jget_or no_instance m (key_platform key))) m) entries []"

record worker_health =
  wk_platform :: string
  wk_alive :: bool
  wk_lastSeen :: "jsnum option"
  wk_state :: "(jsnum \<times> string option) option"
  wk_activeBots :: nat

definition health_workers :: "(string \<Rightarrow> heartbeat) \<Rightarrow> ms \<Rightarrow> (string \<times> string option) list \<Rightarrow> api_db \<Rightarrow> worker_health list" where
  "health_workers parse_hb now entries db =
     map (\<lambda>p. let active = length (filter (\<lambda>b. bt_platform b = p \<and> bt_status b = ''running'') (db_bots db))
          in (case jget (by_platform parse_hb now entries) p of
                None \<Rightarrow> \<lparr> wk_platform = p, wk_alive = False, wk_lastSeen = None, wk_state = None, wk_activeBots = active \<rparr>
              | Some st \<Rightarrow> \<lparr> wk_platform = p, wk_alive = ps_alive st,
                  wk_lastSeen = (if jlt (Num 0) (ps_lastSeen st) then Some (ps_lastSeen st) else None),
                  wk_state = Some (ps_concurrency st, ps_version st), wk_activeBots = active \<rparr>)) WORKER_PLATFORMS"

text \<open>A platform is alive exactly when one of its instances has a fresh heartbeat.\<close>

lemma alive_note: "ps_alive (note_heartbeat now hb st) \<longleftrightarrow> ps_alive st \<or> fresh_heartbeat now hb"
  by (simp add: note_heartbeat_def)

lemma by_platform_alive:
  "ps_alive (jget_or no_instance (by_platform parse_hb now entries) p) \<longleftrightarrow>
     (\<exists>(key, raw) \<in> set entries. drop (length HEARTBEAT_PREFIX) key \<noteq> [] \<and> key_platform key = p \<and>
       fresh_heartbeat now (parse_hb (case raw of None \<Rightarrow> [] | Some r \<Rightarrow> r)))"
proof -
  let ?f = "\<lambda>(key, raw) m. if drop (length HEARTBEAT_PREFIX) key = [] then m
         else jset (key_platform key)
           (note_heartbeat now (parse_hb (case raw of None \<Rightarrow> [] | Some r \<Rightarrow> r)) (jget_or no_instance m (key_platform key))) m"
  have "ps_alive (jget_or no_instance (fold ?f es m) p) \<longleftrightarrow> ps_alive (jget_or no_instance m p) \<or>
     (\<exists>(key, raw) \<in> set es. drop (length HEARTBEAT_PREFIX) key \<noteq> [] \<and> key_platform key = p \<and>
       fresh_heartbeat now (parse_hb (case raw of None \<Rightarrow> [] | Some r \<Rightarrow> r)))" for es m
  proof (induction es arbitrary: m)
    case (Cons e es)
    obtain key raw where e: "e = (key, raw)" by fastforce
    show ?case
    proof (cases "drop (length HEARTBEAT_PREFIX) key = []")
      case False
      then have step: "fold ?f (e # es) m = fold ?f es (jset (key_platform key)
          (note_heartbeat now (parse_hb (case raw of None \<Rightarrow> [] | Some r \<Rightarrow> r)) (jget_or no_instance m (key_platform key))) m)"
        by (simp add: e)
      show ?thesis unfolding step Cons.IH using False by (auto simp: e alive_note)
    qed (use Cons.IH [of m] in \<open>simp add: e\<close>)
  qed simp
  then show ?thesis unfolding by_platform_def by (simp add: jget_or_def no_instance_def)
qed

lemma workers_alive_iff:
  "p \<in> set WORKER_PLATFORMS \<Longrightarrow> (\<exists>r \<in> set (health_workers parse_hb now entries db). wk_platform r = p \<and> wk_alive r) \<longleftrightarrow>
     (\<exists>(key, raw) \<in> set entries. drop (length HEARTBEAT_PREFIX) key \<noteq> [] \<and> key_platform key = p \<and>
       fresh_heartbeat now (parse_hb (case raw of None \<Rightarrow> [] | Some r \<Rightarrow> r)))"
  unfolding by_platform_alive [symmetric]
  by (auto simp: health_workers_def Let_def jget_or_def no_instance_def split: option.splits)

section \<open>Errors\<close>

datatype thrown = ThrownApp app_error | ThrownError "nat option" string "string option"

record error_answer =
  ea_status :: int
  ea_code :: string
  ea_message :: string
  ea_details :: "(string \<times> json) list option"
  ea_stack :: "string option"

definition errorHandler :: "bool \<Rightarrow> thrown \<Rightarrow> error_answer" where
  "errorHandler exposeStack e =
     (case e of
        ThrownApp a \<Rightarrow> \<lparr> ea_status = app_error.ae_statusCode a, ea_code = ae_code a, ea_message = ae_message a, ea_details = ae_details a,
          ea_stack = None \<rparr>
      | ThrownError status message stack \<Rightarrow>
          (let statusCode = (case status of None \<Rightarrow> 500 | Some n \<Rightarrow> n)
           in \<lparr> ea_status = int statusCode, ea_code = ''ERROR'',
                ea_message = (if statusCode = 500 then ''Internal server error'' else message), ea_details = None,
                ea_stack = (if exposeStack then (case stack of Some (c # cs) \<Rightarrow> Some (c # cs) | _ \<Rightarrow> None) else None) \<rparr>))"

text \<open>
  An error without a status says nothing of itself; one that carries a status of its own shows its text, also when that is
  a status of the server.
\<close>

lemma internal_errors_hidden:
  "errorHandler False (ThrownError None m s) = errorHandler False (ThrownError None m' s')"
  by (simp add: errorHandler_def)

lemma other_statuses_shown:
  "n \<noteq> 500 \<Longrightarrow> ea_message (errorHandler False (ThrownError (Some n) m s)) = m"
  by (simp add: errorHandler_def)

lemma internal_app_error_shown: "ea_message (errorHandler False (ThrownApp (internal_error m))) = m"
  by (simp add: errorHandler_def internal_error_def)

end
