(* ===== verification/Spec2Isabelle.thy ===== *)
theory Spec2Isabelle
  imports BotState CircuitBreaker HealthScore RateLimiter Idempotency ProxyPool StickySessions
    Batchers WaitTracker EventBus Sanitize BotDomain Budgets WebhookGuard Strategies RiskGuard Ledger
    ScriptConfig ScriptEngine ScriptRun SandboxAction PatternLibrary
    Lifecycle SelfHealing HumanDelay WorkerBots Reconnects WorkerActions SelfHealingLoop EventFunnel Leadership BinanceApi PriceSources
    StreamHub CryptoConfig CryptoOrders CryptoTrading CryptoLoop WorkerJobs CryptoHelpers Credentials BotMemory AuthTokens AuthRoutes AuthSafety ProxyChecks Schemas JobQueues ApiTables BotRoutes AccountRoutes ScriptRoutes WebhookRoutes EventRoutes ApiSafety WebhookJobs TelegramHook LogRoutes LogStream ApiServer
begin

text \<open>
  BotHive runs bots on messaging and trading platforms. This development models its program logic.

  \<^bold>\<open>Parts.\<close> The core package holds the state machine of a bot (\<open>BotState\<close>) and the aggregate around it
  (\<open>BotDomain\<close>), what protects a connection (\<open>CircuitBreaker\<close>, \<open>HealthScore\<close>, \<open>RateLimiter\<close>,
  \<open>Budgets\<close>), the proxies of the bots (\<open>ProxyPool\<close>, \<open>StickySessions\<close>), the events between workers and
  API (\<open>Contracts\<close>, \<open>Idempotency\<close>, \<open>EventBus\<close>), the guard of outgoing requests (\<open>WebhookGuard\<close>) and of
  stored error texts (\<open>Sanitize\<close>), the credentials at rest and the change of their key (\<open>Credentials\<close>), the validation of user scripts (\<open>ScriptConfig\<close>), and the trading
  logic (\<open>Strategies\<close>, \<open>RiskGuard\<close>). The workers package adds the trade ledger (\<open>Ledger\<close>), the
  batching of rows (\<open>Batchers\<close>), wait times (\<open>WaitTracker\<close>) and the script engine: its registry
  (\<open>ScriptEngine\<close>), the run of a script over its actions (\<open>ScriptRun\<close>) and the threads of custom actions
  (\<open>SandboxAction\<close>). \<open>PatternLibrary\<close> generates scripts that the validation accepts.
  The worker of a platform itself (packages/workers/src/base-worker.ts) is \<open>WorkerBots\<close> with its entries,
  breakers and timers, \<open>Reconnects\<close> (every chain of reconnects ends), \<open>WorkerActions\<close> with outgoing
  actions and self-healing, \<open>SelfHealingLoop\<close> (self-healing over time), \<open>EventFunnel\<close> (events and
  replays), \<open>Leadership\<close> (one process of a platform leads) and \<open>WorkerJobs\<close> (control jobs, the start of
  all bots and their handing over). It uses the schedules, the anomaly
  detection and the random pauses of the core package (\<open>Lifecycle\<close>, \<open>SelfHealing\<close>, \<open>HumanDelay\<close>).
  The crypto worker (packages/workers/src/crypto) trades for its bots: \<open>CryptoConfig\<close> reads the
  configuration and stores the state, \<open>CryptoOrders\<close> places orders within the daily limit,
  \<open>CryptoTrading\<close> decides on exits and signals at every tick, and \<open>CryptoLoop\<close> polls, reconciles with the
  exchange, connects and disconnects. Under it are the clients of the exchange and of the price
  source (\<open>BinanceApi\<close>, \<open>PriceSources\<close>, packages/core/src/crypto) and the shared price sockets
  (\<open>StreamHub\<close>). \<open>CryptoHelpers\<close> has the random config of a new bot, what of it goes to a worker, and wallets.

  \<^bold>\<open>Shared theories.\<close> \<open>Prelude\<close> has JavaScript maps as association lists and the locales of bounded
  buffers and guarded machines, \<open>JsNumber\<close> binary64 arithmetic with infinities and NaN by rounding of
  rationals, \<open>Json\<close> the values of JSON, \<open>Texts\<close> the string functions that the parsers use.

  \<^bold>\<open>Conventions.\<close> A class is a record, a method a function on it that returns the new record; clock
  readings, random numbers, handlers and what lies outside of the repository are arguments.
  Asynchronous components are step relations whose steps are the segments between two awaits.

  \<^bold>\<open>Bounds.\<close> Loops of the code that may not end are \<open>partial_function\<close>s or take their random numbers from a
  list; the rounds of request retries are counted by the code itself. No theorem rests on chosen fuel.

  \<^bold>\<open>Not modelled.\<close> The dashboard, the platform adapters, HTTP, databases, Redis and tracing, and the
  HTTP routes: they consist of calls of libraries that are not in the repository.
\<close>

section \<open>Patterns and the script engine together\<close>

text \<open>A counter name with a dash, which the patterns allow, is no placeholder for the engine.\<close>

lemma dashed_counter_not_shown:
  "counterName (JObj [(''counterName'', JStr ''my-counter'')]) ''visits'' = ''my-counter'' \<and>
   placeholder ''{counters.my-counter}'' = None"
  by (simp add: counterName_def str_param_def placeholder_def word_char_def starts_with_def)

text \<open>The condition of a threshold alert holds for every count from the threshold on.\<close>

lemma threshold_repeats:
  assumes "map_of m (JStr name) = Some (jint k)" and "t \<le> k" and "\<And>v. to_number E (JNum v) = v"
  shows "evaluateCondition E r m \<lparr> operator = ''gte'', field = Some (''counters.'' @ name), cvalue = JNum (jint t) \<rparr> = Matches"
  using assms by (simp add: evaluateCondition_def left_value_def counter_value_def strip_prefix_def)

end
